(* ===== verification/Prelude.thy ===== *)
theory Prelude
  imports Main "HOL-Library.Word" "HOL-Library.AList" "HOL-Library.Monad_Syntax"
begin

text \<open>
  Shared ground of the development.  It holds the collections of simplification rules the
  components fill, the byte-string routines of the C++ standard library that the sources use
  (\<^verbatim>\<open>find\<close>, \<^verbatim>\<open>rfind\<close>, \<^verbatim>\<open>substr\<close>, segment loops), association tables with an expiry
  (the \<^verbatim>\<open>std::map\<close> / \<^verbatim>\<open>std::unordered_map\<close> members that several components purge), the
  sequencing of fallible steps, and two interfaces as locales: an encoder with its decoder,
  and a state machine with an invariant.

  A \<^verbatim>\<open>std::string\<close> is a \<^typ>\<open>string\<close>: a list of 8-bit characters, so a length counts bytes.
\<close>

unbundle bit_operations_syntax

named_theorems str_simps \<open>byte-string routines\<close>
named_theorems table_simps \<open>association tables\<close>
named_theorems step_defs \<open>definitions of the operations of a component\<close>

subsection \<open>Fallible steps\<close>

text \<open>A C++ call that may throw is a sum: \<^term>\<open>Inl\<close> carries the exception.\<close>

definition res_bind :: "'e + 'a \<Rightarrow> ('a \<Rightarrow> 'e + 'b) \<Rightarrow> 'e + 'b" where
  "res_bind m f = (case m of Inl e \<Rightarrow> Inl e | Inr x \<Rightarrow> f x)"

definition check_that :: "bool \<Rightarrow> 'e \<Rightarrow> 'e + unit" where
  "check_that ok e = (if ok then Inr () else Inl e)"

lemma res_bind_Inr [simp]: "res_bind (Inr x) f = f x"
  by (simp add: res_bind_def)

lemma res_bind_Inl [simp]: "res_bind (Inl e) f = Inl e"
  by (simp add: res_bind_def)

lemma res_bind_eq_Inr: "res_bind m f = Inr y \<longleftrightarrow> (\<exists>x. m = Inr x \<and> f x = Inr y)"
  by (cases m) auto

lemma res_bind_eq_Inl: "res_bind m f = Inl e \<longleftrightarrow> m = Inl e \<or> (\<exists>x. m = Inr x \<and> f x = Inl e)"
  by (cases m) auto

lemma check_that_eq_Inr [simp]: "check_that ok e = Inr u \<longleftrightarrow> ok"
  by (simp add: check_that_def)

lemma check_that_eq_Inl [simp]: "check_that ok e = Inl e' \<longleftrightarrow> \<not> ok \<and> e = e'"
  by (auto simp: check_that_def)

text \<open>A loop that stops at the first failure (\<^verbatim>\<open>for (...) { if (!f(x)) return ...; push_back }\<close>).\<close>

fun traverse :: "('a \<Rightarrow> 'b option) \<Rightarrow> 'a list \<Rightarrow> 'b list option" where
  "traverse f [] = Some []"
| "traverse f (x # xs) =
     (case f x of
        None \<Rightarrow> None
      | Some y \<Rightarrow> (case traverse f xs of None \<Rightarrow> None | Some ys \<Rightarrow> Some (y # ys)))"

lemma traverse_map: "(\<And>x. x \<in> set xs \<Longrightarrow> f (g x) = Some x) \<Longrightarrow> traverse f (map g xs) = Some xs"
  by (induction xs) auto

lemma traverse_Some_length: "traverse f xs = Some ys \<Longrightarrow> length ys = length xs"
  by (induction xs arbitrary: ys) (auto split: option.splits)

lemma traverse_Some_set:
  "traverse f xs = Some ys \<Longrightarrow> y \<in> set ys \<Longrightarrow> \<exists>x\<in>set xs. f x = Some y"
  by (induction xs arbitrary: ys) (auto split: option.splits)

lemma traverse_None: "traverse f xs = None \<longleftrightarrow> (\<exists>x\<in>set xs. f x = None)"
  by (induction xs) (auto split: option.splits)

lemma traverse_iff_map:
  assumes strict: "\<And>x y. f x = Some y \<longleftrightarrow> x = g y"
  shows "traverse f xs = Some ys \<longleftrightarrow> xs = map g ys"
proof
  have "f (g y) = Some y" for y using strict by simp
  then show "xs = map g ys \<Longrightarrow> traverse f xs = Some ys" by (simp add: traverse_map)
  show "traverse f xs = Some ys \<Longrightarrow> xs = map g ys"
    by (induction xs arbitrary: ys) (auto simp: strict split: option.splits)
qed

lemma takeWhile_all: "(\<And>x. x \<in> set xs \<Longrightarrow> P x) \<Longrightarrow> takeWhile P xs = xs \<and> dropWhile P xs = []"
  by (induction xs) auto

subsection \<open>Byte strings\<close>

text \<open>The byte of a character, and the classes the C++ sources test.\<close>

definition byte :: "char \<Rightarrow> nat" where
  "byte c = of_char c"

definition ascii_digit :: "char \<Rightarrow> bool" where
  "ascii_digit c \<longleftrightarrow> 48 \<le> byte c \<and> byte c \<le> 57"

definition ascii_upper :: "char \<Rightarrow> bool" where
  "ascii_upper c \<longleftrightarrow> 65 \<le> byte c \<and> byte c \<le> 90"

definition ascii_lower :: "char \<Rightarrow> bool" where
  "ascii_lower c \<longleftrightarrow> 97 \<le> byte c \<and> byte c \<le> 122"

definition ascii_alnum :: "char \<Rightarrow> bool" where
  "ascii_alnum c \<longleftrightarrow> ascii_upper c \<or> ascii_lower c \<or> ascii_digit c"

definition control_byte :: "char \<Rightarrow> bool" where
  "control_byte c \<longleftrightarrow> byte c < 32 \<or> byte c = 127"

text \<open>\<^verbatim>\<open>std::tolower\<close> and \<^verbatim>\<open>std::toupper\<close> in the C locale.\<close>

definition to_lower :: "char \<Rightarrow> char" where
  "to_lower c = (if ascii_upper c then char_of (byte c + 32) else c)"

definition to_upper :: "char \<Rightarrow> char" where
  "to_upper c = (if ascii_lower c then char_of (byte c - 32) else c)"

lemmas byte_class_defs =
  byte_def ascii_digit_def ascii_upper_def ascii_lower_def ascii_alnum_def control_byte_def

lemma byte_less_256 [simp]: "byte c < 256"
  by (simp add: byte_def)

lemma byte_char_of [simp]: "n < 256 \<Longrightarrow> byte (char_of n) = n"
  by (simp add: byte_def)

lemma byte_inject: "byte c = byte d \<longleftrightarrow> c = d"
  by (metis byte_def char_of_char)

text \<open>\<^verbatim>\<open>starts_with\<close>, \<^verbatim>\<open>ends_with\<close>, \<^verbatim>\<open>find\<close> and \<^verbatim>\<open>rfind\<close>; \<^term>\<open>None\<close> is \<^verbatim>\<open>npos\<close>.\<close>

definition starts_with :: "'a list \<Rightarrow> 'a list \<Rightarrow> bool" where
  "starts_with pre s \<longleftrightarrow> take (length pre) s = pre"

definition ends_with :: "'a list \<Rightarrow> 'a list \<Rightarrow> bool" where
  "ends_with suf s \<longleftrightarrow> length suf \<le> length s \<and> drop (length s - length suf) s = suf"

fun find_char :: "'a \<Rightarrow> 'a list \<Rightarrow> nat option" where
  "find_char d [] = None"
| "find_char d (c # cs) = (if c = d then Some 0 else map_option Suc (find_char d cs))"

fun rfind_char :: "'a \<Rightarrow> 'a list \<Rightarrow> nat option" where
  "rfind_char d [] = None"
| "rfind_char d (c # cs) =
     (case rfind_char d cs of
        Some i \<Rightarrow> Some (Suc i)
      | None \<Rightarrow> if c = d then Some 0 else None)"

fun find_sub :: "'a list \<Rightarrow> 'a list \<Rightarrow> nat option" where
  "find_sub needle [] = (if needle = [] then Some 0 else None)"
| "find_sub needle (c # cs) =
     (if starts_with needle (c # cs) then Some 0 else map_option Suc (find_sub needle cs))"

fun rfind_sub :: "'a list \<Rightarrow> 'a list \<Rightarrow> nat option" where
  "rfind_sub needle [] = (if needle = [] then Some 0 else None)"
| "rfind_sub needle (c # cs) =
     (case rfind_sub needle cs of
        Some i \<Rightarrow> Some (Suc i)
      | None \<Rightarrow> if starts_with needle (c # cs) then Some 0 else None)"

text \<open>The segments a \<^verbatim>\<open>for (;;) { find(d, from); substr(...); from = pos + 1 }\<close> loop visits.\<close>

fun split_on :: "'a \<Rightarrow> 'a list \<Rightarrow> 'a list list" where
  "split_on d [] = [[]]"
| "split_on d (c # cs) =
     (if c = d then [] # split_on d cs
      else (c # hd (split_on d cs)) # tl (split_on d cs))"

fun join_with :: "'a \<Rightarrow> 'a list list \<Rightarrow> 'a list" where
  "join_with d [] = []"
| "join_with d [s] = s"
| "join_with d (s # t # ss) = s @ d # join_with d (t # ss)"

definition trim_by :: "('a \<Rightarrow> bool) \<Rightarrow> 'a list \<Rightarrow> 'a list" where
  "trim_by ws s = rev (dropWhile ws (rev (dropWhile ws s)))"

text \<open>\<^verbatim>\<open>find_first_not_of(" \t\r\n")\<close> and its mirror image, as used by every \<^verbatim>\<open>trim\<close>.\<close>

definition blank_char :: "char \<Rightarrow> bool" where
  "blank_char c \<longleftrightarrow> c \<in> {CHR '' '', CHR 0x09, CHR 0x0D, CHR 0x0A}"

definition trim_blank :: "string \<Rightarrow> string" where
  "trim_blank = trim_by blank_char"


subsubsection \<open>Facts on prefixes, suffixes and positions\<close>

lemma starts_with_append [simp, str_simps]: "starts_with pre (pre @ s)"
  by (simp add: starts_with_def)

lemma starts_with_iff: "starts_with pre s \<longleftrightarrow> (\<exists>t. s = pre @ t)"
  by (metis append_eq_conv_conj starts_with_def append_take_drop_id)

lemma ends_with_append [simp, str_simps]: "ends_with suf (s @ suf)"
  by (simp add: ends_with_def)

lemma ends_with_iff: "ends_with suf s \<longleftrightarrow> (\<exists>t. s = t @ suf)"
  by (metis append_take_drop_id diff_le_self ends_with_append ends_with_def)

lemma find_char_None [str_simps]: "find_char d s = None \<longleftrightarrow> d \<notin> set s"
  by (induction s) auto

lemma find_char_append [str_simps]: "d \<notin> set s \<Longrightarrow> find_char d (s @ d # t) = Some (length s)"
  by (induction s) auto

lemma find_char_SomeD:
  "find_char d s = Some i \<Longrightarrow> i < length s \<and> s = take i s @ d # drop (Suc i) s \<and> d \<notin> set (take i s)"
proof (induction s arbitrary: i)
  case (Cons c cs)
  then show ?case by (cases "c = d") auto
qed simp

lemma rfind_char_None [str_simps]: "rfind_char d s = None \<longleftrightarrow> d \<notin> set s"
  by (induction s) (auto split: option.splits)

lemma rfind_char_append [str_simps]: "d \<notin> set t \<Longrightarrow> rfind_char d (s @ d # t) = Some (length s)"
proof (induction s)
  case Nil
  then show ?case by (simp add: rfind_char_None [THEN iffD2])
qed simp

lemma rfind_char_SomeD:
  "rfind_char d s = Some i \<Longrightarrow> i < length s \<and> s = take i s @ d # drop (Suc i) s \<and> d \<notin> set (drop (Suc i) s)"
proof (induction s arbitrary: i)
  case (Cons c cs)
  show ?case
  proof (cases "rfind_char d cs")
    case None
    with Cons.prems show ?thesis by (auto simp: rfind_char_None split: if_splits)
  next
    case (Some j)
    with Cons.prems have "i = Suc j" by simp
    with Cons.IH [OF Some] show ?thesis by simp
  qed
qed simp

lemma find_sub_NoneD: "find_sub needle s = None \<Longrightarrow> s \<noteq> pre @ needle @ suf"
proof (induction s arbitrary: pre)
  case (Cons c cs)
  then show ?case
    by (cases pre) (auto split: if_splits simp: starts_with_def)
qed (simp split: if_splits)

lemma find_sub_SomeD: "find_sub needle s = Some i \<Longrightarrow> s = take i s @ needle @ drop (i + length needle) s"
proof (induction s arbitrary: i)
  case Nil
  then show ?case by (simp split: if_splits)
next
  case (Cons c cs)
  show ?case
  proof (cases "starts_with needle (c # cs)")
    case True
    with Cons.prems show ?thesis by (simp, metis append_take_drop_id starts_with_def)
  next
    case False
    with Cons.prems obtain j where "find_sub needle cs = Some j" "i = Suc j" by auto
    with Cons.IH [of j] show ?thesis by simp
  qed
qed

lemma find_sub_None_iff: "find_sub needle s = None \<longleftrightarrow> (\<forall>pre suf. s \<noteq> pre @ needle @ suf)"
  by (metis find_sub_NoneD find_sub_SomeD not_None_eq)

lemma rfind_sub_None_iff: "rfind_sub needle s = None \<longleftrightarrow> find_sub needle s = None"
  by (induction s) (auto split: option.splits)

lemma rfind_sub_append:
  assumes "needle \<noteq> []" "find_sub needle (tl needle @ t) = None"
  shows "rfind_sub needle (s @ needle @ t) = Some (length s)"
proof (induction s)
  case Nil
  obtain c cs where needle: "needle = c # cs" using assms(1) by (cases needle) auto
  with assms(2) have "rfind_sub needle (cs @ t) = None" by (simp add: rfind_sub_None_iff)
  with needle show ?case by (simp add: starts_with_def)
qed simp

subsubsection \<open>Segments\<close>

lemma split_on_nonempty [simp]: "split_on d s \<noteq> []"
  by (cases s) auto

lemma split_on_free [str_simps]: "d \<notin> set s \<Longrightarrow> split_on d s = [s]"
  by (induction s) auto

lemma split_on_append [str_simps]: "split_on d (s @ d # t) = split_on d s @ split_on d t"
  by (induction s) (auto simp: hd_append tl_append split: list.splits)

lemma split_on_segment_free: "seg \<in> set (split_on d s) \<Longrightarrow> d \<notin> set seg"
proof (induction s arbitrary: seg)
  case (Cons c cs)
  obtain h t where "split_on d cs = h # t" by (cases "split_on d cs") auto
  with Cons show ?case by (auto split: if_splits)
qed simp

lemma join_with_split_on: "join_with d (split_on d s) = s"
proof (induction s)
  case (Cons c cs)
  obtain h t where split: "split_on d cs = h # t" by (cases "split_on d cs") auto
  with Cons show ?case by (cases t) auto
qed simp

lemma split_on_join_with:
  "ss \<noteq> [] \<Longrightarrow> (\<And>s. s \<in> set ss \<Longrightarrow> d \<notin> set s) \<Longrightarrow> split_on d (join_with d ss) = ss"
  by (induction d ss rule: join_with.induct) (auto simp: str_simps)

lemma trim_by_id: "s = [] \<or> (\<not> ws (hd s) \<and> \<not> ws (last s)) \<Longrightarrow> trim_by ws s = s"
  by (cases s) (auto simp: trim_by_def dropWhile_eq_self_iff hd_append hd_rev split: if_splits)


subsection \<open>Association tables with an expiry\<close>

text \<open>
  A \<^verbatim>\<open>std::map\<close> or \<^verbatim>\<open>std::unordered_map\<close> member is an association list with
  distinct keys, in iteration order; \<^const>\<open>map_of\<close> is \<^verbatim>\<open>find\<close>,
  \<^const>\<open>AList.update\<close> is assignment or \<^verbatim>\<open>emplace\<close> of a new key and
  \<^const>\<open>AList.delete\<close> is \<^verbatim>\<open>erase\<close>.  \<open>purge_expired\<close> is the loop that
  erases every entry whose deadline has passed.
\<close>

type_synonym ('k, 'v) table = "('k \<times> 'v) list"

definition distinct_keys :: "('k, 'v) table \<Rightarrow> bool" where
  "distinct_keys t \<longleftrightarrow> distinct (map fst t)"

definition purge_expired :: "('v \<Rightarrow> int) \<Rightarrow> int \<Rightarrow> ('k, 'v) table \<Rightarrow> ('k, 'v) table" where
  "purge_expired expiry now t = filter (\<lambda>kv. now < expiry (snd kv)) t"

lemma distinct_keys_Nil [simp]: "distinct_keys []"
  by (simp add: distinct_keys_def)

lemma distinct_keys_update [table_simps, intro]:
  "distinct_keys t \<Longrightarrow> distinct_keys (AList.update k v t)"
  by (simp add: distinct_keys_def distinct_update)

lemma distinct_keys_delete [table_simps, intro]:
  "distinct_keys t \<Longrightarrow> distinct_keys (AList.delete k t)"
  by (simp add: distinct_keys_def distinct_delete)

lemma distinct_map_fst_filter: "distinct (map fst t) \<Longrightarrow> distinct (map fst (filter P t))"
  by (simp add: distinct_map_filter)

lemma distinct_keys_purge [table_simps, intro]:
  "distinct_keys t \<Longrightarrow> distinct_keys (purge_expired expiry now t)"
  by (simp add: distinct_keys_def purge_expired_def distinct_map_fst_filter)

lemma distinct_keys_mem: "distinct_keys t \<Longrightarrow> (k, v) \<in> set t \<longleftrightarrow> map_of t k = Some v"
  by (simp add: distinct_keys_def)

lemma map_of_update [table_simps]: "map_of (AList.update k v t) = (map_of t)(k \<mapsto> v)"
  by (simp add: update_conv')

lemma map_of_delete [table_simps]: "map_of (AList.delete k t) = (map_of t)(k := None)"
  by (rule AList.delete_conv')

lemma map_of_purge [table_simps]:
  "distinct_keys t \<Longrightarrow>
   map_of (purge_expired expiry now t) k =
     (case map_of t k of None \<Rightarrow> None | Some v \<Rightarrow> if now < expiry v then Some v else None)"
proof (induction t)
  case (Cons kv t)
  then show ?case
    by (cases kv) (auto simp: purge_expired_def distinct_keys_def map_of_eq_None_iff
        split: option.splits dest: map_of_SomeD)
qed (simp add: purge_expired_def)

lemma purge_expired_length: "length (purge_expired expiry now t) \<le> length t"
  by (simp add: purge_expired_def)

lemma purge_expired_subset: "set (purge_expired expiry now t) \<subseteq> set t"
  by (auto simp: purge_expired_def)

lemma length_update_le:
  "length (AList.update k v t) = (if map_of t k = None then Suc (length t) else length t)"
  by (induction t) auto

lemma length_delete_le: "length (AList.delete k t) \<le> length t"
  by (simp add: AList.delete_eq)

lemma set_update_subset: "set (AList.update k v t) \<subseteq> insert (k, v) (set t)"
  by (induction t) auto

lemma set_delete_subset: "set (AList.delete k t) \<subseteq> set t"
  by (auto simp: AList.delete_eq)

text \<open>The interface of such a table, and what a client may rely on.\<close>

locale expiring_table =
  fixes lookup :: "'t \<Rightarrow> 'k \<Rightarrow> 'v option"
    and store :: "'k \<Rightarrow> 'v \<Rightarrow> 't \<Rightarrow> 't"
    and erase :: "'k \<Rightarrow> 't \<Rightarrow> 't"
    and purge :: "int \<Rightarrow> 't \<Rightarrow> 't"
    and expiry :: "'v \<Rightarrow> int"
    and wf :: "'t \<Rightarrow> bool"
  assumes lookup_store: "lookup (store k v t) k' = (if k' = k then Some v else lookup t k')"
    and lookup_erase: "lookup (erase k t) k' = (if k' = k then None else lookup t k')"
    and lookup_purge: "wf t \<Longrightarrow> lookup (purge now t) k =
      (case lookup t k of None \<Rightarrow> None | Some v \<Rightarrow> if now < expiry v then Some v else None)"
    and wf_store: "wf t \<Longrightarrow> wf (store k v t)"
    and wf_erase: "wf t \<Longrightarrow> wf (erase k t)"
    and wf_purge: "wf t \<Longrightarrow> wf (purge now t)"
begin

lemma live_after_purge: "wf t \<Longrightarrow> lookup (purge now t) k = Some v \<Longrightarrow> lookup t k = Some v \<and> now < expiry v"
  by (auto simp: lookup_purge split: option.splits if_splits)

lemma purge_keeps_live: "wf t \<Longrightarrow> lookup t k = Some v \<Longrightarrow> now < expiry v \<Longrightarrow> lookup (purge now t) k = Some v"
  by (simp add: lookup_purge)

lemma erased_is_gone: "lookup (erase k t) k = None"
  by (simp add: lookup_erase)

lemma erased_stays_gone: "wf t \<Longrightarrow> lookup (purge now (erase k t)) k = None"
  by (simp add: lookup_purge wf_erase lookup_erase)

lemma store_then_purge:
  "wf t \<Longrightarrow> now < expiry v \<Longrightarrow> lookup (purge now (store k v t)) k = Some v"
  by (simp add: lookup_purge wf_store lookup_store)

end

subsection \<open>Encoders and decoders\<close>

text \<open>
  Every persisted or transmitted shape has an encoder and a decoder.  \<open>codec\<close> is the
  round-trip contract on the values \<open>ok\<close>; \<open>strict_codec\<close> adds that the decoder accepts
  nothing but encodings.
\<close>

locale codec =
  fixes enc :: "'a \<Rightarrow> 'b" and dec :: "'b \<Rightarrow> 'a option" and ok :: "'a \<Rightarrow> bool"
  assumes dec_enc: "ok x \<Longrightarrow> dec (enc x) = Some x"
begin

lemma enc_inject: "ok x \<Longrightarrow> ok y \<Longrightarrow> enc x = enc y \<Longrightarrow> x = y"
  by (metis dec_enc option.inject)

lemma dec_enc_list: "(\<And>x. x \<in> set xs \<Longrightarrow> ok x) \<Longrightarrow> traverse dec (map enc xs) = Some xs"
  by (rule traverse_map) (simp add: dec_enc)

end

locale strict_codec = codec +
  assumes dec_only: "dec y = Some x \<Longrightarrow> ok x \<and> y = enc x"
begin

lemma dec_iff: "dec y = Some x \<longleftrightarrow> ok x \<and> y = enc x"
  using dec_enc dec_only by blast

lemma dec_None_iff: "dec y = None \<longleftrightarrow> y \<notin> enc ` {x. ok x}"
  using dec_iff [of y] by (cases "dec y") auto

end

subsection \<open>State machines\<close>

text \<open>
  A component that is called many times, from several threads under one mutex, is a step
  relation over labels; a run is a sequence of calls in the order the mutex serialised them.
\<close>

inductive run :: "('s \<Rightarrow> 'l \<Rightarrow> 's \<Rightarrow> bool) \<Rightarrow> 's \<Rightarrow> 'l list \<Rightarrow> 's \<Rightarrow> bool" for step where
  run_Nil: "run step s [] s"
| run_snoc: "run step s ls s' \<Longrightarrow> step s' l s'' \<Longrightarrow> run step s (ls @ [l]) s''"

lemma run_Cons: "run step s' ls s'' \<Longrightarrow> step s l s' \<Longrightarrow> run step s (l # ls) s''"
proof (induction rule: run.induct)
  case run_Nil
  then show ?case using run.run_snoc [where step = step, OF run.run_Nil] by fastforce
next
  case (run_snoc s ls s' l' s'')
  then show ?case using run.run_snoc [where step = step and ls = "l # ls"] by fastforce
qed

locale machine =
  fixes step :: "'s \<Rightarrow> 'l \<Rightarrow> 's \<Rightarrow> bool" and inv :: "'s \<Rightarrow> bool"
  assumes inv_step: "inv s \<Longrightarrow> step s l s' \<Longrightarrow> inv s'"
begin

lemma run_inv: "run step s ls s' \<Longrightarrow> inv s \<Longrightarrow> inv s'"
  by (induction rule: run.induct) (auto intro: inv_step)

end

text \<open>
  A machine whose invariant speaks about the history of calls as well: the ghost list of
  labels is the trace so far.
\<close>

locale traced_machine =
  fixes step :: "'s \<Rightarrow> 'l \<Rightarrow> 's \<Rightarrow> bool" and hinv :: "'l list \<Rightarrow> 's \<Rightarrow> bool"
  assumes hinv_step: "hinv h s \<Longrightarrow> step s l s' \<Longrightarrow> hinv (h @ [l]) s'"
begin

lemma run_hinv: "run step s ls s' \<Longrightarrow> hinv h s \<Longrightarrow> hinv (h @ ls) s'"
  by (induction rule: run.induct) (auto intro: hinv_step simp flip: append_assoc)

end


end
