(* ===== verification/Json.thy ===== *)
theory Json
  imports Prelude
begin

text \<open>
  The JSON values the C++ sources receive and build (\<^verbatim>\<open>nlohmann::json\<close>), as data: a
  number is one of the three representations the library keeps apart, so that
  \<^verbatim>\<open>is_number_unsigned\<close>, \<^verbatim>\<open>is_number_integer\<close> and the two's-complement reading of
  a signed number are as the code sees them.  A float is kept as its 64-bit pattern, which no
  modelled code inspects.  An object is the association list of its members; a parser
  delivers distinct keys.  Serialisation and parsing of texts belong to the library and are
  parameters of the definitions that use them.
\<close>

datatype json =
    JNull
  | JBool bool
  | JInt "64 word"
  | JUnsigned "64 word"
  | JFloat "64 word"
  | JString string
  | JArray "json list"
  | JObject "(string \<times> json) list"

named_theorems json_simps \<open>reading and building JSON values\<close>

fun is_object :: "json \<Rightarrow> bool" where
  "is_object (JObject kvs) = True"
| "is_object _ = False"

fun is_array :: "json \<Rightarrow> bool" where
  "is_array (JArray xs) = True"
| "is_array _ = False"

fun is_string :: "json \<Rightarrow> bool" where
  "is_string (JString s) = True"
| "is_string _ = False"

fun is_number_unsigned :: "json \<Rightarrow> bool" where
  "is_number_unsigned (JUnsigned w) = True"
| "is_number_unsigned _ = False"

fun is_number_integer :: "json \<Rightarrow> bool" where
  "is_number_integer (JInt w) = True"
| "is_number_integer (JUnsigned w) = True"
| "is_number_integer _ = False"

fun get_word :: "json \<Rightarrow> 64 word" where
  "get_word (JInt w) = w"
| "get_word (JUnsigned w) = w"
| "get_word _ = 0"

fun get_string :: "json \<Rightarrow> string" where
  "get_string (JString s) = s"
| "get_string _ = []"

fun members :: "json \<Rightarrow> (string \<times> json) list" where
  "members (JObject kvs) = kvs"
| "members _ = []"

text \<open>\<^verbatim>\<open>value.find(key)\<close>: \<^term>\<open>None\<close> is \<^verbatim>\<open>end()\<close>, as it is on every non-object.\<close>

definition obj_find :: "json \<Rightarrow> string \<Rightarrow> json option" where
  "obj_find v k = map_of (members v) k"

text \<open>Fields read with a type test: \<^term>\<open>None\<close> when the field is missing or of another type.\<close>

definition find_string :: "json \<Rightarrow> string \<Rightarrow> string option" where
  "find_string v k = (case obj_find v k of Some (JString s) \<Rightarrow> Some s | _ \<Rightarrow> None)"

text \<open>\<^verbatim>\<open>get<std::int64_t>() > 0\<close> of a number read as signed.\<close>

definition signed_positive :: "64 word \<Rightarrow> bool" where
  "signed_positive w \<longleftrightarrow> 0 < sint w"

lemma obj_find_JObject [simp, json_simps]: "obj_find (JObject kvs) k = map_of kvs k"
  by (simp add: obj_find_def)

lemma obj_find_no_object [json_simps]: "\<not> is_object v \<Longrightarrow> obj_find v k = None"
  by (cases v) (auto simp: obj_find_def)

lemma obj_find_is_object: "obj_find v k = Some x \<Longrightarrow> is_object v"
  by (cases v) (auto simp: obj_find_def)

lemma is_objectE: "is_object v \<Longrightarrow> (\<And>kvs. v = JObject kvs \<Longrightarrow> P) \<Longrightarrow> P"
  by (cases v) auto

lemma is_stringE: "is_string v \<Longrightarrow> (\<And>s. v = JString s \<Longrightarrow> P) \<Longrightarrow> P"
  by (cases v) auto

lemma find_string_Some [json_simps]: "find_string v k = Some s \<longleftrightarrow> obj_find v k = Some (JString s)"
  by (auto simp: find_string_def split: option.splits json.splits)

lemma sint_nonneg_uint:
  assumes "0 \<le> sint (w :: 'a::len word)"
  shows "uint w = sint w"
proof -
  have "sint w < 2 ^ (LENGTH('a) - 1)" by (rule sint_lt)
  also have "\<dots> \<le> 2 ^ LENGTH('a)" by simp
  finally have "take_bit LENGTH('a) (sint w) = sint w"
    using assms by (simp add: take_bit_int_eq_self)
  then show ?thesis by (simp add: uint_sint)
qed

lemma sint_nonneg_unat: "0 \<le> sint (w :: 'a::len word) \<Longrightarrow> int (unat w) = sint w"
  by (simp add: sint_nonneg_uint)

end
