(* ===== verification/Base64.thy ===== *)
theory Base64
  imports Prelude
begin

text \<open>
  Base64 contents of file operations (\<^verbatim>\<open>decode_base64\<close> in
  \<^verbatim>\<open>native/src/policy.cpp\<close>).  The decoder checks length, padding and alphabet before it
  assembles 32-bit blocks; it is proved to be the exact inverse of the standard encoder, so
  each byte string has one accepted text.
\<close>

subsection \<open>The decoder\<close>

definition base64_value :: "char \<Rightarrow> int" where
  "base64_value c =
     (if ascii_upper c then int (byte c) - 65
      else if ascii_lower c then int (byte c) - 97 + 26
      else if ascii_digit c then int (byte c) - 48 + 52
      else if c = CHR ''+'' then 62
      else if c = CHR ''/'' then 63
      else - 1)"

definition base64_padding :: "string \<Rightarrow> nat" where
  "base64_padding s = (if ends_with ''=='' s then 2 else if ends_with ''='' s then 1 else 0)"

definition base64_char_ok :: "string \<Rightarrow> nat \<Rightarrow> bool" where
  "base64_char_ok s i =
     (let is_padding = s ! i = CHR ''=''; padding = base64_padding s in
      \<not> ((is_padding \<and> (padding = 0 \<or> i < length s - padding)) \<or>
         (\<not> is_padding \<and> base64_value (s ! i) < 0)))"

definition sextet :: "char \<Rightarrow> 32 word" where
  "sextet c = (if c = CHR ''='' then 0 else word_of_int (base64_value c))"

definition decode_block :: "char \<Rightarrow> char \<Rightarrow> char \<Rightarrow> char \<Rightarrow> 8 word list" where
  "decode_block a b c d =
     (let first = word_of_int (base64_value a) :: 32 word;
          second = word_of_int (base64_value b) :: 32 word;
          third = sextet c;
          fourth = sextet d;
          block = push_bit 18 first OR push_bit 12 second OR push_bit 6 third OR fourth
      in [ucast (drop_bit 16 block AND 255)]
         @ (if c \<noteq> CHR ''='' then [ucast (drop_bit 8 block AND 255)] else [])
         @ (if d \<noteq> CHR ''='' then [ucast (block AND 255)] else []))"

fun decode_blocks :: "string \<Rightarrow> 8 word list" where
  "decode_blocks (a # b # c # d # rest) = decode_block a b c d @ decode_blocks rest"
| "decode_blocks _ = []"

definition decode_base64 :: "string \<Rightarrow> nat \<Rightarrow> 8 word list option" where
  "decode_base64 encoded maximum =
     (let size = length encoded; padding = base64_padding encoded in
      if size mod 4 \<noteq> 0 then None
      else if size > (maximum + 2) div 3 * 4 then None
      else if \<not> list_all (base64_char_ok encoded) [0..<size] then None
      else if padding = 2 \<and> size \<ge> 4 \<and> base64_value (encoded ! (size - 3)) AND 15 \<noteq> 0 then None
      else if padding = 1 \<and> size \<ge> 4 \<and> base64_value (encoded ! (size - 2)) AND 3 \<noteq> 0 then None
      else
        (let output_size = size div 4 * 3 - padding; decoded = decode_blocks encoded in
         if output_size > maximum then None
         else if length decoded = output_size then Some decoded else None))"

subsection \<open>The standard encoder\<close>

text \<open>The alphabet of RFC 4648: \<open>A-Z\<close>, \<open>a-z\<close>, \<open>0-9\<close>, \<open>+\<close>, \<open>/\<close>.\<close>

definition base64_char :: "nat \<Rightarrow> char" where
  "base64_char v =
     (if v < 26 then char_of (v + 65)
      else if v < 52 then char_of (v - 26 + 97)
      else if v < 62 then char_of (v - 52 + 48)
      else if v = 62 then CHR ''+'' else CHR ''/'')"

fun encode_base64 :: "8 word list \<Rightarrow> string" where
  "encode_base64 (x # y # z # rest) =
     (let n = unat x * 65536 + unat y * 256 + unat z in
      [base64_char (n div 262144), base64_char (n div 4096 mod 64),
       base64_char (n div 64 mod 64), base64_char (n mod 64)] @ encode_base64 rest)"
| "encode_base64 [x, y] =
     (let n = unat x * 1024 + unat y * 4 in
      [base64_char (n div 4096), base64_char (n div 64 mod 64), base64_char (n mod 64), CHR ''=''])"
| "encode_base64 [x] =
     (let n = unat x * 16 in
      [base64_char (n div 64), base64_char (n mod 64), CHR ''='', CHR ''=''])"
| "encode_base64 [] = []"

subsection \<open>Characters and values\<close>

lemma byte_literals [simp]: "byte CHR ''+'' = 43" "byte CHR ''/'' = 47" "byte CHR ''='' = 61"
  by (simp_all add: byte_def)

lemma base64_value_char: "v < 64 \<Longrightarrow> base64_value (base64_char v) = int v"
  by (auto simp: base64_value_def base64_char_def ascii_upper_def ascii_lower_def ascii_digit_def)

lemma base64_char_not_pad: "v < 64 \<Longrightarrow> base64_char v \<noteq> CHR ''=''"
  by (auto simp: base64_char_def simp flip: byte_inject)

lemma base64_value_less [simp]: "base64_value c < 64"
  by (auto simp: base64_value_def ascii_upper_def ascii_lower_def ascii_digit_def)

lemma base64_value_pad: "base64_value CHR ''='' = - 1"
  by (simp add: base64_value_def ascii_upper_def ascii_lower_def ascii_digit_def)

lemma char_of_byte [simp]: "char_of (byte c) = c"
  by (simp add: byte_def)

lemma base64_char_value: "0 \<le> base64_value c \<Longrightarrow> base64_char (nat (base64_value c)) = c"
  by (auto simp: base64_value_def base64_char_def ascii_upper_def ascii_lower_def ascii_digit_def
      nat_diff_distrib nat_add_distrib split: if_splits simp flip: byte_inject)

subsection \<open>Blocks as numbers\<close>

lemma nat_or_add: "b < 2 ^ k \<Longrightarrow> push_bit k a OR b = a * 2 ^ k + (b :: nat)"
proof -
  assume b: "b < 2 ^ k"
  have "push_bit k a AND b = 0"
  proof (rule bit_eqI)
    fix n
    show "bit (push_bit k a AND b) n \<longleftrightarrow> bit (0 :: nat) n"
    proof (cases "k \<le> n")
      case True
      then have "b < 2 ^ n" using b by (meson less_le_trans one_le_numeral power_increasing)
      then have "\<not> bit b n" by (simp add: bit_iff_odd)
      then show ?thesis by (simp add: bit_simps)
    qed (simp add: bit_simps)
  qed
  then show ?thesis by (simp add: push_bit_eq_mult flip: disjunctive_add_eq_or)
qed

lemma unat_push_small: "v * 2 ^ k < 2 ^ 32 \<Longrightarrow> unat (push_bit k (of_nat v :: 32 word)) = push_bit k v"
proof -
  assume small: "v * 2 ^ k < 2 ^ 32"
  have "unat (push_bit k (of_nat v :: 32 word)) = unat (of_nat (push_bit k v) :: 32 word)"
    by (simp only: push_bit_of_nat)
  also have "\<dots> = push_bit k v mod 2 ^ 32" by (simp only: unat_of_nat) simp
  also have "\<dots> = push_bit k v" using small by (simp add: push_bit_eq_mult)
  finally show ?thesis .
qed

lemma block_value:
  assumes "p < 64" "q < 64" "r < 64" "t < (64 :: nat)"
  shows "unat (push_bit 18 (of_nat p) OR push_bit 12 (of_nat q) OR push_bit 6 (of_nat r) OR of_nat t :: 32 word)
    = p * 262144 + q * 4096 + r * 64 + t"
proof -
  have t: "unat (of_nat t :: 32 word) = t" using assms by (simp add: unat_of_nat)
  have r: "push_bit 6 r OR t = r * 64 + t" using assms nat_or_add [of t 6 r] by simp
  have q: "push_bit 12 q OR (r * 64 + t) = q * 4096 + (r * 64 + t)" using assms nat_or_add [of "r * 64 + t" 12 q] by simp
  have p: "push_bit 18 p OR (q * 4096 + (r * 64 + t)) = p * 262144 + (q * 4096 + (r * 64 + t))"
    using assms nat_or_add [of "q * 4096 + (r * 64 + t)" 18 p] by simp
  have pushes: "unat (push_bit 18 (of_nat p :: 32 word)) = push_bit 18 p"
    "unat (push_bit 12 (of_nat q :: 32 word)) = push_bit 12 q"
    "unat (push_bit 6 (of_nat r :: 32 word)) = push_bit 6 r"
    using assms by (auto intro!: unat_push_small)
  show ?thesis
    by (simp only: unsigned_or_eq or.assoc pushes t r q p)
qed

lemma byte_of_block: "unat (ucast (drop_bit k (w :: 32 word) AND 255) :: 8 word) = unat w div 2 ^ k mod 256"
proof -
  have "(255 :: 32 word) = mask 8" by (simp add: mask_eq_exp_minus_1)
  then have "drop_bit k w AND 255 = take_bit 8 (drop_bit k w)" by (simp only: take_bit_eq_mask)
  then show ?thesis
    by (simp only: unsigned_ucast_eq unsigned_take_bit_eq unat_drop_bit_eq) (simp add: take_bit_eq_mod drop_bit_eq_div)
qed

lemma word_of_base64: "0 \<le> base64_value c \<Longrightarrow> word_of_int (base64_value c) = (of_nat (nat (base64_value c)) :: 32 word)"
  by simp

lemma nat_base64_less [simp]: "nat (base64_value c) < 64"
  using base64_value_less [of c] by linarith

definition code_of :: "char \<Rightarrow> nat" where "code_of c = (if c = CHR ''='' then 0 else nat (base64_value c))"

lemma code_of_less [simp]: "code_of c < 64"
  by (simp add: code_of_def)

lemma sextet_code: "c = CHR ''='' \<or> 0 \<le> base64_value c \<Longrightarrow> sextet c = of_nat (code_of c)"
  by (auto simp: sextet_def code_of_def)

definition block_nat :: "char \<Rightarrow> char \<Rightarrow> char \<Rightarrow> char \<Rightarrow> nat" where
  "block_nat a b c d = code_of a * 262144 + code_of b * 4096 + code_of c * 64 + code_of d"

lemma decode_block_nat:
  assumes "0 \<le> base64_value a" "0 \<le> base64_value b" "c = CHR ''='' \<or> 0 \<le> base64_value c" "d = CHR ''='' \<or> 0 \<le> base64_value d"
  shows "decode_block a b c d =
    [of_nat (block_nat a b c d div 65536)] @ (if c \<noteq> CHR ''='' then [of_nat (block_nat a b c d div 256)] else [])
      @ (if d \<noteq> CHR ''='' then [of_nat (block_nat a b c d)] else [])"
proof -
  have ab: "a \<noteq> CHR ''=''" "b \<noteq> CHR ''=''" using assms by (auto simp: base64_value_pad)
  define w where "w = (push_bit 18 (word_of_int (base64_value a)) OR push_bit 12 (word_of_int (base64_value b)) OR
      push_bit 6 (sextet c) OR sextet d :: 32 word)"
  have "unat w = block_nat a b c d"
    unfolding w_def sextet_code [OF assms(3)] sextet_code [OF assms(4)]
      word_of_base64 [OF assms(1)] word_of_base64 [OF assms(2)]
    using ab block_value [of "code_of a" "code_of b" "code_of c" "code_of d"] by (simp add: code_of_def block_nat_def)
  then have byte: "ucast (drop_bit k w AND 255) = (of_nat (block_nat a b c d div 2 ^ k) :: 8 word)" for k
    by (simp add: word_unat_eq_iff byte_of_block unat_of_nat)
  from byte [of 16] byte [of 8] byte [of 0] show ?thesis
    unfolding decode_block_def Let_def w_def [symmetric] by simp
qed

subsection \<open>Well-formed texts\<close>

fun wf_base64 :: "string \<Rightarrow> bool" where
  "wf_base64 [] = True"
| "wf_base64 [a, b, c, d] =
     (0 \<le> base64_value a \<and> 0 \<le> base64_value b \<and>
      (c = CHR ''='' \<and> d = CHR ''='' \<and> code_of b mod 16 = 0 \<or>
       0 \<le> base64_value c \<and> d = CHR ''='' \<and> code_of c mod 4 = 0 \<or>
       0 \<le> base64_value c \<and> 0 \<le> base64_value d))"
| "wf_base64 (a # b # c # d # rest) =
     (0 \<le> base64_value a \<and> 0 \<le> base64_value b \<and> 0 \<le> base64_value c \<and> 0 \<le> base64_value d \<and> wf_base64 rest)"
| "wf_base64 _ = False"

definition base64_checks :: "string \<Rightarrow> bool" where
  "base64_checks s \<longleftrightarrow>
     length s mod 4 = 0 \<and> list_all (base64_char_ok s) [0..<length s] \<and>
     \<not> (base64_padding s = 2 \<and> 4 \<le> length s \<and> base64_value (s ! (length s - 3)) AND 15 \<noteq> 0) \<and>
     \<not> (base64_padding s = 1 \<and> 4 \<le> length s \<and> base64_value (s ! (length s - 2)) AND 3 \<noteq> 0)"

lemma and_low: "(x :: int) AND 15 = x mod 16" "(x :: int) AND 3 = x mod 4"
proof -
  have "x AND mask 4 = x mod 16" "x AND mask 2 = x mod 4"
    by (simp_all flip: take_bit_eq_mask add: take_bit_eq_mod)
  then show "x AND 15 = x mod 16" "x AND 3 = x mod 4"
    by (simp_all add: mask_eq_exp_minus_1)
qed

lemma base64_value_code: "0 \<le> base64_value c \<Longrightarrow> base64_value c = int (code_of c)"
  by (auto simp: code_of_def base64_value_pad)

lemma low_bits: "0 \<le> base64_value c \<Longrightarrow> base64_value c AND 15 = 0 \<longleftrightarrow> code_of c mod 16 = 0"
  "0 \<le> base64_value c \<Longrightarrow> base64_value c AND 3 = 0 \<longleftrightarrow> code_of c mod 4 = 0"
  by (simp_all add: and_low base64_value_code flip: of_nat_mod zmod_int) presburger+

lemma char_ok_iff: "base64_char_ok s i \<longleftrightarrow>
   (if s ! i = CHR ''='' then base64_padding s \<noteq> 0 \<and> length s - base64_padding s \<le> i else 0 \<le> base64_value (s ! i))"
  by (auto simp: base64_char_ok_def Let_def)

lemma base64_padding_le: "base64_padding s \<le> 2"
  by (simp add: base64_padding_def)

lemma base64_padding_shift: "2 \<le> length rest \<Longrightarrow> base64_padding (xs @ rest) = base64_padding rest"
  by (auto simp: base64_padding_def ends_with_def numeral_2_eq_2)

lemma all_lt_4: "(\<forall>i<4. P i) \<longleftrightarrow> P 0 \<and> P (1::nat) \<and> P 2 \<and> P 3"
  by (simp add: numeral_eq_Suc All_less_Suc)  auto

lemma all_lt_shift: "(\<forall>i<length (xs @ ys). P i) \<longleftrightarrow> (\<forall>i<length xs. P i) \<and> (\<forall>i<length ys. P (length xs + i))"
proof (intro iffI conjI allI impI, goal_cases)
  case (3 i)
  then show ?case by (cases "i < length xs") (auto dest: spec [of _ "i - length xs"])
qed auto

lemma base64_checks_alt: "base64_checks s \<longleftrightarrow>
     length s mod 4 = 0 \<and> (\<forall>i<length s. base64_char_ok s i) \<and>
     (base64_padding s = 2 \<longrightarrow> 4 \<le> length s \<longrightarrow> base64_value (s ! (length s - 3)) AND 15 = 0) \<and>
     (base64_padding s = 1 \<longrightarrow> 4 \<le> length s \<longrightarrow> base64_value (s ! (length s - 2)) AND 3 = 0)"
  by (auto simp: base64_checks_def list_all_iff)

lemma checks_last: "base64_checks [a, b, c, d] = wf_base64 [a, b, c, d]"
proof -
  have pad: "base64_padding [a, b, c, d] = (if c = CHR ''='' \<and> d = CHR ''='' then 2 else if d = CHR ''='' then 1 else 0)"
    by (simp add: base64_padding_def ends_with_def)
  have four: "length [a, b, c, d] = 4" by simp
  show ?thesis
  proof (cases "a = CHR ''='' \<or> b = CHR ''=''")
    case True
    then show ?thesis
      unfolding base64_checks_alt four all_lt_4 char_ok_iff pad
      by (auto simp: base64_value_pad)
  next
    case False
    then show ?thesis
      unfolding base64_checks_alt four all_lt_4 char_ok_iff pad
      by (cases "d = CHR ''=''"; cases "c = CHR ''=''")
        (auto simp: base64_value_pad low_bits)
  qed
qed

lemma checks_step:
  assumes "rest \<noteq> []"
  shows "base64_checks (a # b # c # d # rest) \<longleftrightarrow>
    0 \<le> base64_value a \<and> 0 \<le> base64_value b \<and> 0 \<le> base64_value c \<and> 0 \<le> base64_value d \<and> base64_checks rest"
proof (cases "length rest mod 4 = 0")
  case True
  with assms have len: "4 \<le> length rest" by (cases "length rest < 4") auto
  let ?s = "[a, b, c, d] @ rest"
  have pad: "base64_padding ?s = base64_padding rest"
    using len by (intro base64_padding_shift) simp
  have tail: "base64_char_ok ?s (4 + i) = base64_char_ok rest i" for i
    using len base64_padding_le [of rest] by (auto simp: char_ok_iff pad [simplified])
  have head: "base64_char_ok ?s i = (0 \<le> base64_value (?s ! i))" if "i < 4" for i
    using that len base64_padding_le [of rest] by (auto simp: char_ok_iff pad [simplified] base64_value_pad)
  have heads: "(\<forall>i<4. base64_char_ok ?s i) \<longleftrightarrow>
      0 \<le> base64_value a \<and> 0 \<le> base64_value b \<and> 0 \<le> base64_value c \<and> 0 \<le> base64_value d"
    unfolding all_lt_4 using head [of 0] head [of 1] head [of 2] head [of 3] by simp
  have all: "(\<forall>i<length ?s. base64_char_ok ?s i) \<longleftrightarrow>
      (\<forall>i<4. base64_char_ok ?s i) \<and> (\<forall>i<length rest. base64_char_ok rest i)"
  proof -
    have four: "length [a, b, c, d] = 4" by simp
    show ?thesis unfolding all_lt_shift four tail ..
  qed
  have nths: "?s ! (length ?s - 3) = rest ! (length rest - 3)" "?s ! (length ?s - 2) = rest ! (length rest - 2)"
  proof -
    have idx: "length ?s - 3 = 4 + (length rest - 3)" "length ?s - 2 = 4 + (length rest - 2)"
      using len by simp_all
    show "?s ! (length ?s - 3) = rest ! (length rest - 3)" "?s ! (length ?s - 2) = rest ! (length rest - 2)"
      unfolding idx by simp_all
  qed
  have "base64_checks ?s \<longleftrightarrow>
      0 \<le> base64_value a \<and> 0 \<le> base64_value b \<and> 0 \<le> base64_value c \<and> 0 \<le> base64_value d \<and> base64_checks rest"
    unfolding base64_checks_alt all heads nths pad using len True by auto
  then show ?thesis by simp
qed (simp add: base64_checks_def)

lemma checks_wf: "base64_checks s = wf_base64 s"
proof (induction s rule: wf_base64.induct)
  case (3 a b c d v va)
  then show ?case using checks_step [of "v # va" a b c d] by simp
qed (simp_all only: checks_last, simp_all add: base64_checks_def)


lemma digit64: "t < 64 \<Longrightarrow> (k * 64 + t) div 64 = k \<and> (k * 64 + t) mod 64 = (t :: nat)"
  by simp

lemma digits64:
  assumes "n = p * 262144 + q * 4096 + r * 64 + (t :: nat)" "p < 64" "q < 64" "r < 64" "t < 64"
  shows "n div 262144 = p" "n div 4096 mod 64 = q" "n div 64 mod 64 = r" "n mod 64 = t" "n < 16777216"
proof -
  define m where "m = p * 64 + q"
  define k where "k = m * 64 + r"
  have n: "n = k * 64 + t" using assms(1) by (simp add: k_def m_def)
  have s1: "n div 64 = k" "n mod 64 = t" using digit64 [OF assms(5), of k] n by simp_all
  have s2: "k div 64 = m" "k mod 64 = r" using digit64 [OF assms(4), of m] k_def by simp_all
  have s3: "m div 64 = p" "m mod 64 = q" using digit64 [OF assms(3), of p] m_def by simp_all
  have "n div 4096 = n div 64 div 64" "n div 262144 = n div 64 div 64 div 64"
    by (simp_all flip: div_mult2_eq)
  then show "n div 262144 = p" "n div 4096 mod 64 = q" "n div 64 mod 64 = r" "n mod 64 = t"
    using s1 s2 s3 by simp_all
  show "n < 16777216" using assms by linarith
qed

lemma bytes256:
  assumes "n < 16777216"
  shows "unat (of_nat (n div 65536) :: 8 word) * 65536 + unat (of_nat (n div 256) :: 8 word) * 256 + unat (of_nat n :: 8 word) = n"
proof -
  define h where "h = n div 256"
  have n: "h * 256 + n mod 256 = n" unfolding h_def by (rule div_mult_mod_eq)
  have h: "h div 256 * 256 + h mod 256 = h" by (rule div_mult_mod_eq)
  have top: "n div 65536 = h div 256" unfolding h_def by (simp flip: div_mult2_eq)
  have "h div 256 mod 256 = h div 256" using assms top by simp
  then have "n div 65536 mod 256 * 65536 + h mod 256 * 256 + n mod 256 = n"
    unfolding top using n h by linarith
  then show ?thesis unfolding h_def by (simp add: unat_of_nat del: mod_mod_trivial mod_less)
qed

lemma block_code:
  assumes "0 \<le> base64_value a" "0 \<le> base64_value b"
    and n: "n = block_nat a b c d"
  shows "base64_char (n div 262144) = a" "base64_char (n div 4096 mod 64) = b"
    "0 \<le> base64_value c \<Longrightarrow> base64_char (n div 64 mod 64) = c"
    "0 \<le> base64_value d \<Longrightarrow> base64_char (n mod 64) = d" "n < 16777216"
proof -
  have code: "0 \<le> base64_value x \<Longrightarrow> base64_char (code_of x) = x" for x
    using base64_char_value [of x] by (auto simp: code_of_def base64_value_pad)
  note dig = digits64 [OF n [unfolded block_nat_def] code_of_less code_of_less code_of_less code_of_less]
  show "base64_char (n div 262144) = a" "base64_char (n div 4096 mod 64) = b"
    "0 \<le> base64_value c \<Longrightarrow> base64_char (n div 64 mod 64) = c"
    "0 \<le> base64_value d \<Longrightarrow> base64_char (n mod 64) = d" "n < 16777216"
    using dig code assms by simp_all
qed


text \<open>The last group may be short; its bits below the last byte are zero.\<close>

lemma encode_decode_blocks: "wf_base64 s \<Longrightarrow> encode_base64 (decode_blocks s) = s"
proof (induction s rule: wf_base64.induct)
  case (2 a b c d)
  then have ab: "0 \<le> base64_value a" "0 \<le> base64_value b" by auto
  let ?n = "block_nat a b c d"
  note code = block_code [OF ab refl, where c = c and d = d]
  from 2 consider (two) "c = CHR ''=''" "d = CHR ''=''" "code_of b mod 16 = 0"
    | (one) "0 \<le> base64_value c" "d = CHR ''=''" "code_of c mod 4 = 0"
    | (full) "0 \<le> base64_value c" "0 \<le> base64_value d" by auto
  then show ?case
  proof cases
    case two
    have n: "?n = (code_of a * 4 + code_of b div 16) * 65536"
      using two by (simp add: block_nat_def code_of_def [of "CHR ''=''"] mod_0_imp_dvd dvd_div_mult_self[of 16])
    have m: "unat (of_nat (?n div 65536) :: 8 word) * 16 = ?n div 4096"
    proof -
      define k where "k = code_of a * 4 + code_of b div 16"
      have "?n = k * 65536" using n by (simp add: k_def)
      moreover have "k < 256" using code(5) calculation by linarith
      ultimately show ?thesis by (simp add: unat_of_nat)
    qed
    have "?n div 4096 div 64 = ?n div 262144" by (simp flip: div_mult2_eq)
    then show ?thesis
      using decode_block_nat [OF ab, of c d] two code m by (auto simp: Let_def)
  next
    case one
    have "code_of c div 4 * 4 = code_of c" using one by (simp add: mod_0_imp_dvd)
    then have n: "?n = (code_of a * 1024 + code_of b * 16 + code_of c div 4) * 256"
      using one by (simp add: block_nat_def code_of_def [of "CHR ''=''"])
    have "unat (of_nat (?n div 65536) :: 8 word) * 65536 + unat (of_nat (?n div 256) :: 8 word) * 256
        + unat (of_nat ?n :: 8 word) = ?n" by (rule bytes256 [OF code(5)])
    moreover have "unat (of_nat ?n :: 8 word) = 0"
    proof -
      have "?n mod 256 = 0" unfolding n by simp
      then show ?thesis by (simp add: unat_of_nat)
    qed
    ultimately have "(unat (of_nat (?n div 65536) :: 8 word) * 1024 + unat (of_nat (?n div 256) :: 8 word) * 4) * 64 = ?n"
      by simp
    then have m: "unat (of_nat (?n div 65536) :: 8 word) * 1024 + unat (of_nat (?n div 256) :: 8 word) * 4 = ?n div 64"
      by (metis nonzero_mult_div_cancel_right zero_neq_numeral)
    have "?n div 64 div 4096 = ?n div 262144" "?n div 64 div 64 = ?n div 4096" by (simp_all flip: div_mult2_eq)
    then show ?thesis
      using decode_block_nat [OF ab, of c d] one code m by (auto simp: Let_def base64_value_pad)
  next
    case full
    then show ?thesis
      using decode_block_nat [OF ab, of c d] code bytes256 [OF code(5)]
      by (auto simp: Let_def base64_value_pad)
  qed
next
  case (3 a b c d v va)
  then have vals: "0 \<le> base64_value a" "0 \<le> base64_value b" "0 \<le> base64_value c" "0 \<le> base64_value d" by auto
  note code = block_code [OF vals(1,2) refl, where c = c and d = d]
  show ?case
    using 3 decode_block_nat [OF vals(1,2), of c d] vals code bytes256 [OF code(5)]
    by (auto simp: Let_def base64_value_pad)
qed auto

lemma decode_blocks_length: "wf_base64 s \<Longrightarrow> length (decode_blocks s) = length s div 4 * 3 - base64_padding s"
proof (induction s rule: wf_base64.induct)
  case (2 a b c d)
  then show ?case
    by (auto simp: decode_block_def Let_def base64_padding_def ends_with_def base64_value_pad)
next
  case (3 a b c d v va)
  let ?rest = "v # va"
  from 3 have wf: "wf_base64 ?rest" by simp
  then have "4 \<le> length ?rest" by (cases ?rest rule: wf_base64.cases) auto
  then have "base64_padding ([a, b, c, d] @ ?rest) = base64_padding ?rest" "base64_padding ?rest \<le> length ?rest div 4 * 3"
  proof -
    show "base64_padding ([a, b, c, d] @ ?rest) = base64_padding ?rest"
      using \<open>4 \<le> length ?rest\<close> by (intro base64_padding_shift) simp
    have "1 \<le> length ?rest div 4" using \<open>4 \<le> length ?rest\<close> by linarith
    then show "base64_padding ?rest \<le> length ?rest div 4 * 3"
      using base64_padding_le [of ?rest] by linarith
  qed
  moreover have "(5 + length va) div 4 = 1 + Suc (length va) div 4" by presburger
  ultimately show ?case using 3 by (auto simp: decode_block_def Let_def base64_value_pad)
qed (auto simp: base64_padding_def ends_with_def)

lemma byte_digits:
  fixes x y z :: "8 word"
  defines "n \<equiv> unat x * 65536 + unat y * 256 + unat z"
  shows "n div 262144 < 64" "of_nat (n div 65536) = x" "of_nat (n div 256) = y" "of_nat n = z"
proof -
  have lt: "unat w < 256" for w :: "8 word"
  proof -
    have "unat w < 2 ^ LENGTH(8)" by (rule unsigned_less)
    then show ?thesis by simp
  qed
  have b: "unat x < 256" "unat y < 256" "unat z < 256" by (rule lt)+
  define h where "h = unat x * 256 + unat y"
  have n: "n = h * 256 + unat z" by (simp add: n_def h_def)
  have h: "n div 256 = h" "n mod 256 = unat z" using n b by simp_all
  have x: "h div 256 = unat x" "h mod 256 = unat y" using b by (simp_all add: h_def)
  have d: "n div 65536 = n div 256 div 256" by (simp flip: div_mult2_eq)
  show "of_nat (n div 65536) = x" "of_nat (n div 256) = y" "of_nat n = z"
    using h x d b by (simp_all add: word_unat_eq_iff unat_of_nat)
  show "n div 262144 < 64" unfolding n_def using b by linarith
qed

lemma code_of_char: "v < 64 \<Longrightarrow> code_of (base64_char v) = v"
  by (simp add: code_of_def base64_value_char base64_char_not_pad)

lemma base64_value_char_nonneg: "v < 64 \<Longrightarrow> 0 \<le> base64_value (base64_char v)"
  by (simp add: base64_value_char)

lemma regroup64: "n div 262144 * 262144 + n div 4096 mod 64 * 4096 + n div 64 mod 64 * 64 + n mod 64 = (n :: nat)"
proof -
  define k where "k = n div 64"
  define m where "m = k div 64"
  have n: "n = k * 64 + n mod 64" unfolding k_def by (simp only: div_mult_mod_eq)
  have k: "k = m * 64 + k mod 64" unfolding m_def by (simp only: div_mult_mod_eq)
  have m: "m = m div 64 * 64 + m mod 64" by (simp only: div_mult_mod_eq)
  have e: "n div 4096 = m" "n div 262144 = m div 64" unfolding m_def k_def by (simp_all flip: div_mult2_eq)
  have "m div 64 * 262144 + m mod 64 * 4096 + k mod 64 * 64 + n mod 64 = n" using n k m by linarith
  then show ?thesis unfolding k_def [symmetric] e .
qed

lemma decode_encode_blocks: "wf_base64 (encode_base64 bs) \<and> decode_blocks (encode_base64 bs) = bs"
proof (induction bs rule: encode_base64.induct)
  case (1 x y z rest)
  define n where "n = unat x * 65536 + unat y * 256 + unat z"
  note dig = byte_digits [of x y z, folded n_def]
  have lt: "n div 262144 < 64" "n div 4096 mod 64 < 64" "n div 64 mod 64 < 64" "n mod 64 < 64" using dig by simp_all
  let ?a = "base64_char (n div 262144)" and ?b = "base64_char (n div 4096 mod 64)"
    and ?c = "base64_char (n div 64 mod 64)" and ?d = "base64_char (n mod 64)"
  have enc: "encode_base64 (x # y # z # rest) = ?a # ?b # ?c # ?d # encode_base64 rest"
    by (simp add: Let_def n_def)
  have vals: "0 \<le> base64_value ?a" "0 \<le> base64_value ?b" "0 \<le> base64_value ?c" "0 \<le> base64_value ?d"
    using lt by (simp_all add: base64_value_char_nonneg)
  have "block_nat ?a ?b ?c ?d = n"
    using regroup64 [of n] lt by (simp add: block_nat_def code_of_char)
  then have "decode_block ?a ?b ?c ?d = [x, y, z]"
    using decode_block_nat [OF vals(1,2), of ?c ?d] vals dig lt by (simp add: base64_char_not_pad)
  moreover have "wf_base64 (?a # ?b # ?c # ?d # encode_base64 rest)"
    using 1 vals by (cases "encode_base64 rest") auto
  ultimately show ?case unfolding enc using 1 by simp
next
  case (2 x y)
  define n where "n = unat x * 65536 + unat y * 256 + unat (0 :: 8 word)"
  note dig = byte_digits [of x y 0, folded n_def]
  have lt: "n div 262144 < 64" "n div 4096 mod 64 < 64" "n div 64 mod 64 < 64" "n mod 64 < 64" using dig by simp_all
  have m: "unat x * 1024 + unat y * 4 = n div 64" "n mod 64 = 0" by (simp_all add: n_def)
  have mm: "n div 64 div 4096 = n div 262144" "n div 64 div 64 = n div 4096" by (simp_all flip: div_mult2_eq)
  have four: "n div 64 mod 64 mod 4 = 0"
  proof -
    have "n div 64 mod 64 mod 4 = n div 64 mod 4" by (simp add: mod_mod_cancel)
    also have "\<dots> = 0" by (simp flip: m(1))
    finally show ?thesis .
  qed
  let ?a = "base64_char (n div 262144)" and ?b = "base64_char (n div 4096 mod 64)" and ?c = "base64_char (n div 64 mod 64)"
  have enc: "encode_base64 [x, y] = [?a, ?b, ?c, CHR ''='']"
    by (simp add: Let_def m mm)
  have vals: "0 \<le> base64_value ?a" "0 \<le> base64_value ?b" "0 \<le> base64_value ?c"
    using lt by (simp_all add: base64_value_char_nonneg)
  have "block_nat ?a ?b ?c CHR ''='' = n"
    using regroup64 [of n] lt m by (simp add: block_nat_def code_of_char code_of_def [of "CHR ''=''"])
  then have "decode_block ?a ?b ?c CHR ''='' = [x, y]"
    using decode_block_nat [OF vals(1,2), of ?c "CHR ''=''"] vals dig lt by (simp add: base64_char_not_pad)
  then show ?case unfolding enc using vals lt four by (simp add: code_of_char)
next
  case (3 x)
  define n where "n = unat x * 65536 + unat (0 :: 8 word) * 256 + unat (0 :: 8 word)"
  note dig = byte_digits [of x 0 0, folded n_def]
  have lt: "n div 262144 < 64" "n div 4096 mod 64 < 64" using dig by simp_all
  have m: "unat x * 16 = n div 4096" "n mod 64 = 0" "n div 64 mod 64 = 0" by (simp_all add: n_def)
  have mm: "n div 4096 div 64 = n div 262144" by (simp flip: div_mult2_eq)
  have sixteen: "n div 4096 mod 64 mod 16 = 0"
  proof -
    have "n div 4096 mod 64 mod 16 = n div 4096 mod 16" by (simp add: mod_mod_cancel)
    also have "\<dots> = 0" by (simp flip: m)
    finally show ?thesis .
  qed
  let ?a = "base64_char (n div 262144)" and ?b = "base64_char (n div 4096 mod 64)"
  have enc: "encode_base64 [x] = [?a, ?b, CHR ''='', CHR ''='']"
    by (simp add: Let_def m mm)
  have vals: "0 \<le> base64_value ?a" "0 \<le> base64_value ?b"
    using lt by (simp_all add: base64_value_char_nonneg)
  have "block_nat ?a ?b CHR ''='' CHR ''='' = n"
    using regroup64 [of n] lt m by (simp add: block_nat_def code_of_char code_of_def [of "CHR ''=''"])
  then have "decode_block ?a ?b CHR ''='' CHR ''='' = [x]"
    using decode_block_nat [OF vals(1,2), of "CHR ''=''" "CHR ''=''"] vals dig lt by simp
  then show ?case unfolding enc using vals lt sixteen by (simp add: code_of_char)
qed simp

subsection \<open>The decoder inverts the encoder\<close>

lemma encode_base64_length: "length (encode_base64 bs) = (length bs + 2) div 3 * 4"
proof (induction bs rule: encode_base64.induct)
  case (1 x y z rest)
  moreover have "(length (x # y # z # rest) + 2) div 3 = 1 + (length rest + 2) div 3" by simp
  ultimately show ?case by (simp add: Let_def)
qed (auto simp: Let_def)

lemma decode_base64_checks:
  "decode_base64 s m =
     (if length s \<le> (m + 2) div 3 * 4 \<and> wf_base64 s \<and> length (decode_blocks s) \<le> m
      then Some (decode_blocks s) else None)"
  using decode_blocks_length [of s]
  by (auto simp: decode_base64_def Let_def base64_checks_def simp flip: checks_wf)

lemma decode_base64_inverse: "decode_base64 s m = Some bs \<longleftrightarrow> length bs \<le> m \<and> s = encode_base64 bs"
proof
  assume "decode_base64 s m = Some bs"
  then show "length bs \<le> m \<and> s = encode_base64 bs"
    by (auto simp: decode_base64_checks encode_decode_blocks split: if_splits)
next
  assume "length bs \<le> m \<and> s = encode_base64 bs"
  moreover from this have "length s \<le> (m + 2) div 3 * 4"
    by (auto simp: encode_base64_length intro!: mult_le_mono div_le_mono)
  ultimately show "decode_base64 s m = Some bs"
    by (simp add: decode_base64_checks decode_encode_blocks)
qed

interpretation base64: strict_codec encode_base64 "\<lambda>s. decode_base64 s m" "\<lambda>bs. length bs \<le> m" for m
  by unfold_locales (auto simp: decode_base64_inverse)

subsection \<open>The property\<close>

text \<open>C29: Base64 decoding is strict and exact: for every size limit, the decoder accepts a text
  if and only if it is the standard encoding of at most that many bytes, and then returns
  exactly those bytes; no second text decodes to the same contents.\<close>

theorem decode_base64_exact:
  "decode_base64 encoded maximum = Some bytes \<longleftrightarrow>
     encoded = encode_base64 bytes \<and> length bytes \<le> maximum"
  by (simp add: base64.dec_iff conj_commute)

end
