(* ===== verification/PolicyRules.thy ===== *)
theory PolicyRules
  imports Json Base64
begin

text \<open>
  The identifier and path rules of the SSH service (\<^verbatim>\<open>native/src/policy.cpp\<close>), and the
  request record its parser fills.  The two regular expressions of the file are character
  classes with a length bound and are written as such.
\<close>

subsection \<open>Requests and errors\<close>

record api_error =
  http_status :: int
  err_code :: string
  err_message :: string

record exec_request =
  er_target_id :: string
  er_operation :: string
  er_service :: string
  er_unit :: string
  er_package_manager :: string
  er_package :: string
  er_package_version :: string
  er_path :: string
  er_source_path :: string
  er_destination_path :: string
  er_command :: string
  er_workdir :: string
  er_environment :: "(string \<times> string) list"
  er_nonce :: string
  er_container :: string
  er_include_all_containers :: bool
  er_tail :: nat
  er_grace_period_seconds :: nat
  er_content :: "8 word list"
  er_expected_size :: nat
  er_expected_modified :: "nat option"
  er_expected_digest :: "8 word list"
  er_max_bytes :: nat
  er_max_output_bytes :: nat
  er_timeout_ms :: nat
  er_since_seconds :: "nat option"
  er_timeout_seconds :: int

text \<open>The member initialisers of the struct, which are those of the parser's locals too.\<close>

definition default_request :: exec_request where
  "default_request =
     \<lparr>er_target_id = [], er_operation = [], er_service = [], er_unit = [], er_package_manager = [],
      er_package = [], er_package_version = [], er_path = [], er_source_path = [],
      er_destination_path = [], er_command = [], er_workdir = [], er_environment = [],
      er_nonce = [], er_container = [], er_include_all_containers = False, er_tail = 120,
      er_grace_period_seconds = 10, er_content = [], er_expected_size = 0,
      er_expected_modified = None, er_expected_digest = replicate 32 0, er_max_bytes = 0,
      er_max_output_bytes = 0, er_timeout_ms = 0, er_since_seconds = None,
      er_timeout_seconds = 10\<rparr>"

definition set_error :: "int \<Rightarrow> string \<Rightarrow> string \<Rightarrow> api_error" where
  "set_error status code message = \<lparr>http_status = status, err_code = code, err_message = message\<rparr>"

definition invalid_parameters :: "string \<Rightarrow> api_error" where
  "invalid_parameters message = set_error 422 ''invalid_parameters'' message"

definition has_only_keys :: "json \<Rightarrow> string list \<Rightarrow> bool" where
  "has_only_keys v allowed = list_all (\<lambda>kv. fst kv \<in> set allowed) (members v)"

subsection \<open>Identifiers\<close>

text \<open>A head character and a tail over a class, at most \<open>n\<close> characters in all.\<close>

definition ident :: "(char \<Rightarrow> bool) \<Rightarrow> (char \<Rightarrow> bool) \<Rightarrow> nat \<Rightarrow> string \<Rightarrow> bool" where
  "ident first rest n s = (case s of [] \<Rightarrow> False | c # cs \<Rightarrow> first c \<and> list_all rest cs \<and> length s \<le> n)"

definition valid_systemd_unit :: "string \<Rightarrow> bool" where
  "valid_systemd_unit value =
     (if length value < 8 \<or> length value > 128 \<or> \<not> ends_with ''.service'' value \<or> \<not> ascii_alnum (hd value)
      then False
      else list_all (\<lambda>c. ascii_alnum c \<or> c \<in> {CHR ''_'', CHR ''.'', CHR ''@'', CHR '':'', CHR ''-''}) value)"

definition valid_target_id :: "string \<Rightarrow> bool" where
  "valid_target_id = ident ascii_alnum (\<lambda>c. ascii_alnum c \<or> c \<in> {CHR ''_'', CHR ''.'', CHR ''-''}) 64"

definition valid_service_name :: "string \<Rightarrow> bool" where
  "valid_service_name =
     ident ascii_alnum (\<lambda>c. ascii_alnum c \<or> c \<in> {CHR ''_'', CHR ''.'', CHR ''@'', CHR '':'', CHR ''-''}) 128"

definition valid_container_ref :: "string \<Rightarrow> bool" where
  "valid_container_ref value =
     (if value = [] \<or> length value > 128 then False
      else if \<not> ascii_alnum (hd value) then False
      else list_all (\<lambda>c. ascii_alnum c \<or> c = CHR ''_'' \<or> c = CHR ''.'' \<or> c = CHR ''-'') (tl value))"

definition valid_package_manager :: "string \<Rightarrow> bool" where
  "valid_package_manager value \<longleftrightarrow>
     value = ''auto'' \<or> value = ''apt'' \<or> value = ''dnf'' \<or> value = ''yum''"

definition valid_package_ref :: "string \<Rightarrow> bool" where
  "valid_package_ref value =
     (if value = [] \<or> length value > 128 then False
      else if \<not> ascii_alnum (hd value) then False
      else list_all (\<lambda>c. ascii_alnum c \<or> c \<in> {CHR ''+'', CHR ''.'', CHR ''_'', CHR '':'', CHR ''-''}) (tl value))"

definition valid_package_version :: "string \<Rightarrow> bool" where
  "valid_package_version value =
     (if value = [] \<or> length value > 128 then False
      else if \<not> ascii_alnum (hd value) then False
      else list_all (\<lambda>c. ascii_alnum c \<or>
             c \<in> {CHR ''+'', CHR ''.'', CHR ''_'', CHR '':'', CHR ''~'', CHR ''^'', CHR ''-''}) (tl value))"

subsection \<open>Paths\<close>

definition nul :: char where
  "nul = CHR 0x00"

definition valid_sftp_path :: "string \<Rightarrow> bool" where
  "valid_sftp_path value \<longleftrightarrow> value \<noteq> [] \<and> length value \<le> 4096 \<and> nul \<notin> set value"

definition valid_snapshot_nonce :: "string \<Rightarrow> bool" where
  "valid_snapshot_nonce value \<longleftrightarrow>
     length value = 32 \<and> list_all (\<lambda>c. ascii_digit c \<or> (97 \<le> byte c \<and> byte c \<le> 102)) value"

definition dot_segment :: "string \<Rightarrow> bool" where
  "dot_segment segment \<longleftrightarrow> segment = ''.'' \<or> segment = ''..''"

text \<open>The directory part of a publication path, \<^verbatim>\<open>"/"\<close> for a top-level name.\<close>

definition publication_parent :: "string \<Rightarrow> string" where
  "publication_parent value =
     (case rfind_char (CHR ''/'') value of
        None \<Rightarrow> []
      | Some separator \<Rightarrow> if separator = 0 then take 1 value else take separator value)"

definition valid_publication_path :: "string \<Rightarrow> bool" where
  "valid_publication_path value =
     (if \<not> valid_sftp_path value \<or> hd value \<noteq> CHR ''/'' \<or> last value = CHR ''/'' \<or>
         find_sub ''//'' value \<noteq> None \<or> list_ex control_byte value
      then False
      else \<not> list_ex dot_segment (split_on (CHR ''/'') (drop 1 value)))"

definition valid_workdir :: "string \<Rightarrow> bool" where
  "valid_workdir workdir \<longleftrightarrow>
     \<not> (workdir = [] \<or> length workdir > 4096 \<or> hd workdir \<noteq> CHR ''/'' \<or> nul \<in> set workdir \<or>
        list_ex control_byte workdir \<or> list_ex dot_segment (split_on (CHR ''/'') workdir))"

text \<open>One digit of the expected digest; \<^term>\<open>None\<close> is the \<open>-1\<close> of the source.\<close>

definition hex_value :: "char \<Rightarrow> nat option" where
  "hex_value c =
     (if ascii_digit c then Some (byte c - 48)
      else if 97 \<le> byte c \<and> byte c \<le> 102 then Some (byte c - 97 + 10)
      else if 65 \<le> byte c \<and> byte c \<le> 70 then Some (byte c - 65 + 10)
      else None)"

fun parse_digest :: "string \<Rightarrow> 8 word list option" where
  "parse_digest (h # l # rest) =
     (case (hex_value h, hex_value l) of
        (Some high, Some low) \<Rightarrow>
          (case parse_digest rest of
             None \<Rightarrow> None
           | Some bytes \<Rightarrow> Some (of_nat (push_bit 4 high OR low) # bytes))
      | _ \<Rightarrow> None)"
| "parse_digest _ = Some []"

end
