(* ===== verification/PolicyParse.thy ===== *)
theory PolicyParse
  imports PolicyRules
begin

text \<open>
  \<^verbatim>\<open>parse_exec_request\<close> of \<^verbatim>\<open>native/src/policy.cpp\<close>: the one gate between a JSON body and
  an SSH operation.  Each branch of the source's chain on \<^verbatim>\<open>operation\<close> is a definition of
  its own, in the source's order, with its checks in the source's order; the parser runs the
  envelope checks, the branch, and the timeout checks.  The second component of a branch's
  result is the local \<^verbatim>\<open>operation_timeout\<close>.
\<close>

type_synonym branch = "api_error + exec_request \<times> nat"

definition accept :: "exec_request \<Rightarrow> branch" where
  "accept r = Inr (r, 0)"

definition reject :: "string \<Rightarrow> branch" where
  "reject message = Inl (invalid_parameters message)"

subsection \<open>Numbers\<close>

text \<open>The repeated reading of a bound: anything but a positive integer counts as 0.\<close>

definition read_positive :: "json \<Rightarrow> nat" where
  "read_positive v =
     (if is_number_unsigned v then unat (get_word v)
      else if is_number_integer v then (if signed_positive (get_word v) then unat (get_word v) else 0)
      else 0)"

text \<open>A number already known to be an integer; \<^term>\<open>None\<close> when it is negative.\<close>

definition read_nonnegative :: "json \<Rightarrow> nat option" where
  "read_nonnegative v =
     (if is_number_unsigned v then Some (unat (get_word v))
      else if sint (get_word v) < 0 then None else Some (unat (get_word v)))"

definition parse_bounded_uint :: "json \<Rightarrow> nat \<Rightarrow> nat option" where
  "parse_bounded_uint v maximum =
     (if \<not> is_number_integer v then None
      else
        (let parsed =
           (if is_number_unsigned v then Some (unat (get_word v))
            else if sint (get_word v) < 1 then None else Some (unat (get_word v)))
         in case parsed of
              None \<Rightarrow> None
            | Some n \<Rightarrow> if 1 \<le> n \<and> n \<le> maximum then Some n else None))"

subsection \<open>Inspection operations\<close>

definition parse_no_parameters :: "string \<Rightarrow> json \<Rightarrow> branch" where
  "parse_no_parameters operation ps =
     (if members ps \<noteq> [] then reject (operation @ '' accepts no parameters'') else accept default_request)"

definition parse_system_snapshot :: "json \<Rightarrow> branch" where
  "parse_system_snapshot ps =
     (if \<not> has_only_keys ps [''nonce''] then reject ''system_snapshot accepts only a nonce parameter''
      else case find_string ps ''nonce'' of
          None \<Rightarrow> reject ''system_snapshot nonce must be 32 lowercase hexadecimal characters''
        | Some nonce \<Rightarrow>
            if \<not> valid_snapshot_nonce nonce
            then reject ''system_snapshot nonce must be 32 lowercase hexadecimal characters''
            else accept (default_request\<lparr>er_nonce := nonce\<rparr>))"

definition parse_docker_ps :: "json \<Rightarrow> branch" where
  "parse_docker_ps ps =
     (if \<not> has_only_keys ps [''all''] then reject ''docker_ps accepts only an all parameter''
      else case obj_find ps ''all'' of
          Some (JBool b) \<Rightarrow> accept (default_request\<lparr>er_include_all_containers := b\<rparr>)
        | _ \<Rightarrow> reject ''docker_ps requires a boolean all parameter'')"

definition parse_docker_logs :: "json \<Rightarrow> branch" where
  "parse_docker_logs ps =
     (if \<not> has_only_keys ps [''container'', ''tail'']
      then reject ''docker_logs accepts only container and tail parameters''
      else case (find_string ps ''container'', obj_find ps ''tail'') of
          (Some container, Some tail_value) \<Rightarrow>
            if \<not> valid_container_ref container
            then reject ''docker_logs requires a safe container and bounded tail''
            else
              (let parsed_tail = read_positive tail_value in
               if parsed_tail < 1 \<or> parsed_tail > 500
               then reject ''docker_logs tail must be between 1 and 500''
               else accept (default_request\<lparr>er_container := container, er_tail := parsed_tail\<rparr>))
        | _ \<Rightarrow> reject ''docker_logs requires a safe container and bounded tail'')"

definition parse_docker_inspect :: "json \<Rightarrow> branch" where
  "parse_docker_inspect ps =
     (if \<not> has_only_keys ps [''container''] then reject ''docker_inspect accepts only a container parameter''
      else case find_string ps ''container'' of
          None \<Rightarrow> reject ''docker_inspect requires a safe container reference''
        | Some container \<Rightarrow>
            if \<not> valid_container_ref container
            then reject ''docker_inspect requires a safe container reference''
            else accept (default_request\<lparr>er_container := container\<rparr>))"

definition parse_docker_restart :: "json \<Rightarrow> branch" where
  "parse_docker_restart ps =
     (if \<not> has_only_keys ps [''container'', ''grace_period_seconds'']
      then reject ''docker_restart accepts only container and grace_period_seconds parameters''
      else case (find_string ps ''container'', obj_find ps ''grace_period_seconds'') of
          (Some container, Some grace) \<Rightarrow>
            if \<not> valid_container_ref container
            then reject ''docker_restart requires a safe container and bounded grace period''
            else
              (let parsed_grace = read_positive grace in
               if parsed_grace < 1 \<or> parsed_grace > 120
               then reject ''docker_restart grace_period_seconds must be between 1 and 120''
               else accept (default_request\<lparr>er_container := container,
                      er_grace_period_seconds := parsed_grace\<rparr>))
        | _ \<Rightarrow> reject ''docker_restart requires a safe container and bounded grace period'')"

definition parse_systemd_inspect :: "json \<Rightarrow> branch" where
  "parse_systemd_inspect ps =
     (if \<not> has_only_keys ps [''service''] then reject ''systemd_inspect accepts only a service parameter''
      else case find_string ps ''service'' of
          None \<Rightarrow> reject ''systemd_inspect requires a .service unit name''
        | Some unit_name \<Rightarrow>
            if \<not> valid_service_name unit_name \<or> \<not> ends_with ''.service'' unit_name
            then reject ''systemd_inspect requires a safe .service unit name''
            else accept (default_request\<lparr>er_unit := unit_name\<rparr>))"

definition parse_package_inspect :: "json \<Rightarrow> branch" where
  "parse_package_inspect ps =
     (if \<not> has_only_keys ps [''manager'', ''package'']
      then reject ''package_inspect accepts only manager and package parameters''
      else case (find_string ps ''manager'', find_string ps ''package'') of
          (Some manager, Some package) \<Rightarrow>
            if \<not> valid_package_manager manager \<or> \<not> valid_package_ref package
            then reject ''package_inspect requires auto, apt, dnf, or yum and a safe package name''
            else accept (default_request\<lparr>er_package_manager := manager, er_package := package\<rparr>)
        | _ \<Rightarrow> reject ''package_inspect requires a supported manager and safe package name'')"

subsection \<open>Changing operations with their own timeout\<close>

definition parse_systemd_restart :: "json \<Rightarrow> branch" where
  "parse_systemd_restart ps =
     (if \<not> has_only_keys ps [''service'', ''timeout_seconds'']
      then reject ''systemd_restart accepts only service and timeout_seconds parameters''
      else case (find_string ps ''service'', obj_find ps ''timeout_seconds'') of
          (Some unit_name, Some timeout_param) \<Rightarrow>
            if \<not> valid_service_name unit_name \<or> \<not> ends_with ''.service'' unit_name
            then reject ''systemd_restart requires a safe .service unit name''
            else
              (let parsed_timeout = read_positive timeout_param in
               if parsed_timeout < 1 \<or> parsed_timeout > 120
               then reject ''systemd_restart timeout_seconds must be between 1 and 120''
               else Inr (default_request\<lparr>er_unit := unit_name\<rparr>, parsed_timeout))
        | _ \<Rightarrow> reject ''systemd_restart requires a safe service and bounded timeout'')"

definition parse_package_install :: "json \<Rightarrow> branch" where
  "parse_package_install ps =
     (if \<not> has_only_keys ps [''manager'', ''package'', ''version'', ''timeout_seconds'']
      then reject ''package_install accepts only manager, package, version, and timeout_seconds parameters''
      else case (find_string ps ''manager'', find_string ps ''package'', obj_find ps ''timeout_seconds'') of
          (Some manager, Some package, Some timeout_param) \<Rightarrow>
            if \<not> valid_package_manager manager \<or> \<not> valid_package_ref package
            then reject ''package_install requires auto, apt, dnf, or yum and a safe package name''
            else
              (let version =
                 (case obj_find ps ''version'' of
                    None \<Rightarrow> Some []
                  | Some JNull \<Rightarrow> Some []
                  | Some (JString v) \<Rightarrow> if valid_package_version v then Some v else None
                  | Some _ \<Rightarrow> None);
                   parsed_timeout = read_positive timeout_param
               in case version of
                    None \<Rightarrow> reject ''package_install version contains unsupported characters''
                  | Some package_version \<Rightarrow>
                      if parsed_timeout < 1 \<or> parsed_timeout > 600
                      then reject ''package_install timeout_seconds must be between 1 and 600''
                      else Inr (default_request\<lparr>er_package_manager := manager, er_package := package,
                              er_package_version := package_version\<rparr>, parsed_timeout))
        | _ \<Rightarrow> reject ''package_install requires a supported manager, package, and bounded timeout'')"

subsection \<open>Services and logs\<close>

definition parse_service_status :: "json \<Rightarrow> branch" where
  "parse_service_status ps =
     (if \<not> has_only_keys ps [''service''] then reject ''service_status accepts only a service parameter''
      else case find_string ps ''service'' of
          None \<Rightarrow> reject ''service must be a valid systemd unit name''
        | Some service \<Rightarrow>
            if \<not> valid_service_name service then reject ''service must be a valid systemd unit name''
            else accept (default_request\<lparr>er_service := service\<rparr>))"

definition parse_log_unit :: "json \<Rightarrow> exec_request \<Rightarrow> branch" where
  "parse_log_unit ps r =
     (case obj_find ps ''unit'' of
        None \<Rightarrow> accept r
      | Some (JString unit_name) \<Rightarrow>
          if \<not> valid_systemd_unit unit_name then reject ''unit must be a bounded .service reference''
          else accept (r\<lparr>er_unit := unit_name\<rparr>)
      | Some _ \<Rightarrow> reject ''unit must be a bounded .service reference'')"

definition parse_server_logs :: "json \<Rightarrow> branch" where
  "parse_server_logs ps =
     (if \<not> has_only_keys ps [''since_seconds'', ''unit'']
      then reject ''server_logs accepts only since_seconds and unit parameters''
      else case obj_find ps ''since_seconds'' of
          None \<Rightarrow> parse_log_unit ps default_request
        | Some since \<Rightarrow>
            (let seconds = read_positive since in
             if seconds < 1 \<or> seconds > 604800
             then reject ''since_seconds must be between 1 and 604800''
             else parse_log_unit ps (default_request\<lparr>er_since_seconds := Some seconds\<rparr>)))"

subsection \<open>File operations\<close>

definition parse_sftp_metadata :: "json \<Rightarrow> branch" where
  "parse_sftp_metadata ps =
     (if \<not> has_only_keys ps [''path''] then reject ''SFTP metadata operations accept only a path parameter''
      else case find_string ps ''path'' of
          None \<Rightarrow> reject ''path must be a non-empty SFTP path of at most 4096 bytes''
        | Some path \<Rightarrow>
            if \<not> valid_sftp_path path then reject ''path must be a non-empty SFTP path of at most 4096 bytes''
            else accept (default_request\<lparr>er_path := path\<rparr>))"

definition parse_sftp_read :: "json \<Rightarrow> branch" where
  "parse_sftp_read ps =
     (if \<not> has_only_keys ps [''path'', ''max_bytes'']
      then reject ''sftp_read accepts only path and max_bytes parameters''
      else case (find_string ps ''path'', obj_find ps ''max_bytes'') of
          (Some path, Some max_bytes) \<Rightarrow>
            if \<not> valid_sftp_path path \<or> \<not> is_number_integer max_bytes
            then reject ''sftp_read requires a valid path and max_bytes''
            else (case read_nonnegative max_bytes of
                None \<Rightarrow> reject ''max_bytes must be between 0 and 1048576''
              | Some requested \<Rightarrow>
                  if requested > 1024 * 1024 then reject ''max_bytes must be between 0 and 1048576''
                  else accept (default_request\<lparr>er_path := path, er_max_bytes := requested\<rparr>))
        | _ \<Rightarrow> reject ''sftp_read requires a valid path and max_bytes'')"

definition parse_sftp_write :: "string \<Rightarrow> json \<Rightarrow> branch" where
  "parse_sftp_write operation ps =
     (if \<not> has_only_keys ps [''path'', ''content_base64'']
      then reject ''SFTP write operations accept only path and content_base64''
      else
        (let maximum = (if operation = ''sftp_write'' then 512 * 1024 else 1024 * 1024) in
         case (find_string ps ''path'', find_string ps ''content_base64'') of
             (Some path, Some text) \<Rightarrow>
               if \<not> valid_sftp_path path
               then reject ''path or base64 file contents are invalid or exceed the operation limit''
               else (case decode_base64 text maximum of
                   None \<Rightarrow> reject ''path or base64 file contents are invalid or exceed the operation limit''
                 | Some content \<Rightarrow> accept (default_request\<lparr>er_path := path, er_content := content\<rparr>))
           | _ \<Rightarrow> reject ''path or base64 file contents are invalid or exceed the operation limit''))"

definition parse_expected_modified :: "json \<Rightarrow> api_error + nat option" where
  "parse_expected_modified v =
     (if v = JNull then Inr None
      else case read_nonnegative v of
          None \<Rightarrow> Inl (invalid_parameters ''expected_modified must be a non-negative SFTP timestamp or null'')
        | Some modified \<Rightarrow>
            if modified > 2 ^ 32 - 1
            then Inl (invalid_parameters ''expected_modified is outside the SFTP timestamp range'')
            else Inr (Some modified))"

definition parse_sftp_replace_guarded :: "json \<Rightarrow> branch" where
  "parse_sftp_replace_guarded ps =
     (let malformed = reject ''sftp_replace_guarded requires an absolute path, bounded contents, a size, optional mtime and SHA-256 digest''
      in if \<not> has_only_keys ps
             [''path'', ''expected_size'', ''expected_modified'', ''expected_digest'', ''content_base64'']
         then reject ''sftp_replace_guarded received an unexpected parameter''
         else case (find_string ps ''path'', obj_find ps ''expected_size'', obj_find ps ''expected_modified'',
                    find_string ps ''expected_digest'', find_string ps ''content_base64'') of
             (Some path, Some size_value, Some modified_value, Some digest, Some text) \<Rightarrow>
               if \<not> valid_sftp_path path \<or> hd path \<noteq> CHR ''/'' \<or>
                  list_ex (\<lambda>c. c \<in> {CHR 0x0D, CHR 0x0A}) path \<or> \<not> is_number_integer size_value \<or>
                  \<not> (modified_value = JNull \<or> is_number_integer modified_value) \<or> length digest \<noteq> 64
               then malformed
               else (case decode_base64 text (1024 * 1024) of
                   None \<Rightarrow> malformed
                 | Some content \<Rightarrow>
                     (case read_nonnegative size_value of
                        None \<Rightarrow> reject ''expected_size must be between 0 and 1048576''
                      | Some expected_size \<Rightarrow>
                          if expected_size > 1024 * 1024
                          then reject ''expected_size must be between 0 and 1048576''
                          else (case parse_expected_modified modified_value of
                              Inl e \<Rightarrow> Inl e
                            | Inr modified \<Rightarrow>
                                (case parse_digest digest of
                                   None \<Rightarrow> reject ''expected_digest must be a 64-character SHA-256 hex string''
                                 | Some bytes \<Rightarrow>
                                     accept (default_request\<lparr>er_path := path, er_content := content,
                                       er_expected_size := expected_size, er_expected_modified := modified,
                                       er_expected_digest := bytes\<rparr>)))))
           | _ \<Rightarrow> malformed)"

definition parse_sftp_publish :: "json \<Rightarrow> branch" where
  "parse_sftp_publish ps =
     (if \<not> has_only_keys ps [''source'', ''destination'']
      then reject ''SFTP publication accepts only source and destination paths''
      else case (find_string ps ''source'', find_string ps ''destination'') of
          (Some source, Some destination) \<Rightarrow>
            if \<not> valid_publication_path source \<or> \<not> valid_publication_path destination \<or> source = destination \<or>
               publication_parent source \<noteq> publication_parent destination
            then reject ''SFTP no-replace publication requires distinct absolute sibling paths''
            else accept (default_request\<lparr>er_source_path := source, er_destination_path := destination\<rparr>)
        | _ \<Rightarrow> reject ''SFTP publication requires source and destination paths'')"

definition parse_sftp_path :: "string \<Rightarrow> json \<Rightarrow> branch" where
  "parse_sftp_path operation ps =
     (if \<not> has_only_keys ps [''path''] then reject ''SFTP path operations accept only a path parameter''
      else case find_string ps ''path'' of
          None \<Rightarrow> reject ''path must be a non-empty SFTP path of at most 4096 bytes''
        | Some path \<Rightarrow>
            if \<not> valid_sftp_path path then reject ''path must be a non-empty SFTP path of at most 4096 bytes''
            else if operation = ''sftp_link_count'' \<and>
                    (hd path \<noteq> CHR ''/'' \<or> list_ex (\<lambda>c. c \<in> {CHR 0x0D, CHR 0x0A}) path)
            then reject ''sftp_link_count requires an absolute path without line breaks''
            else accept (default_request\<lparr>er_path := path\<rparr>))"

subsection \<open>Command execution\<close>

definition allowed_environment :: "string list" where
  "allowed_environment =
     [''LANG'', ''LC_ALL'', ''LC_CTYPE'', ''LC_MESSAGES'', ''LC_TIME'', ''LC_NUMERIC'',
      ''LC_COLLATE'', ''TZ'', ''TERM'']"

fun parse_environment :: "(string \<times> json) list \<Rightarrow> api_error + (string \<times> string) list" where
  "parse_environment [] = Inr []"
| "parse_environment ((name, v) # rest) =
     (if name \<notin> set allowed_environment \<or> \<not> is_string v
      then Inl (invalid_parameters ''server_exec env contains a non-allowlisted variable or non-string value'')
      else if length (get_string v) > 256 \<or> list_ex control_byte (get_string v)
      then Inl (invalid_parameters ''server_exec env values must be bounded and contain no control characters'')
      else (case parse_environment rest of
          Inl e \<Rightarrow> Inl e
        | Inr env \<Rightarrow> Inr ((name, get_string v) # env)))"

definition parse_exec_workdir :: "json \<Rightarrow> api_error + string" where
  "parse_exec_workdir ps =
     (case obj_find ps ''workdir'' of
        None \<Rightarrow> Inr []
      | Some (JString workdir) \<Rightarrow>
          if \<not> valid_workdir workdir
          then Inl (invalid_parameters ''server_exec workdir must be a bounded absolute path without traversal or control characters'')
          else Inr workdir
      | Some _ \<Rightarrow> Inl (invalid_parameters ''server_exec workdir must be an absolute POSIX path''))"

definition parse_exec_env :: "json \<Rightarrow> api_error + (string \<times> string) list" where
  "parse_exec_env ps =
     (case obj_find ps ''env'' of
        None \<Rightarrow> Inr []
      | Some env \<Rightarrow>
          if \<not> is_object env \<or> length (members env) > 16
          then Inl (invalid_parameters ''server_exec env must contain at most 16 allowlisted variables'')
          else parse_environment (members env))"

definition parse_server_exec :: "json \<Rightarrow> branch" where
  "parse_server_exec ps =
     (if \<not> has_only_keys ps [''command'', ''max_output_bytes'', ''timeout_ms'', ''workdir'', ''env'']
      then reject ''server_exec accepts only command, limits, workdir, and env''
      else case (find_string ps ''command'', obj_find ps ''max_output_bytes'', obj_find ps ''timeout_ms'') of
          (Some command, Some output, Some timeout) \<Rightarrow>
            if command = [] \<or> length command > 128 * 1024 \<or> nul \<in> set command
            then reject ''server_exec command must contain at most 131072 bytes and no NUL''
            else (case (parse_bounded_uint output (64 * 1024), parse_bounded_uint timeout 120000) of
                (Some parsed_output, Some parsed_timeout_ms) \<Rightarrow>
                  (case parse_exec_workdir ps of
                     Inl e \<Rightarrow> Inl e
                   | Inr workdir \<Rightarrow>
                       (case parse_exec_env ps of
                          Inl e \<Rightarrow> Inl e
                        | Inr environment \<Rightarrow>
                            accept (default_request\<lparr>er_command := command,
                              er_max_output_bytes := parsed_output, er_timeout_ms := parsed_timeout_ms,
                              er_workdir := workdir, er_environment := environment\<rparr>)))
              | _ \<Rightarrow> reject ''server_exec output and timeout limits are out of range'')
        | _ \<Rightarrow> reject ''server_exec requires a command and bounded output and timeout limits'')"

subsection \<open>The parser\<close>

definition parse_parameters :: "string \<Rightarrow> json \<Rightarrow> branch" where
  "parse_parameters operation ps =
     (if operation = ''connection_check'' then parse_no_parameters operation ps
      else if operation = ''system_snapshot'' then parse_system_snapshot ps
      else if operation = ''docker_ps'' then parse_docker_ps ps
      else if operation = ''docker_logs'' then parse_docker_logs ps
      else if operation = ''docker_inspect'' then parse_docker_inspect ps
      else if operation = ''docker_restart'' then parse_docker_restart ps
      else if operation = ''systemd_inspect'' then parse_systemd_inspect ps
      else if operation = ''package_inspect'' then parse_package_inspect ps
      else if operation = ''systemd_restart'' then parse_systemd_restart ps
      else if operation = ''package_install'' then parse_package_install ps
      else if operation = ''service_status'' then parse_service_status ps
      else if operation = ''disk_usage'' then parse_no_parameters operation ps
      else if operation = ''host_key_probe'' then parse_no_parameters operation ps
      else if operation = ''service_inventory'' then parse_no_parameters operation ps
      else if operation = ''process_inventory'' \<or> operation = ''port_inventory''
           then parse_no_parameters operation ps
      else if operation = ''server_logs'' then parse_server_logs ps
      else if operation = ''sftp_list'' \<or> operation = ''sftp_stat'' \<or> operation = ''sftp_lstat_optional''
           then parse_sftp_metadata ps
      else if operation = ''sftp_read'' then parse_sftp_read ps
      else if operation = ''sftp_write'' \<or> operation = ''sftp_create_exclusive''
           then parse_sftp_write operation ps
      else if operation = ''sftp_replace_guarded'' then parse_sftp_replace_guarded ps
      else if operation = ''sftp_publish_no_replace'' then parse_sftp_publish ps
      else if operation = ''server_exec'' then parse_server_exec ps
      else if operation = ''sftp_remove_file'' \<or> operation = ''sftp_link_count'' \<or> operation = ''sftp_create_dir''
           then parse_sftp_path operation ps
      else Inl (set_error 422 ''unsupported_operation'' ''The requested structured SSH operation is not enabled''))"

definition maximum_timeout :: "string \<Rightarrow> nat" where
  "maximum_timeout operation =
     (if operation = ''package_install'' then 600
      else if operation = ''systemd_restart'' \<or> operation = ''server_exec'' then 120 else 30)"

definition parse_timeout :: "string \<Rightarrow> nat \<Rightarrow> nat \<Rightarrow> json \<Rightarrow> api_error + nat" where
  "parse_timeout operation operation_timeout timeout_ms v =
     (let timeout =
        (if is_number_unsigned v then Some (unat (get_word v))
         else if sint (get_word v) < 1 \<or> unat (get_word v) > maximum_timeout operation then None
         else Some (unat (get_word v)))
      in case timeout of
           None \<Rightarrow> Inl (set_error 422 ''invalid_timeout'' ''timeout_seconds exceeds the operation limit'')
         | Some t \<Rightarrow>
             if t < 1 \<or> t > maximum_timeout operation \<or>
                (operation_timeout > 0 \<and> t \<noteq> operation_timeout) \<or>
                (operation = ''server_exec'' \<and> t \<noteq> (timeout_ms + 999) div 1000)
             then Inl (set_error 422 ''invalid_timeout''
                    ''timeout_seconds exceeds the operation limit or differs from its validated parameters'')
             else Inr t)"

definition parse_exec_request :: "json \<Rightarrow> api_error + exec_request" where
  "parse_exec_request v =
     (if \<not> is_object v \<or>
         \<not> has_only_keys v [''target_id'', ''operation'', ''parameters'', ''timeout_seconds'']
      then Inl (set_error 400 ''invalid_request'' ''Request must contain only the documented fields'')
      else case (find_string v ''target_id'', find_string v ''operation'', obj_find v ''parameters'',
                 obj_find v ''timeout_seconds'') of
          (Some target_id, Some operation, Some ps, Some timeout) \<Rightarrow>
            if \<not> is_object ps \<or> \<not> is_number_integer timeout
            then Inl (set_error 400 ''invalid_request'' ''Request fields have invalid types or are missing'')
            else if \<not> valid_target_id target_id
            then Inl (set_error 422 ''invalid_target_id'' ''target_id has an invalid format'')
            else (case parse_parameters operation ps of
                Inl e \<Rightarrow> Inl e
              | Inr (r, operation_timeout) \<Rightarrow>
                  (case parse_timeout operation operation_timeout (er_timeout_ms r) timeout of
                     Inl e \<Rightarrow> Inl e
                   | Inr t \<Rightarrow> Inr (r\<lparr>er_target_id := target_id, er_operation := operation,
                                 er_timeout_seconds := int t\<rparr>)))
        | _ \<Rightarrow> Inl (set_error 400 ''invalid_request'' ''Request fields have invalid types or are missing''))"

end
