(* ===== verification/PolicyProps.thy ===== *)
theory PolicyProps
  imports PolicyParse
begin

text \<open>
  What an accepted request promises.  \<open>admitted\<close> is the type of requests, stated on its own: one rule per operation, with
  the parameters it takes, the form and the bounds of each, and the request they make.  Each branch of the parser
  establishes its rule, and the parser adds the target and the timeout.
\<close>

subsection \<open>The language of requests\<close>

definition alnum_chars :: string where
  "alnum_chars = ''ABCDEFGHIJKLMNOPQRSTUVWXYZabcdefghijklmnopqrstuvwxyz0123456789''"

text \<open>A name: a letter or digit, then letters, digits and \<open>extra\<close> characters.\<close>

definition plain_name :: "string \<Rightarrow> nat \<Rightarrow> string \<Rightarrow> bool" where
  "plain_name extra limit s \<longleftrightarrow>
     s \<noteq> [] \<and> length s \<le> limit \<and> hd s \<in> set alnum_chars \<and> set s \<subseteq> set alnum_chars \<union> set extra"

definition unit_name :: "string \<Rightarrow> bool" where
  "unit_name s \<longleftrightarrow> plain_name ''_.@:-'' 128 s \<and> (\<exists>stem. s = stem @ ''.service'')"

definition bounded_path :: "string \<Rightarrow> bool" where
  "bounded_path s \<longleftrightarrow> s \<noteq> [] \<and> length s \<le> 4096 \<and> CHR 0x00 \<notin> set s"

definition absolute_line :: "string \<Rightarrow> bool" where
  "absolute_line s \<longleftrightarrow> bounded_path s \<and> hd s = CHR ''/'' \<and> CHR 0x0D \<notin> set s \<and> CHR 0x0A \<notin> set s"

definition work_directory :: "string \<Rightarrow> bool" where
  "work_directory s \<longleftrightarrow> bounded_path s \<and> hd s = CHR ''/'' \<and> (\<forall>c \<in> set s. 32 \<le> byte c \<and> byte c \<noteq> 127) \<and>
     ''.'' \<notin> set (split_on (CHR ''/'') s) \<and> ''..'' \<notin> set (split_on (CHR ''/'') s)"

definition keys_among :: "json \<Rightarrow> string list \<Rightarrow> bool" where
  "keys_among v keys \<longleftrightarrow> fst ` set (members v) \<subseteq> set keys"

definition number_param :: "json \<Rightarrow> string \<Rightarrow> nat \<Rightarrow> bool" where
  "number_param ps key n \<longleftrightarrow>
     (\<exists>w. obj_find ps key = Some (JUnsigned w) \<and> int n = uint w \<or> obj_find ps key = Some (JInt w) \<and> int n = sint w)"

inductive hex_bytes :: "string \<Rightarrow> 8 word list \<Rightarrow> bool" where
  hex_none: "hex_bytes [] []"
| hex_more: "a < 16 \<Longrightarrow> h \<in> {''0123456789abcdef'' ! a, ''0123456789ABCDEF'' ! a} \<Longrightarrow>
    b < 16 \<Longrightarrow> l \<in> {''0123456789abcdef'' ! b, ''0123456789ABCDEF'' ! b} \<Longrightarrow>
    hex_bytes s ws \<Longrightarrow> hex_bytes (h # l # s) (of_nat (16 * a + b) # ws)"

definition environment_param :: "json \<Rightarrow> (string \<times> string) list \<Rightarrow> bool" where
  "environment_param ps env \<longleftrightarrow>
     (if obj_find ps ''env'' = None then env = []
      else obj_find ps ''env'' = Some (JObject (map (\<lambda>(name, v). (name, JString v)) env)) \<and> length env \<le> 16 \<and>
        (\<forall>(name, v) \<in> set env.
           name \<in> {''LANG'', ''LC_ALL'', ''LC_CTYPE'', ''LC_MESSAGES'', ''LC_TIME'', ''LC_NUMERIC'', ''LC_COLLATE'', ''TZ'', ''TERM''} \<and>
           length v \<le> 256 \<and> (\<forall>c \<in> set v. 32 \<le> byte c \<and> byte c \<noteq> 127)))"

definition workdir_param :: "json \<Rightarrow> string \<Rightarrow> bool" where
  "workdir_param ps dir \<longleftrightarrow>
     (if obj_find ps ''workdir'' = None then dir = [] else find_string ps ''workdir'' = Some dir \<and> work_directory dir)"

definition version_param :: "json \<Rightarrow> string \<Rightarrow> bool" where
  "version_param ps version \<longleftrightarrow>
     (if obj_find ps ''version'' \<in> {None, Some JNull} then version = []
      else find_string ps ''version'' = Some version \<and> plain_name ''+._:~^-'' 128 version)"

definition unit_param :: "json \<Rightarrow> string \<Rightarrow> bool" where
  "unit_param ps u \<longleftrightarrow> (if obj_find ps ''unit'' = None then u = [] else find_string ps ''unit'' = Some u \<and> unit_name u)"

definition since_param :: "json \<Rightarrow> nat option \<Rightarrow> bool" where
  "since_param ps since \<longleftrightarrow>
     (case since of None \<Rightarrow> obj_find ps ''since_seconds'' = None
      | Some n \<Rightarrow> number_param ps ''since_seconds'' n \<and> 1 \<le> n \<and> n \<le> 604800)"

definition modified_param :: "json \<Rightarrow> nat option \<Rightarrow> bool" where
  "modified_param ps modified \<longleftrightarrow>
     (case modified of None \<Rightarrow> obj_find ps ''expected_modified'' = Some JNull
      | Some n \<Rightarrow> number_param ps ''expected_modified'' n \<and> n < 2 ^ 32)"

text \<open>The operations without parameters, and the limit of each on its timeout in seconds.\<close>

definition plain_operations :: "string list" where
  "plain_operations =
     [''connection_check'', ''disk_usage'', ''host_key_probe'', ''service_inventory'', ''process_inventory'', ''port_inventory'']"

definition timeout_limit :: "string \<Rightarrow> int" where
  "timeout_limit operation =
     (if operation = ''package_install'' then 600 else if operation \<in> {''systemd_restart'', ''server_exec''} then 120 else 30)"

text \<open>
  The parameters, the fields they set, and the timeout in seconds that the operation prescribes, when it does.  An operation
  takes no parameter but those its rule names.
\<close>

inductive admitted :: "string \<Rightarrow> json \<Rightarrow> exec_request \<Rightarrow> nat option \<Rightarrow> bool" where
  adm_plain: "operation \<in> set plain_operations \<Longrightarrow> members ps = [] \<Longrightarrow> admitted operation ps default_request None"
| adm_snapshot: "keys_among ps [''nonce''] \<Longrightarrow> find_string ps ''nonce'' = Some n \<Longrightarrow> length n = 32 \<Longrightarrow>
    set n \<subseteq> set ''0123456789abcdef'' \<Longrightarrow> admitted ''system_snapshot'' ps (default_request\<lparr>er_nonce := n\<rparr>) None"
| adm_docker_ps: "keys_among ps [''all''] \<Longrightarrow> obj_find ps ''all'' = Some (JBool b) \<Longrightarrow>
    admitted ''docker_ps'' ps (default_request\<lparr>er_include_all_containers := b\<rparr>) None"
| adm_docker_logs: "keys_among ps [''container'', ''tail''] \<Longrightarrow> find_string ps ''container'' = Some c \<Longrightarrow>
    plain_name ''_.-'' 128 c \<Longrightarrow> number_param ps ''tail'' n \<Longrightarrow> 1 \<le> n \<Longrightarrow> n \<le> 500 \<Longrightarrow>
    admitted ''docker_logs'' ps (default_request\<lparr>er_container := c, er_tail := n\<rparr>) None"
| adm_docker_inspect: "keys_among ps [''container''] \<Longrightarrow> find_string ps ''container'' = Some c \<Longrightarrow> plain_name ''_.-'' 128 c \<Longrightarrow>
    admitted ''docker_inspect'' ps (default_request\<lparr>er_container := c\<rparr>) None"
| adm_docker_restart: "keys_among ps [''container'', ''grace_period_seconds''] \<Longrightarrow> find_string ps ''container'' = Some c \<Longrightarrow>
    plain_name ''_.-'' 128 c \<Longrightarrow> number_param ps ''grace_period_seconds'' n \<Longrightarrow> 1 \<le> n \<Longrightarrow> n \<le> 120 \<Longrightarrow>
    admitted ''docker_restart'' ps (default_request\<lparr>er_container := c, er_grace_period_seconds := n\<rparr>) None"
| adm_systemd_inspect: "keys_among ps [''service''] \<Longrightarrow> find_string ps ''service'' = Some u \<Longrightarrow> unit_name u \<Longrightarrow>
    admitted ''systemd_inspect'' ps (default_request\<lparr>er_unit := u\<rparr>) None"
| adm_systemd_restart: "keys_among ps [''service'', ''timeout_seconds''] \<Longrightarrow> find_string ps ''service'' = Some u \<Longrightarrow> unit_name u \<Longrightarrow>
    number_param ps ''timeout_seconds'' n \<Longrightarrow> 1 \<le> n \<Longrightarrow> n \<le> 120 \<Longrightarrow>
    admitted ''systemd_restart'' ps (default_request\<lparr>er_unit := u\<rparr>) (Some n)"
| adm_package_inspect: "keys_among ps [''manager'', ''package''] \<Longrightarrow> find_string ps ''manager'' = Some m \<Longrightarrow>
    m \<in> {''auto'', ''apt'', ''dnf'', ''yum''} \<Longrightarrow> find_string ps ''package'' = Some p \<Longrightarrow> plain_name ''+._:-'' 128 p \<Longrightarrow>
    admitted ''package_inspect'' ps (default_request\<lparr>er_package_manager := m, er_package := p\<rparr>) None"
| adm_package_install: "keys_among ps [''manager'', ''package'', ''version'', ''timeout_seconds''] \<Longrightarrow>
    find_string ps ''manager'' = Some m \<Longrightarrow> m \<in> {''auto'', ''apt'', ''dnf'', ''yum''} \<Longrightarrow> find_string ps ''package'' = Some p \<Longrightarrow>
    plain_name ''+._:-'' 128 p \<Longrightarrow> version_param ps v \<Longrightarrow> number_param ps ''timeout_seconds'' n \<Longrightarrow> 1 \<le> n \<Longrightarrow> n \<le> 600 \<Longrightarrow>
    admitted ''package_install'' ps (default_request\<lparr>er_package_manager := m, er_package := p, er_package_version := v\<rparr>) (Some n)"
| adm_service_status: "keys_among ps [''service''] \<Longrightarrow> find_string ps ''service'' = Some u \<Longrightarrow> plain_name ''_.@:-'' 128 u \<Longrightarrow>
    admitted ''service_status'' ps (default_request\<lparr>er_service := u\<rparr>) None"
| adm_server_logs: "keys_among ps [''since_seconds'', ''unit''] \<Longrightarrow> since_param ps since \<Longrightarrow> unit_param ps u \<Longrightarrow>
    admitted ''server_logs'' ps (default_request\<lparr>er_since_seconds := since, er_unit := u\<rparr>) None"
| adm_sftp_path: "operation \<in> {''sftp_list'', ''sftp_stat'', ''sftp_lstat_optional'', ''sftp_remove_file'', ''sftp_create_dir''} \<Longrightarrow>
    keys_among ps [''path''] \<Longrightarrow> find_string ps ''path'' = Some p \<Longrightarrow> bounded_path p \<Longrightarrow>
    admitted operation ps (default_request\<lparr>er_path := p\<rparr>) None"
| adm_sftp_link_count: "keys_among ps [''path''] \<Longrightarrow> find_string ps ''path'' = Some p \<Longrightarrow> absolute_line p \<Longrightarrow>
    admitted ''sftp_link_count'' ps (default_request\<lparr>er_path := p\<rparr>) None"
| adm_sftp_read: "keys_among ps [''path'', ''max_bytes''] \<Longrightarrow> find_string ps ''path'' = Some p \<Longrightarrow> bounded_path p \<Longrightarrow>
    number_param ps ''max_bytes'' n \<Longrightarrow> n \<le> 1048576 \<Longrightarrow>
    admitted ''sftp_read'' ps (default_request\<lparr>er_path := p, er_max_bytes := n\<rparr>) None"
| adm_sftp_write: "(operation, limit) \<in> {(''sftp_write'', 524288), (''sftp_create_exclusive'', 1048576)} \<Longrightarrow>
    keys_among ps [''path'', ''content_base64''] \<Longrightarrow> find_string ps ''path'' = Some p \<Longrightarrow> bounded_path p \<Longrightarrow>
    find_string ps ''content_base64'' = Some (encode_base64 content) \<Longrightarrow> length content \<le> limit \<Longrightarrow>
    admitted operation ps (default_request\<lparr>er_path := p, er_content := content\<rparr>) None"
| adm_sftp_replace: "keys_among ps [''path'', ''expected_size'', ''expected_modified'', ''expected_digest'', ''content_base64''] \<Longrightarrow>
    find_string ps ''path'' = Some p \<Longrightarrow> absolute_line p \<Longrightarrow> number_param ps ''expected_size'' n \<Longrightarrow> n \<le> 1048576 \<Longrightarrow>
    modified_param ps modified \<Longrightarrow> find_string ps ''expected_digest'' = Some d \<Longrightarrow> hex_bytes d digest \<Longrightarrow> length digest = 32 \<Longrightarrow>
    find_string ps ''content_base64'' = Some (encode_base64 content) \<Longrightarrow> length content \<le> 1048576 \<Longrightarrow>
    admitted ''sftp_replace_guarded'' ps (default_request\<lparr>er_path := p, er_content := content, er_expected_size := n,
      er_expected_modified := modified, er_expected_digest := digest\<rparr>) None"
| adm_sftp_publish: "keys_among ps [''source'', ''destination''] \<Longrightarrow> find_string ps ''source'' = Some s \<Longrightarrow>
    find_string ps ''destination'' = Some d \<Longrightarrow> valid_publication_path s \<Longrightarrow> valid_publication_path d \<Longrightarrow> s \<noteq> d \<Longrightarrow>
    publication_parent s = publication_parent d \<Longrightarrow>
    admitted ''sftp_publish_no_replace'' ps (default_request\<lparr>er_source_path := s, er_destination_path := d\<rparr>) None"
| adm_server_exec: "keys_among ps [''command'', ''max_output_bytes'', ''timeout_ms'', ''workdir'', ''env''] \<Longrightarrow>
    find_string ps ''command'' = Some c \<Longrightarrow> c \<noteq> [] \<Longrightarrow> length c \<le> 131072 \<Longrightarrow> CHR 0x00 \<notin> set c \<Longrightarrow>
    number_param ps ''max_output_bytes'' n \<Longrightarrow> 1 \<le> n \<Longrightarrow> n \<le> 65536 \<Longrightarrow> number_param ps ''timeout_ms'' ms \<Longrightarrow> 1 \<le> ms \<Longrightarrow> ms \<le> 120000 \<Longrightarrow>
    workdir_param ps dir \<Longrightarrow> environment_param ps env \<Longrightarrow>
    admitted ''server_exec'' ps (default_request\<lparr>er_command := c, er_max_output_bytes := n, er_timeout_ms := ms,
      er_workdir := dir, er_environment := env\<rparr>) (Some ((ms + 999) div 1000))"

inductive_cases admitted_publish: "admitted ''sftp_publish_no_replace'' ps r t"

subsection \<open>Names, numbers and paths\<close>

lemma alnum_char: "ascii_alnum c \<longleftrightarrow> c \<in> set alnum_chars"
proof -
  have "\<forall>c. ascii_alnum c \<longleftrightarrow> c \<in> set alnum_chars" by code_simp
  then show ?thesis ..
qed

lemma nonce_char: "ascii_digit c \<or> (97 \<le> byte c \<and> byte c \<le> 102) \<longleftrightarrow> c \<in> set ''0123456789abcdef''"
proof -
  have "\<forall>c. ascii_digit c \<or> (97 \<le> byte c \<and> byte c \<le> 102) \<longleftrightarrow> c \<in> set ''0123456789abcdef''" by code_simp
  then show ?thesis ..
qed

lemma hex_char: "hex_value c = Some n \<Longrightarrow> n < 16 \<and> c \<in> {''0123456789abcdef'' ! n, ''0123456789ABCDEF'' ! n}"
proof -
  have "\<forall>c. case hex_value c of Some n \<Rightarrow> n < 16 \<and> c \<in> {''0123456789abcdef'' ! n, ''0123456789ABCDEF'' ! n} | None \<Rightarrow> True"
    by code_simp
  then show "hex_value c = Some n \<Longrightarrow> n < 16 \<and> c \<in> {''0123456789abcdef'' ! n, ''0123456789ABCDEF'' ! n}"
    by (auto dest: spec [of _ c])
qed

lemma plain_nameI:
  "s \<noteq> [] \<Longrightarrow> length s \<le> limit \<Longrightarrow> ascii_alnum (hd s) \<Longrightarrow> list_all (\<lambda>c. ascii_alnum c \<or> c \<in> set extra) (tl s) \<Longrightarrow> plain_name extra limit s"
  by (cases s) (auto simp: plain_name_def alnum_char list_all_iff)

lemma names_plain:
  "valid_container_ref s \<Longrightarrow> plain_name ''_.-'' 128 s"
  "valid_package_ref s \<Longrightarrow> plain_name ''+._:-'' 128 s"
  "valid_package_version s \<Longrightarrow> plain_name ''+._:~^-'' 128 s"
  "valid_service_name s \<Longrightarrow> plain_name ''_.@:-'' 128 s"
  "valid_target_id s \<Longrightarrow> plain_name ''_.-'' 64 s"
  by (rule plain_nameI;
      auto simp: valid_container_ref_def valid_package_ref_def valid_package_version_def valid_service_name_def valid_target_id_def
        ident_def list_all_iff split: if_splits list.splits)+

lemma systemd_unit_plain: "valid_systemd_unit s \<Longrightarrow> plain_name ''_.@:-'' 128 s"
  by (rule plain_nameI; cases s) (auto simp: valid_systemd_unit_def list_all_iff split: if_splits)

lemma ends_with_stem: "ends_with suffix s \<Longrightarrow> \<exists>stem. s = stem @ suffix"
  unfolding ends_with_def by (metis append_take_drop_id)

lemma unit_names:
  "valid_service_name s \<Longrightarrow> ends_with ''.service'' s \<Longrightarrow> unit_name s"
  "valid_systemd_unit s \<Longrightarrow> unit_name s"
  by (auto simp: unit_name_def names_plain systemd_unit_plain ends_with_stem valid_systemd_unit_def split: if_splits)

lemma path_bounded: "valid_sftp_path p = bounded_path p"
  by (simp add: valid_sftp_path_def bounded_path_def nul_def)

lemma path_line:
  "valid_sftp_path p \<Longrightarrow> hd p = CHR ''/'' \<Longrightarrow> \<not> list_ex (\<lambda>c. c \<in> {CHR 0x0D, CHR 0x0A}) p \<Longrightarrow> absolute_line p"
  by (auto simp: absolute_line_def path_bounded list_ex_iff)

lemma workdir_path: "valid_workdir w \<Longrightarrow> work_directory w"
  by (auto simp: valid_workdir_def work_directory_def bounded_path_def nul_def list_ex_iff dot_segment_def control_byte_def not_less)

lemma uint_of_sint: "0 \<le> sint (w :: 64 word) \<Longrightarrow> uint w = sint w"
proof -
  assume "0 \<le> sint w"
  moreover have "sint w < 2 ^ 63" using sint_lt [of w] by simp
  moreover have "uint w = take_bit 64 (sint w)" by (simp add: uint_sint)
  ultimately show ?thesis by (simp add: take_bit_int_eq_self)
qed

lemma read_positive_param: "obj_find ps k = Some v \<Longrightarrow> 1 \<le> read_positive v \<Longrightarrow> number_param ps k (read_positive v)"
  by (cases v) (auto simp: read_positive_def number_param_def signed_positive_def uint_of_sint split: if_splits)

lemma read_nonnegative_param:
  "obj_find ps k = Some v \<Longrightarrow> is_number_integer v \<Longrightarrow> read_nonnegative v = Some n \<Longrightarrow> number_param ps k n"
  by (cases v) (auto simp: read_nonnegative_def number_param_def uint_of_sint split: if_splits)

lemma parse_bounded_uint_param:
  "obj_find ps k = Some v \<Longrightarrow> parse_bounded_uint v m = Some n \<Longrightarrow> number_param ps k n \<and> 1 \<le> n \<and> n \<le> m"
  by (cases v) (auto simp: parse_bounded_uint_def number_param_def Let_def uint_of_sint split: if_splits option.splits)

lemma nibbles:
  assumes "a < 16" "b < 16"
  shows "push_bit 4 a OR b = 16 * a + (b :: nat)"
proof -
  have "\<forall>a \<in> set [0..<16]. \<forall>b \<in> set [0..<16]. push_bit 4 a OR b = 16 * a + (b :: nat)" by code_simp
  then show ?thesis using assms by simp
qed

lemma digest_bytes: "parse_digest s = Some ws \<Longrightarrow> even (length s) \<Longrightarrow> hex_bytes s ws \<and> length ws = length s div 2"
proof (induction s arbitrary: ws rule: parse_digest.induct)
  case (1 h l rest)
  then obtain a b bytes where parts: "hex_value h = Some a" "hex_value l = Some b" "parse_digest rest = Some bytes"
      "ws = of_nat (push_bit 4 a OR b) # bytes"
    by (auto split: option.splits)
  note digits = hex_char [OF parts(1)] hex_char [OF parts(2)]
  have "push_bit 4 a OR b = 16 * a + b" by (rule nibbles) (use digits in simp_all)
  moreover have "hex_bytes rest bytes \<and> length bytes = length rest div 2"
    using "1.IH" [OF refl parts(1-3)] "1.prems"(2) by simp
  ultimately show ?case
    using hex_more [of a h b l rest bytes] digits parts(4) by simp
qed (auto intro: hex_none)

lemma only_keys [simp]: "has_only_keys v keys \<longleftrightarrow> keys_among v keys"
  by (auto simp: has_only_keys_def keys_among_def list_all_iff)

subsection \<open>Branches\<close>

lemma accept_Inr [simp]: "accept r = Inr b \<longleftrightarrow> b = (r, 0)"
  by (auto simp: accept_def)

lemma reject_Inr [simp]: "reject m = Inr b \<longleftrightarrow> False"
  by (simp add: reject_def)

lemmas branch_splits = if_splits option.splits json.splits sum.splits prod.splits

text \<open>The local \<^verbatim>\<open>operation_timeout\<close> of a branch is 0 when the operation prescribes no timeout.\<close>

definition branch_ok :: "string \<Rightarrow> json \<Rightarrow> exec_request \<Rightarrow> nat \<Rightarrow> bool" where
  "branch_ok operation ps r t \<longleftrightarrow> (if t = 0 then admitted operation ps r None else admitted operation ps r (Some t))"

lemma no_parameters_ok:
  "parse_no_parameters operation ps = Inr (r, t) \<Longrightarrow> operation \<in> set plain_operations \<Longrightarrow> branch_ok operation ps r t"
  by (auto simp: parse_no_parameters_def branch_ok_def intro: adm_plain split: if_splits)

lemma system_snapshot_ok: "parse_system_snapshot ps = Inr (r, t) \<Longrightarrow> branch_ok ''system_snapshot'' ps r t"
  by (auto simp: parse_system_snapshot_def branch_ok_def valid_snapshot_nonce_def nonce_char list_all_iff subset_iff
      simp del: set_simps intro!: adm_snapshot split: branch_splits)

lemma docker_ps_ok: "parse_docker_ps ps = Inr (r, t) \<Longrightarrow> branch_ok ''docker_ps'' ps r t"
  by (auto simp: parse_docker_ps_def branch_ok_def intro: adm_docker_ps split: branch_splits)

lemma docker_logs_ok: "parse_docker_logs ps = Inr (r, t) \<Longrightarrow> branch_ok ''docker_logs'' ps r t"
  by (auto simp: parse_docker_logs_def branch_ok_def Let_def intro!: adm_docker_logs names_plain read_positive_param split: branch_splits)

lemma docker_inspect_ok: "parse_docker_inspect ps = Inr (r, t) \<Longrightarrow> branch_ok ''docker_inspect'' ps r t"
  by (auto simp: parse_docker_inspect_def branch_ok_def intro!: adm_docker_inspect names_plain split: branch_splits)

lemma docker_restart_ok: "parse_docker_restart ps = Inr (r, t) \<Longrightarrow> branch_ok ''docker_restart'' ps r t"
  by (auto simp: parse_docker_restart_def branch_ok_def Let_def intro!: adm_docker_restart names_plain read_positive_param split: branch_splits)

lemma systemd_inspect_ok: "parse_systemd_inspect ps = Inr (r, t) \<Longrightarrow> branch_ok ''systemd_inspect'' ps r t"
  by (auto simp: parse_systemd_inspect_def branch_ok_def intro!: adm_systemd_inspect unit_names(1) split: branch_splits)

lemma package_inspect_ok: "parse_package_inspect ps = Inr (r, t) \<Longrightarrow> branch_ok ''package_inspect'' ps r t"
  by (auto simp: parse_package_inspect_def branch_ok_def valid_package_manager_def intro!: adm_package_inspect names_plain split: branch_splits)

lemma systemd_restart_ok: "parse_systemd_restart ps = Inr (r, t) \<Longrightarrow> branch_ok ''systemd_restart'' ps r t"
  by (auto simp: parse_systemd_restart_def branch_ok_def Let_def intro!: adm_systemd_restart unit_names(1) read_positive_param split: branch_splits)

lemma package_install_ok: "parse_package_install ps = Inr (r, t) \<Longrightarrow> branch_ok ''package_install'' ps r t"
  by (auto simp: parse_package_install_def branch_ok_def Let_def valid_package_manager_def version_param_def find_string_def
      intro!: adm_package_install names_plain read_positive_param split: branch_splits)

lemma service_status_ok: "parse_service_status ps = Inr (r, t) \<Longrightarrow> branch_ok ''service_status'' ps r t"
  by (auto simp: parse_service_status_def branch_ok_def intro!: adm_service_status names_plain split: branch_splits)

lemma log_unit_ok:
  "parse_log_unit ps r0 = Inr (r, t) \<Longrightarrow> er_unit r0 = [] \<Longrightarrow> t = 0 \<and> (\<exists>u. unit_param ps u \<and> r = r0\<lparr>er_unit := u\<rparr>)"
  by (cases r0) (auto simp: parse_log_unit_def unit_param_def find_string_def unit_names split: branch_splits)

lemma server_logs_ok: "parse_server_logs ps = Inr (r, t) \<Longrightarrow> branch_ok ''server_logs'' ps r t"
  by (auto simp: parse_server_logs_def branch_ok_def Let_def since_param_def default_request_def split: if_splits option.splits
      dest!: log_unit_ok intro!: read_positive_param adm_server_logs [unfolded default_request_def, simplified])

lemma sftp_metadata_ok:
  "parse_sftp_metadata ps = Inr (r, t) \<Longrightarrow> operation \<in> {''sftp_list'', ''sftp_stat'', ''sftp_lstat_optional''} \<Longrightarrow>
   branch_ok operation ps r t"
  by (auto simp: parse_sftp_metadata_def branch_ok_def path_bounded intro!: adm_sftp_path split: branch_splits)

lemma sftp_read_ok: "parse_sftp_read ps = Inr (r, t) \<Longrightarrow> branch_ok ''sftp_read'' ps r t"
  by (auto simp: parse_sftp_read_def branch_ok_def path_bounded intro!: adm_sftp_read read_nonnegative_param split: branch_splits)

lemma sftp_write_ok:
  "parse_sftp_write operation ps = Inr (r, t) \<Longrightarrow> operation \<in> {''sftp_write'', ''sftp_create_exclusive''} \<Longrightarrow> branch_ok operation ps r t"
  by (auto simp: parse_sftp_write_def branch_ok_def path_bounded Let_def decode_base64_inverse intro!: adm_sftp_write split: branch_splits)

lemma expected_modified_ok:
  assumes "obj_find ps ''expected_modified'' = Some v" "v = JNull \<or> is_number_integer v" "parse_expected_modified v = Inr modified"
  shows "modified_param ps modified"
proof (cases "v = JNull")
  case True
  then show ?thesis using assms by (simp add: parse_expected_modified_def modified_param_def)
next
  case False
  then obtain n where n: "read_nonnegative v = Some n" "modified = Some n" "n < 2 ^ 32"
    using assms(3) by (auto simp: parse_expected_modified_def split: branch_splits)
  with read_nonnegative_param [OF assms(1) _ n(1)] assms(2) False show ?thesis by (simp add: modified_param_def)
qed

lemma digest_param: "parse_digest s = Some ws \<Longrightarrow> length s = 64 \<Longrightarrow> hex_bytes s ws \<and> length ws = 32"
  using digest_bytes [of s ws] by simp

lemma sftp_replace_ok: "parse_sftp_replace_guarded ps = Inr (r, t) \<Longrightarrow> branch_ok ''sftp_replace_guarded'' ps r t"
  by (auto simp: parse_sftp_replace_guarded_def branch_ok_def Let_def decode_base64_inverse path_line digest_param
      intro!: adm_sftp_replace read_nonnegative_param expected_modified_ok split: branch_splits)

lemma sftp_publish_ok: "parse_sftp_publish ps = Inr (r, t) \<Longrightarrow> branch_ok ''sftp_publish_no_replace'' ps r t"
  by (auto simp: parse_sftp_publish_def branch_ok_def intro!: adm_sftp_publish split: branch_splits)

lemma sftp_path_ok:
  "parse_sftp_path operation ps = Inr (r, t) \<Longrightarrow>
   operation \<in> {''sftp_remove_file'', ''sftp_link_count'', ''sftp_create_dir''} \<Longrightarrow> branch_ok operation ps r t"
  by (auto simp: parse_sftp_path_def branch_ok_def path_bounded [symmetric] intro!: adm_sftp_path adm_sftp_link_count path_line split: branch_splits)

lemma parse_environment_ok:
  "parse_environment kvs = Inr env \<Longrightarrow> kvs = map (\<lambda>(name, v). (name, JString v)) env \<and>
   (\<forall>(name, v) \<in> set env. name \<in> set allowed_environment \<and> length v \<le> 256 \<and> \<not> list_ex control_byte v)"
proof (induction kvs arbitrary: env rule: parse_environment.induct)
  case (2 name v rest)
  then show ?case by (cases v) (auto split: if_splits sum.splits)
qed simp

lemma parse_exec_env_ok: "parse_exec_env ps = Inr env \<Longrightarrow> environment_param ps env"
  by (auto simp: parse_exec_env_def environment_param_def allowed_environment_def list_ex_iff control_byte_def not_less
      elim!: is_objectE split: option.splits if_splits dest!: parse_environment_ok)

lemma parse_exec_workdir_ok: "parse_exec_workdir ps = Inr w \<Longrightarrow> workdir_param ps w"
  by (auto simp: parse_exec_workdir_def workdir_param_def find_string_def workdir_path split: branch_splits)

lemma server_exec_ok:
  assumes "parse_server_exec ps = Inr (r, t)"
  shows "t = 0 \<and> admitted ''server_exec'' ps r (Some ((er_timeout_ms r + 999) div 1000))"
proof -
  obtain command out timeout where find: "find_string ps ''command'' = Some command" "obj_find ps ''max_output_bytes'' = Some out"
      "obj_find ps ''timeout_ms'' = Some timeout"
    using assms by (auto simp: parse_server_exec_def split: if_splits option.splits)
  then have keys: "has_only_keys ps [''command'', ''max_output_bytes'', ''timeout_ms'', ''workdir'', ''env'']"
    and command: "command \<noteq> []" "length command \<le> 131072" "nul \<notin> set command"
    using assms by (auto simp: parse_server_exec_def split: if_splits)
  obtain out_bytes ms where out: "parse_bounded_uint out 65536 = Some out_bytes" and timeout: "parse_bounded_uint timeout 120000 = Some ms"
    using assms find by (auto simp: parse_server_exec_def split: if_splits option.splits)
  obtain workdir env where workdir: "parse_exec_workdir ps = Inr workdir" and env: "parse_exec_env ps = Inr env"
    and r: "r = default_request\<lparr>er_command := command, er_max_output_bytes := out_bytes,
        er_timeout_ms := ms, er_workdir := workdir, er_environment := env\<rparr>" "t = 0"
    using assms find out timeout by (auto simp: parse_server_exec_def split: if_splits sum.splits)
  have "admitted ''server_exec'' ps r (Some ((ms + 999) div 1000))"
    unfolding r(1)
    using keys find(1) command parse_bounded_uint_param [OF find(2) out] parse_bounded_uint_param [OF find(3) timeout]
      parse_exec_workdir_ok [OF workdir] parse_exec_env_ok [OF env]
    by (intro adm_server_exec) (simp_all add: nul_def)
  then show ?thesis by (simp add: r)
qed

subsection \<open>The parser\<close>

lemma parse_timeout_ok:
  "parse_timeout operation operation_timeout ms v = Inr t \<Longrightarrow>
   1 \<le> t \<and> t \<le> maximum_timeout operation \<and> (operation_timeout > 0 \<longrightarrow> t = operation_timeout) \<and>
   (operation = ''server_exec'' \<longrightarrow> t = (ms + 999) div 1000)"
  by (auto simp: parse_timeout_def Let_def split: if_splits option.splits)

lemma parse_timeout_value: "parse_timeout operation operation_timeout ms v = Inr t \<Longrightarrow> is_number_integer v \<Longrightarrow>
   obj_find doc ''timeout_seconds'' = Some v \<Longrightarrow> number_param doc ''timeout_seconds'' t"
proof -
  assume parsed: "parse_timeout operation operation_timeout ms v = Inr t" and v: "is_number_integer v"
    and found: "obj_find doc ''timeout_seconds'' = Some v"
  have "t = unat (get_word v) \<and> (is_number_unsigned v \<or> 1 \<le> sint (get_word v))"
    using parsed unfolding parse_timeout_def Let_def by (auto simp only: sum.inject sum.distinct split: if_splits option.splits)
  with v found show ?thesis by (cases v) (auto simp: number_param_def uint_of_sint)
qed

definition enabled_operations :: "string list" where
  "enabled_operations =
     [''connection_check'', ''system_snapshot'', ''docker_ps'', ''docker_logs'', ''docker_inspect'',
      ''docker_restart'', ''systemd_inspect'', ''package_inspect'', ''systemd_restart'',
      ''package_install'', ''service_status'', ''disk_usage'', ''host_key_probe'',
      ''service_inventory'', ''process_inventory'', ''port_inventory'', ''server_logs'',
      ''sftp_list'', ''sftp_stat'', ''sftp_lstat_optional'', ''sftp_read'', ''sftp_write'',
      ''sftp_create_exclusive'', ''sftp_replace_guarded'', ''sftp_publish_no_replace'',
      ''server_exec'', ''sftp_remove_file'', ''sftp_link_count'', ''sftp_create_dir'']"

lemma parse_parameters_ok:
  assumes "parse_parameters operation ps = Inr (r, t)"
  shows "if operation = ''server_exec'' then admitted operation ps r (Some ((er_timeout_ms r + 999) div 1000)) else branch_ok operation ps r t"
proof -
  have "operation \<in> set enabled_operations"
    using assms by (auto simp: parse_parameters_def enabled_operations_def split: if_splits)
  then show ?thesis
    unfolding enabled_operations_def list.set insert_iff empty_iff
    using assms
    by (elim disjE)
      (simp_all add: parse_parameters_def system_snapshot_ok docker_ps_ok docker_logs_ok docker_inspect_ok docker_restart_ok
        systemd_inspect_ok package_inspect_ok systemd_restart_ok package_install_ok service_status_ok server_logs_ok sftp_read_ok
        sftp_replace_ok sftp_publish_ok server_exec_ok no_parameters_ok plain_operations_def sftp_metadata_ok sftp_write_ok sftp_path_ok)
qed

lemma parse_exec_request_Inr:
  assumes "parse_exec_request v = Inr r"
  obtains target operation ps timeout r0 op_timeout t where
    "is_object v" "has_only_keys v [''target_id'', ''operation'', ''parameters'', ''timeout_seconds'']"
    "find_string v ''target_id'' = Some target" "find_string v ''operation'' = Some operation"
    "obj_find v ''parameters'' = Some ps" "is_object ps" "obj_find v ''timeout_seconds'' = Some timeout"
    "is_number_integer timeout" "valid_target_id target" "parse_parameters operation ps = Inr (r0, op_timeout)"
    "parse_timeout operation op_timeout (er_timeout_ms r0) timeout = Inr t"
    "r = r0\<lparr>er_target_id := target, er_operation := operation, er_timeout_seconds := int t\<rparr>"
  using assms unfolding parse_exec_request_def
  by (auto split: if_splits option.splits prod.splits sum.splits)

text \<open>An accepted request in full: the document, its target, its operation with the parameters, and its timeout.\<close>

definition request_admitted :: "json \<Rightarrow> exec_request \<Rightarrow> bool" where
  "request_admitted v r \<longleftrightarrow>
     is_object v \<and> keys_among v [''target_id'', ''operation'', ''parameters'', ''timeout_seconds''] \<and>
     (\<exists>target operation ps r0 prescribed seconds.
        find_string v ''target_id'' = Some target \<and> plain_name ''_.-'' 64 target \<and>
        find_string v ''operation'' = Some operation \<and>
        obj_find v ''parameters'' = Some ps \<and> is_object ps \<and> admitted operation ps r0 prescribed \<and>
        number_param v ''timeout_seconds'' seconds \<and> 1 \<le> seconds \<and> int seconds \<le> timeout_limit operation \<and>
        (\<forall>n. prescribed = Some n \<longrightarrow> seconds = n) \<and>
        r = r0\<lparr>er_target_id := target, er_operation := operation, er_timeout_seconds := int seconds\<rparr>)"

lemma parse_exec_request_accepts:
  assumes "parse_exec_request v = Inr r"
  shows "request_admitted v r"
  using assms
proof (rule parse_exec_request_Inr)
  fix target operation ps timeout r0 op_timeout t
  assume top: "is_object v" "has_only_keys v [''target_id'', ''operation'', ''parameters'', ''timeout_seconds'']"
    "find_string v ''target_id'' = Some target" "find_string v ''operation'' = Some operation"
    "obj_find v ''parameters'' = Some ps" "is_object ps" "obj_find v ''timeout_seconds'' = Some timeout"
    and rest: "is_number_integer timeout" "valid_target_id target" "parse_parameters operation ps = Inr (r0, op_timeout)"
      "parse_timeout operation op_timeout (er_timeout_ms r0) timeout = Inr t"
      "r = r0\<lparr>er_target_id := target, er_operation := operation, er_timeout_seconds := int t\<rparr>"
  note seconds = parse_timeout_ok [OF rest(4)] and number = parse_timeout_value [OF rest(4,1) top(7)]
  have limit: "int t \<le> timeout_limit operation" using seconds by (auto simp: timeout_limit_def maximum_timeout_def split: if_splits)
  obtain prescribed where typed: "admitted operation ps r0 prescribed" "\<forall>n. prescribed = Some n \<longrightarrow> t = n"
    using parse_parameters_ok [OF rest(3)] seconds by (auto simp: branch_ok_def split: if_splits)
  show ?thesis
    unfolding request_admitted_def
    using top [unfolded only_keys] rest(5) names_plain(5) [OF rest(2)] typed number limit seconds by blast
qed

text \<open>What the other properties read off.\<close>

definition exec_fields_ok :: "string \<Rightarrow> exec_request \<Rightarrow> bool" where
  "exec_fields_ok operation r \<longleftrightarrow>
     (if operation = ''server_exec''
      then er_command r \<noteq> [] \<and> length (er_command r) \<le> 131072 \<and> nul \<notin> set (er_command r) \<and>
           fst ` set (er_environment r) \<subseteq> set allowed_environment
      else er_command r = [] \<and> er_workdir r = [] \<and> er_environment r = [])"

lemma admitted_exec_fields: "admitted operation ps r t \<Longrightarrow> exec_fields_ok operation r"
  by (induction rule: admitted.induct)
    (auto simp: exec_fields_ok_def default_request_def nul_def environment_param_def allowed_environment_def plain_operations_def
      split: if_splits)

subsection \<open>Publication paths\<close>

lemma publication_path_split:
  assumes "valid_publication_path p"
  shows "\<exists>dir name. p = dir @ CHR ''/'' # name \<and> name \<noteq> [] \<and> CHR ''/'' \<notin> set name \<and>
    name \<noteq> ''.'' \<and> name \<noteq> ''..'' \<and> publication_parent p = (if dir = [] then ''/'' else dir) \<and>
    (dir = [] \<or> (hd dir = CHR ''/'' \<and> last dir \<noteq> CHR ''/''))"
proof -
  from assms have p: "p \<noteq> []" "hd p = CHR ''/''" "last p \<noteq> CHR ''/''" "find_sub ''//'' p = None"
    "\<not> list_ex dot_segment (split_on (CHR ''/'') (drop 1 p))"
    by (auto simp: valid_publication_path_def valid_sftp_path_def split: if_splits)
  then have "CHR ''/'' \<in> set p" by (cases p) auto
  then obtain i where i: "rfind_char (CHR ''/'') p = Some i"
    using rfind_char_None [of "CHR ''/''" p] by blast
  from rfind_char_SomeD [OF i] obtain name where
    name: "p = take i p @ CHR ''/'' # name" "CHR ''/'' \<notin> set name" "i < length p" by blast
  let ?dir = "take i p"
  have "name \<noteq> []" using p(3) name(1) by (metis last_snoc)
  have dir_len: "length ?dir = i" using name(3) by simp
  have par: "publication_parent p = (if ?dir = [] then ''/'' else ?dir)"
  proof (cases "i = 0")
    case True
    then have "take 1 p = ''/''" using p(1,2) by (cases p) auto
    with True i show ?thesis by (simp add: publication_parent_def)
  next
    case False
    with i p(1) show ?thesis by (simp add: publication_parent_def)
  qed
  have dirs: "?dir = [] \<or> (hd ?dir = CHR ''/'' \<and> last ?dir \<noteq> CHR ''/'')"
  proof (cases "?dir = []")
    case False
    then have "hd ?dir = hd p" using p(1) by (cases p; cases i) auto
    moreover have "last ?dir \<noteq> CHR ''/''"
    proof
      assume "last ?dir = CHR ''/''"
      with False have "?dir = butlast ?dir @ ''/''" by (metis append_butlast_last_id)
      then have "p = butlast ?dir @ ''//'' @ name"
        using name(1) by (metis append.assoc append_Cons append_Nil)
      with p(4) show False using find_sub_NoneD by blast
    qed
    ultimately show ?thesis using p(2) by simp
  qed simp
  have "name \<in> set (split_on (CHR ''/'') (drop 1 p))"
  proof (cases "?dir = []")
    case True
    have "p = [] @ CHR ''/'' # name" using name(1) [unfolded True] .
    then have "drop 1 p = name" by simp
    then show ?thesis using name(2) by (simp add: str_simps)
  next
    case False
    then obtain c ds where dir: "?dir = c # ds" by (cases ?dir) auto
    have "p = (c # ds) @ CHR ''/'' # name" using name(1) [unfolded dir] .
    then have "drop 1 p = ds @ CHR ''/'' # name" by simp
    then show ?thesis using name(2) by (simp add: str_simps)
  qed
  then have "name \<noteq> ''.'' \<and> name \<noteq> ''..''"
    using p(5) by (auto simp: list_ex_iff dot_segment_def)
  with name par dirs \<open>name \<noteq> []\<close> show ?thesis by blast
qed

lemma siblings:
  assumes "valid_publication_path p" "valid_publication_path q" "p \<noteq> q"
    "publication_parent p = publication_parent q"
  shows "\<exists>dir a b. p = dir @ CHR ''/'' # a \<and> q = dir @ CHR ''/'' # b \<and> a \<noteq> b \<and>
    CHR ''/'' \<notin> set a \<and> CHR ''/'' \<notin> set b \<and> a \<notin> {[], ''.'', ''..''} \<and> b \<notin> {[], ''.'', ''..''}"
proof -
  from publication_path_split [OF assms(1)] obtain dir a where
    p: "p = dir @ CHR ''/'' # a" "a \<notin> {[], ''.'', ''..''}" "CHR ''/'' \<notin> set a"
      "publication_parent p = (if dir = [] then ''/'' else dir)"
      "dir = [] \<or> (hd dir = CHR ''/'' \<and> last dir \<noteq> CHR ''/'')" by blast
  from publication_path_split [OF assms(2)] obtain dir' b where
    q: "q = dir' @ CHR ''/'' # b" "b \<notin> {[], ''.'', ''..''}" "CHR ''/'' \<notin> set b"
      "publication_parent q = (if dir' = [] then ''/'' else dir')"
      "dir' = [] \<or> (hd dir' = CHR ''/'' \<and> last dir' \<noteq> CHR ''/'')" by blast
  have sep: "x = [] \<or> (hd x = CHR ''/'' \<and> last x \<noteq> CHR ''/'') \<Longrightarrow> x \<noteq> ''/''" for x :: string by auto
  have "dir = dir'"
    using p(4) q(4) assms(4) sep [OF p(5)] sep [OF q(5)] by (auto split: if_splits)
  with p q assms(3) show ?thesis by auto
qed

subsection \<open>Evaluation\<close>

text \<open>The definitions a concrete request unfolds to.\<close>

lemmas policy_eval =
  parse_exec_request_def keys_among_def find_string_def valid_target_id_def ident_def byte_class_defs
  parse_parameters_def parse_server_exec_def parse_bounded_uint_def parse_exec_workdir_def valid_workdir_def
  nul_def dot_segment_def parse_exec_env_def allowed_environment_def parse_timeout_def maximum_timeout_def
  accept_def default_request_def parse_sftp_publish_def valid_publication_path_def publication_parent_def
  valid_sftp_path_def starts_with_def

subsection \<open>Properties\<close>

text \<open>C31: Whatever JSON arrives, a request the parser accepts is well typed.  The document has the four
  documented fields and no other, a target identifier of at most 64 plain characters and a timeout between 1 second and the
  limit of the operation; the operation is one of the 29 of \<open>admitted\<close>, its parameters are present, no other is, each has the
  form and the bounds of its rule (nonce, names, numbers, paths, digest, contents), the request holds exactly these values and
  the defaults elsewhere, and where the operation has a timeout of its own the two agree (\<^verbatim>\<open>server_exec\<close>: its
  milliseconds rounded up).\<close>

theorem parse_exec_request_sound:
  "parse_exec_request v = Inr r \<Longrightarrow> request_admitted v r"
  by (rule parse_exec_request_accepts)

theorem parse_exec_request_sound_witness:
  "request_admitted
     (JObject [(''target_id'', JString ''web-1''), (''operation'', JString ''server_exec''),
         (''parameters'', JObject [(''command'', JString ''uptime''), (''max_output_bytes'', JUnsigned 4096),
            (''timeout_ms'', JUnsigned 1500), (''workdir'', JString ''/srv/app''),
            (''env'', JObject [(''LANG'', JString ''C'')])]),
         (''timeout_seconds'', JUnsigned 2)])
     (default_request\<lparr>er_command := ''uptime'', er_max_output_bytes := 4096, er_timeout_ms := 1500,
      er_workdir := ''/srv/app'', er_environment := [(''LANG'', ''C'')], er_target_id := ''web-1'',
      er_operation := ''server_exec'', er_timeout_seconds := 2\<rparr>)"
  by (rule parse_exec_request_sound) (simp add: policy_eval)

text \<open>Only the operation \<^verbatim>\<open>server_exec\<close> ever carries a command line, a working directory or
  environment variables; its command is 1 to 131072 bytes without NUL, its environment is
  confined to the nine locale variables, and its whole-second timeout is the millisecond limit
  rounded up, never more than 120 seconds.\<close>

theorem command_confined:
  assumes "parse_exec_request v = Inr r"
  shows "(er_command r \<noteq> [] \<longleftrightarrow> er_operation r = ''server_exec'') \<and>
    (er_operation r \<noteq> ''server_exec'' \<longrightarrow> er_workdir r = [] \<and> er_environment r = []) \<and>
    (er_operation r = ''server_exec'' \<longrightarrow>
       length (er_command r) \<le> 131072 \<and> nul \<notin> set (er_command r) \<and>
       fst ` set (er_environment r) \<subseteq> set allowed_environment \<and>
       er_timeout_seconds r = int ((er_timeout_ms r + 999) div 1000) \<and> er_timeout_seconds r \<le> 120)"
proof -
  from assms obtain operation ps r0 ot timeout t where
    ps: "parse_parameters operation ps = Inr (r0, ot)"
    and t: "parse_timeout operation ot (er_timeout_ms r0) timeout = Inr t"
    and r: "er_operation r = operation" "er_timeout_ms r = er_timeout_ms r0" "er_timeout_seconds r = int t"
    by (rule parse_exec_request_Inr) auto
  have "exec_fields_ok (er_operation r) r"
    using parse_exec_request_accepts [OF assms] admitted_exec_fields by (fastforce simp: request_admitted_def exec_fields_ok_def)
  with parse_timeout_ok [OF t] r show ?thesis
    by (auto simp: exec_fields_ok_def maximum_timeout_def split: if_splits)
qed

theorem command_confined_witness:
  "length (er_command (default_request\<lparr>er_command := ''uptime'', er_max_output_bytes := 4096, er_timeout_ms := 1500,
      er_target_id := ''web-1'', er_operation := ''server_exec'', er_timeout_seconds := 2\<rparr>)) \<le> 131072"
  using command_confined [of
        "JObject [(''target_id'', JString ''web-1''), (''operation'', JString ''server_exec''),
         (''parameters'', JObject [(''command'', JString ''uptime''), (''max_output_bytes'', JUnsigned 4096),
            (''timeout_ms'', JUnsigned 1500)]),
         (''timeout_seconds'', JUnsigned 2)]"
        "default_request\<lparr>er_command := ''uptime'', er_max_output_bytes := 4096, er_timeout_ms := 1500,
          er_target_id := ''web-1'', er_operation := ''server_exec'', er_timeout_seconds := 2\<rparr>"]
  by (simp add: policy_eval)

text \<open>C22: A no-replace publication names two different entries of the same directory: the accepted
  source and destination are one directory followed by two distinct plain names, neither of
  them empty, \<open>.\<close>, \<open>..\<close> or containing a separator.\<close>

theorem publication_siblings:
  assumes "parse_exec_request v = Inr r" and "er_operation r = ''sftp_publish_no_replace''"
  shows "\<exists>dir a b. er_source_path r = dir @ CHR ''/'' # a \<and> er_destination_path r = dir @ CHR ''/'' # b \<and>
    a \<noteq> b \<and> CHR ''/'' \<notin> set a \<and> CHR ''/'' \<notin> set b \<and> a \<notin> {[], ''.'', ''..''} \<and> b \<notin> {[], ''.'', ''..''}"
proof -
  obtain ps r0 t where "admitted ''sftp_publish_no_replace'' ps r0 t"
    "er_source_path r = er_source_path r0" "er_destination_path r = er_destination_path r0"
    using parse_exec_request_accepts [OF assms(1)] assms(2) by (auto simp: request_admitted_def)
  then have "valid_publication_path (er_source_path r)" "valid_publication_path (er_destination_path r)"
    "er_source_path r \<noteq> er_destination_path r" "publication_parent (er_source_path r) = publication_parent (er_destination_path r)"
    by (elim admitted_publish; simp add: plain_operations_def)+
  then show ?thesis by (rule siblings)
qed

theorem publication_siblings_witness:
  "\<exists>dir a b. ''/srv/.a.part'' = dir @ CHR ''/'' # a \<and> ''/srv/a.txt'' = dir @ CHR ''/'' # b \<and>
    a \<noteq> b \<and> CHR ''/'' \<notin> set a \<and> CHR ''/'' \<notin> set b \<and> a \<notin> {[], ''.'', ''..''} \<and> b \<notin> {[], ''.'', ''..''}"
  using publication_siblings [of
        "JObject [(''target_id'', JString ''web-1''), (''operation'', JString ''sftp_publish_no_replace''),
         (''parameters'', JObject [(''source'', JString ''/srv/.a.part''), (''destination'', JString ''/srv/a.txt'')]),
         (''timeout_seconds'', JUnsigned 10)]"
        "default_request\<lparr>er_source_path := ''/srv/.a.part'', er_destination_path := ''/srv/a.txt'',
          er_target_id := ''web-1'', er_operation := ''sftp_publish_no_replace'', er_timeout_seconds := 10\<rparr>"]
  by (simp add: policy_eval)

text \<open>Every file of at most 512 KiB can be written: the request that carries its base64 text, a
  valid path and a timeout of 1 to 30 seconds is accepted, and the parsed request holds
  exactly the bytes that were encoded.\<close>

theorem write_request_roundtrip:
  assumes "valid_target_id target" "valid_sftp_path path" "length bytes \<le> 524288"
    "1 \<le> unat seconds" "unat seconds \<le> 30"
  shows "parse_exec_request
      (JObject [(''target_id'', JString target), (''operation'', JString ''sftp_write''),
        (''parameters'', JObject [(''path'', JString path), (''content_base64'', JString (encode_base64 bytes))]),
        (''timeout_seconds'', JUnsigned seconds)]) =
    Inr (default_request\<lparr>er_path := path, er_content := bytes, er_target_id := target,
      er_operation := ''sftp_write'', er_timeout_seconds := int (unat seconds)\<rparr>)"
proof -
  have "decode_base64 (encode_base64 bytes) 524288 = Some bytes"
    using assms(3) by (rule base64.dec_enc)
  with assms show ?thesis
    by (simp add: parse_exec_request_def keys_among_def find_string_def parse_parameters_def
        parse_sftp_write_def parse_timeout_def maximum_timeout_def accept_def)
qed

theorem write_request_roundtrip_witness:
  "\<exists>r. parse_exec_request
      (JObject [(''target_id'', JString ''db''), (''operation'', JString ''sftp_write''),
        (''parameters'', JObject [(''path'', JString ''/tmp/x''), (''content_base64'', JString (encode_base64 [1, 2, 255]))]),
        (''timeout_seconds'', JUnsigned 5)]) = Inr r \<and> er_content r = [1, 2, 255]"
  using write_request_roundtrip [of "''db''" "''/tmp/x''" "[1, 2, 255]" 5] by (simp add: policy_eval)

text \<open>Default deny: a well-formed envelope whose operation is not one of the enabled ones is
  refused with the code \<^verbatim>\<open>unsupported_operation\<close> and status 422, whatever its parameters.\<close>

theorem unsupported_operation_denied:
  assumes "operation \<notin> set enabled_operations" "valid_target_id target"
    "is_object ps" "is_number_integer timeout"
  shows "\<exists>e. parse_exec_request
      (JObject [(''target_id'', JString target), (''operation'', JString operation),
        (''parameters'', ps), (''timeout_seconds'', timeout)]) = Inl e \<and>
     err_code e = ''unsupported_operation'' \<and> http_status e = 422"
  using assms
  by (simp add: parse_exec_request_def keys_among_def find_string_def parse_parameters_def
      enabled_operations_def set_error_def)

theorem unsupported_operation_denied_witness:
  "\<exists>e. parse_exec_request
      (JObject [(''target_id'', JString ''db''), (''operation'', JString ''rm''),
        (''parameters'', JObject []), (''timeout_seconds'', JUnsigned 5)]) = Inl e \<and>
     err_code e = ''unsupported_operation'' \<and> http_status e = 422"
  using unsupported_operation_denied [of "''rm''" "''db''" "JObject []" "JUnsigned 5"]
  by (simp add: policy_eval enabled_operations_def)

end
