(* ===== verification/Digits.thy ===== *)
theory Digits
  imports Prelude
begin

text \<open>
  Printed numbers: \<^verbatim>\<open>std::to_string\<close> and the decimal and hexadecimal insertion into a
  stream, as the digit list of a natural number in a base, with the reading back that makes
  the printed text injective.
\<close>

definition digit_char :: "nat \<Rightarrow> char" where
  "digit_char d = char_of (if d < 10 then 48 + d else 87 + d)"

function numeral_string :: "nat \<Rightarrow> nat \<Rightarrow> string" where
  "numeral_string b n =
     (if b \<le> 1 \<or> n < b then [digit_char n] else numeral_string b (n div b) @ [digit_char (n mod b)])"
  by auto
termination
  by (relation "measure snd") auto

declare numeral_string.simps [simp del]

abbreviation decimal :: "nat \<Rightarrow> string" where "decimal \<equiv> numeral_string 10"

abbreviation hexadecimal :: "nat \<Rightarrow> string" where "hexadecimal \<equiv> numeral_string 16"

definition digit_value :: "char \<Rightarrow> nat" where
  "digit_value c = byte c - 48"

definition read_decimal :: "string \<Rightarrow> nat" where
  "read_decimal s = foldl (\<lambda>a c. a * 10 + digit_value c) 0 s"

definition is_digit_sequence :: "string \<Rightarrow> bool" where
  "is_digit_sequence value \<longleftrightarrow> value \<noteq> [] \<and> list_all ascii_digit value"

lemma numeral_string_nonempty [simp]: "numeral_string b n \<noteq> []"
  by (subst numeral_string.simps) simp

lemma numeral_string_small: "1 < b \<Longrightarrow> n < b \<Longrightarrow> numeral_string b n = [digit_char n]"
  by (subst numeral_string.simps) simp

lemma numeral_string_step:
  "1 < b \<Longrightarrow> b \<le> n \<Longrightarrow> numeral_string b n = numeral_string b (n div b) @ [digit_char (n mod b)]"
  by (subst numeral_string.simps) simp

lemma byte_digit_char: "d < 16 \<Longrightarrow> byte (digit_char d) = (if d < 10 then 48 + d else 87 + d)"
  by (simp add: digit_char_def)

lemma set_numeral_string:
  "1 < b \<Longrightarrow> c \<in> set (numeral_string b n) \<Longrightarrow> \<exists>d<b. c = digit_char d"
proof (induction b n rule: numeral_string.induct)
  case (1 b n)
  show ?case
  proof (cases "n < b")
    case True
    with 1 show ?thesis by (auto simp: numeral_string_small)
  next
    case False
    with 1 show ?thesis
      by (auto simp: numeral_string_step intro: exI [of _ "n mod b"])
  qed
qed

lemma decimal_digits: "c \<in> set (decimal n) \<Longrightarrow> ascii_digit c"
  using set_numeral_string [of 10 c n] by (auto simp: ascii_digit_def byte_digit_char)

lemma is_digit_sequence_decimal [simp]: "is_digit_sequence (decimal n)"
  by (auto simp: is_digit_sequence_def list_all_iff decimal_digits)

lemma hexadecimal_digits: "c \<in> set (hexadecimal n) \<Longrightarrow> ascii_digit c \<or> ascii_lower c"
  using set_numeral_string [of 16 c n]
  by (auto simp: ascii_digit_def ascii_lower_def byte_digit_char split: if_splits)

lemma digit_value_digit_char: "d < 10 \<Longrightarrow> digit_value (digit_char d) = d"
  by (simp add: digit_value_def byte_digit_char)

lemma read_decimal_decimal [simp]: "read_decimal (decimal n) = n"
proof (induction n rule: less_induct)
  case (less n)
  show ?case
  proof (cases "n < 10")
    case True
    then show ?thesis by (simp add: numeral_string_small read_decimal_def digit_value_digit_char)
  next
    case False
    with less [of "n div 10"] have "read_decimal (decimal (n div 10)) = n div 10" by simp
    with False show ?thesis
      by (simp add: numeral_string_step [of 10 n] digit_value_digit_char read_decimal_def)
  qed
qed

lemma decimal_inject [simp]: "decimal m = decimal n \<longleftrightarrow> m = n"
  using read_decimal_decimal by metis

lemma ascii_digit_not:
  "ascii_digit c \<Longrightarrow> c \<noteq> CHR ''-'' \<and> c \<noteq> CHR ''.'' \<and> c \<noteq> CHR ''/'' \<and> c \<noteq> CHR '':'' \<and> c \<noteq> CHR ''_''"
  by (auto simp: byte_class_defs)

lemma digit_sequence_free:
  "is_digit_sequence s \<Longrightarrow>
   CHR ''-'' \<notin> set s \<and> CHR ''.'' \<notin> set s \<and> CHR ''/'' \<notin> set s \<and> CHR '':'' \<notin> set s \<and> CHR ''_'' \<notin> set s"
  by (auto simp: is_digit_sequence_def list_all_iff dest: ascii_digit_not)

lemma read_decimal_snoc: "read_decimal (xs @ [c]) = read_decimal xs * 10 + digit_value c"
  by (simp add: read_decimal_def)

lemma digit_char_value: "ascii_digit c \<Longrightarrow> digit_value c < 10 \<and> digit_char (digit_value c) = c"
  by (auto simp: ascii_digit_def digit_value_def digit_char_def byte_def)

lemma decimal_zero: "decimal 0 = ''0''"
  by (simp add: numeral_string_small digit_char_def) code_simp

lemma decimal_read_decimal:
  "is_digit_sequence s \<Longrightarrow> length s = 1 \<or> hd s \<noteq> CHR ''0'' \<Longrightarrow> decimal (read_decimal s) = s"
proof (induction s rule: rev_induct)
  case (snoc c xs)
  then have c: "digit_value c < 10" "digit_char (digit_value c) = c"
    using digit_char_value [of c] by (auto simp: is_digit_sequence_def)
  show ?case
  proof (cases "xs = []")
    case True
    with c show ?thesis by (simp add: read_decimal_def numeral_string_small)
  next
    case False
    with snoc have xs: "decimal (read_decimal xs) = xs" "hd xs \<noteq> CHR ''0''"
      by (auto simp: is_digit_sequence_def)
    with decimal_zero have "read_decimal xs \<noteq> 0" by (metis list.sel(1))
    with c xs show ?thesis by (simp add: read_decimal_snoc numeral_string_step)
  qed
qed (simp add: is_digit_sequence_def)

lemma decimal_hd: "hd (decimal n) = CHR ''0'' \<Longrightarrow> n = 0"
proof (induction n rule: less_induct)
  case (less n)
  show ?case
  proof (cases "n < 10")
    case True
    with less.prems have "byte (digit_char n) = byte (CHR ''0'')" by (simp add: numeral_string_small)
    with True show ?thesis by (simp only: byte_digit_char) (simp add: byte_def)
  next
    case False
    then have "n div 10 < n" "n div 10 \<noteq> 0" by auto
    moreover have "hd (decimal (n div 10)) = CHR ''0''"
      using less.prems False by (simp add: numeral_string_step hd_append)
    ultimately show ?thesis using less.IH [of "n div 10"] by simp
  qed
qed

lemma decimal_length_le3: "n \<le> 255 \<Longrightarrow> length (decimal n) \<le> 3"
  by (cases "n < 10"; cases "n < 100") (simp_all add: numeral_string_small numeral_string_step)

lemma decimal_length_le5: "n \<le> 65535 \<Longrightarrow> length (decimal n) \<le> 5"
  by (cases "n < 10"; cases "n < 100"; cases "n < 1000"; cases "n < 10000")
    (simp_all add: numeral_string_small numeral_string_step)

end
