(* ===== verification/Sha256.thy ===== *)
theory Sha256
  imports Digits
begin

text \<open>
  The dependency-free SHA-256 of the desktop host
  (\<^verbatim>\<open>src/native/desktop_host/src/content_hash.cpp\<close>, class \<^verbatim>\<open>ContentHasher\<close>): a 64-byte
  buffer that is filled byte by byte, the compression of a full buffer, and the digest with its
  padding.  The refinement at the end relates the buffered implementation to the padded message
  of FIPS 180-4, cut in blocks.
\<close>

record hasher =
  buffer :: "8 word list"
  buffer_length :: nat
  bit_length :: "64 word"
  digest :: "32 word list"

definition initial_digest :: "32 word list" where
  "initial_digest = [0x6a09e667, 0xbb67ae85, 0x3c6ef372, 0xa54ff53a,
                     0x510e527f, 0x9b05688c, 0x1f83d9ab, 0x5be0cd19]"

definition new_hasher :: hasher where
  "new_hasher = \<lparr>buffer = replicate 64 0, buffer_length = 0, bit_length = 0, digest = initial_digest\<rparr>"

text \<open>The table \<^verbatim>\<open>k\<close>, in the rows of the source.\<close>

definition round_constants :: "32 word list" where
  "round_constants = concat
    [[0x428a2f98, 0x71374491, 0xb5c0fbcf, 0xe9b5dba5, 0x3956c25b, 0x59f111f1, 0x923f82a4],
     [0xab1c5ed5, 0xd807aa98, 0x12835b01, 0x243185be, 0x550c7dc3, 0x72be5d74, 0x80deb1fe],
     [0x9bdc06a7, 0xc19bf174, 0xe49b69c1, 0xefbe4786, 0x0fc19dc6, 0x240ca1cc, 0x2de92c6f],
     [0x4a7484aa, 0x5cb0a9dc, 0x76f988da, 0x983e5152, 0xa831c66d, 0xb00327c8, 0xbf597fc7],
     [0xc6e00bf3, 0xd5a79147, 0x06ca6351, 0x14292967, 0x27b70a85, 0x2e1b2138, 0x4d2c6dfc],
     [0x53380d13, 0x650a7354, 0x766a0abb, 0x81c2c92e, 0x92722c85, 0xa2bfe8a1, 0xa81a664b],
     [0xc24b8b70, 0xc76c51a3, 0xd192e819, 0xd6990624, 0xf40e3585, 0x106aa070, 0x19a4c116],
     [0x1e376c08, 0x2748774c, 0x34b0bcb5, 0x391c0cb3, 0x4ed8aa4a, 0x5b9cca4f, 0x682e6ff3],
     [0x748f82ee, 0x78a5636f, 0x84c87814, 0x8cc70208, 0x90befffa, 0xa4506ceb, 0xbef9a3f7],
     [0xc67178f2]]"

definition rotr :: "32 word \<Rightarrow> nat \<Rightarrow> 32 word" where
  "rotr v bits = (drop_bit bits v OR push_bit (32 - bits) v)"

definition big_endian :: "8 word list \<Rightarrow> nat \<Rightarrow> 32 word" where
  "big_endian bytes i =
     (push_bit 24 (ucast (bytes ! (i * 4))) OR push_bit 16 (ucast (bytes ! (i * 4 + 1))) OR
      push_bit 8 (ucast (bytes ! (i * 4 + 2))) OR ucast (bytes ! (i * 4 + 3)))"

text \<open>The message schedule \<^verbatim>\<open>w[0..63]\<close>.\<close>

definition extend_schedule :: "32 word list \<Rightarrow> nat \<Rightarrow> 32 word list" where
  "extend_schedule w i =
     (let s0 = rotr (w ! (i - 15)) 7 XOR rotr (w ! (i - 15)) 18 XOR drop_bit 3 (w ! (i - 15));
          s1 = rotr (w ! (i - 2)) 17 XOR rotr (w ! (i - 2)) 19 XOR drop_bit 10 (w ! (i - 2))
      in w @ [w ! (i - 16) + s0 + w ! (i - 7) + s1])"

definition schedule :: "8 word list \<Rightarrow> 32 word list" where
  "schedule bytes = foldl extend_schedule (map (big_endian bytes) [0..<16]) [16..<64]"

fun compress_round :: "32 word list \<Rightarrow> 32 word list \<Rightarrow> nat \<Rightarrow> 32 word list" where
  "compress_round w [a, b, c, d, e, f, g, h] i =
     (let s1 = rotr e 6 XOR rotr e 11 XOR rotr e 25;
          ch = (e AND f) XOR (NOT e AND g);
          temp1 = h + s1 + ch + round_constants ! i + w ! i;
          s0 = rotr a 2 XOR rotr a 13 XOR rotr a 22;
          maj = (a AND b) XOR (a AND c) XOR (b AND c);
          temp2 = s0 + maj
      in [temp1 + temp2, a, b, c, d + temp1, e, f, g])"
| "compress_round w v i = v"

definition compress :: "32 word list \<Rightarrow> 8 word list \<Rightarrow> 32 word list" where
  "compress d bytes = map2 (+) d (foldl (compress_round (schedule bytes)) d [0..<64])"

definition transform :: "hasher \<Rightarrow> hasher" where
  "transform h = h\<lparr>digest := compress (digest h) (buffer h)\<rparr>"

text \<open>\<^verbatim>\<open>buffer_[buffer_length_++] = byte\<close>.\<close>

definition put :: "8 word \<Rightarrow> hasher \<Rightarrow> hasher" where
  "put b h = h\<lparr>buffer := (buffer h)[buffer_length h := b], buffer_length := Suc (buffer_length h)\<rparr>"

definition update_byte :: "hasher \<Rightarrow> 8 word \<Rightarrow> hasher" where
  "update_byte h b =
     (let h' = put b h in
      if buffer_length h' = 64
      then (transform h')\<lparr>bit_length := bit_length h' + 512, buffer_length := 0\<rparr>
      else h')"

definition update :: "8 word list \<Rightarrow> hasher \<Rightarrow> hasher" where
  "update bytes h = foldl update_byte h bytes"

text \<open>\<^verbatim>\<open>while (buffer_length_ < n) buffer_[buffer_length_++] = 0\<close>.\<close>

function zero_fill :: "nat \<Rightarrow> hasher \<Rightarrow> hasher" where
  "zero_fill n h = (if buffer_length h < n then zero_fill n (put 0 h) else h)"
  by auto
termination
  by (relation "measure (\<lambda>(n, h). n - buffer_length h)") (auto simp: put_def)

declare zero_fill.simps [simp del]

definition length_bytes :: "64 word \<Rightarrow> 8 word list" where
  "length_bytes n = map (\<lambda>i. ucast (drop_bit (i * 8) n)) (rev [0..<8])"

definition finalize :: "hasher \<Rightarrow> 32 word list" where
  "finalize h =
     (let n = bit_length h + of_nat (buffer_length h) * 8;
          h1 = put 0x80 h;
          h2 = (if 56 < buffer_length h1
                then (transform (zero_fill 64 h1))\<lparr>buffer_length := 0\<rparr>
                else h1);
          h3 = zero_fill 56 h2;
          h4 = foldl (\<lambda>h b. put b h) h3 (length_bytes n)
      in digest (transform h4))"

definition hex_byte :: "8 word \<Rightarrow> string" where
  "hex_byte b = [digit_char (unat (drop_bit 4 b)), digit_char (unat (b AND 0x0F))]"

definition hex_word :: "32 word \<Rightarrow> string" where
  "hex_word w = concat (map (\<lambda>shift. hex_byte (ucast (drop_bit shift w))) [24, 16, 8, 0])"

definition hexdigest :: "hasher \<Rightarrow> string" where
  "hexdigest h = concat (map hex_word (finalize h))"

definition content_revision_hex :: "string \<Rightarrow> string" where
  "content_revision_hex input = hexdigest (update (map of_char input) new_hasher)"


subsection \<open>The buffer\<close>

text \<open>The bytes that wait in the buffer, and the invariant that keeps every index inside it.\<close>

definition pending :: "hasher \<Rightarrow> 8 word list" where
  "pending h = take (buffer_length h) (buffer h)"

definition hasher_ok :: "hasher \<Rightarrow> bool" where
  "hasher_ok h \<longleftrightarrow> length (buffer h) = 64 \<and> buffer_length h < 64"

lemma take_Suc_update: "n < length xs \<Longrightarrow> take (Suc n) (xs[n := x]) = take n xs @ [x]"
  by (simp add: take_Suc_conv_app_nth)

lemma put_fields [simp]:
  "length (buffer (put b h)) = length (buffer h)" "buffer_length (put b h) = Suc (buffer_length h)"
  "bit_length (put b h) = bit_length h" "digest (put b h) = digest h"
  by (simp_all add: put_def)

lemma pending_put: "buffer_length h < length (buffer h) \<Longrightarrow> pending (put b h) = pending h @ [b]"
  by (simp add: pending_def put_def take_Suc_update)

lemma length_pending: "buffer_length h \<le> length (buffer h) \<Longrightarrow> length (pending h) = buffer_length h"
  by (simp add: pending_def)

lemma pending_full: "length (buffer h) = 64 \<Longrightarrow> buffer_length h = 64 \<Longrightarrow> pending h = buffer h"
  by (simp add: pending_def)

lemma put_all:
  assumes "buffer_length h + length bs \<le> length (buffer h)"
  shows "pending (foldl (\<lambda>h b. put b h) h bs) = pending h @ bs \<and>
    length (buffer (foldl (\<lambda>h b. put b h) h bs)) = length (buffer h) \<and>
    buffer_length (foldl (\<lambda>h b. put b h) h bs) = buffer_length h + length bs \<and>
    digest (foldl (\<lambda>h b. put b h) h bs) = digest h"
  using assms by (induction bs arbitrary: h) (simp_all add: pending_put)

lemma zero_fill_puts:
  "buffer_length h \<le> n \<Longrightarrow>
   zero_fill n h = foldl (\<lambda>h b. put b h) h (replicate (n - buffer_length h) 0)"
proof (induction "n - buffer_length h" arbitrary: h)
  case 0
  then show ?case by (simp add: zero_fill.simps)
next
  case (Suc k)
  then have "n - buffer_length (put 0 h) = k" "buffer_length h < n" by simp_all
  with Suc show ?case by (subst zero_fill.simps) (simp flip: Suc.hyps(2))
qed

lemma length_length_bytes [simp]: "length (length_bytes n) = 8"
  by (simp add: length_bytes_def)

subsection \<open>The reference: blocks of the padded message\<close>

text \<open>Full blocks are compressed in order; the incomplete rest is returned.\<close>

function absorb :: "32 word list \<Rightarrow> 8 word list \<Rightarrow> 32 word list \<times> 8 word list" where
  "absorb d xs = (if length xs < 64 then (d, xs) else absorb (compress d (take 64 xs)) (drop 64 xs))"
  by auto
termination
  by (relation "measure (\<lambda>(d, xs). length xs)") auto

declare absorb.simps [simp del]

definition padding :: "8 word list \<Rightarrow> 8 word list" where
  "padding msg = 0x80 # replicate ((119 - length msg mod 64) mod 64) 0 @
     length_bytes (of_nat (8 * length msg))"

definition sha256_reference :: "8 word list \<Rightarrow> 32 word list" where
  "sha256_reference msg = fst (absorb initial_digest (msg @ padding msg))"

lemma absorb_short: "length xs < 64 \<Longrightarrow> absorb d xs = (d, xs)"
  by (simp add: absorb.simps)

lemma absorb_block: "length xs = 64 \<Longrightarrow> absorb d (xs @ ys) = absorb (compress d xs) ys"
  by (subst absorb.simps) simp

lemma absorb_rest_length: "length (snd (absorb d xs)) = length xs mod 64"
proof (induction d xs rule: absorb.induct)
  case (1 d xs)
  then show ?case by (cases "length xs < 64") (simp_all add: absorb.simps [of d xs] le_mod_geq)
qed

lemma absorb_append:
  "absorb d (xs @ ys) = absorb (fst (absorb d xs)) (snd (absorb d xs) @ ys)"
proof (induction d xs rule: absorb.induct)
  case (1 d xs)
  show ?case
  proof (cases "length xs < 64")
    case True
    then show ?thesis by (simp add: absorb_short)
  next
    case False
    then have "absorb d (xs @ ys) = absorb (compress d (take 64 xs)) (drop 64 xs @ ys)"
      by (subst absorb.simps) simp
    also have "\<dots> = absorb (fst (absorb d xs)) (snd (absorb d xs) @ ys)"
      using 1 [OF False] False by (simp add: absorb.simps [of d xs])
    finally show ?thesis .
  qed
qed

lemma absorb_snoc:
  "absorb d (xs @ [b]) =
     (let (e, r) = absorb d xs in if length r = 63 then (compress e (r @ [b]), []) else (e, r @ [b]))"
proof -
  obtain e r where er: "absorb d xs = (e, r)" by fastforce
  with absorb_rest_length [of d xs] have "length r < 64" by simp
  then show ?thesis
    using absorb_append [of d xs "[b]"] absorb_block [of "r @ [b]" e "[]"]
    by (auto simp: er absorb_short)
qed

subsection \<open>Refinement\<close>

definition represents :: "hasher \<Rightarrow> 8 word list \<Rightarrow> bool" where
  "represents h msg \<longleftrightarrow> hasher_ok h \<and> absorb initial_digest msg = (digest h, pending h) \<and>
     bit_length h + of_nat (buffer_length h) * 8 = of_nat (8 * length msg)"

lemma represents_new: "represents new_hasher []"
  by (simp add: represents_def new_hasher_def hasher_ok_def pending_def absorb_short)

lemma represents_update_byte:
  assumes "represents h msg"
  shows "represents (update_byte h b) (msg @ [b])"
proof -
  have ok: "length (buffer h) = 64" "buffer_length h < 64"
    and absorbed: "absorb initial_digest msg = (digest h, pending h)"
    and bits: "bit_length h + of_nat (buffer_length h) * 8 = of_nat (8 * length msg)"
    using assms by (auto simp: represents_def hasher_ok_def)
  have len: "length (pending h) = buffer_length h" using ok by (simp add: length_pending)
  have put: "pending (put b h) = pending h @ [b]" using ok by (simp add: pending_put)
  have bits': "bit_length h + (of_nat (buffer_length h) * 8 + 8) = of_nat (8 * length (msg @ [b]))"
    using bits by (simp add: algebra_simps)
  show ?thesis
  proof (cases "buffer_length h = 63")
    case True
    then have "buffer (put b h) = pending h @ [b]"
      using put pending_full [of "put b h"] ok by simp
    then show ?thesis
      using ok absorbed bits' True len
      by (simp add: represents_def update_byte_def transform_def hasher_ok_def absorb_snoc pending_def)
  next
    case False
    then show ?thesis
      using ok absorbed bits' len put
      by (simp add: represents_def update_byte_def hasher_ok_def absorb_snoc algebra_simps)
  qed
qed

lemma represents_update: "represents h msg \<Longrightarrow> represents (update bytes h) (msg @ bytes)"
proof (induction bytes arbitrary: h msg)
  case (Cons b bytes)
  then show ?case
    using represents_update_byte [of h msg b] Cons.IH [of "update_byte h b" "msg @ [b]"]
    by (simp add: update_def)
qed (simp add: update_def)

lemma zero_fill_pending:
  assumes "length (buffer h) = 64" "buffer_length h \<le> n" "n \<le> 64"
  shows "pending (zero_fill n h) = pending h @ replicate (n - buffer_length h) 0 \<and>
    length (buffer (zero_fill n h)) = 64 \<and> buffer_length (zero_fill n h) = n \<and>
    digest (zero_fill n h) = digest h"
  using assms put_all [of h "replicate (n - buffer_length h) 0"] by (simp add: zero_fill_puts)

text \<open>The last block: a partly filled buffer, zeros up to byte 56 and the length.\<close>

lemma last_block:
  assumes "length (buffer h) = 64" "buffer_length h \<le> 56" "length bs = 8"
  shows "digest (transform (foldl (\<lambda>h b. put b h) (zero_fill 56 h) bs)) =
    compress (digest h) (pending h @ replicate (56 - buffer_length h) 0 @ bs)"
proof -
  note z = zero_fill_pending [of h 56]
  let ?h = "foldl (\<lambda>h b. put b h) (zero_fill 56 h) bs"
  have "pending ?h = pending h @ replicate (56 - buffer_length h) 0 @ bs \<and> length (buffer ?h) = 64 \<and>
      buffer_length ?h = 64 \<and> digest ?h = digest h"
    using z assms put_all [of "zero_fill 56 h" bs] by simp
  then show ?thesis using pending_full [of ?h] by (simp add: transform_def)
qed

lemma finalize_represents:
  assumes "represents h msg"
  shows "finalize h = sha256_reference msg"
proof -
  let ?p = "pending h" and ?n = "buffer_length h"
  let ?bits = "length_bytes (of_nat (8 * length msg))"
  have ok: "length (buffer h) = 64" "?n < 64"
    and absorbed: "absorb initial_digest msg = (digest h, ?p)"
    and bits: "bit_length h + of_nat ?n * 8 = of_nat (8 * length msg)"
    using assms by (auto simp: represents_def hasher_ok_def)
  have len: "length ?p = ?n" using ok by (simp add: length_pending)
  have rest: "length msg mod 64 = ?n"
    using absorb_rest_length [of initial_digest msg] absorbed len by simp
  have reference: "sha256_reference msg = fst (absorb (digest h) (?p @ padding msg))"
    by (simp add: sha256_reference_def absorb_append [of _ msg] absorbed)
  have put80: "pending (put 0x80 h) = ?p @ [0x80]" using ok by (simp add: pending_put)
  show ?thesis
  proof (cases "?n \<le> 55")
    case True
    have "finalize h = compress (digest h) (?p @ [0x80] @ replicate (55 - ?n) 0 @ ?bits)"
      using True ok put80 last_block [of "put 0x80 h" ?bits]
      by (simp add: finalize_def bits Let_def)
    moreover have "(119 - ?n) mod 64 = 55 - ?n"
      using True mod_add_self1 [of 64 "55 - ?n"] by simp
    moreover have "length (?p @ [0x80] @ replicate (55 - ?n) 0 @ ?bits) = 64"
      using True len by simp
    ultimately show ?thesis
      using absorb_block [of "?p @ [0x80] @ replicate (55 - ?n) 0 @ ?bits" "digest h" "[]"]
      by (simp add: reference padding_def rest absorb_short)
  next
    case False
    let ?first = "?p @ [0x80] @ replicate (63 - ?n) 0"
    let ?h1 = "put 0x80 h"
    have z: "pending (zero_fill 64 ?h1) = ?first" "length (buffer (zero_fill 64 ?h1)) = 64"
      "buffer_length (zero_fill 64 ?h1) = 64" "digest (zero_fill 64 ?h1) = digest h"
      using zero_fill_pending [of ?h1 64] ok put80 by simp_all
    then have buffer: "buffer (zero_fill 64 ?h1) = ?first" using pending_full by metis
    define h2 where "h2 = (transform (zero_fill 64 ?h1))\<lparr>buffer_length := 0\<rparr>"
    have h2: "length (buffer h2) = 64" "buffer_length h2 = 0" "pending h2 = []"
      "digest h2 = compress (digest h) ?first"
      using z buffer by (simp_all add: h2_def transform_def pending_def)
    have "finalize h = digest (transform (foldl (\<lambda>h b. put b h) (zero_fill 56 h2) ?bits))"
      using False by (simp add: finalize_def bits Let_def h2_def)
    also have "\<dots> = compress (compress (digest h) ?first) (replicate 56 0 @ ?bits)"
      using h2 last_block [of h2 ?bits] by simp
    also have "\<dots> = fst (absorb (digest h) (?first @ replicate 56 0 @ ?bits))"
    proof -
      have "absorb (digest h) (?first @ replicate 56 0 @ ?bits) =
          absorb (compress (digest h) ?first) ((replicate 56 0 @ ?bits) @ [])"
        using len False ok by (subst absorb_block) simp_all
      also have "\<dots> = absorb (compress (compress (digest h) ?first) (replicate 56 0 @ ?bits)) []"
        by (rule absorb_block) simp
      finally show ?thesis by (simp add: absorb_short)
    qed
    also have "?first @ replicate 56 0 @ ?bits = ?p @ padding msg"
    proof -
      have zeros: "(119 - ?n) mod 64 = (63 - ?n) + 56" using False ok by simp
      have "replicate ((119 - ?n) mod 64) (0 :: 8 word) = replicate (63 - ?n) 0 @ replicate 56 0"
        unfolding zeros by (rule replicate_add)
      then show ?thesis by (simp add: padding_def rest)
    qed
    finally show ?thesis by (simp add: reference)
  qed
qed

subsection \<open>Properties\<close>

lemma hex_word_length [simp]: "length (hex_word w) = 8"
  by (simp add: hex_word_def hex_byte_def)

text \<open>C28: Hashing a stream in any pieces gives the SHA-256 of the whole: however the bytes are split
  over the calls of \<^verbatim>\<open>update\<close>, the digest is the one of the padded message of FIPS 180-4
  compressed block by block from the initial value.\<close>

theorem streaming_sha256:
  "hexdigest (foldl (\<lambda>h bytes. update bytes h) new_hasher pieces) =
     concat (map hex_word (sha256_reference (concat pieces)))"
proof -
  have "represents (foldl (\<lambda>h bytes. update bytes h) h pieces) (msg @ concat pieces)"
    if "represents h msg" for h msg
    using that
  proof (induction pieces arbitrary: h msg)
    case (Cons bytes pieces)
    then show ?case
      using represents_update [of h msg bytes] Cons.IH [of "update bytes h" "msg @ bytes"] by simp
  qed simp
  from this [OF represents_new] show ?thesis
    by (simp add: hexdigest_def finalize_represents)
qed

end
