(* ===== verification/Approval.thy ===== *)
theory Approval
  imports Json Sha256
begin

text \<open>
  The host's ledger of one-time approval tickets
  (\<^verbatim>\<open>src/native/desktop_host/src/desktop_approval.cpp\<close>, class \<^verbatim>\<open>HostApprovalLedger\<close>).
  The sidecar announces an action, a person or the auto-approval mode answers, and the host
  executes the action only by consuming the matching ticket.  Every public method holds the
  mutex for its whole body, with two exceptions that are modelled as they are: an auto-approved
  event is two critical sections, and \<^verbatim>\<open>consume\<close> gives the mutex up while it waits, so one
  iteration of its loop is the atomic step.

  Two library calls are parameters, fields of \<^verbatim>\<open>approval_env\<close>: the serialisation of the
  exact host input (\<^verbatim>\<open>nlohmann::json::dump\<close>, which throws on invalid UTF-8) and the reading
  of a broken-down UTC time (\<^verbatim>\<open>std::get_time\<close> with \<^verbatim>\<open>timegm\<close>).
\<close>

record approval_env =
  env_dump :: "json \<Rightarrow> string option"
  env_utc_seconds :: "string \<Rightarrow> int option"

datatype approval_error =
    MissingBindingFields | UnsupportedBinding | PartialTaskBinding | ExpiryInvalid | OutsideTtl
  | MissingHostInput | DumpFailed | OffsetNotANumber | AutoApprovedNotBoolean
  | BoundToAnotherAction | BeingAnswered | LedgerFull | AutoBeingAnswered
  | UnknownApproval string | ApprovalExpired | RunIdMismatch | AlreadyAnswered
  | SessionGrant | InvalidDecision | ResponseNotActive

subsection \<open>Reading an event\<close>

definition max_approval_id_chars :: nat where "max_approval_id_chars = 256"
definition max_run_id_chars :: nat where "max_run_id_chars = 256"
definition max_trace_id_chars :: nat where "max_trace_id_chars = 256"
definition max_call_id_chars :: nat where "max_call_id_chars = 256"
definition max_server_id_chars :: nat where "max_server_id_chars = 256"
definition max_environment_chars :: nat where "max_environment_chars = 64"
definition max_tickets :: nat where "max_tickets = 256"
definition max_observed_approvals :: nat where "max_observed_approvals = 256"
definition max_approval_ttl_seconds :: int where "max_approval_ttl_seconds = 180"

definition is_host_approval_tool_name :: "string \<Rightarrow> bool" where
  "is_host_approval_tool_name tool_name \<longleftrightarrow>
     tool_name = ''server.exec'' \<or> tool_name = ''docker.restart'' \<or>
     tool_name = ''systemd.restart'' \<or> tool_name = ''package.install''"

definition is_sha256_hex :: "string \<Rightarrow> bool" where
  "is_sha256_hex value \<longleftrightarrow> length value = 64 \<and>
     list_all (\<lambda>c. ascii_digit c \<or> (97 \<le> byte c \<and> byte c \<le> 102) \<or> (65 \<le> byte c \<and> byte c \<le> 70)) value"

text \<open>\<^verbatim>\<open>std::stoi\<close> on a short text: leading white space, an optional sign, then the longest run
  of digits; without a digit it throws.\<close>

definition white_space :: "char \<Rightarrow> bool" where
  "white_space c \<longleftrightarrow> c = CHR '' '' \<or> (9 \<le> byte c \<and> byte c \<le> 13)"

definition stoi :: "string \<Rightarrow> int option" where
  "stoi s =
     (let t = dropWhile white_space s;
          negative = (t \<noteq> [] \<and> hd t = CHR ''-'');
          u = (if t \<noteq> [] \<and> (hd t = CHR ''-'' \<or> hd t = CHR ''+'') then tl t else t);
          digits = takeWhile ascii_digit u
      in if digits = [] then None
         else Some (if negative then - int (read_decimal digits) else int (read_decimal digits)))"

definition parse_iso8601_utc_seconds :: "approval_env \<Rightarrow> string \<Rightarrow> approval_error + int option" where
  "parse_iso8601_utc_seconds env value =
     (if length value < 19 then Inr None
      else case env_utc_seconds env value of
        None \<Rightarrow> Inr None
      | Some seconds \<Rightarrow>
          if seconds = - 1 then Inr None
          else if 19 < length value \<and> (value ! 19 = CHR ''+'' \<or> value ! 19 = CHR ''-'') then
            if length value < 25 then Inr None
            else case (stoi (take 2 (drop 20 value)), stoi (take 2 (drop 23 value))) of
                (Some hours, Some minutes) \<Rightarrow>
                  let offset = hours * 3600 + minutes * 60 in
                  Inr (Some (seconds + (if value ! 19 = CHR ''+'' then - offset else offset)))
              | _ \<Rightarrow> Inl OffsetNotANumber
          else Inr (Some seconds))"

text \<open>The optional readers: \<^term>\<open>None\<close> is the \<^verbatim>\<open>false\<close> of a wrongly typed field, after which
  the output variable keeps its initial \<^verbatim>\<open>nullopt\<close>.\<close>

definition optional_string_field :: "json \<Rightarrow> string \<Rightarrow> string option option" where
  "optional_string_field value key =
     (if \<not> is_object value then None
      else case obj_find value key of
        None \<Rightarrow> Some None
      | Some JNull \<Rightarrow> Some None
      | Some (JString s) \<Rightarrow> Some (Some s)
      | Some _ \<Rightarrow> None)"

definition string_item :: "json \<Rightarrow> string option" where
  "string_item v = (case v of JString s \<Rightarrow> Some s | _ \<Rightarrow> None)"

definition optional_string_list_field :: "json \<Rightarrow> string \<Rightarrow> string list option option" where
  "optional_string_list_field value key =
     (if \<not> is_object value then None
      else case obj_find value key of
        None \<Rightarrow> Some None
      | Some JNull \<Rightarrow> Some None
      | Some (JArray items) \<Rightarrow> map_option Some (traverse string_item items)
      | Some _ \<Rightarrow> None)"

definition flatten_option :: "'a option option \<Rightarrow> 'a option" where
  "flatten_option x = (case x of Some y \<Rightarrow> y | None \<Rightarrow> None)"

definition approval_of :: "json \<Rightarrow> json option" where
  "approval_of params =
     (case obj_find params ''approval'' of
        Some approval \<Rightarrow> if is_object approval then Some approval else None
      | None \<Rightarrow> None)"

record binding =
  b_approval_id :: string
  b_run_id :: string
  b_trace_id :: string
  b_call_id :: string
  b_tool_name :: string
  b_input_fingerprint :: string
  b_target_host :: string
  b_server_id :: string
  b_workspace_id :: "string option"
  b_environment :: string
  b_task_id :: "string option"
  b_plan_id :: "string option"
  b_plan_step_id :: "string option"
  b_evidence_ids :: "string list option"
  b_expires_at :: int

text \<open>The task, plan and step a ticket binds: all three or none.\<close>

definition task_binding :: "json \<Rightarrow> json \<Rightarrow> approval_error + (string \<times> string \<times> string) option" where
  "task_binding params approval =
     (let task_id = flatten_option (optional_string_field params ''taskId'');
          plan_id = flatten_option (optional_string_field approval ''planId'');
          plan_step_id = flatten_option (optional_string_field approval ''planStepId'');
          present = (\<lambda>x. x \<noteq> None \<and> x \<noteq> Some [])
      in if present task_id \<or> plan_id \<noteq> None \<or> plan_step_id \<noteq> None
         then if present task_id \<and> present plan_id \<and> present plan_step_id
              then Inr (Some (the task_id, the plan_id, the plan_step_id))
              else Inl PartialTaskBinding
         else Inr None)"

record event_fields =
  ev_type :: string
  ev_run_id :: string
  ev_approval_id :: string
  ev_approval_run_id :: string
  ev_trace_id :: string
  ev_call_id :: string
  ev_tool_name :: string
  ev_fingerprint :: string
  ev_expires_at :: string
  ev_target_host :: string
  ev_environment :: string
  ev_server_id :: "string option"
  ev_workspace_id :: "string option"

definition read_event :: "json \<Rightarrow> json \<Rightarrow> event_fields option" where
  "read_event params approval = do {
     event_type \<leftarrow> find_string params ''type'';
     run_id \<leftarrow> find_string params ''runId'';
     approval_id \<leftarrow> find_string approval ''approvalId'';
     approval_run_id \<leftarrow> find_string approval ''runId'';
     trace_id \<leftarrow> find_string approval ''traceId'';
     call_id \<leftarrow> find_string approval ''callId'';
     tool_name \<leftarrow> find_string approval ''toolName'';
     input_fingerprint \<leftarrow> find_string approval ''inputFingerprint'';
     expires_at \<leftarrow> find_string approval ''expiresAt'';
     target \<leftarrow> obj_find approval ''target'';
     (if is_object target then Some () else None);
     target_host \<leftarrow> find_string target ''host'';
     environment \<leftarrow> find_string target ''environment'';
     server_id \<leftarrow> optional_string_field target ''serverId'';
     workspace_id \<leftarrow> optional_string_field target ''workspaceId'';
     Some \<lparr>ev_type = event_type, ev_run_id = run_id, ev_approval_id = approval_id,
           ev_approval_run_id = approval_run_id, ev_trace_id = trace_id, ev_call_id = call_id,
           ev_tool_name = tool_name, ev_fingerprint = input_fingerprint,
           ev_expires_at = expires_at, ev_target_host = target_host,
           ev_environment = environment, ev_server_id = server_id, ev_workspace_id = workspace_id\<rparr>
   }"

definition supported_event :: "event_fields \<Rightarrow> bool" where
  "supported_event ev \<longleftrightarrow>
     ev_type ev = ''agent.waiting_approval'' \<and> is_host_approval_tool_name (ev_tool_name ev) \<and>
     ev_approval_run_id ev = ev_run_id ev \<and>
     ev_run_id ev \<noteq> [] \<and> length (ev_run_id ev) \<le> max_run_id_chars \<and>
     ev_approval_id ev \<noteq> [] \<and> length (ev_approval_id ev) \<le> max_approval_id_chars \<and>
     ev_trace_id ev \<noteq> [] \<and> length (ev_trace_id ev) \<le> max_trace_id_chars \<and>
     ev_call_id ev \<noteq> [] \<and> length (ev_call_id ev) \<le> max_call_id_chars \<and>
     is_sha256_hex (ev_fingerprint ev) \<and> ev_target_host ev = ''remote'' \<and>
     (case ev_server_id ev of
        None \<Rightarrow> False
      | Some server_id \<Rightarrow> starts_with ''srv_'' server_id \<and> length server_id \<le> max_server_id_chars) \<and>
     ev_environment ev \<noteq> [] \<and> length (ev_environment ev) \<le> max_environment_chars"

text \<open>The binding a host action event describes (\<^verbatim>\<open>record_waiting_event\<close> up to the lock):
  deadline, exact host input and evidence come last.\<close>

definition bind_event ::
    "approval_env \<Rightarrow> json \<Rightarrow> event_fields \<Rightarrow> (string \<times> string \<times> string) option \<Rightarrow> int option \<Rightarrow> int \<Rightarrow>
     approval_error + binding" where
  "bind_event env approval ev task epoch now =
     (case epoch of
        None \<Rightarrow> Inl ExpiryInvalid
      | Some expires_at \<Rightarrow>
          if expires_at \<le> now \<or> max_approval_ttl_seconds < expires_at - now then Inl OutsideTtl
          else
            (case obj_find approval ''hostInput'' of
               None \<Rightarrow> Inl MissingHostInput
             | Some host_input \<Rightarrow>
                 if \<not> is_object host_input then Inl MissingHostInput
                 else
                   (case env_dump env host_input of
                      None \<Rightarrow> Inl DumpFailed
                    | Some doc \<Rightarrow>
                        (case optional_string_list_field approval ''evidenceIds'' of
                           None \<Rightarrow> Inl MissingBindingFields
                         | Some evidence_ids \<Rightarrow>
                             Inr \<lparr>b_approval_id = ev_approval_id ev, b_run_id = ev_run_id ev,
                                  b_trace_id = ev_trace_id ev, b_call_id = ev_call_id ev,
                                  b_tool_name = ev_tool_name ev,
                                  b_input_fingerprint = content_revision_hex doc,
                                  b_target_host = ev_target_host ev,
                                  b_server_id = the (ev_server_id ev),
                                  b_workspace_id = ev_workspace_id ev,
                                  b_environment = ev_environment ev,
                                  b_task_id = map_option fst task,
                                  b_plan_id = map_option (fst \<circ> snd) task,
                                  b_plan_step_id = map_option (snd \<circ> snd) task,
                                  b_evidence_ids = evidence_ids,
                                  b_expires_at = expires_at\<rparr>))))"

definition event_binding :: "approval_env \<Rightarrow> json \<Rightarrow> int \<Rightarrow> approval_error + binding" where
  "event_binding env params now =
     (case approval_of params of
        None \<Rightarrow> Inl MissingBindingFields
      | Some approval \<Rightarrow>
        (case read_event params approval of
           None \<Rightarrow> Inl MissingBindingFields
         | Some ev \<Rightarrow>
           if \<not> supported_event ev then Inl UnsupportedBinding
           else
             res_bind (task_binding params approval) (\<lambda>task.
             res_bind (parse_iso8601_utc_seconds env (ev_expires_at ev)) (\<lambda>epoch.
               bind_event env approval ev task epoch now))))"

subsection \<open>The ledger\<close>

datatype phase = Pending | Responding | Approved

record entry =
  e_binding :: binding
  e_phase :: phase

record observation =
  o_run_id :: string
  o_expires_at :: int

record ledger =
  entries :: "(string, entry) table"
  observed :: "(string, observation) table"

definition empty_ledger :: ledger where
  "empty_ledger = \<lparr>entries = [], observed = []\<rparr>"

definition entry_expiry :: "entry \<Rightarrow> int" where
  "entry_expiry e = b_expires_at (e_binding e)"

definition same_request :: "binding \<Rightarrow> binding \<Rightarrow> bool" where
  "same_request b c \<longleftrightarrow>
     b_approval_id b = b_approval_id c \<and> b_run_id b = b_run_id c \<and> b_trace_id b = b_trace_id c \<and>
     b_call_id b = b_call_id c \<and> b_tool_name b = b_tool_name c \<and>
     b_input_fingerprint b = b_input_fingerprint c \<and> b_target_host b = b_target_host c \<and>
     b_server_id b = b_server_id c \<and> b_workspace_id b = b_workspace_id c \<and>
     b_environment b = b_environment c \<and> b_task_id b = b_task_id c \<and> b_plan_id b = b_plan_id c \<and>
     b_plan_step_id b = b_plan_step_id c \<and> b_evidence_ids b = b_evidence_ids c"

text \<open>The part of \<^verbatim>\<open>record_waiting_event\<close> under the lock.\<close>

definition record_binding :: "binding \<Rightarrow> int \<Rightarrow> ledger \<Rightarrow> (approval_error + unit) \<times> ledger" where
  "record_binding b now lg =
     (let lg1 = lg\<lparr>entries := purge_expired entry_expiry now (entries lg)\<rparr> in
      case map_of (entries lg1) (b_approval_id b) of
        Some existing \<Rightarrow>
          if \<not> same_request (e_binding existing) b then (Inl BoundToAnotherAction, lg1)
          else if e_phase existing \<noteq> Pending then (Inl BeingAnswered, lg1)
          else (Inr (), lg1\<lparr>entries := AList.update (b_approval_id b)
                 (existing\<lparr>e_binding := (e_binding existing)\<lparr>b_expires_at := b_expires_at b\<rparr>\<rparr>) (entries lg1)\<rparr>)
      | None \<Rightarrow>
          if max_tickets \<le> length (entries lg1) then (Inl LedgerFull, lg1)
          else (Inr (), lg1\<lparr>entries := AList.update (b_approval_id b)
                 \<lparr>e_binding = b, e_phase = Pending\<rparr> (entries lg1)\<rparr>))"

definition record_waiting_event ::
    "approval_env \<Rightarrow> json \<Rightarrow> int \<Rightarrow> ledger \<Rightarrow> (approval_error + unit) \<times> ledger" where
  "record_waiting_event env params now lg =
     (case event_binding env params now of
        Inl e \<Rightarrow> (Inl e, lg)
      | Inr b \<Rightarrow> record_binding b now lg)"

text \<open>The second critical section of \<^verbatim>\<open>record_auto_approved_event\<close>.\<close>

definition approve_auto :: "string \<Rightarrow> ledger \<Rightarrow> (approval_error + bool) \<times> ledger" where
  "approve_auto approval_id lg =
     (case map_of (entries lg) approval_id of
        None \<Rightarrow> (Inr False, lg)
      | Some e \<Rightarrow>
          (case e_phase e of
             Approved \<Rightarrow> (Inr True, lg)
           | Responding \<Rightarrow> (Inl AutoBeingAnswered, lg)
           | Pending \<Rightarrow>
               (Inr True, lg\<lparr>entries := AList.update approval_id (e\<lparr>e_phase := Approved\<rparr>) (entries lg)\<rparr>)))"

text \<open>\<^verbatim>\<open>value("autoApproved", false)\<close> throws on a value of another type.\<close>

definition auto_approved_flag :: "json \<Rightarrow> approval_error + bool" where
  "auto_approved_flag approval =
     (case obj_find approval ''autoApproved'' of
        None \<Rightarrow> Inr False
      | Some (JBool b) \<Rightarrow> Inr b
      | Some _ \<Rightarrow> Inl AutoApprovedNotBoolean)"

definition record_auto_approved_event ::
    "approval_env \<Rightarrow> json \<Rightarrow> int \<Rightarrow> ledger \<Rightarrow> (approval_error + bool) \<times> ledger" where
  "record_auto_approved_event env params now lg =
     (case approval_of params of
        None \<Rightarrow> (Inr False, lg)
      | Some approval \<Rightarrow>
          (case auto_approved_flag approval of
             Inl e \<Rightarrow> (Inl e, lg)
           | Inr False \<Rightarrow> (Inr False, lg)
           | Inr True \<Rightarrow>
               (case record_waiting_event env params now lg of
                  (Inl e, lg') \<Rightarrow> (Inl e, lg')
                | (Inr _, lg') \<Rightarrow>
                    approve_auto (case find_string approval ''approvalId'' of Some i \<Rightarrow> i | None \<Rightarrow> []) lg')))"

record waiting_approval =
  wa_approval_id :: string
  wa_run_id :: string
  wa_tool_name :: string
  wa_expires_at :: int

definition parse_waiting_approval ::
    "approval_env \<Rightarrow> json \<Rightarrow> int \<Rightarrow> approval_error + waiting_approval option" where
  "parse_waiting_approval env params now =
     (case approval_of params of
        None \<Rightarrow> Inr None
      | Some approval \<Rightarrow>
          (case (find_string params ''type'', find_string params ''runId'', find_string approval ''approvalId'',
                 find_string approval ''runId'', find_string approval ''toolName'',
                 find_string approval ''expiresAt'') of
             (Some event_type, Some run_id, Some approval_id, Some approval_run_id, Some tool_name,
              Some expires_at) \<Rightarrow>
               if event_type \<noteq> ''agent.waiting_approval'' \<or> approval_run_id \<noteq> run_id \<or>
                  run_id = [] \<or> max_run_id_chars < length run_id \<or>
                  approval_id = [] \<or> max_approval_id_chars < length approval_id
               then Inr None
               else res_bind (parse_iso8601_utc_seconds env expires_at) (\<lambda>epoch.
                 case epoch of
                   None \<Rightarrow> Inr None
                 | Some seconds \<Rightarrow>
                     if seconds \<le> now then Inr None
                     else Inr (Some \<lparr>wa_approval_id = approval_id, wa_run_id = run_id,
                                     wa_tool_name = tool_name, wa_expires_at = seconds\<rparr>))
           | _ \<Rightarrow> Inr None))"

text \<open>The loop that looks for the soonest expiry keeps the first of several equal ones.\<close>

fun soonest :: "(string \<times> observation) \<Rightarrow> (string, observation) table \<Rightarrow> string \<times> observation" where
  "soonest oldest [] = oldest"
| "soonest oldest (entry # rest) =
     soonest (if o_expires_at (snd entry) < o_expires_at (snd oldest) then entry else oldest) rest"

definition evict_soonest :: "(string, observation) table \<Rightarrow> (string, observation) table" where
  "evict_soonest t = (case t of [] \<Rightarrow> [] | entry # rest \<Rightarrow> AList.delete (fst (soonest entry t)) t)"

definition observe :: "waiting_approval \<Rightarrow> int \<Rightarrow> (string, observation) table \<Rightarrow> (string, observation) table" where
  "observe w now table =
     (let t = purge_expired o_expires_at now table in
      case map_of t (wa_approval_id w) of
        Some existing \<Rightarrow>
          AList.update (wa_approval_id w)
            \<lparr>o_run_id = wa_run_id w, o_expires_at = max (o_expires_at existing) (wa_expires_at w)\<rparr> t
      | None \<Rightarrow>
          AList.update (wa_approval_id w) \<lparr>o_run_id = wa_run_id w, o_expires_at = wa_expires_at w\<rparr>
            (if max_observed_approvals \<le> length t then evict_soonest t else t))"

definition record_sidecar_approval ::
    "approval_env \<Rightarrow> json \<Rightarrow> int \<Rightarrow> ledger \<Rightarrow> (approval_error + bool) \<times> ledger" where
  "record_sidecar_approval env params now lg =
     (case parse_waiting_approval env params now of
        Inl e \<Rightarrow> (Inl e, lg)
      | Inr None \<Rightarrow> (Inr False, lg)
      | Inr (Some w) \<Rightarrow>
          if is_host_approval_tool_name (wa_tool_name w) then (Inr False, lg)
          else (Inr True, lg\<lparr>observed := observe w now (observed lg)\<rparr>))"

record response_token =
  t_approval_id :: string
  t_approve_once :: bool

definition begin_response ::
    "string \<Rightarrow> string \<Rightarrow> string \<Rightarrow> int \<Rightarrow> ledger \<Rightarrow> (approval_error + response_token option) \<times> ledger" where
  "begin_response approval_id run_id decision now lg =
     (case map_of (entries lg) approval_id of
        None \<Rightarrow>
          (case map_of (observed lg) approval_id of
             None \<Rightarrow> (Inl (UnknownApproval approval_id), lg)
           | Some obs \<Rightarrow>
               if now < o_expires_at obs then (Inr None, lg)
               else (Inl (UnknownApproval approval_id), lg\<lparr>observed := AList.delete approval_id (observed lg)\<rparr>))
      | Some e \<Rightarrow>
          if entry_expiry e \<le> now
          then (Inl ApprovalExpired, lg\<lparr>entries := AList.delete approval_id (entries lg)\<rparr>)
          else if b_run_id (e_binding e) \<noteq> run_id then (Inl RunIdMismatch, lg)
          else if e_phase e \<noteq> Pending then (Inl AlreadyAnswered, lg)
          else if decision = ''approve_once'' \<or> decision = ''reject'' then
            (Inr (Some \<lparr>t_approval_id = approval_id, t_approve_once = (decision = ''approve_once'')\<rparr>),
             lg\<lparr>entries := AList.update approval_id (e\<lparr>e_phase := Responding\<rparr>) (entries lg)\<rparr>)
          else if decision = ''approve_session'' then (Inl SessionGrant, lg)
          else (Inl InvalidDecision, lg))"

definition finish_response ::
    "response_token \<Rightarrow> bool \<Rightarrow> int \<Rightarrow> ledger \<Rightarrow> (approval_error + unit) \<times> ledger" where
  "finish_response token accepted now lg =
     (case map_of (entries lg) (t_approval_id token) of
        None \<Rightarrow> (Inr (), lg)
      | Some e \<Rightarrow>
          if e_phase e \<noteq> Responding then (Inl ResponseNotActive, lg)
          else if accepted \<and> t_approve_once token \<and> now < entry_expiry e
          then (Inr (), lg\<lparr>entries := AList.update (t_approval_id token) (e\<lparr>e_phase := Approved\<rparr>) (entries lg)\<rparr>)
          else (Inr (), lg\<lparr>entries := AList.delete (t_approval_id token) (entries lg)\<rparr>))"

subsection \<open>Consuming a ticket\<close>

datatype ticket_error = Missing | Expired | Mismatch | NotApproved

text \<open>\<^verbatim>\<open>ExecutionBinding\<close>: the run, server, task, plan, step and evidence of a request are optional.\<close>

record execution_binding =
  x_approval_id :: string
  x_run_id :: "string option"
  x_trace_id :: string
  x_call_id :: string
  x_tool_name :: string
  x_input_fingerprint :: string
  x_target_host :: string
  x_server_id :: "string option"
  x_workspace_id :: "string option"
  x_environment :: string
  x_task_id :: "string option"
  x_plan_id :: "string option"
  x_plan_step_id :: "string option"
  x_evidence_ids :: "string list option"

definition binding_matches :: "binding \<Rightarrow> execution_binding \<Rightarrow> bool" where
  "binding_matches b request \<longleftrightarrow>
     b_approval_id b = x_approval_id request \<and> x_run_id request = Some (b_run_id b) \<and>
     b_trace_id b = x_trace_id request \<and> b_call_id b = x_call_id request \<and>
     b_tool_name b = x_tool_name request \<and> is_host_approval_tool_name (x_tool_name request) \<and>
     b_input_fingerprint b = x_input_fingerprint request \<and>
     b_target_host b = x_target_host request \<and> x_server_id request = Some (b_server_id b) \<and>
     b_workspace_id b = x_workspace_id request \<and> b_environment b = x_environment request \<and>
     x_task_id request = b_task_id b \<and> x_plan_id request = b_plan_id b \<and>
     x_plan_step_id request = b_plan_step_id b \<and> b_evidence_ids b = x_evidence_ids request"

text \<open>One iteration: the ticket was consumed and matched, an error, or the caller waits.\<close>

datatype consume_outcome = Consumed | Refused ticket_error | Parked

definition consume_check ::
    "execution_binding \<Rightarrow> int \<Rightarrow> int \<Rightarrow> ledger \<Rightarrow> consume_outcome \<times> ledger" where
  "consume_check request now remaining lg =
     (let erased = lg\<lparr>entries := AList.delete (x_approval_id request) (entries lg)\<rparr> in
      case map_of (entries lg) (x_approval_id request) of
        None \<Rightarrow> (Refused Missing, lg)
      | Some e \<Rightarrow>
          if entry_expiry e \<le> now then (Refused Expired, erased)
          else (case e_phase e of
             Pending \<Rightarrow> (Refused NotApproved, lg)
           | Responding \<Rightarrow> if remaining \<le> 0 then (Refused Expired, erased) else (Parked, lg)
           | Approved \<Rightarrow>
               (if binding_matches (e_binding e) request then Consumed else Refused Mismatch, erased)))"


subsection \<open>The critical sections as one machine\<close>

datatype ledger_op =
    OpRecord json int
  | OpApproveAuto string
  | OpObserve json int
  | OpBegin string string string int
  | OpFinish response_token bool int
  | OpConsume execution_binding int int

datatype ledger_reply =
    Recorded "approval_error + unit"
  | AutoApproved "approval_error + bool"
  | Observed "approval_error + bool"
  | Begun "approval_error + response_token option"
  | Finished "approval_error + unit"
  | Outcome consume_outcome

fun perform :: "approval_env \<Rightarrow> ledger_op \<Rightarrow> ledger \<Rightarrow> ledger_reply \<times> ledger" where
  "perform env (OpRecord params now) lg = map_prod Recorded id (record_waiting_event env params now lg)"
| "perform env (OpApproveAuto i) lg = map_prod AutoApproved id (approve_auto i lg)"
| "perform env (OpObserve params now) lg = map_prod Observed id (record_sidecar_approval env params now lg)"
| "perform env (OpBegin i run_id decision now) lg = map_prod Begun id (begin_response i run_id decision now lg)"
| "perform env (OpFinish token accepted now) lg = map_prod Finished id (finish_response token accepted now lg)"
| "perform env (OpConsume request now remaining) lg = map_prod Outcome id (consume_check request now remaining lg)"

inductive ledger_step :: "approval_env \<Rightarrow> ledger \<Rightarrow> ledger_op \<times> ledger_reply \<Rightarrow> ledger \<Rightarrow> bool" for env where
  perform_step: "perform env op lg = (reply, lg') \<Longrightarrow> ledger_step env lg (op, reply) lg'"

inductive_simps ledger_step_iff: "ledger_step env lg l lg'"

text \<open>
  The whole call of \<^verbatim>\<open>consume\<close>: before each iteration the other threads perform some
  operations, then the loop reads the wall clock and the time left of its budget.  The list of
  iterations ends where the observation ends; \<^term>\<open>None\<close> means the caller still waits.
\<close>

fun perform_all :: "approval_env \<Rightarrow> ledger_op list \<Rightarrow> ledger \<Rightarrow> ledger" where
  "perform_all env [] lg = lg"
| "perform_all env (op # ops) lg = perform_all env ops (snd (perform env op lg))"

fun consume ::
    "approval_env \<Rightarrow> execution_binding \<Rightarrow> (ledger_op list \<times> int \<times> int) list \<Rightarrow> ledger \<Rightarrow>
     ticket_error option option \<times> ledger" where
  "consume env request [] lg = (None, lg)"
| "consume env request ((others, now, remaining) # wakes) lg =
     (case consume_check request now remaining (perform_all env others lg) of
        (Consumed, lg') \<Rightarrow> (Some None, lg')
      | (Refused e, lg') \<Rightarrow> (Some (Some e), lg')
      | (Parked, lg') \<Rightarrow> consume env request wakes lg')"

end
