(* ===== verification/ApprovalProps.thy ===== *)
theory ApprovalProps
  imports Approval
begin

text \<open>
  What the approval ledger guarantees over every sequence of calls: its tables stay bounded and
  well formed, a ticket authorises exactly the action that was announced, each authorisation is
  spent at most once, and a waiting call is released when its budget is used up.  The tables are
  an instance of the \<open>expiring_table\<close> interface; the machine of critical sections instantiates
  \<open>machine\<close> and \<open>traced_machine\<close>.
\<close>

interpretation tickets: expiring_table
  "\<lambda>t. map_of t" AList.update AList.delete "purge_expired entry_expiry" entry_expiry distinct_keys
  by unfold_locales (simp_all add: table_simps)

interpretation observations: expiring_table
  "\<lambda>t. map_of t" AList.update AList.delete "purge_expired o_expires_at" o_expires_at distinct_keys
  by unfold_locales (simp_all add: table_simps)

subsection \<open>What an accepted event binds\<close>

definition task_bound :: "binding \<Rightarrow> bool" where
  "task_bound b \<longleftrightarrow>
     (b_task_id b = None \<and> b_plan_id b = None \<and> b_plan_step_id b = None) \<or>
     (b_task_id b \<notin> {None, Some []} \<and> b_plan_id b \<notin> {None, Some []} \<and> b_plan_step_id b \<notin> {None, Some []})"

definition binding_ok :: "binding \<Rightarrow> bool" where
  "binding_ok b \<longleftrightarrow>
     is_host_approval_tool_name (b_tool_name b) \<and> b_target_host b = ''remote'' \<and>
     starts_with ''srv_'' (b_server_id b) \<and> length (b_server_id b) \<le> 256 \<and>
     b_approval_id b \<noteq> [] \<and> length (b_approval_id b) \<le> 256 \<and>
     b_run_id b \<noteq> [] \<and> length (b_run_id b) \<le> 256 \<and>
     b_environment b \<noteq> [] \<and> length (b_environment b) \<le> 64 \<and> task_bound b"

lemmas approval_limits =
  max_approval_id_chars_def max_run_id_chars_def max_trace_id_chars_def max_call_id_chars_def
  max_server_id_chars_def max_environment_chars_def max_tickets_def max_observed_approvals_def
  max_approval_ttl_seconds_def

lemma task_binding_ok:
  assumes "task_binding params approval = Inr task"
  shows "case task of None \<Rightarrow> True | Some (t, p, s) \<Rightarrow> t \<noteq> [] \<and> p \<noteq> [] \<and> s \<noteq> []"
  using assms by (auto simp: task_binding_def Let_def split: if_splits)

lemma event_binding_Inr:
  assumes "event_binding env params now = Inr b"
  obtains approval ev task host_input doc where
    "approval_of params = Some approval" "read_event params approval = Some ev" "supported_event ev"
    "task_binding params approval = Inr task"
    "obj_find approval ''hostInput'' = Some host_input" "env_dump env host_input = Some doc"
    "now < b_expires_at b" "b_expires_at b - now \<le> 180"
    "b_input_fingerprint b = content_revision_hex doc"
    "b_approval_id b = ev_approval_id ev" "b_run_id b = ev_run_id ev" "b_tool_name b = ev_tool_name ev"
    "b_target_host b = ev_target_host ev" "b_server_id b = the (ev_server_id ev)"
    "b_environment b = ev_environment ev"
    "b_task_id b = map_option fst task" "b_plan_id b = map_option (fst \<circ> snd) task"
    "b_plan_step_id b = map_option (snd \<circ> snd) task"
proof -
  obtain approval where approval: "approval_of params = Some approval"
    using assms by (auto simp: event_binding_def split: option.split_asm)
  obtain ev where ev: "read_event params approval = Some ev" "supported_event ev"
    using assms by (auto simp: event_binding_def approval split: option.split_asm if_split_asm)
  obtain task epoch where task: "task_binding params approval = Inr task"
    and "bind_event env approval ev task epoch now = Inr b"
    using assms by (auto simp: event_binding_def approval ev res_bind_eq_Inr)
  then show ?thesis
    using ev approval
    by (auto simp: bind_event_def max_approval_ttl_seconds_def split: option.split_asm if_split_asm
        intro!: that [of approval ev task])
qed

lemma event_binding_ok:
  assumes "event_binding env params now = Inr b"
  shows "binding_ok b \<and> now < b_expires_at b \<and> b_expires_at b \<le> now + 180"
proof -
  obtain approval ev task host_input doc where ev: "supported_event ev"
    and task: "task_binding params approval = Inr task"
    and ttl: "now < b_expires_at b" "b_expires_at b - now \<le> 180"
    and fields: "b_approval_id b = ev_approval_id ev" "b_run_id b = ev_run_id ev"
      "b_tool_name b = ev_tool_name ev" "b_target_host b = ev_target_host ev"
      "b_server_id b = the (ev_server_id ev)" "b_environment b = ev_environment ev"
      "b_task_id b = map_option fst task" "b_plan_id b = map_option (fst \<circ> snd) task"
      "b_plan_step_id b = map_option (snd \<circ> snd) task"
    using assms by (rule event_binding_Inr)
  have "task_bound b"
    using task_binding_ok [OF task] fields by (cases task) (auto simp: task_bound_def)
  with ev ttl fields show ?thesis
    by (auto simp: binding_ok_def supported_event_def approval_limits split: option.splits)
qed

subsection \<open>The invariant\<close>

definition entries_ok :: "(string, entry) table \<Rightarrow> bool" where
  "entries_ok t \<longleftrightarrow> distinct_keys t \<and> length t \<le> 256 \<and>
     (\<forall>k e. map_of t k = Some e \<longrightarrow> b_approval_id (e_binding e) = k \<and> binding_ok (e_binding e))"

definition observed_ok :: "(string, observation) table \<Rightarrow> bool" where
  "observed_ok t \<longleftrightarrow> distinct_keys t \<and> length t \<le> 256"

definition ledger_ok :: "ledger \<Rightarrow> bool" where
  "ledger_ok lg \<longleftrightarrow> entries_ok (entries lg) \<and> observed_ok (observed lg)"

lemma ledger_ok_empty: "ledger_ok empty_ledger"
  by (simp add: ledger_ok_def entries_ok_def observed_ok_def empty_ledger_def)

lemma binding_ok_expiry [simp]: "binding_ok (b\<lparr>b_expires_at := x\<rparr>) = binding_ok b"
  by (simp add: binding_ok_def task_bound_def)

lemma entries_ok_purge [intro]: "entries_ok t \<Longrightarrow> entries_ok (purge_expired entry_expiry now t)"
  using purge_expired_length [of entry_expiry now t]
  by (auto simp: entries_ok_def table_simps split: option.splits if_splits)

lemma entries_ok_delete [intro]: "entries_ok t \<Longrightarrow> entries_ok (AList.delete k t)"
  using length_delete_le [of k t] by (auto simp: entries_ok_def table_simps split: if_splits)

lemma entries_ok_update:
  "entries_ok t \<Longrightarrow> b_approval_id (e_binding e) = k \<Longrightarrow> binding_ok (e_binding e) \<Longrightarrow>
   map_of t k \<noteq> None \<or> length t < 256 \<Longrightarrow> entries_ok (AList.update k e t)"
  using length_update_le [of k e t] by (auto simp: entries_ok_def table_simps split: if_splits)

lemma entries_ok_entry:
  "entries_ok t \<Longrightarrow> map_of t k = Some e \<Longrightarrow> b_approval_id (e_binding e) = k \<and> binding_ok (e_binding e)"
  by (simp add: entries_ok_def)

lemma entries_ok_replace:
  "entries_ok t \<Longrightarrow> map_of t k = Some e \<Longrightarrow> e_binding e' = e_binding e \<Longrightarrow> entries_ok (AList.update k e' t)"
  by (rule entries_ok_update) (auto dest: entries_ok_entry)

lemma observed_ok_delete [intro]: "observed_ok t \<Longrightarrow> observed_ok (AList.delete k t)"
  using length_delete_le [of k t] by (auto simp: observed_ok_def table_simps)

lemma record_binding_ok:
  assumes "entries_ok (entries lg)" "binding_ok b"
  shows "entries_ok (entries (snd (record_binding b now lg)))"
proof -
  let ?t = "purge_expired entry_expiry now (entries lg)"
  have t: "entries_ok ?t" using assms(1) by (rule entries_ok_purge)
  show ?thesis
  proof (cases "map_of ?t (b_approval_id b)")
    case None
    then show ?thesis
      using t assms(2) by (auto simp: record_binding_def Let_def max_tickets_def intro: entries_ok_update)
  next
    case (Some e)
    then show ?thesis
      using t entries_ok_entry [OF t Some]
      by (auto simp: record_binding_def Let_def intro: entries_ok_update)
  qed
qed

lemma record_binding_observed [simp]: "observed (snd (record_binding b now lg)) = observed lg"
  by (simp add: record_binding_def Let_def split: option.split)

lemma soonest_mem: "soonest x t \<in> insert x (set t)"
  by (induction x t rule: soonest.induct) auto

lemma length_delete_key:
  assumes "distinct_keys t" "k \<in> fst ` set t"
  shows "length (AList.delete k t) = length t - 1"
proof -
  have "length (AList.delete k t) = length (map fst (AList.delete k t))" by simp
  also have "map fst (AList.delete k t) = remove1 k (map fst t)"
    using assms(1) by (simp add: AList.delete_keys distinct_keys_def distinct_remove1_removeAll)
  finally show ?thesis using assms(2) by (simp add: length_remove1)
qed

lemma tickets_delete:
  "distinct_keys t \<Longrightarrow>
   distinct_keys (AList.delete k t) \<and> (\<forall>j v. map_of (AList.delete k t) j = Some v \<longrightarrow> map_of t j = Some v)"
  by (auto simp: table_simps split: if_splits)

lemma evict_soonest_facts:
  assumes "distinct_keys t"
  shows "distinct_keys (evict_soonest t) \<and> length (evict_soonest t) = length t - 1 \<and>
    (\<forall>k v. map_of (evict_soonest t) k = Some v \<longrightarrow> map_of t k = Some v)"
proof (cases t)
  case (Cons x r)
  have "fst (soonest x t) \<in> fst ` set t"
    using soonest_mem [of x t] Cons by auto
  with assms have "length (AList.delete (fst (soonest x t)) t) = length t - 1"
    by (intro length_delete_key)
  with assms show ?thesis
    using tickets_delete [OF assms, of "fst (soonest x t)"] by (simp add: evict_soonest_def Cons)
qed (simp add: evict_soonest_def)

lemma observe_facts:
  assumes "distinct_keys t" "length t \<le> 256"
  shows "distinct_keys (observe w now t) \<and> length (observe w now t) \<le> 256"
proof -
  let ?t = "purge_expired o_expires_at now t"
  have t: "distinct_keys ?t" "length ?t \<le> 256"
    using assms purge_expired_length [of o_expires_at now t] by (auto simp: table_simps)
  show ?thesis
    using t evict_soonest_facts [OF t(1)]
    by (auto simp: observe_def Let_def table_simps length_update_le max_observed_approvals_def
        split: option.splits)
qed

lemma perform_ok: "ledger_ok lg \<Longrightarrow> ledger_ok (snd (perform env op lg))"
proof (cases op)
  case (OpRecord params now)
  then show "ledger_ok lg \<Longrightarrow> ?thesis"
    by (auto simp: record_waiting_event_def ledger_ok_def record_binding_ok event_binding_ok split: sum.split)
next
  case (OpApproveAuto i)
  then show "ledger_ok lg \<Longrightarrow> ?thesis"
    by (auto simp: approve_auto_def ledger_ok_def split: option.split phase.split intro: entries_ok_replace)
next
  case (OpObserve params now)
  then show "ledger_ok lg \<Longrightarrow> ?thesis"
    using observe_facts [of "observed lg"]
    by (auto simp: record_sidecar_approval_def ledger_ok_def observed_ok_def split: sum.split option.split)
next
  case (OpBegin i run_id decision now)
  then show "ledger_ok lg \<Longrightarrow> ?thesis"
    by (auto simp: begin_response_def ledger_ok_def split: option.split intro: entries_ok_replace)
next
  case (OpFinish token accepted now)
  then show "ledger_ok lg \<Longrightarrow> ?thesis"
    by (auto simp: finish_response_def ledger_ok_def split: option.split intro: entries_ok_replace)
next
  case (OpConsume request now remaining)
  then show "ledger_ok lg \<Longrightarrow> ?thesis"
    by (auto simp: consume_check_def Let_def ledger_ok_def split: option.split phase.split)
qed

interpretation ledger: machine "ledger_step env" ledger_ok
  by unfold_locales (metis ledger_step_iff perform_ok snd_conv)


subsection \<open>The history of a ledger\<close>

text \<open>The calls that put a binding into the ledger, that approve a ticket and that spend it.\<close>

fun announces :: "approval_env \<Rightarrow> binding \<Rightarrow> ledger_op \<times> ledger_reply \<Rightarrow> bool" where
  "announces env b (OpRecord params now, Recorded (Inr _)) =
     (\<exists>c. event_binding env params now = Inr c \<and> same_request b c \<and> b_expires_at b = b_expires_at c)"
| "announces env b _ = False"

fun observes :: "approval_env \<Rightarrow> string \<Rightarrow> ledger_op \<times> ledger_reply \<Rightarrow> bool" where
  "observes env k (OpObserve params now, Observed (Inr True)) =
     (\<exists>w. parse_waiting_approval env params now = Inr (Some w) \<and> wa_approval_id w = k \<and>
       \<not> is_host_approval_tool_name (wa_tool_name w))"
| "observes env k _ = False"

fun grants :: "string \<Rightarrow> ledger_op \<times> ledger_reply \<Rightarrow> bool" where
  "grants k (OpApproveAuto i, AutoApproved (Inr True)) = (i = k)"
| "grants k (OpFinish token accepted now, Finished (Inr _)) =
     (t_approval_id token = k \<and> t_approve_once token \<and> accepted)"
| "grants k _ = False"

fun spends :: "string \<Rightarrow> ledger_op \<times> ledger_reply \<Rightarrow> bool" where
  "spends k (OpConsume request now remaining, Outcome Consumed) = (x_approval_id request = k)"
| "spends k _ = False"

definition occurrences :: "('a \<Rightarrow> bool) \<Rightarrow> 'a list \<Rightarrow> nat" where
  "occurrences P h = length (filter P h)"

definition approved :: "ledger \<Rightarrow> string \<Rightarrow> bool" where
  "approved lg k \<longleftrightarrow> (\<exists>e. map_of (entries lg) k = Some e \<and> e_phase e = Approved)"

definition history_ok :: "approval_env \<Rightarrow> (ledger_op \<times> ledger_reply) list \<Rightarrow> ledger \<Rightarrow> bool" where
  "history_ok env h lg \<longleftrightarrow> ledger_ok lg \<and>
     (\<forall>k e. map_of (entries lg) k = Some e \<longrightarrow> (\<exists>l\<in>set h. announces env (e_binding e) l)) \<and>
     (\<forall>k obs. map_of (observed lg) k = Some obs \<longrightarrow> (\<exists>l\<in>set h. observes env k l)) \<and>
     (\<forall>k. occurrences (spends k) h + of_bool (approved lg k) \<le> occurrences (grants k) h)"

lemma occurrences_snoc [simp]: "occurrences P (h @ [l]) = occurrences P h + of_bool (P l)"
  by (simp add: occurrences_def)

lemma same_request_expiry [simp]: "same_request (b\<lparr>b_expires_at := x\<rparr>) c = same_request b c"
  by (simp add: same_request_def)

lemma same_request_refl [simp]: "same_request b b"
  by (simp add: same_request_def)

lemma purged_entry:
  "ledger_ok lg \<Longrightarrow> map_of (purge_expired entry_expiry now (entries lg)) k = Some e \<Longrightarrow>
   map_of (entries lg) k = Some e \<and> now < entry_expiry e"
  by (rule tickets.live_after_purge) (simp_all add: ledger_ok_def entries_ok_def)

lemma record_binding_entry:
  assumes "ledger_ok lg" "record_binding b now lg = (r, lg')" "map_of (entries lg') k = Some e"
  shows "map_of (entries lg) k = Some e \<or>
    r = Inr () \<and> same_request (e_binding e) b \<and> b_expires_at (e_binding e) = b_expires_at b \<and>
      e_phase e = Pending"
  using assms(2,3)
  by (auto simp: record_binding_def Let_def table_simps dest: purged_entry [OF assms(1)]
      split: option.split_asm if_split_asm)

lemma perform_record:
  assumes "perform env (OpRecord params now) lg = (r, lg')"
  obtains e where "event_binding env params now = Inl e" "r = Recorded (Inl e)" "lg' = lg"
  | b r0 where "event_binding env params now = Inr b" "record_binding b now lg = (r0, lg')" "r = Recorded r0"
  using assms
  by (cases "event_binding env params now")
     (auto simp: record_waiting_event_def map_prod_def split: prod.split_asm)

lemma perform_entry:
  assumes "ledger_ok lg" "perform env op lg = (r, lg')" "map_of (entries lg') k = Some e"
  shows "announces env (e_binding e) (op, r) \<or>
    (\<exists>e0. map_of (entries lg) k = Some e0 \<and> e_binding e = e_binding e0)"
proof (cases op)
  case (OpRecord params now)
  from assms(2) [unfolded OpRecord] show ?thesis
  proof (cases rule: perform_record)
    case (2 b r0)
    then show ?thesis
      using record_binding_entry [OF assms(1) 2(2) assms(3)] OpRecord by auto
  qed (use assms(3) in auto)
qed (use assms in \<open>auto simp: approve_auto_def record_sidecar_approval_def begin_response_def
    finish_response_def consume_check_def Let_def table_simps
    split: option.split_asm if_split_asm phase.split_asm sum.split_asm\<close>)

lemma observe_entry:
  assumes "distinct_keys t" "map_of (observe w now t) k = Some obs"
  shows "k = wa_approval_id w \<or> (\<exists>o'. map_of t k = Some o')"
proof -
  let ?t = "purge_expired o_expires_at now t"
  have dk: "distinct_keys ?t" using assms(1) by (rule distinct_keys_purge)
  have live: "\<And>v. map_of ?t k = Some v \<Longrightarrow> map_of t k = Some v"
    using observations.live_after_purge [OF assms(1)] by blast
  show ?thesis
    using assms(2) live evict_soonest_facts [OF dk]
    by (auto simp: observe_def Let_def map_of_update split: option.split_asm if_split_asm)
qed

lemma perform_observed:
  assumes "ledger_ok lg" "perform env op lg = (r, lg')" "map_of (observed lg') k = Some obs"
  shows "observes env k (op, r) \<or> (\<exists>o'. map_of (observed lg) k = Some o')"
proof (cases op)
  case (OpRecord params now)
  from assms(2) [unfolded OpRecord] have "observed lg' = observed lg"
  proof (cases rule: perform_record)
    case (2 b r0)
    then show ?thesis using record_binding_observed [of b now lg] by simp
  qed simp
  with assms(3) show ?thesis by simp
next
  case (OpObserve params now)
  have dk: "distinct_keys (observed lg)" using assms(1) by (simp add: ledger_ok_def observed_ok_def)
  show ?thesis
  proof (cases "observed lg' = observed lg")
    case False
    then obtain w where "parse_waiting_approval env params now = Inr (Some w)"
      "\<not> is_host_approval_tool_name (wa_tool_name w)" "r = Observed (Inr True)"
      "observed lg' = observe w now (observed lg)"
      using assms(2) OpObserve
      by (auto simp: record_sidecar_approval_def split: option.split_asm if_split_asm sum.split_asm)
    with assms(3) observe_entry [OF dk] OpObserve show ?thesis by auto
  qed (use assms(3) in auto)
qed (use assms in \<open>auto simp: approve_auto_def begin_response_def finish_response_def consume_check_def
    Let_def table_simps split: option.split_asm if_split_asm phase.split_asm\<close>)

lemma perform_balance:
  assumes "ledger_ok lg" "perform env op lg = (r, lg')"
  shows "of_bool (spends k (op, r)) + of_bool (approved lg' k) \<le>
    (of_bool (grants k (op, r)) + of_bool (approved lg k) :: nat)"
proof (cases op)
  case (OpRecord params now)
  have "approved lg k" if a: "approved lg' k"
  proof -
    obtain e where e: "map_of (entries lg') k = Some e" "e_phase e = Approved"
      using a by (auto simp: approved_def)
    from assms(2) [unfolded OpRecord] have "map_of (entries lg) k = Some e"
    proof (cases rule: perform_record)
      case (2 b r0)
      then show ?thesis using record_binding_entry [OF assms(1) 2(2) e(1)] e(2) by auto
    qed (use e(1) in simp)
    with e(2) show ?thesis by (auto simp: approved_def)
  qed
  with OpRecord assms(2) show ?thesis by auto
qed (use assms(2) in \<open>auto simp: approved_def approve_auto_def record_sidecar_approval_def begin_response_def
    finish_response_def consume_check_def Let_def table_simps
    split: option.split_asm if_split_asm phase.split_asm sum.split_asm\<close>)

interpretation ledger_history: traced_machine "ledger_step env" "history_ok env"
proof unfold_locales
  fix h lg l lg'
  assume ok: "history_ok env h lg" and "ledger_step env lg l lg'"
  then obtain op r where l: "l = (op, r)" and step: "perform env op lg = (r, lg')"
    by (auto simp: ledger_step_iff)
  have lg: "ledger_ok lg" using ok by (simp add: history_ok_def)
  have "ledger_ok lg'" using perform_ok [OF lg, of env op] step by simp
  moreover have "\<exists>x\<in>set (h @ [l]). announces env (e_binding e) x" if "map_of (entries lg') k = Some e" for k e
    using perform_entry [OF lg step that] ok l by (fastforce simp: history_ok_def)
  moreover have "\<exists>x\<in>set (h @ [l]). observes env k x" if "map_of (observed lg') k = Some obs" for k obs
    using perform_observed [OF lg step that] ok l by (fastforce simp: history_ok_def)
  moreover have "occurrences (spends k) (h @ [l]) + of_bool (approved lg' k) \<le> occurrences (grants k) (h @ [l])" for k
  proof -
    have "occurrences (spends k) h + of_bool (approved lg k) \<le> occurrences (grants k) h"
      using ok by (simp add: history_ok_def)
    with perform_balance [OF lg step, of k] show ?thesis by (simp add: l)
  qed
  ultimately show "history_ok env (h @ [l]) lg'" by (simp only: history_ok_def) blast
qed

lemma history_ok_empty: "history_ok env [] empty_ledger"
  by (simp add: history_ok_def ledger_ok_empty) (simp add: empty_ledger_def approved_def occurrences_def)

lemma history_reachable: "run (ledger_step env) empty_ledger h lg \<Longrightarrow> history_ok env h lg"
  using ledger_history.run_hinv [of env empty_ledger h lg "[]"] history_ok_empty by simp


subsection \<open>A concrete run\<close>

text \<open>A library whose serialiser and clock reader are constant, one announced restart, and the
  request that consumes its ticket.\<close>

definition sample_env :: approval_env where
  "sample_env = \<lparr>env_dump = (\<lambda>_. Some ''{}''), env_utc_seconds = (\<lambda>_. Some 100)\<rparr>"

definition sample_event :: "string \<Rightarrow> json" where
  "sample_event tool =
     JObject [(''type'', JString ''agent.waiting_approval''), (''runId'', JString ''r1''),
       (''approval'', JObject [(''approvalId'', JString ''a1''), (''runId'', JString ''r1''),
          (''traceId'', JString ''t1''), (''callId'', JString ''c1''), (''toolName'', JString tool),
          (''inputFingerprint'', JString (replicate 64 (CHR ''0''))),
          (''expiresAt'', JString ''1970-01-01T00:01:40Z''), (''autoApproved'', JBool True),
          (''target'', JObject [(''host'', JString ''remote''), (''environment'', JString ''prod''),
             (''serverId'', JString ''srv_1'')]),
          (''hostInput'', JObject [])])]"

definition sample_binding :: binding where
  "sample_binding =
     \<lparr>b_approval_id = ''a1'', b_run_id = ''r1'', b_trace_id = ''t1'', b_call_id = ''c1'',
      b_tool_name = ''docker.restart'', b_input_fingerprint = content_revision_hex ''{}'',
      b_target_host = ''remote'', b_server_id = ''srv_1'', b_workspace_id = None,
      b_environment = ''prod'', b_task_id = None, b_plan_id = None, b_plan_step_id = None,
      b_evidence_ids = None, b_expires_at = 100\<rparr>"

definition sample_request :: execution_binding where
  "sample_request =
     \<lparr>x_approval_id = ''a1'', x_run_id = Some ''r1'', x_trace_id = ''t1'', x_call_id = ''c1'',
      x_tool_name = ''docker.restart'', x_input_fingerprint = content_revision_hex ''{}'',
      x_target_host = ''remote'', x_server_id = Some ''srv_1'', x_workspace_id = None,
      x_environment = ''prod'', x_task_id = None, x_plan_id = None, x_plan_step_id = None,
      x_evidence_ids = None\<rparr>"

lemmas event_eval =
  sample_env_def sample_event_def approval_of_def read_event_def find_string_def optional_string_field_def
  supported_event_def is_host_approval_tool_name_def approval_limits is_sha256_hex_def byte_class_defs
  starts_with_def task_binding_def flatten_option_def parse_iso8601_utc_seconds_def bind_event_def
  optional_string_list_field_def

lemma sample_event_binding:
  "event_binding sample_env (sample_event ''docker.restart'') 10 = Inr sample_binding"
  by (simp add: event_binding_def event_eval sample_binding_def list_all_iff)

lemma sample_observation:
  "parse_waiting_approval sample_env (sample_event ''filesystem.write'') 10 =
     Inr (Some \<lparr>wa_approval_id = ''a1'', wa_run_id = ''r1'', wa_tool_name = ''filesystem.write'', wa_expires_at = 100\<rparr>)"
  by (simp add: parse_waiting_approval_def event_eval)

definition sample_ticket :: "phase \<Rightarrow> ledger" where
  "sample_ticket ph = \<lparr>entries = [(''a1'', \<lparr>e_binding = sample_binding, e_phase = ph\<rparr>)], observed = []\<rparr>"

lemma sample_run_approved:
  "run (ledger_step sample_env) empty_ledger
     [(OpRecord (sample_event ''docker.restart'') 10, Recorded (Inr ())),
      (OpBegin ''a1'' ''r1'' ''approve_once'' 20,
        Begun (Inr (Some \<lparr>t_approval_id = ''a1'', t_approve_once = True\<rparr>))),
      (OpFinish \<lparr>t_approval_id = ''a1'', t_approve_once = True\<rparr> True 30, Finished (Inr ()))]
     (sample_ticket Approved)"
proof -
  have 1: "ledger_step sample_env empty_ledger
      (OpRecord (sample_event ''docker.restart'') 10, Recorded (Inr ())) (sample_ticket Pending)"
    by (simp add: ledger_step_iff record_waiting_event_def sample_event_binding)
       (simp add: record_binding_def empty_ledger_def purge_expired_def max_tickets_def sample_ticket_def
          sample_binding_def)
  have 2: "ledger_step sample_env (sample_ticket Pending) (OpBegin ''a1'' ''r1'' ''approve_once'' 20,
      Begun (Inr (Some \<lparr>t_approval_id = ''a1'', t_approve_once = True\<rparr>))) (sample_ticket Responding)"
    by (simp add: ledger_step_iff begin_response_def sample_ticket_def entry_expiry_def sample_binding_def)
  have 3: "ledger_step sample_env (sample_ticket Responding)
      (OpFinish \<lparr>t_approval_id = ''a1'', t_approve_once = True\<rparr> True 30, Finished (Inr ())) (sample_ticket Approved)"
    by (simp add: ledger_step_iff finish_response_def sample_ticket_def entry_expiry_def sample_binding_def)
  show ?thesis
    by (rule run_Cons [where step = "ledger_step sample_env", OF _ 1],
        rule run_Cons [where step = "ledger_step sample_env", OF _ 2],
        rule run_Cons [where step = "ledger_step sample_env", OF run_Nil 3])
qed

lemma sample_run_consumed:
  "run (ledger_step sample_env) empty_ledger
     ([(OpRecord (sample_event ''docker.restart'') 10, Recorded (Inr ())),
       (OpBegin ''a1'' ''r1'' ''approve_once'' 20,
         Begun (Inr (Some \<lparr>t_approval_id = ''a1'', t_approve_once = True\<rparr>))),
       (OpFinish \<lparr>t_approval_id = ''a1'', t_approve_once = True\<rparr> True 30, Finished (Inr ()))]
      @ [(OpConsume sample_request 40 0, Outcome Consumed)])
     empty_ledger"
proof (rule run_snoc [OF sample_run_approved])
  have "binding_matches sample_binding sample_request"
    by (simp add: binding_matches_def sample_binding_def sample_request_def is_host_approval_tool_name_def)
  then show "ledger_step sample_env (sample_ticket Approved)
      (OpConsume sample_request 40 0, Outcome Consumed) empty_ledger"
    by (simp add: ledger_step_iff consume_check_def sample_ticket_def entry_expiry_def empty_ledger_def)
       (simp add: sample_request_def sample_binding_def)
qed

lemma sample_run_observed:
  "run (ledger_step sample_env) empty_ledger
     ([(OpObserve (sample_event ''filesystem.write'') 10, Observed (Inr True))]
      @ [(OpBegin ''a1'' ''r1'' ''approve_once'' 20, Begun (Inr None))])
     \<lparr>entries = [], observed = [(''a1'', \<lparr>o_run_id = ''r1'', o_expires_at = 100\<rparr>)]\<rparr>"
proof (rule run_snoc)
  show "run (ledger_step sample_env) empty_ledger [(OpObserve (sample_event ''filesystem.write'') 10, Observed (Inr True))]
      \<lparr>entries = [], observed = [(''a1'', \<lparr>o_run_id = ''r1'', o_expires_at = 100\<rparr>)]\<rparr>"
    by (rule run_Cons [where step = "ledger_step sample_env", OF run_Nil])
       (simp add: ledger_step_iff record_sidecar_approval_def sample_observation empty_ledger_def
        is_host_approval_tool_name_def observe_def purge_expired_def max_observed_approvals_def)
qed (simp add: ledger_step_iff begin_response_def)

subsection \<open>Properties\<close>

text \<open>C39: The ledger stays bounded and well formed: after any sequence of calls it holds at most 256
  tickets and 256 observations, each ticket under its own approval id, for one of the four host
  actions on a remote server, with task, plan and step bound together or not at all.\<close>

theorem ledger_invariant:
  assumes "run (ledger_step env) empty_ledger h lg"
  shows "length (entries lg) \<le> 256 \<and> length (observed lg) \<le> 256 \<and>
    distinct (map fst (entries lg)) \<and> distinct (map fst (observed lg)) \<and>
    (\<forall>k e. (k, e) \<in> set (entries lg) \<longrightarrow> b_approval_id (e_binding e) = k \<and> binding_ok (e_binding e))"
proof -
  have "ledger_ok lg" using assms ledger_ok_empty by (rule ledger.run_inv)
  then show ?thesis
    by (auto simp: ledger_ok_def entries_ok_def observed_ok_def distinct_keys_def)
qed

theorem ledger_invariant_witness:
  "length (entries (sample_ticket Approved)) \<le> 256 \<and> length (observed (sample_ticket Approved)) \<le> 256 \<and>
    distinct (map fst (entries (sample_ticket Approved))) \<and> binding_ok sample_binding"
  using ledger_invariant [OF sample_run_approved] by (simp add: sample_ticket_def)

text \<open>C1: No authorisation is spent twice: in any sequence of calls, a ticket id is consumed at most as
  often as it was approved, by an auto-approved event or by an accepted approve-once response.\<close>

theorem ticket_single_use:
  assumes "run (ledger_step env) empty_ledger h lg"
  shows "occurrences (spends k) h \<le> occurrences (grants k) h"
  using history_reachable [OF assms] by (simp add: history_ok_def) (metis add_leD1)

theorem ticket_single_use_witness:
  "occurrences (spends ''a1'')
     ([(OpRecord (sample_event ''docker.restart'') 10, Recorded (Inr ())),
       (OpBegin ''a1'' ''r1'' ''approve_once'' 20,
         Begun (Inr (Some \<lparr>t_approval_id = ''a1'', t_approve_once = True\<rparr>))),
       (OpFinish \<lparr>t_approval_id = ''a1'', t_approve_once = True\<rparr> True 30, Finished (Inr ()))]
      @ [(OpConsume sample_request 40 0, Outcome Consumed)]) \<le>
   occurrences (grants ''a1'')
     ([(OpRecord (sample_event ''docker.restart'') 10, Recorded (Inr ())),
       (OpBegin ''a1'' ''r1'' ''approve_once'' 20,
         Begun (Inr (Some \<lparr>t_approval_id = ''a1'', t_approve_once = True\<rparr>))),
       (OpFinish \<lparr>t_approval_id = ''a1'', t_approve_once = True\<rparr> True 30, Finished (Inr ()))]
      @ [(OpConsume sample_request 40 0, Outcome Consumed)])"
  by (rule ticket_single_use [OF sample_run_consumed])

text \<open>C5: A consumed ticket authorises exactly what was announced: when \<^verbatim>\<open>consume\<close> succeeds, an
  earlier event described an action whose every field is the request's, including the
  fingerprint of its exact host input, and whose deadline lies in the future and within 180
  seconds of the announcement.\<close>

theorem consumed_as_announced:
  assumes "run (ledger_step env) empty_ledger (h @ [(OpConsume request now remaining, Outcome Consumed)]) lg"
  shows "\<exists>params t b approval input doc.
    (OpRecord params t, Recorded (Inr ())) \<in> set h \<and> event_binding env params t = Inr b \<and>
    binding_matches b request \<and> now < b_expires_at b \<and> b_expires_at b \<le> t + 180 \<and>
    approval_of params = Some approval \<and> obj_find approval ''hostInput'' = Some input \<and>
    env_dump env input = Some doc \<and> x_input_fingerprint request = content_revision_hex doc"
proof -
  obtain lg0 where run0: "run (ledger_step env) empty_ledger h lg0"
    and step: "ledger_step env lg0 (OpConsume request now remaining, Outcome Consumed) lg"
    using assms by (cases rule: run.cases) auto
  obtain e where e: "map_of (entries lg0) (x_approval_id request) = Some e"
    and live: "now < entry_expiry e" and matches: "binding_matches (e_binding e) request"
    using step by (auto simp: ledger_step_iff consume_check_def Let_def
        split: option.split_asm if_split_asm phase.split_asm)
  obtain l where l: "l \<in> set h" "announces env (e_binding e) l"
    using history_reachable [OF run0] e unfolding history_ok_def by blast
  then obtain params t b where rec: "l = (OpRecord params t, Recorded (Inr ()))"
    and b: "event_binding env params t = Inr b" "same_request (e_binding e) b"
      "b_expires_at (e_binding e) = b_expires_at b"
    by (cases "(env, e_binding e, l)" rule: announces.cases) auto
  have "binding_matches b request"
    using matches b(2) by (simp add: binding_matches_def same_request_def)
  moreover have "now < b_expires_at b" using live b(3) by (simp add: entry_expiry_def)
  moreover have "b_expires_at b \<le> t + 180" using event_binding_ok [OF b(1)] by simp
  moreover obtain approval input doc where "approval_of params = Some approval"
    "obj_find approval ''hostInput'' = Some input" "env_dump env input = Some doc"
    "b_input_fingerprint b = content_revision_hex doc"
    using b(1) by (rule event_binding_Inr)
  moreover have "x_input_fingerprint request = b_input_fingerprint b"
    using \<open>binding_matches b request\<close> by (simp add: binding_matches_def)
  ultimately show ?thesis using l(1) rec b(1)
    by (intro exI [of _ params] exI [of _ t] exI [of _ b] exI [of _ approval] exI [of _ input] exI [of _ doc]) simp
qed

theorem consumed_as_announced_witness:
  "\<exists>params t b approval input doc.
    (OpRecord params t, Recorded (Inr ())) \<in> set
      [(OpRecord (sample_event ''docker.restart'') 10, Recorded (Inr ())),
       (OpBegin ''a1'' ''r1'' ''approve_once'' 20,
         Begun (Inr (Some \<lparr>t_approval_id = ''a1'', t_approve_once = True\<rparr>))),
       (OpFinish \<lparr>t_approval_id = ''a1'', t_approve_once = True\<rparr> True 30, Finished (Inr ()))] \<and>
    event_binding sample_env params t = Inr b \<and>
    binding_matches b sample_request \<and> 40 < b_expires_at b \<and> b_expires_at b \<le> t + 180 \<and>
    approval_of params = Some approval \<and> obj_find approval ''hostInput'' = Some input \<and>
    env_dump sample_env input = Some doc \<and> x_input_fingerprint sample_request = content_revision_hex doc"
  by (rule consumed_as_announced [OF sample_run_consumed])

text \<open>A response is forwarded without a host ticket only for an approval the sidecar announced and
  owns: the id was observed earlier, for a tool that is not a host action.\<close>

theorem forwarded_only_if_observed:
  assumes "run (ledger_step env) empty_ledger (h @ [(OpBegin i run_id decision now, Begun (Inr None))]) lg"
  shows "\<exists>params t w. (OpObserve params t, Observed (Inr True)) \<in> set h \<and>
    parse_waiting_approval env params t = Inr (Some w) \<and> wa_approval_id w = i \<and>
    \<not> is_host_approval_tool_name (wa_tool_name w)"
proof -
  obtain lg0 where run0: "run (ledger_step env) empty_ledger h lg0"
    and step: "ledger_step env lg0 (OpBegin i run_id decision now, Begun (Inr None)) lg"
    using assms by (cases rule: run.cases) auto
  obtain obs where "map_of (observed lg0) i = Some obs"
    using step by (auto simp: ledger_step_iff begin_response_def split: option.split_asm if_split_asm)
  then obtain l where "l \<in> set h" "observes env i l"
    using history_reachable [OF run0] unfolding history_ok_def by blast
  then show ?thesis by (cases "(env, i, l)" rule: observes.cases) auto
qed

theorem forwarded_only_if_observed_witness:
  "\<exists>params t w. (OpObserve params t, Observed (Inr True)) \<in>
      set [(OpObserve (sample_event ''filesystem.write'') 10, Observed (Inr True))] \<and>
    parse_waiting_approval sample_env params t = Inr (Some w) \<and> wa_approval_id w = ''a1'' \<and>
    \<not> is_host_approval_tool_name (wa_tool_name w)"
  by (rule forwarded_only_if_observed [OF sample_run_observed])

text \<open>C40: Waiting is bounded: whatever the other threads do between the wake-ups, a call of
  \<^verbatim>\<open>consume\<close> has returned by the first wake-up at which its budget is used up.\<close>

theorem consume_bounded:
  assumes "\<exists>others now remaining. (others, now, remaining) \<in> set wakes \<and> remaining \<le> 0"
  shows "\<exists>outcome lg'. consume env request wakes lg = (Some outcome, lg')"
  using assms
proof (induction wakes arbitrary: lg)
  case (Cons wake wakes)
  obtain others now remaining where wake: "wake = (others, now, remaining)" by (cases wake)
  obtain outcome lg' where check: "consume_check request now remaining (perform_all env others lg) = (outcome, lg')"
    by fastforce
  show ?case
  proof (cases outcome)
    case Parked
    then have "0 < remaining"
      using check by (auto simp: consume_check_def Let_def split: option.split_asm if_split_asm phase.split_asm)
    with Cons.prems wake have "\<exists>others now remaining. (others, now, remaining) \<in> set wakes \<and> remaining \<le> 0"
      by auto
    from Cons.IH [OF this, of lg'] show ?thesis by (simp add: wake check Parked)
  qed (simp_all add: wake check)
qed simp

theorem consume_bounded_witness:
  "\<exists>outcome lg'. consume sample_env sample_request
      [([], 20, 1000), ([OpObserve JNull 21], 21, 0), ([], 22, - 1)] (sample_ticket Responding) = (Some outcome, lg')"
  by (rule consume_bounded) auto

text \<open>A rejected or unconfirmed response destroys the ticket: whenever a response that is not an
  accepted approve-once is finished on an active ticket, the ticket is gone and the action can
  only be refused as missing.\<close>

theorem rejection_destroys_ticket:
  assumes "map_of (entries lg) (t_approval_id token) = Some e" "e_phase e = Responding"
    "\<not> (accepted \<and> t_approve_once token)" "x_approval_id request = t_approval_id token"
  shows "fst (consume_check request now' remaining (snd (finish_response token accepted now lg))) = Refused Missing"
proof -
  have "map_of (entries (snd (finish_response token accepted now lg))) (t_approval_id token) = None"
    using assms tickets.erased_is_gone [of "t_approval_id token" "entries lg"]
    by (auto simp: finish_response_def)
  with assms(4) show ?thesis by (simp add: consume_check_def)
qed

theorem rejection_destroys_ticket_witness:
  "fst (consume_check sample_request 50 0 (snd (finish_response \<lparr>t_approval_id = ''a1'', t_approve_once = False\<rparr>
      True 30 (sample_ticket Responding)))) = Refused Missing"
  by (rule rejection_destroys_ticket [where e = "\<lparr>e_binding = sample_binding, e_phase = Responding\<rparr>"])
     (simp_all add: sample_ticket_def sample_request_def)

text \<open>
  The comment on \<^verbatim>\<open>record_auto_approved_event\<close> calls it idempotent because the same event can
  arrive twice.  It is not: the second delivery finds the ticket approved, and the check inside
  \<^verbatim>\<open>record_waiting_event\<close> throws before the idempotent branch is reached.
\<close>

lemma auto_approved_replay_refused:
  assumes "approval_of params = Some approval" "auto_approved_flag approval = Inr True"
    "event_binding env params now = Inr b" "ledger_ok lg"
    "map_of (entries lg) (b_approval_id b) = Some e" "now < entry_expiry e"
    "same_request (e_binding e) b" "e_phase e = Approved"
  shows "fst (record_auto_approved_event env params now lg) = Inl BeingAnswered"
proof -
  have "map_of (purge_expired entry_expiry now (entries lg)) (b_approval_id b) = Some e"
    by (rule tickets.purge_keeps_live) (use assms in \<open>auto simp: ledger_ok_def entries_ok_def\<close>)
  with assms show ?thesis
    by (simp add: record_auto_approved_event_def record_waiting_event_def record_binding_def)
qed

text \<open>An expiry whose zone offset is not a number makes the observer throw instead of ignoring the event.\<close>

lemma malformed_offset_throws:
  assumes "length value = 25" "value ! 19 = CHR ''+''" "stoi (take 2 (drop 20 value)) = None"
    "env_utc_seconds env value = Some seconds" "seconds \<noteq> - 1"
  shows "parse_iso8601_utc_seconds env value = Inl OffsetNotANumber"
  using assms by (simp add: parse_iso8601_utc_seconds_def)

end
