(* ===== verification/Dispatcher.thy ===== *)
theory Dispatcher
  imports Json "HOL-Library.Multiset"
begin

text \<open>
  The desktop IPC dispatcher (\<^verbatim>\<open>src/native/desktop_host/src/ipc_dispatcher.cpp\<close>): requests are
  routed to the UI thread or to one of two FIFO lanes, identical collection reads share one
  invocation, and admission is bounded by queue lengths and by a byte budget.  A
  \<^verbatim>\<open>std::shared_ptr<Job>\<close> that the queues, the collection table and a worker share is an
  address into the table \<open>d_jobs\<close>; a completion callback is an optional token (an empty
  \<^verbatim>\<open>std::function\<close> is \<^term>\<open>None\<close>).  Byte counts are 64-bit words, as \<^verbatim>\<open>std::size_t\<close> is.
  The steps of a worker are its critical sections and the single deliveries; the invoked
  router is the environment, whose outcome labels the step.
\<close>

datatype dispatch_route = UiThread | BackgroundRoute | TerminalControl

datatype submit_result = Accepted | Busy | Closed | RequiresUiThread | SubmitThrows

datatype lane = Background | Terminal

record dispatch_limits =
  lim_background_queue :: nat
  lim_terminal_queue :: nat
  lim_pending_bytes :: "64 word"
  lim_collection_waiters :: nat

definition default_limits :: dispatch_limits where
  "default_limits = \<lparr>lim_background_queue = 16, lim_terminal_queue = 128,
     lim_pending_bytes = 33554432, lim_collection_waiters = 16\<rparr>"

record ipc_reply =
  reply_ok :: bool
  reply_value :: json

record job =
  j_method :: string
  j_params :: json
  j_completions :: "nat option list"
  j_collection :: string
  j_bytes :: "64 word"

datatype worker = Idle | Invoking nat | Delivering "nat option list" ipc_reply | Exited

record dispatcher =
  d_limits :: dispatch_limits
  d_stopping :: bool
  d_queue :: "lane \<Rightarrow> nat list"
  d_jobs :: "(nat, job) table"
  d_next :: nat
  d_collections :: "(string, nat) table"
  d_pending :: "64 word"
  d_worker :: "lane \<Rightarrow> worker"

text \<open>The constructor refuses zero limits; the queues start empty and both workers idle.\<close>

definition new_dispatcher :: "dispatch_limits \<Rightarrow> dispatcher option" where
  "new_dispatcher limits =
     (if lim_background_queue limits = 0 \<or> lim_terminal_queue limits = 0 \<or>
         lim_pending_bytes limits = 0 \<or> lim_collection_waiters limits = 0
      then None
      else Some \<lparr>d_limits = limits, d_stopping = False, d_queue = (\<lambda>_. []), d_jobs = [], d_next = 0,
                 d_collections = [], d_pending = 0, d_worker = (\<lambda>_. Idle)\<rparr>)"

definition collection_key :: "string \<Rightarrow> json \<Rightarrow> string" where
  "collection_key method params =
     (if method \<noteq> ''server_snapshot'' \<and> method \<noteq> ''server_logs'' \<and> method \<noteq> ''server_services'' then []
      else if \<not> is_object params \<or> length (members params) \<noteq> 1 then []
      else case find_string params ''serverId'' of
          None \<Rightarrow> []
        | Some i \<Rightarrow> if i = [] \<or> 256 < length i then [] else method @ '':'' @ i)"

definition route :: "string \<Rightarrow> dispatch_route" where
  "route method =
     (if starts_with ''__shell.'' method \<or> method = ''local_path_pick'' \<or>
         method = ''file_drag_out_start'' \<or> method = ''shell.open_url'' \<or> method = ''core_ping'' \<or>
         method = ''__events.subscribe'' \<or> method = ''__events.unsubscribe''
      then UiThread
      else if method = ''terminal_write'' \<or> method = ''terminal_resize'' \<or> method = ''terminal_close''
      then TerminalControl
      else BackgroundRoute)"

definition lane_of :: "dispatch_route \<Rightarrow> lane" where
  "lane_of r = (if r = TerminalControl then Terminal else Background)"

definition queue_limit :: "dispatch_limits \<Rightarrow> lane \<Rightarrow> nat" where
  "queue_limit limits ln =
     (case ln of Background \<Rightarrow> lim_background_queue limits | Terminal \<Rightarrow> lim_terminal_queue limits)"

text \<open>The critical section of \<^verbatim>\<open>submit\<close>, with the byte count already settled.  An address in
  the collection table always has its job (the entry owns it), so the missing case is never
  taken; the invariant of the dispatcher shows it.\<close>

definition admit :: "string \<Rightarrow> json \<Rightarrow> nat option \<Rightarrow> 64 word \<Rightarrow> dispatcher \<Rightarrow> submit_result \<times> dispatcher" where
  "admit method params complete request_bytes s =
     (let ln = lane_of (route method);
          collection = collection_key method params;
          limits = d_limits s
      in
      if d_stopping s then (Closed, s)
      else if lim_pending_bytes limits < request_bytes \<or>
              lim_pending_bytes limits - d_pending s < request_bytes then (Busy, s)
      else
        case map_of (d_collections s) collection of
          Some address \<Rightarrow>
            (case map_of (d_jobs s) address of
               None \<Rightarrow> (Busy, s)
             | Some j \<Rightarrow>
                 if lim_collection_waiters limits \<le> length (j_completions j) then (Busy, s)
                 else (Accepted,
                   s\<lparr>d_jobs := AList.update address
                        (j\<lparr>j_completions := j_completions j @ [complete], j_bytes := j_bytes j + request_bytes\<rparr>)
                        (d_jobs s),
                     d_pending := d_pending s + request_bytes\<rparr>))
        | None \<Rightarrow>
            if queue_limit limits ln \<le> length (d_queue s ln) then (Busy, s)
            else (Accepted,
              s\<lparr>d_jobs := AList.update (d_next s)
                   \<lparr>j_method = method, j_params = params, j_completions = [complete],
                    j_collection = collection, j_bytes = request_bytes\<rparr> (d_jobs s),
                d_next := Suc (d_next s),
                d_collections :=
                  (if collection = [] then d_collections s
                   else AList.update collection (d_next s) (d_collections s)),
                d_queue := (d_queue s)(ln := d_queue s ln @ [d_next s]),
                d_pending := d_pending s + request_bytes\<rparr>))"

text \<open>\<open>dump\<close> is \<^verbatim>\<open>nlohmann::json::dump\<close>: \<^term>\<open>None\<close> when it throws.\<close>

definition submit ::
    "(json \<Rightarrow> string option) \<Rightarrow> string \<Rightarrow> json \<Rightarrow> nat option \<Rightarrow> 64 word \<Rightarrow> dispatcher \<Rightarrow>
     submit_result \<times> dispatcher" where
  "submit dump method params complete request_bytes s =
     (if route method = UiThread then (RequiresUiThread, s)
      else if request_bytes = 0 then
        case dump params of
          None \<Rightarrow> (SubmitThrows, s)
        | Some serialized \<Rightarrow>
            admit method params complete (of_nat (length method) + of_nat (length serialized)) s
      else admit method params complete request_bytes s)"

text \<open>The worker loop: take a job or leave, settle its accounts, then deliver one completion at a time.\<close>

definition worker_take :: "lane \<Rightarrow> dispatcher \<Rightarrow> dispatcher option" where
  "worker_take ln s =
     (if d_worker s ln \<noteq> Idle then None
      else if d_stopping s then Some (s\<lparr>d_worker := (d_worker s)(ln := Exited)\<rparr>)
      else case d_queue s ln of
          [] \<Rightarrow> None
        | address # rest \<Rightarrow>
            Some (s\<lparr>d_queue := (d_queue s)(ln := rest), d_worker := (d_worker s)(ln := Invoking address)\<rparr>))"

datatype invoke_outcome = Returned ipc_reply | JsonException | OtherException

definition error_reply :: "string \<Rightarrow> string \<Rightarrow> ipc_reply" where
  "error_reply code message =
     \<lparr>reply_ok = False, reply_value = JObject [(''code'', JString code), (''message'', JString message)]\<rparr>"

definition internal_error :: ipc_reply where
  "internal_error = error_reply ''INTERNAL_ERROR'' ''Desktop IPC request failed''"

fun invoke_result :: "invoke_outcome \<Rightarrow> ipc_reply" where
  "invoke_result (Returned r) = r"
| "invoke_result JsonException = error_reply ''INVALID_REQUEST'' ''Desktop IPC request is invalid''"
| "invoke_result OtherException = internal_error"

definition worker_settle :: "lane \<Rightarrow> invoke_outcome \<Rightarrow> dispatcher \<Rightarrow> dispatcher option" where
  "worker_settle ln outcome s =
     (case d_worker s ln of
        Invoking address \<Rightarrow>
          if d_stopping s
          then Some (s\<lparr>d_worker := (d_worker s)(ln := Delivering [] (invoke_result outcome))\<rparr>)
          else (case map_of (d_jobs s) address of
             None \<Rightarrow> None
           | Some j \<Rightarrow>
               Some (s\<lparr>d_pending := d_pending s - j_bytes j,
                 d_collections :=
                   (if j_collection j = [] then d_collections s
                    else AList.delete (j_collection j) (d_collections s)),
                 d_jobs := AList.delete address (d_jobs s),
                 d_worker := (d_worker s)(ln := Delivering (j_completions j) (invoke_result outcome))\<rparr>))
      | _ \<Rightarrow> None)"

text \<open>One turn of the delivery loop: the token that is called, if any.\<close>

definition worker_deliver :: "lane \<Rightarrow> dispatcher \<Rightarrow> (nat option list \<times> dispatcher) option" where
  "worker_deliver ln s =
     (case d_worker s ln of
        Delivering completions result \<Rightarrow>
          (case completions of
             [] \<Rightarrow> Some ([], s\<lparr>d_worker := (d_worker s)(ln := Idle)\<rparr>)
           | c # rest \<Rightarrow>
               if d_stopping s then Some ([], s\<lparr>d_worker := (d_worker s)(ln := Idle)\<rparr>)
               else Some ([c], s\<lparr>d_worker := (d_worker s)(ln := Delivering rest result)\<rparr>))
      | _ \<Rightarrow> None)"

definition close_dispatcher :: "dispatcher \<Rightarrow> dispatcher" where
  "close_dispatcher s =
     s\<lparr>d_stopping := True,
       d_jobs := map (\<lambda>(address, j).
         (address, if address \<in> snd ` set (d_collections s) then j\<lparr>j_completions := []\<rparr> else j)) (d_jobs s),
       d_collections := [], d_queue := (\<lambda>_. []), d_pending := 0\<rparr>"

subsection \<open>The reply target of a window\<close>

text \<open>Callbacks already posted to the UI thread; closing the target makes each of them a no-op.\<close>

record reply_target =
  rt_alive :: bool
  rt_posted :: "(string \<times> bool \<times> string) list"
  rt_delivered :: "(string \<times> bool \<times> string) list"

definition invalid_response :: string where
  "invalid_response = ''{\"code\":\"INTERNAL_ERROR\",\"message\":\"Desktop IPC response is invalid\"}''"

text \<open>\<open>posts\<close> is the answer of the window's \<^verbatim>\<open>post\<close>: \<^term>\<open>None\<close> when it throws.\<close>

definition complete_reply ::
    "(json \<Rightarrow> string option) \<Rightarrow> bool option \<Rightarrow> string \<Rightarrow> ipc_reply \<Rightarrow> reply_target \<Rightarrow> bool \<times> reply_target" where
  "complete_reply dump posts i reply t =
     (let (ok, serialized) = (case dump (reply_value reply) of
            Some d \<Rightarrow> (reply_ok reply, d) | None \<Rightarrow> (False, invalid_response))
      in if \<not> rt_alive t then (False, t)
         else case posts of
             None \<Rightarrow> (False, t)
           | Some False \<Rightarrow> (False, t)
           | Some True \<Rightarrow> (True, t\<lparr>rt_posted := rt_posted t @ [(i, ok, serialized)]\<rparr>))"

definition run_posted :: "reply_target \<Rightarrow> reply_target" where
  "run_posted t =
     (case rt_posted t of
        [] \<Rightarrow> t
      | task # rest \<Rightarrow>
          t\<lparr>rt_posted := rest, rt_delivered := (if rt_alive t then rt_delivered t @ [task] else rt_delivered t)\<rparr>)"

definition close_target :: "reply_target \<Rightarrow> reply_target" where
  "close_target t = t\<lparr>rt_alive := False\<rparr>"

end
