(* ===== verification/DispatcherProps.thy ===== *)
theory DispatcherProps
  imports Dispatcher
begin

text \<open>
  The dispatcher as a machine of its critical sections: the byte budget is exact and never
  wraps, queues and fan-out stay within their limits, every accepted completion is delivered
  once or still waiting until the dispatcher is closed, and only identical requests share a
  result.  A window's reply target delivers nothing after it is closed.
\<close>

subsection \<open>Tables as multisets\<close>

lemma delete_absent: "k \<notin> fst ` set t \<Longrightarrow> AList.delete k t = t"
  by (force simp: AList.delete_eq intro!: filter_True)

lemma mset_delete:
  "distinct_keys t \<Longrightarrow> map_of t k = Some v \<Longrightarrow> mset t = add_mset (k, v) (mset (AList.delete k t))"
proof (induction t)
  case (Cons kv t)
  show ?case
  proof (cases "fst kv = k")
    case True
    with Cons.prems have "k \<notin> fst ` set t" by (auto simp: distinct_keys_def)
    then have "AList.delete k t = t" by (rule delete_absent)
    with True Cons.prems show ?thesis by (cases kv) simp
  next
    case False
    with Cons show ?thesis by (cases kv) (auto simp: distinct_keys_def)
  qed
qed simp

lemma mset_update_new: "map_of t k = None \<Longrightarrow> mset (AList.update k v t) = add_mset (k, v) (mset t)"
  by (induction t) auto

lemma mset_update_old:
  "distinct_keys t \<Longrightarrow> map_of t k = Some w \<Longrightarrow>
   mset (AList.update k v t) = add_mset (k, v) (mset (AList.delete k t))"
proof (induction t)
  case (Cons kv t)
  show ?case
  proof (cases "fst kv = k")
    case True
    with Cons.prems have "k \<notin> fst ` set t" by (auto simp: distinct_keys_def)
    then have "AList.delete k t = t" by (rule delete_absent)
    with True show ?thesis by (cases kv) simp
  next
    case False
    with Cons show ?thesis by (cases kv) (auto simp: distinct_keys_def)
  qed
qed simp

subsection \<open>The invariant\<close>

fun invoking :: "worker \<Rightarrow> nat list" where
  "invoking (Invoking a) = [a]"
| "invoking _ = []"

fun delivering :: "worker \<Rightarrow> nat option list" where
  "delivering (Delivering cs r) = cs"
| "delivering _ = []"

text \<open>The addresses of the jobs that are queued or being invoked.\<close>

definition active :: "dispatcher \<Rightarrow> nat multiset" where
  "active s = mset (d_queue s Background) + mset (d_queue s Terminal) +
     mset (invoking (d_worker s Background)) + mset (invoking (d_worker s Terminal))"

definition total_bytes :: "(nat, job) table \<Rightarrow> nat" where
  "total_bytes t = (\<Sum>(a, j) \<in># mset t. unat (j_bytes j))"

definition job_ok :: "dispatch_limits \<Rightarrow> job \<Rightarrow> bool" where
  "job_ok limits j \<longleftrightarrow> 1 \<le> length (j_completions j) \<and>
     length (j_completions j) \<le> lim_collection_waiters limits \<and>
     j_collection j = collection_key (j_method j) (j_params j)"

definition open_ok :: "dispatcher \<Rightarrow> bool" where
  "open_ok s \<longleftrightarrow>
     distinct_keys (d_jobs s) \<and> (\<forall>a j. map_of (d_jobs s) a = Some j \<longrightarrow> a < d_next s \<and> job_ok (d_limits s) j) \<and>
     mset (map fst (d_jobs s)) = active s \<and>
     unat (d_pending s) = total_bytes (d_jobs s) \<and> d_pending s \<le> lim_pending_bytes (d_limits s) \<and>
     (\<forall>ln. length (d_queue s ln) \<le> queue_limit (d_limits s) ln) \<and>
     (\<forall>k a. map_of (d_collections s) k = Some a \<longleftrightarrow>
        k \<noteq> [] \<and> (\<exists>j. map_of (d_jobs s) a = Some j \<and> j_collection j = k))"

definition dispatcher_ok :: "dispatcher \<Rightarrow> bool" where
  "dispatcher_ok s \<longleftrightarrow> 1 \<le> lim_collection_waiters (d_limits s) \<and> (\<not> d_stopping s \<longrightarrow> open_ok s)"

lemma total_bytes_delete:
  "distinct_keys t \<Longrightarrow> map_of t a = Some j \<Longrightarrow>
   total_bytes t = unat (j_bytes j) + total_bytes (AList.delete a t)"
  by (simp add: total_bytes_def mset_delete)

lemma total_bytes_update_old:
  "distinct_keys t \<Longrightarrow> map_of t a = Some j \<Longrightarrow>
   total_bytes (AList.update a j' t) = unat (j_bytes j') + total_bytes (AList.delete a t)"
  by (simp add: total_bytes_def mset_update_old)

lemma total_bytes_update_new:
  "map_of t a = None \<Longrightarrow> total_bytes (AList.update a j t) = unat (j_bytes j) + total_bytes t"
  by (simp add: total_bytes_def mset_update_new)

lemma word_sum_bound:
  assumes "p \<le> l" "r \<le> l - (p :: 64 word)"
  shows "unat (p + r) = unat p + unat r \<and> p + r \<le> l"
proof -
  have "unat (l - p) = unat l - unat p" using assms(1) by (simp add: unat_sub)
  with assms have le: "unat p + unat r \<le> unat l" by (simp add: word_le_nat_alt)
  moreover have "unat l < 2 ^ LENGTH(64)" by (rule unsigned_less)
  ultimately have "unat p + unat r < 2 ^ 64" by simp
  then have "unat (p + r) = unat p + unat r" by (simp add: unat_word_ariths)
  with le show ?thesis by (simp add: word_le_nat_alt)
qed


subsection \<open>The steps\<close>

datatype dispatch_label =
    LSubmit string json "nat option" "64 word" submit_result
  | LTake lane
  | LSettle lane invoke_outcome
  | LDeliver lane "nat option list"
  | LClose

inductive dispatch_step ::
    "(json \<Rightarrow> string option) \<Rightarrow> dispatcher \<Rightarrow> dispatch_label \<Rightarrow> dispatcher \<Rightarrow> bool" for dump where
  step_submit: "submit dump m p c n s = (r, s') \<Longrightarrow> dispatch_step dump s (LSubmit m p c n r) s'"
| step_take: "worker_take ln s = Some s' \<Longrightarrow> dispatch_step dump s (LTake ln) s'"
| step_settle: "worker_settle ln outcome s = Some s' \<Longrightarrow> dispatch_step dump s (LSettle ln outcome) s'"
| step_deliver: "worker_deliver ln s = Some (cs, s') \<Longrightarrow> dispatch_step dump s (LDeliver ln cs) s'"
| step_close: "dispatch_step dump s LClose (close_dispatcher s)"

inductive_cases dispatch_submitE: "dispatch_step dump s (LSubmit m p c n r) s'"
inductive_cases dispatch_takeE: "dispatch_step dump s (LTake ln) s'"
inductive_cases dispatch_settleE: "dispatch_step dump s (LSettle ln outcome) s'"
inductive_cases dispatch_deliverE: "dispatch_step dump s (LDeliver ln cs) s'"
inductive_cases dispatch_closeE: "dispatch_step dump s LClose s'"

text \<open>The two ways a submission is admitted.\<close>

lemma admit_cases:
  assumes "admit m p c n s = (r, s')"
  obtains (refused) "s' = s" "r \<noteq> Accepted"
  | (joined) a j where "r = Accepted" "\<not> d_stopping s" "n \<le> lim_pending_bytes (d_limits s) - d_pending s"
      "map_of (d_collections s) (collection_key m p) = Some a" "map_of (d_jobs s) a = Some j"
      "length (j_completions j) < lim_collection_waiters (d_limits s)"
      "s' = s\<lparr>d_jobs := AList.update a (j\<lparr>j_completions := j_completions j @ [c], j_bytes := j_bytes j + n\<rparr>) (d_jobs s),
              d_pending := d_pending s + n\<rparr>"
  | (queued) "r = Accepted" "\<not> d_stopping s" "n \<le> lim_pending_bytes (d_limits s) - d_pending s"
      "map_of (d_collections s) (collection_key m p) = None"
      "length (d_queue s (lane_of (route m))) < queue_limit (d_limits s) (lane_of (route m))"
      "s' = s\<lparr>d_jobs := AList.update (d_next s) \<lparr>j_method = m, j_params = p, j_completions = [c],
                 j_collection = collection_key m p, j_bytes = n\<rparr> (d_jobs s),
              d_next := Suc (d_next s),
              d_collections := (if collection_key m p = [] then d_collections s
                 else AList.update (collection_key m p) (d_next s) (d_collections s)),
              d_queue := (d_queue s)(lane_of (route m) := d_queue s (lane_of (route m)) @ [d_next s]),
              d_pending := d_pending s + n\<rparr>"
proof (cases "r = Accepted")
  case True
  have guards: "\<not> d_stopping s" "n \<le> lim_pending_bytes (d_limits s) - d_pending s"
    using assms True by (auto simp: admit_def Let_def split: if_split_asm)
  show ?thesis
  proof (cases "map_of (d_collections s) (collection_key m p)")
    case None
    then show ?thesis
      using assms True guards by (intro queued) (auto simp: admit_def Let_def split: if_split_asm)
  next
    case (Some a)
    then obtain j where j: "map_of (d_jobs s) a = Some j"
      using assms True by (auto simp: admit_def Let_def split: if_split_asm option.split_asm)
    with Some show ?thesis
      using assms True guards by (intro joined [of a j]) (auto simp: admit_def Let_def split: if_split_asm)
  qed
next
  case False
  then show ?thesis
    using assms by (intro refused) (auto simp: admit_def Let_def split: if_split_asm option.split_asm)
qed

lemma submit_cases:
  assumes "submit dump m p c n s = (r, s')"
  obtains "s' = s" "r \<noteq> Accepted" | n' where "admit m p c n' s = (r, s')"
  using assms by (auto simp: submit_def split: if_split_asm option.split_asm)

lemma active_enqueue:
  "active (s\<lparr>d_queue := (d_queue s)(ln := d_queue s ln @ [a])\<rparr>) = add_mset a (active s)"
  by (cases ln) (simp_all add: active_def)

lemma collection_entry:
  assumes "open_ok s" "map_of (d_jobs s) a = Some j" "j_collection j \<noteq> []"
  shows "map_of (d_collections s) (j_collection j) = Some a"
  using assms unfolding open_ok_def by blast

lemma admit_ok:
  assumes "open_ok s" "1 \<le> lim_collection_waiters (d_limits s)" "admit m p c n s = (r, s')"
  shows "open_ok s'"
  using assms(3)
proof (cases rule: admit_cases)
  case refused
  then show ?thesis using assms(1) by simp
next
  case (joined a j)
  have s: "distinct_keys (d_jobs s)" "unat (d_pending s) = total_bytes (d_jobs s)"
    "d_pending s \<le> lim_pending_bytes (d_limits s)" "job_ok (d_limits s) j" "a < d_next s"
    using assms(1) joined(5) by (auto simp: open_ok_def)
  have sum: "unat (d_pending s + n) = unat (d_pending s) + unat n \<and> d_pending s + n \<le> lim_pending_bytes (d_limits s)"
    using s(3) joined(3) by (rule word_sum_bound)
  have split: "total_bytes (d_jobs s) = unat (j_bytes j) + total_bytes (AList.delete a (d_jobs s))"
    using s(1) joined(5) by (rule total_bytes_delete)
  have "unat (j_bytes j) + unat n < 2 ^ 64"
  proof -
    have "unat (d_pending s + n) < 2 ^ LENGTH(64)" by (rule unsigned_less)
    with sum s(2) split show ?thesis by simp
  qed
  then have bytes: "unat (j_bytes j + n) = unat (j_bytes j) + unat n" by (simp add: unat_word_ariths)
  have total: "total_bytes (d_jobs s') = unat (d_pending s')"
    using total_bytes_update_old [OF s(1) joined(5)] bytes sum s(2) split by (simp add: joined(7))
  have keys: "mset (map fst (d_jobs s')) = mset (map fst (d_jobs s))"
    using mset_update_old [OF s(1) joined(5)] mset_delete [OF s(1) joined(5)] by (simp add: joined(7))
  show ?thesis
    using assms(1) total keys sum joined(5,6) s(4)
    by (auto simp: open_ok_def joined(7) table_simps active_def job_ok_def)
next
  case queued
  let ?k = "collection_key m p"
  have fresh: "map_of (d_jobs s) (d_next s) = None"
    using assms(1) by (cases "map_of (d_jobs s) (d_next s)") (auto simp: open_ok_def)
  have s: "unat (d_pending s) = total_bytes (d_jobs s)" "d_pending s \<le> lim_pending_bytes (d_limits s)"
    "mset (map fst (d_jobs s)) = active s"
    using assms(1) by (auto simp: open_ok_def)
  have sum: "unat (d_pending s + n) = unat (d_pending s) + unat n \<and> d_pending s + n \<le> lim_pending_bytes (d_limits s)"
    using s(2) queued(3) by (rule word_sum_bound)
  have total: "total_bytes (d_jobs s') = unat (d_pending s')"
    using total_bytes_update_new [OF fresh] sum s(1) by (simp add: queued(6))
  have keys: "mset (map fst (d_jobs s')) = active s'"
    using mset_update_new [OF fresh] s(3) active_enqueue [of s "lane_of (route m)" "d_next s"]
    by (simp add: queued(6) active_def)
  have job: "job_ok (d_limits s) \<lparr>j_method = m, j_params = p, j_completions = [c],
      j_collection = ?k, j_bytes = n\<rparr>"
    using assms(2) by (simp add: job_ok_def)
  have unshared: "j_collection j \<noteq> ?k" if "map_of (d_jobs s) a = Some j" "?k \<noteq> []" for a j
    using collection_entry [OF assms(1) that(1)] that(2) queued(4) by auto
  show ?thesis
    using assms(1) total keys sum queued(4,5) fresh job
    by (auto simp: open_ok_def queued(6) table_simps less_Suc_eq dest: unshared)
qed


lemma active_take:
  "d_worker s ln = Idle \<Longrightarrow> d_queue s ln = a # rest \<Longrightarrow>
   active (s\<lparr>d_queue := (d_queue s)(ln := rest), d_worker := (d_worker s)(ln := Invoking a)\<rparr>) = active s"
  by (cases ln) (simp_all add: active_def)

lemma worker_take_ok:
  assumes "open_ok s" "\<not> d_stopping s" "worker_take ln s = Some s'"
  shows "open_ok s'"
proof -
  obtain a rest where q: "d_worker s ln = Idle" "d_queue s ln = a # rest"
    and s': "s' = s\<lparr>d_queue := (d_queue s)(ln := rest), d_worker := (d_worker s)(ln := Invoking a)\<rparr>"
    using assms(2,3) by (auto simp: worker_take_def split: if_split_asm list.split_asm)
  have "length rest \<le> queue_limit (d_limits s) ln"
    using assms(1) q(2) by (auto simp: open_ok_def dest!: spec [of _ ln])
  then show ?thesis
    using assms(1) active_take [OF q] by (auto simp: open_ok_def s')
qed

lemma active_settle:
  "d_worker s ln = Invoking a \<Longrightarrow>
   active s = add_mset a (active (s\<lparr>d_worker := (d_worker s)(ln := Delivering cs r)\<rparr>))"
  by (cases ln) (simp_all add: active_def)

lemma worker_settle_cases:
  assumes "worker_settle ln outcome s = Some s'" "\<not> d_stopping s"
  obtains a j where "d_worker s ln = Invoking a" "map_of (d_jobs s) a = Some j"
    "s' = s\<lparr>d_pending := d_pending s - j_bytes j,
            d_collections := (if j_collection j = [] then d_collections s
              else AList.delete (j_collection j) (d_collections s)),
            d_jobs := AList.delete a (d_jobs s),
            d_worker := (d_worker s)(ln := Delivering (j_completions j) (invoke_result outcome))\<rparr>"
  using assms by (auto simp: worker_settle_def split: worker.split_asm option.split_asm)

text \<open>Two jobs never share a collection key.\<close>

lemma collection_unique:
  assumes "open_ok s" "map_of (d_jobs s) a = Some j" "map_of (d_jobs s) b = Some i"
    "j_collection j = j_collection i" "j_collection j \<noteq> []"
  shows "a = b"
proof -
  have "map_of (d_collections s) (j_collection j) = Some a" "map_of (d_collections s) (j_collection j) = Some b"
    using collection_entry [OF assms(1,2)] collection_entry [OF assms(1,3)] assms(4,5) by simp_all
  then show ?thesis by simp
qed

lemma worker_settle_ok:
  assumes "open_ok s" "\<not> d_stopping s" "worker_settle ln outcome s = Some s'"
  shows "open_ok s'"
  using assms(3,2)
proof (cases rule: worker_settle_cases)
  case (1 a j)
  have s: "distinct_keys (d_jobs s)" "unat (d_pending s) = total_bytes (d_jobs s)"
    "d_pending s \<le> lim_pending_bytes (d_limits s)" "mset (map fst (d_jobs s)) = active s"
    using assms(1) by (auto simp: open_ok_def)
  have split: "total_bytes (d_jobs s) = unat (j_bytes j) + total_bytes (AList.delete a (d_jobs s))"
    using s(1) 1(2) by (rule total_bytes_delete)
  then have "j_bytes j \<le> d_pending s" using s(2) by (simp add: word_le_nat_alt)
  then have sub: "unat (d_pending s - j_bytes j) = unat (d_pending s) - unat (j_bytes j)" by (simp add: unat_sub)
  have total: "unat (d_pending s') = total_bytes (d_jobs s')"
    using sub split s(2) by (simp add: 1(3))
  have bound: "d_pending s' \<le> lim_pending_bytes (d_limits s)"
    using sub s(3) by (simp add: 1(3) word_le_nat_alt)
  have keys: "mset (map fst (d_jobs s')) = active s'"
  proof -
    have "active s = add_mset a (active s')"
      using active_settle [OF 1(1), of "j_completions j" "invoke_result outcome"] by (simp add: 1(3) active_def)
    with mset_delete [OF s(1) 1(2)] s(4) show ?thesis by (simp add: 1(3))
  qed
  have collections: "map_of (d_collections s') k = Some b \<longleftrightarrow>
      k \<noteq> [] \<and> (\<exists>i. map_of (d_jobs s') b = Some i \<and> j_collection i = k)" for k b
  proof -
    have base: "map_of (d_collections s) k = Some b \<longleftrightarrow>
        k \<noteq> [] \<and> (\<exists>i. map_of (d_jobs s) b = Some i \<and> j_collection i = k)"
      using assms(1) unfolding open_ok_def by blast
    have jobs: "map_of (d_jobs s') b = (if b = a then None else map_of (d_jobs s) b)"
      by (simp add: 1(3) map_of_delete)
    have removed: "map_of (d_collections s') k =
        (if k = j_collection j \<and> k \<noteq> [] then None else map_of (d_collections s) k)"
      by (simp add: 1(3) map_of_delete)
    have unique: "b = a" if "map_of (d_jobs s) b = Some i" "j_collection i = j_collection j" "j_collection j \<noteq> []" for i
      using collection_unique [OF assms(1) that(1) 1(2)] that by simp
    show ?thesis
    proof (cases "k = j_collection j \<and> k \<noteq> []")
      case True
      then have "map_of (d_collections s') k = None" unfolding removed by (rule if_P)
      with True unique show ?thesis by (auto simp: jobs)
    next
      case False
      then have "map_of (d_collections s') k = map_of (d_collections s) k" unfolding removed by (rule if_not_P)
      with False 1(2) base show ?thesis by (auto simp: jobs)
    qed
  qed
  have jobs: "map_of (d_jobs s') b = Some i \<Longrightarrow> b < d_next s' \<and> job_ok (d_limits s') i" for b i
    using assms(1) by (auto simp: 1(3) map_of_delete open_ok_def split: if_split_asm)
  have "distinct_keys (d_jobs s')" "d_queue s' = d_queue s" "d_limits s' = d_limits s"
    using s(1) by (simp_all add: 1(3) distinct_keys_delete)
  moreover have "\<forall>ln. length (d_queue s ln) \<le> queue_limit (d_limits s) ln"
    using assms(1) by (simp add: open_ok_def)
  ultimately show ?thesis
    unfolding open_ok_def using total bound keys collections jobs by simp
qed

lemma worker_deliver_ok:
  assumes "worker_deliver ln s = Some (cs, s')"
  shows "open_ok s' = open_ok s" "d_limits s' = d_limits s" "d_stopping s' = d_stopping s"
proof -
  obtain w where s': "s' = s\<lparr>d_worker := (d_worker s)(ln := w)\<rparr>" and w: "invoking w = []"
    and now: "invoking (d_worker s ln) = []"
    using assms by (auto simp: worker_deliver_def split: worker.split_asm list.split_asm if_split_asm)
  have "active s' = active s" using w now by (cases ln) (simp_all add: s' active_def)
  then show "open_ok s' = open_ok s" "d_limits s' = d_limits s" "d_stopping s' = d_stopping s"
    by (simp_all add: open_ok_def s')
qed

lemma admit_limits: "admit m p c n s = (r, s') \<Longrightarrow> d_limits s' = d_limits s \<and> d_stopping s' = d_stopping s"
  by (erule admit_cases) simp_all

interpretation dispatch: machine "dispatch_step dump" dispatcher_ok
proof unfold_locales
  fix s l s'
  assume ok: "dispatcher_ok s" and "dispatch_step dump s l s'"
  from this(2) show "dispatcher_ok s'"
  proof cases
    case (step_submit m p c n r)
    from step_submit(2) show ?thesis
    proof (cases rule: submit_cases)
      case (2 n')
      then show ?thesis using ok admit_limits [OF 2] admit_ok [OF _ _ 2] by (auto simp: dispatcher_ok_def)
    qed (use ok in simp)
  next
    case (step_take ln)
    then have "d_limits s' = d_limits s \<and> d_stopping s' = d_stopping s"
      by (auto simp: worker_take_def split: if_split_asm list.split_asm)
    then show ?thesis using ok worker_take_ok [OF _ _ step_take(2)] by (auto simp: dispatcher_ok_def)
  next
    case (step_settle ln outcome)
    then have "d_limits s' = d_limits s \<and> d_stopping s' = d_stopping s"
      by (auto simp: worker_settle_def split: worker.split_asm if_split_asm option.split_asm)
    then show ?thesis using ok worker_settle_ok [OF _ _ step_settle(2)] by (auto simp: dispatcher_ok_def)
  next
    case (step_deliver ln cs)
    then show ?thesis using ok worker_deliver_ok [OF step_deliver(2)] by (simp add: dispatcher_ok_def)
  next
    case step_close
    then show ?thesis using ok by (simp add: dispatcher_ok_def close_dispatcher_def)
  qed
qed

lemma new_dispatcher_ok: "new_dispatcher limits = Some s \<Longrightarrow> dispatcher_ok s"
  by (auto simp: new_dispatcher_def dispatcher_ok_def open_ok_def active_def total_bytes_def
      Suc_le_eq split: if_split_asm)


subsection \<open>Sharing\<close>

lemma collection_key_shape:
  assumes "collection_key m p \<noteq> []"
  obtains i where "m \<in> {''server_snapshot'', ''server_logs'', ''server_services''}"
    "p = JObject [(''serverId'', JString i)]" "collection_key m p = m @ '':'' @ i"
proof -
  have m: "m \<in> {''server_snapshot'', ''server_logs'', ''server_services''}"
    and p: "is_object p" "length (members p) = 1"
    using assms by (auto simp: collection_key_def split: if_split_asm)
  obtain i where i: "find_string p ''serverId'' = Some i"
    and k: "collection_key m p = m @ '':'' @ i"
    using assms m p by (auto simp: collection_key_def split: if_split_asm option.split_asm)
  obtain kv where kv: "p = JObject [kv]"
    using p by (cases p) (auto simp: length_Suc_conv)
  with i have "p = JObject [(''serverId'', JString i)]"
    by (cases kv) (auto simp: find_string_Some split: if_split_asm)
  with m k show ?thesis by (intro that)
qed

lemma append_colon_inject:
  assumes "m @ d # i = m' @ d # i'" "d \<notin> set m" "d \<notin> set m'"
  shows "m = m' \<and> i = i'"
proof -
  have "length m = length m'"
    using arg_cong [OF assms(1), of "find_char d"] assms(2,3) by (simp add: find_char_append)
  with assms(1) show ?thesis by simp
qed

lemma collection_key_inject:
  assumes "collection_key m p = collection_key m' p'" "collection_key m p \<noteq> []"
  shows "m = m' \<and> p = p'"
proof -
  obtain i where i: "m \<in> {''server_snapshot'', ''server_logs'', ''server_services''}"
    "p = JObject [(''serverId'', JString i)]" "collection_key m p = m @ '':'' @ i"
    using assms(2) by (rule collection_key_shape)
  obtain i' where i': "m' \<in> {''server_snapshot'', ''server_logs'', ''server_services''}"
    "p' = JObject [(''serverId'', JString i')]" "collection_key m' p' = m' @ '':'' @ i'"
    using assms by (metis collection_key_shape)
  have "CHR '':'' \<notin> set m" "CHR '':'' \<notin> set m'" using i(1) i'(1) by auto
  with assms(1) i(3) i'(3) have "m = m' \<and> i = i'" by (intro append_colon_inject [of m "CHR '':''"]) simp_all
  with i(2) i'(2) show ?thesis by simp
qed

subsection \<open>Accounting for every completion\<close>

fun accepted_tokens :: "dispatch_label \<Rightarrow> nat option multiset" where
  "accepted_tokens (LSubmit m p c n Accepted) = {#c#}"
| "accepted_tokens _ = {#}"

fun delivered_tokens :: "dispatch_label \<Rightarrow> nat option multiset" where
  "delivered_tokens (LDeliver ln cs) = mset cs"
| "delivered_tokens _ = {#}"

definition all_accepted :: "dispatch_label list \<Rightarrow> nat option multiset" where
  "all_accepted h = (\<Sum>l\<leftarrow>h. accepted_tokens l)"

definition all_delivered :: "dispatch_label list \<Rightarrow> nat option multiset" where
  "all_delivered h = (\<Sum>l\<leftarrow>h. delivered_tokens l)"

definition job_waiting :: "(nat, job) table \<Rightarrow> nat option multiset" where
  "job_waiting t = (\<Sum>(a, j) \<in># mset t. mset (j_completions j))"

definition waiting :: "dispatcher \<Rightarrow> nat option multiset" where
  "waiting s = job_waiting (d_jobs s) + mset (delivering (d_worker s Background)) +
     mset (delivering (d_worker s Terminal))"

definition submitted_as :: "dispatch_label list \<Rightarrow> dispatcher \<Rightarrow> bool" where
  "submitted_as h s \<longleftrightarrow> (\<forall>a j c. map_of (d_jobs s) a = Some j \<longrightarrow> c \<in> set (j_completions j) \<longrightarrow>
     (\<exists>n. LSubmit (j_method j) (j_params j) c n Accepted \<in> set h))"

definition dispatch_history :: "dispatch_label list \<Rightarrow> dispatcher \<Rightarrow> bool" where
  "dispatch_history h s \<longleftrightarrow> dispatcher_ok s \<and> submitted_as h s \<and>
     all_delivered h + waiting s \<subseteq># all_accepted h \<and>
     (\<not> d_stopping s \<longrightarrow> all_accepted h = all_delivered h + waiting s)"

lemma all_snoc [simp]:
  "all_accepted (h @ [l]) = all_accepted h + accepted_tokens l"
  "all_delivered (h @ [l]) = all_delivered h + delivered_tokens l"
  by (simp_all add: all_accepted_def all_delivered_def)

lemma all_Nil [simp]: "all_accepted [] = {#}" "all_delivered [] = {#}"
  by (simp_all add: all_accepted_def all_delivered_def)

lemma admit_waiting:
  assumes "admit m p c n s = (r, s')" "dispatcher_ok s"
  shows "waiting s' = waiting s + accepted_tokens (LSubmit m p c n r)"
  using assms(1)
proof (cases rule: admit_cases)
  case refused
  then show ?thesis by (cases r) simp_all
next
  case (joined a j)
  have dk: "distinct_keys (d_jobs s)" using assms(2) joined(2) by (simp add: dispatcher_ok_def open_ok_def)
  show ?thesis
    using mset_update_old [OF dk joined(5)] mset_delete [OF dk joined(5)] joined(1)
    by (simp add: waiting_def job_waiting_def joined(7))
next
  case queued
  have fresh: "map_of (d_jobs s) (d_next s) = None"
    using assms(2) queued(2)
    by (cases "map_of (d_jobs s) (d_next s)") (auto simp: dispatcher_ok_def open_ok_def)
  show ?thesis
    using mset_update_new [OF fresh] queued(1) by (simp add: waiting_def job_waiting_def queued(6))
qed

lemma admit_submitted:
  assumes "admit m p c n s = (r, s')" "dispatcher_ok s" "submitted_as h s"
  shows "submitted_as (h @ [LSubmit m p c n0 r]) s'"
  using assms(1)
proof (cases rule: admit_cases)
  case refused
  then show ?thesis using assms(3) by (fastforce simp: submitted_as_def)
next
  case (joined a j)
  have "open_ok s" using assms(2) joined(2) by (simp add: dispatcher_ok_def)
  then have coll: "collection_key m p \<noteq> []" "j_collection j = collection_key m p"
    and jok: "job_ok (d_limits s) j"
    using joined(4,5) unfolding open_ok_def by (metis option.inject, metis option.inject, blast)
  have "collection_key (j_method j) (j_params j) = collection_key m p"
    using coll(2) jok by (simp add: job_ok_def)
  then have same: "m = j_method j \<and> p = j_params j" using coll(1) collection_key_inject by metis
  show ?thesis
    using assms(3) joined(1,5) same
    unfolding submitted_as_def by (auto simp: joined(7) map_of_update split: if_split_asm) (metis+)
next
  case queued
  then show ?thesis
    using assms(3) unfolding submitted_as_def by (auto simp: queued(6) map_of_update split: if_split_asm) (metis+)
qed


lemma submitted_mono: "submitted_as h s \<Longrightarrow> submitted_as (h @ [l]) s"
  unfolding submitted_as_def by (metis Un_iff set_append)

lemma submitted_subset:
  assumes "submitted_as h s" "\<And>a j. map_of (d_jobs s') a = Some j \<Longrightarrow>
    \<exists>i. map_of (d_jobs s) a = Some i \<and> j_method j = j_method i \<and> j_params j = j_params i \<and>
        set (j_completions j) \<subseteq> set (j_completions i)"
  shows "submitted_as (h @ [l]) s'"
proof -
  have "\<exists>n. LSubmit (j_method j) (j_params j) c n Accepted \<in> set (h @ [l])"
    if j: "map_of (d_jobs s') a = Some j" "c \<in> set (j_completions j)" for a j c
  proof -
    obtain i where i: "map_of (d_jobs s) a = Some i" "j_method j = j_method i" "j_params j = j_params i"
      "set (j_completions j) \<subseteq> set (j_completions i)"
      using assms(2) [OF j(1)] by blast
    have "\<exists>n. LSubmit (j_method i) (j_params i) c n Accepted \<in> set h"
      using assms(1) i(1,4) j(2) unfolding submitted_as_def by blast
    with i(2,3) show ?thesis by auto
  qed
  then show ?thesis unfolding submitted_as_def by blast
qed

lemma take_history:
  assumes "worker_take ln s = Some s'"
  shows "waiting s' = waiting s \<and> d_jobs s' = d_jobs s \<and> d_stopping s' = d_stopping s"
proof -
  have "d_worker s ln = Idle" using assms by (auto simp: worker_take_def split: if_split_asm)
  with assms show ?thesis
    by (cases ln) (auto simp: worker_take_def waiting_def split: if_split_asm list.split_asm)
qed

lemma settle_history:
  assumes "worker_settle ln outcome s = Some s'" "dispatcher_ok s"
  shows "waiting s' = waiting s \<and> d_stopping s' = d_stopping s \<and>
    (\<forall>a j. map_of (d_jobs s') a = Some j \<longrightarrow> map_of (d_jobs s) a = Some j)"
proof (cases "d_stopping s")
  case True
  then obtain a where "d_worker s ln = Invoking a"
    "s' = s\<lparr>d_worker := (d_worker s)(ln := Delivering [] (invoke_result outcome))\<rparr>"
    using assms(1) by (auto simp: worker_settle_def split: worker.split_asm)
  then show ?thesis by (cases ln) (simp_all add: waiting_def)
next
  case False
  from assms(1) False show ?thesis
  proof (cases rule: worker_settle_cases)
    case (1 a j)
    have dk: "distinct_keys (d_jobs s)" using assms(2) False by (simp add: dispatcher_ok_def open_ok_def)
    have "job_waiting (d_jobs s) = mset (j_completions j) + job_waiting (AList.delete a (d_jobs s))"
      using mset_delete [OF dk 1(2)] by (simp add: job_waiting_def)
    then have "waiting s' = waiting s"
      using 1(1) by (cases ln) (simp_all add: waiting_def 1(3))
    then show ?thesis by (simp add: 1(3) map_of_delete)
  qed
qed

lemma deliver_history:
  assumes "worker_deliver ln s = Some (cs, s')"
  shows "d_jobs s' = d_jobs s \<and> d_stopping s' = d_stopping s \<and> mset cs + waiting s' \<subseteq># waiting s \<and>
    (\<not> d_stopping s \<longrightarrow> waiting s = mset cs + waiting s')"
proof -
  obtain w where s': "s' = s\<lparr>d_worker := (d_worker s)(ln := w)\<rparr>"
    and sub: "mset cs + mset (delivering w) \<subseteq># mset (delivering (d_worker s ln))"
    and eq: "\<not> d_stopping s \<Longrightarrow> mset (delivering (d_worker s ln)) = mset cs + mset (delivering w)"
    using assms by (auto simp: worker_deliver_def split: worker.split_asm list.split_asm if_split_asm)
  show ?thesis using sub eq by (cases ln) (auto simp: s' waiting_def ac_simps)
qed

lemma close_jobs:
  "map_of (d_jobs (close_dispatcher s)) a =
     map_option (\<lambda>j. if a \<in> snd ` set (d_collections s) then j\<lparr>j_completions := []\<rparr> else j) (map_of (d_jobs s) a)"
proof -
  have "map_of (map (\<lambda>(a, j). (a, f a j)) t) a = map_option (f a) (map_of t a)"
    for f :: "nat \<Rightarrow> job \<Rightarrow> job" and t a by (induction t) auto
  then show ?thesis by (simp add: close_dispatcher_def)
qed

lemma close_waiting: "waiting (close_dispatcher s) \<subseteq># waiting s"
proof -
  have "job_waiting (map (\<lambda>(a, j). (a, if P a then j\<lparr>j_completions := []\<rparr> else j)) t) \<subseteq># job_waiting t"
    for P and t :: "(nat, job) table"
    by (induction t) (auto simp: job_waiting_def intro: subset_mset.add_mono subset_mset.add_increasing)
  then show ?thesis by (simp add: waiting_def close_dispatcher_def)
qed


interpretation dispatch_log: traced_machine "dispatch_step dump" dispatch_history
proof unfold_locales
  fix h s l s'
  assume hist: "dispatch_history h s" and step: "dispatch_step dump s l s'"
  have ok: "dispatcher_ok s" and sub: "submitted_as h s"
    and le: "all_delivered h + waiting s \<subseteq># all_accepted h"
    and eq: "\<not> d_stopping s \<Longrightarrow> all_accepted h = all_delivered h + waiting s"
    using hist by (auto simp: dispatch_history_def)
  have ok': "dispatcher_ok s'" using ok step by (rule dispatch.inv_step)
  have "submitted_as (h @ [l]) s' \<and> all_delivered (h @ [l]) + waiting s' \<subseteq># all_accepted (h @ [l]) \<and>
      (\<not> d_stopping s' \<longrightarrow> all_accepted (h @ [l]) = all_delivered (h @ [l]) + waiting s')"
    using step
  proof cases
    case (step_submit m p c n r)
    from step_submit(2) show ?thesis
    proof (cases rule: submit_cases)
      case 1
      then have "accepted_tokens l = {#}" by (cases r) (simp_all add: step_submit(1))
      with 1 le eq sub show ?thesis by (simp add: step_submit(1) submitted_mono)
    next
      case (2 n')
      have w: "waiting s' = waiting s + accepted_tokens l"
        using admit_waiting [OF 2 ok] by (cases r) (simp_all add: step_submit(1))
      have "submitted_as (h @ [l]) s'"
        using admit_submitted [OF 2 ok sub] by (simp add: step_submit(1))
      with w le eq admit_limits [OF 2] show ?thesis
        by (auto simp: step_submit(1) add.assoc [symmetric] intro: subset_mset.add_right_mono)
    qed
  next
    case (step_take ln)
    then have "submitted_as (h @ [l]) s'"
      using take_history [OF step_take(2)] by (intro submitted_subset [OF sub]) auto
    with take_history [OF step_take(2)] le eq show ?thesis by (simp add: step_take(1))
  next
    case (step_settle ln outcome)
    have "submitted_as (h @ [l]) s'"
      using settle_history [OF step_settle(2) ok] by (intro submitted_subset [OF sub]) blast
    with settle_history [OF step_settle(2) ok] le eq show ?thesis by (simp add: step_settle(1))
  next
    case (step_deliver ln cs)
    note dh = deliver_history [OF step_deliver(2)]
    have "submitted_as (h @ [l]) s'" using dh by (intro submitted_subset [OF sub]) auto
    moreover have "all_delivered h + mset cs + waiting s' \<subseteq># all_accepted h"
      using dh le by (metis add.assoc subset_mset.add_left_mono subset_mset.order_trans)
    ultimately show ?thesis using dh eq by (simp add: step_deliver(1) add.assoc)
  next
    case step_close
    have "submitted_as (h @ [l]) s'"
      by (rule submitted_subset [OF sub]) (auto simp: step_close(2) close_jobs split: if_split_asm)
    moreover have "all_delivered h + waiting s' \<subseteq># all_accepted h"
      using close_waiting [of s] le step_close(2)
      by (metis subset_mset.add_left_mono subset_mset.order_trans)
    moreover have "d_stopping s'" by (simp add: step_close(2) close_dispatcher_def)
    ultimately show ?thesis by (simp add: step_close(1))
  qed
  with ok' show "dispatch_history (h @ [l]) s'" by (simp add: dispatch_history_def)
qed

lemma new_dispatcher_history: "new_dispatcher limits = Some s \<Longrightarrow> dispatch_history [] s"
  using new_dispatcher_ok [of limits s]
  by (auto simp: dispatch_history_def new_dispatcher_def submitted_as_def waiting_def job_waiting_def
      split: if_split_asm)

lemma dispatch_reachable:
  "new_dispatcher limits = Some s0 \<Longrightarrow> run (dispatch_step dump) s0 h s \<Longrightarrow> dispatch_history h s"
  using dispatch_log.run_hinv [of dump s0 h s "[]"] new_dispatcher_history by simp


subsection \<open>A concrete run\<close>

definition sample_dispatcher :: dispatcher where
  "sample_dispatcher = the (new_dispatcher default_limits)"

lemma sample_new: "new_dispatcher default_limits = Some sample_dispatcher"
  by (simp add: sample_dispatcher_def new_dispatcher_def default_limits_def)

definition sample_params :: json where
  "sample_params = JObject [(''serverId'', JString ''web'')]"

definition sample_admit :: "nat option \<Rightarrow> dispatcher \<Rightarrow> submit_result \<times> dispatcher" where
  "sample_admit c = submit (\<lambda>_. None) ''server_logs'' sample_params c 100"

definition sample_once :: dispatcher where "sample_once = snd (sample_admit (Some 1) sample_dispatcher)"

definition sample_shared :: dispatcher where "sample_shared = snd (sample_admit (Some 2) sample_once)"

lemmas dispatch_eval =
  sample_admit_def submit_def admit_def route_def lane_of_def queue_limit_def collection_key_def
  sample_params_def find_string_def default_limits_def starts_with_def new_dispatcher_def Let_def

lemma sample_once_eq:
  "sample_admit (Some 1) sample_dispatcher = (Accepted, sample_once)"
  "d_stopping sample_once = False" "d_limits sample_once = default_limits" "d_pending sample_once = 100"
  "d_collections sample_once = [(''server_logs:web'', 0)]"
  "d_jobs sample_once = [(0, \<lparr>j_method = ''server_logs'', j_params = sample_params,
     j_completions = [Some 1], j_collection = ''server_logs:web'', j_bytes = 100\<rparr>)]"
  by (simp_all add: sample_once_def sample_dispatcher_def dispatch_eval)

lemma sample_shared_eq:
  "sample_admit (Some 2) sample_once = (Accepted, sample_shared)"
  "d_jobs sample_shared = [(0, \<lparr>j_method = ''server_logs'', j_params = sample_params,
     j_completions = [Some 1, Some 2], j_collection = ''server_logs:web'', j_bytes = 200\<rparr>)]"
  "d_pending sample_shared = 200" "d_stopping sample_shared = False" "d_limits sample_shared = default_limits"
  by (simp_all add: sample_shared_def dispatch_eval sample_once_eq)

lemma sample_dispatch_run:
  "run (dispatch_step (\<lambda>_. None)) sample_dispatcher
     [LSubmit ''server_logs'' sample_params (Some 1) 100 Accepted,
      LSubmit ''server_logs'' sample_params (Some 2) 100 Accepted] sample_shared"
proof -
  have 1: "dispatch_step (\<lambda>_. None) sample_dispatcher
      (LSubmit ''server_logs'' sample_params (Some 1) 100 Accepted) sample_once"
    using sample_once_eq(1) by (intro step_submit) (simp add: sample_admit_def)
  have 2: "dispatch_step (\<lambda>_. None) sample_once
      (LSubmit ''server_logs'' sample_params (Some 2) 100 Accepted) sample_shared"
    using sample_shared_eq(1) by (intro step_submit) (simp add: sample_admit_def)
  show ?thesis
    by (rule run_Cons [where step = "dispatch_step (\<lambda>_. None)", OF _ 1],
        rule run_Cons [where step = "dispatch_step (\<lambda>_. None)", OF run_Nil 2])
qed

subsection \<open>Properties\<close>

text \<open>The byte budget is exact and never wraps: while the dispatcher is open, the pending byte count
  equals the sum over the queued and running jobs and is within the limit, each lane's queue is
  within its limit, and no job has more waiters than allowed.\<close>

theorem dispatcher_bounded:
  assumes "new_dispatcher limits = Some s0" "run (dispatch_step dump) s0 h s" "\<not> d_stopping s"
  shows "unat (d_pending s) = (\<Sum>(a, j) \<in># mset (d_jobs s). unat (j_bytes j)) \<and>
    d_pending s \<le> lim_pending_bytes (d_limits s) \<and>
    length (d_queue s Background) \<le> lim_background_queue (d_limits s) \<and>
    length (d_queue s Terminal) \<le> lim_terminal_queue (d_limits s) \<and>
    (\<forall>a j. map_of (d_jobs s) a = Some j \<longrightarrow> length (j_completions j) \<le> lim_collection_waiters (d_limits s))"
proof -
  have "dispatcher_ok s" using assms(2) new_dispatcher_ok [OF assms(1)] by (rule dispatch.run_inv)
  then have ok: "open_ok s" using assms(3) by (simp add: dispatcher_ok_def)
  then have "length (d_queue s Background) \<le> queue_limit (d_limits s) Background"
    "length (d_queue s Terminal) \<le> queue_limit (d_limits s) Terminal"
    by (simp_all add: open_ok_def)
  with ok show ?thesis by (auto simp: open_ok_def job_ok_def total_bytes_def queue_limit_def)
qed

theorem dispatcher_bounded_witness:
  "unat (d_pending sample_shared) = (\<Sum>(a, j) \<in># mset (d_jobs sample_shared). unat (j_bytes j)) \<and>
    d_pending sample_shared \<le> lim_pending_bytes (d_limits sample_shared)"
  using dispatcher_bounded [OF sample_new sample_dispatch_run] by (simp add: sample_shared_eq(4))

text \<open>C21: No reply is lost or duplicated: while the dispatcher is open, the accepted completions are
  exactly those already called plus those still waiting; after it is closed, no completion is
  called that was not accepted, and none twice.\<close>

theorem completions_accounted:
  assumes "new_dispatcher limits = Some s0" "run (dispatch_step dump) s0 h s"
  shows "all_delivered h + waiting s \<subseteq># all_accepted h \<and>
    (d_stopping s \<or> all_accepted h = all_delivered h + waiting s)"
  using dispatch_reachable [OF assms] by (auto simp: dispatch_history_def)

theorem completions_accounted_witness:
  "{#} + waiting sample_shared \<subseteq># {#Some 1, Some 2#} \<and> {#Some 1, Some 2#} = {#} + waiting sample_shared"
  using completions_accounted [OF sample_new sample_dispatch_run]
  by (simp add: sample_shared_eq(4) all_accepted_def all_delivered_def add_mset_commute)

text \<open>Only identical requests share a result: every completion that waits on a job was accepted for
  exactly the method and the parameters the job invokes.\<close>

theorem shared_only_when_identical:
  assumes "new_dispatcher limits = Some s0" "run (dispatch_step dump) s0 h s"
    "map_of (d_jobs s) a = Some j" "c \<in> set (j_completions j)"
  shows "\<exists>n. LSubmit (j_method j) (j_params j) c n Accepted \<in> set h"
  using dispatch_reachable [OF assms(1,2)] assms(3,4) unfolding dispatch_history_def submitted_as_def by blast

theorem shared_only_when_identical_witness:
  "\<exists>n. LSubmit ''server_logs'' sample_params (Some 2) n Accepted \<in>
     set [LSubmit ''server_logs'' sample_params (Some 1) 100 Accepted,
      LSubmit ''server_logs'' sample_params (Some 2) 100 Accepted]"
  using shared_only_when_identical [OF sample_new sample_dispatch_run, of 0 _ "Some 2"]
  by (simp add: sample_shared_eq(2))

text \<open>After a window's reply target is closed nothing more reaches it: no new reply is posted, and
  running any number of callbacks that were already posted delivers nothing.\<close>

theorem closed_target_silent:
  "fst (complete_reply dump posts i reply (close_target t)) = False \<and>
   rt_delivered ((run_posted ^^ n) (close_target t)) = rt_delivered t"
proof -
  have "rt_delivered ((run_posted ^^ n) t) = rt_delivered t \<and> \<not> rt_alive ((run_posted ^^ n) t)"
    if "\<not> rt_alive t" for t
    using that by (induction n) (auto simp: run_posted_def split: list.split)
  from this [of "close_target t"] show ?thesis
    by (simp add: close_target_def complete_reply_def split: option.split)
qed

end
