(* ===== verification/HostTrust.thy ===== *)
theory HostTrust
  imports Json Digits
begin

text \<open>
  Pinned host keys: the \<^verbatim>\<open>known_hosts\<close> file and its store
  (\<^verbatim>\<open>src/native/desktop_host/src/host_trust.cpp\<close>) and the router commands that probe a
  server, confirm the probed key with a one-time ticket, show a pin and forget it
  (\<^verbatim>\<open>src/native/desktop_host/src/ipc_router.cpp\<close>).  The file system is a set of faults the
  environment chooses (\<^verbatim>\<open>io_env\<close>) around one file; the database's endpoint lookup, the
  network probe, the random ticket and the clock are arguments.
\<close>

subsection \<open>The file format\<close>

datatype trust_error =
    MalformedLine string | CannotInspect | CannotRead | CannotCreateDirectory | CannotOpenTemporary
  | CannotWriteTemporary | CannotReplace

type_synonym pin_key = "string \<times> 16 word"

definition known_hosts_header :: string where
  "known_hosts_header =
     ''# yukinal known_hosts v1 '' @ [CHR 0xE2, CHR 0x80, CHR 0x94] @ '' do not hand-edit lightly'' @ [CHR 0x0A]"

definition is_absolute_port :: "string \<Rightarrow> 16 word option" where
  "is_absolute_port value =
     (if value = [] \<or> 5 < length value \<or> \<not> list_all ascii_digit value then None
      else if read_decimal value = 0 \<or> 65535 < read_decimal value then None
      else Some (of_nat (read_decimal value)))"

text \<open>\<^verbatim>\<open>split(begin)\<close>: the text up to the next colon, and what follows it.\<close>

definition split_colon :: "string \<Rightarrow> string \<times> string" where
  "split_colon s =
     (case find_char (CHR '':'') s of
        None \<Rightarrow> (s, [])
      | Some i \<Rightarrow> (take i s, drop (Suc i) s))"

definition parse_line :: "string \<Rightarrow> trust_error + pin_key \<times> string" where
  "parse_line line =
     (if \<not> starts_with ''v1:'' line then Inl (MalformedLine line)
      else
        let (host, after_version) = split_colon (drop 3 line);
            (port_value, fingerprint) = split_colon after_version
        in case is_absolute_port port_value of
            None \<Rightarrow> Inl (MalformedLine line)
          | Some port \<Rightarrow>
              if host = [] \<or> \<not> starts_with ''SHA256:'' fingerprint \<or> length fingerprint \<le> 7
              then Inl (MalformedLine line)
              else Inr ((host, port), fingerprint))"

text \<open>\<^verbatim>\<open>std::getline\<close> until the stream ends: a final newline does not open another line.\<close>

definition split_lines :: "string \<Rightarrow> string list" where
  "split_lines raw =
     (let parts = split_on (CHR 0x0A) raw in if last parts = [] then butlast parts else parts)"

fun load_lines :: "string list \<Rightarrow> (pin_key, string) table \<Rightarrow> trust_error + (pin_key, string) table" where
  "load_lines [] entries = Inr entries"
| "load_lines (candidate # rest) entries =
     (let line = trim_blank candidate in
      if line = [] \<or> hd line = CHR ''#'' then load_lines rest entries
      else case parse_line line of
          Inl e \<Rightarrow> Inl e
        | Inr (key, fingerprint) \<Rightarrow> load_lines rest (AList.update key fingerprint entries))"

definition parse_known_hosts :: "string \<Rightarrow> trust_error + (pin_key, string) table" where
  "parse_known_hosts raw = load_lines (split_lines raw) []"

definition render_entry :: "pin_key \<times> string \<Rightarrow> string" where
  "render_entry entry =
     (case entry of ((host, port), fingerprint) \<Rightarrow>
        ''v1:'' @ host @ '':'' @ decimal (unat port) @ '':'' @ fingerprint @ [CHR 0x0A])"

definition render_known_hosts :: "(pin_key, string) table \<Rightarrow> string" where
  "render_known_hosts entries = known_hosts_header @ concat (map render_entry entries)"

subsection \<open>The store\<close>

datatype rename_result = Renamed | Retryable | Fatal

record io_env =
  io_exists_error :: bool
  io_open_fails :: bool
  io_mkdir_fails :: bool
  io_temporary_open_fails :: bool
  io_temporary_write_fails :: bool
  io_rename :: "nat \<Rightarrow> rename_result"

text \<open>The rename is attempted up to eight times, while the failure is one that may pass.\<close>

function rename_attempts :: "(nat \<Rightarrow> rename_result) \<Rightarrow> nat \<Rightarrow> bool" where
  "rename_attempts renames attempt =
     (if 8 \<le> attempt then True
      else case renames attempt of
          Renamed \<Rightarrow> True
        | Fatal \<Rightarrow> False
        | Retryable \<Rightarrow> if attempt = 7 then False else rename_attempts renames (Suc attempt))"
  by auto
termination
  by (relation "measure (\<lambda>(renames, attempt). 8 - attempt)") auto

declare rename_attempts.simps [simp del]

text \<open>The file after the call: its old contents, or the new ones.\<close>

definition write_atomic :: "io_env \<Rightarrow> string \<Rightarrow> string option \<Rightarrow> (trust_error + unit) \<times> string option" where
  "write_atomic io contents file =
     (if io_mkdir_fails io then (Inl CannotCreateDirectory, file)
      else if io_temporary_open_fails io then (Inl CannotOpenTemporary, file)
      else if io_temporary_write_fails io then (Inl CannotWriteTemporary, file)
      else if rename_attempts (io_rename io) 0 then (Inr (), Some contents)
      else (Inl CannotReplace, file))"

record trust_store =
  ts_persistent :: bool
  ts_entries :: "(pin_key, string) table"

definition load_store :: "io_env \<Rightarrow> string option \<Rightarrow> trust_error + trust_store" where
  "load_store io file =
     (if io_exists_error io then Inl CannotInspect
      else case file of
          None \<Rightarrow> Inr \<lparr>ts_persistent = True, ts_entries = []\<rparr>
        | Some raw \<Rightarrow>
            if io_open_fails io then Inl CannotRead
            else res_bind (parse_known_hosts raw) (\<lambda>entries. Inr \<lparr>ts_persistent = True, ts_entries = entries\<rparr>))"

definition pinned_fingerprint :: "trust_store \<Rightarrow> string \<Rightarrow> 16 word \<Rightarrow> string option" where
  "pinned_fingerprint store host port = map_of (ts_entries store) (host, port)"

datatype host_key_comparison = Unpinned | Matches | KeyMismatch

definition check_key :: "trust_store \<Rightarrow> string \<Rightarrow> 16 word \<Rightarrow> string \<Rightarrow> host_key_comparison \<times> string option" where
  "check_key store host port presented =
     (case map_of (ts_entries store) (host, port) of
        None \<Rightarrow> (Unpinned, None)
      | Some fingerprint \<Rightarrow> (if fingerprint = presented then Matches else KeyMismatch, Some fingerprint))"

definition save_store :: "io_env \<Rightarrow> trust_store \<Rightarrow> string option \<Rightarrow> (trust_error + unit) \<times> string option" where
  "save_store io store file = write_atomic io (render_known_hosts (ts_entries store)) file"

text \<open>\<^verbatim>\<open>pin\<close> and \<^verbatim>\<open>forget\<close> undo their change to the table when the file could not be replaced.\<close>

definition pin ::
    "io_env \<Rightarrow> string \<Rightarrow> 16 word \<Rightarrow> string \<Rightarrow> trust_store \<times> string option \<Rightarrow>
     (trust_error + unit) \<times> trust_store \<times> string option" where
  "pin io host port fingerprint st =
     (let (store, file) = st;
          key = (host, port);
          old_value = map_of (ts_entries store) key;
          changed = store\<lparr>ts_entries := AList.update key fingerprint (ts_entries store)\<rparr>
      in if \<not> ts_persistent store then (Inr (), changed, file)
         else case save_store io changed file of
             (Inr _, file') \<Rightarrow> (Inr (), changed, file')
           | (Inl e, file') \<Rightarrow>
               (Inl e,
                (case old_value of
                   Some old \<Rightarrow> changed\<lparr>ts_entries := AList.update key old (ts_entries changed)\<rparr>
                 | None \<Rightarrow> changed\<lparr>ts_entries := AList.delete key (ts_entries changed)\<rparr>),
                file'))"

definition forget ::
    "io_env \<Rightarrow> string \<Rightarrow> 16 word \<Rightarrow> trust_store \<times> string option \<Rightarrow>
     (trust_error + bool) \<times> trust_store \<times> string option" where
  "forget io host port st =
     (let (store, file) = st; key = (host, port) in
      case map_of (ts_entries store) key of
        None \<Rightarrow> (Inr False, store, file)
      | Some fingerprint \<Rightarrow>
          let removed = store\<lparr>ts_entries := AList.delete key (ts_entries store)\<rparr> in
          if \<not> ts_persistent store then (Inr True, removed, file)
          else case save_store io removed file of
              (Inr _, file') \<Rightarrow> (Inr True, removed, file')
            | (Inl e, file') \<Rightarrow>
                (Inl e, removed\<lparr>ts_entries := AList.update key fingerprint (ts_entries removed)\<rparr>, file'))"


subsection \<open>The router's host-key commands\<close>

definition only_fields :: "json \<Rightarrow> string list \<Rightarrow> string list \<Rightarrow> bool" where
  "only_fields value allowed required \<longleftrightarrow> is_object value \<and>
     list_all (\<lambda>field. obj_find value field \<noteq> None) required \<and>
     list_all (\<lambda>(k, v). k \<in> set allowed) (members value)"

text \<open>\<^verbatim>\<open>std::isspace\<close> in the C locale.\<close>

definition ascii_space :: "char \<Rightarrow> bool" where
  "ascii_space c \<longleftrightarrow> c = CHR '' '' \<or> (9 \<le> byte c \<and> byte c \<le> 13)"

definition utf8_character_count :: "string \<Rightarrow> nat" where
  "utf8_character_count value = length (filter (\<lambda>c. (byte c AND 0xC0) \<noteq> 0x80) value)"

definition valid_request_text :: "json \<Rightarrow> string \<Rightarrow> nat \<Rightarrow> bool \<Rightarrow> string option" where
  "valid_request_text params key max_chars require_nonempty =
     (case find_string params key of
        None \<Rightarrow> None
      | Some value \<Rightarrow>
          let result = trim_by ascii_space value; count = utf8_character_count result in
          if (\<not> require_nonempty \<or> 0 < count) \<and> count \<le> max_chars then Some result else None)"

definition valid_server_id :: "string \<Rightarrow> bool" where
  "valid_server_id value \<longleftrightarrow> length value \<le> 256 \<and> starts_with ''srv_'' value \<and> 4 < length value \<and>
     list_all (\<lambda>c. ascii_lower c \<or> ascii_digit c) (drop 4 value)"

definition valid_host_key_fingerprint :: "string \<Rightarrow> bool" where
  "valid_host_key_fingerprint value \<longleftrightarrow> length value = 7 + 43 \<and> starts_with ''SHA256:'' value \<and>
     list_all (\<lambda>c. ascii_alnum c \<or> c = CHR ''+'' \<or> c = CHR ''/'') (drop 7 value)"

record probe_ticket =
  pt_server_id :: string
  pt_host :: string
  pt_port :: int
  pt_fingerprint :: string
  pt_expires_at :: int

text \<open>The part of the router these commands touch: the tickets and the file.\<close>

record trust_router =
  tr_tickets :: "(string, probe_ticket) table"
  tr_file :: "string option"

definition ticket_lifetime :: int where "ticket_lifetime = 300"

definition issue_probe_ticket ::
    "string \<Rightarrow> int \<Rightarrow> string \<Rightarrow> string \<Rightarrow> int \<Rightarrow> string \<Rightarrow> trust_router \<Rightarrow> trust_router" where
  "issue_probe_ticket ticket now server_id host port fingerprint r =
     r\<lparr>tr_tickets := AList.update ticket
        \<lparr>pt_server_id = server_id, pt_host = host, pt_port = port, pt_fingerprint = fingerprint,
         pt_expires_at = now + ticket_lifetime\<rparr>
        (purge_expired pt_expires_at now (tr_tickets r))\<rparr>"

datatype claim_error = TicketMissing | TicketExpired | EndpointChanged | FingerprintDiffers

definition claim_probe_ticket ::
    "string \<Rightarrow> int \<Rightarrow> string \<Rightarrow> string \<Rightarrow> int \<Rightarrow> string \<Rightarrow> trust_router \<Rightarrow> claim_error option \<times> trust_router" where
  "claim_probe_ticket ticket now server_id host port fingerprint r =
     (case map_of (tr_tickets r) ticket of
        None \<Rightarrow> (Some TicketMissing, r)
      | Some entry \<Rightarrow>
          let r' = r\<lparr>tr_tickets := AList.delete ticket (tr_tickets r)\<rparr> in
          if pt_expires_at entry \<le> now then (Some TicketExpired, r')
          else if pt_server_id entry \<noteq> server_id \<or> pt_host entry \<noteq> host \<or> pt_port entry \<noteq> port
          then (Some EndpointChanged, r')
          else if pt_fingerprint entry \<noteq> fingerprint then (Some FingerprintDiffers, r')
          else (None, r'))"

datatype failure_code =
    StorageUnavailable | InvalidParams | InvalidTicket claim_error | StorageError | NotFound
  | SshUnavailable | SshError | HostKeyMismatch

text \<open>\<open>EndpointFault\<close> is a database call that throws; the port is the stored integer.\<close>

datatype endpoint_lookup = EndpointFault | EndpointAbsent | Endpoint string int

datatype probe_outcome = ProbeThrows | ProbeFailed | Probed string

definition valid_endpoint :: "string \<Rightarrow> int \<Rightarrow> bool" where
  "valid_endpoint host port \<longleftrightarrow> host \<noteq> [] \<and> 1 \<le> port \<and> port \<le> 65535"

text \<open>The common prologue of \<^verbatim>\<open>server_host_key_probe\<close> and \<^verbatim>\<open>server_host_key_trust\<close>.\<close>

definition host_key_endpoint ::
    "bool \<Rightarrow> (string \<Rightarrow> endpoint_lookup) \<Rightarrow> string list \<Rightarrow> json \<Rightarrow> failure_code + string \<times> string \<times> int" where
  "host_key_endpoint available lookup names params =
     (if \<not> available then Inl StorageUnavailable
      else if \<not> only_fields params names names then Inl InvalidParams
      else case find_string params ''serverId'' of
          None \<Rightarrow> Inl InvalidParams
        | Some server_id \<Rightarrow>
            if \<not> valid_server_id server_id then Inl InvalidParams
            else case lookup server_id of
                EndpointFault \<Rightarrow> Inl StorageError
              | EndpointAbsent \<Rightarrow> Inl NotFound
              | Endpoint host port \<Rightarrow>
                  if \<not> valid_endpoint host port then Inl StorageError else Inr (server_id, host, port))"

datatype probe_reply =
    ProbeRefused failure_code
  | ProbeReply string string int string host_key_comparison "string option"

definition host_key_probe ::
    "io_env \<Rightarrow> bool \<Rightarrow> (string \<Rightarrow> endpoint_lookup) \<Rightarrow> probe_outcome \<Rightarrow> string \<Rightarrow> int \<Rightarrow> json \<Rightarrow> trust_router \<Rightarrow>
     probe_reply \<times> trust_router" where
  "host_key_probe io available lookup probe ticket now params r =
     (case host_key_endpoint available lookup [''serverId''] params of
        Inl e \<Rightarrow> (ProbeRefused e, r)
      | Inr (server_id, host, port) \<Rightarrow>
          (case probe of
             ProbeThrows \<Rightarrow> (ProbeRefused SshUnavailable, r)
           | ProbeFailed \<Rightarrow> (ProbeRefused SshError, r)
           | Probed fingerprint \<Rightarrow>
               if \<not> valid_host_key_fingerprint fingerprint then (ProbeRefused SshError, r)
               else case load_store io (tr_file r) of
                   Inl e \<Rightarrow> (ProbeRefused StorageError, r)
                 | Inr store \<Rightarrow>
                     let (comparison, pinned) = check_key store host (word_of_int port) fingerprint in
                     (ProbeReply ticket host port fingerprint comparison pinned,
                      issue_probe_ticket ticket now server_id host port fingerprint r)))"

datatype trust_reply = TrustRefused failure_code | Trusted string int string bool

definition host_key_trust ::
    "io_env \<Rightarrow> bool \<Rightarrow> (string \<Rightarrow> endpoint_lookup) \<Rightarrow> int \<Rightarrow> json \<Rightarrow> trust_router \<Rightarrow> trust_reply \<times> trust_router" where
  "host_key_trust io available lookup now params r =
     (case host_key_endpoint available lookup [''serverId'', ''probeTicket'', ''fingerprint''] params of
        Inl e \<Rightarrow> (TrustRefused e, r)
      | Inr (server_id, host, port) \<Rightarrow>
          (case (find_string params ''probeTicket'', find_string params ''fingerprint'') of
             (Some ticket, Some fingerprint) \<Rightarrow>
               if ticket = [] \<or> 256 < length ticket \<or> \<not> valid_host_key_fingerprint fingerprint
               then (TrustRefused InvalidParams, r)
               else (case claim_probe_ticket ticket now server_id host port fingerprint r of
                   (Some e, r') \<Rightarrow> (TrustRefused (InvalidTicket e), r')
                 | (None, r') \<Rightarrow>
                     (case load_store io (tr_file r') of
                        Inl e \<Rightarrow> (TrustRefused StorageError, r')
                      | Inr store \<Rightarrow>
                          (case pinned_fingerprint store host (word_of_int port) of
                             Some existing \<Rightarrow>
                               if existing \<noteq> fingerprint then (TrustRefused HostKeyMismatch, r')
                               else (Trusted host port fingerprint True, r')
                           | None \<Rightarrow>
                               (case pin io host (word_of_int port) fingerprint (store, tr_file r') of
                                  (Inl e, _, file') \<Rightarrow> (TrustRefused StorageError, r'\<lparr>tr_file := file'\<rparr>)
                                | (Inr _, _, file') \<Rightarrow>
                                    (Trusted host port fingerprint False, r'\<lparr>tr_file := file'\<rparr>)))))
           | _ \<Rightarrow> (TrustRefused InvalidParams, r)))"

text \<open>\<^verbatim>\<open>server_host_key_status\<close> and \<^verbatim>\<open>server_host_key_forget\<close>.\<close>

definition host_key_command_endpoint ::
    "bool \<Rightarrow> (string \<Rightarrow> endpoint_lookup) \<Rightarrow> json \<Rightarrow> failure_code + string \<times> int" where
  "host_key_command_endpoint available lookup params =
     (if \<not> available then Inl StorageUnavailable
      else if \<not> only_fields params [''serverId''] [''serverId''] then Inl InvalidParams
      else case valid_request_text params ''serverId'' 256 True of
          None \<Rightarrow> Inl InvalidParams
        | Some server_id \<Rightarrow>
            if \<not> valid_server_id server_id then Inl InvalidParams
            else case lookup server_id of
                EndpointFault \<Rightarrow> Inl StorageError
              | EndpointAbsent \<Rightarrow> Inl NotFound
              | Endpoint host port \<Rightarrow>
                  if \<not> valid_endpoint host port then Inl StorageError else Inr (host, port))"

definition host_key_status ::
    "io_env \<Rightarrow> bool \<Rightarrow> (string \<Rightarrow> endpoint_lookup) \<Rightarrow> json \<Rightarrow> trust_router \<Rightarrow>
     failure_code + string \<times> int \<times> string option" where
  "host_key_status io available lookup params r =
     res_bind (host_key_command_endpoint available lookup params) (\<lambda>(host, port).
       case load_store io (tr_file r) of
         Inl e \<Rightarrow> Inl StorageError
       | Inr store \<Rightarrow> Inr (host, port, pinned_fingerprint store host (word_of_int port)))"

definition host_key_forget ::
    "io_env \<Rightarrow> bool \<Rightarrow> (string \<Rightarrow> endpoint_lookup) \<Rightarrow> json \<Rightarrow> trust_router \<Rightarrow>
     (failure_code + string \<times> int \<times> bool) \<times> trust_router" where
  "host_key_forget io available lookup params r =
     (case host_key_command_endpoint available lookup params of
        Inl e \<Rightarrow> (Inl e, r)
      | Inr (host, port) \<Rightarrow>
          (case load_store io (tr_file r) of
             Inl e \<Rightarrow> (Inl StorageError, r)
           | Inr store \<Rightarrow>
               (case forget io host (word_of_int port) (store, tr_file r) of
                  (Inl e, _, file') \<Rightarrow> (Inl StorageError, r\<lparr>tr_file := file'\<rparr>)
                | (Inr gone, _, file') \<Rightarrow> (Inr (host, port, gone), r\<lparr>tr_file := file'\<rparr>))))"

end
