(* ===== verification/HostTrustProps.thy ===== *)
theory HostTrustProps
  imports HostTrust
begin

text \<open>
  What the pin store promises: a saved file reads back as the pins that were saved when every
  host is free of colons, one pinned host with a colon makes the whole file unreadable, a failed
  save changes neither file nor table, and a key is pinned only after a live probe of the same
  endpoint, once per ticket and never over a different pin.
\<close>

subsection \<open>One line\<close>

definition blank_end :: "string \<Rightarrow> bool" where
  "blank_end s \<longleftrightarrow> s \<noteq> [] \<and> blank_char (last s)"

text \<open>Entries a line can carry: no newline, a fingerprint that trimming does not touch.\<close>

definition writable_entry :: "pin_key \<times> string \<Rightarrow> bool" where
  "writable_entry entry \<longleftrightarrow> (case entry of ((host, port), fingerprint) \<Rightarrow>
     CHR 0x0A \<notin> set host \<and> CHR 0x0A \<notin> set fingerprint \<and>
     starts_with ''SHA256:'' fingerprint \<and> 7 < length fingerprint \<and> \<not> blank_end fingerprint)"

definition readable_entry :: "pin_key \<times> string \<Rightarrow> bool" where
  "readable_entry entry \<longleftrightarrow> writable_entry entry \<and>
     (case entry of ((host, port), fingerprint) \<Rightarrow> host \<noteq> [] \<and> CHR '':'' \<notin> set host \<and> port \<noteq> 0)"

definition entry_line :: "pin_key \<times> string \<Rightarrow> string" where
  "entry_line entry = (case entry of ((host, port), fingerprint) \<Rightarrow>
     ''v1:'' @ host @ '':'' @ decimal (unat port) @ '':'' @ fingerprint)"

lemma render_entry_line: "render_entry e = entry_line e @ [CHR 0x0A]"
  by (cases e) (auto simp: render_entry_def entry_line_def)

lemma entry_line_trimmed:
  assumes "writable_entry e"
  shows "trim_blank (entry_line e) = entry_line e" "hd (entry_line e) = CHR ''v''" "entry_line e \<noteq> []"
    "CHR 0x0A \<notin> set (entry_line e)"
proof -
  obtain host port fingerprint where e: "e = ((host, port), fingerprint)" by (metis prod.exhaust)
  have fp: "fingerprint \<noteq> []" "\<not> blank_char (last fingerprint)"
    using assms by (auto simp: e writable_entry_def blank_end_def)
  show "hd (entry_line e) = CHR ''v''" "entry_line e \<noteq> []" by (simp_all add: e entry_line_def)
  have "\<not> blank_char (hd (entry_line e))" "\<not> blank_char (last (entry_line e))"
    using fp by (simp_all add: e entry_line_def blank_char_def)
  then show "trim_blank (entry_line e) = entry_line e"
    unfolding trim_blank_def by (intro trim_by_id) simp
  have "CHR 0x0A \<notin> set (decimal (unat port))"
    using decimal_digits [of "CHR 0x0A" "unat port"] by (auto simp: byte_class_defs)
  then show "CHR 0x0A \<notin> set (entry_line e)"
    using assms by (auto simp: e entry_line_def writable_entry_def)
qed

lemma split_colon_append: "CHR '':'' \<notin> set s \<Longrightarrow> split_colon (s @ CHR '':'' # t) = (s, t)"
  by (simp add: split_colon_def find_char_append)

lemma decimal_length: "n < 100000 \<Longrightarrow> length (decimal n) \<le> 5"
proof -
  assume n: "n < 100000"
  have step: "length (decimal m) \<le> Suc (length (decimal (m div 10)))" for m
    by (cases "m < 10") (simp_all add: numeral_string_small numeral_string_step)
  have "length (decimal (n div 10 div 10 div 10 div 10)) = 1"
    using n by (simp add: numeral_string_small flip: div_mult2_eq)
  with step [of n] step [of "n div 10"] step [of "n div 10 div 10"] step [of "n div 10 div 10 div 10"]
  show ?thesis by linarith
qed

lemma port_roundtrip: "port \<noteq> 0 \<Longrightarrow> is_absolute_port (decimal (unat port)) = Some port"
proof -
  assume "port \<noteq> 0"
  then have "unat port \<noteq> 0" by (simp add: unat_eq_zero)
  moreover have "unat port < 2 ^ LENGTH(16)" by (rule unsigned_less)
  moreover have "list_all ascii_digit (decimal (unat port))"
    using decimal_digits by (auto simp: list_all_iff)
  ultimately show ?thesis
    using decimal_length [of "unat port"] by (simp add: is_absolute_port_def)
qed

lemma parse_entry_line:
  assumes "readable_entry e"
  shows "parse_line (entry_line e) = Inr e"
proof -
  obtain host port fingerprint where e: "e = ((host, port), fingerprint)" by (metis prod.exhaust)
  have ok: "host \<noteq> []" "CHR '':'' \<notin> set host" "port \<noteq> 0" "starts_with ''SHA256:'' fingerprint" "7 < length fingerprint"
    using assms by (auto simp: e readable_entry_def writable_entry_def)
  have "CHR '':'' \<notin> set (decimal (unat port))"
    using digit_sequence_free [OF is_digit_sequence_decimal] by blast
  then have "split_colon (decimal (unat port) @ CHR '':'' # fingerprint) = (decimal (unat port), fingerprint)"
    by (rule split_colon_append)
  moreover have "split_colon (host @ CHR '':'' # decimal (unat port) @ CHR '':'' # fingerprint) =
      (host, decimal (unat port) @ CHR '':'' # fingerprint)"
    using ok(2) by (rule split_colon_append)
  ultimately show ?thesis
    using ok port_roundtrip [OF ok(3)] by (simp add: e entry_line_def parse_line_def starts_with_def)
qed

text \<open>A host with a colon: the second field of its line is not the port, or what follows it is not
  a fingerprint.\<close>

lemma parse_colon_host:
  assumes "CHR '':'' \<in> set host" "CHR ''S'' \<notin> set host"
  shows "\<exists>err. parse_line (entry_line ((host, port), fingerprint)) = Inl err"
proof -
  obtain a b where host: "host = a @ CHR '':'' # b" and a: "CHR '':'' \<notin> set a"
    using assms(1) by (metis split_list_first)
  let ?tail = "CHR '':'' # decimal (unat port) @ CHR '':'' # fingerprint"
  have first: "split_colon (host @ ?tail) = (a, b @ ?tail)"
    using split_colon_append [OF a, of "b @ ?tail"] by (simp add: host)
  obtain x y where second: "split_colon (b @ ?tail) = (x, y)" by fastforce
  have "\<not> starts_with ''SHA256:'' y"
  proof (cases "CHR '':'' \<in> set b")
    case True
    then obtain c d where b: "b = c @ CHR '':'' # d" and c: "CHR '':'' \<notin> set c"
      by (metis split_list_first)
    have "y = d @ ?tail"
      using second split_colon_append [OF c, of "d @ ?tail"] by (simp add: b)
    moreover have "hd (d @ ?tail) \<noteq> CHR ''S''"
      using assms(2) by (cases d) (auto simp: host b)
    ultimately show ?thesis by (cases d) (auto simp: starts_with_def)
  next
    case False
    then have y: "y = decimal (unat port) @ CHR '':'' # fingerprint"
      using second split_colon_append [OF False] by simp
    obtain p ps where p: "decimal (unat port) = p # ps" by (cases "decimal (unat port)") auto
    then have "ascii_digit p" using decimal_digits [of p "unat port"] by simp
    then have "p \<noteq> CHR ''S''" by (auto simp: byte_class_defs)
    then show ?thesis by (simp add: y p starts_with_def)
  qed
  then show ?thesis
    using first second
    by (auto simp: entry_line_def parse_line_def starts_with_def split: option.split)
qed


subsection \<open>The whole file\<close>

lemma update_new: "map_of t k = None \<Longrightarrow> AList.update k v t = t @ [(k, v)]"
  by (induction t) auto

lemma split_rendered:
  "(\<And>e. e \<in> set es \<Longrightarrow> writable_entry e) \<Longrightarrow>
   split_on (CHR 0x0A) (concat (map render_entry es)) = map entry_line es @ [[]]"
proof (induction es)
  case (Cons e es)
  have "CHR 0x0A \<notin> set (entry_line e)" using Cons.prems by (intro entry_line_trimmed(4)) simp
  moreover have "split_on (CHR 0x0A) (concat (map render_entry es)) = map entry_line es @ [[]]"
    using Cons.prems by (intro Cons.IH) simp
  ultimately show ?case by (simp add: render_entry_line [of e] split_on_append split_on_free)
qed simp

lemma lines_with_header:
  assumes "\<And>e. e \<in> set es \<Longrightarrow> writable_entry e" "CHR 0x0A \<notin> set h"
  shows "split_lines (h @ CHR 0x0A # concat (map render_entry es)) = h # map entry_line es"
  using assms(2) split_rendered [OF assms(1)]
  by (simp add: split_lines_def split_on_append split_on_free butlast_append)

lemma header_shape:
  "\<exists>h. known_hosts_header = h @ [CHR 0x0A] \<and> CHR 0x0A \<notin> set h \<and> trim_blank h = h \<and> h \<noteq> [] \<and> hd h = CHR ''#''"
proof -
  let ?h = "butlast known_hosts_header"
  have "trim_blank ?h = ?h"
    unfolding trim_blank_def by (rule trim_by_id) (simp add: known_hosts_header_def blank_char_def)
  then show ?thesis by (intro exI [of _ ?h]) (simp add: known_hosts_header_def)
qed

lemma rendered_lines:
  assumes "\<And>e. e \<in> set es \<Longrightarrow> writable_entry e"
  shows "\<exists>h. trim_blank h \<noteq> [] \<and> hd (trim_blank h) = CHR ''#'' \<and>
    split_lines (render_known_hosts es) = h # map entry_line es"
proof -
  obtain h where h: "known_hosts_header = h @ [CHR 0x0A]" "CHR 0x0A \<notin> set h" "trim_blank h = h" "h \<noteq> []"
    "hd h = CHR ''#''"
    using header_shape by blast
  have "render_known_hosts es = h @ CHR 0x0A # concat (map render_entry es)"
    by (simp add: render_known_hosts_def h(1))
  with lines_with_header [OF assms h(2)] h(3,4,5) show ?thesis by (intro exI [of _ h]) simp
qed

lemma load_readable:
  "(\<And>e. e \<in> set es \<Longrightarrow> readable_entry e) \<Longrightarrow> distinct (map fst (acc @ es)) \<Longrightarrow>
   load_lines (map entry_line es) acc = Inr (acc @ es)"
proof (induction es arbitrary: acc)
  case (Cons e es)
  have e: "readable_entry e" "writable_entry e" using Cons.prems(1) by (auto simp: readable_entry_def)
  obtain key fp where kf: "e = (key, fp)" by fastforce
  have "map_of acc key = None" using Cons.prems(2) by (auto simp: kf map_of_eq_None_iff)
  then have "AList.update key fp acc = acc @ [e]" by (simp add: update_new kf)
  moreover have "load_lines (map entry_line es) (acc @ [e]) = Inr ((acc @ [e]) @ es)"
    using Cons.prems by (intro Cons.IH) auto
  ultimately show ?case
    using entry_line_trimmed [OF e(2)] parse_entry_line [OF e(1)] by (simp add: kf)
qed simp

lemma load_poisoned:
  "(\<And>e. e \<in> set es \<Longrightarrow> writable_entry e) \<Longrightarrow> \<exists>e\<in>set es. \<exists>err. parse_line (entry_line e) = Inl err \<Longrightarrow>
   \<exists>err. load_lines (map entry_line es) acc = Inl err"
proof (induction es arbitrary: acc)
  case (Cons e es)
  have w: "writable_entry e" using Cons.prems(1) by simp
  show ?case
  proof (cases "parse_line (entry_line e)")
    case (Inl err)
    then show ?thesis using entry_line_trimmed [OF w] by simp
  next
    case (Inr kv)
    with Cons.prems(2) have "\<exists>e\<in>set es. \<exists>err. parse_line (entry_line e) = Inl err" by auto
    with Cons.IH [of "AList.update (fst kv) (snd kv) acc"] Cons.prems(1)
    show ?thesis using entry_line_trimmed [OF w] Inr by (cases kv) simp
  qed
qed simp

definition readable_pins :: "(pin_key, string) table \<Rightarrow> bool" where
  "readable_pins es \<longleftrightarrow> distinct_keys es \<and> list_all readable_entry es"

lemma parse_render:
  assumes "readable_pins es"
  shows "parse_known_hosts (render_known_hosts es) = Inr es"
proof -
  have r: "\<And>e. e \<in> set es \<Longrightarrow> readable_entry e" "distinct (map fst es)"
    using assms by (auto simp: readable_pins_def list_all_iff distinct_keys_def)
  then have "\<And>e. e \<in> set es \<Longrightarrow> writable_entry e" by (simp add: readable_entry_def)
  then obtain header where "trim_blank header \<noteq> []" "hd (trim_blank header) = CHR ''#''"
    "split_lines (render_known_hosts es) = header # map entry_line es"
    using rendered_lines by blast
  with load_readable [of es "[]"] r show ?thesis by (simp add: parse_known_hosts_def)
qed

interpretation known_hosts: codec render_known_hosts
    "\<lambda>raw. case parse_known_hosts raw of Inr es \<Rightarrow> Some es | Inl _ \<Rightarrow> None" readable_pins
  by unfold_locales (simp add: parse_render)

subsection \<open>Tickets\<close>

interpretation probes: expiring_table
  "\<lambda>t. map_of t" AList.update AList.delete "purge_expired pt_expires_at" pt_expires_at distinct_keys
  by unfold_locales (simp_all add: table_simps)

text \<open>A trust command succeeds only through a ticket for exactly its endpoint and key.\<close>

lemma claim_success:
  assumes "claim_probe_ticket ticket now server_id host port fingerprint r = (None, r')"
  shows "\<exists>entry. map_of (tr_tickets r) ticket = Some entry \<and> now < pt_expires_at entry \<and>
    pt_server_id entry = server_id \<and> pt_host entry = host \<and> pt_port entry = port \<and>
    pt_fingerprint entry = fingerprint \<and> r' = r\<lparr>tr_tickets := AList.delete ticket (tr_tickets r)\<rparr>"
  using assms by (auto simp: claim_probe_ticket_def Let_def split: option.split_asm if_split_asm)

lemma update_back: "map_of t k = Some old \<Longrightarrow> AList.update k old t = t"
  by (induction t) (auto split: if_splits)

lemma delete_back: "map_of t k = None \<Longrightarrow> AList.delete k (AList.update k v t) = t"
proof (induction t)
  case (Cons kv t)
  then show ?case by (cases kv) (auto split: if_splits)
qed simp


subsection \<open>The commands as a machine\<close>

text \<open>Ordinary commands run one after another on the background lane, so a command is one step.\<close>

datatype trust_label =
    LProbe string int json probe_reply
  | LTrust int json trust_reply
  | LForget json

inductive trust_step :: "trust_router \<Rightarrow> trust_label \<Rightarrow> trust_router \<Rightarrow> bool" where
  step_probe: "host_key_probe io available lookup probe ticket now params r = (reply, r') \<Longrightarrow>
    trust_step r (LProbe ticket now params reply) r'"
| step_trust: "host_key_trust io available lookup now params r = (reply, r') \<Longrightarrow>
    trust_step r (LTrust now params reply) r'"
| step_forget: "host_key_forget io available lookup params r = (answer, r') \<Longrightarrow>
    trust_step r (LForget params) r'"

inductive_cases trust_stepE: "trust_step r (LTrust now params reply) r'"

fun issues :: "string \<Rightarrow> trust_label \<Rightarrow> bool" where
  "issues k (LProbe ticket now params (ProbeReply _ _ _ _ _ _)) = (ticket = k)"
| "issues k _ = False"

fun redeems :: "string \<Rightarrow> trust_label \<Rightarrow> bool" where
  "redeems k (LTrust now params (Trusted _ _ _ _)) = (find_string params ''probeTicket'' = Some k)"
| "redeems k _ = False"

text \<open>The probe a ticket came from.\<close>

fun probed_as :: "string \<Rightarrow> probe_ticket \<Rightarrow> trust_label \<Rightarrow> bool" where
  "probed_as k e (LProbe ticket now params (ProbeReply answer host port fingerprint _ _)) =
     (ticket = k \<and> answer = k \<and> find_string params ''serverId'' = Some (pt_server_id e) \<and> host = pt_host e \<and>
      port = pt_port e \<and> fingerprint = pt_fingerprint e \<and> pt_expires_at e = now + 300)"
| "probed_as k e _ = False"

definition trust_history :: "trust_label list \<Rightarrow> trust_router \<Rightarrow> bool" where
  "trust_history h r \<longleftrightarrow> distinct_keys (tr_tickets r) \<and>
     (\<forall>k e. map_of (tr_tickets r) k = Some e \<longrightarrow> (\<exists>l\<in>set h. probed_as k e l)) \<and>
     (\<forall>k. length (filter (redeems k) h) + of_bool (map_of (tr_tickets r) k \<noteq> None) \<le>
          length (filter (issues k) h))"

lemma endpoint_Inr:
  assumes "host_key_endpoint available lookup names params = Inr (server_id, host, port)"
  shows "find_string params ''serverId'' = Some server_id \<and> lookup server_id = Endpoint host port \<and>
    valid_endpoint host port"
  using assms by (auto simp: host_key_endpoint_def split: if_split_asm option.split_asm endpoint_lookup.split_asm)

lemma probe_cases:
  assumes "host_key_probe io available lookup probe ticket now params r = (reply, r')"
  obtains e where "reply = ProbeRefused e" "r' = r"
  | server_id host port fingerprint comparison pinned where
      "reply = ProbeReply ticket host port fingerprint comparison pinned"
      "find_string params ''serverId'' = Some server_id"
      "r' = issue_probe_ticket ticket now server_id host port fingerprint r"
proof (cases "host_key_endpoint available lookup [''serverId''] params")
  case (Inl e)
  then show ?thesis using assms by (intro that(1) [of e]) (simp_all add: host_key_probe_def)
next
  case (Inr ep)
  obtain server_id host port where ep: "ep = (server_id, host, port)" by (metis prod.exhaust)
  note sid = endpoint_Inr [OF Inr [unfolded ep]]
  show ?thesis
    using assms that(1) that(2) [of host port _ _ _ server_id] sid
    by (auto simp: host_key_probe_def Inr ep Let_def
        split: probe_outcome.split_asm if_split_asm sum.split_asm prod.split_asm)
qed

lemma claim_tickets:
  assumes "claim_probe_ticket ticket now server_id host port fingerprint r = (e, r')"
  shows "tr_tickets r' = AList.delete ticket (tr_tickets r) \<or> tr_tickets r' = tr_tickets r"
    "tr_file r' = tr_file r"
  using assms by (auto simp: claim_probe_ticket_def Let_def split: option.split_asm if_split_asm)


text \<open>The two ways \<^verbatim>\<open>server_host_key_trust\<close> ends.\<close>

lemma trust_Trusted:
  assumes "host_key_trust io available lookup now params r = (Trusted host port fingerprint already, r')"
  obtains server_id ticket entry store where
    "find_string params ''serverId'' = Some server_id" "find_string params ''probeTicket'' = Some ticket"
    "map_of (tr_tickets r) ticket = Some entry" "now < pt_expires_at entry" "pt_server_id entry = server_id"
    "pt_host entry = host" "pt_port entry = port" "pt_fingerprint entry = fingerprint"
    "tr_tickets r' = AList.delete ticket (tr_tickets r)"
    "load_store io (tr_file r) = Inr store"
    "pinned_fingerprint store host (word_of_int port) = (if already then Some fingerprint else None)"
    "if already then tr_file r' = tr_file r
     else fst (pin io host (word_of_int port) fingerprint (store, tr_file r)) = Inr () \<and>
          tr_file r' = snd (snd (pin io host (word_of_int port) fingerprint (store, tr_file r)))"
proof -
  obtain server_id where ep: "host_key_endpoint available lookup [''serverId'', ''probeTicket'', ''fingerprint''] params
      = Inr (server_id, host, port)"
    using assms
    by (auto simp: host_key_trust_def Let_def
        split: sum.split_asm prod.split_asm option.split_asm if_split_asm)
  obtain ticket where ticket: "find_string params ''probeTicket'' = Some ticket"
    and fp: "find_string params ''fingerprint'' = Some fingerprint"
    using assms
    by (auto simp: host_key_trust_def ep split: sum.split_asm prod.split_asm option.split_asm if_split_asm)
  obtain r1 where claim: "claim_probe_ticket ticket now server_id host port fingerprint r = (None, r1)"
    using assms
    by (auto simp: host_key_trust_def ep ticket fp split: prod.split_asm option.split_asm if_split_asm)
  obtain entry where entry: "map_of (tr_tickets r) ticket = Some entry" "now < pt_expires_at entry"
    "pt_server_id entry = server_id" "pt_host entry = host" "pt_port entry = port" "pt_fingerprint entry = fingerprint"
    and r1: "r1 = r\<lparr>tr_tickets := AList.delete ticket (tr_tickets r)\<rparr>"
    using claim_success [OF claim] by blast
  obtain store where store: "load_store io (tr_file r) = Inr store"
    using assms
    by (auto simp: host_key_trust_def ep ticket fp claim r1 split: sum.split_asm if_split_asm)
  show ?thesis
    using assms endpoint_Inr [OF ep] ticket entry store
    by (intro that [of server_id ticket entry store])
       (auto simp: host_key_trust_def ep ticket fp claim r1 store
          split: sum.split_asm prod.split_asm option.split_asm if_split_asm)
qed

lemma trust_tickets:
  assumes "host_key_trust io available lookup now params r = (reply, r')"
  shows "tr_tickets r' = tr_tickets r \<or> (\<exists>k. tr_tickets r' = AList.delete k (tr_tickets r))"
  using assms
  by (auto simp: host_key_trust_def split: sum.split_asm prod.split_asm option.split_asm if_split_asm
      dest!: claim_tickets(1))

lemma forget_tickets:
  "host_key_forget io available lookup params r = (answer, r') \<Longrightarrow> tr_tickets r' = tr_tickets r"
  by (auto simp: host_key_forget_def split: sum.split_asm prod.split_asm)

lemma trust_history_shrink:
  assumes "trust_history h r" "distinct_keys (tr_tickets r')"
    "\<And>k e. map_of (tr_tickets r') k = Some e \<Longrightarrow> map_of (tr_tickets r) k = Some e"
    "\<And>k. redeems k l \<Longrightarrow> map_of (tr_tickets r) k \<noteq> None \<and> map_of (tr_tickets r') k = None"
  shows "trust_history (h @ [l]) r'"
  unfolding trust_history_def
proof (intro conjI allI impI)
  fix k e
  assume "map_of (tr_tickets r') k = Some e"
  then have "map_of (tr_tickets r) k = Some e" by (rule assms(3))
  then obtain x where "x \<in> set h" "probed_as k e x" using assms(1) unfolding trust_history_def by blast
  then show "\<exists>l\<in>set (h @ [l]). probed_as k e l" by auto
next
  fix k
  have "length (filter (redeems k) h) + of_bool (map_of (tr_tickets r) k \<noteq> None) \<le> length (filter (issues k) h)"
    using assms(1) by (simp add: trust_history_def)
  moreover have "of_bool (redeems k l) + of_bool (map_of (tr_tickets r') k \<noteq> None) \<le>
      (of_bool (map_of (tr_tickets r) k \<noteq> None) :: nat)"
    using assms(3) [of k] assms(4) [of k] by (cases "map_of (tr_tickets r') k") auto
  ultimately show "length (filter (redeems k) (h @ [l])) + of_bool (map_of (tr_tickets r') k \<noteq> None) \<le>
      length (filter (issues k) (h @ [l]))"
    by (auto split: if_splits)
qed (rule assms(2))

lemma trust_history_issue:
  assumes "trust_history h r" "find_string params ''serverId'' = Some server_id"
  shows "trust_history (h @ [LProbe ticket now params (ProbeReply ticket host port fingerprint comparison pinned)])
    (issue_probe_ticket ticket now server_id host port fingerprint r)"
  unfolding trust_history_def
proof (intro conjI allI impI)
  let ?l = "LProbe ticket now params (ProbeReply ticket host port fingerprint comparison pinned)"
  let ?r = "issue_probe_ticket ticket now server_id host port fingerprint r"
  have dk: "distinct_keys (tr_tickets r)" using assms(1) by (simp add: trust_history_def)
  then show "distinct_keys (tr_tickets ?r)" by (simp add: issue_probe_ticket_def table_simps)
  fix k e
  assume e: "map_of (tr_tickets ?r) k = Some e"
  show "\<exists>l\<in>set (h @ [?l]). probed_as k e l"
  proof (cases "k = ticket")
    case True
    then show ?thesis using e assms(2) by (auto simp: issue_probe_ticket_def map_of_update ticket_lifetime_def)
  next
    case False
    then have "map_of (purge_expired pt_expires_at now (tr_tickets r)) k = Some e"
      using e by (simp add: issue_probe_ticket_def map_of_update)
    then have "map_of (tr_tickets r) k = Some e" using probes.live_after_purge [OF dk] by blast
    then obtain x where "x \<in> set h" "probed_as k e x" using assms(1) unfolding trust_history_def by blast
    then show ?thesis by auto
  qed
next
  let ?l = "LProbe ticket now params (ProbeReply ticket host port fingerprint comparison pinned)"
  let ?r = "issue_probe_ticket ticket now server_id host port fingerprint r"
  fix k
  have dk: "distinct_keys (tr_tickets r)" using assms(1) by (simp add: trust_history_def)
  have old: "length (filter (redeems k) h) + of_bool (map_of (tr_tickets r) k \<noteq> None) \<le> length (filter (issues k) h)"
    using assms(1) by (simp add: trust_history_def)
  have "map_of (tr_tickets r) k \<noteq> None" if "map_of (tr_tickets ?r) k \<noteq> None" "k \<noteq> ticket"
    using that by (auto simp: issue_probe_ticket_def map_of_update map_of_purge [OF dk] split: option.split_asm)
  with old show "length (filter (redeems k) (h @ [?l])) + of_bool (map_of (tr_tickets ?r) k \<noteq> None) \<le>
      length (filter (issues k) (h @ [?l]))"
    by (cases "k = ticket") auto
qed

interpretation trust_log: traced_machine trust_step trust_history
proof unfold_locales
  fix h r l r'
  assume hist: "trust_history h r" and "trust_step r l r'"
  have dk: "distinct_keys (tr_tickets r)" using hist by (simp add: trust_history_def)
  from \<open>trust_step r l r'\<close> show "trust_history (h @ [l]) r'"
  proof cases
    case (step_probe io available lookup probe ticket now params reply)
    from step_probe(2) show ?thesis
    proof (cases rule: probe_cases)
      case 1
      then show ?thesis using hist dk by (intro trust_history_shrink [OF hist]) (simp_all add: step_probe(1))
    next
      case (2 server_id)
      then show ?thesis using trust_history_issue [OF hist] by (simp add: step_probe(1))
    qed
  next
    case (step_trust io available lookup now params reply)
    show ?thesis
    proof (rule trust_history_shrink [OF hist])
      show "distinct_keys (tr_tickets r')" using trust_tickets [OF step_trust(2)] dk by (auto simp: table_simps)
    next
      fix k e
      assume "map_of (tr_tickets r') k = Some e"
      then show "map_of (tr_tickets r) k = Some e"
        using trust_tickets [OF step_trust(2)] by (auto simp: map_of_delete split: if_split_asm)
    next
      fix k
      assume red: "redeems k l"
      then obtain host port fp already where reply: "reply = Trusted host port fp already"
        and k: "find_string params ''probeTicket'' = Some k"
        by (cases reply) (simp_all add: step_trust(1))
      from step_trust(2) [unfolded reply] show "map_of (tr_tickets r) k \<noteq> None \<and> map_of (tr_tickets r') k = None"
        by (rule trust_Trusted) (use k in \<open>simp add: map_of_delete\<close>)
    qed
  next
    case (step_forget io available lookup params answer)
    then show ?thesis
      using dk forget_tickets [OF step_forget(2)] by (intro trust_history_shrink [OF hist]) simp_all
  qed
qed


lemma trust_reachable: "run trust_step \<lparr>tr_tickets = [], tr_file = file\<rparr> h r \<Longrightarrow> trust_history h r"
  using trust_log.run_hinv [of "\<lparr>tr_tickets = [], tr_file = file\<rparr>" h r "[]"]
  by (simp add: trust_history_def)

lemma pin_save:
  assumes "pin io host port fingerprint (store, file) = (Inr u, store', file')" "ts_persistent store"
  shows "file' = Some (render_known_hosts (AList.update (host, port) fingerprint (ts_entries store)))"
  using assms
  by (auto simp: pin_def Let_def save_store_def write_atomic_def split: if_split_asm)

lemma load_persistent: "load_store io file = Inr store \<Longrightarrow> ts_persistent store"
  by (auto simp: load_store_def res_bind_eq_Inr split: if_split_asm option.split_asm)

subsection \<open>A concrete run\<close>

definition sample_io :: io_env where
  "sample_io = \<lparr>io_exists_error = False, io_open_fails = False, io_mkdir_fails = False,
     io_temporary_open_fails = False, io_temporary_write_fails = False, io_rename = (\<lambda>_. Renamed)\<rparr>"

definition sample_fingerprint :: string where
  "sample_fingerprint = ''SHA256:'' @ replicate 43 (CHR ''a'')"

definition sample_lookup :: "string \<Rightarrow> endpoint_lookup" where
  "sample_lookup s = Endpoint ''web'' 22"

definition probe_params :: json where "probe_params = JObject [(''serverId'', JString ''srv_1'')]"

definition trust_params :: json where
  "trust_params = JObject [(''serverId'', JString ''srv_1''), (''probeTicket'', JString ''probe_0''),
     (''fingerprint'', JString sample_fingerprint)]"

definition sample_probed :: trust_router where
  "sample_probed = \<lparr>tr_tickets = [(''probe_0'', \<lparr>pt_server_id = ''srv_1'', pt_host = ''web'', pt_port = 22,
     pt_fingerprint = sample_fingerprint, pt_expires_at = 400\<rparr>)], tr_file = None\<rparr>"

definition sample_trusted :: trust_router where
  "sample_trusted = \<lparr>tr_tickets = [], tr_file = Some (render_known_hosts [((''web'', 22), sample_fingerprint)])\<rparr>"

lemma sample_fingerprint_valid: "valid_host_key_fingerprint sample_fingerprint"
  by (simp add: valid_host_key_fingerprint_def sample_fingerprint_def starts_with_def list_all_iff byte_class_defs)

lemma sample_fingerprint_nonempty: "sample_fingerprint \<noteq> []"
  by (simp add: sample_fingerprint_def)

lemmas trust_eval =
  host_key_endpoint_def only_fields_def find_string_def valid_server_id_def byte_class_defs starts_with_def
  sample_lookup_def valid_endpoint_def load_store_def sample_io_def

lemma sample_probe:
  "host_key_probe sample_io True sample_lookup (Probed sample_fingerprint) ''probe_0'' 100 probe_params
     \<lparr>tr_tickets = [], tr_file = None\<rparr> =
   (ProbeReply ''probe_0'' ''web'' 22 sample_fingerprint Unpinned None, sample_probed)"
  by (simp add: host_key_probe_def trust_eval probe_params_def sample_fingerprint_valid check_key_def
      issue_probe_ticket_def ticket_lifetime_def purge_expired_def sample_probed_def)

lemma sample_trust:
  "host_key_trust sample_io True sample_lookup 120 trust_params sample_probed =
   (Trusted ''web'' 22 sample_fingerprint False, sample_trusted)"
  by (simp add: host_key_trust_def trust_eval trust_params_def sample_fingerprint_valid claim_probe_ticket_def
      sample_probed_def pinned_fingerprint_def pin_def save_store_def write_atomic_def rename_attempts.simps
      sample_trusted_def Let_def)

lemma sample_trust_run:
  "run trust_step \<lparr>tr_tickets = [], tr_file = None\<rparr>
     ([LProbe ''probe_0'' 100 probe_params (ProbeReply ''probe_0'' ''web'' 22 sample_fingerprint Unpinned None)]
      @ [LTrust 120 trust_params (Trusted ''web'' 22 sample_fingerprint False)]) sample_trusted"
proof (rule run_snoc)
  show "run trust_step \<lparr>tr_tickets = [], tr_file = None\<rparr>
      [LProbe ''probe_0'' 100 probe_params (ProbeReply ''probe_0'' ''web'' 22 sample_fingerprint Unpinned None)] sample_probed"
    by (rule run_Cons [where step = trust_step, OF run_Nil]) (rule step_probe [OF sample_probe])
  show "trust_step sample_probed (LTrust 120 trust_params (Trusted ''web'' 22 sample_fingerprint False)) sample_trusted"
    by (rule step_trust [OF sample_trust])
qed

subsection \<open>Properties\<close>

text \<open>C8: A key is pinned only after a live probe of the same endpoint: when a trust command succeeds, an
  earlier probe issued its ticket for the same server, host, port and fingerprint less than five
  minutes before.\<close>

theorem trust_requires_probe:
  assumes "run trust_step \<lparr>tr_tickets = [], tr_file = file\<rparr>
      (h @ [LTrust now params (Trusted host port fingerprint already)]) r"
  shows "\<exists>ticket t pparams comparison pinned.
    find_string params ''probeTicket'' = Some ticket \<and>
    LProbe ticket t pparams (ProbeReply ticket host port fingerprint comparison pinned) \<in> set h \<and>
    find_string pparams ''serverId'' = find_string params ''serverId'' \<and> now < t + 300"
proof -
  obtain r0 where run0: "run trust_step \<lparr>tr_tickets = [], tr_file = file\<rparr> h r0"
    and step: "trust_step r0 (LTrust now params (Trusted host port fingerprint already)) r"
    using assms by (cases rule: run.cases) auto
  obtain io available lookup where cmd:
    "host_key_trust io available lookup now params r0 = (Trusted host port fingerprint already, r)"
    using step by (rule trust_stepE)
  obtain server_id ticket entry where t: "find_string params ''serverId'' = Some server_id"
    "find_string params ''probeTicket'' = Some ticket" "map_of (tr_tickets r0) ticket = Some entry"
    "now < pt_expires_at entry" "pt_server_id entry = server_id" "pt_host entry = host" "pt_port entry = port"
    "pt_fingerprint entry = fingerprint"
    using cmd by (rule trust_Trusted)
  obtain l where l: "l \<in> set h" "probed_as ticket entry l"
    using trust_reachable [OF run0] t(3) unfolding trust_history_def by blast
  then obtain tm pparams comparison pinned where
    "l = LProbe ticket tm pparams (ProbeReply ticket host port fingerprint comparison pinned)"
    "find_string pparams ''serverId'' = Some server_id" "pt_expires_at entry = tm + 300"
    using t by (cases "(ticket, entry, l)" rule: probed_as.cases) auto
  with l(1) t show ?thesis
    by (intro exI [of _ ticket] exI [of _ tm] exI [of _ pparams] exI [of _ comparison] exI [of _ pinned]) simp
qed

theorem trust_requires_probe_witness:
  "\<exists>ticket t pparams comparison pinned.
    find_string trust_params ''probeTicket'' = Some ticket \<and>
    LProbe ticket t pparams (ProbeReply ticket ''web'' 22 sample_fingerprint comparison pinned) \<in>
      set [LProbe ''probe_0'' 100 probe_params (ProbeReply ''probe_0'' ''web'' 22 sample_fingerprint Unpinned None)] \<and>
    find_string pparams ''serverId'' = find_string trust_params ''serverId'' \<and> 120 < t + 300"
  by (rule trust_requires_probe [OF sample_trust_run])

text \<open>A probe ticket works once: over any sequence of commands, the successful trust commands that
  name a ticket are at most as many as the probes that issued it.\<close>

theorem probe_ticket_single_use:
  assumes "run trust_step \<lparr>tr_tickets = [], tr_file = file\<rparr> h r"
  shows "length (filter (redeems k) h) \<le> length (filter (issues k) h)"
  using trust_reachable [OF assms] by (simp add: trust_history_def) (metis add_leD1)

theorem probe_ticket_single_use_witness:
  "length (filter (redeems ''probe_0'')
     ([LProbe ''probe_0'' 100 probe_params (ProbeReply ''probe_0'' ''web'' 22 sample_fingerprint Unpinned None)]
      @ [LTrust 120 trust_params (Trusted ''web'' 22 sample_fingerprint False)])) \<le>
   length (filter (issues ''probe_0'')
     ([LProbe ''probe_0'' 100 probe_params (ProbeReply ''probe_0'' ''web'' 22 sample_fingerprint Unpinned None)]
      @ [LTrust 120 trust_params (Trusted ''web'' 22 sample_fingerprint False)]))"
  by (rule probe_ticket_single_use [OF sample_trust_run])

text \<open>A confirmed key never replaces another: a successful trust command found the endpoint unpinned
  or pinned to the same key, and leaves the file as it was or writes the old pins with this one.\<close>

theorem trust_never_overwrites:
  assumes "host_key_trust io available lookup now params r = (Trusted host port fingerprint already, r')"
  shows "\<exists>store. load_store io (tr_file r) = Inr store \<and>
    map_of (ts_entries store) (host, word_of_int port) = (if already then Some fingerprint else None) \<and>
    tr_file r' = (if already then tr_file r
      else Some (render_known_hosts (AList.update (host, word_of_int port) fingerprint (ts_entries store))))"
proof -
  obtain store where store: "load_store io (tr_file r) = Inr store"
    and pinned: "pinned_fingerprint store host (word_of_int port) = (if already then Some fingerprint else None)"
    and written: "if already then tr_file r' = tr_file r
     else fst (pin io host (word_of_int port) fingerprint (store, tr_file r)) = Inr () \<and>
          tr_file r' = snd (snd (pin io host (word_of_int port) fingerprint (store, tr_file r)))"
    using assms by (rule trust_Trusted)
  have "tr_file r' = Some (render_known_hosts (AList.update (host, word_of_int port) fingerprint (ts_entries store)))"
    if new: "\<not> already"
  proof -
    obtain store' file' where p: "pin io host (word_of_int port) fingerprint (store, tr_file r) = (Inr (), store', file')"
      using written new by (metis prod.collapse)
    with written new pin_save [OF p load_persistent [OF store]] show ?thesis by simp
  qed
  with store pinned written show ?thesis by (auto simp: pinned_fingerprint_def)
qed

theorem trust_never_overwrites_witness:
  "\<exists>store. load_store sample_io (tr_file sample_probed) = Inr store \<and>
    map_of (ts_entries store) (''web'', word_of_int 22) = (if False then Some sample_fingerprint else None) \<and>
    tr_file sample_trusted = (if False then tr_file sample_probed
      else Some (render_known_hosts (AList.update (''web'', word_of_int 22) sample_fingerprint (ts_entries store))))"
  by (rule trust_never_overwrites [OF sample_trust])

text \<open>A failed save changes nothing: when \<^verbatim>\<open>pin\<close> or \<^verbatim>\<open>forget\<close> throws, the file and the pins in
  memory are what they were before; when it succeeds, both hold the change.\<close>

theorem pin_forget_atomic:
  "(case pin io host port fingerprint (store, file) of
      (Inl _, store', file') \<Rightarrow> store' = store \<and> file' = file
    | (Inr _, store', file') \<Rightarrow>
        ts_entries store' = AList.update (host, port) fingerprint (ts_entries store) \<and>
        file' = (if ts_persistent store then Some (render_known_hosts (ts_entries store')) else file)) \<and>
   (case forget io host port (store, file) of
      (Inl _, store', file') \<Rightarrow> map_of (ts_entries store') = map_of (ts_entries store) \<and> file' = file
    | (Inr removed, store', file') \<Rightarrow>
        map_of (ts_entries store') = (map_of (ts_entries store))((host, port) := None) \<and>
        file' = (if ts_persistent store \<and> removed then Some (render_known_hosts (ts_entries store')) else file))"
proof -
  have w: "(fst (write_atomic io c f) = Inr () \<and> snd (write_atomic io c f) = Some c) \<or>
      (\<exists>e. write_atomic io c f = (Inl e, f))" for c f
    by (simp add: write_atomic_def)
  show ?thesis
  proof (intro conjI)
    let ?c = "render_known_hosts (AList.update (host, port) fingerprint (ts_entries store))"
    show "case pin io host port fingerprint (store, file) of
        (Inl _, store', file') \<Rightarrow> store' = store \<and> file' = file
      | (Inr _, store', file') \<Rightarrow>
        ts_entries store' = AList.update (host, port) fingerprint (ts_entries store) \<and>
        file' = (if ts_persistent store then Some (render_known_hosts (ts_entries store')) else file)"
      using w [of ?c "file"]
      by (cases "write_atomic io ?c file")
         (auto simp: pin_def Let_def save_store_def update_back delete_back split: option.split sum.split)
  next
    let ?c = "render_known_hosts (AList.delete (host, port) (ts_entries store))"
    show "case forget io host port (store, file) of
        (Inl _, store', file') \<Rightarrow> map_of (ts_entries store') = map_of (ts_entries store) \<and> file' = file
      | (Inr removed, store', file') \<Rightarrow>
        map_of (ts_entries store') = (map_of (ts_entries store))((host, port) := None) \<and>
        file' = (if ts_persistent store \<and> removed then Some (render_known_hosts (ts_entries store')) else file)"
      using w [of ?c "file"]
      by (cases "write_atomic io ?c file"; cases "map_of (ts_entries store) (host, port)")
         (auto simp: forget_def Let_def save_store_def map_of_update map_of_delete fun_upd_idem split: sum.split)
  qed
qed

text \<open>Saved pins are read back: for every store whose hosts contain no colon or newline and whose
  fingerprints have the stored form, loading the saved file gives exactly the same pins.\<close>

theorem known_hosts_roundtrip:
  assumes "readable_pins es"
  shows "parse_known_hosts (render_known_hosts es) = Inr es"
  using known_hosts.dec_enc [OF assms] by (auto split: sum.split_asm)

theorem known_hosts_roundtrip_witness:
  "parse_known_hosts (render_known_hosts [((''web'', 22), ''SHA256:abc''), ((''10.0.0.1'', 2222), ''SHA256:x'')]) =
   Inr [((''web'', 22), ''SHA256:abc''), ((''10.0.0.1'', 2222), ''SHA256:x'')]"
  by (rule known_hosts_roundtrip)
     (simp add: readable_pins_def distinct_keys_def readable_entry_def writable_entry_def starts_with_def
        blank_end_def blank_char_def)

text \<open>One pinned host with a colon makes every pin unreadable: whatever else the store holds, if it
  contains a host with a colon and no letter \<open>S\<close> (an IPv6 address), the file that is
  saved is refused as malformed by the next load.\<close>

theorem colon_host_poisons_store:
  assumes "list_all writable_entry es" "((host, port), fingerprint) \<in> set es"
    "CHR '':'' \<in> set host" "CHR ''S'' \<notin> set host"
  shows "\<exists>err. parse_known_hosts (render_known_hosts es) = Inl err"
proof -
  have w: "\<And>e. e \<in> set es \<Longrightarrow> writable_entry e" using assms(1) by (simp add: list_all_iff)
  obtain h where h: "trim_blank h \<noteq> []" "hd (trim_blank h) = CHR ''#''"
    "split_lines (render_known_hosts es) = h # map entry_line es"
    using rendered_lines [OF w] by blast
  have "\<exists>e\<in>set es. \<exists>err. parse_line (entry_line e) = Inl err"
    using assms(2) parse_colon_host [OF assms(3,4)] by blast
  with load_poisoned [OF w] h show ?thesis by (simp add: parse_known_hosts_def)
qed

theorem colon_host_poisons_store_witness:
  "\<exists>err. parse_known_hosts (render_known_hosts [((''web'', 22), ''SHA256:abc''), ((''fe80::1'', 22), ''SHA256:x'')]) = Inl err"
  by (rule colon_host_poisons_store [of _ "''fe80::1''" 22 "''SHA256:x''"])
     (simp_all add: writable_entry_def starts_with_def blank_end_def blank_char_def)

end
