(* ===== verification/ConfigNet.thy ===== *)
theory ConfigNet
  imports PolicyRules Digits
begin

text \<open>
  The network part of the service configuration (\<^verbatim>\<open>src/native/src/config.cpp\<close>): IPv4 and
  IPv6 literals, CIDR blocks, the entries of a \<^verbatim>\<open>no_proxy\<close> list and proxy URLs.  An
  address is the list of its bytes, the most significant first.  A parser that fills an
  output argument and returns a \<^verbatim>\<open>bool\<close> returns an option here.
\<close>

subsection \<open>Numbers\<close>

text \<open>
  \<^verbatim>\<open>std::from_chars\<close> into an \<^verbatim>\<open>unsigned int\<close>, with the test that it succeeded and
  consumed the whole text: no sign, no prefix, at least one digit, no overflow.
\<close>

definition read_hex :: "string \<Rightarrow> nat" where
  "read_hex s = foldl (\<lambda>a c. a * 16 + the (hex_value c)) 0 s"

definition from_chars_unsigned :: "string \<Rightarrow> nat option" where
  "from_chars_unsigned s =
     (if is_digit_sequence s \<and> read_decimal s < 2 ^ 32 then Some (read_decimal s) else None)"

definition from_chars_hex :: "string \<Rightarrow> nat option" where
  "from_chars_hex s =
     (if s \<noteq> [] \<and> list_all (\<lambda>c. hex_value c \<noteq> None) s \<and> read_hex s < 2 ^ 32 then Some (read_hex s) else None)"

text \<open>The same into an \<^verbatim>\<open>int\<close>, where a leading minus sign is part of the number.\<close>

definition from_chars_int :: "string \<Rightarrow> int option" where
  "from_chars_int s =
     (let negative = s \<noteq> [] \<and> hd s = CHR ''-''; digits = (if negative then tl s else s);
          value = (if negative then - int (read_decimal digits) else int (read_decimal digits))
      in if is_digit_sequence digits \<and> - (2 ^ 31) \<le> value \<and> value < 2 ^ 31 then Some value else None)"

subsection \<open>Addresses\<close>

definition parse_octet :: "string \<Rightarrow> 8 word option" where
  "parse_octet octet =
     (if octet = [] \<or> 3 < length octet \<or> (1 < length octet \<and> hd octet = CHR ''0'') then None
      else case from_chars_unsigned octet of
          None \<Rightarrow> None
        | Some parsed \<Rightarrow> if 255 < parsed then None else Some (of_nat parsed))"

definition parse_ipv4 :: "string \<Rightarrow> 8 word list option" where
  "parse_ipv4 value =
     (let parts = split_on (CHR ''.'') value
      in if length parts \<noteq> 4 then None else traverse parse_octet parts)"

text \<open>The text before the only slash and the prefix length after it.\<close>

definition split_cidr :: "string \<Rightarrow> (string \<times> string) option" where
  "split_cidr value =
     (case find_char (CHR ''/'') value of
        None \<Rightarrow> None
      | Some slash \<Rightarrow>
          if CHR ''/'' \<in> set (drop (Suc slash) value) then None
          else Some (take slash value, drop (Suc slash) value))"

definition parse_prefix :: "nat \<Rightarrow> string \<Rightarrow> nat option" where
  "parse_prefix limit prefix_text =
     (if prefix_text = [] then None
      else case from_chars_unsigned prefix_text of
          None \<Rightarrow> None
        | Some parsed \<Rightarrow> if limit < parsed then None else Some parsed)"

definition parse_ipv4_cidr :: "string \<Rightarrow> (8 word list \<times> nat) option" where
  "parse_ipv4_cidr value =
     (case split_cidr value of
        None \<Rightarrow> None
      | Some (address_text, prefix_text) \<Rightarrow>
          (case parse_ipv4 address_text of
             None \<Rightarrow> None
           | Some address \<Rightarrow>
               (case parse_prefix 32 prefix_text of
                  None \<Rightarrow> None
                | Some prefix \<Rightarrow> Some (address, prefix))))"

definition join_bytes :: "8 word \<Rightarrow> 8 word \<Rightarrow> 16 word" where
  "join_bytes high low = push_bit 8 (ucast high) OR ucast low"

text \<open>One colon-separated token of \<^verbatim>\<open>parse_side\<close>; \<open>tail\<close> when no colon follows it.\<close>

definition parse_group :: "bool \<Rightarrow> bool \<Rightarrow> string \<Rightarrow> 16 word list option" where
  "parse_group allow_ipv4_tail final_token token =
     (if token = [] then None
      else if CHR ''.'' \<in> set token then
        if \<not> allow_ipv4_tail \<or> \<not> final_token then None
        else case parse_ipv4 token of
            Some [a, b, c, d] \<Rightarrow> Some [join_bytes a b, join_bytes c d]
          | _ \<Rightarrow> None
      else if 4 < length token then None
      else case from_chars_hex token of
          None \<Rightarrow> None
        | Some parsed \<Rightarrow> Some [of_nat parsed])"

fun parse_groups :: "bool \<Rightarrow> string list \<Rightarrow> 16 word list option" where
  "parse_groups allow [] = Some []"
| "parse_groups allow (token # rest) =
     (case parse_group allow (rest = []) token of
        None \<Rightarrow> None
      | Some gs \<Rightarrow> map_option (\<lambda>more. gs @ more) (parse_groups allow rest))"

definition parse_side :: "bool \<Rightarrow> string \<Rightarrow> 16 word list option" where
  "parse_side allow side = (if side = [] then Some [] else parse_groups allow (split_on (CHR '':'') side))"

definition ipv6_words :: "string \<Rightarrow> 16 word list option" where
  "ipv6_words value =
     (case find_sub ''::'' value of
        None \<Rightarrow>
          (case parse_side True value of
             None \<Rightarrow> None
           | Some left \<Rightarrow> if length left \<noteq> 8 then None else Some left)
      | Some compression \<Rightarrow>
          if find_sub ''::'' (drop (compression + 2) value) \<noteq> None then None
          else case parse_side False (take compression value) of
              None \<Rightarrow> None
            | Some left \<Rightarrow>
                (case parse_side True (drop (compression + 2) value) of
                   None \<Rightarrow> None
                 | Some right \<Rightarrow>
                     if 8 \<le> length left + length right then None
                     else Some (left @ replicate (8 - length left - length right) 0 @ right)))"

definition word_bytes :: "16 word \<Rightarrow> 8 word list" where
  "word_bytes w = [ucast (drop_bit 8 w), ucast (w AND 255)]"

definition parse_ipv6 :: "string \<Rightarrow> 8 word list option" where
  "parse_ipv6 value =
     (if value = [] then None else map_option (\<lambda>ws. concat (map word_bytes ws)) (ipv6_words value))"

definition parse_ipv6_cidr :: "string \<Rightarrow> (8 word list \<times> nat) option" where
  "parse_ipv6_cidr value =
     (case split_cidr value of
        None \<Rightarrow> None
      | Some (address_text, prefix_text) \<Rightarrow>
          (case parse_ipv6 address_text of
             None \<Rightarrow> None
           | Some address \<Rightarrow>
               (case parse_prefix 128 prefix_text of
                  None \<Rightarrow> None
                | Some prefix \<Rightarrow> Some (address, prefix))))"

subsection \<open>Membership in a block\<close>

definition prefix_mask :: "nat \<Rightarrow> 8 word" where
  "prefix_mask prefix = ucast (push_bit (8 - prefix) (255 :: 32 word))"

text \<open>The loop over the bytes that both address families share.\<close>

fun matches_prefix :: "nat \<Rightarrow> 8 word list \<Rightarrow> 8 word list \<Rightarrow> bool" where
  "matches_prefix prefix (a # as) (n # ns) =
     (if 8 \<le> prefix then if a \<noteq> n then False else matches_prefix (prefix - 8) as ns
      else if 0 < prefix then
        if a AND prefix_mask prefix \<noteq> n AND prefix_mask prefix then False else matches_prefix 0 as ns
      else matches_prefix prefix as ns)"
| "matches_prefix prefix _ _ = True"

definition ipv4_matches_cidr :: "string \<Rightarrow> string \<Rightarrow> bool" where
  "ipv4_matches_cidr host cidr =
     (case (parse_ipv4 host, parse_ipv4_cidr cidr) of
        (Some address, Some (network, prefix)) \<Rightarrow> matches_prefix prefix address network
      | _ \<Rightarrow> False)"

definition ipv6_matches_cidr :: "string \<Rightarrow> string \<Rightarrow> bool" where
  "ipv6_matches_cidr host cidr =
     (case (parse_ipv6 host, parse_ipv6_cidr cidr) of
        (Some address, Some (network, prefix)) \<Rightarrow> matches_prefix prefix address network
      | _ \<Rightarrow> False)"

subsection \<open>Entries of the bypass list\<close>

definition bypass_port :: "string \<Rightarrow> int option" where
  "bypass_port port_text =
     (if port_text = [] then None
      else case from_chars_unsigned port_text of
          None \<Rightarrow> None
        | Some parsed \<Rightarrow> if parsed = 0 \<or> 65535 < parsed then None else Some (int parsed))"

definition split_proxy_bypass_port :: "string \<Rightarrow> (string \<times> int) option" where
  "split_proxy_bypass_port entry =
     (if entry = [] then None
      else if hd entry = CHR ''['' then
        case find_char (CHR '']'') entry of
          None \<Rightarrow> None
        | Some close \<Rightarrow>
            if close + 1 = length entry then Some (entry, 0)
            else if entry ! (close + 1) \<noteq> CHR '':'' then None
            else map_option (Pair (take (close + 1) entry)) (bypass_port (drop (close + 2) entry))
      else
        case rfind_char (CHR '':'') entry of
          None \<Rightarrow> Some (entry, 0)
        | Some colon \<Rightarrow>
            if find_char (CHR '':'') entry \<noteq> Some colon then Some (entry, 0)
            else map_option (Pair (take colon entry)) (bypass_port (drop (colon + 1) entry)))"

text \<open>The octets in front of a trailing \<^verbatim>\<open>.*\<close>: one to three of them.\<close>

definition wildcard_octet :: "string \<Rightarrow> bool" where
  "wildcard_octet octet \<longleftrightarrow>
     \<not> (octet = [] \<or> 3 < length octet) \<and> list_all ascii_digit octet \<and> read_decimal octet \<le> 255"

definition wildcard_prefix :: "string \<Rightarrow> bool" where
  "wildcard_prefix prefix =
     (let octets = split_on (CHR ''.'') prefix in length octets \<le> 3 \<and> list_all wildcard_octet octets)"

definition bypass_char :: "char \<Rightarrow> bool" where
  "bypass_char c \<longleftrightarrow> ascii_alnum c \<or> c \<in> {CHR ''.'', CHR ''-'', CHR ''_'', CHR '':'', CHR ''['', CHR '']''}"

definition bypass_host :: "string \<Rightarrow> bool" where
  "bypass_host host =
     (if host = [] \<or> hd host = CHR ''.'' \<or> last host = CHR ''.'' \<or> find_sub ''..'' host \<noteq> None then False
      else
        let bracketed_ipv6 = 4 \<le> length host \<and> hd host = CHR ''['' \<and> last host = CHR '']'' \<and> CHR '':'' \<in> set host
        in if CHR '':'' \<in> set host \<and> \<not> bracketed_ipv6 then False else list_all bypass_char host)"

definition valid_proxy_bypass_entry :: "string \<Rightarrow> bool" where
  "valid_proxy_bypass_entry entry =
     (if entry = [] \<or> 260 < length entry then False
      else case split_proxy_bypass_port entry of
          None \<Rightarrow> False
        | Some (host, port) \<Rightarrow>
            if host = [] \<or> 253 < length host \<or> (port \<noteq> 0 \<and> CHR ''/'' \<in> set host) then False
            else if host = ''*'' then True
            else if CHR ''/'' \<in> set host then parse_ipv4_cidr host \<noteq> None \<or> parse_ipv6_cidr host \<noteq> None
            else if starts_with ''*.'' host then bypass_host (drop 2 host)
            else if hd host = CHR ''.'' then bypass_host (drop 1 host)
            else if 2 < length host \<and> ends_with ''.*'' host then wildcard_prefix (take (length host - 2) host)
            else if CHR ''*'' \<in> set host then False
            else bypass_host host)"

subsection \<open>Matching a target against the bypass list\<close>

definition lowercase :: "string \<Rightarrow> string" where
  "lowercase = map to_lower"

definition host_matches_suffix :: "string \<Rightarrow> string \<Rightarrow> bool" where
  "host_matches_suffix host suffix \<longleftrightarrow>
     host = suffix \<or>
     (length suffix < length host \<and> drop (length host - length suffix) host = suffix \<and>
      host ! (length host - length suffix - 1) = CHR ''.'')"

definition strip_brackets :: "string \<Rightarrow> string" where
  "strip_brackets s =
     (if 2 \<le> length s \<and> hd s = CHR ''['' \<and> last s = CHR '']'' then take (length s - 2) (drop 1 s) else s)"

definition bypass_entry_matches :: "string \<Rightarrow> string \<Rightarrow> bool" where
  "bypass_entry_matches host entry =
     (if entry = ''*'' then True
      else if CHR ''/'' \<in> set entry then ipv4_matches_cidr host entry \<or> ipv6_matches_cidr host entry
      else if starts_with ''*.'' entry then host_matches_suffix host (drop 2 entry)
      else if entry \<noteq> [] \<and> hd entry = CHR ''.'' then host_matches_suffix host (drop 1 entry)
      else if 2 < length entry \<and> ends_with ''.*'' entry then starts_with (take (length entry - 1) entry) host
      else
        let exact = strip_brackets entry;
            numeric_address = exact \<noteq> [] \<and> list_all (\<lambda>c. ascii_digit c \<or> c = CHR ''.'') exact
        in if numeric_address \<or> CHR '':'' \<in> set exact then host = exact else host_matches_suffix host exact)"

fun bypasses_any :: "string \<Rightarrow> int \<Rightarrow> string list \<Rightarrow> bool" where
  "bypasses_any host target_port [] = False"
| "bypasses_any host target_port (raw_entry # rest) =
     (case split_proxy_bypass_port (lowercase raw_entry) of
        None \<Rightarrow> bypasses_any host target_port rest
      | Some (entry, port) \<Rightarrow>
          if port \<noteq> 0 \<and> port \<noteq> target_port then bypasses_any host target_port rest
          else if bypass_entry_matches host entry then True
          else bypasses_any host target_port rest)"

subsection \<open>Proxy URLs\<close>

datatype proxy_protocol_kind = HttpConnect | HttpsConnect | Socks5LocalDns | Socks5RemoteDns

definition forbidden_host_char :: "char \<Rightarrow> bool" where
  "forbidden_host_char c \<longleftrightarrow>
     byte c \<le> 32 \<or> byte c = 127 \<or> c \<in> {CHR ''/'', CHR 0x5C, CHR ''@'', CHR ''?'', CHR ''#''}"

definition valid_host :: "string \<Rightarrow> bool" where
  "valid_host host = (if host = [] \<or> 253 < length host then False else \<not> list_ex forbidden_host_char host)"

definition proxy_scheme :: "string \<Rightarrow> (proxy_protocol_kind \<times> int) option" where
  "proxy_scheme scheme =
     (if scheme = ''http'' then Some (HttpConnect, 80)
      else if scheme = ''https'' then Some (HttpsConnect, 443)
      else if scheme = ''socks5'' then Some (Socks5LocalDns, 1080)
      else if scheme = ''socks5h'' then Some (Socks5RemoteDns, 1080)
      else None)"

text \<open>\<^verbatim>\<open>find_first_of("/?#")\<close>: the authority and, when there is one, the suffix.\<close>

definition authority_end :: "char \<Rightarrow> bool" where
  "authority_end c \<longleftrightarrow> c \<in> {CHR ''/'', CHR ''?'', CHR ''#''}"

text \<open>The host and the port text (\<^term>\<open>None\<close> when no port is given) of an authority.\<close>

definition split_authority :: "string \<Rightarrow> (string \<times> string option) option" where
  "split_authority authority =
     (if hd authority = CHR ''['' then
        case find_char (CHR '']'') authority of
          None \<Rightarrow> None
        | Some close \<Rightarrow>
            if close = 1 then None
            else
              let parsed_host = take (close - 1) (drop 1 authority)
              in if parse_ipv6 parsed_host = None then None
                 else if close + 1 < length authority then
                   if authority ! (close + 1) \<noteq> CHR '':'' then None
                   else Some (parsed_host, Some (drop (close + 2) authority))
                 else Some (parsed_host, None)
      else
        case find_char (CHR '':'') authority of
          None \<Rightarrow> Some (authority, None)
        | Some colon \<Rightarrow>
            if CHR '':'' \<in> set (drop (colon + 1) authority) then None
            else Some (take colon authority, Some (drop (colon + 1) authority)))"

definition proxy_host_char :: "char \<Rightarrow> bool" where
  "proxy_host_char c \<longleftrightarrow> ascii_alnum c \<or> c \<in> {CHR ''.'', CHR ''-'', CHR ''_'', CHR '':''}"

definition proxy_port_text :: "string \<Rightarrow> int option" where
  "proxy_port_text port_text =
     (if port_text = [] then None
      else case from_chars_int port_text of
          None \<Rightarrow> None
        | Some parsed \<Rightarrow> if parsed < 1 \<or> 65535 < parsed then None else Some parsed)"

definition parse_authority :: "string \<Rightarrow> int \<Rightarrow> (string \<times> int) option" where
  "parse_authority authority default_port =
     (case split_authority authority of
        None \<Rightarrow> None
      | Some (parsed_host, port_text) \<Rightarrow>
          if \<not> valid_host parsed_host \<or> \<not> list_all proxy_host_char parsed_host then None
          else case port_text of
              None \<Rightarrow> Some (parsed_host, default_port)
            | Some digits \<Rightarrow> map_option (Pair parsed_host) (proxy_port_text digits))"

definition parse_proxy_url :: "string \<Rightarrow> (string \<times> int \<times> proxy_protocol_kind) option" where
  "parse_proxy_url value =
     (if value = [] \<or> 4096 < length value \<or> list_ex (\<lambda>c. byte c \<le> 32 \<or> byte c = 127) value then None
      else case find_sub ''://'' value of
          None \<Rightarrow> None
        | Some scheme_end \<Rightarrow>
            (case proxy_scheme (lowercase (take scheme_end value)) of
               None \<Rightarrow> None
             | Some (protocol, default_port) \<Rightarrow>
                 let rest = drop (scheme_end + 3) value;
                     authority = takeWhile (\<lambda>c. \<not> authority_end c) rest;
                     suffix = dropWhile (\<lambda>c. \<not> authority_end c) rest
                 in if authority = [] then None
                    else if suffix \<noteq> [] \<and> suffix \<noteq> ''/'' then None
                    else if CHR ''@'' \<in> set authority then None
                    else map_option (\<lambda>(host, port). (host, port, protocol))
                           (parse_authority authority default_port)))"

subsection \<open>References for the parsers\<close>

text \<open>The only spelling of an IPv4 address, and the number an address stands for.\<close>

definition print_ipv4 :: "8 word list \<Rightarrow> string" where
  "print_ipv4 address = join_with (CHR ''.'') (map (\<lambda>b. decimal (unat b)) address)"

fun address_value :: "8 word list \<Rightarrow> nat" where
  "address_value [] = 0"
| "address_value (b # bs) = unat b * 2 ^ (8 * length bs) + address_value bs"

text \<open>The canonical spelling of a proxy endpoint.\<close>

definition scheme_name :: "proxy_protocol_kind \<Rightarrow> string" where
  "scheme_name k = (case k of HttpConnect \<Rightarrow> ''http'' | HttpsConnect \<Rightarrow> ''https''
     | Socks5LocalDns \<Rightarrow> ''socks5'' | Socks5RemoteDns \<Rightarrow> ''socks5h'')"

definition render_authority :: "string \<Rightarrow> int \<Rightarrow> string" where
  "render_authority host port =
     (if CHR '':'' \<in> set host then ''['' @ host @ '']'' else host) @ '':'' @ decimal (nat port)"

definition render_proxy_url :: "string \<times> int \<times> proxy_protocol_kind \<Rightarrow> string" where
  "render_proxy_url = (\<lambda>(host, port, k). scheme_name k @ ''://'' @ render_authority host port)"

definition proxy_endpoint_ok :: "string \<times> int \<times> proxy_protocol_kind \<Rightarrow> bool" where
  "proxy_endpoint_ok = (\<lambda>(host, port, k). valid_host host \<and> list_all proxy_host_char host \<and>
     (CHR '':'' \<in> set host \<longrightarrow> parse_ipv6 host \<noteq> None) \<and> 1 \<le> port \<and> port \<le> 65535)"

subsection \<open>Lemmas\<close>

lemma unat_byte: "unat (b :: 8 word) < 256"
  using unsigned_less [where 'a = nat and w = b] by simp

lemma parse_octet_strict: "parse_octet s = Some w \<longleftrightarrow> s = decimal (unat w)"
proof
  assume "parse_octet s = Some w"
  then have *: "is_digit_sequence s" "length s = 1 \<or> hd s \<noteq> CHR ''0''" "read_decimal s \<le> 255" "w = of_nat (read_decimal s)"
    by (auto simp: parse_octet_def from_chars_unsigned_def is_digit_sequence_def not_less le_Suc_eq neq_Nil_conv
        split: if_splits option.splits)
  then have "unat w = read_decimal s" by (simp add: unat_of_nat take_bit_eq_mod)
  with * show "s = decimal (unat w)" by (simp add: decimal_read_decimal)
next
  assume s: "s = decimal (unat w)"
  have le: "unat w \<le> 255" using unat_byte [of w] by simp
  have "\<not> (1 < length s \<and> hd s = CHR ''0'')"
    using decimal_hd [of "unat w"] s by (auto simp: decimal_zero)
  moreover have "unat w < 2 ^ 32" using le by simp
  ultimately show "parse_octet s = Some w"
    using s le decimal_length_le3 [OF le] by (auto simp: parse_octet_def from_chars_unsigned_def)
qed

lemma parse_ipv4_strict: "parse_ipv4 s = Some a \<longleftrightarrow> length a = 4 \<and> s = print_ipv4 a"
proof
  assume "parse_ipv4 s = Some a"
  then have "length (split_on (CHR ''.'') s) = 4" "split_on (CHR ''.'') s = map (\<lambda>b. decimal (unat b)) a"
    using traverse_iff_map [OF parse_octet_strict] by (auto simp: parse_ipv4_def Let_def split: if_splits)
  then show "length a = 4 \<and> s = print_ipv4 a"
    using join_with_split_on [of "CHR ''.''" s] by (simp add: print_ipv4_def)
next
  assume a: "length a = 4 \<and> s = print_ipv4 a"
  then have "map (\<lambda>b. decimal (unat b)) a \<noteq> []" by auto
  with a have "split_on (CHR ''.'') s = map (\<lambda>b. decimal (unat b)) a"
    using digit_sequence_free by (auto simp: print_ipv4_def intro!: split_on_join_with)
  with a show "parse_ipv4 s = Some a"
    by (simp add: parse_ipv4_def traverse_iff_map [OF parse_octet_strict])
qed

lemma word_bytes_length [simp]: "length (word_bytes w) = 2"
  by (simp add: word_bytes_def)

lemma ipv6_words_length: "ipv6_words s = Some ws \<Longrightarrow> length ws = 8"
  by (auto simp: ipv6_words_def split: option.splits if_splits)

lemma concat_length_2: "(\<And>x. length (f x) = 2) \<Longrightarrow> length (concat (map f xs)) = 2 * length xs"
  by (induction xs) auto

lemma parse_ipv6_length: "parse_ipv6 s = Some a \<Longrightarrow> length a = 16"
  by (auto simp: parse_ipv6_def concat_length_2 dest: ipv6_words_length split: if_splits)

lemma digit_bound: "x < b \<Longrightarrow> v < m \<Longrightarrow> x * m + v < b * (m :: nat)"
  by (metis add_less_cancel_left less_le_trans mult_Suc mult_le_mono1 add.commute Suc_leI)

lemma address_value_less: "address_value bs < 2 ^ (8 * length bs)"
proof (induction bs)
  case (Cons b bs)
  then show ?case using digit_bound [OF unat_byte [of b] Cons] by (simp add: power_add)
qed simp

lemma bit_prefix_mask: "0 < p \<Longrightarrow> p < 8 \<Longrightarrow> i < 8 \<Longrightarrow> bit (prefix_mask p) i \<longleftrightarrow> 8 - p \<le> i"
proof -
  assume a: "0 < p" "p < 8" "i < 8"
  have m: "(255 :: 32 word) = mask 8" by (simp add: mask_eq_exp_minus_1)
  from a show ?thesis unfolding prefix_mask_def m by (auto simp: bit_simps)
qed

lemma drop_bit_eq_iff:
  "drop_bit k a = drop_bit k (b :: 8 word) \<longleftrightarrow> (\<forall>i. i < 8 \<longrightarrow> k \<le> i \<longrightarrow> bit a i = bit b i)"
proof
  assume "drop_bit k a = drop_bit k b"
  then have "bit (drop_bit k a) (i - k) = bit (drop_bit k b) (i - k)" for i by simp
  then have "bit a (k + (i - k)) = bit b (k + (i - k))" for i by (simp add: bit_drop_bit_eq)
  then show "\<forall>i. i < 8 \<longrightarrow> k \<le> i \<longrightarrow> bit a i = bit b i" by (metis le_add_diff_inverse)
next
  assume bits: "\<forall>i. i < 8 \<longrightarrow> k \<le> i \<longrightarrow> bit a i = bit b i"
  have "bit a (k + n) = bit b (k + n)" for n
    using bits by (cases "k + n < 8") (auto simp: bit_word.rep_eq dest: bit_imp_le_length)
  then show "drop_bit k a = drop_bit k b" by (simp add: bit_eq_iff bit_drop_bit_eq)
qed

lemma and_mask_eq_iff:
  assumes "0 < p" "p < 8"
  shows "a AND prefix_mask p = b AND prefix_mask p \<longleftrightarrow> drop_bit (8 - p) a = drop_bit (8 - p) (b :: 8 word)"
  unfolding drop_bit_eq_iff using bit_prefix_mask [OF assms] by (auto simp: bit_eq_iff bit_simps)

lemma and_mask_div:
  assumes "0 < p" "p < 8"
  shows "a AND prefix_mask p = b AND prefix_mask p \<longleftrightarrow> unat a div 2 ^ (8 - p) = unat (b :: 8 word) div 2 ^ (8 - p)"
  unfolding and_mask_eq_iff [OF assms] by (simp add: word_unat_eq_iff unat_drop_bit_eq flip: drop_bit_eq_div)

lemma mult_add_div_pow: "k \<le> m \<Longrightarrow> (x * 2 ^ m + u) div 2 ^ k = x * 2 ^ (m - k) + u div (2 ^ k :: nat)"
proof -
  assume "k \<le> m"
  then have pow: "(2 :: nat) ^ m = 2 ^ k * 2 ^ (m - k)" by (simp flip: power_add)
  have "x * 2 ^ m + u = u + 2 ^ k * (x * 2 ^ (m - k))" unfolding pow by (simp add: mult_ac)
  then show ?thesis by (simp only: div_mult_self2) simp
qed

lemma div_pow_less: "k \<le> m \<Longrightarrow> u < 2 ^ m \<Longrightarrow> u div 2 ^ k < (2 ^ (m - k) :: nat)"
  by (rule less_mult_imp_div_less) (simp flip: power_add)

lemma digits_inject:
  fixes x y u v q :: nat
  assumes "u < q" "v < q" "x * q + u = y * q + v"
  shows "x = y \<and> u = v"
proof -
  from assms(3) have "(x * q + u) div q = (y * q + v) div q" "(x * q + u) mod q = (y * q + v) mod q" by simp_all
  with assms(1,2) show ?thesis by simp
qed

lemma div_high_eq:
  fixes u v :: nat
  assumes "k \<le> m" "u < 2 ^ m" "v < 2 ^ m"
  shows "(x * 2 ^ m + u) div 2 ^ k = (y * 2 ^ m + v) div 2 ^ k \<longleftrightarrow> x = y \<and> u div 2 ^ k = v div 2 ^ k"
  using digits_inject [OF div_pow_less [OF assms(1,2)] div_pow_less [OF assms(1,3)], of x y]
  by (auto simp: mult_add_div_pow [OF assms(1)])

lemma div_low_eq: "u < 2 ^ m \<Longrightarrow> (x * 2 ^ m + u) div 2 ^ (m + j) = x div (2 ^ j :: nat)"
  by (simp add: power_add div_mult2_eq)

lemma matches_prefix_zero: "matches_prefix 0 as ns"
  by (induction as ns rule: list_induct2') auto

lemma matches_prefix_value:
  "length as = length ns \<Longrightarrow> p \<le> 8 * length as \<Longrightarrow>
   matches_prefix p as ns \<longleftrightarrow>
     address_value as div 2 ^ (8 * length as - p) = address_value ns div 2 ^ (8 * length as - p)"
proof (induction as ns arbitrary: p rule: list_induct2)
  case (Cons a as n ns)
  let ?m = "8 * length as"
  have bounds: "address_value as < 2 ^ ?m" "address_value ns < 2 ^ ?m"
    using address_value_less [of as] address_value_less [of ns] Cons.hyps by simp_all
  show ?case
  proof (cases "8 \<le> p")
    case True
    then have k: "8 * length (a # as) - p = ?m - (p - 8)" by simp
    have "matches_prefix p (a # as) (n # ns) \<longleftrightarrow> a = n \<and> matches_prefix (p - 8) as ns" using True by simp
    also have "\<dots> \<longleftrightarrow> unat a = unat n \<and> address_value as div 2 ^ (?m - (p - 8)) = address_value ns div 2 ^ (?m - (p - 8))"
      using Cons.IH [of "p - 8"] Cons.prems by (auto simp: word_unat_eq_iff)
    finally show ?thesis
      unfolding k address_value.simps Cons.hyps [symmetric]
      by (subst div_high_eq [OF _ bounds]) simp_all
  next
    case False
    then have k: "8 * length (a # as) - p = ?m + (8 - p)" by simp
    have small: "unat a div 2 ^ 8 = unat n div 2 ^ 8" using unat_byte [of a] unat_byte [of n] by simp
    have "matches_prefix p (a # as) (n # ns) \<longleftrightarrow> unat a div 2 ^ (8 - p) = unat n div 2 ^ (8 - p)"
      using False small by (cases "p = 0") (simp_all add: matches_prefix_zero and_mask_div)
    then show ?thesis
      unfolding k address_value.simps Cons.hyps [symmetric] div_low_eq [OF bounds(1)] div_low_eq [OF bounds(2)] .
  qed
qed simp

lemma host_matches_suffix_iff:
  "host_matches_suffix host suffix \<longleftrightarrow> host = suffix \<or> (\<exists>labels. host = labels @ CHR ''.'' # suffix)"
proof
  assume m: "host_matches_suffix host suffix"
  show "host = suffix \<or> (\<exists>labels. host = labels @ CHR ''.'' # suffix)"
  proof (cases "host = suffix")
    case False
    let ?k = "length host - length suffix"
    from m False have *: "length suffix < length host" "drop ?k host = suffix" "host ! (?k - 1) = CHR ''.''"
      by (auto simp: host_matches_suffix_def)
    then have "host = take (?k - 1) host @ host ! (?k - 1) # drop ?k host"
      using id_take_nth_drop [of "?k - 1" host] by (simp add: Suc_diff_Suc)
    with * show ?thesis by metis
  qed simp
next
  assume "host = suffix \<or> (\<exists>labels. host = labels @ CHR ''.'' # suffix)"
  then show "host_matches_suffix host suffix" by (auto simp: host_matches_suffix_def nth_append)
qed

lemma byte_to_lower: "byte (to_lower c) = (if ascii_upper c then byte c + 32 else byte c)"
  by (auto simp: to_lower_def ascii_upper_def)

lemma to_lower_eq: "\<not> ascii_upper d \<Longrightarrow> \<not> ascii_lower d \<Longrightarrow> to_lower c = d \<longleftrightarrow> c = d"
  by (auto simp: byte_inject [symmetric] byte_to_lower ascii_upper_def ascii_lower_def)

lemma to_lower_special [simp]:
  "to_lower c = CHR '':'' \<longleftrightarrow> c = CHR '':''" "to_lower c = CHR ''['' \<longleftrightarrow> c = CHR ''[''" "to_lower c = CHR '']'' \<longleftrightarrow> c = CHR '']''"
  by (simp_all add: to_lower_eq byte_class_defs)

lemma to_lower_digit [simp]: "ascii_digit (to_lower c) = ascii_digit c"
  by (auto simp: ascii_digit_def byte_to_lower ascii_upper_def)

lemma find_char_lowercase: "(\<And>c. to_lower c = d \<longleftrightarrow> c = d) \<Longrightarrow> find_char d (lowercase s) = find_char d s"
  by (induction s) (auto simp: lowercase_def)

lemma rfind_char_lowercase: "(\<And>c. to_lower c = d \<longleftrightarrow> c = d) \<Longrightarrow> rfind_char d (lowercase s) = rfind_char d s"
  by (induction s) (auto simp: lowercase_def split: option.splits)

lemma to_lower_digit_id: "ascii_digit c \<Longrightarrow> to_lower c = c"
  by (simp add: to_lower_def ascii_upper_def ascii_digit_def)

lemma bypass_port_bounds: "bypass_port t = Some p \<Longrightarrow> 1 \<le> p \<and> p \<le> 65535"
  by (auto simp: bypass_port_def split: if_splits option.splits)

lemma bypass_port_lowercase: "bypass_port (lowercase t) = bypass_port t"
proof (cases "list_all ascii_digit t")
  case True
  then have "lowercase t = t" by (induction t) (auto simp: lowercase_def to_lower_digit_id)
  then show ?thesis by simp
next
  case False
  then have "\<not> list_all ascii_digit (lowercase t)" by (induction t) (auto simp: lowercase_def)
  with False show ?thesis by (auto simp: bypass_port_def from_chars_unsigned_def is_digit_sequence_def lowercase_def)
qed

lemma split_bypass_lowercase:
  "split_proxy_bypass_port (lowercase e) = map_option (map_prod lowercase id) (split_proxy_bypass_port e)"
proof (cases "e = []")
  case True
  then show ?thesis by (simp add: split_proxy_bypass_port_def lowercase_def)
next
  case False
  have len: "length (lowercase e) = length e" "lowercase e \<noteq> []" using False by (simp_all add: lowercase_def)
  have hd: "hd (lowercase e) = CHR ''['' \<longleftrightarrow> hd e = CHR ''[''" using False by (simp add: lowercase_def hd_map)
  have nth: "lowercase e ! i = CHR '':'' \<longleftrightarrow> e ! i = CHR '':''" if "i < length e" for i
    using that by (simp add: lowercase_def)
  have td: "take i (lowercase e) = lowercase (take i e)" "drop i (lowercase e) = lowercase (drop i e)" for i
    by (simp_all add: lowercase_def take_map drop_map)
  have pair: "map_option (Pair (lowercase a)) o1 = map_option (map_prod lowercase id) (map_option (Pair a) o1)"
    for a and o1 :: "int option" by (cases o1) auto
  show ?thesis
  proof (cases "hd e = CHR ''[''")
    case True
    show ?thesis
    proof (cases "find_char CHR '']'' e")
      case None
      with False True show ?thesis by (simp add: split_proxy_bypass_port_def hd find_char_lowercase)
    next
      case (Some close)
      then have "close < length e" by (auto dest: find_char_SomeD)
      with False True Some nth [of "Suc close"] show ?thesis
        by (simp add: split_proxy_bypass_port_def len hd find_char_lowercase td bypass_port_lowercase pair)
    qed
  next
    case bracketless: False
    show ?thesis
      using False bracketless
      by (simp add: split_proxy_bypass_port_def len hd find_char_lowercase rfind_char_lowercase td bypass_port_lowercase pair
          split: option.split)
  qed
qed

lemma split_bypass_port_range:
  "split_proxy_bypass_port e = Some (host, port) \<Longrightarrow> port = 0 \<or> (1 \<le> port \<and> port \<le> 65535)"
  by (auto simp: split_proxy_bypass_port_def dest: bypass_port_bounds split: if_splits option.splits)

lemma valid_bypass_split:
  assumes "valid_proxy_bypass_entry e"
  obtains host port where "split_proxy_bypass_port e = Some (host, port)" "host \<noteq> []"
  using assms by (auto simp: valid_proxy_bypass_entry_def split: if_splits option.splits)

lemma proxy_port_text_bounds: "proxy_port_text t = Some p \<Longrightarrow> 1 \<le> p \<and> p \<le> 65535"
  by (auto simp: proxy_port_text_def split: if_splits option.splits)

lemma proxy_port_text_decimal:
  assumes "1 \<le> p" "p \<le> 65535"
  shows "proxy_port_text (decimal (nat p)) = Some p"
proof -
  have "hd (decimal (nat p)) \<in> set (decimal (nat p))" by simp
  then have "hd (decimal (nat p)) \<noteq> CHR ''-''" using decimal_digits ascii_digit_not by blast
  with assms show ?thesis by (simp add: proxy_port_text_def from_chars_int_def Let_def)
qed

lemma split_authority_host:
  assumes "split_authority a = Some (h, t)"
  shows "CHR '':'' \<in> set h \<longrightarrow> parse_ipv6 h \<noteq> None"
  using assms
  by (auto simp: split_authority_def Let_def find_char_None dest: find_char_SomeD split: if_splits option.splits)

lemma proxy_scheme_bounds: "proxy_scheme s = Some (k, p) \<Longrightarrow> 1 \<le> p \<and> p \<le> 65535"
  by (auto simp: proxy_scheme_def split: if_splits)

lemma parse_authority_ok:
  assumes "parse_authority a d = Some (h, p)" "proxy_scheme s = Some (k, d)"
  shows "proxy_endpoint_ok (h, p, k)"
  using assms by (auto simp: parse_authority_def proxy_endpoint_ok_def
      dest: split_authority_host proxy_port_text_bounds proxy_scheme_bounds
      split: if_splits option.splits)

lemma parse_proxy_url_ok: "parse_proxy_url v = Some e \<Longrightarrow> proxy_endpoint_ok e"
  by (auto simp: parse_proxy_url_def Let_def intro: parse_authority_ok
      split: if_splits option.splits)

lemma proxy_host_char_facts:
  "proxy_host_char c \<Longrightarrow> \<not> authority_end c \<and> c \<noteq> CHR ''['' \<and> c \<noteq> CHR '']'' \<and> c \<noteq> CHR ''@'' \<and> 32 < byte c \<and> byte c \<noteq> 127"
  by (auto simp: proxy_host_char_def authority_end_def byte_class_defs)

lemma split_render_authority:
  assumes ok: "proxy_endpoint_ok (h, p, k)"
  shows "split_authority (render_authority h p) = Some (h, Some (decimal (nat p)))"
proof -
  have h: "h \<noteq> []" "\<And>c. c \<in> set h \<Longrightarrow> proxy_host_char c"
    using ok by (auto simp: proxy_endpoint_ok_def valid_host_def list_all_iff split: if_splits)
  have close: "CHR '']'' \<notin> set h" "hd h \<noteq> CHR ''[''" using h proxy_host_char_facts by (auto simp: hd_in_set)
  have colon: "CHR '':'' \<notin> set (decimal (nat p))" using digit_sequence_free [OF is_digit_sequence_decimal] by blast
  show ?thesis
  proof (cases "CHR '':'' \<in> set h")
    case True
    have "find_char (CHR '']'') (CHR ''['' # h @ CHR '']'' # t) = Some (Suc (length h))" for t
      using close by (simp add: find_char_append)
    with True h(1) ok show ?thesis
      by (simp add: split_authority_def render_authority_def Let_def proxy_endpoint_ok_def nth_append)
  next
    case False
    with h(1) close colon show ?thesis
      by (simp add: split_authority_def render_authority_def find_char_append)
  qed
qed

lemma render_authority_chars:
  assumes ok: "proxy_endpoint_ok (h, p, k)" and c: "c \<in> set (render_authority h p)"
  shows "\<not> authority_end c \<and> c \<noteq> CHR ''@'' \<and> 32 < byte c \<and> byte c \<noteq> 127"
proof -
  have "proxy_host_char c \<or> c \<in> {CHR ''['', CHR '']''}"
    using ok c decimal_digits by (auto simp: render_authority_def proxy_endpoint_ok_def list_all_iff proxy_host_char_def ascii_alnum_def
      split: if_splits)
  then show ?thesis using proxy_host_char_facts by (auto simp: authority_end_def byte_class_defs)
qed

lemma render_scheme:
  "proxy_scheme (lowercase (take (length (scheme_name k)) (scheme_name k @ t))) = Some (k, snd (the (proxy_scheme (scheme_name k))))"
  by (cases k) (simp_all add: scheme_name_def proxy_scheme_def lowercase_def to_lower_def byte_class_defs)

lemma find_scheme: "find_sub ''://'' (scheme_name k @ ''://'' @ t) = Some (length (scheme_name k))"
  by (cases k) (simp_all add: scheme_name_def starts_with_def)

lemma parse_render_proxy_url: "proxy_endpoint_ok e \<Longrightarrow> parse_proxy_url (render_proxy_url e) = Some e"
proof -
  assume ok: "proxy_endpoint_ok e"
  obtain h p k where e: "e = (h, p, k)" by (cases e)
  let ?a = "render_authority h p" and ?v = "scheme_name k @ ''://'' @ render_authority h p"
  have pb: "1 \<le> p" "p \<le> 65535" and vh: "valid_host h" "list_all proxy_host_char h"
    using ok by (auto simp: e proxy_endpoint_ok_def)
  have chars: "\<not> authority_end c \<and> c \<noteq> CHR ''@'' \<and> 32 < byte c \<and> byte c \<noteq> 127" if "c \<in> set ?a" for c
    using render_authority_chars [OF ok [unfolded e] that] .
  have len: "length ?v \<le> 4096"
  proof -
    have "length h \<le> 253" using vh by (auto simp: valid_host_def split: if_splits)
    moreover have "length (decimal (nat p)) \<le> 5" using pb by (intro decimal_length_le5) simp
    moreover have "length (scheme_name k) \<le> 7" by (cases k) (simp_all add: scheme_name_def)
    ultimately show ?thesis by (simp add: render_authority_def)
  qed
  have plain: "\<not> list_ex (\<lambda>c. byte c \<le> 32 \<or> byte c = 127) ?v"
  proof -
    have "\<not> list_ex (\<lambda>c. byte c \<le> 32 \<or> byte c = 127) (scheme_name k @ ''://'')"
      by (cases k) (simp_all add: scheme_name_def byte_def)
    then show ?thesis using chars by (force simp: list_ex_iff)
  qed
  have rest: "drop (length (scheme_name k) + 3) ?v = ?a" by simp
  have whole: "takeWhile (\<lambda>c. \<not> authority_end c) ?a = ?a" "dropWhile (\<lambda>c. \<not> authority_end c) ?a = []"
    using takeWhile_all [of ?a] chars by auto
  have "?a \<noteq> []" by (simp add: render_authority_def)
  moreover have "CHR ''@'' \<notin> set ?a" using chars by blast
  moreover have "parse_authority ?a d = Some (h, p)" for d
    using split_render_authority [OF ok [unfolded e]] vh proxy_port_text_decimal [OF pb] by (simp add: parse_authority_def)
  ultimately show ?thesis
    using len plain render_scheme [of k "''://'' @ ?a"] find_scheme [of k ?a]
    by (simp add: e render_proxy_url_def parse_proxy_url_def Let_def whole)
qed

end
