(* ===== verification/ConfigDeny.thy ===== *)
theory ConfigDeny
  imports ConfigNet
begin

text \<open>
  The \<^verbatim>\<open>server.exec\<close> deny list of the service configuration
  (\<^verbatim>\<open>src/native/src/config.cpp\<close>): the whitespace normalisation, the parser of the JSON list,
  its printer and the decision whether a command is denied.  An exception is its message.
  \<^verbatim>\<open>std::regex\<close> is a pair of parameters: \<open>compile\<close> takes the case flag and the source and
  is \<^term>\<open>None\<close> where the constructor throws, \<open>search\<close> is \<^term>\<open>None\<close> where
  \<^verbatim>\<open>regex_search\<close> throws.
\<close>

subsection \<open>Whitespace\<close>

definition is_server_exec_pattern_space :: "char \<Rightarrow> bool" where
  "is_server_exec_pattern_space c \<longleftrightarrow>
     c = CHR '' '' \<or> c = CHR 0x09 \<or> c = CHR 0x0D \<or> c = CHR 0x0A \<or> c = CHR 0x0C \<or> c = CHR 0x0B"

fun normalize_loop :: "bool \<Rightarrow> string \<Rightarrow> string \<Rightarrow> string" where
  "normalize_loop pending_space normalized [] = normalized"
| "normalize_loop pending_space normalized (c # cs) =
     (if is_server_exec_pattern_space c then normalize_loop True normalized cs
      else
        let spaced = (if pending_space \<and> normalized \<noteq> [] then normalized @ '' '' else normalized)
        in normalize_loop False (spaced @ [c]) cs)"

definition normalize_server_exec_text :: "string \<Rightarrow> string" where
  "normalize_server_exec_text txt = normalize_loop False [] txt"

subsection \<open>The list\<close>

record 'rx deny_entry =
  pattern :: string
  is_regex :: bool
  case_insensitive :: bool
  expression :: "'rx option"

definition kMaxServerExecDenyEntries :: nat where
  "kMaxServerExecDenyEntries = 256"

definition kMaxServerExecDenyPatternBytes :: nat where
  "kMaxServerExecDenyPatternBytes = 1024"

definition require_object :: "json \<Rightarrow> string \<Rightarrow> string + unit" where
  "require_object value label = check_that (is_object value) (label @ '' must be an object'')"

definition require_only_keys :: "json \<Rightarrow> string list \<Rightarrow> string \<Rightarrow> string + unit" where
  "require_only_keys value allowed label =
     check_that (list_all (\<lambda>kv. fst kv \<in> set allowed) (members value)) (label @ '' contains an unknown field'')"

definition optional_boolean :: "json \<Rightarrow> string \<Rightarrow> string \<Rightarrow> string + bool" where
  "optional_boolean item key entry_label =
     (case obj_find item key of
        None \<Rightarrow> Inr False
      | Some (JBool b) \<Rightarrow> Inr b
      | Some _ \<Rightarrow> Inl (entry_label @ ''.'' @ key @ '' must be a boolean''))"

text \<open>The raw pattern (\<^term>\<open>None\<close> when \<^verbatim>\<open>has_pattern\<close> stays false) and the two flags of one item.\<close>

definition read_deny_item :: "json \<Rightarrow> string \<Rightarrow> string + (string option \<times> bool \<times> bool)" where
  "read_deny_item item entry_label =
     (case item of
        JString s \<Rightarrow> Inr (Some s, False, False)
      | JObject kvs \<Rightarrow>
          res_bind (require_only_keys item [''pattern'', ''regex'', ''case_insensitive''] entry_label) (\<lambda>_.
          res_bind (optional_boolean item ''regex'' entry_label) (\<lambda>regex.
          res_bind (optional_boolean item ''case_insensitive'' entry_label) (\<lambda>icase.
          Inr (find_string item ''pattern'', regex, icase))))
      | _ \<Rightarrow> Inl (entry_label @ '' must be a string or an object''))"

text \<open>The checks on the raw pattern, its normalisation and the compilation of a regular expression.\<close>

definition build_deny_entry ::
  "(bool \<Rightarrow> string \<Rightarrow> 'rx option) \<Rightarrow> string \<Rightarrow> string option \<Rightarrow> bool \<Rightarrow> bool \<Rightarrow> string + 'rx deny_entry" where
  "build_deny_entry compile entry_label raw regex icase =
     (let invalid_pattern = entry_label @ ''.pattern must be a non-empty string of at most '' @
            decimal kMaxServerExecDenyPatternBytes @ '' bytes''
      in case raw of
           None \<Rightarrow> Inl invalid_pattern
         | Some raw_pattern \<Rightarrow>
             if kMaxServerExecDenyPatternBytes < length raw_pattern \<or> nul \<in> set raw_pattern
             then Inl invalid_pattern
             else
               let source = normalize_server_exec_text raw_pattern
               in if source = [] then Inl invalid_pattern
                  else if regex then
                    case compile icase source of
                      None \<Rightarrow> Inl (entry_label @ ''.pattern is not a valid regular expression'')
                    | Some rx \<Rightarrow>
                        Inr \<lparr>pattern = source, is_regex = True, case_insensitive = icase, expression = Some rx\<rparr>
                  else Inr \<lparr>pattern = source, is_regex = False, case_insensitive = icase, expression = None\<rparr>)"

definition parse_deny_entry ::
  "(bool \<Rightarrow> string \<Rightarrow> 'rx option) \<Rightarrow> json \<Rightarrow> string \<Rightarrow> string + 'rx deny_entry" where
  "parse_deny_entry compile item entry_label =
     res_bind (read_deny_item item entry_label) (\<lambda>(raw, regex, icase).
     build_deny_entry compile entry_label raw regex icase)"

fun parse_deny_items ::
  "(bool \<Rightarrow> string \<Rightarrow> 'rx option) \<Rightarrow> string \<Rightarrow> nat \<Rightarrow> json list \<Rightarrow> string + 'rx deny_entry list" where
  "parse_deny_items compile label i [] = Inr []"
| "parse_deny_items compile label i (item # items) =
     res_bind (parse_deny_entry compile item (label @ ''['' @ decimal i @ '']'')) (\<lambda>entry.
     res_bind (parse_deny_items compile label (Suc i) items) (\<lambda>entries.
     Inr (entry # entries)))"

definition parse_server_exec_denylist ::
  "(bool \<Rightarrow> string \<Rightarrow> 'rx option) \<Rightarrow> json \<Rightarrow> string \<Rightarrow> string + 'rx deny_entry list" where
  "parse_server_exec_denylist compile value label =
     (case value of
        JArray items \<Rightarrow>
          if kMaxServerExecDenyEntries < length items
          then Inl (label @ '' must contain at most '' @ decimal kMaxServerExecDenyEntries @ '' entries'')
          else parse_deny_items compile label 0 items
      | _ \<Rightarrow> Inl (label @ '' must be an array''))"

definition server_exec_denylist_to_json :: "'rx deny_entry list \<Rightarrow> json" where
  "server_exec_denylist_to_json entries =
     JArray (map (\<lambda>entry. JObject
       [(''case_insensitive'', JBool (case_insensitive entry)),
        (''pattern'', JString (pattern entry)),
        (''regex'', JBool (is_regex entry))]) entries)"

subsection \<open>The decision\<close>

definition deny_entry_matches :: "('rx \<Rightarrow> string \<Rightarrow> bool option) \<Rightarrow> string \<Rightarrow> 'rx deny_entry \<Rightarrow> bool" where
  "deny_entry_matches search normalized_command entry =
     (if is_regex entry then
        case expression entry of
          None \<Rightarrow> False
        | Some rx \<Rightarrow> (case search rx normalized_command of None \<Rightarrow> False | Some found \<Rightarrow> found)
      else
        let candidate = (if case_insensitive entry then lowercase normalized_command else normalized_command);
            needle = (if case_insensitive entry then lowercase (pattern entry) else pattern entry)
        in find_sub needle candidate \<noteq> None)"

fun first_denial :: "('rx \<Rightarrow> string \<Rightarrow> bool option) \<Rightarrow> string \<Rightarrow> 'rx deny_entry list \<Rightarrow> string option" where
  "first_denial search normalized_command [] = None"
| "first_denial search normalized_command (entry # entries) =
     (if deny_entry_matches search normalized_command entry then Some (pattern entry)
      else first_denial search normalized_command entries)"

text \<open>\<^term>\<open>Some p\<close> is the verdict \<^verbatim>\<open>true\<close> with \<open>p\<close> as the matched pattern.\<close>

definition server_exec_command_is_denied ::
  "('rx \<Rightarrow> string \<Rightarrow> bool option) \<Rightarrow> 'rx deny_entry list \<Rightarrow> string \<Rightarrow> string option" where
  "server_exec_command_is_denied search entries command =
     first_denial search (normalize_server_exec_text command) entries"

subsection \<open>References\<close>

text \<open>The words of a command: its maximal runs of characters that are not spaces.\<close>

fun words_loop :: "string \<Rightarrow> string \<Rightarrow> string list" where
  "words_loop word [] = (if word = [] then [] else [word])"
| "words_loop word (c # cs) =
     (if is_server_exec_pattern_space c
      then (if word = [] then words_loop [] cs else word # words_loop [] cs)
      else words_loop (word @ [c]) cs)"

definition command_words :: "string \<Rightarrow> string list" where
  "command_words s = words_loop [] s"

text \<open>What every entry of a parsed list satisfies.\<close>

definition deny_entry_ok :: "(bool \<Rightarrow> string \<Rightarrow> 'rx option) \<Rightarrow> 'rx deny_entry \<Rightarrow> bool" where
  "deny_entry_ok compile e \<longleftrightarrow>
     pattern e \<noteq> [] \<and> length (pattern e) \<le> kMaxServerExecDenyPatternBytes \<and> nul \<notin> set (pattern e) \<and>
     normalize_server_exec_text (pattern e) = pattern e \<and>
     expression e = (if is_regex e then compile (case_insensitive e) (pattern e) else None) \<and>
     (is_regex e \<longrightarrow> expression e \<noteq> None)"

subsection \<open>Lemmas\<close>

lemma words_loop_nonempty: "w \<in> set (words_loop acc s) \<Longrightarrow> w \<noteq> []"
  by (induction acc s rule: words_loop.induct) (auto split: if_splits)

lemma words_loop_free:
  "list_all (\<lambda>c. \<not> is_server_exec_pattern_space c) acc \<Longrightarrow> w \<in> set (words_loop acc s) \<Longrightarrow>
   list_all (\<lambda>c. \<not> is_server_exec_pattern_space c) w"
proof (induction acc s arbitrary: w rule: words_loop.induct)
  case (2 word c cs)
  then show ?case by (cases "is_server_exec_pattern_space c"; cases "word = []") auto
qed (auto split: if_splits)

lemma join_snoc: "ws \<noteq> [] \<Longrightarrow> join_with d (ws @ [w]) = join_with d ws @ d # w"
  by (induction d ws rule: join_with.induct) auto

lemma join_snoc_char: "join_with d (ws @ [w @ [c]]) = join_with d (ws @ [w]) @ [c]"
  by (cases "ws = []") (simp_all add: join_snoc)

lemma join_with_Nil_iff: "[] \<notin> set ws \<Longrightarrow> join_with d ws = [] \<longleftrightarrow> ws = []"
  by (cases "(d, ws)" rule: join_with.cases) auto

text \<open>The loop has written the closed words and then the open one.\<close>

lemma normalize_loop_words:
  "[] \<notin> set ws \<Longrightarrow>
   (w \<noteq> [] \<longrightarrow> normalize_loop False (join_with (CHR '' '') (ws @ [w])) s = join_with (CHR '' '') (ws @ words_loop w s)) \<and>
   normalize_loop True (join_with (CHR '' '') ws) s = join_with (CHR '' '') (ws @ words_loop [] s)"
proof (induction s arbitrary: ws w)
  case (Cons c cs)
  show ?case
  proof (cases "is_server_exec_pattern_space c")
    case True
    with Cons.IH [of ws] Cons.IH [of "ws @ [w]"] Cons.prems show ?thesis by simp
  next
    case False
    have opened: "normalize_loop False (join_with (CHR '' '') (ws @ [v])) cs = join_with (CHR '' '') (ws @ words_loop v cs)"
      if "v \<noteq> []" for v using Cons.IH [of ws v] Cons.prems that by simp
    have fresh: "(if join_with (CHR '' '') ws \<noteq> [] then join_with (CHR '' '') ws @ '' '' else join_with (CHR '' '') ws) @ [c] =
        join_with (CHR '' '') (ws @ [[c]])"
      using Cons.prems by (cases "ws = []") (simp_all add: join_with_Nil_iff join_snoc)
    have "join_with (CHR '' '') (ws @ [w]) @ [c] = join_with (CHR '' '') (ws @ [w @ [c]])" by (simp add: join_snoc_char)
    with False opened [of "w @ [c]"] opened [of "[c]"] fresh show ?thesis by (simp add: Let_def)
  qed
qed simp

lemma normalize_loop_start: "normalize_loop False [] s = normalize_loop True [] s"
  by (cases s) (auto simp: Let_def)

lemma normalize_words: "normalize_server_exec_text s = join_with (CHR '' '') (command_words s)"
  using normalize_loop_words [of "[]" "[]" s] normalize_loop_start [of s]
  by (simp add: normalize_server_exec_text_def command_words_def)

lemma words_loop_prefix:
  "list_all (\<lambda>c. \<not> is_server_exec_pattern_space c) w \<Longrightarrow> words_loop acc (w @ s) = words_loop (acc @ w) s"
  by (induction w arbitrary: acc) auto

lemma words_of_join:
  "[] \<notin> set ws \<Longrightarrow> (\<And>w. w \<in> set ws \<Longrightarrow> list_all (\<lambda>c. \<not> is_server_exec_pattern_space c) w) \<Longrightarrow>
   words_loop [] (join_with (CHR '' '') ws) = ws"
proof (induction "CHR '' ''" ws rule: join_with.induct)
  case (2 s)
  then show ?case using words_loop_prefix [of s "[]" "[]"] by simp
next
  case (3 s t ss)
  have "words_loop [] (s @ CHR '' '' # join_with (CHR '' '') (t # ss)) = s # words_loop [] (join_with (CHR '' '') (t # ss))"
    using 3 words_loop_prefix [of s "[]"] by (auto simp: is_server_exec_pattern_space_def)
  with 3 show ?case by simp
qed simp

lemma command_words_normalize: "command_words (normalize_server_exec_text s) = command_words s"
proof -
  have "[] \<notin> set (command_words s)" using words_loop_nonempty [of "[]" "[]" s] by (auto simp: command_words_def)
  moreover have "list_all (\<lambda>c. \<not> is_server_exec_pattern_space c) w" if "w \<in> set (command_words s)" for w
    using words_loop_free [of "[]" w s] that by (simp add: command_words_def)
  ultimately show ?thesis using words_of_join [of "command_words s"] by (simp add: normalize_words command_words_def)
qed

lemma normalize_idem: "normalize_server_exec_text (normalize_server_exec_text s) = normalize_server_exec_text s"
  by (simp only: normalize_words [of "normalize_server_exec_text s"] command_words_normalize) (simp add: normalize_words)

lemma normalize_loop_length: "length (normalize_loop b acc s) \<le> length acc + (if b then 1 else 0) + length s"
  by (induction b acc s rule: normalize_loop.induct) (auto simp: Let_def split: if_splits)

lemma normalize_length: "length (normalize_server_exec_text s) \<le> length s"
  using normalize_loop_length [of False "[]" s] by (simp add: normalize_server_exec_text_def)

lemma normalize_loop_chars: "set (normalize_loop b acc s) \<subseteq> set acc \<union> set s \<union> {CHR '' ''}"
  by (induction b acc s rule: normalize_loop.induct) (fastforce simp: Let_def split: if_splits)+

lemma normalize_no_nul: "nul \<notin> set s \<Longrightarrow> nul \<notin> set (normalize_server_exec_text s)"
  using normalize_loop_chars [of False "[]" s] by (auto simp: normalize_server_exec_text_def nul_def)

subsubsection \<open>Parsing\<close>

lemma build_deny_entry_ok:
  assumes "build_deny_entry compile l raw regex icase = Inr e"
  shows "deny_entry_ok compile e"
proof -
  from assms obtain s where s: "raw = Some s" "length s \<le> kMaxServerExecDenyPatternBytes" "nul \<notin> set s"
    "normalize_server_exec_text s \<noteq> []"
    by (auto simp: build_deny_entry_def Let_def split: option.split_asm if_split_asm)
  have "length (normalize_server_exec_text s) \<le> kMaxServerExecDenyPatternBytes"
    using s(2) normalize_length [of s] by simp
  with assms s normalize_no_nul [OF s(3)] show ?thesis
    by (auto simp: build_deny_entry_def Let_def deny_entry_ok_def normalize_idem split: option.split_asm if_split_asm)
qed

lemma parse_deny_entry_ok: "parse_deny_entry compile item l = Inr e \<Longrightarrow> deny_entry_ok compile e"
  by (auto simp: parse_deny_entry_def res_bind_eq_Inr intro: build_deny_entry_ok)

lemma parse_deny_items_ok:
  "parse_deny_items compile l i items = Inr es \<Longrightarrow> list_all (deny_entry_ok compile) es \<and> length es = length items"
  by (induction items arbitrary: i es) (auto simp: res_bind_eq_Inr dest: parse_deny_entry_ok)

definition deny_entry_json :: "'rx deny_entry \<Rightarrow> json" where
  "deny_entry_json entry = JObject
       [(''case_insensitive'', JBool (case_insensitive entry)),
        (''pattern'', JString (pattern entry)),
        (''regex'', JBool (is_regex entry))]"

lemma read_deny_item_json:
  "read_deny_item (deny_entry_json e) l = Inr (Some (pattern e), is_regex e, case_insensitive e)"
  by (simp add: deny_entry_json_def read_deny_item_def require_only_keys_def check_that_def
      optional_boolean_def find_string_def)

lemma build_deny_entry_id:
  assumes "deny_entry_ok compile e"
  shows "build_deny_entry compile l (Some (pattern e)) (is_regex e) (case_insensitive e) = Inr e"
  using assms by (cases e) (auto simp: build_deny_entry_def deny_entry_ok_def Let_def split: option.split)

lemma parse_deny_entry_json:
  "deny_entry_ok compile e \<Longrightarrow> parse_deny_entry compile (deny_entry_json e) l = Inr e"
  by (simp add: parse_deny_entry_def read_deny_item_json build_deny_entry_id)

lemma parse_deny_items_json:
  "list_all (deny_entry_ok compile) es \<Longrightarrow> parse_deny_items compile l i (map deny_entry_json es) = Inr es"
  by (induction es arbitrary: i) (simp_all add: parse_deny_entry_json)

lemma denylist_to_json_map: "server_exec_denylist_to_json es = JArray (map deny_entry_json es)"
  by (simp add: server_exec_denylist_to_json_def deny_entry_json_def)

lemma denylist_ok:
  "parse_server_exec_denylist compile v l = Inr es \<Longrightarrow>
   list_all (deny_entry_ok compile) es \<and> length es \<le> kMaxServerExecDenyEntries"
  by (auto simp: parse_server_exec_denylist_def dest: parse_deny_items_ok split: json.splits if_splits)

lemma denylist_json_roundtrip:
  "list_all (deny_entry_ok compile) es \<Longrightarrow> length es \<le> kMaxServerExecDenyEntries \<Longrightarrow>
   parse_server_exec_denylist compile (server_exec_denylist_to_json es) l = Inr es"
  by (simp add: denylist_to_json_map parse_server_exec_denylist_def parse_deny_items_json)

subsubsection \<open>Messages\<close>

lemma starts_with_trans: "starts_with a b \<Longrightarrow> starts_with b c \<Longrightarrow> starts_with a c"
  by (auto simp: starts_with_iff)

lemma read_deny_item_message: "read_deny_item item l = Inl m \<Longrightarrow> starts_with l m"
  by (auto simp: read_deny_item_def res_bind_eq_Inl require_only_keys_def optional_boolean_def starts_with_iff
      split: json.splits option.splits)

lemma build_deny_entry_message: "build_deny_entry compile l raw regex icase = Inl m \<Longrightarrow> starts_with l m"
  by (auto simp: build_deny_entry_def Let_def starts_with_iff split: option.split_asm if_split_asm)

lemma parse_deny_entry_message: "parse_deny_entry compile item l = Inl m \<Longrightarrow> starts_with l m"
  by (auto simp: parse_deny_entry_def res_bind_eq_Inl dest: read_deny_item_message build_deny_entry_message)

lemma parse_deny_items_message: "parse_deny_items compile l i items = Inl m \<Longrightarrow> starts_with l m"
  by (induction items arbitrary: i) (auto simp: res_bind_eq_Inl dest: parse_deny_entry_message
      intro: starts_with_trans [OF starts_with_append])

lemma denylist_message: "parse_server_exec_denylist compile v l = Inl m \<Longrightarrow> starts_with l m"
  by (auto simp: parse_server_exec_denylist_def dest: parse_deny_items_message split: json.splits if_splits)

subsubsection \<open>Verdicts\<close>

lemma first_denial_append:
  "first_denial search c (xs @ ys) = (case first_denial search c xs of None \<Rightarrow> first_denial search c ys | Some p \<Rightarrow> Some p)"
  by (induction xs) auto

lemma first_denial_None: "first_denial search c es = None \<longleftrightarrow> (\<forall>e\<in>set es. \<not> deny_entry_matches search c e)"
  by (induction es) auto

lemma first_denial_SomeD:
  "first_denial search c es = Some p \<Longrightarrow> \<exists>e\<in>set es. deny_entry_matches search c e \<and> pattern e = p"
  by (induction es) (auto split: if_splits)

end
