(* ===== verification/ConfigParse.thy ===== *)
theory ConfigParse
  imports ConfigDeny
begin

text \<open>
  The service configuration (\<^verbatim>\<open>parse_config\<close> and \<^verbatim>\<open>load_config\<close> of
  \<^verbatim>\<open>src/native/src/config.cpp\<close>, the structures of \<^verbatim>\<open>yukinal/config.hpp\<close>).  The loop
  over the targets is a recursion; each part of its body is a definition that takes the target
  built so far and returns it updated, or the message of the exception.  \<^verbatim>\<open>std::regex\<close>,
  \<^verbatim>\<open>std::filesystem::path\<close> and the certificate-authority key parser
  (\<^verbatim>\<open>host_ca_public_key_blob\<close>) are arguments, collected in the record \<open>config_env\<close>.
\<close>

record 'rx config_env =
  regex_compile :: "bool \<Rightarrow> string \<Rightarrow> 'rx option"
  path_is_relative :: "string \<Rightarrow> bool"
  path_is_absolute :: "string \<Rightarrow> bool"
  path_append :: "string \<Rightarrow> string \<Rightarrow> string"
  path_lexically_normal :: "string \<Rightarrow> string"
  host_ca_public_key_blob :: "string \<Rightarrow> string option"

record 'rx target_config =
  tc_target_id :: string
  tc_host :: string
  tc_port :: int
  tc_username :: string
  tc_known_hosts_file :: string
  tc_host_key_fingerprint :: string
  tc_host_ca_public_key :: string
  tc_host_principals :: "string list"
  tc_host_ca_revocation_list_path :: string
  tc_host_ca_revocation_list_url :: string
  tc_host_ca_revocation_list_signers :: "string list"
  tc_private_key_file :: string
  tc_public_key_file :: string
  tc_private_key_env :: string
  tc_password_env :: string
  tc_passphrase_env :: string
  tc_proxy_host :: string
  tc_proxy_port :: int
  tc_proxy_protocol :: proxy_protocol_kind
  tc_proxy_auth_env :: string
  tc_proxy_no_proxy :: "string list"
  tc_agent_auth :: bool
  tc_probe_only :: bool
  tc_allow_server_exec :: bool
  tc_server_exec_denylist :: "'rx deny_entry list"

definition default_target :: "'rx target_config" where
  "default_target =
     \<lparr>tc_target_id = [], tc_host = [], tc_port = 22, tc_username = [], tc_known_hosts_file = [],
      tc_host_key_fingerprint = [], tc_host_ca_public_key = [], tc_host_principals = [],
      tc_host_ca_revocation_list_path = [], tc_host_ca_revocation_list_url = [],
      tc_host_ca_revocation_list_signers = [], tc_private_key_file = [], tc_public_key_file = [],
      tc_private_key_env = [], tc_password_env = [], tc_passphrase_env = [], tc_proxy_host = [],
      tc_proxy_port = 0, tc_proxy_protocol = HttpConnect, tc_proxy_auth_env = [], tc_proxy_no_proxy = [],
      tc_agent_auth = False, tc_probe_only = False, tc_allow_server_exec = False,
      tc_server_exec_denylist = []\<rparr>"

record 'rx service_config =
  sc_listen_port :: int
  sc_api_token_env :: string
  sc_targets :: "string \<rightharpoonup> 'rx target_config"
  sc_server_exec_denylist :: "'rx deny_entry list"

subsection \<open>Fields\<close>

definition has_member :: "json \<Rightarrow> string \<Rightarrow> bool" where
  "has_member value key \<longleftrightarrow> obj_find value key \<noteq> None"

definition required_string :: "json \<Rightarrow> string \<Rightarrow> string \<Rightarrow> string + string" where
  "required_string value key label =
     (case find_string value key of
        Some s \<Rightarrow> if s = [] then Inl (label @ ''.'' @ key @ '' must be a non-empty string'') else Inr s
      | None \<Rightarrow> Inl (label @ ''.'' @ key @ '' must be a non-empty string''))"

definition required_integer :: "json \<Rightarrow> string \<Rightarrow> int \<Rightarrow> int \<Rightarrow> string \<Rightarrow> string + int" where
  "required_integer value key minimum maximum label =
     (case obj_find value key of
        Some (JUnsigned w) \<Rightarrow>
          if unat w < unat (of_int minimum :: 64 word) \<or> unat (of_int maximum :: 64 word) < unat w
          then Inl (label @ ''.'' @ key @ '' is out of range'') else Inr (uint w)
      | Some (JInt w) \<Rightarrow>
          if sint w < minimum \<or> maximum < sint w
          then Inl (label @ ''.'' @ key @ '' is out of range'') else Inr (sint w)
      | _ \<Rightarrow> Inl (label @ ''.'' @ key @ '' must be an integer''))"

definition valid_env_name :: "string \<Rightarrow> bool" where
  "valid_env_name =
     ident (\<lambda>c. ascii_upper c \<or> ascii_lower c \<or> c = CHR ''_'') (\<lambda>c. ascii_alnum c \<or> c = CHR ''_'') 128"

definition valid_proxy_credential_env_name :: "string \<Rightarrow> bool" where
  "valid_proxy_credential_env_name name =
     (if \<not> valid_env_name name then False
      else
        let normalized = map to_upper name
        in if starts_with ''YUKINAL_'' normalized then False
           else normalized \<notin> set [''PATH'', ''SYSTEMROOT'', ''WINDIR'', ''TEMP'', ''TMP'', ''HOME'', ''USERPROFILE'',
                                   ''TMPDIR'', ''LD_LIBRARY_PATH'', ''DYLD_LIBRARY_PATH''])"

definition valid_username :: "string \<Rightarrow> bool" where
  "valid_username =
     ident (\<lambda>c. ascii_upper c \<or> ascii_lower c \<or> c = CHR ''_'')
       (\<lambda>c. ascii_alnum c \<or> c \<in> {CHR ''_'', CHR ''.'', CHR ''-''}) 64"

definition valid_config_fingerprint :: "string \<Rightarrow> bool" where
  "valid_config_fingerprint fingerprint \<longleftrightarrow>
     starts_with ''SHA256:'' fingerprint \<and> length fingerprint = 50 \<and>
     list_all (\<lambda>c. ascii_alnum c \<or> c = CHR ''+'' \<or> c = CHR ''/'') (drop 7 fingerprint)"

definition resolve_path :: "'rx config_env \<Rightarrow> string \<Rightarrow> string \<Rightarrow> string" where
  "resolve_path env path base_directory =
     (let result = (if path_is_relative env path \<and> base_directory \<noteq> [] then path_append env base_directory path else path)
      in path_lexically_normal env result)"

definition named_env :: "(string \<Rightarrow> bool) \<Rightarrow> json \<Rightarrow> string \<Rightarrow> string \<Rightarrow> string + string" where
  "named_env valid value key label =
     res_bind (required_string value key label) (\<lambda>name.
     if valid name then Inr name else Inl (label @ ''.'' @ key @ '' is invalid''))"

subsection \<open>Identity, deny list and flags\<close>

definition parse_identity :: "json \<Rightarrow> string \<Rightarrow> string + 'rx target_config" where
  "parse_identity entry label =
     res_bind (required_string entry ''target_id'' label) (\<lambda>target_id.
     res_bind (required_string entry ''host'' label) (\<lambda>host.
     res_bind (required_integer entry ''port'' 1 65535 label) (\<lambda>port.
     res_bind (required_string entry ''username'' label) (\<lambda>username.
     Inr (default_target\<lparr>tc_target_id := target_id, tc_host := host, tc_port := port, tc_username := username\<rparr>)))))"

definition parse_target_denylist ::
  "'rx config_env \<Rightarrow> 'rx deny_entry list \<Rightarrow> json \<Rightarrow> string \<Rightarrow> 'rx target_config \<Rightarrow> string + 'rx target_config" where
  "parse_target_denylist env service_entries entry label target =
     (case obj_find entry ''server_exec_denylist'' of
        None \<Rightarrow> Inr (target\<lparr>tc_server_exec_denylist := service_entries\<rparr>)
      | Some value \<Rightarrow>
          res_bind (parse_server_exec_denylist (regex_compile env) value (label @ ''.server_exec_denylist'')) (\<lambda>own.
          Inr (target\<lparr>tc_server_exec_denylist := service_entries @ own\<rparr>)))"

definition parse_flags :: "json \<Rightarrow> string \<Rightarrow> 'rx target_config \<Rightarrow> string + 'rx target_config" where
  "parse_flags entry label target =
     res_bind (optional_boolean entry ''probe_only'' label) (\<lambda>probe_only.
     res_bind (optional_boolean entry ''allow_server_exec'' label) (\<lambda>allow_server_exec.
     if allow_server_exec \<and> probe_only then Inl (label @ ''.probe_only targets cannot allow server.exec'')
     else Inr (target\<lparr>tc_probe_only := probe_only, tc_allow_server_exec := allow_server_exec\<rparr>)))"

subsection \<open>Host-key trust\<close>

fun read_principals :: "string \<Rightarrow> string set \<Rightarrow> json list \<Rightarrow> string + string list" where
  "read_principals label unique_principals [] = Inr []"
| "read_principals label unique_principals (item # rest) =
     (case item of
        JString value \<Rightarrow>
          if value = [] \<or> 253 < length value \<or> value \<in> unique_principals
          then Inl (label @ ''.host_certificate_authority.principals contains an invalid pattern'')
          else res_bind (read_principals label (insert value unique_principals) rest) (\<lambda>values. Inr (value # values))
      | _ \<Rightarrow> Inl (label @ ''.host_certificate_authority.principals must contain strings''))"

definition optional_path :: "json \<Rightarrow> string \<Rightarrow> string \<Rightarrow> string + string" where
  "optional_path authority key label =
     (case obj_find authority key of
        None \<Rightarrow> Inr []
      | Some (JString s) \<Rightarrow>
          let destination = trim_blank s
          in if destination = [] \<or> 4096 < length destination \<or> nul \<in> set destination
             then Inl (label @ ''.host_certificate_authority.'' @ key @ '' is invalid'')
             else Inr destination
      | Some _ \<Rightarrow> Inl (label @ ''.host_certificate_authority.'' @ key @ '' must be a string''))"

fun read_signers :: "(string \<Rightarrow> string option) \<Rightarrow> string \<Rightarrow> string set \<Rightarrow> json list \<Rightarrow> string + string list" where
  "read_signers blob label signer_blobs [] = Inr []"
| "read_signers blob label signer_blobs (signer # rest) =
     (if \<not> is_string signer \<or> get_string signer = []
      then Inl (label @ ''.host_certificate_authority.revocation_list_signers must contain public-key strings'')
      else case blob (get_string signer) of
          None \<Rightarrow> Inl (label @ ''.host_certificate_authority.revocation_list_signers contains an invalid or duplicate key'')
        | Some b \<Rightarrow>
            if b \<in> signer_blobs
            then Inl (label @ ''.host_certificate_authority.revocation_list_signers contains an invalid or duplicate key'')
            else res_bind (read_signers blob label (insert b signer_blobs) rest) (\<lambda>more. Inr (get_string signer # more)))"

definition parse_signers ::
  "'rx config_env \<Rightarrow> string \<Rightarrow> json \<Rightarrow> string \<Rightarrow> string + string list" where
  "parse_signers env ca_blob authority label =
     (case obj_find authority ''revocation_list_signers'' of
        None \<Rightarrow> Inr []
      | Some (JArray signers) \<Rightarrow>
          if 16 < length signers
          then Inl (label @ ''.host_certificate_authority.revocation_list_signers must contain at most 16 keys'')
          else read_signers (host_ca_public_key_blob env) label {ca_blob} signers
      | Some _ \<Rightarrow> Inl (label @ ''.host_certificate_authority.revocation_list_signers must contain at most 16 keys''))"

definition parse_principals :: "json \<Rightarrow> string \<Rightarrow> string + string list" where
  "parse_principals authority label =
     (case obj_find authority ''principals'' of
        Some (JArray principals) \<Rightarrow>
          if principals = [] \<or> 256 < length principals
          then Inl (label @ ''.host_certificate_authority.principals must contain 1 to 256 patterns'')
          else read_principals label {} principals
      | _ \<Rightarrow> Inl (label @ ''.host_certificate_authority.principals must contain 1 to 256 patterns''))"

definition parse_host_ca ::
  "'rx config_env \<Rightarrow> json \<Rightarrow> string \<Rightarrow> 'rx target_config \<Rightarrow> string + 'rx target_config" where
  "parse_host_ca env authority label target =
     res_bind (require_object authority (label @ ''.host_certificate_authority'')) (\<lambda>_.
     res_bind (require_only_keys authority
        [''ca_public_key'', ''principals'', ''revocation_list_path'', ''revocation_list_url'', ''revocation_list_signers'']
        (label @ ''.host_certificate_authority'')) (\<lambda>_.
     res_bind (required_string authority ''ca_public_key'' (label @ ''.host_certificate_authority'')) (\<lambda>ca_key.
     case host_ca_public_key_blob env ca_key of
       None \<Rightarrow> Inl (label @ ''.host_certificate_authority.ca_public_key is not a supported OpenSSH public key'')
     | Some ca_blob \<Rightarrow>
         res_bind (parse_principals authority label) (\<lambda>principals.
         res_bind (optional_path authority ''revocation_list_path'' label) (\<lambda>krl_path.
         res_bind (optional_path authority ''revocation_list_url'' label) (\<lambda>krl_url.
         if krl_path \<noteq> [] \<and> \<not> path_is_absolute env krl_path
         then Inl (label @ ''.host_certificate_authority.revocation_list_path must be absolute'')
         else if krl_path \<noteq> [] \<and> krl_url \<noteq> []
         then Inl (label @ ''.host_certificate_authority KRL path and URL are mutually exclusive'')
         else
           res_bind (parse_signers env ca_blob authority label) (\<lambda>signers.
           Inr (target\<lparr>tc_host_ca_public_key := ca_key, tc_host_principals := principals,
                       tc_host_ca_revocation_list_path := krl_path, tc_host_ca_revocation_list_url := krl_url,
                       tc_host_ca_revocation_list_signers := signers\<rparr>))))))))"

definition parse_trust ::
  "'rx config_env \<Rightarrow> string \<Rightarrow> json \<Rightarrow> string \<Rightarrow> 'rx target_config \<Rightarrow> string + 'rx target_config" where
  "parse_trust env base_directory entry label target =
     (let has_known_hosts_file = has_member entry ''known_hosts_file'';
          has_host_key_fingerprint = has_member entry ''host_key_fingerprint'';
          has_host_ca = has_member entry ''host_certificate_authority''
      in if tc_probe_only target then
           if has_known_hosts_file \<or> has_host_key_fingerprint \<or> has_host_ca
           then Inl (label @ '' probe-only targets cannot configure host-key trust'')
           else Inr target
         else if (of_bool has_known_hosts_file + of_bool has_host_key_fingerprint + of_bool has_host_ca :: nat) \<noteq> 1
         then Inl (label @ '' must contain exactly one host-key trust source'')
         else if has_known_hosts_file then
           res_bind (required_string entry ''known_hosts_file'' label) (\<lambda>path.
           Inr (target\<lparr>tc_known_hosts_file := resolve_path env path base_directory\<rparr>))
         else if has_host_key_fingerprint then
           res_bind (required_string entry ''host_key_fingerprint'' label) (\<lambda>fingerprint.
           if \<not> valid_config_fingerprint fingerprint
           then Inl (label @ ''.host_key_fingerprint must be a SHA256 host-key fingerprint'')
           else Inr (target\<lparr>tc_host_key_fingerprint := fingerprint\<rparr>))
         else parse_host_ca env (the (obj_find entry ''host_certificate_authority'')) label target)"

definition check_identity :: "string \<Rightarrow> 'rx target_config \<Rightarrow> string + 'rx target_config" where
  "check_identity label target =
     (if \<not> valid_target_id (tc_target_id target) then Inl (label @ ''.target_id is invalid'')
      else if \<not> valid_host (tc_host target) then Inl (label @ ''.host is invalid'')
      else if \<not> valid_username (tc_username target) then Inl (label @ ''.username is invalid'')
      else Inr target)"

subsection \<open>The proxy\<close>

definition proxy_type :: "string \<Rightarrow> proxy_protocol_kind option" where
  "proxy_type name =
     (if name = ''http_connect'' then Some HttpConnect
      else if name = ''https_connect'' then Some HttpsConnect
      else if name = ''socks5'' then Some Socks5LocalDns
      else if name = ''socks5h'' then Some Socks5RemoteDns
      else None)"

definition default_proxy_port :: "proxy_protocol_kind \<Rightarrow> int" where
  "default_proxy_port k =
     (case k of Socks5LocalDns \<Rightarrow> 1080 | Socks5RemoteDns \<Rightarrow> 1080 | HttpsConnect \<Rightarrow> 443 | HttpConnect \<Rightarrow> 80)"

definition parse_proxy_endpoint :: "json \<Rightarrow> string \<Rightarrow> string + (string \<times> int \<times> proxy_protocol_kind)" where
  "parse_proxy_endpoint proxy label =
     (if has_member proxy ''url'' then
        let invalid = label @ ''.url must be an HTTP, HTTPS, SOCKS5, or SOCKS5H proxy URL without credentials, query, or fragment''
        in if has_member proxy ''type'' \<or> has_member proxy ''host'' \<or> has_member proxy ''port'' then Inl invalid
           else res_bind (required_string proxy ''url'' label) (\<lambda>url.
                case parse_proxy_url url of None \<Rightarrow> Inl invalid | Some endpoint \<Rightarrow> Inr endpoint)
      else
        res_bind (required_string proxy ''type'' label) (\<lambda>name.
        case proxy_type name of
          None \<Rightarrow> Inl (label @ ''.type must be http_connect, https_connect, socks5, or socks5h'')
        | Some protocol \<Rightarrow>
            res_bind (required_string proxy ''host'' label) (\<lambda>proxy_host.
            res_bind (if has_member proxy ''port'' then required_integer proxy ''port'' 1 65535 label
                      else Inr (default_proxy_port protocol)) (\<lambda>proxy_port.
            if \<not> valid_host proxy_host then Inl (label @ ''.host is invalid'')
            else Inr (proxy_host, proxy_port, protocol)))))"

definition append_bypass :: "string \<Rightarrow> string list \<Rightarrow> string \<Rightarrow> string + string list" where
  "append_bypass label no_proxy raw =
     (let bypass = trim_blank raw
      in if bypass = [] then Inr no_proxy
         else if 256 \<le> length no_proxy \<or> \<not> valid_proxy_bypass_entry bypass
         then Inl (label @ ''.no_proxy contains an unsupported entry'')
         else Inr (no_proxy @ [bypass]))"

fun append_bypasses :: "string \<Rightarrow> string list \<Rightarrow> string list \<Rightarrow> string + string list" where
  "append_bypasses label no_proxy [] = Inr no_proxy"
| "append_bypasses label no_proxy (raw # rest) =
     res_bind (append_bypass label no_proxy raw) (\<lambda>no_proxy'. append_bypasses label no_proxy' rest)"

fun append_bypass_items :: "string \<Rightarrow> string list \<Rightarrow> json list \<Rightarrow> string + string list" where
  "append_bypass_items label no_proxy [] = Inr no_proxy"
| "append_bypass_items label no_proxy (item # rest) =
     (case item of
        JString raw \<Rightarrow> res_bind (append_bypass label no_proxy raw) (\<lambda>no_proxy'. append_bypass_items label no_proxy' rest)
      | _ \<Rightarrow> Inl (label @ ''.no_proxy contains an unsupported entry''))"

definition parse_no_proxy :: "json \<Rightarrow> string \<Rightarrow> string + string list" where
  "parse_no_proxy bypasses label =
     (case bypasses of
        JString raw \<Rightarrow>
          if 65536 < length raw then Inl (label @ ''.no_proxy is too long'')
          else append_bypasses label [] (split_on (CHR '','') raw)
      | JArray items \<Rightarrow>
          if 256 < length items then Inl (label @ ''.no_proxy must contain at most 256 entries'')
          else append_bypass_items label [] items
      | _ \<Rightarrow> Inl (label @ ''.no_proxy must be a string or array''))"

definition parse_proxy :: "json \<Rightarrow> string \<Rightarrow> 'rx target_config \<Rightarrow> string + 'rx target_config" where
  "parse_proxy entry target_label target =
     (case obj_find entry ''proxy'' of
        None \<Rightarrow> Inr target
      | Some proxy \<Rightarrow>
          let label = target_label @ ''.proxy''
          in res_bind (require_object proxy label) (\<lambda>_.
             res_bind (require_only_keys proxy [''url'', ''type'', ''host'', ''port'', ''auth_env'', ''no_proxy''] label) (\<lambda>_.
             res_bind (parse_proxy_endpoint proxy label) (\<lambda>(proxy_host, proxy_port, protocol).
             res_bind (if has_member proxy ''auth_env''
                       then named_env valid_proxy_credential_env_name proxy ''auth_env'' label else Inr []) (\<lambda>auth_env.
             res_bind (case obj_find proxy ''no_proxy'' of
                         None \<Rightarrow> Inr [] | Some bypasses \<Rightarrow> parse_no_proxy bypasses label) (\<lambda>no_proxy.
             Inr (target\<lparr>tc_proxy_host := proxy_host, tc_proxy_port := proxy_port, tc_proxy_protocol := protocol,
                         tc_proxy_auth_env := auth_env, tc_proxy_no_proxy := no_proxy\<rparr>)))))))"

subsection \<open>Credentials\<close>

definition parse_private_key ::
  "'rx config_env \<Rightarrow> string \<Rightarrow> json \<Rightarrow> string \<Rightarrow> 'rx target_config \<Rightarrow> string + 'rx target_config" where
  "parse_private_key env base_directory auth label target =
     (if has_member auth ''password_env'' \<or> has_member auth ''private_key_file'' = has_member auth ''private_key_env''
      then Inl (label @ '' has conflicting or missing private-key fields'')
      else
        res_bind (if has_member auth ''private_key_file''
                  then res_bind (required_string auth ''private_key_file'' label) (\<lambda>path.
                       Inr (resolve_path env path base_directory, []))
                  else res_bind (named_env valid_env_name auth ''private_key_env'' label) (\<lambda>name. Inr ([], name)))
          (\<lambda>(key_file, key_env).
        res_bind (if has_member auth ''public_key_file''
                  then res_bind (required_string auth ''public_key_file'' label) (\<lambda>path.
                       let resolved = resolve_path env path base_directory
                       in if 4096 < length resolved \<or> nul \<in> set resolved
                          then Inl (label @ ''.public_key_file is invalid'') else Inr resolved)
                  else Inr [])
          (\<lambda>public_file.
        res_bind (if has_member auth ''passphrase_env''
                  then named_env valid_env_name auth ''passphrase_env'' label else Inr [])
          (\<lambda>passphrase.
        Inr (target\<lparr>tc_private_key_file := key_file, tc_private_key_env := key_env,
                    tc_public_key_file := public_file, tc_passphrase_env := passphrase\<rparr>)))))"

definition parse_credentials ::
  "'rx config_env \<Rightarrow> string \<Rightarrow> json \<Rightarrow> string \<Rightarrow> string \<Rightarrow> 'rx target_config \<Rightarrow> string + 'rx target_config" where
  "parse_credentials env base_directory auth label auth_type target =
     (if tc_probe_only target then
        if auth_type \<noteq> ''probe'' \<or> length (members auth) \<noteq> 1
        then Inl (label @ '' probe-only configuration accepts only type=probe'')
        else Inr target
      else if auth_type = ''private_key'' then parse_private_key env base_directory auth label target
      else if auth_type = ''password'' then
        if has_member auth ''private_key_file'' \<or> has_member auth ''private_key_env'' \<or>
           has_member auth ''public_key_file'' \<or> has_member auth ''passphrase_env''
        then Inl (label @ '' has conflicting credential fields'')
        else res_bind (named_env valid_env_name auth ''password_env'' label) (\<lambda>name.
             Inr (target\<lparr>tc_password_env := name\<rparr>))
      else if auth_type = ''agent'' then
        if length (members auth) \<noteq> 1 then Inl (label @ '' agent configuration accepts only type'')
        else Inr (target\<lparr>tc_agent_auth := True\<rparr>)
      else Inl (label @ ''.type must be private_key, password, or agent''))"

definition parse_auth ::
  "'rx config_env \<Rightarrow> string \<Rightarrow> json \<Rightarrow> string \<Rightarrow> 'rx target_config \<Rightarrow> string + 'rx target_config" where
  "parse_auth env base_directory entry label target =
     (case obj_find entry ''auth'' of
        None \<Rightarrow> Inl (label @ ''.auth is required'')
      | Some auth \<Rightarrow>
          res_bind (require_object auth (label @ ''.auth'')) (\<lambda>_.
          res_bind (require_only_keys auth
             [''type'', ''private_key_file'', ''public_key_file'', ''private_key_env'', ''password_env'', ''passphrase_env'']
             (label @ ''.auth'')) (\<lambda>_.
          res_bind (required_string auth ''type'' (label @ ''.auth'')) (\<lambda>auth_type.
          parse_credentials env base_directory auth (label @ ''.auth'') auth_type target))))"

subsection \<open>Targets and the service\<close>

definition parse_target ::
  "'rx config_env \<Rightarrow> string \<Rightarrow> 'rx deny_entry list \<Rightarrow> json \<Rightarrow> string \<Rightarrow> string + 'rx target_config" where
  "parse_target env base_directory service_entries entry label =
     res_bind (require_object entry label) (\<lambda>_.
     res_bind (require_only_keys entry
        [''target_id'', ''host'', ''port'', ''username'', ''known_hosts_file'', ''host_key_fingerprint'',
         ''host_certificate_authority'', ''auth'', ''probe_only'', ''proxy'', ''allow_server_exec'',
         ''server_exec_denylist''] label) (\<lambda>_.
     res_bind (parse_identity entry label) (\<lambda>target.
     res_bind (parse_target_denylist env service_entries entry label target) (\<lambda>target.
     res_bind (parse_flags entry label target) (\<lambda>target.
     res_bind (parse_trust env base_directory entry label target) (\<lambda>target.
     res_bind (check_identity label target) (\<lambda>target.
     res_bind (parse_proxy entry label target) (\<lambda>target.
     parse_auth env base_directory entry label target))))))))"

fun parse_targets ::
  "'rx config_env \<Rightarrow> string \<Rightarrow> 'rx deny_entry list \<Rightarrow> nat \<Rightarrow> json list \<Rightarrow> (string \<rightharpoonup> 'rx target_config) \<Rightarrow>
   string + (string \<rightharpoonup> 'rx target_config)" where
  "parse_targets env base_directory service_entries i [] targets = Inr targets"
| "parse_targets env base_directory service_entries i (entry # rest) targets =
     res_bind (parse_target env base_directory service_entries entry (''config.targets['' @ decimal i @ '']'')) (\<lambda>target.
     if targets (tc_target_id target) \<noteq> None then Inl ''config contains a duplicate target_id''
     else parse_targets env base_directory service_entries (Suc i) rest (targets(tc_target_id target \<mapsto> target)))"

definition target_entries :: "json \<Rightarrow> string + json list" where
  "target_entries value =
     (case obj_find value ''targets'' of
        Some (JArray entries) \<Rightarrow>
          if entries = [] \<or> 256 < length entries
          then Inl ''config.targets must contain between 1 and 256 targets'' else Inr entries
      | _ \<Rightarrow> Inl ''config.targets must contain between 1 and 256 targets'')"

definition service_denylist :: "'rx config_env \<Rightarrow> json \<Rightarrow> string + 'rx deny_entry list" where
  "service_denylist env value =
     (case obj_find value ''server_exec_denylist'' of
        None \<Rightarrow> Inr []
      | Some denylist \<Rightarrow> parse_server_exec_denylist (regex_compile env) denylist ''config.server_exec_denylist'')"

definition parse_config :: "'rx config_env \<Rightarrow> json \<Rightarrow> string \<Rightarrow> string + 'rx service_config" where
  "parse_config env value base_directory =
     res_bind (require_object value ''config'') (\<lambda>_.
     res_bind (require_only_keys value [''listen_port'', ''api_token_env'', ''targets'', ''server_exec_denylist''] ''config'') (\<lambda>_.
     res_bind (required_integer value ''listen_port'' 1 65535 ''config'') (\<lambda>listen_port.
     res_bind (required_string value ''api_token_env'' ''config'') (\<lambda>api_token_env.
     if \<not> valid_env_name api_token_env
     then Inl ''config.api_token_env must be an environment variable name''
     else
       res_bind (service_denylist env value) (\<lambda>service_entries.
       res_bind (target_entries value) (\<lambda>entries.
       res_bind (parse_targets env base_directory service_entries 0 entries Map.empty) (\<lambda>targets.
       Inr \<lparr>sc_listen_port = listen_port, sc_api_token_env = api_token_env, sc_targets = targets,
            sc_server_exec_denylist = service_entries\<rparr>)))))))"

text \<open>
  \<^verbatim>\<open>load_config\<close>: \<open>read_file\<close> is \<^term>\<open>None\<close> when the stream does not open, \<open>parse_json\<close>
  when the library throws; \<open>directory_of\<close> is the parent of the absolute normal path.
\<close>

definition load_config ::
  "(string \<Rightarrow> string option) \<Rightarrow> (string \<Rightarrow> json option) \<Rightarrow> (string \<Rightarrow> string) \<Rightarrow> 'rx config_env \<Rightarrow> string \<Rightarrow>
   string + 'rx service_config" where
  "load_config read_file parse_json directory_of env path =
     (case read_file path of
        None \<Rightarrow> Inl ''could not open the SSH service configuration file''
      | Some content \<Rightarrow>
          (case parse_json content of
             None \<Rightarrow> Inl ''SSH service configuration is not valid JSON''
           | Some value \<Rightarrow> parse_config env value (directory_of path)))"

definition proxy_bypasses_target :: "'rx target_config \<Rightarrow> bool" where
  "proxy_bypasses_target target =
     bypasses_any (strip_brackets (lowercase (tc_host target))) (tc_port target) (tc_proxy_no_proxy target)"

end
