(* ===== verification/ConfigProps.thy ===== *)
theory ConfigProps
  imports ConfigParse
begin

text \<open>
  What a configuration that was accepted guarantees: the invariant of its targets, the deny
  list that every target inherits, the verdict on a command, the CIDR and bypass decisions and
  the canonical form of a proxy URL.
\<close>

subsection \<open>Well-formed targets\<close>

text \<open>
  The documented behaviour of \<^verbatim>\<open>std::filesystem::path\<close> that the trust and credential counts
  rely on: a path that is not empty stays not empty when it is appended to a base or brought
  to its normal form.
\<close>

definition paths_nonempty :: "'rx config_env \<Rightarrow> bool" where
  "paths_nonempty env \<longleftrightarrow>
     (\<forall>p. p \<noteq> [] \<longrightarrow> path_lexically_normal env p \<noteq> []) \<and> (\<forall>b p. p \<noteq> [] \<longrightarrow> path_append env b p \<noteq> [])"

definition identity_ok :: "'rx target_config \<Rightarrow> bool" where
  "identity_ok t \<longleftrightarrow>
     valid_target_id (tc_target_id t) \<and> valid_host (tc_host t) \<and> valid_username (tc_username t) \<and>
     1 \<le> tc_port t \<and> tc_port t \<le> 65535"

definition trust_sources :: "'rx target_config \<Rightarrow> nat" where
  "trust_sources t =
     of_bool (tc_known_hosts_file t \<noteq> []) + of_bool (tc_host_key_fingerprint t \<noteq> []) +
     of_bool (tc_host_ca_public_key t \<noteq> [])"

definition credential_sources :: "'rx target_config \<Rightarrow> nat" where
  "credential_sources t =
     of_bool (tc_private_key_file t \<noteq> []) + of_bool (tc_private_key_env t \<noteq> []) +
     of_bool (tc_password_env t \<noteq> []) + of_bool (tc_agent_auth t)"

definition proxy_ok :: "'rx target_config \<Rightarrow> bool" where
  "proxy_ok t \<longleftrightarrow>
     (tc_proxy_host t \<noteq> [] \<longrightarrow> valid_host (tc_proxy_host t) \<and> 1 \<le> tc_proxy_port t \<and> tc_proxy_port t \<le> 65535) \<and>
     (tc_proxy_host t = [] \<longrightarrow> tc_proxy_no_proxy t = []) \<and>
     length (tc_proxy_no_proxy t) \<le> 256 \<and> list_all valid_proxy_bypass_entry (tc_proxy_no_proxy t)"

definition target_ok :: "'rx target_config \<Rightarrow> bool" where
  "target_ok t \<longleftrightarrow>
     identity_ok t \<and> proxy_ok t \<and> \<not> (tc_probe_only t \<and> tc_allow_server_exec t) \<and>
     trust_sources t = (if tc_probe_only t then 0 else 1) \<and>
     credential_sources t = (if tc_probe_only t then 0 else 1)"

lemma required_string_Inr: "required_string v k l = Inr s \<Longrightarrow> s \<noteq> []"
  by (auto simp: required_string_def split: option.splits if_splits)

lemma required_integer_range:
  assumes "required_integer v k 1 65535 l = Inr n"
  shows "1 \<le> n \<and> n \<le> 65535"
proof -
  have "1 \<le> uint w \<and> uint w \<le> 65535" if "1 \<le> unat w" "unat w \<le> 65535" for w :: "64 word"
  proof -
    have "uint w = int (unat w)" by simp
    with that show ?thesis by linarith
  qed
  with assms show ?thesis
    by (auto simp: required_integer_def not_less split: option.splits json.splits if_splits)
qed

lemma resolve_path_nonempty: "paths_nonempty env \<Longrightarrow> p \<noteq> [] \<Longrightarrow> resolve_path env p b \<noteq> []"
  by (simp add: resolve_path_def paths_nonempty_def)

lemma named_env_Inr: "named_env valid v k l = Inr s \<Longrightarrow> s \<noteq> [] \<and> valid s"
  by (auto simp: named_env_def res_bind_eq_Inr dest: required_string_Inr split: if_splits)

subsubsection \<open>What each part writes\<close>

lemma parse_identity_Inr:
  assumes "parse_identity entry l = Inr t"
  obtains i h p u where
    "t = default_target\<lparr>tc_target_id := i, tc_host := h, tc_port := p, tc_username := u\<rparr>" "1 \<le> p" "p \<le> 65535"
  using assms required_integer_range [of entry "''port''" l]
  by (auto simp: parse_identity_def res_bind_eq_Inr)

lemma parse_target_denylist_Inr:
  assumes "parse_target_denylist env es entry l t = Inr t'"
  obtains own where "t' = t\<lparr>tc_server_exec_denylist := es @ own\<rparr>" "list_all (deny_entry_ok (regex_compile env)) own"
    "length own \<le> kMaxServerExecDenyEntries"
proof (cases "obj_find entry ''server_exec_denylist''")
  case None
  with assms that [of "[]"] show ?thesis by (simp add: parse_target_denylist_def)
next
  case (Some v)
  with assms obtain own where "parse_server_exec_denylist (regex_compile env) v (l @ ''.server_exec_denylist'') = Inr own"
    "t' = t\<lparr>tc_server_exec_denylist := es @ own\<rparr>"
    by (auto simp: parse_target_denylist_def res_bind_eq_Inr)
  with that denylist_ok show ?thesis by blast
qed

lemma parse_flags_Inr:
  assumes "parse_flags entry l t = Inr t'"
  obtains p a where "t' = t\<lparr>tc_probe_only := p, tc_allow_server_exec := a\<rparr>" "\<not> (p \<and> a)"
  using assms by (auto simp: parse_flags_def res_bind_eq_Inr split: if_splits)

lemma parse_host_ca_Inr:
  assumes "parse_host_ca env authority l t = Inr t'"
  obtains c ps p u ss where "c \<noteq> []"
    "t' = t\<lparr>tc_host_ca_public_key := c, tc_host_principals := ps, tc_host_ca_revocation_list_path := p,
            tc_host_ca_revocation_list_url := u, tc_host_ca_revocation_list_signers := ss\<rparr>"
  using assms
  by (auto simp: parse_host_ca_def res_bind_eq_Inr dest: required_string_Inr split: option.split_asm if_split_asm)

lemma parse_trust_Inr:
  assumes "parse_trust env b entry l t = Inr t'" "paths_nonempty env" "trust_sources t = 0"
  shows "trust_sources t' = (if tc_probe_only t then 0 else 1) \<and>
    (\<exists>k f c ps p u ss. t' = t\<lparr>tc_known_hosts_file := k, tc_host_key_fingerprint := f, tc_host_ca_public_key := c,
       tc_host_principals := ps, tc_host_ca_revocation_list_path := p, tc_host_ca_revocation_list_url := u,
       tc_host_ca_revocation_list_signers := ss\<rparr>)"
proof -
  have fp: "valid_config_fingerprint f \<Longrightarrow> f \<noteq> []" for f by (auto simp: valid_config_fingerprint_def)
  have empty: "tc_known_hosts_file t = []" "tc_host_key_fingerprint t = []" "tc_host_ca_public_key t = []"
    using assms(3) by (auto simp: trust_sources_def of_bool_def split: if_splits)
  consider (probe) "tc_probe_only t" "t' = t"
    | (known) k where "\<not> tc_probe_only t" "t' = t\<lparr>tc_known_hosts_file := k\<rparr>" "k \<noteq> []"
    | (fingerprint) f where "\<not> tc_probe_only t" "t' = t\<lparr>tc_host_key_fingerprint := f\<rparr>" "f \<noteq> []"
    | (ca) authority where "\<not> tc_probe_only t" "parse_host_ca env authority l t = Inr t'"
    using assms(1) resolve_path_nonempty [OF assms(2)] fp
    by (auto simp: parse_trust_def Let_def res_bind_eq_Inr dest: required_string_Inr split: if_split_asm)
  then show ?thesis
  proof cases
    case probe
    with assms(3) show ?thesis by (cases t) auto
  next
    case known
    with empty show ?thesis by (cases t) (auto simp: trust_sources_def)
  next
    case fingerprint
    with empty show ?thesis by (cases t) (auto simp: trust_sources_def)
  next
    case ca
    from ca(2) obtain c ps p u ss where "c \<noteq> []"
      "t' = t\<lparr>tc_host_ca_public_key := c, tc_host_principals := ps, tc_host_ca_revocation_list_path := p,
        tc_host_ca_revocation_list_url := u, tc_host_ca_revocation_list_signers := ss\<rparr>"
      by (rule parse_host_ca_Inr)
    with ca(1) empty show ?thesis by (cases t) (auto simp: trust_sources_def)
  qed
qed

lemma check_identity_Inr:
  "check_identity l t = Inr t' \<longleftrightarrow>
   t' = t \<and> valid_target_id (tc_target_id t) \<and> valid_host (tc_host t) \<and> valid_username (tc_username t)"
  by (auto simp: check_identity_def)

definition bypasses_ok :: "string list \<Rightarrow> bool" where
  "bypasses_ok es \<longleftrightarrow> length es \<le> 256 \<and> list_all valid_proxy_bypass_entry es"

lemma append_bypass_ok: "append_bypass l es raw = Inr es' \<Longrightarrow> bypasses_ok es \<Longrightarrow> bypasses_ok es'"
  by (auto simp: append_bypass_def bypasses_ok_def Let_def split: if_splits)

lemma append_bypasses_ok: "append_bypasses l es raws = Inr es' \<Longrightarrow> bypasses_ok es \<Longrightarrow> bypasses_ok es'"
  by (induction raws arbitrary: es) (auto simp: res_bind_eq_Inr dest: append_bypass_ok)

lemma append_bypass_items_ok: "append_bypass_items l es items = Inr es' \<Longrightarrow> bypasses_ok es \<Longrightarrow> bypasses_ok es'"
  by (induction items arbitrary: es) (auto simp: res_bind_eq_Inr dest: append_bypass_ok split: json.splits)

lemma parse_no_proxy_ok: "parse_no_proxy v l = Inr es \<Longrightarrow> bypasses_ok es"
  by (auto simp: parse_no_proxy_def bypasses_ok_def [of "[]"]
      dest: append_bypasses_ok append_bypass_items_ok split: json.splits if_splits)

lemma default_proxy_port_range: "1 \<le> default_proxy_port k \<and> default_proxy_port k \<le> 65535"
  by (cases k) (simp_all add: default_proxy_port_def)

lemma parse_proxy_endpoint_ok:
  assumes "parse_proxy_endpoint proxy l = Inr (h, p, k)"
  shows "valid_host h \<and> 1 \<le> p \<and> p \<le> 65535"
proof (cases "has_member proxy ''url''")
  case True
  with assms obtain url where "parse_proxy_url url = Some (h, p, k)"
    by (auto simp: parse_proxy_endpoint_def Let_def res_bind_eq_Inr split: if_split_asm option.split_asm)
  then show ?thesis by (auto dest!: parse_proxy_url_ok simp: proxy_endpoint_ok_def)
next
  case False
  with assms show ?thesis
    using default_proxy_port_range [of k] required_integer_range [of proxy "''port''" l]
    by (auto simp: parse_proxy_endpoint_def res_bind_eq_Inr split: if_split_asm option.split_asm)
qed

lemma parse_proxy_Inr:
  assumes "parse_proxy entry l t = Inr t'" "proxy_ok t"
  shows "proxy_ok t' \<and> (\<exists>h p k a es. t' = t\<lparr>tc_proxy_host := h, tc_proxy_port := p, tc_proxy_protocol := k,
    tc_proxy_auth_env := a, tc_proxy_no_proxy := es\<rparr>)"
proof (cases "obj_find entry ''proxy''")
  case None
  with assms show ?thesis by (cases t) (auto simp: parse_proxy_def)
next
  case (Some proxy)
  with assms obtain h p k a es where
    ep: "parse_proxy_endpoint proxy (l @ ''.proxy'') = Inr (h, p, k)" and
    np: "(case obj_find proxy ''no_proxy'' of None \<Rightarrow> Inr [] | Some v \<Rightarrow> parse_no_proxy v (l @ ''.proxy'')) = Inr es" and
    t': "t' = t\<lparr>tc_proxy_host := h, tc_proxy_port := p, tc_proxy_protocol := k,
      tc_proxy_auth_env := a, tc_proxy_no_proxy := es\<rparr>"
    by (auto simp: parse_proxy_def Let_def res_bind_eq_Inr split del: if_split)
  have "bypasses_ok es"
    using np parse_no_proxy_ok by (auto simp: bypasses_ok_def split: option.splits)
  moreover have "h \<noteq> []" using parse_proxy_endpoint_ok [OF ep] by (auto simp: valid_host_def)
  ultimately have "proxy_ok t'"
    using parse_proxy_endpoint_ok [OF ep] by (simp add: t' proxy_ok_def bypasses_ok_def)
  with t' show ?thesis by blast
qed

lemma parse_private_key_Inr:
  assumes "parse_private_key env b auth l t = Inr t'" "paths_nonempty env"
  obtains kf ke pf pp where "(kf \<noteq> []) \<noteq> (ke \<noteq> [])"
    "t' = t\<lparr>tc_private_key_file := kf, tc_private_key_env := ke, tc_public_key_file := pf, tc_passphrase_env := pp\<rparr>"
proof -
  let ?key = "if has_member auth ''private_key_file''
    then res_bind (required_string auth ''private_key_file'' l) (\<lambda>path. Inr (resolve_path env path b, []))
    else res_bind (named_env valid_env_name auth ''private_key_env'' l) (\<lambda>name. Inr ([], name))"
  have "\<not> (has_member auth ''password_env'' \<or> has_member auth ''private_key_file'' = has_member auth ''private_key_env'')"
    using assms(1) by (simp add: parse_private_key_def split: if_split_asm)
  then obtain kf ke pf pp where key: "?key = Inr (kf, ke)" and
    t': "t' = t\<lparr>tc_private_key_file := kf, tc_private_key_env := ke, tc_public_key_file := pf, tc_passphrase_env := pp\<rparr>"
    using assms(1) by (auto simp: parse_private_key_def res_bind_eq_Inr split del: if_split)
  have "(kf \<noteq> []) \<noteq> (ke \<noteq> [])"
    using key resolve_path_nonempty [OF assms(2)]
    by (auto simp: res_bind_eq_Inr dest: required_string_Inr named_env_Inr split: if_split_asm)
  with t' that show ?thesis by blast
qed

lemma parse_credentials_cases:
  assumes creds: "parse_credentials env b auth l ty t = Inr t'"
  obtains (probe) "tc_probe_only t" "t' = t"
    | (key) "\<not> tc_probe_only t" "parse_private_key env b auth l t = Inr t'"
    | (password) pw where "\<not> tc_probe_only t" "t' = t\<lparr>tc_password_env := pw\<rparr>" "pw \<noteq> []"
    | (agent) "\<not> tc_probe_only t" "t' = t\<lparr>tc_agent_auth := True\<rparr>"
proof (cases "tc_probe_only t")
  case True
  with creds have "t' = t" by (simp add: parse_credentials_def split: if_split_asm)
  with True probe show ?thesis by simp
next
  case False
  consider "ty = ''private_key''" | "ty = ''password''" | "ty = ''agent''"
    using creds False by (auto simp: parse_credentials_def split: if_split_asm)
  then show ?thesis
  proof cases
    case 1
    with creds False key show ?thesis by (simp add: parse_credentials_def)
  next
    case 2
    with creds False obtain pw where "named_env valid_env_name auth ''password_env'' l = Inr pw"
      "t' = t\<lparr>tc_password_env := pw\<rparr>"
      by (simp add: parse_credentials_def res_bind_eq_Inr split: if_split_asm) blast
    with False password named_env_Inr show ?thesis by blast
  next
    case 3
    with creds False have "t' = t\<lparr>tc_agent_auth := True\<rparr>" by (simp add: parse_credentials_def split: if_split_asm)
    with False agent show ?thesis by simp
  qed
qed

lemma parse_auth_Inr:
  assumes "parse_auth env b entry l t = Inr t'" "paths_nonempty env" "credential_sources t = 0"
  shows "credential_sources t' = (if tc_probe_only t then 0 else 1) \<and>
    (\<exists>kf ke pf pp pw ag. t' = t\<lparr>tc_private_key_file := kf, tc_private_key_env := ke, tc_public_key_file := pf,
       tc_passphrase_env := pp, tc_password_env := pw, tc_agent_auth := ag\<rparr>)"
proof -
  have empty: "tc_private_key_file t = []" "tc_private_key_env t = []" "tc_password_env t = []" "\<not> tc_agent_auth t"
    using assms(3) by (auto simp: credential_sources_def of_bool_def split: if_splits)
  obtain auth ty where "parse_credentials env b auth (l @ ''.auth'') ty t = Inr t'"
    using assms(1) by (auto simp: parse_auth_def res_bind_eq_Inr split: option.split_asm)
  then show ?thesis
  proof (cases rule: parse_credentials_cases)
    case key
    from key(2) assms(2) obtain kf ke pf pp where "(kf \<noteq> []) \<noteq> (ke \<noteq> [])"
      "t' = t\<lparr>tc_private_key_file := kf, tc_private_key_env := ke, tc_public_key_file := pf, tc_passphrase_env := pp\<rparr>"
      by (rule parse_private_key_Inr)
    with key(1) empty show ?thesis by (cases t) (auto simp: credential_sources_def)
  next
    case probe
    with assms(3) show ?thesis by (cases t) auto
  next
    case password
    with empty show ?thesis by (cases t) (auto simp: credential_sources_def)
  next
    case agent
    with empty show ?thesis by (cases t) (auto simp: credential_sources_def)
  qed
qed

subsubsection \<open>The whole target and the whole file\<close>

lemma parse_target_ok:
  assumes "parse_target env b es entry l = Inr t" "paths_nonempty env"
  shows "target_ok t"
proof -
  from assms(1) obtain t1 t2 t3 t4 t5 where
    t1: "parse_identity entry l = Inr t1" and t2: "parse_target_denylist env es entry l t1 = Inr t2" and
    t3: "parse_flags entry l t2 = Inr t3" and t4: "parse_trust env b entry l t3 = Inr t4" and
    t4': "check_identity l t4 = Inr t4" and t5: "parse_proxy entry l t4 = Inr t5" and
    t6: "parse_auth env b entry l t5 = Inr t"
    by (auto simp: parse_target_def res_bind_eq_Inr check_identity_Inr)
  obtain i h p u where d1: "t1 = default_target\<lparr>tc_target_id := i, tc_host := h, tc_port := p, tc_username := u\<rparr>"
    and p: "1 \<le> p" "p \<le> 65535" using t1 by (rule parse_identity_Inr)
  obtain own where d2: "t2 = t1\<lparr>tc_server_exec_denylist := es @ own\<rparr>" using t2 by (rule parse_target_denylist_Inr)
  obtain po al where d3: "t3 = t2\<lparr>tc_probe_only := po, tc_allow_server_exec := al\<rparr>" and fl: "\<not> (po \<and> al)"
    using t3 by (rule parse_flags_Inr)
  have init: "trust_sources t3 = 0" "credential_sources t3 = 0" "proxy_ok t3"
    by (simp_all add: d3 d2 d1 default_target_def trust_sources_def credential_sources_def proxy_ok_def)
  obtain k f c ps rp ru ss where trust: "trust_sources t4 = (if po then 0 else 1)" and
    d4: "t4 = t3\<lparr>tc_known_hosts_file := k, tc_host_key_fingerprint := f, tc_host_ca_public_key := c,
       tc_host_principals := ps, tc_host_ca_revocation_list_path := rp, tc_host_ca_revocation_list_url := ru,
       tc_host_ca_revocation_list_signers := ss\<rparr>"
    using parse_trust_Inr [OF t4 assms(2) init(1)] by (auto simp: d3)
  have "proxy_ok t4" using init(3) by (simp add: d4 proxy_ok_def)
  then obtain ph pp pk pa pn where pok: "proxy_ok t5" and
    d5: "t5 = t4\<lparr>tc_proxy_host := ph, tc_proxy_port := pp, tc_proxy_protocol := pk, tc_proxy_auth_env := pa,
       tc_proxy_no_proxy := pn\<rparr>"
    using parse_proxy_Inr [OF t5] by blast
  have "credential_sources t5 = 0" using init(2) by (simp add: d5 d4 credential_sources_def)
  then obtain kf ke pf ph' pw ag where cr: "credential_sources t = (if po then 0 else 1)" and
    d6: "t = t5\<lparr>tc_private_key_file := kf, tc_private_key_env := ke, tc_public_key_file := pf,
       tc_passphrase_env := ph', tc_password_env := pw, tc_agent_auth := ag\<rparr>"
    using parse_auth_Inr [OF t6 assms(2)] by (auto simp: d5 d4 d3)
  have "identity_ok t" using t4' p by (simp add: check_identity_Inr identity_ok_def d6 d5 d4 d3 d2 d1)
  moreover have "proxy_ok t" using pok by (simp add: d6 proxy_ok_def)
  moreover have "trust_sources t = (if po then 0 else 1)" using trust by (simp add: d6 d5 trust_sources_def)
  ultimately show ?thesis using cr fl by (simp add: target_ok_def) (simp add: d6 d5 d4 d3)
qed

text \<open>No later part touches the deny list.\<close>

lemma parse_trust_denylist:
  "parse_trust env b entry l t = Inr t' \<Longrightarrow> tc_server_exec_denylist t' = tc_server_exec_denylist t"
  by (auto simp: parse_trust_def Let_def res_bind_eq_Inr elim!: parse_host_ca_Inr split: if_split_asm)

lemma parse_proxy_denylist:
  "parse_proxy entry l t = Inr t' \<Longrightarrow> tc_server_exec_denylist t' = tc_server_exec_denylist t"
  by (auto simp: parse_proxy_def Let_def res_bind_eq_Inr split: option.split_asm split del: if_split)

lemma parse_auth_denylist:
  "parse_auth env b entry l t = Inr t' \<Longrightarrow> tc_server_exec_denylist t' = tc_server_exec_denylist t"
  by (auto simp: parse_auth_def parse_credentials_def parse_private_key_def res_bind_eq_Inr
      split: option.split_asm if_split_asm split del: if_split)

lemma parse_target_denylist_merged:
  assumes "parse_target env b es entry l = Inr t"
  shows "\<exists>own. tc_server_exec_denylist t = es @ own \<and> list_all (deny_entry_ok (regex_compile env)) own \<and>
    length own \<le> kMaxServerExecDenyEntries"
proof -
  from assms obtain t1 t2 t3 t4 t5 where
    t2: "parse_target_denylist env es entry l t1 = Inr t2" and t3: "parse_flags entry l t2 = Inr t3" and
    t4: "parse_trust env b entry l t3 = Inr t4" "parse_proxy entry l t4 = Inr t5" "parse_auth env b entry l t5 = Inr t"
    by (auto simp: parse_target_def res_bind_eq_Inr check_identity_Inr)
  have "tc_server_exec_denylist t = tc_server_exec_denylist t3"
    using t4 by (simp add: parse_trust_denylist parse_proxy_denylist parse_auth_denylist)
  also have "\<dots> = tc_server_exec_denylist t2" using t3 by (rule parse_flags_Inr) simp
  finally show ?thesis using t2 by (auto elim!: parse_target_denylist_Inr)
qed

lemma parse_targets_all:
  assumes "parse_targets env b es i entries ts = Inr ts'"
    and each: "\<And>entry l t. parse_target env b es entry l = Inr t \<Longrightarrow> P t"
    and start: "\<And>k t. ts k = Some t \<Longrightarrow> tc_target_id t = k \<and> P t"
  shows "ts' k = Some t \<Longrightarrow> tc_target_id t = k \<and> P t"
  using assms(1) start
proof (induction entries arbitrary: i ts)
  case (Cons entry entries)
  from Cons.prems(2) obtain u where u: "parse_target env b es entry (''config.targets['' @ decimal i @ '']'') = Inr u"
    and rest: "parse_targets env b es (Suc i) entries (ts(tc_target_id u \<mapsto> u)) = Inr ts'"
    by (auto simp: res_bind_eq_Inr split: if_split_asm)
  show ?case
    by (rule Cons.IH [OF Cons.prems(1) rest]) (use each [OF u] Cons.prems(3) in \<open>auto split: if_split_asm\<close>)
qed simp

lemma parse_config_Inr:
  assumes "parse_config env v b = Inr c"
  obtains entries where
    "parse_targets env b (sc_server_exec_denylist c) 0 entries Map.empty = Inr (sc_targets c)"
    "list_all (deny_entry_ok (regex_compile env)) (sc_server_exec_denylist c)"
    "length (sc_server_exec_denylist c) \<le> kMaxServerExecDenyEntries"
    "1 \<le> sc_listen_port c" "sc_listen_port c \<le> 65535"
proof -
  from assms obtain port name es entries ts where
    port: "required_integer v ''listen_port'' 1 65535 ''config'' = Inr port" and
    es: "service_denylist env v = Inr es" and
    ts: "parse_targets env b es 0 entries Map.empty = Inr ts" and
    c: "c = \<lparr>sc_listen_port = port, sc_api_token_env = name, sc_targets = ts, sc_server_exec_denylist = es\<rparr>"
    by (auto simp: parse_config_def res_bind_eq_Inr split: if_split_asm)
  have "list_all (deny_entry_ok (regex_compile env)) es \<and> length es \<le> kMaxServerExecDenyEntries"
    using es denylist_ok by (fastforce simp: service_denylist_def split: option.split_asm)
  with that ts required_integer_range [OF port] show ?thesis by (simp add: c)
qed

lemma parse_config_target_ok:
  assumes "parse_config env v b = Inr c" "paths_nonempty env" "sc_targets c i = Some t"
  shows "tc_target_id t = i \<and> target_ok t \<and> 1 \<le> sc_listen_port c \<and> sc_listen_port c \<le> 65535"
proof -
  obtain entries where ts: "parse_targets env b (sc_server_exec_denylist c) 0 entries Map.empty = Inr (sc_targets c)"
    and port: "1 \<le> sc_listen_port c" "sc_listen_port c \<le> 65535"
    using assms(1) by (rule parse_config_Inr)
  have "tc_target_id t = i \<and> target_ok t"
    using parse_targets_all [OF ts, where P = target_ok] parse_target_ok assms(2,3) by fastforce
  with port show ?thesis by simp
qed

subsection \<open>Interfaces\<close>

interpretation ipv4_text: strict_codec print_ipv4 parse_ipv4 "\<lambda>a. length a = 4"
  by unfold_locales (simp_all add: parse_ipv4_strict)

interpretation proxy_url: codec render_proxy_url parse_proxy_url proxy_endpoint_ok
  by unfold_locales (rule parse_render_proxy_url)

definition denylist_ok_for :: "(bool \<Rightarrow> string \<Rightarrow> 'rx option) \<Rightarrow> 'rx deny_entry list \<Rightarrow> bool" where
  "denylist_ok_for compile es \<longleftrightarrow> list_all (deny_entry_ok compile) es \<and> length es \<le> kMaxServerExecDenyEntries"

definition denylist_of_json :: "(bool \<Rightarrow> string \<Rightarrow> 'rx option) \<Rightarrow> json \<Rightarrow> 'rx deny_entry list option" where
  "denylist_of_json compile v = (case parse_server_exec_denylist compile v [] of Inl _ \<Rightarrow> None | Inr es \<Rightarrow> Some es)"

interpretation denylist: codec server_exec_denylist_to_json "denylist_of_json compile" "denylist_ok_for compile" for compile
  by unfold_locales (simp add: denylist_of_json_def denylist_ok_for_def denylist_json_roundtrip)

subsection \<open>Properties\<close>

text \<open>A concrete environment and configuration: POSIX-like paths, a regular expression is its source.\<close>

definition demo_env :: "string config_env" where
  "demo_env =
     \<lparr>regex_compile = (\<lambda>icase source. Some source),
      path_is_relative = (\<lambda>p. p = [] \<or> hd p \<noteq> CHR ''/''),
      path_is_absolute = (\<lambda>p. p \<noteq> [] \<and> hd p = CHR ''/''),
      path_append = (\<lambda>base p. base @ ''/'' @ p),
      path_lexically_normal = (\<lambda>p. p),
      host_ca_public_key_blob = Some\<rparr>"

definition demo_config :: json where
  "demo_config = JObject
     [(''api_token_env'', JString ''TOKEN''), (''listen_port'', JUnsigned 8765),
      (''server_exec_denylist'', JArray [JString ''rm  -rf'']),
      (''targets'', JArray [JObject
         [(''auth'', JObject [(''type'', JString ''agent'')]), (''host'', JString ''web''),
          (''known_hosts_file'', JString ''/k''), (''port'', JUnsigned 22),
          (''proxy'', JObject [(''no_proxy'', JString ''.corp''), (''url'', JString ''http://p:8080'')]),
          (''server_exec_denylist'', JArray [JObject [(''pattern'', JString ''dd''), (''regex'', JBool True)]]),
          (''target_id'', JString ''a''), (''username'', JString ''u'')]])]"

lemma demo_paths: "paths_nonempty demo_env"
  by (simp add: paths_nonempty_def demo_env_def)

text \<open>C12: Every target of an accepted configuration is well formed: it is stored under its own
  identifier, its identifier, host, user name and port are valid, it has exactly one host-key trust
  source and exactly one credential source unless it is probe-only, in which case it has none of
  either and does not allow \<^verbatim>\<open>server.exec\<close>, its proxy has a valid host and port, and
  every bypass entry is one that the validator accepts; the listening port is in range.\<close>

theorem config_targets_ok:
  assumes "parse_config env v b = Inr c" "paths_nonempty env" "sc_targets c i = Some t"
  shows "tc_target_id t = i \<and> target_ok t \<and> 1 \<le> sc_listen_port c \<and> sc_listen_port c \<le> 65535"
  using assms by (rule parse_config_target_ok)

text \<open>C16: No target escapes the service-level deny list: the list of every target is the service
  list followed by the target's own entries (at most 256 of each, all well formed), so a command that
  the service list denies is denied at every target, with the same reported pattern.\<close>

theorem service_denials_inherited:
  assumes "parse_config env v b = Inr c" "sc_targets c i = Some t"
  shows "\<exists>own. tc_server_exec_denylist t = sc_server_exec_denylist c @ own \<and>
      denylist_ok_for (regex_compile env) (sc_server_exec_denylist c) \<and> denylist_ok_for (regex_compile env) own \<and>
      (\<forall>p. server_exec_command_is_denied search (sc_server_exec_denylist c) command = Some p \<longrightarrow>
           server_exec_command_is_denied search (tc_server_exec_denylist t) command = Some p)"
proof -
  let ?es = "sc_server_exec_denylist c"
  let ?P = "\<lambda>t. \<exists>own. tc_server_exec_denylist t = ?es @ own \<and> list_all (deny_entry_ok (regex_compile env)) own \<and>
    length own \<le> kMaxServerExecDenyEntries"
  obtain entries where ts: "parse_targets env b ?es 0 entries Map.empty = Inr (sc_targets c)"
    and es: "denylist_ok_for (regex_compile env) ?es"
    using parse_config_Inr [OF assms(1)] by (metis denylist_ok_for_def)
  have "?P t"
    using parse_targets_all [OF ts, where P = ?P] parse_target_denylist_merged assms(2) by fastforce
  with es show ?thesis by (auto simp: denylist_ok_for_def server_exec_command_is_denied_def first_denial_append)
qed

text \<open>The verdict on a command depends on its words alone: the normal form of a text is its
  words joined by single spaces, so two commands with the same words get the same verdict and the same
  reported pattern from every list, however they are spaced.\<close>

theorem denial_ignores_spacing:
  "normalize_server_exec_text s = join_with (CHR '' '') (command_words s) \<and>
   (command_words s = command_words t \<longrightarrow>
    server_exec_command_is_denied search entries s = server_exec_command_is_denied search entries t)"
  by (simp add: server_exec_command_is_denied_def normalize_words)

text \<open>Parsing a deny list either fails with a message that starts with the label of the value,
  or yields at most 256 entries that are written to JSON and read back exactly.\<close>

theorem denylist_parse_contract:
  "case parse_server_exec_denylist compile v label of
     Inl message \<Rightarrow> starts_with label message
   | Inr entries \<Rightarrow> length entries \<le> 256 \<and>
       parse_server_exec_denylist compile (server_exec_denylist_to_json entries) label' = Inr entries"
  using denylist_message denylist_ok denylist_json_roundtrip
  by (fastforce simp: kMaxServerExecDenyEntries_def split: sum.split)

text \<open>C30: Matching an address against a CIDR block is comparing the leading bits: an IPv4 host
  matches exactly when both texts parse and the 32-bit numbers agree after dropping the
  \<open>32 - prefix\<close> low bits, an IPv6 host likewise with 128; and an IPv4 address has exactly
  one accepted spelling, its dotted decimal form without leading zeros.\<close>

theorem cidr_membership:
  "(ipv4_matches_cidr host cidr \<longleftrightarrow>
      (\<exists>a n p. host = print_ipv4 a \<and> length a = 4 \<and> parse_ipv4_cidr cidr = Some (n, p) \<and> p \<le> 32 \<and>
         address_value a div 2 ^ (32 - p) = address_value n div 2 ^ (32 - p))) \<and>
   (ipv6_matches_cidr host cidr \<longleftrightarrow>
      (\<exists>a n p. parse_ipv6 host = Some a \<and> parse_ipv6_cidr cidr = Some (n, p) \<and> p \<le> 128 \<and>
         address_value a div 2 ^ (128 - p) = address_value n div 2 ^ (128 - p)))"
proof -
  have p: "parse_prefix m s = Some p \<Longrightarrow> p \<le> m" for m s p
    by (auto simp: parse_prefix_def split: if_splits option.splits)
  have c4: "parse_ipv4_cidr cidr = Some (n, p) \<Longrightarrow> length n = 4 \<and> p \<le> 32" for n p
    using ipv4_text.dec_only by (auto simp: parse_ipv4_cidr_def dest: p split: option.splits)
  have c6: "parse_ipv6_cidr cidr = Some (n, p) \<Longrightarrow> length n = 16 \<and> p \<le> 128" for n p
    using parse_ipv6_length by (auto simp: parse_ipv6_cidr_def dest: p split: option.splits)
  have "ipv4_matches_cidr host cidr \<longleftrightarrow>
      (\<exists>a n p. parse_ipv4 host = Some a \<and> parse_ipv4_cidr cidr = Some (n, p) \<and> matches_prefix p a n)"
    by (auto simp: ipv4_matches_cidr_def split: option.splits)
  moreover have "ipv6_matches_cidr host cidr \<longleftrightarrow>
      (\<exists>a n p. parse_ipv6 host = Some a \<and> parse_ipv6_cidr cidr = Some (n, p) \<and> matches_prefix p a n)"
    by (auto simp: ipv6_matches_cidr_def split: option.splits)
  ultimately show ?thesis
    using c4 c6 parse_ipv6_length by (auto simp: matches_prefix_value ipv4_text.dec_iff)
qed

text \<open>Whatever proxy URL is accepted, its host is a valid host name (or an IPv6 literal where
  it contains a colon), its port lies between 1 and 65535, and the canonical URL written from host, port
  and protocol is accepted again with the same result.\<close>

theorem proxy_url_canonical:
  "parse_proxy_url url = Some endpoint \<Longrightarrow>
   proxy_endpoint_ok endpoint \<and> parse_proxy_url (render_proxy_url endpoint) = Some endpoint"
  using parse_proxy_url_ok proxy_url.dec_enc by blast

lemma bypasses_any_iff:
  "bypasses_any host port es \<longleftrightarrow>
   (\<exists>e\<in>set es. \<exists>h p. split_proxy_bypass_port e = Some (h, p) \<and> (p = 0 \<or> p = port) \<and>
      bypass_entry_matches host (lowercase h))"
  by (induction es) (auto simp: split_bypass_lowercase split: option.splits)

text \<open>For a target whose bypass entries were validated, the proxy is bypassed exactly when some
  entry has a non-empty host part that matches the lower-cased host and no port or the target's port; the
  order and the letter case of the entries do not matter.  An entry that starts with a dot matches the
  domain itself and its subdomains only.\<close>

theorem bypass_decision:
  assumes "target_ok t"
  shows "(proxy_bypasses_target t \<longleftrightarrow>
     (\<exists>e\<in>set (tc_proxy_no_proxy t). \<exists>h p. split_proxy_bypass_port e = Some (h, p) \<and> h \<noteq> [] \<and>
        (p = 0 \<or> p = tc_port t) \<and> bypass_entry_matches (strip_brackets (lowercase (tc_host t))) (lowercase h))) \<and>
    (\<forall>d host. CHR ''/'' \<notin> set d \<longrightarrow>
      (bypass_entry_matches host (CHR ''.'' # d) \<longleftrightarrow> host = d \<or> (\<exists>labels. host = labels @ CHR ''.'' # d)))"
proof
  have "\<exists>h p. split_proxy_bypass_port e = Some (h, p) \<and> h \<noteq> []" if "e \<in> set (tc_proxy_no_proxy t)" for e
    using assms that by (auto simp: target_ok_def proxy_ok_def list_all_iff elim!: valid_bypass_split)
  then show "proxy_bypasses_target t \<longleftrightarrow>
     (\<exists>e\<in>set (tc_proxy_no_proxy t). \<exists>h p. split_proxy_bypass_port e = Some (h, p) \<and> h \<noteq> [] \<and>
        (p = 0 \<or> p = tc_port t) \<and> bypass_entry_matches (strip_brackets (lowercase (tc_host t))) (lowercase h))"
    by (fastforce simp: proxy_bypasses_target_def bypasses_any_iff)
  show "\<forall>d host. CHR ''/'' \<notin> set d \<longrightarrow>
      (bypass_entry_matches host (CHR ''.'' # d) \<longleftrightarrow> host = d \<or> (\<exists>labels. host = labels @ CHR ''.'' # d))"
    by (simp add: bypass_entry_matches_def starts_with_def host_matches_suffix_iff)
qed

subsection \<open>Witnesses\<close>

lemmas config_eval =
  parse_config_def require_object_def require_only_keys_def check_that_def required_integer_def required_string_def
  find_string_def valid_env_name_def ident_def byte_class_defs service_denylist_def parse_server_exec_denylist_def
  kMaxServerExecDenyEntries_def kMaxServerExecDenyPatternBytes_def parse_deny_entry_def read_deny_item_def
  build_deny_entry_def optional_boolean_def normalize_server_exec_text_def is_server_exec_pattern_space_def nul_def
  target_entries_def parse_target_def parse_identity_def parse_target_denylist_def parse_flags_def parse_trust_def
  has_member_def resolve_path_def check_identity_def valid_target_id_def valid_host_def forbidden_host_char_def
  valid_username_def parse_proxy_def parse_proxy_endpoint_def parse_no_proxy_def append_bypass_def trim_blank_def
  trim_by_def blank_char_def parse_auth_def parse_credentials_def default_target_def Let_def

lemma demo_bypass: "valid_proxy_bypass_entry ''.corp''"
  by (simp add: valid_proxy_bypass_entry_def split_proxy_bypass_port_def bypass_host_def bypass_char_def
      starts_with_def byte_class_defs Let_def)

lemma demo_url: "parse_proxy_url ''http://p:8080'' = Some (''p'', 8080, HttpConnect)"
  by (simp add: parse_proxy_url_def proxy_scheme_def lowercase_def to_lower_def byte_class_defs starts_with_def
      authority_end_def parse_authority_def split_authority_def valid_host_def forbidden_host_char_def
      proxy_host_char_def proxy_port_text_def from_chars_int_def is_digit_sequence_def read_decimal_def
      digit_value_def Let_def)

lemma demo_parsed: "\<exists>c t. parse_config demo_env demo_config [] = Inr c \<and> sc_targets c ''a'' = Some t \<and>
    tc_proxy_no_proxy t = [''.corp''] \<and> tc_host t = ''web''"
  by (simp add: demo_config_def demo_env_def demo_url demo_bypass config_eval)

theorem config_targets_ok_witness:
  "\<exists>c t. parse_config demo_env demo_config [] = Inr c \<and> sc_targets c ''a'' = Some t \<and> target_ok t"
  using demo_parsed config_targets_ok [OF _ demo_paths] by blast

theorem service_denials_inherited_witness:
  "\<exists>c t own. parse_config demo_env demo_config [] = Inr c \<and> sc_targets c ''a'' = Some t \<and>
     tc_server_exec_denylist t = sc_server_exec_denylist c @ own"
  using demo_parsed service_denials_inherited [of demo_env demo_config "[]"] by blast

theorem denial_ignores_spacing_witness:
  "server_exec_command_is_denied (\<lambda>(rx :: string) s. Some False)
     [\<lparr>pattern = ''rm -rf'', is_regex = False, case_insensitive = False, expression = None\<rparr>] ''rm   -rf '' =
   server_exec_command_is_denied (\<lambda>(rx :: string) s. Some False)
     [\<lparr>pattern = ''rm -rf'', is_regex = False, case_insensitive = False, expression = None\<rparr>] '' rm -rf''"
proof -
  have "command_words ''rm   -rf '' = command_words '' rm -rf''"
    by (simp add: command_words_def is_server_exec_pattern_space_def)
  then show ?thesis by (rule denial_ignores_spacing [THEN conjunct2, THEN mp])
qed

theorem proxy_url_canonical_witness:
  "parse_proxy_url (render_proxy_url (''p'', 8080, HttpConnect)) = Some (''p'', 8080, HttpConnect)"
  using proxy_url_canonical [OF demo_url] by simp

theorem bypass_decision_witness:
  "\<exists>t :: string target_config. target_ok t \<and> tc_proxy_no_proxy t = [''.corp''] \<and> \<not> proxy_bypasses_target t"
proof -
  obtain c t where t: "parse_config demo_env demo_config [] = Inr c" "sc_targets c ''a'' = Some t"
    "tc_proxy_no_proxy t = [''.corp'']" "tc_host t = ''web''" using demo_parsed by blast
  have ok: "target_ok t" using parse_config_target_ok [OF t(1) demo_paths t(2)] by simp
  have split: "split_proxy_bypass_port ''.corp'' = Some (''.corp'', 0)" by (simp add: split_proxy_bypass_port_def)
  have low: "lowercase ''.corp'' = ''.corp''" "strip_brackets (lowercase ''web'') = ''web''"
    by (simp_all add: lowercase_def to_lower_def byte_class_defs strip_brackets_def)
  have "\<not> bypass_entry_matches ''web'' ''.corp''"
    by (simp add: bypass_entry_matches_def starts_with_def host_matches_suffix_def)
  with bypass_decision [OF ok] have "\<not> proxy_bypasses_target t" by (simp add: t(3,4) split low)
  with ok t(3) show ?thesis by blast
qed

end
