(* ===== verification/Wire.thy ===== *)
theory Wire
  imports Prelude
begin

text \<open>
  The SSH wire format that the host-key code reads and writes: 32-bit and 64-bit big-endian
  numbers and length-prefixed strings (\<^verbatim>\<open>read_string\<close>, \<^verbatim>\<open>append_string\<close>,
  \<^verbatim>\<open>read_u32\<close> and \<^verbatim>\<open>read_u64\<close> of \<^verbatim>\<open>src/native/src/host_certificate.cpp\<close> and
  \<^verbatim>\<open>src/native/src/host_key.cpp\<close>).  A reader takes the bytes from the current offset on and
  returns the value with the bytes behind it, so the offset of the source is the length of what
  was consumed.  Four bytes give a number below \<open>2 ^ 32\<close> and eight one below \<open>2 ^ 64\<close>, so
  the shifts of the source do not lose bits and the numbers are naturals here.
\<close>

definition be_value :: "string \<Rightarrow> nat" where
  "be_value s = foldl (\<lambda>a c. a * 256 + byte c) 0 s"

fun be_bytes :: "nat \<Rightarrow> nat \<Rightarrow> string" where
  "be_bytes 0 n = []"
| "be_bytes (Suc k) n = be_bytes k (n div 256) @ [char_of (n mod 256)]"

definition read_uint :: "nat \<Rightarrow> string \<Rightarrow> (nat \<times> string) option" where
  "read_uint k s = (if length s < k then None else Some (be_value (take k s), drop k s))"

abbreviation read_u32 :: "string \<Rightarrow> (nat \<times> string) option" where
  "read_u32 \<equiv> read_uint 4"

abbreviation read_u64 :: "string \<Rightarrow> (nat \<times> string) option" where
  "read_u64 \<equiv> read_uint 8"

definition read_string :: "string \<Rightarrow> (string \<times> string) option" where
  "read_string s =
     (case read_u32 s of
        None \<Rightarrow> None
      | Some (n, rest) \<Rightarrow> if length rest < n then None else Some (take n rest, drop n rest))"

text \<open>\<^verbatim>\<open>append_string\<close>: the bytes it appends; it refuses a value of \<open>2 ^ 32\<close> bytes or more.\<close>

definition wire_string :: "string \<Rightarrow> string" where
  "wire_string v = be_bytes 4 (length v) @ v"

definition append_string :: "string \<Rightarrow> string \<Rightarrow> string option" where
  "append_string v out = (if 2 ^ 32 - 1 < length v then None else Some (out @ wire_string v))"

subsection \<open>Numbers\<close>

lemma be_value_snoc [simp]: "be_value (s @ [c]) = be_value s * 256 + byte c"
  by (simp add: be_value_def)

lemma be_value_Nil [simp]: "be_value [] = 0"
  by (simp add: be_value_def)

lemma length_be_bytes [simp]: "length (be_bytes k n) = k"
  by (induction k arbitrary: n) auto

lemma be_value_less: "be_value s < 256 ^ length s"
proof (induction s rule: rev_induct)
  case (snoc c s)
  have "be_value s * 256 + byte c < (be_value s + 1) * 256" by simp
  also have "\<dots> \<le> 256 ^ length s * 256" using snoc by simp
  finally show ?case by (simp add: mult.commute)
qed simp

lemma be_value_be_bytes: "n < 256 ^ k \<Longrightarrow> be_value (be_bytes k n) = n"
proof (induction k arbitrary: n)
  case (Suc k)
  then have "n div 256 < 256 ^ k" by (simp add: less_mult_imp_div_less mult.commute)
  moreover have "byte (char_of n) = n mod 256" by (simp add: byte_def)
  ultimately show ?case using Suc.IH [of "n div 256"] by simp
qed simp

lemma be_bytes_be_value: "be_bytes (length s) (be_value s) = s"
proof (induction s rule: rev_induct)
  case (snoc c s)
  have "char_of (byte c) = c" by (simp add: byte_def)
  moreover have "(be_value s * 256 + byte c) div 256 = be_value s" "(be_value s * 256 + byte c) mod 256 = byte c"
    by simp_all
  ultimately show ?case using snoc by simp
qed simp

lemma be_bytes_inject: "m < 256 ^ k \<Longrightarrow> n < 256 ^ k \<Longrightarrow> be_bytes k m = be_bytes k n \<longleftrightarrow> m = n"
  by (metis be_value_be_bytes)

subsection \<open>Readers accept exactly what writers produce\<close>

lemma read_uint_iff: "read_uint k s = Some (n, rest) \<longleftrightarrow> n < 256 ^ k \<and> s = be_bytes k n @ rest"
proof
  assume r: "read_uint k s = Some (n, rest)"
  then have k: "k \<le> length s" and n: "n = be_value (take k s)" and rest: "rest = drop k s"
    by (auto simp: read_uint_def split: if_splits)
  have len: "length (take k s) = k" using k by simp
  then have "be_bytes k n = take k s" using be_bytes_be_value [of "take k s"] by (simp add: n)
  moreover have "n < 256 ^ k" using be_value_less [of "take k s"] k by (simp add: n min_def split: if_splits)
  ultimately show "n < 256 ^ k \<and> s = be_bytes k n @ rest" by (simp add: rest)
next
  assume "n < 256 ^ k \<and> s = be_bytes k n @ rest"
  then show "read_uint k s = Some (n, rest)" by (simp add: read_uint_def be_value_be_bytes)
qed

lemma read_string_iff: "read_string s = Some (v, rest) \<longleftrightarrow> length v < 2 ^ 32 \<and> s = wire_string v @ rest"
proof
  assume "read_string s = Some (v, rest)"
  then obtain n r where u: "read_uint 4 s = Some (n, r)" and n: "n \<le> length r" "v = take n r" "rest = drop n r"
    by (auto simp: read_string_def split: option.splits if_splits)
  from u have "n < 256 ^ 4" "s = be_bytes 4 n @ r" by (simp_all only: read_uint_iff)
  moreover have "length v = n" using n by simp
  ultimately show "length v < 2 ^ 32 \<and> s = wire_string v @ rest" using n by (simp add: wire_string_def)
next
  assume "length v < 2 ^ 32 \<and> s = wire_string v @ rest"
  then have "read_uint 4 s = Some (length v, v @ rest)" by (simp add: read_uint_iff wire_string_def)
  then show "read_string s = Some (v, rest)" by (simp add: read_string_def)
qed

lemma read_string_wire [simp]: "length v < 2 ^ 32 \<Longrightarrow> read_string (wire_string v @ rest) = Some (v, rest)"
  by (simp add: read_string_iff)

lemma read_uint_bytes [simp]: "n < 256 ^ k \<Longrightarrow> read_uint k (be_bytes k n @ rest) = Some (n, rest)"
  by (simp add: read_uint_iff)

lemma read_string_shorter: "read_string s = Some (v, rest) \<Longrightarrow> length rest < length s"
  by (auto simp: read_string_iff wire_string_def)

lemma length_wire_string [simp]: "length (wire_string v) = 4 + length v"
  by (simp add: wire_string_def)

lemma wire_string_inject:
  "length v < 2 ^ 32 \<Longrightarrow> length w < 2 ^ 32 \<Longrightarrow> wire_string v @ r = wire_string w @ q \<longleftrightarrow> v = w \<and> r = q"
  by (metis read_string_iff option.inject prod.inject)

text \<open>The pair of writer and reader is a strict codec.\<close>

interpretation wire: strict_codec "\<lambda>(v, rest). wire_string v @ rest" read_string "\<lambda>(v, rest). length v < 2 ^ 32"
  by unfold_locales (auto simp: read_string_iff)

end
