(* ===== verification/HostKey.thy ===== *)
theory HostKey
  imports Wire Base64 ConfigParse
begin

text \<open>
  Host-key blobs and their fingerprints (\<^verbatim>\<open>src/native/src/host_key.cpp\<close>): the plain public
  key inside a blob or certificate and the \<^verbatim>\<open>SHA256:\<close> text that pins and configurations
  compare.  The hash of the platform (\<^verbatim>\<open>BCrypt\<close> or \<^verbatim>\<open>EVP_Digest\<close>) is an argument;
  \<^term>\<open>None\<close> is a failed call.
\<close>

datatype host_key_algorithm = Rsa | Dss | Ecdsa256 | Ecdsa384 | Ecdsa521 | Ed25519

record host_key_material =
  public_key_blob :: string
  hk_algorithm :: host_key_algorithm
  hk_certificate :: bool

definition kMaxHostKeyBlobBytes :: nat where
  "kMaxHostKeyBlobBytes = 1024 * 1024"

definition kCertificateSuffix :: string where
  "kCertificateSuffix = ''-cert-v01@openssh.com''"

definition algorithm_for_name :: "string \<Rightarrow> host_key_algorithm option" where
  "algorithm_for_name name =
     (if name = ''ssh-rsa'' then Some Rsa
      else if name = ''ssh-dss'' then Some Dss
      else if name = ''ecdsa-sha2-nistp256'' then Some Ecdsa256
      else if name = ''ecdsa-sha2-nistp384'' then Some Ecdsa384
      else if name = ''ecdsa-sha2-nistp521'' then Some Ecdsa521
      else if name = ''ssh-ed25519'' then Some Ed25519
      else None)"

definition certificate_algorithm :: "string \<Rightarrow> (string \<times> host_key_algorithm) option" where
  "certificate_algorithm name =
     (if length name \<le> length kCertificateSuffix \<or>
         drop (length name - length kCertificateSuffix) name \<noteq> kCertificateSuffix then None
      else
        let plain_name = take (length name - length kCertificateSuffix) name
        in map_option (Pair plain_name) (algorithm_for_name plain_name))"

definition curve_name :: "host_key_algorithm \<Rightarrow> string" where
  "curve_name algorithm =
     (if algorithm = Ecdsa256 then ''nistp256'' else if algorithm = Ecdsa384 then ''nistp384'' else ''nistp521'')"

text \<open>The bytes behind the key fields of a certificate.\<close>

definition key_fields :: "host_key_algorithm \<Rightarrow> string \<Rightarrow> string option" where
  "key_fields algorithm s =
     (case algorithm of
        Rsa \<Rightarrow>
          (case read_string s of
             None \<Rightarrow> None
           | Some (first_field, r) \<Rightarrow>
               if first_field = [] then None
               else case read_string r of
                   None \<Rightarrow> None
                 | Some (second_field, rest) \<Rightarrow> if second_field = [] then None else Some rest)
      | Dss \<Rightarrow> None
      | Ed25519 \<Rightarrow>
          (case read_string s of
             None \<Rightarrow> None
           | Some (first_field, rest) \<Rightarrow> if length first_field \<noteq> 32 then None else Some rest)
      | _ \<Rightarrow>
          (case read_string s of
             None \<Rightarrow> None
           | Some (curve, r) \<Rightarrow>
               if curve \<noteq> curve_name algorithm then None
               else case read_string r of
                   None \<Rightarrow> None
                 | Some (first_field, rest) \<Rightarrow> if first_field = [] then None else Some rest))"

definition normalize_certificate_key :: "string \<Rightarrow> host_key_algorithm \<Rightarrow> string \<Rightarrow> host_key_material option" where
  "normalize_certificate_key plain_name algorithm after_name =
     (case read_string after_name of
        None \<Rightarrow> None
      | Some (nonce, fields_start) \<Rightarrow>
          if length nonce < 16 \<or> 1024 < length nonce then None
          else case key_fields algorithm fields_start of
              None \<Rightarrow> None
            | Some rest \<Rightarrow>
                (case append_string plain_name [] of
                   None \<Rightarrow> None
                 | Some blob \<Rightarrow>
                     Some \<lparr>public_key_blob = blob @ take (length fields_start - length rest) fields_start,
                           hk_algorithm = algorithm, hk_certificate = True\<rparr>))"

definition normalize_host_key_blob :: "string \<Rightarrow> host_key_material option" where
  "normalize_host_key_blob blob =
     (if blob = [] \<or> kMaxHostKeyBlobBytes < length blob then None
      else case read_string blob of
          None \<Rightarrow> None
        | Some (name, rest) \<Rightarrow>
            if name = [] then None
            else case certificate_algorithm name of
                None \<Rightarrow>
                  (case algorithm_for_name name of
                     None \<Rightarrow> None
                   | Some algorithm \<Rightarrow>
                       Some \<lparr>public_key_blob = blob, hk_algorithm = algorithm, hk_certificate = False\<rparr>)
              | Some (plain_name, algorithm) \<Rightarrow> normalize_certificate_key plain_name algorithm rest)"

subsection \<open>Fingerprints\<close>

definition block_chars :: "nat \<Rightarrow> nat \<Rightarrow> nat \<Rightarrow> string" where
  "block_chars first second third =
     (let block = push_bit 16 first OR push_bit 8 second OR third
      in [base64_char (drop_bit 18 block AND 63), base64_char (drop_bit 12 block AND 63),
          base64_char (drop_bit 6 block AND 63), base64_char (block AND 63)])"

fun base64_unpadded :: "string \<Rightarrow> string" where
  "base64_unpadded [] = []"
| "base64_unpadded [a] = take 2 (block_chars (byte a) 0 0)"
| "base64_unpadded [a, b] = take 3 (block_chars (byte a) (byte b) 0)"
| "base64_unpadded (a # b # c # rest) = block_chars (byte a) (byte b) (byte c) @ base64_unpadded rest"

definition fingerprint_host_key_blob :: "(string \<Rightarrow> string option) \<Rightarrow> string \<Rightarrow> string" where
  "fingerprint_host_key_blob sha256 blob =
     (case normalize_host_key_blob blob of
        None \<Rightarrow> []
      | Some material \<Rightarrow>
          (case sha256 (public_key_blob material) of
             None \<Rightarrow> []
           | Some digest \<Rightarrow> ''SHA256:'' @ base64_unpadded digest))"

subsection \<open>Lemmas\<close>

lemma base64_char_class: "v < 64 \<Longrightarrow> ascii_alnum (base64_char v) \<or> base64_char v = CHR ''+'' \<or> base64_char v = CHR ''/''"
  by (auto simp: base64_char_def ascii_alnum_def ascii_upper_def ascii_lower_def ascii_digit_def)

lemma and_63_less: "(n AND 63 :: nat) < 64"
proof -
  have "n AND 63 = take_bit 6 n" by (simp add: take_bit_eq_mask mask_eq_exp_minus_1)
  then show ?thesis using take_bit_nat_less_exp [of 6 n] by simp
qed

definition base64_text :: "string \<Rightarrow> bool" where
  "base64_text = list_all (\<lambda>c. ascii_alnum c \<or> c = CHR ''+'' \<or> c = CHR ''/'')"

lemma base64_text_block: "base64_text (block_chars a b c)"
  using base64_char_class [OF and_63_less] by (simp add: base64_text_def block_chars_def Let_def)

lemma base64_text_take: "base64_text s \<Longrightarrow> base64_text (take n s)"
  by (auto simp: base64_text_def list_all_iff dest: in_set_takeD)

lemma base64_text_append: "base64_text s \<Longrightarrow> base64_text t \<Longrightarrow> base64_text (s @ t)"
  by (simp add: base64_text_def)

lemma length_block_chars [simp]: "length (block_chars a b c) = 4"
  by (simp add: block_chars_def Let_def)

lemma base64_text_Nil [simp]: "base64_text []"
  by (simp add: base64_text_def)

lemma base64_unpadded_text: "base64_text (base64_unpadded s)"
  by (induction s rule: base64_unpadded.induct) (simp_all add: base64_text_block base64_text_take base64_text_append)

lemma base64_unpadded_length: "length (base64_unpadded s) = (length s * 4 + 2) div 3"
  by (induction s rule: base64_unpadded.induct) auto

lemma key_fields_suffix: "key_fields algorithm s = Some rest \<Longrightarrow> \<exists>fs. s = fs @ rest"
  by (auto simp: key_fields_def read_string_iff split: host_key_algorithm.splits option.splits if_splits)

end
