(* ===== verification/HostCert.thy ===== *)
theory HostCert
  imports HostKey
begin

text \<open>
  OpenSSH host certificates (\<^verbatim>\<open>src/native/src/host_certificate.cpp\<close>): key blobs,
  authorized-key lines, principal patterns, signatures and the certificate itself.  What
  OpenSSL computes is the record \<open>crypto\<close>: whether a key can be built, the base64 block
  decoder, the DER form of an ECDSA signature, the verification of a signature and two digests;
  \<^term>\<open>None\<close> and \<^term>\<open>False\<close> stand for a call that reports failure.
\<close>

datatype public_key = Ed25519Key string | RsaKey string string | EcKey string string

datatype sig_digest = PureEd25519 | DigestSha1 | DigestSha256 | DigestSha384 | DigestSha512

record crypto =
  evp_decode_block :: "string \<Rightarrow> string option"
  evp_key_ok :: "public_key \<Rightarrow> bool"
  ecdsa_sig_der :: "string \<Rightarrow> string \<Rightarrow> string option"
  evp_digest_verify :: "public_key \<Rightarrow> sig_digest \<Rightarrow> string \<Rightarrow> string \<Rightarrow> bool"
  evp_sha1 :: "string \<Rightarrow> string option"
  evp_sha256 :: "string \<Rightarrow> string option"

definition kMaxCertificateBytes :: nat where
  "kMaxCertificateBytes = 1024 * 1024"

subsection \<open>Keys\<close>

definition base64_padding_of :: "string \<Rightarrow> nat" where
  "base64_padding_of s = (if ends_with ''=='' s then 2 else if ends_with ''='' s then 1 else 0)"

definition base64_alphabet_char :: "char \<Rightarrow> bool" where
  "base64_alphabet_char c \<longleftrightarrow> ascii_alnum c \<or> c = CHR ''+'' \<or> c = CHR ''/''"

definition decode_key_base64 :: "crypto \<Rightarrow> string \<Rightarrow> string option" where
  "decode_key_base64 cr s =
     (if s = [] \<or> 16 * 1024 < length s \<or> length s mod 4 \<noteq> 0 then None
      else
        let padding = base64_padding_of s
        in if \<not> list_all base64_alphabet_char (take (length s - padding) s) then None
           else if \<not> list_all (\<lambda>c. c = CHR ''='') (drop (length s - padding) s) then None
           else case evp_decode_block cr s of
               None \<Rightarrow> None
             | Some decoded \<Rightarrow>
                 if length decoded < padding then None
                 else
                   let key = take (length decoded - padding) decoded
                   in if key = [] \<or> kMaxCertificateBytes < length key then None else Some key)"

definition build_key :: "crypto \<Rightarrow> public_key \<Rightarrow> public_key option" where
  "build_key cr k = (if evp_key_ok cr k then Some k else None)"

definition expected_curve :: "string \<Rightarrow> string option" where
  "expected_curve name =
     (if name = ''ecdsa-sha2-nistp256'' then Some ''nistp256''
      else if name = ''ecdsa-sha2-nistp384'' then Some ''nistp384''
      else if name = ''ecdsa-sha2-nistp521'' then Some ''nistp521''
      else None)"

definition parse_key_blob :: "crypto \<Rightarrow> string \<Rightarrow> public_key option" where
  "parse_key_blob cr blob =
     (case read_string blob of
        None \<Rightarrow> None
      | Some (name, r) \<Rightarrow>
          if name = ''ssh-ed25519'' then
            case read_string r of
              None \<Rightarrow> None
            | Some (key, rest) \<Rightarrow> if length key \<noteq> 32 \<or> rest \<noteq> [] then None else build_key cr (Ed25519Key key)
          else if name = ''ssh-rsa'' then
            case read_string r of
              None \<Rightarrow> None
            | Some (exponent, r2) \<Rightarrow>
                if exponent = [] then None
                else case read_string r2 of
                    None \<Rightarrow> None
                  | Some (modulus, rest) \<Rightarrow>
                      if modulus = [] \<or> rest \<noteq> [] then None else build_key cr (RsaKey exponent modulus)
          else
            case expected_curve name of
              None \<Rightarrow> None
            | Some expected \<Rightarrow>
                (case read_string r of
                   None \<Rightarrow> None
                 | Some (curve, r2) \<Rightarrow>
                     if curve \<noteq> expected then None
                     else case read_string r2 of
                         None \<Rightarrow> None
                       | Some (point, rest) \<Rightarrow>
                           if point = [] \<or> rest \<noteq> [] then None else build_key cr (EcKey curve point)))"

definition parse_authorized_key :: "crypto \<Rightarrow> string \<Rightarrow> string option" where
  "parse_authorized_key cr whole_line =
     (if whole_line = [] \<or> 16 * 1024 < length whole_line then None
      else
        let line = dropWhile blank_char whole_line;
            algorithm = takeWhile (\<lambda>c. \<not> blank_char c) line;
            key_line = dropWhile blank_char (drop (length algorithm) line)
        in if line = [] \<or> drop (length algorithm) line = [] \<or> key_line = [] then None
           else case decode_key_base64 cr (takeWhile (\<lambda>c. \<not> blank_char c) key_line) of
               None \<Rightarrow> None
             | Some blob \<Rightarrow>
                 (case read_string blob of
                    None \<Rightarrow> None
                  | Some (embedded_algorithm, _) \<Rightarrow>
                      if embedded_algorithm \<noteq> algorithm \<or> parse_key_blob cr blob = None then None else Some blob))"

definition ca_public_key_blob :: "crypto \<Rightarrow> string \<Rightarrow> string option" where
  "ca_public_key_blob cr line = parse_authorized_key cr line"

subsection \<open>Principals\<close>

function parse_principal_list :: "string list \<Rightarrow> string \<Rightarrow> string list option" where
  "parse_principal_list principals input =
     (if input = [] then Some principals
      else case read_string input of
          None \<Rightarrow> None
        | Some (item, rest) \<Rightarrow>
            if item = [] \<or> 253 < length item \<or> 256 \<le> length principals then None
            else parse_principal_list (principals @ [item]) rest)"
  by auto
termination
  by (relation "measure (length \<circ> snd)") (auto dest: read_string_shorter)

declare parse_principal_list.simps [simp del]

text \<open>One row of the table of \<^verbatim>\<open>principal_matches\<close>; entry \<open>j\<close> is about the first \<open>j\<close> characters.\<close>

fun star_row :: "bool \<Rightarrow> bool list \<Rightarrow> bool list" where
  "star_row left [] = []"
| "star_row left (p # ps) = (p \<or> left) # star_row (p \<or> left) ps"

definition token_matches :: "char \<Rightarrow> char \<Rightarrow> bool" where
  "token_matches token c \<longleftrightarrow> token = CHR ''?'' \<or> to_lower token = to_lower c"

definition next_row :: "string \<Rightarrow> bool list \<Rightarrow> char \<Rightarrow> bool list" where
  "next_row value previous token =
     (if token = CHR ''*'' then star_row False previous
      else False # map2 (\<lambda>p c. p \<and> token_matches token c) (butlast previous) value)"

definition principal_matches :: "string \<Rightarrow> string \<Rightarrow> bool" where
  "principal_matches glob value =
     (if 253 < length glob \<or> 253 < length value then False
      else last (foldl (next_row value) (True # replicate (length value) False) glob))"

subsection \<open>Signatures\<close>

definition signature_digest :: "string \<Rightarrow> string \<Rightarrow> sig_digest option" where
  "signature_digest key_algorithm algorithm =
     (if algorithm = ''ssh-ed25519'' \<and> key_algorithm = ''ssh-ed25519'' then Some PureEd25519
      else if key_algorithm = ''ssh-rsa'' \<and> algorithm = ''ssh-rsa'' then Some DigestSha1
      else if key_algorithm = ''ssh-rsa'' \<and> algorithm = ''rsa-sha2-256'' then Some DigestSha256
      else if key_algorithm = ''ssh-rsa'' \<and> algorithm = ''rsa-sha2-512'' then Some DigestSha512
      else if key_algorithm = ''ecdsa-sha2-nistp256'' \<and> algorithm = key_algorithm then Some DigestSha256
      else if key_algorithm = ''ecdsa-sha2-nistp384'' \<and> algorithm = key_algorithm then Some DigestSha384
      else if key_algorithm = ''ecdsa-sha2-nistp521'' \<and> algorithm = key_algorithm then Some DigestSha512
      else None)"

definition two_strings :: "string \<Rightarrow> (string \<times> string) option" where
  "two_strings s =
     (case read_string s of
        None \<Rightarrow> None
      | Some (a, r) \<Rightarrow>
          (case read_string r of
             None \<Rightarrow> None
           | Some (b, rest) \<Rightarrow> if rest \<noteq> [] then None else Some (a, b)))"

definition signature_bytes :: "crypto \<Rightarrow> string \<Rightarrow> string \<Rightarrow> string option" where
  "signature_bytes cr key_algorithm signature =
     (if starts_with ''ecdsa-'' key_algorithm then
        case two_strings signature of
          None \<Rightarrow> None
        | Some (r, s) \<Rightarrow> if r = [] \<or> s = [] then None else ecdsa_sig_der cr r s
      else Some signature)"

definition verify_signature :: "crypto \<Rightarrow> public_key \<Rightarrow> string \<Rightarrow> string \<Rightarrow> string \<Rightarrow> bool" where
  "verify_signature cr ca_key ca_blob data signature_blob =
     (case two_strings signature_blob of
        None \<Rightarrow> False
      | Some (algorithm, signature) \<Rightarrow>
          (case read_string ca_blob of
             None \<Rightarrow> False
           | Some (key_algorithm, _) \<Rightarrow>
               (case signature_digest key_algorithm algorithm of
                  None \<Rightarrow> False
                | Some digest \<Rightarrow>
                    (case signature_bytes cr key_algorithm signature of
                       None \<Rightarrow> False
                     | Some bytes \<Rightarrow> evp_digest_verify cr ca_key digest data bytes))))"

subsection \<open>The certificate\<close>

record certificate =
  c_principals :: "string list"
  c_valid_after :: nat
  c_valid_before :: nat
  c_critical_options :: string
  c_ca_blob :: string
  c_signature_blob :: string
  c_signed_length :: nat
  c_type :: nat
  c_serial :: nat
  c_key_id :: string
  c_subject_key_blob :: string

definition subject_fields :: "string \<Rightarrow> string \<Rightarrow> string option" where
  "subject_fields plain s =
     (if plain = ''ssh-rsa'' then
        case read_string s of
          None \<Rightarrow> None
        | Some (field, r) \<Rightarrow>
            if field = [] then None
            else case read_string r of
                None \<Rightarrow> None
              | Some (field2, rest) \<Rightarrow> if field2 = [] then None else Some rest
      else if plain = ''ssh-ed25519'' then
        case read_string s of
          None \<Rightarrow> None
        | Some (field, rest) \<Rightarrow> if length field \<noteq> 32 then None else Some rest
      else
        case expected_curve plain of
          None \<Rightarrow> None
        | Some expected \<Rightarrow>
            (case read_string s of
               None \<Rightarrow> None
             | Some (curve, r) \<Rightarrow>
                 if curve \<noteq> expected then None
                 else case read_string r of
                     None \<Rightarrow> None
                   | Some (field, rest) \<Rightarrow> if field = [] then None else Some rest))"

text \<open>The fields behind the subject key: serial to signature, in the order of the blob.\<close>

definition parse_certificate_body :: "string \<Rightarrow> string \<Rightarrow> string \<Rightarrow> certificate option" where
  "parse_certificate_body blob subject s =
     do { (serial, s) \<leftarrow> read_u64 s;
          (type, s) \<leftarrow> read_u32 s;
          (key_id, s) \<leftarrow> read_string s;
          if 4096 < length key_id then None else do {
          (principal_blob, s) \<leftarrow> read_string s;
          principals \<leftarrow> parse_principal_list [] principal_blob;
          (valid_after, s) \<leftarrow> read_u64 s;
          (valid_before, s) \<leftarrow> read_u64 s;
          (critical_options, s) \<leftarrow> read_string s;
          (extensions, s) \<leftarrow> read_string s;
          (reserved, s) \<leftarrow> read_string s;
          (ca_blob, s) \<leftarrow> read_string s;
          (signature_blob, rest) \<leftarrow> read_string s;
          if rest \<noteq> [] then None
          else Some \<lparr>c_principals = principals, c_valid_after = valid_after, c_valid_before = valid_before,
                     c_critical_options = critical_options, c_ca_blob = ca_blob,
                     c_signature_blob = signature_blob, c_signed_length = length blob - length s,
                     c_type = type, c_serial = serial, c_key_id = key_id, c_subject_key_blob = subject\<rparr> } }"

definition parse_certificate :: "string \<Rightarrow> certificate option" where
  "parse_certificate blob =
     do { (algorithm, s) \<leftarrow> read_string blob;
          if length algorithm \<le> length kCertificateSuffix \<or>
             drop (length algorithm - length kCertificateSuffix) algorithm \<noteq> kCertificateSuffix then None else do {
          (nonce, fields_start) \<leftarrow> read_string s;
          if length nonce < 16 \<or> 1024 < length nonce then None else do {
          let plain = take (length algorithm - length kCertificateSuffix) algorithm;
          rest \<leftarrow> subject_fields plain fields_start;
          subject_name \<leftarrow> append_string plain [];
          parse_certificate_body blob (subject_name @ take (length fields_start - length rest) fields_start) rest } } }"

end
