(* ===== verification/HostCertFacts.thy ===== *)
theory HostCertFacts
  imports HostCert
begin

text \<open>
  Facts on \<^verbatim>\<open>src/native/src/host_certificate.cpp\<close>: the table of
  \<^verbatim>\<open>principal_matches\<close> against a recursive matcher, and the certificate parser against an
  encoder, so that acceptance is membership in the image of the encoder.
\<close>

subsection \<open>Principals\<close>

text \<open>The reference matcher: \<open>*\<close> stands for any suffix to be dropped, \<open>?\<close> for any character.\<close>

fun glob_matches :: "string \<Rightarrow> string \<Rightarrow> bool" where
  "glob_matches [] v = (v = [])"
| "glob_matches (t # ts) v =
     (if t = CHR ''*'' then list_ex (\<lambda>k. glob_matches ts (drop k v)) [0..<Suc (length v)]
      else case v of [] \<Rightarrow> False | c # cs \<Rightarrow> token_matches t c \<and> glob_matches ts cs)"

lemma glob_star: "glob_matches (CHR ''*'' # ts) v \<longleftrightarrow> (\<exists>a b. v = a @ b \<and> glob_matches ts b)"
proof
  assume "glob_matches (CHR ''*'' # ts) v"
  then obtain k where "glob_matches ts (drop k v)" by (auto simp: list_ex_iff simp del: upt_Suc)
  then show "\<exists>a b. v = a @ b \<and> glob_matches ts b" by (metis append_take_drop_id)
next
  assume "\<exists>a b. v = a @ b \<and> glob_matches ts b"
  then obtain a b where ab: "v = a @ b" "glob_matches ts b" by blast
  then have "length a < Suc (length v)" "drop (length a) v = b" by auto
  with ab(2) show "glob_matches (CHR ''*'' # ts) v"
    by (auto simp: list_ex_iff simp del: upt_Suc intro!: bexI [of _ "length a"])
qed

lemma glob_token: "t \<noteq> CHR ''*'' \<Longrightarrow>
  glob_matches (t # ts) v \<longleftrightarrow> (\<exists>c cs. v = c # cs \<and> token_matches t c \<and> glob_matches ts cs)"
  by (auto split: list.splits)

lemmas glob_step = glob_star glob_token
declare glob_matches.simps(2) [simp del]

lemma glob_snoc_star: "glob_matches (p @ [CHR ''*'']) v \<longleftrightarrow> (\<exists>a b. v = a @ b \<and> glob_matches p a)"
proof (induction p arbitrary: v)
  case Nil
  show ?case by (auto simp: glob_star)
next
  case (Cons t p)
  show ?case
  proof (cases "t = CHR ''*''")
    case True
    have "(\<exists>a b. v = a @ b \<and> (\<exists>c d. b = c @ d \<and> glob_matches p c)) \<longleftrightarrow>
        (\<exists>a b. v = a @ b \<and> (\<exists>c d. a = c @ d \<and> glob_matches p d))"
      by (metis append_assoc)
    with True show ?thesis by (simp add: glob_star Cons)
  next
    case False
    then show ?thesis by (simp add: glob_token Cons) (metis append_Cons)
  qed
qed

lemma glob_snoc_token: "t \<noteq> CHR ''*'' \<Longrightarrow>
  glob_matches (p @ [t]) v \<longleftrightarrow> (\<exists>a c. v = a @ [c] \<and> token_matches t c \<and> glob_matches p a)"
proof (induction p arbitrary: v)
  case Nil
  then show ?case by (auto simp: glob_token)
next
  case (Cons u p)
  show ?case
  proof (cases "u = CHR ''*''")
    case True
    have "(\<exists>a b. v = a @ b \<and> (\<exists>d c. b = d @ [c] \<and> token_matches t c \<and> glob_matches p d)) \<longleftrightarrow>
        (\<exists>a c. v = a @ [c] \<and> token_matches t c \<and> (\<exists>x d. a = x @ d \<and> glob_matches p d))"
      by (metis append_assoc)
    with True Cons show ?thesis by (simp add: glob_star)
  next
    case False
    with Cons show ?thesis by (simp add: glob_token) (metis append_Cons)
  qed
qed

text \<open>Entry \<open>j\<close> of the row after the pattern \<open>p\<close> tells whether \<open>p\<close> matches the first \<open>j\<close> characters.\<close>

definition row_of :: "string \<Rightarrow> string \<Rightarrow> bool list" where
  "row_of value p = map (\<lambda>j. glob_matches p (take j value)) [0..<Suc (length value)]"

lemma length_row_of [simp]: "length (row_of value p) = Suc (length value)"
  by (simp add: row_of_def)

lemma row_of_nth: "j \<le> length value \<Longrightarrow> row_of value p ! j = glob_matches p (take j value)"
  by (simp add: row_of_def less_Suc_eq_le del: upt_Suc)

lemma star_row_nth: "j < length ps \<Longrightarrow> star_row left ps ! j \<longleftrightarrow> left \<or> (\<exists>i\<le>j. ps ! i)"
proof (induction ps arbitrary: left j)
  case (Cons p ps)
  show ?case
  proof (cases j)
    case (Suc k)
    have "(\<exists>i\<le>Suc k. (p # ps) ! i) \<longleftrightarrow> p \<or> (\<exists>i\<le>k. ps ! i)"
      by (metis Suc_le_mono less_eq_Suc_le nth_Cons_0 nth_Cons_Suc not0_implies_Suc zero_le)
    with Suc Cons show ?thesis by auto
  qed auto
qed simp

lemma length_star_row [simp]: "length (star_row left ps) = length ps"
  by (induction ps arbitrary: left) auto

lemma glob_star_take:
  assumes "j \<le> length value"
  shows "glob_matches (p @ [CHR ''*'']) (take j value) \<longleftrightarrow> (\<exists>i\<le>j. glob_matches p (take i value))"
proof
  assume "glob_matches (p @ [CHR ''*'']) (take j value)"
  then obtain a b where ab: "take j value = a @ b" "glob_matches p a" by (auto simp: glob_snoc_star)
  have "length a \<le> j" using arg_cong [OF ab(1), of length] assms by simp
  moreover have "a = take (length a) value"
    using ab(1) \<open>length a \<le> j\<close> by (metis append_eq_conv_conj min.absorb1 take_take)
  ultimately show "\<exists>i\<le>j. glob_matches p (take i value)" using ab(2) by metis
next
  assume "\<exists>i\<le>j. glob_matches p (take i value)"
  then obtain i where i: "i \<le> j" "glob_matches p (take i value)" by blast
  have "take j value = take i value @ take (j - i) (drop i value)" using i(1) by (metis le_add_diff_inverse take_add)
  with i(2) show "glob_matches (p @ [CHR ''*'']) (take j value)" by (auto simp: glob_snoc_star)
qed

lemma next_row_row_of: "next_row value (row_of value p) t = row_of value (p @ [t])"
proof (rule nth_equalityI)
  show "length (next_row value (row_of value p) t) = length (row_of value (p @ [t]))"
    by (simp add: next_row_def)
next
  fix j
  assume "j < length (next_row value (row_of value p) t)"
  then have j: "j \<le> length value" by (simp add: next_row_def split: if_splits)
  show "next_row value (row_of value p) t ! j = row_of value (p @ [t]) ! j"
  proof (cases "t = CHR ''*''")
    case True
    with j show ?thesis by (simp add: next_row_def star_row_nth row_of_nth glob_star_take cong: conj_cong)
  next
    case False
    show ?thesis
    proof (cases j)
      case 0
      with False show ?thesis by (simp add: next_row_def row_of_nth glob_snoc_token)
    next
      case (Suc k)
      with j have k: "k < length value" by simp
      have "take (Suc k) value = take k value @ [value ! k]" using k by (rule take_Suc_conv_app_nth)
      then have "row_of value (p @ [t]) ! j \<longleftrightarrow> token_matches t (value ! k) \<and> glob_matches p (take k value)"
        using j Suc False by (simp add: row_of_nth glob_snoc_token)
      moreover have "next_row value (row_of value p) t ! j \<longleftrightarrow> row_of value p ! k \<and> token_matches t (value ! k)"
        using False Suc k by (simp add: next_row_def nth_butlast)
      ultimately show ?thesis using k by (auto simp: row_of_nth)
    qed
  qed
qed

lemma initial_row: "True # replicate (length value) False = row_of value []"
proof (rule nth_equalityI)
  fix j
  assume "j < length (True # replicate (length value) False)"
  then show "(True # replicate (length value) False) ! j = row_of value [] ! j"
    by (cases j) (auto simp: row_of_nth)
qed simp

lemma rows: "foldl (next_row value) (row_of value p) q = row_of value (p @ q)"
  by (induction q arbitrary: p) (simp_all add: next_row_row_of)

lemma principal_matches_glob:
  "principal_matches g v \<longleftrightarrow> length g \<le> 253 \<and> length v \<le> 253 \<and> glob_matches g v"
proof -
  have "last (row_of v g) = glob_matches g v"
    by (simp add: row_of_def last_map last_conv_nth)
  then show ?thesis by (auto simp: principal_matches_def initial_row rows)
qed

subsection \<open>The certificate\<close>

text \<open>The fields of a certificate in the order of the blob.\<close>

record cert_shape =
  sh_plain :: string
  sh_nonce :: string
  sh_subject :: "string list"
  sh_serial :: nat
  sh_type :: nat
  sh_key_id :: string
  sh_principals :: "string list"
  sh_valid_after :: nat
  sh_valid_before :: nat
  sh_critical_options :: string
  sh_extensions :: string
  sh_reserved :: string
  sh_ca_blob :: string
  sh_signature_blob :: string

definition wire_list :: "string list \<Rightarrow> string" where
  "wire_list vs = concat (map wire_string vs)"

text \<open>The key fields of each algorithm.\<close>

definition subject_ok :: "string \<Rightarrow> string list \<Rightarrow> bool" where
  "subject_ok plain fs \<longleftrightarrow>
     list_all (\<lambda>f. length f < 2 ^ 32) fs \<and>
     (if plain = ''ssh-rsa'' then length fs = 2 \<and> [] \<notin> set fs
      else if plain = ''ssh-ed25519'' then \<exists>f. fs = [f] \<and> length f = 32
      else \<exists>curve f. expected_curve plain = Some curve \<and> fs = [curve, f] \<and> f \<noteq> [])"

definition signed_part :: "cert_shape \<Rightarrow> string" where
  "signed_part sh =
     wire_string (sh_plain sh @ kCertificateSuffix) @ wire_string (sh_nonce sh) @ wire_list (sh_subject sh) @
     be_bytes 8 (sh_serial sh) @ be_bytes 4 (sh_type sh) @ wire_string (sh_key_id sh) @
     wire_string (wire_list (sh_principals sh)) @ be_bytes 8 (sh_valid_after sh) @
     be_bytes 8 (sh_valid_before sh) @ wire_string (sh_critical_options sh) @ wire_string (sh_extensions sh) @
     wire_string (sh_reserved sh) @ wire_string (sh_ca_blob sh)"

text \<open>The part behind the subject key and in front of the signature.\<close>

definition body_part :: "cert_shape \<Rightarrow> string" where
  "body_part sh =
     be_bytes 8 (sh_serial sh) @ be_bytes 4 (sh_type sh) @ wire_string (sh_key_id sh) @
     wire_string (wire_list (sh_principals sh)) @ be_bytes 8 (sh_valid_after sh) @
     be_bytes 8 (sh_valid_before sh) @ wire_string (sh_critical_options sh) @ wire_string (sh_extensions sh) @
     wire_string (sh_reserved sh) @ wire_string (sh_ca_blob sh)"

definition encode_certificate :: "cert_shape \<Rightarrow> string" where
  "encode_certificate sh = signed_part sh @ wire_string (sh_signature_blob sh)"

definition cert_shape_ok :: "cert_shape \<Rightarrow> bool" where
  "cert_shape_ok sh \<longleftrightarrow>
     subject_ok (sh_plain sh) (sh_subject sh) \<and> 16 \<le> length (sh_nonce sh) \<and> length (sh_nonce sh) \<le> 1024 \<and>
     sh_serial sh < 2 ^ 64 \<and> sh_type sh < 2 ^ 32 \<and> length (sh_key_id sh) \<le> 4096 \<and>
     length (sh_principals sh) \<le> 256 \<and> list_all (\<lambda>p. p \<noteq> [] \<and> length p \<le> 253) (sh_principals sh) \<and>
     sh_valid_after sh < 2 ^ 64 \<and> sh_valid_before sh < 2 ^ 64 \<and> length (sh_critical_options sh) < 2 ^ 32 \<and>
     length (sh_extensions sh) < 2 ^ 32 \<and> length (sh_reserved sh) < 2 ^ 32 \<and>
     length (sh_ca_blob sh) < 2 ^ 32 \<and> length (sh_signature_blob sh) < 2 ^ 32"

definition certificate_of :: "cert_shape \<Rightarrow> certificate" where
  "certificate_of sh =
     \<lparr>c_principals = sh_principals sh, c_valid_after = sh_valid_after sh, c_valid_before = sh_valid_before sh,
      c_critical_options = sh_critical_options sh, c_ca_blob = sh_ca_blob sh,
      c_signature_blob = sh_signature_blob sh, c_signed_length = length (signed_part sh), c_type = sh_type sh,
      c_serial = sh_serial sh, c_key_id = sh_key_id sh,
      c_subject_key_blob = wire_string (sh_plain sh) @ wire_list (sh_subject sh)\<rparr>"

lemma wire_string_not_Nil [simp]: "wire_string v \<noteq> []"
  by (simp flip: length_0_conv)

lemma if_None_Some: "(if b then None else x) = Some y \<longleftrightarrow> \<not> b \<and> x = Some y"
  by simp

lemma read_string_case:
  "(case read_string s of None \<Rightarrow> None | Some (v, r) \<Rightarrow> f v r) = Some x \<longleftrightarrow>
   (\<exists>v r. length v < 2 ^ 32 \<and> s = wire_string v @ r \<and> f v r = Some x)"
  unfolding read_string_iff [symmetric] conj_assoc [symmetric] by (auto split: option.splits)

lemma bind_read_string:
  "Option.bind (read_string s) (\<lambda>(v, r). f v r) = Some x \<longleftrightarrow>
   (\<exists>v r. length v < 2 ^ 32 \<and> s = wire_string v @ r \<and> f v r = Some x)"
  unfolding read_string_iff [symmetric] conj_assoc [symmetric] by (auto simp: bind_eq_Some_conv)

lemma bind_read_uint:
  "Option.bind (read_uint k s) (\<lambda>(n, r). f n r) = Some x \<longleftrightarrow>
   (\<exists>n r. n < 256 ^ k \<and> s = be_bytes k n @ r \<and> f n r = Some x)"
  unfolding read_uint_iff [symmetric] conj_assoc [symmetric] by (auto simp: bind_eq_Some_conv)

lemma wire_list_simps [simp]: "wire_list [] = []" "wire_list (v # vs) = wire_string v @ wire_list vs"
  by (simp_all add: wire_list_def)

lemma parse_principal_list_iff:
  "parse_principal_list ps input = Some qs \<longleftrightarrow>
   (\<exists>new. qs = ps @ new \<and> input = wire_list new \<and> list_all (\<lambda>p. p \<noteq> [] \<and> length p \<le> 253) new \<and>
      (new = [] \<or> length qs \<le> 256))"
proof (induction ps input arbitrary: qs rule: parse_principal_list.induct)
  case (1 ps input)
  show ?case
  proof (cases "read_string input")
    case None
    have empty: "wire_list new = [] \<longleftrightarrow> new = []" for new
      by (cases new) auto
    have none: "input \<noteq> wire_list new" if "list_all (\<lambda>p. p \<noteq> [] \<and> length p \<le> 253) new" "input \<noteq> []" for new
      using None that read_string_wire by (cases new) auto
    show ?thesis
    proof (cases "input = []")
      case True
      then have "parse_principal_list ps input = Some ps" by (subst parse_principal_list.simps) simp
      moreover have "[] = wire_list new \<longleftrightarrow> new = []" for new using empty [of new] by metis
      ultimately show ?thesis using True by auto
    next
      case False
      with None none show ?thesis by (subst parse_principal_list.simps) auto
    qed
  next
    case (Some pr)
    obtain item rest where pr: "pr = (item, rest)" by fastforce
    with Some have input: "input = wire_string item @ rest" "length item < 2 ^ 32" "input \<noteq> []"
      by (auto simp: read_string_iff)
    have uniq: "wire_list new = input \<Longrightarrow> list_all (\<lambda>p. p \<noteq> [] \<and> length p \<le> 253) new \<Longrightarrow>
        (\<exists>new'. new = item # new' \<and> wire_list new' = rest)" for new
      using input by (cases new) (auto simp: wire_string_inject)
    show ?thesis
    proof (cases "item = [] \<or> 253 < length item \<or> 256 \<le> length ps")
      case True
      then have "parse_principal_list ps input = None"
        using Some pr input by (subst parse_principal_list.simps) auto
      with True uniq show ?thesis by fastforce
    next
      case False
      have "parse_principal_list ps input = parse_principal_list (ps @ [item]) rest"
        using Some pr input False by (subst parse_principal_list.simps) auto
      also have "\<dots> = Some qs \<longleftrightarrow> (\<exists>new. qs = (ps @ [item]) @ new \<and> rest = wire_list new \<and>
          list_all (\<lambda>p. p \<noteq> [] \<and> length p \<le> 253) new \<and> (new = [] \<or> length qs \<le> 256))"
        using "1.IH" [OF input(3) Some pr [symmetric]] False by simp
      also have "\<dots> \<longleftrightarrow> (\<exists>new. qs = ps @ new \<and> input = wire_list new \<and>
          list_all (\<lambda>p. p \<noteq> [] \<and> length p \<le> 253) new \<and> (new = [] \<or> length qs \<le> 256))"
      proof
        assume "\<exists>new. qs = (ps @ [item]) @ new \<and> rest = wire_list new \<and>
          list_all (\<lambda>p. p \<noteq> [] \<and> length p \<le> 253) new \<and> (new = [] \<or> length qs \<le> 256)"
        then obtain new where "qs = (ps @ [item]) @ new" "rest = wire_list new"
          "list_all (\<lambda>p. p \<noteq> [] \<and> length p \<le> 253) new" "new = [] \<or> length qs \<le> 256" by blast
        with False input(1) show "\<exists>new. qs = ps @ new \<and> input = wire_list new \<and>
          list_all (\<lambda>p. p \<noteq> [] \<and> length p \<le> 253) new \<and> (new = [] \<or> length qs \<le> 256)"
          by (intro exI [of _ "item # new"]) auto
      next
        assume "\<exists>new. qs = ps @ new \<and> input = wire_list new \<and>
          list_all (\<lambda>p. p \<noteq> [] \<and> length p \<le> 253) new \<and> (new = [] \<or> length qs \<le> 256)"
        then show "\<exists>new. qs = (ps @ [item]) @ new \<and> rest = wire_list new \<and>
          list_all (\<lambda>p. p \<noteq> [] \<and> length p \<le> 253) new \<and> (new = [] \<or> length qs \<le> 256)"
          using uniq input(3) by fastforce
      qed
      finally show ?thesis .
    qed
  qed
qed

lemma expected_curve_cases:
  "expected_curve plain = Some curve \<Longrightarrow> length plain = 19 \<and> length curve = 8 \<and> plain \<noteq> ''ssh-rsa'' \<and> plain \<noteq> ''ssh-ed25519''"
  by (auto simp: expected_curve_def split: if_splits)

lemma two_fields:
  "(\<exists>fs. length fs = 2 \<and> P fs) \<longleftrightarrow> (\<exists>a b. P [a, b])"
  by (auto simp: length_Suc_conv numeral_2_eq_2)

lemma subject_fields_iff:
  "subject_fields plain s = Some rest \<longleftrightarrow> (\<exists>fs. subject_ok plain fs \<and> s = wire_list fs @ rest)"
proof -
  consider (rsa) "plain = ''ssh-rsa''" | (ed) "plain = ''ssh-ed25519''"
    | (ec) "plain \<noteq> ''ssh-rsa''" "plain \<noteq> ''ssh-ed25519''" by blast
  then show ?thesis
  proof cases
    case rsa
    then have "subject_fields plain s = Some rest \<longleftrightarrow>
        (\<exists>a b. a \<noteq> [] \<and> b \<noteq> [] \<and> length a < 2 ^ 32 \<and> length b < 2 ^ 32 \<and> s = wire_string a @ wire_string b @ rest)"
      by (auto simp: subject_fields_def read_string_case if_None_Some)
    also have "\<dots> \<longleftrightarrow> (\<exists>fs. length fs = 2 \<and> list_all (\<lambda>f. length f < 2 ^ 32) fs \<and> [] \<notin> set fs \<and> s = wire_list fs @ rest)"
      by (subst two_fields) (simp, metis)
    finally show ?thesis using rsa by (simp add: subject_ok_def conj_ac)
  next
    case ed
    then have "subject_fields plain s = Some rest \<longleftrightarrow> (\<exists>f. length f = 32 \<and> s = wire_string f @ rest)"
      by (auto simp: subject_fields_def read_string_case if_None_Some) force
    also have "\<dots> \<longleftrightarrow> (\<exists>fs. subject_ok plain fs \<and> s = wire_list fs @ rest)"
      using ed by (auto simp: subject_ok_def) force
    finally show ?thesis .
  next
    case ec
    show ?thesis
    proof (cases "expected_curve plain")
      case None
      with ec show ?thesis by (simp add: subject_fields_def subject_ok_def)
    next
      case (Some curve)
      with expected_curve_cases have "length curve < 2 ^ 32" by fastforce
      with ec Some have "subject_fields plain s = Some rest \<longleftrightarrow>
          (\<exists>f. length f < 2 ^ 32 \<and> f \<noteq> [] \<and> s = wire_string curve @ wire_string f @ rest)"
        by (simp add: subject_fields_def read_string_case if_None_Some) metis
      also have "\<dots> \<longleftrightarrow> (\<exists>fs. subject_ok plain fs \<and> s = wire_list fs @ rest)"
        using ec Some \<open>length curve < 2 ^ 32\<close> by (auto simp: subject_ok_def) force
      finally show ?thesis .
    qed
  qed
qed

lemma parse_certificate_body_sound:
  assumes "parse_certificate_body blob subject s = Some c"
  obtains sh where
    "sh_serial sh < 2 ^ 64" "sh_type sh < 2 ^ 32" "length (sh_key_id sh) \<le> 4096" "length (sh_principals sh) \<le> 256"
    "list_all (\<lambda>p. p \<noteq> [] \<and> length p \<le> 253) (sh_principals sh)" "sh_valid_after sh < 2 ^ 64" "sh_valid_before sh < 2 ^ 64"
    "length (sh_critical_options sh) < 2 ^ 32" "length (sh_extensions sh) < 2 ^ 32" "length (sh_reserved sh) < 2 ^ 32"
    "length (sh_ca_blob sh) < 2 ^ 32" "length (sh_signature_blob sh) < 2 ^ 32"
    "s = body_part sh @ wire_string (sh_signature_blob sh)"
    "c = (certificate_of sh)\<lparr>c_signed_length := length blob - length (wire_string (sh_signature_blob sh)),
       c_subject_key_blob := subject\<rparr>"
    "sh_plain sh = plain" "sh_nonce sh = nonce" "sh_subject sh = fs"
proof -
  from assms obtain serial s1 ty s2 key_id s3 pb s4 ps va s5 vb s6 crit s7 ext s8 res s9 ca s10 sig where
    r: "read_u64 s = Some (serial, s1)" "read_u32 s1 = Some (ty, s2)" "read_string s2 = Some (key_id, s3)"
    "\<not> 4096 < length key_id" "read_string s3 = Some (pb, s4)" "parse_principal_list [] pb = Some ps"
    "read_u64 s4 = Some (va, s5)" "read_u64 s5 = Some (vb, s6)" "read_string s6 = Some (crit, s7)"
    "read_string s7 = Some (ext, s8)" "read_string s8 = Some (res, s9)" "read_string s9 = Some (ca, s10)"
    "read_string s10 = Some (sig, [])" and
    c: "c = \<lparr>c_principals = ps, c_valid_after = va, c_valid_before = vb, c_critical_options = crit, c_ca_blob = ca,
       c_signature_blob = sig, c_signed_length = length blob - length s10, c_type = ty, c_serial = serial,
       c_key_id = key_id, c_subject_key_blob = subject\<rparr>"
    by (auto simp: parse_certificate_body_def bind_eq_Some_conv if_None_Some)
  note r = r [unfolded read_uint_iff read_string_iff parse_principal_list_iff]
  let ?sh = "\<lparr>sh_plain = plain, sh_nonce = nonce, sh_subject = fs, sh_serial = serial, sh_type = ty, sh_key_id = key_id,
    sh_principals = ps, sh_valid_after = va, sh_valid_before = vb, sh_critical_options = crit, sh_extensions = ext,
    sh_reserved = res, sh_ca_blob = ca, sh_signature_blob = sig\<rparr>"
  from r(6) have ps: "pb = wire_list ps" "list_all (\<lambda>p. p \<noteq> [] \<and> length p \<le> 253) ps" "length ps \<le> 256" by auto
  show ?thesis
    by (rule that [of ?sh]) (use r ps c in \<open>simp_all add: body_part_def certificate_of_def\<close>)
qed

lemma wire_list_length: "list_all (\<lambda>p. p \<noteq> [] \<and> length p \<le> 253) ps \<Longrightarrow> length (wire_list ps) \<le> 257 * length ps"
  by (induction ps) auto

lemma read_string_end: "length v < 2 ^ 32 \<Longrightarrow> read_string (wire_string v) = Some (v, [])"
  using read_string_wire [of v "[]"] by simp

lemma parse_certificate_body_complete:
  assumes ok: "cert_shape_ok sh"
  shows "parse_certificate_body blob subject (body_part sh @ wire_string (sh_signature_blob sh)) =
    Some ((certificate_of sh)\<lparr>c_signed_length := length blob - length (wire_string (sh_signature_blob sh)),
       c_subject_key_blob := subject\<rparr>)"
proof -
  have "length (wire_list (sh_principals sh)) < 2 ^ 32"
    using ok wire_list_length [of "sh_principals sh"] by (auto simp: cert_shape_ok_def)
  moreover have "parse_principal_list [] (wire_list (sh_principals sh)) = Some (sh_principals sh)"
    using ok by (auto simp: cert_shape_ok_def parse_principal_list_iff)
  ultimately show ?thesis
    using ok by (simp add: parse_certificate_body_def body_part_def cert_shape_ok_def read_string_end certificate_of_def)
qed

lemma subject_ok_plain: "subject_ok plain fs \<Longrightarrow> plain \<noteq> [] \<and> length plain \<le> 19"
  using expected_curve_cases by (fastforce simp: subject_ok_def split: if_splits)

lemma signed_part_split:
  "signed_part sh = wire_string (sh_plain sh @ kCertificateSuffix) @ wire_string (sh_nonce sh) @ wire_list (sh_subject sh) @ body_part sh"
  by (simp add: signed_part_def body_part_def)

lemma parse_certificate_iff:
  "parse_certificate blob = Some c \<longleftrightarrow>
   (\<exists>sh. cert_shape_ok sh \<and> blob = encode_certificate sh \<and> c = certificate_of sh)"
proof
  assume "parse_certificate blob = Some c"
  then obtain algorithm s nonce fields_start rest name where
    r: "read_string blob = Some (algorithm, s)" "read_string s = Some (nonce, fields_start)" and
    alg: "length kCertificateSuffix < length algorithm"
      "drop (length algorithm - length kCertificateSuffix) algorithm = kCertificateSuffix" and
    nonce: "16 \<le> length nonce" "length nonce \<le> 1024" and
    sub: "subject_fields (take (length algorithm - length kCertificateSuffix) algorithm) fields_start = Some rest" and
    name: "append_string (take (length algorithm - length kCertificateSuffix) algorithm) [] = Some name" and
    body: "parse_certificate_body blob (name @ take (length fields_start - length rest) fields_start) rest = Some c"
    by (auto simp: parse_certificate_def bind_eq_Some_conv if_None_Some Let_def not_less not_le)
  define plain where "plain = take (length algorithm - length kCertificateSuffix) algorithm"
  have a: "algorithm = plain @ kCertificateSuffix" using alg by (metis append_take_drop_id plain_def)
  obtain fs where fs: "subject_ok plain fs" "fields_start = wire_list fs @ rest"
    using sub by (auto simp: subject_fields_iff plain_def)
  have subj: "name @ take (length fields_start - length rest) fields_start = wire_string plain @ wire_list fs"
    using name fs by (simp add: append_string_def plain_def split: if_splits)
  note body = body [unfolded subj]
  obtain sh where sh: "sh_serial sh < 2 ^ 64" "sh_type sh < 2 ^ 32" "length (sh_key_id sh) \<le> 4096"
    "length (sh_principals sh) \<le> 256"
    "list_all (\<lambda>p. p \<noteq> [] \<and> length p \<le> 253) (sh_principals sh)" "sh_valid_after sh < 2 ^ 64" "sh_valid_before sh < 2 ^ 64"
    "length (sh_critical_options sh) < 2 ^ 32" "length (sh_extensions sh) < 2 ^ 32" "length (sh_reserved sh) < 2 ^ 32"
    "length (sh_ca_blob sh) < 2 ^ 32" "length (sh_signature_blob sh) < 2 ^ 32"
    "rest = body_part sh @ wire_string (sh_signature_blob sh)"
    "c = (certificate_of sh)\<lparr>c_signed_length := length blob - length (wire_string (sh_signature_blob sh)),
       c_subject_key_blob := wire_string plain @ wire_list fs\<rparr>"
    "sh_plain sh = plain" "sh_nonce sh = nonce" "sh_subject sh = fs"
    using body by (rule parse_certificate_body_sound [where plain = plain and nonce = nonce and fs = fs])
  have ok: "cert_shape_ok sh" using sh nonce fs by (simp add: cert_shape_ok_def)
  have blob: "blob = encode_certificate sh"
    using r [unfolded read_string_iff] sh(13) fs(2) by (simp add: encode_certificate_def signed_part_split sh(15-17) a)
  have "c = certificate_of sh"
    using sh(14) by (simp add: blob encode_certificate_def certificate_of_def sh(15-17))
  with ok blob show "\<exists>sh. cert_shape_ok sh \<and> blob = encode_certificate sh \<and> c = certificate_of sh" by blast
next
  assume "\<exists>sh. cert_shape_ok sh \<and> blob = encode_certificate sh \<and> c = certificate_of sh"
  then obtain sh where ok: "cert_shape_ok sh" and blob: "blob = encode_certificate sh" and c: "c = certificate_of sh" by blast
  let ?alg = "sh_plain sh @ kCertificateSuffix" and ?rest = "body_part sh @ wire_string (sh_signature_blob sh)"
  have sub: "subject_ok (sh_plain sh) (sh_subject sh)" and nonce: "16 \<le> length (sh_nonce sh)" "length (sh_nonce sh) \<le> 1024"
    using ok by (simp_all add: cert_shape_ok_def)
  note plain = subject_ok_plain [OF sub]
  have suf: "length kCertificateSuffix = 21" by (simp add: kCertificateSuffix_def)
  have "read_string blob = Some (?alg, wire_string (sh_nonce sh) @ wire_list (sh_subject sh) @ ?rest)"
    using plain suf by (simp add: blob encode_certificate_def signed_part_split)
  moreover have "read_string (wire_string (sh_nonce sh) @ wire_list (sh_subject sh) @ ?rest) =
      Some (sh_nonce sh, wire_list (sh_subject sh) @ ?rest)" using nonce by simp
  moreover have "subject_fields (sh_plain sh) (wire_list (sh_subject sh) @ ?rest) = Some ?rest"
    using sub by (auto simp: subject_fields_iff)
  moreover have "append_string (sh_plain sh) [] = Some (wire_string (sh_plain sh))"
    using plain by (simp add: append_string_def)
  moreover have "parse_certificate_body blob (wire_string (sh_plain sh) @ wire_list (sh_subject sh)) ?rest = Some c"
    unfolding parse_certificate_body_complete [OF ok] c
    by (simp add: blob encode_certificate_def certificate_of_def)
  ultimately show "parse_certificate blob = Some c"
    using plain nonce by (simp add: parse_certificate_def)
qed

end
