(* ===== verification/Krl.thy ===== *)
theory Krl
  imports HostCert
begin

text \<open>
  Key revocation lists and the decision on a host certificate
  (\<^verbatim>\<open>src/native/src/host_certificate.cpp\<close>): the KRL reader and its sections, its
  signatures, the revocation test, the URL a list may be fetched from and
  \<^verbatim>\<open>verify_host_certificate_with_krl\<close>.  \<^verbatim>\<open>KrlReader\<close> is the bytes it has not consumed;
  an exception is its message.  The loops that read items until a reader is empty are
  \<open>krl_items\<close>: its guard, that an item consumed something, always holds for the item readers
  of the source, each of which reads at least one byte.
\<close>

definition kMaxKrlBytes :: nat where
  "kMaxKrlBytes = 16 * 1024 * 1024"

definition kKrlMagic :: string where
  "kKrlMagic = ''SSHKRL'' @ [CHR 0x0A, CHR 0x00]"

subsection \<open>Text\<close>

text \<open>The continuation bytes of one code point.\<close>

fun utf8_tail :: "nat \<Rightarrow> nat \<Rightarrow> string \<Rightarrow> (nat \<times> string) option" where
  "utf8_tail 0 code s = Some (code, s)"
| "utf8_tail (Suc k) code [] = None"
| "utf8_tail (Suc k) code (c # cs) =
     (if byte c AND 0xC0 \<noteq> 0x80 then None else utf8_tail k (push_bit 6 code OR (byte c AND 0x3F)) cs)"

definition utf8_lead :: "nat \<Rightarrow> (nat \<times> nat) option" where
  "utf8_lead first =
     (if 0xC2 \<le> first \<and> first \<le> 0xDF then Some (first AND 0x1F, 1)
      else if 0xE0 \<le> first \<and> first \<le> 0xEF then Some (first AND 0x0F, 2)
      else if 0xF0 \<le> first \<and> first \<le> 0xF4 then Some (first AND 0x07, 3)
      else None)"

definition utf8_code_ok :: "nat \<Rightarrow> nat \<Rightarrow> bool" where
  "utf8_code_ok continuation code \<longleftrightarrow>
     \<not> (continuation = 2 \<and> code < 0x800 \<or> continuation = 3 \<and> code < 0x10000 \<or>
        0xD800 \<le> code \<and> code \<le> 0xDFFF \<or> 0x10FFFF < code)"

definition utf8_finish :: "nat \<Rightarrow> nat \<Rightarrow> string \<Rightarrow> string option" where
  "utf8_finish code continuation cs =
     (if length cs < continuation then None
      else case utf8_tail continuation code cs of
          None \<Rightarrow> None
        | Some (full, rest) \<Rightarrow> if utf8_code_ok continuation full then Some rest else None)"

definition utf8_step :: "string \<Rightarrow> string option" where
  "utf8_step s =
     (case s of
        [] \<Rightarrow> None
      | c # cs \<Rightarrow>
          if byte c \<le> 0x7F then Some cs
          else case utf8_lead (byte c) of
              None \<Rightarrow> None
            | Some (code, continuation) \<Rightarrow> utf8_finish code continuation cs)"

lemma utf8_tail_length: "utf8_tail k code s = Some (full, rest) \<Longrightarrow> length rest + k = length s"
  by (induction k code s rule: utf8_tail.induct) (auto split: if_splits)

lemma utf8_step_shorter: "utf8_step s = Some rest \<Longrightarrow> length rest < length s"
  by (fastforce simp: utf8_step_def utf8_finish_def dest: utf8_tail_length split: list.splits option.splits if_splits)

function valid_utf8 :: "string \<Rightarrow> bool" where
  "valid_utf8 s = (if s = [] then True else case utf8_step s of None \<Rightarrow> False | Some rest \<Rightarrow> valid_utf8 rest)"
  by auto
termination
  by (relation "measure length") (auto dest: utf8_step_shorter)

declare valid_utf8.simps [simp del]

subsection \<open>The reader\<close>

type_synonym 'a krl_result = "string + ('a \<times> string)"

definition krl_exact :: "nat \<Rightarrow> string \<Rightarrow> string krl_result" where
  "krl_exact n s = (if length s < n then Inl ''KRL is truncated'' else Inr (take n s, drop n s))"

definition krl_uint :: "nat \<Rightarrow> string \<Rightarrow> nat krl_result" where
  "krl_uint k s = res_bind (krl_exact k s) (\<lambda>(bytes, rest). Inr (be_value bytes, rest))"

definition krl_string :: "string \<Rightarrow> string krl_result" where
  "krl_string s = res_bind (krl_uint 4 s) (\<lambda>(n, rest). krl_exact n rest)"

definition krl_finish :: "string \<Rightarrow> string + unit" where
  "krl_finish s = check_that (s = []) ''KRL section contains unparsed data''"

function krl_items :: "(string \<Rightarrow> 'a krl_result) \<Rightarrow> string \<Rightarrow> string + 'a list" where
  "krl_items item s =
     (if s = [] then Inr []
      else case item s of
          Inl e \<Rightarrow> Inl e
        | Inr (x, rest) \<Rightarrow>
            if length rest < length s then res_bind (krl_items item rest) (\<lambda>xs. Inr (x # xs)) else Inl [])"
  by auto
termination
  by (relation "measure (length \<circ> snd)") auto

declare krl_items.simps [simp del]

definition parse_krl_extension :: "string \<Rightarrow> unit krl_result" where
  "parse_krl_extension s =
     res_bind (krl_string s) (\<lambda>(name, s).
     if \<not> valid_utf8 name then Inl ''KRL extension name is not UTF-8''
     else
       res_bind (krl_uint 1 s) (\<lambda>(critical, s).
       res_bind (krl_string s) (\<lambda>(_, s).
       if critical \<noteq> 0 then Inl ''unsupported critical KRL extension'' else Inr ((), s))))"

definition positive_mpint :: "string \<Rightarrow> string + string" where
  "positive_mpint encoded =
     (if encoded \<noteq> [] \<and> byte (hd encoded) AND 0x80 \<noteq> 0 then Inl ''KRL bitmap mpint is negative''
      else if 1 < length encoded \<and> hd encoded = nul then
        if byte (encoded ! 1) AND 0x80 = 0 then Inl ''KRL bitmap mpint has a non-canonical leading zero''
        else Inr (drop 1 encoded)
      else Inr (if encoded = [nul] then [] else encoded))"

subsection \<open>Certificate sections\<close>

record krl_section =
  ks_ca_key :: string
  ks_serial_ranges :: "(nat \<times> nat) list"
  ks_serial_bitmaps :: "(nat \<times> string) list"
  ks_key_ids :: "string list"

definition serial_item :: "string \<Rightarrow> nat krl_result" where
  "serial_item s =
     res_bind (krl_uint 8 s) (\<lambda>(serial, rest).
     if serial = 0 then Inl ''KRL serial list contains zero'' else Inr (serial, rest))"

definition key_id_item :: "string \<Rightarrow> string krl_result" where
  "key_id_item s =
     res_bind (krl_string s) (\<lambda>(key_id, rest).
     if \<not> valid_utf8 key_id then Inl ''KRL key ID is not UTF-8'' else Inr (key_id, rest))"

text \<open>The test of one set bit, and the loops over the bytes from the last and over their bits.\<close>

definition bitmap_bit_check :: "nat \<Rightarrow> nat \<Rightarrow> nat \<Rightarrow> nat \<Rightarrow> string option" where
  "bitmap_bit_check offset byte_index byte_value bit_index =
     (if byte_value AND push_bit bit_index 1 = 0 then None
      else
        let index = byte_index * 8 + bit_index
        in if 2 ^ 64 - 1 - offset < index then Some ''KRL serial overflow''
           else if offset + index = 0 then Some ''KRL bitmap revokes serial zero''
           else None)"

definition first_error :: "string option list \<Rightarrow> string option" where
  "first_error checks = (case filter (\<lambda>c. c \<noteq> None) checks of [] \<Rightarrow> None | c # _ \<Rightarrow> c)"

definition bitmap_check :: "nat \<Rightarrow> string \<Rightarrow> string option" where
  "bitmap_check offset bits =
     first_error (concat (map (\<lambda>i. map (bitmap_bit_check offset i (byte (bits ! (length bits - 1 - i)))) [0..<8])
       [0..<length bits]))"

definition parse_krl_bitmap :: "string \<Rightarrow> (nat \<times> string) krl_result" where
  "parse_krl_bitmap s =
     res_bind (krl_uint 8 s) (\<lambda>(offset, s).
     res_bind (krl_string s) (\<lambda>(encoded, s).
     res_bind (positive_mpint encoded) (\<lambda>bits.
     case bitmap_check offset bits of Some e \<Rightarrow> Inl e | None \<Rightarrow> Inr ((offset, bits), s))))"

definition parse_krl_range :: "string \<Rightarrow> (nat \<times> nat) krl_result" where
  "parse_krl_range s =
     res_bind (krl_uint 8 s) (\<lambda>(low, s).
     res_bind (krl_uint 8 s) (\<lambda>(high, s).
     if low = 0 \<or> high < low then Inl ''KRL serial range is invalid'' else Inr ((low, high), s)))"

text \<open>One subsection: what it adds to the section.\<close>

definition no_additions :: krl_section where
  "no_additions = \<lparr>ks_ca_key = [], ks_serial_ranges = [], ks_serial_bitmaps = [], ks_key_ids = []\<rparr>"

definition parse_subsection_data :: "nat \<Rightarrow> string \<Rightarrow> string + krl_section" where
  "parse_subsection_data type data =
     (if type = 0x20 then
        res_bind (krl_items serial_item data) (\<lambda>serials.
        Inr (no_additions\<lparr>ks_serial_ranges := map (\<lambda>n. (n, n)) serials\<rparr>))
      else if type = 0x21 then
        res_bind (parse_krl_range data) (\<lambda>(range, rest).
        res_bind (krl_finish rest) (\<lambda>_. Inr (no_additions\<lparr>ks_serial_ranges := [range]\<rparr>)))
      else if type = 0x22 then
        res_bind (parse_krl_bitmap data) (\<lambda>(bitmap, rest).
        res_bind (krl_finish rest) (\<lambda>_. Inr (no_additions\<lparr>ks_serial_bitmaps := [bitmap]\<rparr>)))
      else if type = 0x23 then
        res_bind (krl_items key_id_item data) (\<lambda>key_ids. Inr (no_additions\<lparr>ks_key_ids := key_ids\<rparr>))
      else if type = 0x39 then
        res_bind (parse_krl_extension data) (\<lambda>(_, rest). res_bind (krl_finish rest) (\<lambda>_. Inr no_additions))
      else Inl (''unsupported KRL certificate subsection '' @ decimal type))"

definition subsection_item :: "string \<Rightarrow> krl_section krl_result" where
  "subsection_item s =
     res_bind (krl_uint 1 s) (\<lambda>(type, s).
     res_bind (krl_string s) (\<lambda>(data, rest).
     res_bind (parse_subsection_data type data) (\<lambda>added. Inr (added, rest))))"

definition collect_section :: "string \<Rightarrow> krl_section list \<Rightarrow> krl_section" where
  "collect_section ca_key parts =
     \<lparr>ks_ca_key = ca_key, ks_serial_ranges = concat (map ks_serial_ranges parts),
      ks_serial_bitmaps = concat (map ks_serial_bitmaps parts), ks_key_ids = concat (map ks_key_ids parts)\<rparr>"

definition parse_certificate_krl_section :: "string \<Rightarrow> string + krl_section" where
  "parse_certificate_krl_section s =
     res_bind (krl_string s) (\<lambda>(ca_key, s).
     res_bind (krl_string s) (\<lambda>(_, s).
     res_bind (krl_items subsection_item s) (\<lambda>parts. Inr (collect_section ca_key parts))))"

subsection \<open>The list\<close>

record krl_data =
  kd_certificate_sections :: "krl_section list"
  kd_explicit_keys :: "string list"
  kd_sha1_fingerprints :: "string list"
  kd_sha256_fingerprints :: "string list"

record krl_signature =
  sig_signed_length :: nat
  sig_key_blob :: string
  sig_signature_blob :: string

definition canonical_positive_mpint :: "string \<Rightarrow> bool" where
  "canonical_positive_mpint value =
     (if value = [] \<or> list_all (\<lambda>c. c = nul) value then False
      else if byte (hd value) AND 0x80 \<noteq> 0 then False
      else if byte (hd value) = 0 \<and> (length value < 2 \<or> byte (value ! 1) AND 0x80 = 0) then False
      else True)"

definition canonical_signature :: "string \<Rightarrow> bool" where
  "canonical_signature signature_blob =
     (case two_strings signature_blob of
        None \<Rightarrow> False
      | Some (algorithm, signature) \<Rightarrow>
          if \<not> starts_with ''ecdsa-'' algorithm then True
          else case two_strings signature of
              None \<Rightarrow> False
            | Some (r, s) \<Rightarrow> canonical_positive_mpint r \<and> canonical_positive_mpint s)"

definition explicit_key_item :: "string \<Rightarrow> string krl_result" where
  "explicit_key_item s =
     res_bind (krl_string s) (\<lambda>(key, rest).
     if key = [] then Inl ''KRL contains an empty explicit key'' else Inr (key, rest))"

definition fingerprint_item :: "nat \<Rightarrow> string \<Rightarrow> string krl_result" where
  "fingerprint_item expected_length s =
     res_bind (krl_string s) (\<lambda>(fingerprint, rest).
     if length fingerprint \<noteq> expected_length
     then Inl (''KRL fingerprint must be '' @ decimal expected_length @ '' bytes'') else Inr (fingerprint, rest))"

definition parse_krl_section :: "nat \<Rightarrow> string \<Rightarrow> krl_data \<Rightarrow> string + krl_data" where
  "parse_krl_section type section krl =
     (if type = 1 then
        res_bind (parse_certificate_krl_section section) (\<lambda>s.
        Inr (krl\<lparr>kd_certificate_sections := kd_certificate_sections krl @ [s]\<rparr>))
      else if type = 2 then
        res_bind (krl_items explicit_key_item section) (\<lambda>keys.
        Inr (krl\<lparr>kd_explicit_keys := kd_explicit_keys krl @ keys\<rparr>))
      else if type = 3 then
        res_bind (krl_items (fingerprint_item 20) section) (\<lambda>prints.
        Inr (krl\<lparr>kd_sha1_fingerprints := kd_sha1_fingerprints krl @ prints\<rparr>))
      else if type = 5 then
        res_bind (krl_items (fingerprint_item 32) section) (\<lambda>prints.
        Inr (krl\<lparr>kd_sha256_fingerprints := kd_sha256_fingerprints krl @ prints\<rparr>))
      else if type = 255 then
        res_bind (parse_krl_extension section) (\<lambda>(_, rest). res_bind (krl_finish rest) (\<lambda>_. Inr krl))
      else Inl (''unsupported KRL section '' @ decimal type))"

definition parse_krl_signature ::
  "crypto \<Rightarrow> nat \<Rightarrow> krl_signature list \<Rightarrow> string \<Rightarrow> krl_signature krl_result" where
  "parse_krl_signature cr size_total signatures s =
     (if 16 \<le> length signatures then Inl ''KRL contains more than 16 signatures''
      else
        res_bind (krl_string s) (\<lambda>(key_blob, s).
        res_bind (krl_string s) (\<lambda>(signature_blob, rest).
        if parse_key_blob cr key_blob = None then Inl ''KRL signature public key is invalid or unsupported''
        else if \<not> canonical_signature signature_blob then Inl ''KRL signature encoding is not canonical''
        else if key_blob \<in> set (map sig_key_blob signatures)
        then Inl ''KRL is signed more than once by the same key''
        else Inr (\<lparr>sig_signed_length = size_total - length s, sig_key_blob = key_blob,
                   sig_signature_blob = signature_blob\<rparr>, rest))))"

lemma krl_exact_rest: "krl_exact n s = Inr (v, rest) \<Longrightarrow> length rest + n = length s"
  by (auto simp: krl_exact_def split: if_splits)

lemma krl_uint_rest: "krl_uint k s = Inr (n, rest) \<Longrightarrow> length rest + k = length s"
  by (auto simp: krl_uint_def res_bind_eq_Inr dest: krl_exact_rest)

lemma krl_string_rest: "krl_string s = Inr (v, rest) \<Longrightarrow> length rest < length s"
  by (auto simp: krl_string_def res_bind_eq_Inr dest!: krl_exact_rest krl_uint_rest)

lemma parse_krl_signature_rest: "parse_krl_signature cr size_total sigs s = Inr (g, rest) \<Longrightarrow> length rest < length s"
  by (auto simp: parse_krl_signature_def res_bind_eq_Inr dest!: krl_string_rest split: if_splits)

text \<open>
  The loop over the sections: the signatures so far tell whether signatures have started,
  because the loop ends with an exception where a signature is not accepted.
\<close>

function parse_krl_parts ::
  "crypto \<Rightarrow> nat \<Rightarrow> krl_data \<Rightarrow> krl_signature list \<Rightarrow> string \<Rightarrow> string + (krl_data \<times> krl_signature list)" where
  "parse_krl_parts cr size_total krl signatures s =
     (if s = [] then Inr (krl, signatures)
      else case krl_uint 1 s of
          Inl e \<Rightarrow> Inl e
        | Inr (type, s1) \<Rightarrow>
            if type = 4 then
              case parse_krl_signature cr size_total signatures s1 of
                Inl e \<Rightarrow> Inl e
              | Inr (signature, rest) \<Rightarrow> parse_krl_parts cr size_total krl (signatures @ [signature]) rest
            else if signatures \<noteq> [] then Inl ''KRL contains a non-signature section after a signature''
            else case krl_string s1 of
                Inl e \<Rightarrow> Inl e
              | Inr (section, rest) \<Rightarrow>
                  (case parse_krl_section type section krl of
                     Inl e \<Rightarrow> Inl e
                   | Inr krl' \<Rightarrow> parse_krl_parts cr size_total krl' signatures rest))"
  by auto
termination
  by (relation "measure (\<lambda>(cr, size_total, krl, signatures, s). length s)")
    (auto dest!: krl_uint_rest krl_string_rest parse_krl_signature_rest)

declare parse_krl_parts.simps [simp del]

text \<open>Every signature must verify; a signature by the CA or a configured signer makes the list trusted.\<close>

fun signer_matches :: "crypto \<Rightarrow> string \<Rightarrow> string list \<Rightarrow> string + bool" where
  "signer_matches cr key_blob [] = Inr False"
| "signer_matches cr key_blob (line # lines) =
     (case parse_authorized_key cr line of
        None \<Rightarrow> Inl ''trusted KRL signer public key is invalid or unsupported''
      | Some trusted_blob \<Rightarrow>
          res_bind (signer_matches cr key_blob lines) (\<lambda>found. Inr (key_blob = trusted_blob \<or> found)))"

definition signature_valid :: "crypto \<Rightarrow> string \<Rightarrow> krl_signature \<Rightarrow> bool" where
  "signature_valid cr bytes signature =
     (case parse_key_blob cr (sig_key_blob signature) of
        None \<Rightarrow> False
      | Some key \<Rightarrow>
          verify_signature cr key (sig_key_blob signature) (take (sig_signed_length signature) bytes)
            (sig_signature_blob signature))"

fun check_signatures ::
  "crypto \<Rightarrow> string \<Rightarrow> string list \<Rightarrow> string \<Rightarrow> nat \<Rightarrow> krl_signature list \<Rightarrow> string + bool" where
  "check_signatures cr bytes trusted_signers ca_blob index [] = Inr False"
| "check_signatures cr bytes trusted_signers ca_blob index (signature # signatures) =
     (if \<not> signature_valid cr bytes signature
      then Inl (''KRL signature '' @ decimal (index + 1) @ '' is invalid'')
      else
        res_bind (signer_matches cr (sig_key_blob signature) trusted_signers) (\<lambda>by_signer.
        res_bind (check_signatures cr bytes trusted_signers ca_blob (Suc index) signatures) (\<lambda>found.
        Inr (sig_key_blob signature = ca_blob \<or> by_signer \<or> found))))"

definition parse_krl_header :: "string \<Rightarrow> string + string" where
  "parse_krl_header bytes =
     res_bind (krl_exact (length kKrlMagic) bytes) (\<lambda>(magic, s).
     if magic \<noteq> kKrlMagic then Inl ''KRL magic is missing''
     else
       res_bind (krl_uint 4 s) (\<lambda>(version, s).
       if version \<noteq> 1 then Inl ''unsupported KRL format version''
       else
         res_bind (krl_uint 8 s) (\<lambda>(_, s).
         res_bind (krl_uint 8 s) (\<lambda>(_, s).
         res_bind (krl_uint 8 s) (\<lambda>(flags, s).
         if flags \<noteq> 0 then Inl ''KRL carries unsupported flags''
         else
           res_bind (krl_string s) (\<lambda>(_, s).
           res_bind (krl_string s) (\<lambda>(_, s). Inr s)))))))"

definition empty_krl :: krl_data where
  "empty_krl =
     \<lparr>kd_certificate_sections = [], kd_explicit_keys = [], kd_sha1_fingerprints = [], kd_sha256_fingerprints = []\<rparr>"

definition parse_krl :: "crypto \<Rightarrow> string \<Rightarrow> string list \<Rightarrow> string \<Rightarrow> string + krl_data" where
  "parse_krl cr bytes trusted_signers ca_blob =
     (if kMaxKrlBytes < length bytes then Inl ''KRL exceeds the 16 MiB limit''
      else
        res_bind (parse_krl_header bytes) (\<lambda>s.
        res_bind (parse_krl_parts cr (length bytes) empty_krl [] s) (\<lambda>(krl, signatures).
        if signatures = [] then Inr krl
        else
          res_bind (check_signatures cr bytes trusted_signers ca_blob 0 signatures) (\<lambda>trusted.
          if \<not> trusted then Inl ''signed KRL is not signed by the configured CA or a trusted KRL signer''
          else Inr krl))))"

subsection \<open>Revocation\<close>

definition key_is_revoked :: "crypto \<Rightarrow> krl_data \<Rightarrow> string \<Rightarrow> bool" where
  "key_is_revoked cr krl key_blob =
     (if key_blob \<in> set (kd_explicit_keys krl) then True
      else if (case evp_sha1 cr key_blob of
                 None \<Rightarrow> False
               | Some d \<Rightarrow> length d = 20 \<and> d \<in> set (kd_sha1_fingerprints krl)) then True
      else (case evp_sha256 cr key_blob of
              None \<Rightarrow> False
            | Some d \<Rightarrow> length d = 32 \<and> d \<in> set (kd_sha256_fingerprints krl)))"

definition bitmap_contains :: "nat \<Rightarrow> nat \<times> string \<Rightarrow> bool" where
  "bitmap_contains serial = (\<lambda>(offset, bits).
     if serial < offset then False
     else
       let bit_index = serial - offset; byte_index = bit_index div 8
       in if length bits \<le> byte_index then False
          else byte (bits ! (length bits - 1 - byte_index)) AND push_bit (bit_index mod 8) 1 \<noteq> 0)"

definition section_reason :: "string \<Rightarrow> string \<Rightarrow> nat \<Rightarrow> krl_section \<Rightarrow> string option" where
  "section_reason ca_key key_id serial section =
     (if ks_ca_key section \<noteq> [] \<and> ks_ca_key section \<noteq> ca_key then None
      else if key_id \<in> set (ks_key_ids section) then Some ''certificate key ID is revoked''
      else if serial \<noteq> 0 \<and> list_ex (\<lambda>(low, high). low \<le> serial \<and> serial \<le> high) (ks_serial_ranges section)
      then Some ''certificate serial is revoked''
      else if serial \<noteq> 0 \<and> list_ex (bitmap_contains serial) (ks_serial_bitmaps section)
      then Some ''certificate serial is revoked''
      else None)"

definition revoked_reason :: "crypto \<Rightarrow> krl_data \<Rightarrow> string \<Rightarrow> string \<Rightarrow> string \<Rightarrow> nat \<Rightarrow> string option" where
  "revoked_reason cr krl subject_key ca_key key_id serial =
     (if key_is_revoked cr krl subject_key then Some ''certificate public key is revoked''
      else if key_is_revoked cr krl ca_key then Some ''certificate signing CA is revoked''
      else first_error (map (section_reason ca_key key_id serial) (kd_certificate_sections krl)))"

subsection \<open>The verdict on a certificate\<close>

definition principals_ok :: "string list \<Rightarrow> bool" where
  "principals_ok ps \<longleftrightarrow> ps \<noteq> [] \<and> length ps \<le> 256 \<and> list_all (\<lambda>p. p \<noteq> [] \<and> length p \<le> 253) ps"

definition check_revocation :: "crypto \<Rightarrow> string \<Rightarrow> string list \<Rightarrow> string \<Rightarrow> certificate \<Rightarrow> string + unit" where
  "check_revocation cr revocation_list signers ca_blob c =
     (if revocation_list = [] then Inr ()
      else case parse_krl cr revocation_list signers ca_blob of
          Inl message \<Rightarrow> Inl (''host certificate revocation list is invalid: '' @ message)
        | Inr krl \<Rightarrow>
            (case revoked_reason cr krl (c_subject_key_blob c) (c_ca_blob c) (c_key_id c) (c_serial c) of
               Some reason \<Rightarrow> Inl reason
             | None \<Rightarrow> Inr ()))"

definition check_certificate ::
  "crypto \<Rightarrow> int \<Rightarrow> string \<Rightarrow> string \<Rightarrow> public_key option \<Rightarrow> string list \<Rightarrow> certificate \<Rightarrow> string + unit" where
  "check_certificate cr now blob ca_blob ca_key allowed c =
     (if \<not> valid_utf8 (c_key_id c) \<or> \<not> list_all valid_utf8 (c_principals c)
      then Inl ''host certificate contains invalid UTF-8 metadata''
      else if c_type c \<noteq> 2 then Inl ''certificate is not a host certificate''
      else if c_ca_blob c \<noteq> ca_blob then Inl ''certificate is signed by a different CA''
      else if (case ca_key of
                 None \<Rightarrow> True
               | Some key \<Rightarrow> \<not> verify_signature cr key ca_blob (take (c_signed_length c) blob) (c_signature_blob c))
      then Inl ''host certificate signature is invalid''
      else if c_critical_options c \<noteq> [] then Inl ''host certificate carries unsupported critical options''
      else if now < 0 then Inl ''system clock is before the Unix epoch''
      else if nat now < c_valid_after c then Inl ''host certificate is not valid yet''
      else if c_valid_before c < nat now then Inl ''host certificate has expired''
      else if \<not> list_ex (\<lambda>p. list_ex (\<lambda>a. principal_matches a p) allowed) (c_principals c)
      then Inl ''host certificate principal does not match configured host patterns''
      else Inr ())"

definition verify_host_certificate_with_krl ::
  "crypto \<Rightarrow> int \<Rightarrow> string \<Rightarrow> string \<Rightarrow> string list \<Rightarrow> string \<Rightarrow> string list \<Rightarrow> string + unit" where
  "verify_host_certificate_with_krl cr now blob ca_public_key allowed revocation_list revocation_signers =
     (if blob = [] \<or> kMaxCertificateBytes < length blob then Inl ''host certificate is invalid or too large''
      else if \<not> principals_ok allowed then Inl ''host CA principals are invalid''
      else case parse_authorized_key cr ca_public_key of
          None \<Rightarrow> Inl ''host CA public key is invalid or unsupported''
        | Some ca_blob \<Rightarrow>
            (case parse_certificate blob of
               None \<Rightarrow> Inl ''host certificate is malformed''
             | Some c \<Rightarrow>
                 res_bind (check_certificate cr now blob ca_blob (parse_key_blob cr ca_blob) allowed c) (\<lambda>_.
                 check_revocation cr revocation_list revocation_signers ca_blob c)))"

definition verify_host_certificate :: "crypto \<Rightarrow> int \<Rightarrow> string \<Rightarrow> string \<Rightarrow> string list \<Rightarrow> string + unit" where
  "verify_host_certificate cr now blob ca_public_key allowed =
     verify_host_certificate_with_krl cr now blob ca_public_key allowed [] []"

end
