(* ===== verification/KrlFacts.thy ===== *)
theory KrlFacts
  imports Krl
begin

text \<open>
  Facts on the text check, the revocation test and the list parser of
  \<^verbatim>\<open>src/native/src/host_certificate.cpp\<close>: \<^verbatim>\<open>valid_utf8\<close> accepts the encodings of scalar
  values and nothing else; a bitmap is the set of bits of its number; a parsed list is well formed
  and, where it is signed, trusted; every rejection is an exception of the source.
\<close>

subsection \<open>UTF-8\<close>

definition scalar_value :: "nat \<Rightarrow> bool" where
  "scalar_value cp \<longleftrightarrow> cp < 0xD800 \<or> (0xE000 \<le> cp \<and> cp \<le> 0x10FFFF)"

definition utf8_encode :: "nat \<Rightarrow> string" where
  "utf8_encode cp =
     (if cp < 0x80 then [char_of cp]
      else if cp < 0x800 then [char_of (0xC0 + cp div 64), char_of (0x80 + cp mod 64)]
      else if cp < 0x10000
      then [char_of (0xE0 + cp div 4096), char_of (0x80 + cp div 64 mod 64), char_of (0x80 + cp mod 64)]
      else [char_of (0xF0 + cp div 262144), char_of (0x80 + cp div 4096 mod 64),
            char_of (0x80 + cp div 64 mod 64), char_of (0x80 + cp mod 64)])"

lemma nat_and_mask: "(n :: nat) AND 0x3F = n mod 64" "(n :: nat) AND 0x1F = n mod 32" "(n :: nat) AND 0x0F = n mod 16"
  "(n :: nat) AND 0x07 = n mod 8"
proof -
  have m: "(0x3F :: nat) = mask 6" "(0x1F :: nat) = mask 5" "(0x0F :: nat) = mask 4" "(0x07 :: nat) = mask 3"
    by (simp_all add: mask_eq_exp_minus_1)
  show "n AND 0x3F = n mod 64" "n AND 0x1F = n mod 32" "n AND 0x0F = n mod 16" "n AND 0x07 = n mod 8"
    unfolding m by (simp_all flip: take_bit_eq_mask add: take_bit_eq_mod)
qed

lemma and_push_bit: "b AND push_bit k m = push_bit k (drop_bit k b AND (m :: nat))"
  by (auto simp: bit_eq_iff bit_simps)

lemma continuation_byte: "b < 256 \<Longrightarrow> (b :: nat) AND 0xC0 = 0x80 \<longleftrightarrow> 128 \<le> b \<and> b < 192"
proof -
  assume b: "b < 256"
  have m: "(0xC0 :: nat) = push_bit 6 (mask 2)" by (simp add: mask_eq_exp_minus_1)
  have "b AND 0xC0 = push_bit 6 (b div 64 mod 4)"
    unfolding m and_push_bit by (simp flip: take_bit_eq_mask add: take_bit_eq_mod drop_bit_eq_div)
  then have "b AND 0xC0 = b div 64 * 64" using b by (simp add: push_bit_eq_mult)
  with b show ?thesis by auto
qed

lemma byte_range: "byte c < 256" by simp

lemma utf8_tail_Suc:
  "utf8_tail (Suc k) code s = Some (full, rest) \<longleftrightarrow>
   (\<exists>d cs. d < 64 \<and> s = char_of (0x80 + d) # cs \<and> utf8_tail k (code * 64 + d) cs = Some (full, rest))"
proof (cases s)
  case (Cons c cs)
  have or: "push_bit 6 code OR (byte c AND 0x3F) = code * 64 + byte c mod 64"
    using nat_or_add [of "byte c mod 64" 6 code] by (simp add: nat_and_mask)
  have range: "128 \<le> byte c \<and> byte c < 192 \<longleftrightarrow> (\<exists>d<64. c = char_of (0x80 + d) \<and> byte c mod 64 = d)"
  proof
    assume b: "128 \<le> byte c \<and> byte c < 192"
    then have "byte c - 128 < 64" by linarith
    with b have "byte c mod 64 = byte c - 128" using mod_nat_eqI [of "byte c - 128" 64 "byte c"] by simp
    with b have "byte c = 0x80 + byte c mod 64" by simp
    then have "c = char_of (0x80 + byte c mod 64)" by (metis char_of_byte)
    then show "\<exists>d<64. c = char_of (0x80 + d) \<and> byte c mod 64 = d" by simp
  next
    assume "\<exists>d<64. c = char_of (0x80 + d) \<and> byte c mod 64 = d"
    then obtain d :: nat where "d < 64" "c = char_of (0x80 + d)" by blast
    then show "128 \<le> byte c \<and> byte c < 192" by simp
  qed
  have digit: "c = char_of (0x80 + d) \<Longrightarrow> d < 64 \<Longrightarrow> byte c mod 64 = d" for d
    using mod_nat_eqI [of d 64 "128 + d"] by simp
  have "utf8_tail (Suc k) code s = Some (full, rest) \<longleftrightarrow>
      (128 \<le> byte c \<and> byte c < 192) \<and> utf8_tail k (code * 64 + byte c mod 64) cs = Some (full, rest)"
    using Cons by (auto simp: continuation_byte [OF byte_range] or)
  also have "\<dots> \<longleftrightarrow> (\<exists>d<64. c = char_of (0x80 + d) \<and> utf8_tail k (code * 64 + d) cs = Some (full, rest))"
    unfolding range by (metis digit)
  finally show ?thesis using Cons by auto
qed simp

lemma utf8_lead_alt:
  "utf8_lead b =
     (if 0xC2 \<le> b \<and> b \<le> 0xDF then Some (b - 0xC0, 1)
      else if 0xE0 \<le> b \<and> b \<le> 0xEF then Some (b - 0xE0, 2)
      else if 0xF0 \<le> b \<and> b \<le> 0xF4 then Some (b - 0xF0, 3)
      else None)"
proof -
  have low: "b mod m = b - q * m" if "q * m \<le> b" "b < q * m + m" for q m
    using mod_nat_eqI [of "b - q * m" m b] that by (simp add: diff_diff_right)
  have "0xC2 \<le> b \<Longrightarrow> b \<le> 0xDF \<Longrightarrow> b mod 32 = b - 0xC0" using low [of 6 32] by simp
  moreover have "0xE0 \<le> b \<Longrightarrow> b \<le> 0xEF \<Longrightarrow> b mod 16 = b - 0xE0" using low [of 14 16] by simp
  moreover have "0xF0 \<le> b \<Longrightarrow> b \<le> 0xF4 \<Longrightarrow> b mod 8 = b - 0xF0" using low [of 30 8] by simp
  ultimately show ?thesis by (simp add: utf8_lead_def nat_and_mask)
qed

text \<open>The continuation bytes by their base-64 digits.\<close>

definition digits_tail :: "nat list \<Rightarrow> string" where
  "digits_tail ds = map (\<lambda>d. char_of (0x80 + d)) ds"

definition digits_value :: "nat \<Rightarrow> nat list \<Rightarrow> nat" where
  "digits_value code ds = foldl (\<lambda>a d. a * 64 + d) code ds"

lemma digits_simps [simp]:
  "digits_tail [] = []" "digits_tail (d # ds) = char_of (0x80 + d) # digits_tail ds"
  "digits_value code [] = code" "digits_value code (d # ds) = digits_value (code * 64 + d) ds"
  by (simp_all add: digits_tail_def digits_value_def)

lemma ex_length_Suc: "(\<exists>ds. length ds = Suc k \<and> P ds) \<longleftrightarrow> (\<exists>d ds. length ds = k \<and> P (d # ds))"
  by (auto simp: length_Suc_conv)

lemma utf8_tail_iff:
  "utf8_tail k code s = Some (full, rest) \<longleftrightarrow>
   (\<exists>ds. length ds = k \<and> list_all (\<lambda>d. d < 64) ds \<and> s = digits_tail ds @ rest \<and> full = digits_value code ds)"
proof (induction k arbitrary: code s)
  case (Suc k)
  show ?case unfolding utf8_tail_Suc Suc ex_length_Suc by auto
qed auto

lemma utf8_finish_iff:
  "utf8_finish code k s = Some rest \<longleftrightarrow>
   (\<exists>ds. length ds = k \<and> list_all (\<lambda>d. d < 64) ds \<and> s = digits_tail ds @ rest \<and> utf8_code_ok k (digits_value code ds))"
proof -
  have "utf8_tail k code s = None" if "length s < k"
    using utf8_tail_length [of k code s] that by (cases "utf8_tail k code s") fastforce+
  then have "utf8_finish code k s = Some rest \<longleftrightarrow> (\<exists>full. utf8_tail k code s = Some (full, rest) \<and> utf8_code_ok k full)"
    by (auto simp: utf8_finish_def split: option.splits)
  then show ?thesis by (auto simp: utf8_tail_iff)
qed

definition utf8_shape :: "nat \<Rightarrow> nat \<Rightarrow> nat \<Rightarrow> bool" where
  "utf8_shape b k base \<longleftrightarrow>
     k = 1 \<and> base = 0xC0 \<and> 0xC2 \<le> b \<and> b \<le> 0xDF \<or> k = 2 \<and> base = 0xE0 \<and> 0xE0 \<le> b \<and> b \<le> 0xEF \<or>
     k = 3 \<and> base = 0xF0 \<and> 0xF0 \<le> b \<and> b \<le> 0xF4"

lemma utf8_lead_iff: "utf8_lead b = Some (code, k) \<longleftrightarrow> (\<exists>base. utf8_shape b k base \<and> code = b - base)"
  by (auto simp: utf8_lead_alt utf8_shape_def)

lemma utf8_step_shape:
  "utf8_step (c # cs) = Some rest \<longleftrightarrow>
   (byte c \<le> 0x7F \<and> rest = cs) \<or>
   (\<exists>k base ds. utf8_shape (byte c) k base \<and> length ds = k \<and> list_all (\<lambda>d. d < 64) ds \<and>
      cs = digits_tail ds @ rest \<and> utf8_code_ok k (digits_value (byte c - base) ds))"
proof (cases "byte c \<le> 0x7F")
  case True
  then have "\<not> utf8_shape (byte c) k base" for k base by (auto simp: utf8_shape_def)
  with True show ?thesis by (auto simp: utf8_step_def)
next
  case False
  then have "utf8_step (c # cs) = Some rest \<longleftrightarrow>
      (\<exists>code k. utf8_lead (byte c) = Some (code, k) \<and> utf8_finish code k cs = Some rest)"
    by (auto simp: utf8_step_def split: option.splits)
  also have "\<dots> \<longleftrightarrow> (\<exists>k base. utf8_shape (byte c) k base \<and> utf8_finish (byte c - base) k cs = Some rest)"
    unfolding utf8_lead_iff by blast
  finally show ?thesis using False unfolding utf8_finish_iff by blast
qed

lemma horner: "d < 64 \<Longrightarrow> (x * 64 + d) div 64 = x \<and> (x * 64 + d) mod 64 = (d :: nat)"
  by simp

text \<open>The digits of a code point with up to three continuation bytes.\<close>

lemma code_digits:
  fixes a :: nat
  assumes "d < 64" "e < 64" "f < 64" and x: "x = a * 64 + d" and y: "y = x * 64 + e" and n: "n = y * 64 + f"
  shows "n mod 64 = f" "n div 64 = y" "n div 64 mod 64 = e" "n div 4096 = x" "n div 4096 mod 64 = d" "n div 262144 = a"
proof -
  have "n div 4096 = n div 64 div 64" "n div 262144 = n div 64 div 64 div 64" by (simp_all flip: div_mult2_eq)
  then show "n mod 64 = f" "n div 64 = y" "n div 64 mod 64 = e" "n div 4096 = x" "n div 4096 mod 64 = d" "n div 262144 = a"
    using horner [OF assms(1), of a] horner [OF assms(2), of x] horner [OF assms(3), of y] by (simp_all only: x [symmetric] y [symmetric] n [symmetric])
qed

lemma shape_encode:
  assumes sh: "utf8_shape b k base" and ds: "length ds = k" "list_all (\<lambda>d. d < 64) ds"
    and ok: "utf8_code_ok k (digits_value (b - base) ds)"
  shows "scalar_value (digits_value (b - base) ds) \<and>
    utf8_encode (digits_value (b - base) ds) = char_of b # digits_tail ds"
proof -
  from sh consider (1) "k = 1" "base = 0xC0" "0xC2 \<le> b" "b \<le> 0xDF" | (2) "k = 2" "base = 0xE0" "0xE0 \<le> b" "b \<le> 0xEF"
    | (3) "k = 3" "base = 0xF0" "0xF0 \<le> b" "b \<le> 0xF4" by (auto simp: utf8_shape_def)
  then show ?thesis
  proof cases
    case 1
    with ds obtain f where f: "ds = [f]" "f < 64" by (auto simp: length_Suc_conv)
    define y where "y = b - 0xC0"
    define n where n: "n = y * 64 + f"
    have "n div 64 = y" "n mod 64 = f" using horner [OF f(2)] n by simp_all
    moreover have "128 \<le> n" "n < 2048" "0xC0 + y = b" using 1 f n y_def by auto
    moreover have "digits_value (b - base) ds = n" by (simp add: f 1 n y_def)
    ultimately show ?thesis using f by (simp add: scalar_value_def utf8_encode_def)
  next
    case 2
    with ds obtain e f where f: "ds = [e, f]" "e < 64" "f < 64" by (auto simp: length_Suc_conv numeral_2_eq_2)
    define x where "x = b - 0xE0"
    define y where y: "y = x * 64 + e"
    define n where n: "n = y * 64 + f"
    have "n div 64 = y" "n mod 64 = f" using horner [OF f(3), of y] by (simp_all only: n)
    moreover have "y div 64 = x" "y mod 64 = e" using horner [OF f(2), of x] by (simp_all only: y)
    moreover have "n div 4096 = n div 64 div 64" by (simp flip: div_mult2_eq)
    ultimately have "n div 64 mod 64 = e" "n mod 64 = f" "n div 4096 = x" by (simp_all only:)
    moreover have "0xE0 + x = b" using 2 by (simp add: x_def)
    moreover have "digits_value (b - base) ds = n" by (simp add: f 2 n y x_def)
    moreover have "n < 65536" using n y f 2 x_def by auto
    ultimately show ?thesis using f ok 2 by (auto simp: scalar_value_def utf8_encode_def utf8_code_ok_def)
  next
    case 3
    with ds obtain d e f where f: "ds = [d, e, f]" "d < 64" "e < 64" "f < 64" by (auto simp: length_Suc_conv numeral_3_eq_3)
    define a where "a = b - 0xF0"
    define x where x: "x = a * 64 + d"
    define y where y: "y = x * 64 + e"
    define n where n: "n = y * 64 + f"
    note code_digits [OF f(2-4) x y n]
    moreover have "digits_value (b - base) ds = n" "0xF0 + a = b" using 3 by (simp_all add: f n y x a_def)
    ultimately show ?thesis using f ok 3 by (auto simp: scalar_value_def utf8_encode_def utf8_code_ok_def)
  qed
qed

lemmas nat_div_bounds = less_eq_div_iff_mult_less_eq div_less_iff_less_mult

lemma encode_shape:
  assumes "scalar_value cp" "0x80 \<le> cp"
  obtains b k base ds where "utf8_shape b k base" "length ds = k" "list_all (\<lambda>d. d < 64) ds"
    "digits_value (b - base) ds = cp" "utf8_code_ok k cp" "b < 256"
proof -
  have join: "m div 64 * 64 + m mod 64 = m" for m :: nat by simp
  have d4096: "cp div 4096 = cp div 64 div 64" "cp div 262144 = cp div 64 div 64 div 64" by (simp_all flip: div_mult2_eq)
  consider (1) "cp < 0x800" | (2) "0x800 \<le> cp" "cp < 0x10000" | (3) "0x10000 \<le> cp" by linarith
  then show ?thesis
  proof cases
    case 1
    then have "2 \<le> cp div 64" "cp div 64 < 32" using assms by (simp_all add: nat_div_bounds)
    with 1 that [of "0xC0 + cp div 64" 1 "0xC0" "[cp mod 64]"] show ?thesis
      by (simp add: utf8_shape_def utf8_code_ok_def)
  next
    case 2
    then have "cp div 4096 < 16" by (simp add: nat_div_bounds)
    moreover have "(cp div 4096 * 64 + cp div 64 mod 64) * 64 + cp mod 64 = cp"
      unfolding d4096 join ..
    ultimately show ?thesis
      using 2 assms that [of "0xE0 + cp div 4096" 2 "0xE0" "[cp div 64 mod 64, cp mod 64]"]
      by (auto simp: utf8_shape_def utf8_code_ok_def scalar_value_def)
  next
    case 3
    then have "cp div 262144 < 5" using assms by (simp add: nat_div_bounds scalar_value_def)
    moreover have "((cp div 262144 * 64 + cp div 4096 mod 64) * 64 + cp div 64 mod 64) * 64 + cp mod 64 = cp"
      unfolding d4096 join ..
    ultimately show ?thesis
      using 3 assms that [of "0xF0 + cp div 262144" 3 "0xF0" "[cp div 4096 mod 64, cp div 64 mod 64, cp mod 64]"]
      by (simp add: utf8_shape_def utf8_code_ok_def scalar_value_def)
  qed
qed

lemma utf8_step_iff: "utf8_step s = Some rest \<longleftrightarrow> (\<exists>cp. scalar_value cp \<and> s = utf8_encode cp @ rest)"
proof (cases s)
  case Nil
  have "utf8_encode cp \<noteq> []" for cp by (simp add: utf8_encode_def)
  with Nil show ?thesis by (simp add: utf8_step_def)
next
  case (Cons c cs)
  have ascii: "utf8_encode cp @ rest = c # cs \<and> cp < 0x80 \<longleftrightarrow> cp = byte c \<and> byte c \<le> 0x7F \<and> rest = cs" for cp
    by (auto simp: utf8_encode_def)
  have "(\<exists>k base ds. utf8_shape (byte c) k base \<and> length ds = k \<and> list_all (\<lambda>d. d < 64) ds \<and>
      cs = digits_tail ds @ rest \<and> utf8_code_ok k (digits_value (byte c - base) ds)) \<longleftrightarrow>
    (\<exists>cp. scalar_value cp \<and> 0x80 \<le> cp \<and> c # cs = utf8_encode cp @ rest)" (is "?l \<longleftrightarrow> ?r")
  proof
    assume ?l
    then obtain k base ds where *: "utf8_shape (byte c) k base" "length ds = k" "list_all (\<lambda>d. d < 64) ds"
      "cs = digits_tail ds @ rest" "utf8_code_ok k (digits_value (byte c - base) ds)" by blast
    from shape_encode [OF *(1,2,3,5)] have enc: "scalar_value (digits_value (byte c - base) ds)"
      "utf8_encode (digits_value (byte c - base) ds) = c # digits_tail ds" by simp_all
    moreover have "\<not> digits_value (byte c - base) ds < 0x80"
      using enc(2) *(1,2) by (auto simp: utf8_encode_def utf8_shape_def digits_tail_def)
    ultimately show ?r using *(4) by (intro exI [of _ "digits_value (byte c - base) ds"]) simp
  next
    assume ?r
    then obtain cp where cp: "scalar_value cp" "0x80 \<le> cp" "c # cs = utf8_encode cp @ rest" by blast
    obtain b k base ds where *: "utf8_shape b k base" "length ds = k" "list_all (\<lambda>d. d < 64) ds"
      "digits_value (b - base) ds = cp" "utf8_code_ok k cp" "b < 256" using encode_shape [OF cp(1,2)] .
    then have "utf8_encode cp = char_of b # digits_tail ds" using shape_encode [OF *(1-3)] by simp
    with cp(3) have "byte c = b" "cs = digits_tail ds @ rest" using \<open>b < 256\<close> by auto
    with * show ?l by blast
  qed
  moreover have "(\<exists>cp. scalar_value cp \<and> c # cs = utf8_encode cp @ rest) \<longleftrightarrow>
      (byte c \<le> 0x7F \<and> rest = cs) \<or> (\<exists>cp. scalar_value cp \<and> 0x80 \<le> cp \<and> c # cs = utf8_encode cp @ rest)"
  proof -
    have "scalar_value (byte c)" if "byte c \<le> 0x7F" using that by (simp add: scalar_value_def)
    then show ?thesis using ascii by (metis not_le)
  qed
  ultimately show ?thesis unfolding Cons utf8_step_shape by blast
qed

lemma valid_utf8_iff: "valid_utf8 s \<longleftrightarrow> (\<exists>cps. list_all scalar_value cps \<and> s = concat (map utf8_encode cps))"
proof (induction s rule: valid_utf8.induct)
  case (1 s)
  show ?case
  proof (cases "s = []")
    case True
    then have "valid_utf8 s" by (subst valid_utf8.simps) simp
    with True show ?thesis by (auto intro: exI [of _ "[]"])
  next
    case False
    have "valid_utf8 s \<longleftrightarrow> (\<exists>rest. utf8_step s = Some rest \<and> valid_utf8 rest)"
      using False by (subst valid_utf8.simps) (auto split: option.splits)
    also have "\<dots> \<longleftrightarrow> (\<exists>cp cps. scalar_value cp \<and> list_all scalar_value cps \<and> s = utf8_encode cp @ concat (map utf8_encode cps))"
      using 1 [OF False] unfolding utf8_step_iff by blast
    also have "\<dots> \<longleftrightarrow> (\<exists>cps. list_all scalar_value cps \<and> s = concat (map utf8_encode cps))"
    proof
      assume "\<exists>cps. list_all scalar_value cps \<and> s = concat (map utf8_encode cps)"
      then obtain cps where "list_all scalar_value cps" "s = concat (map utf8_encode cps)" by blast
      with False show "\<exists>cp cps. scalar_value cp \<and> list_all scalar_value cps \<and> s = utf8_encode cp @ concat (map utf8_encode cps)"
        by (cases cps) auto
    qed (force intro: exI [of _ "_ # _"])
    finally show ?thesis .
  qed
qed

subsection \<open>Serials\<close>

lemma bit_byte_high: "8 \<le> i \<Longrightarrow> \<not> bit (byte c) i"
proof -
  assume "8 \<le> i"
  moreover have "take_bit 8 (byte c) = byte c" by (simp add: take_bit_nat_eq_self)
  ultimately show ?thesis by (metis bit_take_bit_iff not_less)
qed

lemma bit_be_value:
  "bit (be_value bits) i \<longleftrightarrow> i div 8 < length bits \<and> bit (byte (bits ! (length bits - 1 - i div 8))) (i mod 8)"
proof (induction bits arbitrary: i rule: rev_induct)
  case (snoc c s)
  have "byte c < 2 ^ 8" by simp
  then have "be_value (s @ [c]) = push_bit 8 (be_value s) OR byte c"
    using nat_or_add [of "byte c" 8 "be_value s"] by simp
  then have b: "bit (be_value (s @ [c])) i \<longleftrightarrow> (if 8 \<le> i then bit (be_value s) (i - 8) else bit (byte c) i)"
    using bit_byte_high [of i c] by (auto simp: bit_simps)
  show ?case
  proof (cases "8 \<le> i")
    case True
    then obtain j where j: "i = j + 8" by (metis add.commute le_Suc_ex)
    then have "i div 8 = Suc (j div 8)" "i mod 8 = j mod 8" by simp_all
    moreover have "(s @ [c]) ! (length s - Suc q) = s ! (length s - 1 - q)" if "q < length s" for q
      using that nth_append_left [of "length s - Suc q" s "[c]"] by simp
    ultimately show ?thesis using b snoc [of j] by (simp add: j cong: conj_cong)
  next
    case False
    then show ?thesis using b by (simp add: nth_append)
  qed
qed simp

lemma bitmap_contains_iff: "bitmap_contains serial (off, bits) \<longleftrightarrow> off \<le> serial \<and> bit (be_value bits) (serial - off)"
proof -
  have "b AND push_bit k 1 \<noteq> 0 \<longleftrightarrow> bit b k" for b k :: nat
    using and_exp_eq_0_iff_not_bit [of b k] by (simp add: push_bit_eq_mult)
  then show ?thesis by (auto simp: bitmap_contains_def Let_def bit_be_value)
qed

text \<open>The serial numbers and key identifiers that one section revokes.\<close>

definition section_serials :: "krl_section \<Rightarrow> nat set" where
  "section_serials s =
     (\<Union>(low, high)\<in>set (ks_serial_ranges s). {low..high}) \<union>
     (\<Union>(off, bits)\<in>set (ks_serial_bitmaps s). (\<lambda>i. off + i) ` {i. bit (be_value bits) i})"

lemma section_serials_iff:
  "n \<in> section_serials s \<longleftrightarrow>
   list_ex (\<lambda>(low, high). low \<le> n \<and> n \<le> high) (ks_serial_ranges s) \<or> list_ex (bitmap_contains n) (ks_serial_bitmaps s)"
proof -
  have "n \<in> (\<lambda>i. off + i) ` {i. bit (be_value bits) i} \<longleftrightarrow> bitmap_contains n (off, bits)" for off bits
    unfolding bitmap_contains_iff by (auto simp: image_iff intro!: exI [of _ "n - off"])
  then show ?thesis
    unfolding section_serials_def list_ex_iff by (auto simp: split_beta)
qed

definition section_applies :: "string \<Rightarrow> krl_section \<Rightarrow> bool" where
  "section_applies ca_key s \<longleftrightarrow> ks_ca_key s = [] \<or> ks_ca_key s = ca_key"

lemma section_reason_None:
  "section_reason ca_key key_id serial s = None \<longleftrightarrow>
   (section_applies ca_key s \<longrightarrow> key_id \<notin> set (ks_key_ids s) \<and> (serial = 0 \<or> serial \<notin> section_serials s))"
  by (auto simp: section_reason_def section_applies_def section_serials_iff)

lemma first_error_None: "first_error cs = None \<longleftrightarrow> (\<forall>c\<in>set cs. c = None)"
  by (induction cs) (auto simp: first_error_def)

lemma not_revoked_iff:
  "revoked_reason cr krl subject_key ca_key key_id serial = None \<longleftrightarrow>
   \<not> key_is_revoked cr krl subject_key \<and> \<not> key_is_revoked cr krl ca_key \<and>
   (\<forall>s\<in>set (kd_certificate_sections krl). section_applies ca_key s \<longrightarrow>
      key_id \<notin> set (ks_key_ids s) \<and> (serial = 0 \<or> serial \<notin> section_serials s))"
  by (auto simp: revoked_reason_def first_error_None section_reason_None)


lemma bitmap_check_None:
  assumes ok: "bitmap_check off bits = None" and i: "bit (be_value bits) i"
  shows "off + i \<noteq> 0 \<and> i \<le> 2 ^ 64 - 1 - off"
proof -
  let ?b = "byte (bits ! (length bits - 1 - i div 8))"
  from i have len: "i div 8 < length bits" and bit: "bit ?b (i mod 8)" by (auto simp: bit_be_value)
  then have "bitmap_bit_check off (i div 8) ?b (i mod 8) = None"
    using ok unfolding bitmap_check_def first_error_None by force
  moreover have "?b AND push_bit (i mod 8) 1 \<noteq> 0"
    using bit and_exp_eq_0_iff_not_bit [of ?b "i mod 8"] by (simp add: push_bit_eq_mult)
  ultimately show ?thesis by (simp add: bitmap_bit_check_def Let_def split: if_splits)
qed

subsection \<open>Item readers\<close>

text \<open>
  The empty message is the model's own guard, for an item reader that consumes nothing.  The
  readers of the source share a contract: their errors are messages, an item makes the reader
  shorter, and its value is good.  So the loops over a reader end with good values or a message.
\<close>

lemma krl_items_Inr:
  "krl_items item s = Inr xs \<longleftrightarrow>
   (if s = [] then xs = []
    else \<exists>x rest ys. item s = Inr (x, rest) \<and> length rest < length s \<and> krl_items item rest = Inr ys \<and> xs = x # ys)"
  by (subst krl_items.simps) (auto simp: res_bind_eq_Inr split: sum.splits)

locale item_reader =
  fixes item :: "string \<Rightarrow> 'a krl_result" and good :: "'a \<Rightarrow> bool"
  assumes item_loud: "item s \<noteq> Inl []"
    and item_shorter: "item s = Inr (x, rest) \<Longrightarrow> length rest < length s"
    and item_good: "item s = Inr (x, rest) \<Longrightarrow> good x"
begin

lemma items_good: "krl_items item s = Inr xs \<Longrightarrow> list_all good xs"
proof (induction "length s" arbitrary: s xs rule: less_induct)
  case less
  then show ?case using item_good by (auto simp: krl_items_Inr [of item s] split: if_splits)
qed

lemma items_loud: "krl_items item s \<noteq> Inl []"
proof (induction "length s" arbitrary: s rule: less_induct)
  case less
  have "krl_items item rest \<noteq> Inl []" if "item s = Inr (x, rest)" for x rest
    using less item_shorter that by blast
  then show ?case
    using item_loud [of s] item_shorter
    by (subst krl_items.simps) (auto simp: res_bind_eq_Inl split: sum.splits)
qed

end

lemma krl_exact_loud [simp]: "krl_exact n s \<noteq> Inl []"
  by (simp add: krl_exact_def)

lemma krl_uint_loud [simp]: "krl_uint n s \<noteq> Inl []"
  by (auto simp: krl_uint_def res_bind_eq_Inl)

lemma krl_string_loud [simp]: "krl_string s \<noteq> Inl []"
  by (auto simp: krl_string_def res_bind_eq_Inl)

lemma krl_finish_loud [simp]: "krl_finish s \<noteq> Inl []"
  by (simp add: krl_finish_def check_that_def)

lemma positive_mpint_loud [simp]: "positive_mpint s \<noteq> Inl []"
  by (simp add: positive_mpint_def)

lemma krl_uint_less: "krl_uint k s = Inr (n, rest) \<Longrightarrow> n < 256 ^ k"
  using be_value_less [of "take k s"]
  by (auto simp: krl_uint_def krl_exact_def res_bind_eq_Inr min_def split: if_splits)

definition range_ok :: "nat \<times> nat \<Rightarrow> bool" where
  "range_ok r \<longleftrightarrow> 0 < fst r \<and> fst r \<le> snd r \<and> snd r < 2 ^ 64"

definition bitmap_ok :: "nat \<times> string \<Rightarrow> bool" where
  "bitmap_ok b \<longleftrightarrow> fst b < 2 ^ 64 \<and> bitmap_check (fst b) (snd b) = None"

definition section_ok :: "krl_section \<Rightarrow> bool" where
  "section_ok s \<longleftrightarrow>
     list_all range_ok (ks_serial_ranges s) \<and> list_all bitmap_ok (ks_serial_bitmaps s) \<and>
     list_all valid_utf8 (ks_key_ids s)"

lemmas reader_defs = serial_item_def key_id_item_def explicit_key_item_def fingerprint_item_def

lemmas reader_dests = krl_uint_less krl_uint_rest krl_string_rest

interpretation serials: item_reader serial_item "\<lambda>n. range_ok (n, n)"
  by unfold_locales
    (auto simp: reader_defs range_ok_def res_bind_eq_Inr res_bind_eq_Inl split: if_split_asm dest: reader_dests)

interpretation key_ids: item_reader key_id_item valid_utf8
  by unfold_locales (auto simp: reader_defs res_bind_eq_Inr res_bind_eq_Inl split: if_split_asm dest: reader_dests)

interpretation explicit_keys: item_reader explicit_key_item "\<lambda>k. k \<noteq> []"
  by unfold_locales (auto simp: reader_defs res_bind_eq_Inr res_bind_eq_Inl split: if_split_asm dest: reader_dests)

interpretation fingerprints: item_reader "fingerprint_item n" "\<lambda>d. length d = n" for n
  by unfold_locales (auto simp: reader_defs res_bind_eq_Inr res_bind_eq_Inl split: if_split_asm dest: reader_dests)

lemma parse_krl_range_ok: "parse_krl_range s = Inr (r, rest) \<Longrightarrow> range_ok r"
  by (auto simp: parse_krl_range_def res_bind_eq_Inr range_ok_def split: if_splits dest: krl_uint_less)

lemma parse_krl_bitmap_ok: "parse_krl_bitmap s = Inr (b, rest) \<Longrightarrow> bitmap_ok b"
  by (auto simp: parse_krl_bitmap_def res_bind_eq_Inr bitmap_ok_def split: option.splits dest: krl_uint_less)

lemma no_additions_ok: "section_ok no_additions"
  by (simp add: section_ok_def no_additions_def)

lemma parse_subsection_data_ok: "parse_subsection_data type data = Inr s \<Longrightarrow> section_ok s"
  using no_additions_ok
  by (auto simp: parse_subsection_data_def res_bind_eq_Inr section_ok_def no_additions_def list.pred_map comp_def
      split: if_split_asm dest: serials.items_good key_ids.items_good parse_krl_range_ok parse_krl_bitmap_ok)

lemma parse_krl_extension_loud: "parse_krl_extension s \<noteq> Inl []"
  by (auto simp: parse_krl_extension_def res_bind_eq_Inl)

lemma parse_krl_range_loud: "parse_krl_range s \<noteq> Inl []"
  by (auto simp: parse_krl_range_def res_bind_eq_Inl)

lemma bitmap_check_loud: "bitmap_check off bits \<noteq> Some []"
proof -
  have "first_error cs = Some e \<Longrightarrow> Some e \<in> set cs" for cs e
    by (auto simp: first_error_def split: list.split_asm dest!: filter_eq_ConsD)
  then show ?thesis by (fastforce simp: bitmap_check_def bitmap_bit_check_def Let_def split: if_split_asm)
qed

lemma parse_krl_bitmap_loud: "parse_krl_bitmap s \<noteq> Inl []"
  using bitmap_check_loud by (auto simp: parse_krl_bitmap_def res_bind_eq_Inl split: option.splits)

lemma parse_subsection_data_loud: "parse_subsection_data type data \<noteq> Inl []"
  by (auto simp: parse_subsection_data_def serials.items_loud key_ids.items_loud parse_krl_extension_loud parse_krl_range_loud parse_krl_bitmap_loud res_bind_eq_Inl)

interpretation subsections: item_reader subsection_item section_ok
  by unfold_locales
    (auto simp: subsection_item_def res_bind_eq_Inr res_bind_eq_Inl parse_subsection_data_loud
      dest!: krl_uint_rest krl_string_rest dest: parse_subsection_data_ok)

lemma collect_section_ok: "list_all section_ok parts \<Longrightarrow> section_ok (collect_section ca parts)"
  by (auto simp: section_ok_def collect_section_def list_all_iff)

lemma parse_certificate_krl_section_ok: "parse_certificate_krl_section s = Inr x \<Longrightarrow> section_ok x"
  by (auto simp: parse_certificate_krl_section_def res_bind_eq_Inr intro!: collect_section_ok dest: subsections.items_good)

subsection \<open>What a parsed list guarantees\<close>

definition krl_ok :: "krl_data \<Rightarrow> bool" where
  "krl_ok krl \<longleftrightarrow>
     list_all section_ok (kd_certificate_sections krl) \<and> list_all (\<lambda>k. k \<noteq> []) (kd_explicit_keys krl) \<and>
     list_all (\<lambda>d. length d = 20) (kd_sha1_fingerprints krl) \<and> list_all (\<lambda>d. length d = 32) (kd_sha256_fingerprints krl)"

lemma parse_krl_section_ok:
  assumes "parse_krl_section type sec krl = Inr krl'" "krl_ok krl"
  shows "krl_ok krl'"
  using assms
  by (auto simp: parse_krl_section_def res_bind_eq_Inr krl_ok_def split: if_split_asm
      dest: parse_certificate_krl_section_ok explicit_keys.items_good fingerprints.items_good)

text \<open>What the loop keeps of the signatures it has collected.\<close>

definition signatures_ok :: "crypto \<Rightarrow> krl_signature list \<Rightarrow> bool" where
  "signatures_ok cr sigs \<longleftrightarrow>
     length sigs \<le> 16 \<and> distinct (map sig_key_blob sigs) \<and>
     list_all (\<lambda>g. parse_key_blob cr (sig_key_blob g) \<noteq> None \<and> canonical_signature (sig_signature_blob g)) sigs"

lemma parse_krl_signature_ok:
  "parse_krl_signature cr n sigs s = Inr (g, rest) \<Longrightarrow> signatures_ok cr sigs \<Longrightarrow> signatures_ok cr (sigs @ [g])"
  by (auto simp: parse_krl_signature_def res_bind_eq_Inr signatures_ok_def split: if_split_asm)

lemma parse_krl_parts_ok:
  assumes "parse_krl_parts cr n krl sigs s = Inr (krl', sigs')" "krl_ok krl" "signatures_ok cr sigs"
  shows "krl_ok krl' \<and> signatures_ok cr sigs'"
  using assms
proof (induction cr n krl sigs s rule: parse_krl_parts.induct)
  case (1 cr n krl sigs s)
  from "1.prems"(1) consider (stop) "s = []" "krl' = krl" "sigs' = sigs"
    | (sig) s1 g rest where "s \<noteq> []" "krl_uint 1 s = Inr (4, s1)" "parse_krl_signature cr n sigs s1 = Inr (g, rest)"
        "parse_krl_parts cr n krl (sigs @ [g]) rest = Inr (krl', sigs')"
    | (part) type s1 sec rest krl1 where "s \<noteq> []" "krl_uint 1 s = Inr (type, s1)" "type \<noteq> 4" "sigs = []"
        "krl_string s1 = Inr (sec, rest)" "parse_krl_section type sec krl = Inr krl1"
        "parse_krl_parts cr n krl1 sigs rest = Inr (krl', sigs')"
    by (subst (asm) parse_krl_parts.simps) (auto split: if_split_asm sum.split_asm)
  then show ?case
  proof cases
    case stop
    with "1.prems" show ?thesis by simp
  next
    case sig
    from "1.IH"(1) [OF sig(1,2) refl refl sig(3) refl sig(4)] "1.prems"(2,3) parse_krl_signature_ok [OF sig(3)]
    show ?thesis by simp
  next
    case part
    from "1.IH"(2) [OF part(1,2) refl part(3) _ part(5) refl part(6,7)] "1.prems"(2,3) part(4) parse_krl_section_ok [OF part(6)]
    show ?thesis by simp
  qed
qed

lemma signer_matches_iff:
  "signer_matches cr key_blob lines = Inr found \<longleftrightarrow>
   list_all (\<lambda>l. parse_authorized_key cr l \<noteq> None) lines \<and> (found \<longleftrightarrow> (\<exists>l\<in>set lines. parse_authorized_key cr l = Some key_blob))"
  by (induction lines arbitrary: found) (auto simp: res_bind_eq_Inr split: option.splits)

lemma check_signatures_iff:
  "check_signatures cr bytes signers ca_blob i sigs = Inr found \<longleftrightarrow>
   list_all (signature_valid cr bytes) sigs \<and>
   (sigs = [] \<or> list_all (\<lambda>l. parse_authorized_key cr l \<noteq> None) signers) \<and>
   (found \<longleftrightarrow> (\<exists>g\<in>set sigs. sig_key_blob g = ca_blob \<or> (\<exists>l\<in>set signers. parse_authorized_key cr l = Some (sig_key_blob g))))"
  by (induction sigs arbitrary: i found) (auto simp: res_bind_eq_Inr signer_matches_iff)

definition krl_trusted :: "crypto \<Rightarrow> string \<Rightarrow> string list \<Rightarrow> string \<Rightarrow> krl_signature list \<Rightarrow> bool" where
  "krl_trusted cr bytes signers ca_blob sigs \<longleftrightarrow>
     list_all (signature_valid cr bytes) sigs \<and> list_all (\<lambda>l. parse_authorized_key cr l \<noteq> None) signers \<and>
     (\<exists>g\<in>set sigs. sig_key_blob g = ca_blob \<or> (\<exists>l\<in>set signers. parse_authorized_key cr l = Some (sig_key_blob g)))"

lemma parse_krl_iff:
  "parse_krl cr bytes signers ca_blob = Inr krl \<longleftrightarrow>
   length bytes \<le> kMaxKrlBytes \<and>
   (\<exists>s sigs. parse_krl_header bytes = Inr s \<and> parse_krl_parts cr (length bytes) empty_krl [] s = Inr (krl, sigs) \<and>
      (sigs = [] \<or> krl_trusted cr bytes signers ca_blob sigs))"
proof -
  have trust: "(if sigs = [] then Inr k
      else res_bind (check_signatures cr bytes signers ca_blob 0 sigs) (\<lambda>trusted.
        if \<not> trusted then Inl e else Inr k)) = Inr krl \<longleftrightarrow> k = krl \<and> (sigs = [] \<or> krl_trusted cr bytes signers ca_blob sigs)"
    for e k sigs
    by (auto simp: res_bind_eq_Inr check_signatures_iff krl_trusted_def)
  show ?thesis by (auto simp: parse_krl_def res_bind_eq_Inr trust)
qed

lemma empty_krl_ok: "krl_ok empty_krl" "signatures_ok cr []"
  by (simp_all add: krl_ok_def empty_krl_def signatures_ok_def)

lemma section_serials_ok: "section_ok s \<Longrightarrow> n \<in> section_serials s \<Longrightarrow> 0 < n \<and> n < 2 ^ 64"
  by (fastforce simp: section_ok_def section_serials_def list_all_iff range_ok_def bitmap_ok_def dest: bitmap_check_None)


subsection \<open>Every rejection is one of the source's exceptions\<close>

lemma parse_certificate_krl_section_loud: "parse_certificate_krl_section s \<noteq> Inl []"
  by (auto simp: parse_certificate_krl_section_def subsections.items_loud res_bind_eq_Inl)

lemma parse_krl_section_loud: "parse_krl_section type sec krl \<noteq> Inl []"
  by (auto simp: parse_krl_section_def explicit_keys.items_loud fingerprints.items_loud parse_certificate_krl_section_loud parse_krl_extension_loud res_bind_eq_Inl)

lemma parse_krl_signature_loud: "parse_krl_signature cr n sigs s \<noteq> Inl []"
  by (auto simp: parse_krl_signature_def res_bind_eq_Inl)

lemma parse_krl_parts_loud: "parse_krl_parts cr n krl sigs s \<noteq> Inl []"
proof (induction cr n krl sigs s rule: parse_krl_parts.induct)
  case (1 cr n krl sigs s)
  then show ?case
    using krl_uint_loud [of 1 s] parse_krl_signature_loud krl_string_loud parse_krl_section_loud
    by (subst parse_krl_parts.simps) (auto split: sum.split)
qed

lemma signer_matches_loud: "signer_matches cr k ls \<noteq> Inl []"
  by (induction ls) (auto simp: res_bind_eq_Inl split: option.splits)

lemma check_signatures_loud: "check_signatures cr bytes signers ca_blob i sigs \<noteq> Inl []"
  by (induction sigs arbitrary: i) (auto simp: signer_matches_loud res_bind_eq_Inl)

lemma parse_krl_header_loud: "parse_krl_header bytes \<noteq> Inl []"
  by (auto simp: parse_krl_header_def res_bind_eq_Inl)

lemma parse_krl_loud: "parse_krl cr bytes signers ca_blob \<noteq> Inl []"
  by (auto simp: parse_krl_def parse_krl_header_loud parse_krl_parts_loud check_signatures_loud res_bind_eq_Inl)

end
