(* ===== verification/KrlLayout.thy ===== *)
theory KrlLayout
  imports KrlFacts
begin

text \<open>
  The layout of a revocation list, written from the format and not from the parser: a header, the
  sections, and after them the signatures, each over everything before its own value.
\<close>

record krl_layout =
  kl_version :: nat
  kl_date :: nat
  kl_reserved :: string
  kl_comment :: string
  kl_sections :: "(nat \<times> string) list"
  kl_signatures :: "(string \<times> string) list"

definition krl_header :: "krl_layout \<Rightarrow> string" where
  "krl_header l =
     kKrlMagic @ be_bytes 4 1 @ be_bytes 8 (kl_version l) @ be_bytes 8 (kl_date l) @ be_bytes 8 0 @
     wire_string (kl_reserved l) @ wire_string (kl_comment l)"

definition section_bytes :: "nat \<times> string \<Rightarrow> string" where
  "section_bytes p = be_bytes 1 (fst p) @ wire_string (snd p)"

definition signer_bytes :: "string \<Rightarrow> string" where
  "signer_bytes key = be_bytes 1 4 @ wire_string key"

definition signature_section :: "string \<times> string \<Rightarrow> string" where
  "signature_section g = signer_bytes (fst g) @ wire_string (snd g)"

definition krl_body :: "krl_layout \<Rightarrow> string" where
  "krl_body l = krl_header l @ concat (map section_bytes (kl_sections l))"

definition encode_krl :: "krl_layout \<Rightarrow> string" where
  "encode_krl l = krl_body l @ concat (map signature_section (kl_signatures l))"

text \<open>What the i-th signature covers: all bytes up to and including its own key.\<close>

definition signed_over :: "krl_layout \<Rightarrow> nat \<Rightarrow> string" where
  "signed_over l i =
     krl_body l @ concat (map signature_section (take i (kl_signatures l))) @ signer_bytes (fst (kl_signatures l ! i))"

fun load_sections :: "(nat \<times> string) list \<Rightarrow> krl_data \<Rightarrow> string + krl_data" where
  "load_sections [] krl = Inr krl"
| "load_sections ((type, bytes) # ps) krl = res_bind (parse_krl_section type bytes krl) (load_sections ps)"

subsection \<open>The readers and the layout\<close>

lemma krl_exact_eq: "krl_exact n s = Inr (v, rest) \<longleftrightarrow> s = v @ rest \<and> length v = n"
  by (auto simp: krl_exact_def split: if_split_asm)

lemma krl_uint_eq: "krl_uint k s = Inr (n, rest) \<longleftrightarrow> n < 256 ^ k \<and> s = be_bytes k n @ rest"
  using be_bytes_be_value be_value_less
  by (auto simp: krl_uint_def res_bind_eq_Inr krl_exact_eq be_value_be_bytes)

lemma krl_string_eq: "krl_string s = Inr (v, rest) \<longleftrightarrow> length v < 2 ^ 32 \<and> s = wire_string v @ rest"
  by (auto simp: krl_string_def res_bind_eq_Inr krl_exact_eq krl_uint_eq wire_string_def)

lemmas krl_reader_eqs = krl_exact_eq krl_uint_eq krl_string_eq

lemma parse_krl_header_layout:
  assumes "parse_krl_header bytes = Inr s"
  obtains v d r c where
    "bytes = kKrlMagic @ be_bytes 4 1 @ be_bytes 8 v @ be_bytes 8 d @ be_bytes 8 0 @ wire_string r @ wire_string c @ s"
  using assms by (auto simp: parse_krl_header_def res_bind_eq_Inr krl_reader_eqs split: if_split_asm)

text \<open>The signature records that stand at position \<open>pos\<close>.\<close>

fun placed :: "nat \<Rightarrow> (string \<times> string) list \<Rightarrow> krl_signature list" where
  "placed pos [] = []"
| "placed pos (g # gs) =
     \<lparr>sig_signed_length = pos + length (signer_bytes (fst g)), sig_key_blob = fst g, sig_signature_blob = snd g\<rparr> #
     placed (pos + length (signature_section g)) gs"

lemma placed_keys [simp]: "map sig_key_blob (placed pos gs) = map fst gs" "length (placed pos gs) = length gs"
  by (induction pos gs rule: placed.induct) auto

lemma placed_nth:
  "i < length gs \<Longrightarrow> placed pos gs ! i =
     \<lparr>sig_signed_length = pos + length (concat (map signature_section (take i gs)) @ signer_bytes (fst (gs ! i))),
      sig_key_blob = fst (gs ! i), sig_signature_blob = snd (gs ! i)\<rparr>"
  by (induction pos gs arbitrary: i rule: placed.induct) (auto simp: nth_Cons split: nat.split)

definition parts_layout ::
  "nat \<Rightarrow> krl_data \<Rightarrow> krl_signature list \<Rightarrow> string \<Rightarrow> krl_data \<Rightarrow> krl_signature list \<Rightarrow> bool" where
  "parts_layout pos krl sigs s krl' sigs' \<longleftrightarrow>
     (\<exists>ps gs. s = concat (map section_bytes ps) @ concat (map signature_section gs) \<and>
        list_all (\<lambda>p. fst p \<noteq> 4) ps \<and> (sigs \<noteq> [] \<longrightarrow> ps = []) \<and> load_sections ps krl = Inr krl' \<and>
        sigs' = sigs @ placed (pos + length (concat (map section_bytes ps))) gs)"

lemma parts_layout_end: "parts_layout pos krl sigs [] krl sigs"
  unfolding parts_layout_def by (intro exI [of _ "[]"]) simp

lemma parts_layout_signature:
  assumes "s = signature_section g @ rest" "parts_layout (pos + length (signature_section g)) krl
      (sigs @ [\<lparr>sig_signed_length = pos + length (signer_bytes (fst g)), sig_key_blob = fst g, sig_signature_blob = snd g\<rparr>])
      rest krl' sigs'"
  shows "parts_layout pos krl sigs s krl' sigs'"
proof -
  from assms(2) obtain gs where "rest = concat (map signature_section gs)" "krl' = krl"
    "sigs' = sigs @ placed pos (g # gs)" by (auto simp: parts_layout_def)
  with assms(1) show ?thesis
    unfolding parts_layout_def by (intro exI [of _ "[]"] exI [of _ "g # gs"]) simp
qed

lemma parts_layout_section:
  assumes "s = section_bytes (type, sec) @ rest" "type \<noteq> 4" "parse_krl_section type sec krl = Inr krl1"
    "parts_layout (pos + length (section_bytes (type, sec))) krl1 [] rest krl' sigs'"
  shows "parts_layout pos krl [] s krl' sigs'"
proof -
  from assms(4) obtain ps gs where "rest = concat (map section_bytes ps) @ concat (map signature_section gs)"
    "list_all (\<lambda>p. fst p \<noteq> 4) ps" "load_sections ps krl1 = Inr krl'"
    "sigs' = placed (pos + length (section_bytes (type, sec)) + length (concat (map section_bytes ps))) gs"
    by (auto simp: parts_layout_def)
  with assms(1-3) show ?thesis
    unfolding parts_layout_def
    by (intro exI [of _ "(type, sec) # ps"] exI [of _ gs]) (simp add: res_bind_def add.assoc)
qed

lemma parse_krl_signature_layout:
  assumes "parse_krl_signature cr (pos + 1 + length s) sigs s = Inr (g, rest)"
  obtains b where "be_bytes 1 4 @ s = signature_section b @ rest"
    "g = \<lparr>sig_signed_length = pos + length (signer_bytes (fst b)), sig_key_blob = fst b, sig_signature_blob = snd b\<rparr>"
  using assms
  by (fastforce simp: parse_krl_signature_def res_bind_eq_Inr krl_string_eq signature_section_def signer_bytes_def
      split: if_split_asm)

lemma parse_krl_parts_layout:
  "parse_krl_parts cr (pos + length s) krl sigs s = Inr (krl', sigs') \<Longrightarrow> parts_layout pos krl sigs s krl' sigs'"
proof (induction "length s" arbitrary: pos krl sigs s rule: less_induct)
  case less
  let ?n = "pos + length s"
  from less.prems consider (stop) "s = []" "krl' = krl" "sigs' = sigs"
    | (sig) s1 g rest where "krl_uint 1 s = Inr (4, s1)" "parse_krl_signature cr ?n sigs s1 = Inr (g, rest)"
        "parse_krl_parts cr ?n krl (sigs @ [g]) rest = Inr (krl', sigs')"
    | (part) type s1 sec rest krl1 where "krl_uint 1 s = Inr (type, s1)" "type \<noteq> 4" "sigs = []"
        "krl_string s1 = Inr (sec, rest)" "parse_krl_section type sec krl = Inr krl1"
        "parse_krl_parts cr ?n krl1 sigs rest = Inr (krl', sigs')"
    by (subst (asm) parse_krl_parts.simps) (auto split: if_split_asm sum.split_asm)
  then show ?case
  proof cases
    case stop
    then show ?thesis by (simp add: parts_layout_end)
  next
    case sig
    then have s: "s = be_bytes 1 4 @ s1" by (simp add: krl_uint_eq)
    then have n: "?n = pos + 1 + length s1" by simp
    from sig(2) [unfolded n] obtain b where b: "be_bytes 1 4 @ s1 = signature_section b @ rest"
      "g = \<lparr>sig_signed_length = pos + length (signer_bytes (fst b)), sig_key_blob = fst b, sig_signature_blob = snd b\<rparr>"
      by (rule parse_krl_signature_layout)
    have l: "?n = pos + length (signature_section b) + length rest" "length rest < length s"
      using arg_cong [OF b(1), of length] s by (simp_all add: signature_section_def signer_bytes_def)
    from less.hyps [OF l(2) sig(3) [unfolded l(1)]] b s show ?thesis
      by (intro parts_layout_signature [of s b rest]) simp_all
  next
    case part
    then have s: "s = section_bytes (type, sec) @ rest" by (simp add: krl_uint_eq krl_string_eq section_bytes_def)
    then have l: "?n = pos + length (section_bytes (type, sec)) + length rest" "length rest < length s"
      by (simp_all add: section_bytes_def)
    from less.hyps [OF l(2) part(6) [unfolded l(1)]] part(3) parts_layout_section [OF s part(2,5)] show ?thesis by simp
  qed
qed

subsection \<open>Trust\<close>

text \<open>Signature \<open>i\<close> is by a usable key, canonically encoded, and verifies over what it covers.\<close>

definition signature_checked :: "crypto \<Rightarrow> krl_layout \<Rightarrow> nat \<Rightarrow> bool" where
  "signature_checked cr l i \<longleftrightarrow>
     (case kl_signatures l ! i of (key_blob, signature) \<Rightarrow>
        \<exists>key. parse_key_blob cr key_blob = Some key \<and> canonical_signature signature \<and>
          verify_signature cr key key_blob (signed_over l i) signature)"

definition trusted_keys :: "crypto \<Rightarrow> string list \<Rightarrow> string \<Rightarrow> string set" where
  "trusted_keys cr signers ca_blob = insert ca_blob {b. \<exists>line\<in>set signers. parse_authorized_key cr line = Some b}"

definition layout_trusted :: "crypto \<Rightarrow> string list \<Rightarrow> string \<Rightarrow> krl_layout \<Rightarrow> bool" where
  "layout_trusted cr signers ca_blob l \<longleftrightarrow>
     length (kl_signatures l) \<le> 16 \<and> distinct (map fst (kl_signatures l)) \<and>
     (\<forall>i<length (kl_signatures l). signature_checked cr l i) \<and>
     (kl_signatures l = [] \<or>
        list_all (\<lambda>line. parse_authorized_key cr line \<noteq> None) signers \<and>
        set (map fst (kl_signatures l)) \<inter> trusted_keys cr signers ca_blob \<noteq> {})"

lemma take_signed_over:
  assumes "i < length (kl_signatures l)"
  shows "take (length (krl_body l) + length (concat (map signature_section (take i (kl_signatures l))) @
      signer_bytes (fst (kl_signatures l ! i)))) (encode_krl l) = signed_over l i"
proof -
  let ?gs = "kl_signatures l"
  have "?gs = take i ?gs @ ?gs ! i # drop (Suc i) ?gs" using assms by (rule id_take_nth_drop)
  then have "concat (map signature_section ?gs) = concat (map signature_section (take i ?gs)) @
      signature_section (?gs ! i) @ concat (map signature_section (drop (Suc i) ?gs))"
    by (metis concat.simps(2) concat_append list.simps(9) map_append)
  then have "encode_krl l = signed_over l i @ wire_string (snd (?gs ! i)) @ concat (map signature_section (drop (Suc i) ?gs))"
    by (simp add: encode_krl_def signed_over_def signature_section_def)
  then show ?thesis by (simp add: signed_over_def)
qed

lemma parse_krl_layout:
  assumes "parse_krl cr bytes signers ca_blob = Inr krl"
  obtains l where "bytes = encode_krl l" "list_all (\<lambda>p. fst p \<noteq> 4) (kl_sections l)"
    "load_sections (kl_sections l) empty_krl = Inr krl" "layout_trusted cr signers ca_blob l"
proof -
  from assms obtain s sigs where s: "parse_krl_header bytes = Inr s"
    "parse_krl_parts cr (length bytes) empty_krl [] s = Inr (krl, sigs)"
    and t: "sigs = [] \<or> krl_trusted cr bytes signers ca_blob sigs" by (auto simp: parse_krl_iff)
  from parse_krl_parts_ok [OF s(2) empty_krl_ok] have ok: "signatures_ok cr sigs" by simp
  from s(1) obtain v d r c where h: "bytes =
      kKrlMagic @ be_bytes 4 1 @ be_bytes 8 v @ be_bytes 8 d @ be_bytes 8 0 @ wire_string r @ wire_string c @ s"
    by (rule parse_krl_header_layout)
  define l0 where "l0 = \<lparr>kl_version = v, kl_date = d, kl_reserved = r, kl_comment = c, kl_sections = [], kl_signatures = []\<rparr>"
  have b: "bytes = krl_header l0 @ s" using h by (simp add: krl_header_def l0_def)
  have "parts_layout (length (krl_header l0)) empty_krl [] s krl sigs"
    using s(2) by (intro parse_krl_parts_layout) (simp add: b)
  then obtain ps gs where p: "s = concat (map section_bytes ps) @ concat (map signature_section gs)"
    "list_all (\<lambda>p. fst p \<noteq> 4) ps" "load_sections ps empty_krl = Inr krl"
    and g: "sigs = placed (length (krl_header l0) + length (concat (map section_bytes ps))) gs"
    by (auto simp: parts_layout_def)
  define l where "l = l0\<lparr>kl_sections := ps, kl_signatures := gs\<rparr>"
  have head: "krl_header l0 = krl_header l" by (simp add: krl_header_def l_def)
  have e: "bytes = encode_krl l" using b p(1) by (simp add: head encode_krl_def krl_body_def) (simp add: l_def)
  have g': "sigs = placed (length (krl_body l)) (kl_signatures l)" using g by (simp add: head krl_body_def) (simp add: l_def)
  have checked: "signature_checked cr l i" if i: "i < length (kl_signatures l)" for i
  proof -
    have mem: "placed (length (krl_body l)) (kl_signatures l) ! i \<in> set sigs" using i g' by simp
    then have "signature_valid cr bytes (placed (length (krl_body l)) (kl_signatures l) ! i)"
      using t by (auto simp: krl_trusted_def list_all_iff)
    moreover have "canonical_signature (snd (kl_signatures l ! i))"
      using ok mem by (auto simp: signatures_ok_def list_all_iff placed_nth [OF i])
    ultimately show ?thesis
      by (simp add: signature_checked_def signature_valid_def placed_nth [OF i] e take_signed_over [OF i, simplified]
          case_prod_beta split: option.splits)
  qed
  have keys: "set (map fst (kl_signatures l)) = sig_key_blob ` set sigs"
    using arg_cong [OF placed_keys(1) [of "length (krl_body l)" "kl_signatures l"], of set] g' by (simp del: placed_keys)
  have "layout_trusted cr signers ca_blob l"
    unfolding layout_trusted_def
    using ok checked t keys g' by (auto simp: signatures_ok_def krl_trusted_def trusted_keys_def)
  then show ?thesis using that [of l] e p(2,3) by (simp add: l_def)
qed

end
