(* ===== verification/HostCertProps.thy ===== *)
theory HostCertProps
  imports HostCertFacts KrlLayout HostTrust
begin

text \<open>
  The properties of host certificates, revocation lists and host-key fingerprints
  (\<^verbatim>\<open>src/native/src/host_certificate.cpp\<close>, \<^verbatim>\<open>src/native/src/host_key.cpp\<close>).
\<close>

subsection \<open>The verdict\<close>

lemma take_signed_part: "take (length (signed_part sh)) (encode_certificate sh) = signed_part sh"
  by (simp add: encode_certificate_def)

lemma certificate_of_simps [simp]:
  "c_principals (certificate_of sh) = sh_principals sh" "c_valid_after (certificate_of sh) = sh_valid_after sh"
  "c_valid_before (certificate_of sh) = sh_valid_before sh"
  "c_critical_options (certificate_of sh) = sh_critical_options sh" "c_ca_blob (certificate_of sh) = sh_ca_blob sh"
  "c_signature_blob (certificate_of sh) = sh_signature_blob sh"
  "c_signed_length (certificate_of sh) = length (signed_part sh)" "c_type (certificate_of sh) = sh_type sh"
  "c_serial (certificate_of sh) = sh_serial sh" "c_key_id (certificate_of sh) = sh_key_id sh"
  "c_subject_key_blob (certificate_of sh) = wire_string (sh_plain sh) @ wire_list (sh_subject sh)"
  by (simp_all add: certificate_of_def)

text \<open>What the verdict asks of the fields of a certificate.\<close>

definition fields_trusted :: "crypto \<Rightarrow> int \<Rightarrow> string \<Rightarrow> public_key \<Rightarrow> string list \<Rightarrow> cert_shape \<Rightarrow> bool" where
  "fields_trusted cr now ca_blob key allowed sh \<longleftrightarrow>
     sh_type sh = 2 \<and> sh_ca_blob sh = ca_blob \<and> sh_critical_options sh = [] \<and>
     verify_signature cr key ca_blob (signed_part sh) (sh_signature_blob sh) \<and>
     0 \<le> now \<and> sh_valid_after sh \<le> nat now \<and> nat now \<le> sh_valid_before sh \<and>
     (\<exists>p\<in>set (sh_principals sh). \<exists>g\<in>set allowed. length g \<le> 253 \<and> length p \<le> 253 \<and> glob_matches g p) \<and>
     valid_utf8 (sh_key_id sh) \<and> list_all valid_utf8 (sh_principals sh)"

lemma check_certificate_iff:
  "check_certificate cr now (encode_certificate sh) ca_blob ca_key allowed (certificate_of sh) = Inr u \<longleftrightarrow>
   (\<exists>key. ca_key = Some key \<and> fields_trusted cr now ca_blob key allowed sh)"
  by (auto simp: check_certificate_def fields_trusted_def take_signed_part principal_matches_glob list_ex_iff
      not_less split: option.split)

definition krl_passes :: "crypto \<Rightarrow> string \<Rightarrow> string list \<Rightarrow> string \<Rightarrow> cert_shape \<Rightarrow> bool" where
  "krl_passes cr krl signers ca_blob sh \<longleftrightarrow>
     (\<exists>data. parse_krl cr krl signers ca_blob = Inr data \<and>
        revoked_reason cr data (wire_string (sh_plain sh) @ wire_list (sh_subject sh)) (sh_ca_blob sh)
          (sh_key_id sh) (sh_serial sh) = None)"

lemma check_revocation_iff:
  "check_revocation cr krl signers ca_blob (certificate_of sh) = Inr u \<longleftrightarrow>
   krl = [] \<or> krl_passes cr krl signers ca_blob sh"
  by (auto simp: check_revocation_def krl_passes_def split: sum.split option.split)

lemma encode_certificate_not_Nil: "encode_certificate sh \<noteq> []"
  by (simp add: encode_certificate_def)

lemma verify_host_certificate_iff:
  "verify_host_certificate_with_krl cr now blob ca_line allowed krl signers = Inr u \<longleftrightarrow>
   length blob \<le> kMaxCertificateBytes \<and> principals_ok allowed \<and>
   (\<exists>ca_blob key sh. parse_authorized_key cr ca_line = Some ca_blob \<and> parse_key_blob cr ca_blob = Some key \<and>
      cert_shape_ok sh \<and> blob = encode_certificate sh \<and> fields_trusted cr now ca_blob key allowed sh \<and>
      (krl = [] \<or> krl_passes cr krl signers ca_blob sh))"
proof -
  have "verify_host_certificate_with_krl cr now blob ca_line allowed krl signers = Inr u \<longleftrightarrow>
      blob \<noteq> [] \<and> length blob \<le> kMaxCertificateBytes \<and> principals_ok allowed \<and>
      (\<exists>ca_blob c. parse_authorized_key cr ca_line = Some ca_blob \<and> parse_certificate blob = Some c \<and>
        (\<exists>v. check_certificate cr now blob ca_blob (parse_key_blob cr ca_blob) allowed c = Inr v) \<and>
        check_revocation cr krl signers ca_blob c = Inr u)"
    by (auto simp: verify_host_certificate_with_krl_def res_bind_eq_Inr not_less split: option.split)
  also have "\<dots> \<longleftrightarrow> blob \<noteq> [] \<and> length blob \<le> kMaxCertificateBytes \<and> principals_ok allowed \<and>
      (\<exists>ca_blob sh. parse_authorized_key cr ca_line = Some ca_blob \<and> cert_shape_ok sh \<and> blob = encode_certificate sh \<and>
        (\<exists>v. check_certificate cr now (encode_certificate sh) ca_blob (parse_key_blob cr ca_blob) allowed
           (certificate_of sh) = Inr v) \<and>
        check_revocation cr krl signers ca_blob (certificate_of sh) = Inr u)"
    unfolding parse_certificate_iff by blast
  finally show ?thesis
    unfolding check_certificate_iff check_revocation_iff using encode_certificate_not_Nil by blast
qed

subsection \<open>Certificate keys and fingerprints\<close>

lemma subject_fields_key_fields:
  "subject_fields plain s = Some rest \<Longrightarrow>
   \<exists>algorithm. algorithm_for_name plain = Some algorithm \<and> key_fields algorithm s = Some rest"
  by (auto simp: subject_fields_def expected_curve_def algorithm_for_name_def key_fields_def curve_name_def
      split: if_split_asm option.split_asm)

lemma plain_no_certificate: "algorithm_for_name plain = Some algorithm \<Longrightarrow> certificate_algorithm plain = None"
  by (auto simp: algorithm_for_name_def certificate_algorithm_def kCertificateSuffix_def split: if_split_asm)

lemma algorithm_name_short: "algorithm_for_name plain = Some algorithm \<Longrightarrow> plain \<noteq> [] \<and> length plain < 2 ^ 32"
  by (auto simp: algorithm_for_name_def split: if_split_asm)

lemma parse_certificate_parts:
  assumes "parse_certificate blob = Some c"
  obtains algorithm plain s nonce fields_start rest where
    "read_string blob = Some (plain @ kCertificateSuffix, s)" "read_string s = Some (nonce, fields_start)"
    "16 \<le> length nonce" "length nonce \<le> 1024" "subject_fields plain fields_start = Some rest" "plain \<noteq> []"
    "algorithm_for_name plain = Some algorithm" "key_fields algorithm fields_start = Some rest"
    "c_subject_key_blob c = wire_string plain @ take (length fields_start - length rest) fields_start"
proof -
  from assms obtain sh where sh: "cert_shape_ok sh" "blob = encode_certificate sh" "c = certificate_of sh"
    by (auto simp: parse_certificate_iff)
  let ?rest = "body_part sh @ wire_string (sh_signature_blob sh)"
  let ?start = "wire_list (sh_subject sh) @ ?rest"
  have sub: "subject_ok (sh_plain sh) (sh_subject sh)" using sh(1) by (simp add: cert_shape_ok_def)
  then have fs: "subject_fields (sh_plain sh) ?start = Some ?rest" by (auto simp: subject_fields_iff)
  then obtain algorithm where alg: "algorithm_for_name (sh_plain sh) = Some algorithm"
    "key_fields algorithm ?start = Some ?rest" using subject_fields_key_fields by blast
  have blob: "blob = wire_string (sh_plain sh @ kCertificateSuffix) @ wire_string (sh_nonce sh) @ ?start"
    by (simp add: sh(2) encode_certificate_def signed_part_def body_part_def)
  have "length (sh_plain sh @ kCertificateSuffix) < 2 ^ 32"
    using alg(1) by (auto simp: algorithm_for_name_def kCertificateSuffix_def split: if_split_asm)
  then have name: "read_string blob = Some (sh_plain sh @ kCertificateSuffix, wire_string (sh_nonce sh) @ ?start)"
    unfolding blob by (rule read_string_wire)
  have nonce: "16 \<le> length (sh_nonce sh)" "length (sh_nonce sh) \<le> 1024" using sh(1) by (simp_all add: cert_shape_ok_def)
  then have "read_string (wire_string (sh_nonce sh) @ ?start) = Some (sh_nonce sh, ?start)" by simp
  from that [OF name this nonce fs _ alg] show ?thesis using algorithm_name_short [OF alg(1)] by (simp add: sh(3))
qed

lemma certificate_normalizes:
  assumes "parse_certificate blob = Some c" "length blob \<le> kMaxHostKeyBlobBytes"
  obtains algorithm where
    "normalize_host_key_blob blob =
       Some \<lparr>public_key_blob = c_subject_key_blob c, hk_algorithm = algorithm, hk_certificate = True\<rparr>"
    "normalize_host_key_blob (c_subject_key_blob c) =
       Some \<lparr>public_key_blob = c_subject_key_blob c, hk_algorithm = algorithm, hk_certificate = False\<rparr>"
proof -
  from assms(1) obtain algorithm plain s nonce fields_start rest where p:
    "read_string blob = Some (plain @ kCertificateSuffix, s)" "read_string s = Some (nonce, fields_start)"
    "16 \<le> length nonce" "length nonce \<le> 1024" "plain \<noteq> []" "algorithm_for_name plain = Some algorithm"
    "key_fields algorithm fields_start = Some rest"
    "c_subject_key_blob c = wire_string plain @ take (length fields_start - length rest) fields_start"
    by (rule parse_certificate_parts)
  note short = algorithm_name_short [OF p(6)]
  have cert: "certificate_algorithm (plain @ kCertificateSuffix) = Some (plain, algorithm)"
    using p(5,6) by (simp add: certificate_algorithm_def)
  have "normalize_host_key_blob blob =
      Some \<lparr>public_key_blob = c_subject_key_blob c, hk_algorithm = algorithm, hk_certificate = True\<rparr>"
    using p assms(2) cert short
    by (auto simp: normalize_host_key_blob_def normalize_certificate_key_def append_string_def read_string_def read_uint_def)
  moreover have "length (c_subject_key_blob c) \<le> kMaxHostKeyBlobBytes"
    using p(1,2,8) assms(2) by (auto simp: read_string_iff)
  then have "normalize_host_key_blob (c_subject_key_blob c) =
      Some \<lparr>public_key_blob = c_subject_key_blob c, hk_algorithm = algorithm, hk_certificate = False\<rparr>"
    using p(6,8) short plain_no_certificate [OF p(6)] by (simp add: normalize_host_key_blob_def)
  ultimately show ?thesis by (rule that)
qed

lemma fingerprint_of_normalized:
  assumes "normalize_host_key_blob blob = Some m" "normalize_host_key_blob blob' = Some m'"
    and "public_key_blob m = public_key_blob m'"
  shows "fingerprint_host_key_blob sha blob = fingerprint_host_key_blob sha blob'"
  using assms by (simp add: fingerprint_host_key_blob_def)

text \<open>The text of a fingerprint is one that the configuration and the pin store accept.\<close>

lemma fingerprint_shape:
  assumes "length digest = 32"
  shows "valid_config_fingerprint (''SHA256:'' @ base64_unpadded digest)"
    and "valid_host_key_fingerprint (''SHA256:'' @ base64_unpadded digest)"
proof -
  have "length (base64_unpadded digest) = 43" using assms by (simp add: base64_unpadded_length)
  then show "valid_config_fingerprint (''SHA256:'' @ base64_unpadded digest)"
    "valid_host_key_fingerprint (''SHA256:'' @ base64_unpadded digest)"
    using base64_unpadded_text [of digest]
    by (simp_all add: valid_config_fingerprint_def valid_host_key_fingerprint_def base64_text_def starts_with_def)
qed

subsection \<open>Samples\<close>

text \<open>A stand-in for the cryptography, an \<^verbatim>\<open>ssh-ed25519\<close> certificate and a signed list, for the witnesses.\<close>

definition sample_crypto :: crypto where
  "sample_crypto =
     \<lparr>evp_decode_block = (\<lambda>_. None), evp_key_ok = (\<lambda>_. True), ecdsa_sig_der = (\<lambda>_ _. None),
      evp_digest_verify = (\<lambda>key digest data signature. signature = take 2 data), evp_sha1 = (\<lambda>_. None), evp_sha256 = (\<lambda>_. None)\<rparr>"

definition sample_ca :: string where
  "sample_ca = wire_string ''ssh-ed25519'' @ wire_string (replicate 32 CHR ''k'')"

definition sample_shape :: cert_shape where
  "sample_shape =
     \<lparr>sh_plain = ''ssh-ed25519'', sh_nonce = replicate 16 CHR ''n'', sh_subject = [replicate 32 CHR ''s''],
      sh_serial = 7, sh_type = 2, sh_key_id = ''id'', sh_principals = [''h1''], sh_valid_after = 10,
      sh_valid_before = 20, sh_critical_options = [], sh_extensions = [], sh_reserved = [],
      sh_ca_blob = sample_ca, sh_signature_blob = wire_string ''ssh-ed25519'' @ wire_string [nul, nul]\<rparr>"

definition sample_section :: string where
  "sample_section = wire_string sample_ca @ wire_string [] @ [CHR 0x21] @ wire_string (be_bytes 8 5 @ be_bytes 8 9)"

text \<open>The list revokes the serials 5 to 9 of the CA and is signed by it.\<close>

definition sample_krl :: string where
  "sample_krl =
     kKrlMagic @ be_bytes 4 1 @ be_bytes 8 1 @ be_bytes 8 0 @ be_bytes 8 0 @ wire_string [] @ wire_string [] @
     [CHR 0x01] @ wire_string sample_section @ [CHR 0x04] @ wire_string sample_ca @ wire_string (wire_string ''ssh-ed25519'' @ wire_string ''SS'')"

definition sample_data :: krl_data where
  "sample_data = empty_krl\<lparr>kd_certificate_sections := [\<lparr>ks_ca_key = sample_ca, ks_serial_ranges = [(5, 9)],
     ks_serial_bitmaps = [], ks_key_ids = []\<rparr>]\<rparr>"

lemma krl_uint_bytes [simp]: "n < 256 ^ k \<Longrightarrow> krl_uint k (be_bytes k n @ rest) = Inr (n, rest)"
  by (simp add: krl_uint_def krl_exact_def be_value_be_bytes)

lemma krl_string_wire [simp]: "length v < 2 ^ 32 \<Longrightarrow> krl_string (wire_string v @ rest) = Inr (v, rest)"
  by (simp add: krl_string_def wire_string_def krl_exact_def)

lemmas read_string_wire_end [simp] = read_string_wire [where rest = "[]", simplified]
lemmas krl_string_wire_end [simp] = krl_string_wire [where rest = "[]", simplified]
lemmas krl_uint_bytes_end [simp] = krl_uint_bytes [where rest = "[]", simplified]

lemma krl_uint_byte [simp]: "krl_uint (Suc 0) (c # rest) = Inr (byte c, rest)"
  by (simp add: krl_uint_def krl_exact_def be_value_def)

lemma sample_ca_key: "parse_key_blob sample_crypto sample_ca = Some (Ed25519Key (replicate 32 CHR ''k''))"
  unfolding sample_ca_def by (simp add: parse_key_blob_def build_key_def sample_crypto_def)

lemma sample_ca_length: "length sample_ca = 51"
  by (simp add: sample_ca_def)

lemma sample_section_parses:
  "parse_certificate_krl_section sample_section =
     Inr \<lparr>ks_ca_key = sample_ca, ks_serial_ranges = [(5, 9)], ks_serial_bitmaps = [], ks_key_ids = []\<rparr>"
proof -
  have "subsection_item (CHR 0x21 # wire_string (be_bytes 8 5 @ be_bytes 8 9)) =
      Inr (no_additions\<lparr>ks_serial_ranges := [(5, 9)]\<rparr>, [])"
    by (simp add: subsection_item_def parse_subsection_data_def parse_krl_range_def krl_finish_def check_that_def byte_def)
  then show ?thesis
    by (simp add: parse_certificate_krl_section_def sample_section_def sample_ca_length krl_items.simps collect_section_def no_additions_def)
qed

definition sample_signature :: krl_signature where
  "sample_signature =
     \<lparr>sig_signed_length = 185, sig_key_blob = sample_ca,
      sig_signature_blob = wire_string ''ssh-ed25519'' @ wire_string ''SS''\<rparr>"

lemma sample_section_length: "length sample_section = 80"
  by (simp add: sample_section_def sample_ca_length)

lemma sample_krl_length: "length sample_krl = 210"
  by (simp add: sample_krl_def sample_ca_length sample_section_length kKrlMagic_def)

lemma sample_signature_valid: "signature_valid sample_crypto sample_krl sample_signature"
proof -
  have "read_string sample_ca = Some (''ssh-ed25519'', wire_string (replicate 32 CHR ''k''))"
    by (simp add: sample_ca_def)
  then show ?thesis
    by (simp add: signature_valid_def sample_signature_def sample_ca_key verify_signature_def two_strings_def
        signature_digest_def signature_bytes_def starts_with_def sample_krl_length)
       (simp add: sample_crypto_def sample_krl_def kKrlMagic_def)
qed

lemma sample_header:
  "parse_krl_header sample_krl =
     Inr ([CHR 0x01] @ wire_string sample_section @ [CHR 0x04] @ wire_string sample_ca @
       wire_string (wire_string ''ssh-ed25519'' @ wire_string ''SS''))"
  by (simp add: parse_krl_header_def sample_krl_def krl_exact_def)

lemma sample_parts:
  "parse_krl_parts sample_crypto 210 empty_krl []
     ([CHR 0x01] @ wire_string sample_section @ [CHR 0x04] @ wire_string sample_ca @
       wire_string (wire_string ''ssh-ed25519'' @ wire_string ''SS'')) = Inr (sample_data, [sample_signature])"
proof -
  have "parse_krl_section 1 sample_section empty_krl = Inr sample_data"
    by (simp add: parse_krl_section_def sample_section_parses sample_data_def empty_krl_def)
  moreover have "parse_krl_signature sample_crypto 210 [] (wire_string sample_ca @
      wire_string (wire_string ''ssh-ed25519'' @ wire_string ''SS'')) = Inr (sample_signature, [])"
    by (simp add: parse_krl_signature_def sample_ca_length sample_ca_key canonical_signature_def two_strings_def
        starts_with_def sample_signature_def)
  ultimately show ?thesis
    by (simp add: parse_krl_parts.simps sample_section_length byte_def)
qed

lemma sample_krl_parses: "parse_krl sample_crypto sample_krl [] sample_ca = Inr sample_data"
  using sample_signature_valid
  by (simp add: parse_krl_def sample_header sample_parts [simplified] sample_krl_length kMaxKrlBytes_def)
    (simp add: sample_signature_def)

lemma sample_shape_ok: "cert_shape_ok sample_shape"
  by (simp add: cert_shape_ok_def sample_shape_def subject_ok_def sample_ca_length)

lemma sample_size: "length (encode_certificate sample_shape) \<le> kMaxHostKeyBlobBytes"
  by (simp add: encode_certificate_def signed_part_def sample_shape_def sample_ca_length kMaxHostKeyBlobBytes_def kCertificateSuffix_def)

definition section_revokes :: "string \<Rightarrow> string \<Rightarrow> nat \<Rightarrow> krl_section \<Rightarrow> bool" where
  "section_revokes ca_key key_id serial s \<longleftrightarrow>
     section_applies ca_key s \<and> (key_id \<in> set (ks_key_ids s) \<or> (serial \<noteq> 0 \<and> serial \<in> section_serials s))"

subsection \<open>Properties\<close>

text \<open>C9: A host certificate is accepted exactly when it should be: the patterns are valid, the CA line
  and its key parse, the blob is the encoding of a well-formed certificate of at most 1 MiB, the
  certificate is a host certificate with no critical option that this CA signed over exactly the
  bytes before the signature, the clock is inside its validity, one principal matches a pattern,
  the texts are UTF-8, and where a revocation list is configured it parses and revokes neither
  the key, the CA, the key identifier nor the serial.\<close>

theorem certificate_acceptance:
  "verify_host_certificate_with_krl cr now blob ca_line allowed krl signers = Inr () \<longleftrightarrow>
   length blob \<le> kMaxCertificateBytes \<and> principals_ok allowed \<and>
   (\<exists>ca_blob key sh. parse_authorized_key cr ca_line = Some ca_blob \<and> parse_key_blob cr ca_blob = Some key \<and>
      cert_shape_ok sh \<and> blob = encode_certificate sh \<and> fields_trusted cr now ca_blob key allowed sh \<and>
      (krl = [] \<or> krl_passes cr krl signers ca_blob sh))"
  by (rule verify_host_certificate_iff)

text \<open>C38: The certificate parser is strict: it accepts a blob exactly when the blob is the encoding of
  well-formed fields, with nothing missing, out of range or left over, and then it returns those
  fields, with the signed length that covers everything before the signature.\<close>

theorem certificate_strict:
  "parse_certificate blob = Some c \<longleftrightarrow>
   (\<exists>sh. cert_shape_ok sh \<and> blob = signed_part sh @ wire_string (sh_signature_blob sh) \<and> c = certificate_of sh \<and>
      take (c_signed_length c) blob = signed_part sh)"
  using take_signed_part by (auto simp: parse_certificate_iff encode_certificate_def)

text \<open>The table of \<^verbatim>\<open>principal_matches\<close> computes glob matching: for texts of at most 253 bytes it
  agrees with the recursive matcher in which \<open>*\<close> stands for any text, \<open>?\<close> for one character and
  any other character for itself regardless of case; longer texts never match.\<close>

theorem principal_matching:
  "principal_matches glob value \<longleftrightarrow> length glob \<le> 253 \<and> length value \<le> 253 \<and> glob_matches glob value"
  by (rule principal_matches_glob)

text \<open>\<^verbatim>\<open>valid_utf8\<close> accepts exactly UTF-8: a byte string passes if and only if it is the
  concatenation of the encodings of Unicode scalar values, so overlong forms, surrogates, values
  above U+10FFFF, stray and missing continuation bytes are all refused.\<close>

theorem utf8_exact:
  "valid_utf8 s \<longleftrightarrow> (\<exists>cps. list_all scalar_value cps \<and> s = concat (map utf8_encode cps))"
  by (rule valid_utf8_iff)

text \<open>C17: Revocation is membership: a certificate passes a list exactly when neither its key nor its CA
  is listed and no section for its CA (or for every CA) holds its key identifier or its serial,
  where the serials of a section are the union of its ranges and, for each bitmap, of the set bits
  of the big-endian number shifted by the offset; the serial zero is never revoked.\<close>

theorem revocation_decision:
  "revoked_reason cr krl subject_key ca_key key_id serial = None \<longleftrightarrow>
   \<not> key_is_revoked cr krl subject_key \<and> \<not> key_is_revoked cr krl ca_key \<and>
   \<not> list_ex (section_revokes ca_key key_id serial) (kd_certificate_sections krl)"
  by (auto simp: not_revoked_iff section_revokes_def list_ex_iff)

text \<open>C19: A revocation list that parses is, byte for byte, a header, sections and then signatures, and what it
  revokes is read from exactly these sections.  The signatures at its end are at most 16, by
  different keys, every one of them canonically encoded and verified by its own key over all the bytes up
  to and including that key, and where there is one, some signature is by the CA or a configured signer, whose
  lines all parse.  What is revoked is well formed: every serial is between 1 and \<open>2 ^ 64 - 1\<close> and
  fingerprints have the size of their digest.\<close>

theorem krl_trust:
  assumes "parse_krl cr bytes signers ca_blob = Inr krl"
  shows "krl_ok krl \<and> (\<Union>s\<in>set (kd_certificate_sections krl). section_serials s) \<subseteq> {0<..<2 ^ 64} \<and>
    length bytes \<le> kMaxKrlBytes \<and>
    (\<exists>l. bytes = encode_krl l \<and> list_all (\<lambda>p. fst p \<noteq> 4) (kl_sections l) \<and>
       load_sections (kl_sections l) empty_krl = Inr krl \<and> layout_trusted cr signers ca_blob l)"
proof -
  from assms have "length bytes \<le> kMaxKrlBytes" "krl_ok krl"
    using parse_krl_parts_ok [OF _ empty_krl_ok] by (auto simp: parse_krl_iff)
  moreover from this have "(\<Union>s\<in>set (kd_certificate_sections krl). section_serials s) \<subseteq> {0<..<2 ^ 64}"
    using section_serials_ok by (auto simp: krl_ok_def list_all_iff)
  ultimately show ?thesis using parse_krl_layout [OF assms] by metis
qed

theorem krl_trust_witness:
  "parse_krl sample_crypto sample_krl [] sample_ca = Inr sample_data \<and> krl_ok sample_data \<and>
   (\<exists>l. sample_krl = encode_krl l \<and> load_sections (kl_sections l) empty_krl = Inr sample_data \<and>
      layout_trusted sample_crypto [] sample_ca l)"
  using sample_krl_parses krl_trust [OF sample_krl_parses] by blast

text \<open>The loops of the list parser end: the parser is total, and its rejections are the
  exceptions of the source.  The empty message, the model's guard against an item that consumes
  nothing, is never reported, because each item reader makes its input shorter.\<close>

theorem krl_loops_end:
  "parse_krl cr bytes signers ca_blob \<noteq> Inl [] \<and> parse_certificate_krl_section bytes \<noteq> Inl [] \<and>
   parse_krl_section type bytes krl \<noteq> Inl []"
  by (simp add: parse_krl_loud parse_certificate_krl_section_loud parse_krl_section_loud)

text \<open>A pin of a plain host key also covers its certificate: the fingerprint of a certificate blob is
  the fingerprint of the plain key inside it, the one the revocation test sees; and when the hash
  gives 32 bytes, the fingerprint is a text that the configuration and the pin store accept.\<close>

theorem certificate_fingerprint:
  assumes "parse_certificate blob = Some c" "length blob \<le> kMaxHostKeyBlobBytes"
    and "sha (c_subject_key_blob c) = Some digest" "length digest = 32"
  shows "fingerprint_host_key_blob sha blob = fingerprint_host_key_blob sha (c_subject_key_blob c) \<and>
    valid_config_fingerprint (fingerprint_host_key_blob sha blob) \<and>
    valid_host_key_fingerprint (fingerprint_host_key_blob sha blob)"
proof -
  obtain algorithm where n: "normalize_host_key_blob blob =
      Some \<lparr>public_key_blob = c_subject_key_blob c, hk_algorithm = algorithm, hk_certificate = True\<rparr>"
    "normalize_host_key_blob (c_subject_key_blob c) =
      Some \<lparr>public_key_blob = c_subject_key_blob c, hk_algorithm = algorithm, hk_certificate = False\<rparr>"
    using certificate_normalizes [OF assms(1,2)] .
  then have "fingerprint_host_key_blob sha blob = ''SHA256:'' @ base64_unpadded digest"
    using assms(3) by (simp add: fingerprint_host_key_blob_def)
  moreover have "fingerprint_host_key_blob sha blob = fingerprint_host_key_blob sha (c_subject_key_blob c)"
    using fingerprint_of_normalized [OF n] by simp
  ultimately show ?thesis using fingerprint_shape [OF assms(4)] by simp
qed

theorem certificate_fingerprint_witness:
  "parse_certificate (encode_certificate sample_shape) = Some (certificate_of sample_shape) \<and>
   valid_host_key_fingerprint (fingerprint_host_key_blob (\<lambda>_. Some (replicate 32 CHR ''d'')) (encode_certificate sample_shape))"
proof -
  have p: "parse_certificate (encode_certificate sample_shape) = Some (certificate_of sample_shape)"
    using sample_shape_ok parse_certificate_iff by blast
  from certificate_fingerprint [OF p sample_size, of "\<lambda>_. Some (replicate 32 CHR ''d'')", OF refl length_replicate] p
  show ?thesis by blast
qed

end
