(* ===== verification/TransferTypes.thy ===== *)
theory TransferTypes
  imports Json Digits
begin

text \<open>
  The shared vocabulary of file transfers
  (\<^verbatim>\<open>src/native/desktop_host/src/transfer_types.cpp\<close> and its header): the enums with their
  wire names, the failure kind of each error code, the 19-field \<^verbatim>\<open>TransferSnapshot\<close> and
  the host-private staging inventory with their JSON encoders and decoders, the parser of a
  conflict decision, transfer identifiers, and the name and path rules that keep a transfer
  inside its destination.  A decoder that throws is \<^term>\<open>None\<close> where the sources have one
  message for every violation, and an error constructor where they have several.
\<close>

subsection \<open>Enums and their wire names\<close>

datatype transfer_direction = Upload | Download

datatype transfer_status =
    Queued | Running | WaitingConflict | Completed | Partial | Failed | Cancelled | Interrupted

datatype conflict_policy = AskPolicy | SkipPolicy | OverwritePolicy

datatype conflict_action_kind = SkipAction | OverwriteAction | RenameAction

datatype transfer_failure_kind = InvalidInput | LocalIo | RemoteIo | Verification | Unsupported

datatype transfer_error_code =
    ErrInvalidInput | ErrLocal | ErrRemote | ErrAlreadyExists | ErrUnsupported | ErrSourceChanged
  | ErrVerification | ErrCancelled | ErrBusy | ErrShuttingDown

fun direction_string :: "transfer_direction \<Rightarrow> string" where
  "direction_string Upload = ''upload''"
| "direction_string Download = ''download''"

fun status_string :: "transfer_status \<Rightarrow> string" where
  "status_string Queued = ''queued''"
| "status_string Running = ''running''"
| "status_string WaitingConflict = ''waitingConflict''"
| "status_string Completed = ''completed''"
| "status_string Partial = ''partial''"
| "status_string Failed = ''failed''"
| "status_string Cancelled = ''cancelled''"
| "status_string Interrupted = ''interrupted''"

fun policy_string :: "conflict_policy \<Rightarrow> string" where
  "policy_string AskPolicy = ''ask''"
| "policy_string SkipPolicy = ''skip''"
| "policy_string OverwritePolicy = ''overwrite''"

fun action_string :: "conflict_action_kind \<Rightarrow> string" where
  "action_string SkipAction = ''skip''"
| "action_string OverwriteAction = ''overwrite''"
| "action_string RenameAction = ''rename''"

fun failure_kind_string :: "transfer_failure_kind \<Rightarrow> string" where
  "failure_kind_string InvalidInput = ''invalidInput''"
| "failure_kind_string LocalIo = ''localIo''"
| "failure_kind_string RemoteIo = ''remoteIo''"
| "failure_kind_string Verification = ''verification''"
| "failure_kind_string Unsupported = ''unsupported''"

definition parse_transfer_direction :: "string \<Rightarrow> transfer_direction option" where
  "parse_transfer_direction value =
     (if value = ''upload'' then Some Upload
      else if value = ''download'' then Some Download
      else None)"

definition parse_transfer_status :: "string \<Rightarrow> transfer_status option" where
  "parse_transfer_status value =
     (if value = ''queued'' then Some Queued
      else if value = ''running'' then Some Running
      else if value = ''waitingConflict'' then Some WaitingConflict
      else if value = ''completed'' then Some Completed
      else if value = ''partial'' then Some Partial
      else if value = ''failed'' then Some Failed
      else if value = ''cancelled'' then Some Cancelled
      else if value = ''interrupted'' then Some Interrupted
      else None)"

definition parse_conflict_policy :: "string \<Rightarrow> conflict_policy option" where
  "parse_conflict_policy value =
     (if value = ''ask'' then Some AskPolicy
      else if value = ''skip'' then Some SkipPolicy
      else if value = ''overwrite'' then Some OverwritePolicy
      else None)"

definition parse_conflict_action_kind :: "string \<Rightarrow> conflict_action_kind option" where
  "parse_conflict_action_kind value =
     (if value = ''skip'' then Some SkipAction
      else if value = ''overwrite'' then Some OverwriteAction
      else if value = ''rename'' then Some RenameAction
      else None)"

definition parse_transfer_failure_kind :: "string \<Rightarrow> transfer_failure_kind option" where
  "parse_transfer_failure_kind value =
     (if value = ''invalidInput'' then Some InvalidInput
      else if value = ''localIo'' then Some LocalIo
      else if value = ''remoteIo'' then Some RemoteIo
      else if value = ''verification'' then Some Verification
      else if value = ''unsupported'' then Some Unsupported
      else None)"

definition is_terminal :: "transfer_status \<Rightarrow> bool" where
  "is_terminal status = (case status of
      Completed \<Rightarrow> True | Partial \<Rightarrow> True | Failed \<Rightarrow> True | Cancelled \<Rightarrow> True | Interrupted \<Rightarrow> True
    | Queued \<Rightarrow> False | Running \<Rightarrow> False | WaitingConflict \<Rightarrow> False)"

text \<open>\<^verbatim>\<open>TransferError::failure_kind\<close>.\<close>

fun failure_kind :: "transfer_error_code \<Rightarrow> transfer_failure_kind" where
  "failure_kind ErrInvalidInput = InvalidInput"
| "failure_kind ErrLocal = LocalIo"
| "failure_kind ErrBusy = LocalIo"
| "failure_kind ErrShuttingDown = LocalIo"
| "failure_kind ErrSourceChanged = LocalIo"
| "failure_kind ErrRemote = RemoteIo"
| "failure_kind ErrAlreadyExists = RemoteIo"
| "failure_kind ErrCancelled = RemoteIo"
| "failure_kind ErrUnsupported = Unsupported"
| "failure_kind ErrVerification = Verification"

subsection \<open>The records\<close>

record conflict_request =
  cr_item_index :: "64 word"
  cr_source_name :: string
  cr_target_name :: string
  cr_existing_size :: "64 word"
  cr_incoming_size :: "64 word"
  cr_existing_modified :: "64 word option"
  cr_allowed_actions :: "conflict_action_kind list"

record item_failure =
  if_item_index :: "64 word option"
  if_item :: string
  if_kind :: transfer_failure_kind
  if_message :: string
  if_staging_residue :: "string option"

record conflict_action =
  ca_kind :: conflict_action_kind
  ca_rename_to :: string

record transfer_snapshot =
  sn_transfer_id :: string
  sn_server_id :: string
  sn_direction :: transfer_direction
  sn_status :: transfer_status
  sn_started_at :: "64 word"
  sn_updated_at :: "64 word"
  sn_total_files :: "64 word option"
  sn_completed_files :: "64 word"
  sn_skipped_files :: "64 word"
  sn_total_bytes :: "64 word option"
  sn_transferred_bytes :: "64 word"
  sn_current_item :: "string option"
  sn_current_item_bytes :: "64 word"
  sn_current_item_total_bytes :: "64 word option"
  sn_active_conflict :: "conflict_request option"
  sn_verified_files :: "64 word"
  sn_unverified_files :: "64 word"
  sn_failures :: "item_failure list"
  sn_staging_residue :: "string list"

record staging_file =
  sf_remote :: bool
  sf_path :: string
  sf_server_id :: string
  sf_item_index :: "64 word"


subsection \<open>Encoders\<close>

fun nullable_number :: "64 word option \<Rightarrow> json" where
  "nullable_number (Some w) = JUnsigned w"
| "nullable_number None = JNull"

fun nullable_string :: "string option \<Rightarrow> json" where
  "nullable_string (Some s) = JString s"
| "nullable_string None = JNull"

text \<open>A field that is only written when it has a value (\<^verbatim>\<open>if (x.has_value()) value["k"] = *x\<close>).\<close>

fun optional_field :: "string \<Rightarrow> ('a \<Rightarrow> json) \<Rightarrow> 'a option \<Rightarrow> (string \<times> json) list" where
  "optional_field k mk (Some x) = [(k, mk x)]"
| "optional_field k mk None = []"

definition transfer_item_failure_json :: "item_failure \<Rightarrow> json" where
  "transfer_item_failure_json failure =
     JObject ([(''item'', JString (if_item failure)),
               (''kind'', JString (failure_kind_string (if_kind failure))),
               (''message'', JString (if_message failure))]
       @ optional_field ''itemIndex'' JUnsigned (if_item_index failure)
       @ optional_field ''stagingResidue'' JString (if_staging_residue failure))"

definition conflict_request_json :: "conflict_request \<Rightarrow> json" where
  "conflict_request_json request =
     JObject [(''itemIndex'', JUnsigned (cr_item_index request)),
              (''sourceName'', JString (cr_source_name request)),
              (''targetName'', JString (cr_target_name request)),
              (''existingSize'', JUnsigned (cr_existing_size request)),
              (''incomingSize'', JUnsigned (cr_incoming_size request)),
              (''existingModifiedEpochSeconds'', nullable_number (cr_existing_modified request)),
              (''allowedActions'', JArray (map (\<lambda>kind. JString (action_string kind)) (cr_allowed_actions request)))]"

definition transfer_snapshot_json :: "transfer_snapshot \<Rightarrow> json" where
  "transfer_snapshot_json snapshot =
     JObject [(''transferId'', JString (sn_transfer_id snapshot)),
              (''serverId'', JString (sn_server_id snapshot)),
              (''direction'', JString (direction_string (sn_direction snapshot))),
              (''status'', JString (status_string (sn_status snapshot))),
              (''startedAtEpochMs'', JUnsigned (sn_started_at snapshot)),
              (''updatedAtEpochMs'', JUnsigned (sn_updated_at snapshot)),
              (''totalFiles'', nullable_number (sn_total_files snapshot)),
              (''completedFiles'', JUnsigned (sn_completed_files snapshot)),
              (''skippedFiles'', JUnsigned (sn_skipped_files snapshot)),
              (''totalBytes'', nullable_number (sn_total_bytes snapshot)),
              (''transferredBytes'', JUnsigned (sn_transferred_bytes snapshot)),
              (''currentItem'', nullable_string (sn_current_item snapshot)),
              (''currentItemBytes'', JUnsigned (sn_current_item_bytes snapshot)),
              (''currentItemTotalBytes'', nullable_number (sn_current_item_total_bytes snapshot)),
              (''activeConflict'',
                 (case sn_active_conflict snapshot of
                    Some conflict \<Rightarrow> conflict_request_json conflict | None \<Rightarrow> JNull)),
              (''verifiedFiles'', JUnsigned (sn_verified_files snapshot)),
              (''unverifiedFiles'', JUnsigned (sn_unverified_files snapshot)),
              (''failures'', JArray (map transfer_item_failure_json (sn_failures snapshot))),
              (''stagingResidue'', JArray (map JString (sn_staging_residue snapshot)))]"

definition transfer_staging_file_json :: "staging_file \<Rightarrow> json" where
  "transfer_staging_file_json staging =
     JObject ([(''location'', JString (if sf_remote staging then ''remote'' else ''local'')),
               (''path'', JString (sf_path staging)),
               (''itemIndex'', JUnsigned (sf_item_index staging))]
       @ (if sf_remote staging then [(''serverId'', JString (sf_server_id staging))] else []))"

definition transfer_staging_json :: "staging_file list \<Rightarrow> json list" where
  "transfer_staging_json staging = map transfer_staging_file_json staging"

subsection \<open>Decoders\<close>

text \<open>
  \<^verbatim>\<open>item->get<std::uint64_t>()\<close> converts the stored integer without a range check, so a
  negative item index is read modulo \<^term>\<open>(2::nat) ^ 64\<close>; \<^verbatim>\<open>required_count\<close> below does check.
\<close>

definition transfer_staging_file_from_json :: "json \<Rightarrow> staging_file option" where
  "transfer_staging_file_from_json value =
     (if \<not> is_object value then None
      else do {
        location \<leftarrow> find_string value ''location'';
        remote \<leftarrow> (if location = ''local'' then Some False
                   else if location = ''remote'' then Some True else None);
        path \<leftarrow> find_string value ''path'';
        item \<leftarrow> obj_find value ''itemIndex'';
        (if is_number_unsigned item \<or> is_number_integer item then Some () else None);
        server_id \<leftarrow> (if remote then find_string value ''serverId'' else Some []);
        Some \<lparr>sf_remote = remote, sf_path = path, sf_server_id = server_id,
              sf_item_index = get_word item\<rparr>
      })"

definition transfer_staging_from_json :: "json \<Rightarrow> staging_file list option" where
  "transfer_staging_from_json value =
     (case value of JArray entries \<Rightarrow> traverse transfer_staging_file_from_json entries | _ \<Rightarrow> None)"

definition required_count :: "json \<Rightarrow> string \<Rightarrow> 64 word option" where
  "required_count value key =
     (case obj_find value key of
        Some (JUnsigned w) \<Rightarrow> Some w
      | Some (JInt w) \<Rightarrow> (if 0 \<le> sint w then Some w else None)
      | _ \<Rightarrow> None)"

definition nullable_count :: "json \<Rightarrow> string \<Rightarrow> 64 word option option" where
  "nullable_count value key =
     (case obj_find value key of
        None \<Rightarrow> Some None
      | Some JNull \<Rightarrow> Some None
      | Some _ \<Rightarrow> map_option Some (required_count value key))"

definition nullable_text :: "json \<Rightarrow> string \<Rightarrow> string option option" where
  "nullable_text value key =
     (case obj_find value key of
        None \<Rightarrow> Some None
      | Some JNull \<Rightarrow> Some None
      | Some (JString s) \<Rightarrow> Some (Some s)
      | Some _ \<Rightarrow> None)"

definition required_array :: "json \<Rightarrow> string \<Rightarrow> json list option" where
  "required_array value key =
     (case obj_find value key of Some (JArray xs) \<Rightarrow> Some xs | _ \<Rightarrow> None)"

definition text_entry :: "json \<Rightarrow> string option" where
  "text_entry v = (case v of JString s \<Rightarrow> Some s | _ \<Rightarrow> None)"

definition conflict_request_from_json :: "json \<Rightarrow> conflict_request option" where
  "conflict_request_from_json value =
     (if \<not> is_object value then None
      else do {
        item_index \<leftarrow> required_count value ''itemIndex'';
        source_name \<leftarrow> find_string value ''sourceName'';
        target_name \<leftarrow> find_string value ''targetName'';
        existing_size \<leftarrow> required_count value ''existingSize'';
        incoming_size \<leftarrow> required_count value ''incomingSize'';
        modified \<leftarrow> nullable_count value ''existingModifiedEpochSeconds'';
        actions \<leftarrow> required_array value ''allowedActions'';
        kinds \<leftarrow> traverse (\<lambda>action. Option.bind (text_entry action) parse_conflict_action_kind) actions;
        Some \<lparr>cr_item_index = item_index, cr_source_name = source_name, cr_target_name = target_name,
              cr_existing_size = existing_size, cr_incoming_size = incoming_size,
              cr_existing_modified = modified, cr_allowed_actions = kinds\<rparr>
      })"

definition transfer_item_failure_from_json :: "json \<Rightarrow> item_failure option" where
  "transfer_item_failure_from_json value =
     (if \<not> is_object value then None
      else do {
        item_index \<leftarrow> nullable_count value ''itemIndex'';
        item \<leftarrow> find_string value ''item'';
        kind_text \<leftarrow> find_string value ''kind'';
        kind \<leftarrow> parse_transfer_failure_kind kind_text;
        message \<leftarrow> find_string value ''message'';
        residue \<leftarrow> nullable_text value ''stagingResidue'';
        Some \<lparr>if_item_index = item_index, if_item = item, if_kind = kind, if_message = message,
              if_staging_residue = residue\<rparr>
      })"

definition nullable_conflict :: "json \<Rightarrow> conflict_request option option" where
  "nullable_conflict value =
     (case obj_find value ''activeConflict'' of
        None \<Rightarrow> Some None
      | Some JNull \<Rightarrow> Some None
      | Some conflict \<Rightarrow> map_option Some (conflict_request_from_json conflict))"

definition transfer_snapshot_from_json :: "json \<Rightarrow> transfer_snapshot option" where
  "transfer_snapshot_from_json value =
     (if \<not> is_object value then None
      else do {
        transfer_id \<leftarrow> find_string value ''transferId'';
        server_id \<leftarrow> find_string value ''serverId'';
        direction_text \<leftarrow> find_string value ''direction'';
        direction \<leftarrow> parse_transfer_direction direction_text;
        status_text \<leftarrow> find_string value ''status'';
        status \<leftarrow> parse_transfer_status status_text;
        started_at \<leftarrow> required_count value ''startedAtEpochMs'';
        updated_at \<leftarrow> required_count value ''updatedAtEpochMs'';
        total_files \<leftarrow> nullable_count value ''totalFiles'';
        completed_files \<leftarrow> required_count value ''completedFiles'';
        skipped_files \<leftarrow> required_count value ''skippedFiles'';
        total_bytes \<leftarrow> nullable_count value ''totalBytes'';
        transferred_bytes \<leftarrow> required_count value ''transferredBytes'';
        current_item \<leftarrow> nullable_text value ''currentItem'';
        current_item_bytes \<leftarrow> required_count value ''currentItemBytes'';
        current_item_total_bytes \<leftarrow> nullable_count value ''currentItemTotalBytes'';
        active_conflict \<leftarrow> nullable_conflict value;
        verified_files \<leftarrow> required_count value ''verifiedFiles'';
        unverified_files \<leftarrow> required_count value ''unverifiedFiles'';
        failure_entries \<leftarrow> required_array value ''failures'';
        failures \<leftarrow> traverse transfer_item_failure_from_json failure_entries;
        residue_entries \<leftarrow> required_array value ''stagingResidue'';
        residue \<leftarrow> traverse text_entry residue_entries;
        Some \<lparr>sn_transfer_id = transfer_id, sn_server_id = server_id, sn_direction = direction,
              sn_status = status, sn_started_at = started_at, sn_updated_at = updated_at,
              sn_total_files = total_files, sn_completed_files = completed_files,
              sn_skipped_files = skipped_files, sn_total_bytes = total_bytes,
              sn_transferred_bytes = transferred_bytes, sn_current_item = current_item,
              sn_current_item_bytes = current_item_bytes,
              sn_current_item_total_bytes = current_item_total_bytes,
              sn_active_conflict = active_conflict, sn_verified_files = verified_files,
              sn_unverified_files = unverified_files, sn_failures = failures,
              sn_staging_residue = residue\<rparr>
      })"

text \<open>A fresh snapshot; \<open>now\<close> is the system clock in milliseconds since the epoch.\<close>

definition epoch_millis :: "int \<Rightarrow> 64 word" where
  "epoch_millis now = (if now < 0 then 0 else word_of_int now)"

definition new_transfer_snapshot :: "int \<Rightarrow> string \<Rightarrow> string \<Rightarrow> transfer_direction \<Rightarrow> transfer_snapshot" where
  "new_transfer_snapshot now transfer_id server_id direction =
     \<lparr>sn_transfer_id = transfer_id, sn_server_id = server_id, sn_direction = direction,
      sn_status = Queued, sn_started_at = epoch_millis now, sn_updated_at = epoch_millis now,
      sn_total_files = None, sn_completed_files = 0, sn_skipped_files = 0, sn_total_bytes = None,
      sn_transferred_bytes = 0, sn_current_item = None, sn_current_item_bytes = 0,
      sn_current_item_total_bytes = None, sn_active_conflict = None, sn_verified_files = 0,
      sn_unverified_files = 0, sn_failures = [], sn_staging_residue = []\<rparr>"


subsection \<open>Names, paths and identifiers\<close>

datatype transfer_input_error =
    UnsafeName | InvalidRemotePath | InvalidConflictAction | InvalidConflictRename

definition max_remote_path_chars :: nat where "max_remote_path_chars = 4096"

definition max_rename_name_chars :: nat where "max_rename_name_chars = 255"

definition utf8_char_length :: "string \<Rightarrow> nat" where
  "utf8_char_length value = length (filter (\<lambda>c. (byte c AND 0xC0) \<noteq> 0x80) value)"

definition reserved_names :: "string list" where
  "reserved_names =
     [''CON'', ''PRN'', ''AUX'', ''NUL'', ''COM1'', ''COM2'', ''COM3'', ''COM4'', ''COM5'', ''COM6'',
      ''COM7'', ''COM8'', ''COM9'', ''LPT1'', ''LPT2'', ''LPT3'', ''LPT4'', ''LPT5'', ''LPT6'', ''LPT7'',
      ''LPT8'', ''LPT9'']"

definition unsafe_name_byte :: "char \<Rightarrow> bool" where
  "unsafe_name_byte c \<longleftrightarrow>
     control_byte c \<or> c = CHR ''/'' \<or> c = CHR 0x5C \<or> c = CHR '':''"

definition name_stem :: "string \<Rightarrow> string" where
  "name_stem name = take (case find_char (CHR ''.'') name of None \<Rightarrow> length name | Some dot \<Rightarrow> dot) name"

definition validate_safe_name :: "string \<Rightarrow> transfer_input_error + unit" where
  "validate_safe_name name =
     (if name = [] \<or> name = ''.'' \<or> name = ''..'' then Inl UnsafeName
      else if list_ex unsafe_name_byte name then Inl UnsafeName
      else if last name = CHR '' '' \<or> last name = CHR ''.'' then Inl UnsafeName
      else if map to_upper (name_stem name) \<in> set reserved_names then Inl UnsafeName
      else Inr ())"

definition validate_transfer_remote_path :: "string \<Rightarrow> transfer_input_error + unit" where
  "validate_transfer_remote_path path =
     (if path = [] \<or> max_remote_path_chars < utf8_char_length path \<or> hd path \<noteq> CHR ''/''
      then Inl InvalidRemotePath
      else if CHR 0x00 \<in> set path \<or> CHR 0x0D \<in> set path \<or> CHR 0x0A \<in> set path
      then Inl InvalidRemotePath
      else if CHR 0x5C \<in> set path \<or> find_sub ''//'' path \<noteq> None then Inl InvalidRemotePath
      else if list_ex (\<lambda>segment. segment = ''.'' \<or> segment = ''..'') (split_on (CHR ''/'') path)
      then Inl InvalidRemotePath
      else Inr ())"

definition join_child :: "string \<Rightarrow> string \<Rightarrow> string" where
  "join_child parent name =
     (if parent = ''/'' then ''/'' @ name
      else if last parent = CHR ''/'' then parent @ name
      else parent @ ''/'' @ name)"

definition remote_child :: "string \<Rightarrow> string \<Rightarrow> transfer_input_error + string" where
  "remote_child parent name =
     res_bind (validate_safe_name name) (\<lambda>_.
     res_bind (validate_transfer_remote_path parent) (\<lambda>_.
     res_bind (validate_transfer_remote_path (join_child parent name)) (\<lambda>_.
       Inr (join_child parent name))))"

definition conflict_action_from_json :: "json \<Rightarrow> transfer_input_error + conflict_action" where
  "conflict_action_from_json value =
     (if \<not> is_object value then Inl InvalidConflictAction
      else case find_string value ''action'' of
        None \<Rightarrow> Inl InvalidConflictAction
      | Some action \<Rightarrow>
          if action = ''skip'' then Inr \<lparr>ca_kind = SkipAction, ca_rename_to = []\<rparr>
          else if action = ''overwrite'' then Inr \<lparr>ca_kind = OverwriteAction, ca_rename_to = []\<rparr>
          else if action \<noteq> ''rename'' then Inl InvalidConflictAction
          else case find_string value ''name'' of
            None \<Rightarrow> Inl InvalidConflictRename
          | Some rename_to \<Rightarrow>
              if max_rename_name_chars < length rename_to then Inl InvalidConflictRename
              else res_bind (validate_safe_name rename_to)
                (\<lambda>_. Inr \<lparr>ca_kind = RenameAction, ca_rename_to = rename_to\<rparr>))"

text \<open>
  \<^verbatim>\<open>new_transfer_id\<close>: the process id, the clock and an atomic counter, which the call
  advances.  \<^verbatim>\<open>std::hex\<close> prints the clock's two's-complement bits.
\<close>

definition new_transfer_id :: "64 word \<Rightarrow> 64 word \<Rightarrow> 64 word \<Rightarrow> string \<times> 64 word" where
  "new_transfer_id process nanos sequence =
     (''tr_'' @ hexadecimal (unat process) @ ''_'' @ hexadecimal (unat nanos) @ ''_'' @
        decimal (unat sequence),
      sequence + 1)"

definition staging_owner :: "string \<Rightarrow> string" where
  "staging_owner transfer_id = filter (\<lambda>c. c \<noteq> CHR ''-'') transfer_id"

text \<open>The base name the host gives a staging file, and the test it applies before unlinking one.\<close>

definition stage_name :: "string \<Rightarrow> string \<Rightarrow> nat \<Rightarrow> nat \<Rightarrow> string" where
  "stage_name transfer_id name item_index attempt =
     ''.'' @ name @ ''.yukinal-'' @ staging_owner transfer_id @ ''-'' @ decimal item_index @ ''-'' @
     decimal attempt @ ''.part''"

definition is_owned_staging_name :: "string \<Rightarrow> string \<Rightarrow> bool" where
  "is_owned_staging_name name transfer_id =
     (case rfind_sub ''.yukinal-'' name of
        None \<Rightarrow> False
      | Some position \<Rightarrow>
          position \<noteq> 0 \<and>
          (let suffix = drop (position + 9) name in
             5 < length suffix \<and> ends_with ''.part'' suffix \<and>
             (case split_on (CHR ''-'') (take (length suffix - 5) suffix) of
                [owner, item, attempt] \<Rightarrow>
                  owner = staging_owner transfer_id \<and> is_digit_sequence item \<and> is_digit_sequence attempt
              | _ \<Rightarrow> False)))"

end
