(* ===== verification/TransferProps.thy ===== *)
theory TransferProps
  imports TransferTypes
begin

text \<open>
  What the transfer vocabulary promises: the wire names, the snapshot and the staging
  inventory survive encoding and decoding (as interpretations of the \<open>codec\<close> interface), a
  child path stays a direct child of its parent, and a staging name is recognised exactly when
  the host made it for that transfer.
\<close>

subsection \<open>Round trips\<close>

lemma parse_direction_string [json_simps]: "parse_transfer_direction (direction_string d) = Some d"
  by (cases d) (simp_all add: parse_transfer_direction_def)

lemma parse_status_string [json_simps]: "parse_transfer_status (status_string s) = Some s"
  by (cases s) (simp_all add: parse_transfer_status_def)

lemma parse_policy_string [json_simps]: "parse_conflict_policy (policy_string p) = Some p"
  by (cases p) (simp_all add: parse_conflict_policy_def)

lemma parse_action_string [json_simps]: "parse_conflict_action_kind (action_string a) = Some a"
  by (cases a) (simp_all add: parse_conflict_action_kind_def)

lemma parse_failure_kind_string [json_simps]: "parse_transfer_failure_kind (failure_kind_string k) = Some k"
  by (cases k) (simp_all add: parse_transfer_failure_kind_def)

lemma text_entry_JString [simp]: "text_entry (JString s) = Some s"
  by (simp add: text_entry_def)

text \<open>Reading back a field that an encoder wrote.\<close>

lemma find_string_field [json_simps]:
  "obj_find v k = Some (JString s) \<Longrightarrow> find_string v k = Some s"
  by (simp add: find_string_def)

lemma required_count_field [json_simps]:
  "obj_find v k = Some (JUnsigned w) \<Longrightarrow> required_count v k = Some w"
  by (simp add: required_count_def)

lemma nullable_count_field [json_simps]:
  "obj_find v k = Some (nullable_number x) \<Longrightarrow> nullable_count v k = Some x"
  by (cases x) (simp_all add: nullable_count_def required_count_def)

lemma nullable_count_optional:
  "obj_find v k = map_option JUnsigned x \<Longrightarrow> nullable_count v k = Some x"
  by (cases x) (simp_all add: nullable_count_def required_count_def)

lemma nullable_text_field [json_simps]:
  "obj_find v k = Some (nullable_string x) \<Longrightarrow> nullable_text v k = Some x"
  by (cases x) (simp_all add: nullable_text_def)

lemma nullable_text_optional:
  "obj_find v k = map_option JString x \<Longrightarrow> nullable_text v k = Some x"
  by (cases x) (simp_all add: nullable_text_def)

lemma required_array_field [json_simps]:
  "obj_find v k = Some (JArray xs) \<Longrightarrow> required_array v k = Some xs"
  by (simp add: required_array_def)

interpretation failure_codec: codec transfer_item_failure_json transfer_item_failure_from_json "\<lambda>_. True"
proof unfold_locales
  fix x :: item_failure
  let ?v = "transfer_item_failure_json x"
  have "obj_find ?v ''itemIndex'' = map_option JUnsigned (if_item_index x)"
    "obj_find ?v ''stagingResidue'' = map_option JString (if_staging_residue x)"
    by (cases "if_item_index x"; cases "if_staging_residue x"; simp add: transfer_item_failure_json_def)+
  then have "nullable_count ?v ''itemIndex'' = Some (if_item_index x)"
    "nullable_text ?v ''stagingResidue'' = Some (if_staging_residue x)"
    by (auto intro: nullable_count_optional nullable_text_optional)
  then show "transfer_item_failure_from_json ?v = Some x"
    by (simp add: transfer_item_failure_from_json_def json_simps)
       (simp add: transfer_item_failure_json_def json_simps)
qed

interpretation conflict_codec: codec conflict_request_json conflict_request_from_json "\<lambda>_. True"
proof unfold_locales
  fix x :: conflict_request
  have "traverse (\<lambda>action. Option.bind (text_entry action) parse_conflict_action_kind)
          (map (\<lambda>kind. JString (action_string kind)) (cr_allowed_actions x)) = Some (cr_allowed_actions x)"
    by (rule traverse_map) (simp add: json_simps)
  then show "conflict_request_from_json (conflict_request_json x) = Some x"
    by (simp add: conflict_request_from_json_def conflict_request_json_def json_simps)
qed

lemma nullable_conflict_field [json_simps]:
  "obj_find v ''activeConflict'' = Some (case x of Some c \<Rightarrow> conflict_request_json c | None \<Rightarrow> JNull) \<Longrightarrow>
   nullable_conflict v = Some x"
  by (cases x) (use conflict_codec.dec_enc in \<open>simp_all add: nullable_conflict_def conflict_request_json_def\<close>)

lemma traverse_text_entry [simp]: "traverse text_entry (map JString xs) = Some xs"
  by (rule traverse_map) simp

interpretation snapshot_codec: codec transfer_snapshot_json transfer_snapshot_from_json "\<lambda>_. True"
proof unfold_locales
  fix x :: transfer_snapshot
  show "transfer_snapshot_from_json (transfer_snapshot_json x) = Some x"
    by (simp add: transfer_snapshot_from_json_def transfer_snapshot_json_def json_simps
        failure_codec.dec_enc_list)
qed

definition staging_ok :: "staging_file \<Rightarrow> bool" where
  "staging_ok staging \<longleftrightarrow> sf_remote staging \<or> sf_server_id staging = []"

interpretation staging_codec: codec transfer_staging_file_json transfer_staging_file_from_json staging_ok
proof unfold_locales
  fix x :: staging_file
  assume "staging_ok x"
  then show "transfer_staging_file_from_json (transfer_staging_file_json x) = Some x"
    by (cases x)
       (auto simp: transfer_staging_file_from_json_def transfer_staging_file_json_def staging_ok_def json_simps)
qed


subsection \<open>Staging names\<close>

lemma find_sub_hd_free:
  "needle \<noteq> [] \<Longrightarrow> hd needle \<notin> set s \<Longrightarrow> find_sub needle t = None \<Longrightarrow> find_sub needle (s @ t) = None"
proof (induction s)
  case (Cons c s)
  then show ?case by (cases needle) (auto simp: starts_with_def)
qed simp

lemma rfind_sub_SomeD: "rfind_sub needle s = Some i \<Longrightarrow> s = take i s @ needle @ drop (i + length needle) s"
proof (induction s arbitrary: i)
  case (Cons c cs)
  show ?case
  proof (cases "rfind_sub needle cs")
    case None
    with Cons.prems have "i = 0" "starts_with needle (c # cs)" by (auto split: if_splits)
    then show ?thesis by (auto simp: starts_with_iff)
  next
    case (Some j)
    with Cons.prems have "i = Suc j" by simp
    with Cons.IH [OF Some] show ?thesis by simp
  qed
qed (simp split: if_splits)

lemma ends_with_take: "ends_with suf s \<Longrightarrow> s = take (length s - length suf) s @ suf"
  by (metis append_take_drop_id ends_with_def)

lemma three_parts:
  "(case xs of [a, b, c] \<Rightarrow> P a b c | _ \<Rightarrow> False) \<longleftrightarrow> (\<exists>a b c. xs = [a, b, c] \<and> P a b c)"
  by (auto split: list.splits)

lemma staging_owner_free:
  "CHR ''-'' \<notin> set (staging_owner t)" "CHR ''.'' \<notin> set t \<Longrightarrow> CHR ''.'' \<notin> set (staging_owner t)"
  by (auto simp: staging_owner_def)

lemma owned_staging_name_intro:
  assumes "pre \<noteq> []" "CHR ''.'' \<notin> set transfer_id" "is_digit_sequence item" "is_digit_sequence attempt"
  shows "is_owned_staging_name
    (pre @ ''.yukinal-'' @ staging_owner transfer_id @ ''-'' @ item @ ''-'' @ attempt @ ''.part'') transfer_id"
proof -
  let ?owner = "staging_owner transfer_id"
  let ?body = "?owner @ ''-'' @ item @ ''-'' @ attempt"
  have free: "CHR ''.'' \<notin> set item" "CHR ''.'' \<notin> set attempt" "CHR ''-'' \<notin> set item" "CHR ''-'' \<notin> set attempt"
    using assms(3,4) digit_sequence_free by auto
  have "find_sub ''.yukinal-'' ((''yukinal-'' @ ?body) @ ''.part'') = None"
    by (rule find_sub_hd_free) (use assms(2) free staging_owner_free(2) in \<open>auto simp: starts_with_def\<close>)
  then have "rfind_sub ''.yukinal-'' (pre @ ''.yukinal-'' @ ?body @ ''.part'') = Some (length pre)"
    by (intro rfind_sub_append) simp_all
  moreover have "split_on (CHR ''-'') ?body = [?owner, item, attempt]"
    using free staging_owner_free(1) by (simp add: str_simps)
  ultimately show ?thesis
    using assms(1,3,4) by (simp add: is_owned_staging_name_def ends_with_def)
qed

lemma owned_staging_name_elim:
  assumes "is_owned_staging_name name transfer_id"
  obtains pre item attempt where "pre \<noteq> []" "is_digit_sequence item" "is_digit_sequence attempt"
    "name = pre @ ''.yukinal-'' @ staging_owner transfer_id @ ''-'' @ item @ ''-'' @ attempt @ ''.part''"
proof -
  obtain position where position: "rfind_sub ''.yukinal-'' name = Some position" "position \<noteq> 0"
    using assms by (auto simp: is_owned_staging_name_def split: option.splits)
  define suffix where "suffix = drop (position + 9) name"
  have name: "name = take position name @ ''.yukinal-'' @ suffix"
    using rfind_sub_SomeD [OF position(1)] by (simp add: suffix_def eval_nat_numeral)
  have pre: "take position name \<noteq> []"
    using position(2) name by (auto simp del: append_take_drop_id)
  define body where "body = take (length suffix - 5) suffix"
  have checked: "ends_with ''.part'' suffix \<and>
      (case split_on (CHR ''-'') body of
         [owner, item, attempt] \<Rightarrow>
           owner = staging_owner transfer_id \<and> is_digit_sequence item \<and> is_digit_sequence attempt
       | _ \<Rightarrow> False)"
    using assms unfolding is_owned_staging_name_def position(1) option.case Let_def
    by (fold suffix_def, fold body_def) (rule conjI; blast)
  have ends: "ends_with ''.part'' suffix"
    and split: "\<exists>item attempt. split_on (CHR ''-'') body = [staging_owner transfer_id, item, attempt] \<and>
      is_digit_sequence item \<and> is_digit_sequence attempt"
    using checked unfolding three_parts by blast+
  have suffix: "suffix = body @ ''.part''"
    using ends_with_take [OF ends] by (simp add: body_def eval_nat_numeral)
  from split obtain item attempt where parts: "split_on (CHR ''-'') body = [staging_owner transfer_id, item, attempt]"
    and digits: "is_digit_sequence item" "is_digit_sequence attempt" by blast
  have "body = join_with (CHR ''-'') [staging_owner transfer_id, item, attempt]"
    using join_with_split_on [of "CHR ''-''" body] parts by simp
  then have "name = take position name @ ''.yukinal-'' @ staging_owner transfer_id @ ''-'' @ item @ ''-'' @ attempt @ ''.part''"
    using name suffix by simp
  with pre digits show ?thesis by (rule that)
qed

lemma owned_staging_name_owner:
  "is_owned_staging_name name t \<Longrightarrow> is_owned_staging_name name u \<Longrightarrow> staging_owner t = staging_owner u"
  unfolding is_owned_staging_name_def Let_def by (simp split: option.splits list.splits)

subsection \<open>Child paths\<close>

lemma find_sub_double_append:
  "find_sub [d, d] s = None \<Longrightarrow> d \<notin> set t \<Longrightarrow> find_sub [d, d] (s @ t) = None"
proof (induction s)
  case Nil
  then show ?case by (simp add: find_sub_None_iff) (metis in_set_conv_decomp append_Cons)
next
  case (Cons c s)
  then show ?case by (cases s; cases t) (auto simp: starts_with_def split: if_splits)
qed

lemma find_sub_double_snoc:
  "find_sub [d, d] s = None \<Longrightarrow> s \<noteq> [] \<Longrightarrow> last s \<noteq> d \<Longrightarrow> find_sub [d, d] (s @ [d]) = None"
proof (induction s)
  case (Cons c s)
  then show ?case by (cases s) (auto simp: starts_with_def split: if_splits)
qed simp

lemma safe_name_bytes:
  assumes "validate_safe_name name = Inr ()"
  shows "name \<noteq> []" "name \<noteq> ''.''" "name \<noteq> ''..''" "CHR ''/'' \<notin> set name" "CHR 0x5C \<notin> set name"
    "CHR 0x00 \<notin> set name" "CHR 0x0D \<notin> set name" "CHR 0x0A \<notin> set name"
proof -
  have *: "name \<noteq> [] \<and> name \<noteq> ''.'' \<and> name \<noteq> ''..'' \<and> (\<forall>c\<in>set name. \<not> unsafe_name_byte c)"
    using assms by (auto simp: validate_safe_name_def list_ex_iff split: if_splits)
  have "unsafe_name_byte (CHR ''/'')" "unsafe_name_byte (CHR 0x5C)" "unsafe_name_byte (CHR 0x00)"
    "unsafe_name_byte (CHR 0x0D)" "unsafe_name_byte (CHR 0x0A)"
    by (simp_all add: unsafe_name_byte_def byte_class_defs)
  with * show "name \<noteq> []" "name \<noteq> ''.''" "name \<noteq> ''..''" "CHR ''/'' \<notin> set name" "CHR 0x5C \<notin> set name"
    "CHR 0x00 \<notin> set name" "CHR 0x0D \<notin> set name" "CHR 0x0A \<notin> set name" by blast+
qed

text \<open>The directory prefix a child is appended to, and the segments of a directory path.\<close>

definition directory_prefix :: "string \<Rightarrow> string" where
  "directory_prefix parent = (if last parent = CHR ''/'' then parent else parent @ ''/'')"

definition directory_segments :: "string \<Rightarrow> string list" where
  "directory_segments parent = butlast (split_on (CHR ''/'') (directory_prefix parent))"

lemma join_child_prefix: "join_child parent name = directory_prefix parent @ name"
  by (simp add: join_child_def directory_prefix_def)

lemma directory_prefix_split:
  assumes "parent \<noteq> []"
  obtains p where "directory_prefix parent = p @ ''/''"
    "split_on (CHR ''/'') p = directory_segments parent"
proof -
  obtain p where p: "directory_prefix parent = p @ ''/''"
    using assms by (cases "last parent = CHR ''/''")
      (auto simp: directory_prefix_def, metis append_butlast_last_id)
  moreover have "split_on (CHR ''/'') p = directory_segments parent"
    by (simp add: directory_segments_def p str_simps)
  ultimately show ?thesis by (rule that)
qed

lemma split_on_child:
  assumes "parent \<noteq> []" "CHR ''/'' \<notin> set name"
  shows "split_on (CHR ''/'') (directory_prefix parent @ name) = directory_segments parent @ [name]"
proof -
  obtain p where "directory_prefix parent = p @ ''/''" "split_on (CHR ''/'') p = directory_segments parent"
    using assms(1) by (rule directory_prefix_split)
  with assms(2) show ?thesis by (simp add: str_simps)
qed

lemma directory_segments_subset:
  "parent \<noteq> [] \<Longrightarrow> set (directory_segments parent) \<subseteq> set (split_on (CHR ''/'') parent)"
  by (auto simp: directory_segments_def directory_prefix_def str_simps dest: in_set_butlastD)

lemma valid_path_facts:
  assumes "validate_transfer_remote_path parent = Inr ()"
  shows "parent \<noteq> []" "hd parent = CHR ''/''" "find_sub ''//'' parent = None"
    "CHR 0x00 \<notin> set parent" "CHR 0x0D \<notin> set parent" "CHR 0x0A \<notin> set parent" "CHR 0x5C \<notin> set parent"
    "\<And>seg. seg \<in> set (split_on (CHR ''/'') parent) \<Longrightarrow> seg \<noteq> ''.'' \<and> seg \<noteq> ''..''"
    "utf8_char_length parent \<le> max_remote_path_chars"
  using assms by (auto simp: validate_transfer_remote_path_def list_ex_iff split: if_splits)

lemma child_valid_iff:
  assumes "validate_safe_name name = Inr ()" "validate_transfer_remote_path parent = Inr ()"
  shows "validate_transfer_remote_path (directory_prefix parent @ name) = Inr () \<longleftrightarrow>
    utf8_char_length (directory_prefix parent @ name) \<le> max_remote_path_chars"
proof -
  note name = safe_name_bytes [OF assms(1)] and parent = valid_path_facts [OF assms(2)]
  have "find_sub ''//'' (directory_prefix parent) = None"
    using parent(1,3) find_sub_double_snoc [of "CHR ''/''" parent]
    by (auto simp: directory_prefix_def)
  then have slashes: "find_sub ''//'' (directory_prefix parent @ name) = None"
    using name(4) by (rule find_sub_double_append)
  have segments: "\<not> list_ex (\<lambda>seg. seg = ''.'' \<or> seg = ''..'') (split_on (CHR ''/'') (directory_prefix parent @ name))"
    using name(2,3) parent(8) directory_segments_subset [OF parent(1)]
    by (auto simp: split_on_child [OF parent(1) name(4)] list_ex_iff)
  have bytes: "\<And>c. c \<in> {CHR 0x00, CHR 0x0D, CHR 0x0A, CHR 0x5C} \<Longrightarrow> c \<notin> set (directory_prefix parent @ name)"
    using name parent by (auto simp: directory_prefix_def)
  have "hd (directory_prefix parent @ name) = CHR ''/''" "directory_prefix parent @ name \<noteq> []"
    using parent(1,2) by (auto simp: directory_prefix_def)
  with slashes segments bytes show ?thesis
    by (auto simp: validate_transfer_remote_path_def)
qed


lemma conflict_rename_safe:
  assumes "conflict_action_from_json v = Inr a"
  shows "if ca_kind a = RenameAction
         then validate_safe_name (ca_rename_to a) = Inr () \<and> length (ca_rename_to a) \<le> max_rename_name_chars
         else ca_rename_to a = []"
  using assms
  by (auto simp: conflict_action_from_json_def res_bind_eq_Inr split: if_splits option.splits)

text \<open>Two places where the decoders are looser or tighter than the shared contract: a negative staging
  index is read modulo \<open>2 ^ 64\<close>, and the 255-character limit of a rename counts bytes.\<close>

lemma negative_staging_index_wraps:
  "transfer_staging_file_from_json (JObject [(''location'', JString ''local''), (''path'', JString ''/x''),
      (''itemIndex'', JInt (- 1))]) =
   Some \<lparr>sf_remote = False, sf_path = ''/x'', sf_server_id = [], sf_item_index = - 1\<rparr>"
  by (simp add: transfer_staging_file_from_json_def json_simps)

lemma rename_limit_counts_bytes:
  "255 < length name \<Longrightarrow>
   conflict_action_from_json (JObject [(''action'', JString ''rename''), (''name'', JString name)]) =
     Inl InvalidConflictRename"
  by (simp add: conflict_action_from_json_def json_simps max_rename_name_chars_def)

subsection \<open>Transfer identifiers\<close>

lemma transfer_id_free: "CHR ''.'' \<notin> set (fst (new_transfer_id process nanos sequence))"
proof -
  have "CHR ''.'' \<notin> set (hexadecimal n)" for n
    using hexadecimal_digits [of "CHR ''.''" n] by (auto simp: byte_class_defs)
  moreover have "CHR ''.'' \<notin> set (decimal n)" for n
    using decimal_digits [of "CHR ''.''" n] by (auto simp: byte_class_defs)
  ultimately show ?thesis by (simp add: new_transfer_id_def)
qed

lemma hexadecimal_no_underscore: "CHR ''_'' \<notin> set (hexadecimal n)"
  using hexadecimal_digits [of "CHR ''_''" n] by (auto simp: byte_class_defs)

lemma transfer_id_sequence:
  assumes "fst (new_transfer_id p n i) = fst (new_transfer_id q m j)"
  shows "i = j"
proof -
  have parts: "split_on (CHR ''_'') (fst (new_transfer_id p n i)) =
      [''tr'', hexadecimal (unat p), hexadecimal (unat n), decimal (unat i)]" for p n i
    using hexadecimal_no_underscore [of "unat p"] hexadecimal_no_underscore [of "unat n"]
      digit_sequence_free [OF is_digit_sequence_decimal, of "unat i"]
    by (simp add: new_transfer_id_def str_simps)
  have "decimal (unat i) = decimal (unat j)"
    using arg_cong [OF assms, of "split_on (CHR ''_'')"] by (simp only: parts list.inject)
  then show ?thesis by (simp add: word_unat_eq_iff)
qed

lemma transfer_id_owner: "staging_owner (fst (new_transfer_id p n i)) = fst (new_transfer_id p n i)"
proof -
  have "CHR ''-'' \<notin> set (hexadecimal n)" for n
    using hexadecimal_digits [of "CHR ''-''" n] by (auto simp: byte_class_defs)
  moreover have "CHR ''-'' \<notin> set (decimal n)" for n
    using decimal_digits [of "CHR ''-''" n] by (auto simp: byte_class_defs)
  moreover have "filter (\<lambda>c. c \<noteq> CHR ''-'') s = s" if "CHR ''-'' \<notin> set s" for s
    using that by (auto intro!: filter_True)
  ultimately show ?thesis
    by (simp add: staging_owner_def new_transfer_id_def)
qed

subsection \<open>Properties\<close>

text \<open>C37: A transfer row survives storage: decoding the JSON of any snapshot gives back exactly that
  snapshot, all nineteen fields, whatever its conflict, failures and residue.\<close>

theorem snapshot_roundtrip:
  "transfer_snapshot_from_json (transfer_snapshot_json snapshot) = Some snapshot"
  by (rule snapshot_codec.dec_enc) simp

text \<open>The private staging inventory survives storage: a list of staging files in which only remote
  entries carry a server is read back as it was written.\<close>

theorem staging_roundtrip:
  assumes "\<And>x. x \<in> set staging \<Longrightarrow> sf_remote x \<or> sf_server_id x = []"
  shows "transfer_staging_from_json (JArray (transfer_staging_json staging)) = Some staging"
  using assms staging_codec.dec_enc_list [of staging]
  by (simp add: transfer_staging_from_json_def transfer_staging_json_def staging_ok_def)

theorem staging_roundtrip_witness:
  "transfer_staging_from_json (JArray (transfer_staging_json
      [\<lparr>sf_remote = True, sf_path = ''/srv/.a.part'', sf_server_id = ''web'', sf_item_index = 3\<rparr>,
       \<lparr>sf_remote = False, sf_path = ''/home/x'', sf_server_id = [], sf_item_index = 0\<rparr>])) =
   Some [\<lparr>sf_remote = True, sf_path = ''/srv/.a.part'', sf_server_id = ''web'', sf_item_index = 3\<rparr>,
       \<lparr>sf_remote = False, sf_path = ''/home/x'', sf_server_id = [], sf_item_index = 0\<rparr>]"
  by (rule staging_roundtrip) auto

text \<open>Joining a child to a remote directory succeeds exactly when the name is safe, the directory
  is a valid transfer path and the result is at most 4096 characters long; the result is then the
  directory, one separator and the name.\<close>

theorem remote_child_exact:
  "remote_child parent name = Inr child \<longleftrightarrow>
     validate_safe_name name = Inr () \<and> validate_transfer_remote_path parent = Inr () \<and>
     child = (if last parent = CHR ''/'' then parent else parent @ ''/'') @ name \<and>
     utf8_char_length child \<le> 4096"
  using child_valid_iff [of name parent]
  by (auto simp: remote_child_def res_bind_eq_Inr join_child_prefix directory_prefix_def
      max_remote_path_chars_def)

lemma remote_child_segments:
  assumes "remote_child parent name = Inr child"
  shows "split_on (CHR ''/'') child = directory_segments parent @ [name]" "validate_safe_name name = Inr ()"
    "validate_transfer_remote_path parent = Inr ()" "validate_transfer_remote_path child = Inr ()"
proof -
  have *: "validate_safe_name name = Inr ()" "validate_transfer_remote_path parent = Inr ()"
    "child = directory_prefix parent @ name" "validate_transfer_remote_path child = Inr ()"
    using assms by (auto simp: remote_child_def res_bind_eq_Inr join_child_prefix)
  show "split_on (CHR ''/'') child = directory_segments parent @ [name]"
    unfolding *(3) using valid_path_facts(1) [OF *(2)] safe_name_bytes(4) [OF *(1)] by (rule split_on_child)
  show "validate_safe_name name = Inr ()" "validate_transfer_remote_path parent = Inr ()"
    "validate_transfer_remote_path child = Inr ()" by (rule *)+
qed

text \<open>A child path never leaves its directory: its segments are those of the directory followed by
  the name alone, and none of them is \<open>.\<close> or \<open>..\<close>.\<close>

theorem remote_child_confined:
  assumes "remote_child parent name = Inr child"
  shows "split_on (CHR ''/'') child = directory_segments parent @ [name] \<and>
    ''.'' \<notin> set (split_on (CHR ''/'') child) \<and> ''..'' \<notin> set (split_on (CHR ''/'') child)"
proof -
  note child = remote_child_segments [OF assms]
  note name = safe_name_bytes [OF child(2)] and parent = valid_path_facts [OF child(3)]
  show ?thesis using child(1) name(2,3) parent(8) directory_segments_subset [OF parent(1)] by auto
qed

theorem remote_child_confined_witness:
  "split_on (CHR ''/'') ''/srv/app/log.txt'' = directory_segments ''/srv/app'' @ [''log.txt''] \<and>
    ''.'' \<notin> set (split_on (CHR ''/'') ''/srv/app/log.txt'') \<and>
    ''..'' \<notin> set (split_on (CHR ''/'') ''/srv/app/log.txt'')"
  by (rule remote_child_confined)
     (simp add: remote_child_def validate_safe_name_def validate_transfer_remote_path_def join_child_def
        unsafe_name_byte_def byte_class_defs name_stem_def to_upper_def reserved_names_def
        utf8_char_length_def max_remote_path_chars_def starts_with_def char_of_def)

text \<open>Recovery unlinks exactly its own files: a base name is recognised as a staging file of a
  transfer if and only if it has the shape the host gives it, a non-empty prefix, the marker with
  that transfer's id without hyphens, two digit sequences and the suffix.\<close>

theorem owned_staging_name_exact:
  assumes "CHR ''.'' \<notin> set transfer_id"
  shows "is_owned_staging_name name transfer_id \<longleftrightarrow>
    (\<exists>pre item attempt. pre \<noteq> [] \<and> is_digit_sequence item \<and> is_digit_sequence attempt \<and>
       name = pre @ ''.yukinal-'' @ staging_owner transfer_id @ ''-'' @ item @ ''-'' @ attempt @ ''.part'')"
  using owned_staging_name_intro [OF _ assms] by (blast elim: owned_staging_name_elim)

theorem owned_staging_name_exact_witness:
  "is_owned_staging_name ''.a.yukinal-tr7-0-31.part'' ''tr-7'' \<longleftrightarrow>
    (\<exists>pre item attempt. pre \<noteq> [] \<and> is_digit_sequence item \<and> is_digit_sequence attempt \<and>
       ''.a.yukinal-tr7-0-31.part'' =
         pre @ ''.yukinal-'' @ staging_owner ''tr-7'' @ ''-'' @ item @ ''-'' @ attempt @ ''.part'')"
  by (rule owned_staging_name_exact) simp

text \<open>Two transfers never claim each other's staging files, even when the clock stands still: a
  staging name made for one identifier is recognised for it, and for an identifier drawn with
  another counter value it is not.\<close>

theorem staging_names_disjoint:
  "is_owned_staging_name (stage_name (fst (new_transfer_id p n i)) name item attempt)
      (fst (new_transfer_id q m j)) \<longleftrightarrow>
   fst (new_transfer_id p n i) = fst (new_transfer_id q m j) \<and> i = j"
  (is "?own \<longleftrightarrow> _")
proof -
  let ?t = "fst (new_transfer_id p n i)" and ?u = "fst (new_transfer_id q m j)"
  have made: "is_owned_staging_name (stage_name ?t name item attempt) ?t"
    using owned_staging_name_intro [of "CHR ''.'' # name" ?t "decimal item" "decimal attempt"] transfer_id_free
    by (simp add: stage_name_def)
  have "?t = ?u" if ?own
  proof -
    have "staging_owner ?t = staging_owner ?u"
      using made that by (rule owned_staging_name_owner)
    then show ?thesis by (simp add: transfer_id_owner)
  qed
  with made transfer_id_sequence [of p n i q m j] show ?thesis by metis
qed

end
