(* ===== verification/TransferWorld.thy ===== *)
theory TransferWorld
  imports TransferTypes Sha256 "HOL-Library.List_Lexorder" "HOL-Library.Char_ord"
begin

text \<open>
  The world of a transfer worker (\<^verbatim>\<open>src/native/desktop_host/src/transfer_manager.cpp\<close>): the
  remote backend behind \<^verbatim>\<open>TransferBackend\<close>, the durable ledger behind
  \<^verbatim>\<open>TransferHistoryStore\<close>, the local file system, the clocks, the cancellation flag and the
  queue of conflict decisions.  All of them answer a call in a way that may depend on everything
  that happened before and may change between any two calls, so each is a function of a world of
  arbitrary type \<^typ>\<open>'w\<close>; nothing is assumed of them here.  An action of the worker
  transforms the world, the snapshot cell and a log of the calls with their answers, and ends with a
  value, with an exception, or not at all when a loop used up its fuel.
\<close>

subsection \<open>Values that cross the boundary\<close>

datatype transfer_exception = TransferErr transfer_error_code string | OtherException

datatype 'a outcome = Done 'a | Raised transfer_exception | Hung

datatype remote_entry_kind = RemoteFile | RemoteDirectory | RemoteSymlink | RemoteOther

record remote_stat =
  rs_kind :: remote_entry_kind
  rs_size :: "64 word"
  rs_modified :: "32 word option"

datatype file_type = NotFound | RegularFile | DirectoryFile | SymlinkFile | SpecialFile

datatype os_error = NoSuchFile | OsError string

definition os_message :: "os_error \<Rightarrow> string" where
  "os_message e = (case e of NoSuchFile \<Rightarrow> ''No such file or directory'' | OsError m \<Rightarrow> m)"

record local_fingerprint =
  lf_size :: "64 word"
  lf_modified :: "int option"

datatype fopen_result = Opened nat | Exists | CannotOpen

text \<open>What the worker asked and what it was told.\<close>

datatype remote_event =
    RLstat string string "transfer_exception + remote_stat option"
  | RListDir string string "transfer_exception + (string \<times> remote_stat) list"
  | ROpenRead string string "transfer_exception + nat"
  | RRead nat "transfer_exception + string"
  | RCreate string string "transfer_exception + nat"
  | RWrite nat string "transfer_exception + unit"
  | RFinish nat "transfer_exception + unit"
  | RClose nat
  | RMkdir string string "transfer_exception + unit"
  | RRemove string string "transfer_exception + unit"
  | RPublish string string string "transfer_exception + unit"
  | RReplace string string string "transfer_exception + unit"
  | RRemoveRecovered string string "transfer_exception + unit"

datatype local_event =
    LStatus string file_type "os_error option"
  | LSize string "os_error + 64 word"
  | LTime string "int option"
  | LOpen string "nat option"
  | LRead nat string bool
  | LCreate string fopen_result
  | LWrite nat string bool
  | LFlush nat bool
  | LFinish nat bool
  | LClose nat
  | LLink string string bool
  | LExists string bool
  | LReplace string string bool
  | LRemove string bool
  | LMkdir string "os_error option"
  | LIterate string "string list option"

datatype event =
    EvLedger transfer_snapshot "staging_file list" "string + unit"
  | EvInsert transfer_snapshot "staging_file list" "string + unit"
  | EvNotify transfer_snapshot
  | EvCancelled bool
  | EvDecision "(64 word \<times> conflict_action) option"
  | Remote remote_event
  | Local local_event

subsection \<open>The environment\<close>

text \<open>The methods of \<^verbatim>\<open>TransferBackend\<close>, \<^verbatim>\<open>TransferReader\<close> and \<^verbatim>\<open>TransferWriter\<close>.\<close>

record 'w transfer_backend =
  te_atomic_replace :: bool
  te_lstat :: "string \<Rightarrow> string \<Rightarrow> 'w \<Rightarrow> (transfer_exception + remote_stat option) \<times> 'w"
  te_list_dir :: "string \<Rightarrow> string \<Rightarrow> 'w \<Rightarrow> (transfer_exception + (string \<times> remote_stat) list) \<times> 'w"
  te_open_read :: "string \<Rightarrow> string \<Rightarrow> 'w \<Rightarrow> (transfer_exception + nat) \<times> 'w"
  te_read :: "nat \<Rightarrow> nat \<Rightarrow> 'w \<Rightarrow> (transfer_exception + string) \<times> 'w"
  te_create_exclusive :: "string \<Rightarrow> string \<Rightarrow> 'w \<Rightarrow> (transfer_exception + nat) \<times> 'w"
  te_write :: "nat \<Rightarrow> string \<Rightarrow> 'w \<Rightarrow> (transfer_exception + unit) \<times> 'w"
  te_finish :: "nat \<Rightarrow> 'w \<Rightarrow> (transfer_exception + unit) \<times> 'w"
  te_close :: "nat \<Rightarrow> 'w \<Rightarrow> 'w"
  te_create_dir :: "string \<Rightarrow> string \<Rightarrow> 'w \<Rightarrow> (transfer_exception + unit) \<times> 'w"
  te_remove_file :: "string \<Rightarrow> string \<Rightarrow> 'w \<Rightarrow> (transfer_exception + unit) \<times> 'w"
  te_publish :: "string \<Rightarrow> string \<Rightarrow> string \<Rightarrow> 'w \<Rightarrow> (transfer_exception + unit) \<times> 'w"
  te_rename_replace :: "string \<Rightarrow> string \<Rightarrow> string \<Rightarrow> 'w \<Rightarrow> (transfer_exception + unit) \<times> 'w"
  te_remove_recovered :: "string \<Rightarrow> string \<Rightarrow> 'w \<Rightarrow> (transfer_exception + unit) \<times> 'w"

text \<open>What the worker uses of \<^verbatim>\<open>std::filesystem\<close>, \<^verbatim>\<open>std::ifstream\<close> and \<^verbatim>\<open>std::FILE\<close>.\<close>

record 'w local_files =
  te_symlink_status :: "string \<Rightarrow> 'w \<Rightarrow> (file_type \<times> os_error option) \<times> 'w"
  te_file_size :: "string \<Rightarrow> 'w \<Rightarrow> (os_error + 64 word) \<times> 'w"
  te_write_time :: "string \<Rightarrow> 'w \<Rightarrow> int option \<times> 'w"
  te_open_local :: "string \<Rightarrow> 'w \<Rightarrow> nat option \<times> 'w"
  te_read_local :: "nat \<Rightarrow> nat \<Rightarrow> 'w \<Rightarrow> (string \<times> bool) \<times> 'w"
  te_fopen_exclusive :: "string \<Rightarrow> 'w \<Rightarrow> fopen_result \<times> 'w"
  te_fwrite :: "nat \<Rightarrow> string \<Rightarrow> 'w \<Rightarrow> bool \<times> 'w"
  te_fflush :: "nat \<Rightarrow> 'w \<Rightarrow> bool \<times> 'w"
  te_fclose :: "nat \<Rightarrow> 'w \<Rightarrow> bool \<times> 'w"
  te_drop_local :: "nat \<Rightarrow> 'w \<Rightarrow> 'w"
  te_hard_link :: "string \<Rightarrow> string \<Rightarrow> 'w \<Rightarrow> bool \<times> 'w"
  te_exists :: "string \<Rightarrow> 'w \<Rightarrow> bool \<times> 'w"
  te_rename_local :: "string \<Rightarrow> string \<Rightarrow> 'w \<Rightarrow> bool \<times> 'w"
  te_remove_local :: "string \<Rightarrow> 'w \<Rightarrow> bool \<times> 'w"
  te_create_directory :: "string \<Rightarrow> 'w \<Rightarrow> os_error option \<times> 'w"
  te_iterate :: "string \<Rightarrow> 'w \<Rightarrow> string list option \<times> 'w"

text \<open>Clocks, the cancellation flag, the decisions, the ledger and the listeners.\<close>

record 'w host_services =
  te_clock :: "'w \<Rightarrow> int \<times> 'w"
  te_steady :: "'w \<Rightarrow> int \<times> 'w"
  te_cancelled :: "'w \<Rightarrow> bool \<times> 'w"
  te_decision :: "'w \<Rightarrow> (64 word \<times> conflict_action) option \<times> 'w"
  te_ledger_update :: "transfer_snapshot \<Rightarrow> staging_file list \<Rightarrow> 'w \<Rightarrow> (string + unit) \<times> 'w"
  te_ledger_insert :: "transfer_snapshot \<Rightarrow> staging_file list \<Rightarrow> 'w \<Rightarrow> (string + unit) \<times> 'w"
  te_notify :: "transfer_snapshot \<Rightarrow> 'w \<Rightarrow> 'w"

text \<open>\<^verbatim>\<open>std::filesystem::path\<close> and the conversion of a file time to Unix seconds.\<close>

record path_rules =
  te_file_epoch :: "int \<Rightarrow> 64 word option"
  te_parent :: "string \<Rightarrow> string"
  te_filename :: "string \<Rightarrow> string"
  te_join :: "string \<Rightarrow> string \<Rightarrow> string"
  te_is_absolute :: "string \<Rightarrow> bool"
  te_components :: "string \<Rightarrow> string list"

record 'w transfer_env =
  env_backend :: "'w transfer_backend"
  env_files :: "'w local_files"
  env_host :: "'w host_services"
  env_paths :: path_rules
  env_fuel :: nat

subsection \<open>The snapshot cell and the state\<close>

text \<open>\<^verbatim>\<open>SnapshotCell\<close>; \<open>sc_history\<close> tells whether \<^verbatim>\<open>history_\<close> is set, times are in milliseconds.\<close>

record snapshot_cell =
  sc_snapshot :: transfer_snapshot
  sc_staging :: "staging_file list"
  sc_history :: bool
  sc_last_time :: int
  sc_last_status :: transfer_status

record 'w transfer_state =
  ts_world :: 'w
  ts_cell :: snapshot_cell
  ts_log :: "event list"

type_synonym ('w, 'a) action = "'w transfer_state \<Rightarrow> 'a outcome \<times> 'w transfer_state"

subsection \<open>Actions\<close>

definition act_return :: "'a \<Rightarrow> ('w, 'a) action" where
  "act_return x s = (Done x, s)"

definition act_throw :: "transfer_exception \<Rightarrow> ('w, 'a) action" where
  "act_throw e s = (Raised e, s)"

definition act_hang :: "('w, 'a) action" where
  "act_hang s = (Hung, s)"

definition act_bind :: "('w, 'a) action \<Rightarrow> ('a \<Rightarrow> ('w, 'b) action) \<Rightarrow> ('w, 'b) action" where
  "act_bind m f s =
     (case m s of
        (Done x, s') \<Rightarrow> f x s'
      | (Raised e, s') \<Rightarrow> (Raised e, s')
      | (Hung, s') \<Rightarrow> (Hung, s'))"

text \<open>\<^verbatim>\<open>catch (const TransferError&)\<close> and \<^verbatim>\<open>catch (...)\<close>.\<close>

definition act_catch :: "('w, 'a) action \<Rightarrow> (transfer_error_code \<Rightarrow> string \<Rightarrow> ('w, 'a) action) \<Rightarrow> ('w, 'a) action" where
  "act_catch m h s =
     (case m s of
        (Raised (TransferErr code message), s') \<Rightarrow> h code message s'
      | other \<Rightarrow> other)"

definition act_catch_all :: "('w, 'a) action \<Rightarrow> (transfer_exception \<Rightarrow> ('w, 'a) action) \<Rightarrow> ('w, 'a) action" where
  "act_catch_all m h s = (case m s of (Raised e, s') \<Rightarrow> h e s' | other \<Rightarrow> other)"

text \<open>An action whose \<^verbatim>\<open>TransferError\<close> is handled at once, and one whose exceptions are ignored.\<close>

definition attempt :: "('w, 'a) action \<Rightarrow> ('w, (transfer_error_code \<times> string) + 'a) action" where
  "attempt m = act_catch (act_bind m (\<lambda>x. act_return (Inr x))) (\<lambda>code message. act_return (Inl (code, message)))"

definition swallow :: "('w, unit) action \<Rightarrow> ('w, unit) action" where
  "swallow m = act_catch_all m (\<lambda>_. act_return ())"

definition act_when :: "bool \<Rightarrow> ('w, unit) action \<Rightarrow> ('w, unit) action" where
  "act_when b m = (if b then m else act_return ())"

definition throw_if :: "bool \<Rightarrow> transfer_error_code \<Rightarrow> string \<Rightarrow> ('w, unit) action" where
  "throw_if b code message = act_when b (act_throw (TransferErr code message))"

definition the_cell :: "('w, snapshot_cell) action" where
  "the_cell s = (Done (ts_cell s), s)"

definition set_cell :: "(snapshot_cell \<Rightarrow> snapshot_cell) \<Rightarrow> ('w, unit) action" where
  "set_cell f s = (Done (), s\<lparr>ts_cell := f (ts_cell s)\<rparr>)"

text \<open>A call: the answer of the world, and its entry in the log.\<close>

definition ask :: "('w \<Rightarrow> 'a \<times> 'w) \<Rightarrow> ('a \<Rightarrow> event) \<Rightarrow> ('w, 'a) action" where
  "ask f entry s =
     (case f (ts_world s) of (a, w) \<Rightarrow> (Done a, s\<lparr>ts_world := w, ts_log := ts_log s @ [entry a]\<rparr>))"

definition raise_left :: "transfer_exception + 'a \<Rightarrow> ('w, 'a) action" where
  "raise_left r = (case r of Inl e \<Rightarrow> act_throw e | Inr x \<Rightarrow> act_return x)"

definition invoke :: "('w \<Rightarrow> (transfer_exception + 'a) \<times> 'w) \<Rightarrow> (transfer_exception + 'a \<Rightarrow> event) \<Rightarrow> ('w, 'a) action" where
  "invoke f entry = act_bind (ask f entry) raise_left"

text \<open>The clocks leave no entry.\<close>

definition read_clock :: "('w \<Rightarrow> int \<times> 'w) \<Rightarrow> ('w, int) action" where
  "read_clock f s = (case f (ts_world s) of (t, w) \<Rightarrow> (Done t, s\<lparr>ts_world := w\<rparr>))"

definition tell :: "('w \<Rightarrow> 'w) \<Rightarrow> event \<Rightarrow> ('w, unit) action" where
  "tell f entry s = (Done (), s\<lparr>ts_world := f (ts_world s), ts_log := ts_log s @ [entry]\<rparr>)"

subsection \<open>The calls\<close>

definition cancelled :: "'w transfer_env \<Rightarrow> ('w, bool) action" where
  "cancelled env = ask (te_cancelled (env_host env)) EvCancelled"

definition lstat :: "'w transfer_env \<Rightarrow> string \<Rightarrow> string \<Rightarrow> ('w, remote_stat option) action" where
  "lstat env server path = invoke (te_lstat (env_backend env) server path) (\<lambda>r. Remote (RLstat server path r))"

definition list_dir :: "'w transfer_env \<Rightarrow> string \<Rightarrow> string \<Rightarrow> ('w, (string \<times> remote_stat) list) action" where
  "list_dir env server path = invoke (te_list_dir (env_backend env) server path) (\<lambda>r. Remote (RListDir server path r))"

definition open_read :: "'w transfer_env \<Rightarrow> string \<Rightarrow> string \<Rightarrow> ('w, nat) action" where
  "open_read env server path = invoke (te_open_read (env_backend env) server path) (\<lambda>r. Remote (ROpenRead server path r))"

definition remote_read :: "'w transfer_env \<Rightarrow> nat \<Rightarrow> nat \<Rightarrow> ('w, string) action" where
  "remote_read env h amount = invoke (te_read (env_backend env) h amount) (\<lambda>r. Remote (RRead h r))"

definition create_exclusive :: "'w transfer_env \<Rightarrow> string \<Rightarrow> string \<Rightarrow> ('w, nat) action" where
  "create_exclusive env server path = invoke (te_create_exclusive (env_backend env) server path) (\<lambda>r. Remote (RCreate server path r))"

definition remote_write :: "'w transfer_env \<Rightarrow> nat \<Rightarrow> string \<Rightarrow> ('w, unit) action" where
  "remote_write env h data = invoke (te_write (env_backend env) h data) (\<lambda>r. Remote (RWrite h data r))"

definition remote_finish :: "'w transfer_env \<Rightarrow> nat \<Rightarrow> ('w, unit) action" where
  "remote_finish env h = invoke (te_finish (env_backend env) h) (\<lambda>r. Remote (RFinish h r))"

definition remote_close :: "'w transfer_env \<Rightarrow> nat \<Rightarrow> ('w, unit) action" where
  "remote_close env h = tell (te_close (env_backend env) h) (Remote (RClose h))"

definition create_dir :: "'w transfer_env \<Rightarrow> string \<Rightarrow> string \<Rightarrow> ('w, unit) action" where
  "create_dir env server path = invoke (te_create_dir (env_backend env) server path) (\<lambda>r. Remote (RMkdir server path r))"

definition remove_file :: "'w transfer_env \<Rightarrow> string \<Rightarrow> string \<Rightarrow> ('w, unit) action" where
  "remove_file env server path = invoke (te_remove_file (env_backend env) server path) (\<lambda>r. Remote (RRemove server path r))"

definition publish_no_replace :: "'w transfer_env \<Rightarrow> string \<Rightarrow> string \<Rightarrow> string \<Rightarrow> ('w, unit) action" where
  "publish_no_replace env server source destination =
     invoke (te_publish (env_backend env) server source destination) (\<lambda>r. Remote (RPublish server source destination r))"

definition rename_replace :: "'w transfer_env \<Rightarrow> string \<Rightarrow> string \<Rightarrow> string \<Rightarrow> ('w, unit) action" where
  "rename_replace env server source destination =
     invoke (te_rename_replace (env_backend env) server source destination) (\<lambda>r. Remote (RReplace server source destination r))"

definition symlink_status :: "'w transfer_env \<Rightarrow> string \<Rightarrow> ('w, file_type \<times> os_error option) action" where
  "symlink_status env path = ask (te_symlink_status (env_files env) path) (\<lambda>(t, e). Local (LStatus path t e))"

definition file_size :: "'w transfer_env \<Rightarrow> string \<Rightarrow> ('w, os_error + 64 word) action" where
  "file_size env path = ask (te_file_size (env_files env) path) (\<lambda>r. Local (LSize path r))"

definition last_write_time :: "'w transfer_env \<Rightarrow> string \<Rightarrow> ('w, int option) action" where
  "last_write_time env path = ask (te_write_time (env_files env) path) (\<lambda>r. Local (LTime path r))"

subsection \<open>Weakest preconditions\<close>

text \<open>
  \<open>wp m Q s\<close>: the action \<open>m\<close>, run in \<open>s\<close>, ends with an outcome and a state in \<open>Q\<close>.
\<close>

definition wp :: "('w, 'a) action \<Rightarrow> ('a outcome \<Rightarrow> 'w transfer_state \<Rightarrow> bool) \<Rightarrow> 'w transfer_state \<Rightarrow> bool" where
  "wp m Q s \<longleftrightarrow> (case m s of (r, s') \<Rightarrow> Q r s')"

named_theorems wp_simps

lemma wp_return [wp_simps]: "wp (act_return x) Q s \<longleftrightarrow> Q (Done x) s"
  by (simp add: wp_def act_return_def)

lemma wp_throw [wp_simps]: "wp (act_throw e) Q s \<longleftrightarrow> Q (Raised e) s"
  by (simp add: wp_def act_throw_def)

lemma wp_hang [wp_simps]: "wp act_hang Q s \<longleftrightarrow> Q Hung s"
  by (simp add: wp_def act_hang_def)

lemma wp_bind [wp_simps]:
  "wp (act_bind m f) Q s \<longleftrightarrow>
   wp m (\<lambda>r s'. case r of Done x \<Rightarrow> wp (f x) Q s' | Raised e \<Rightarrow> Q (Raised e) s' | Hung \<Rightarrow> Q Hung s') s"
  by (auto simp: wp_def act_bind_def split: prod.splits outcome.splits)

lemma wp_catch [wp_simps]:
  "wp (act_catch m h) Q s \<longleftrightarrow>
   wp m (\<lambda>r s'. case r of
       Raised (TransferErr code message) \<Rightarrow> wp (h code message) Q s'
     | _ \<Rightarrow> Q r s') s"
  by (auto simp: wp_def act_catch_def split: prod.splits outcome.splits transfer_exception.splits)

lemma wp_catch_all [wp_simps]:
  "wp (act_catch_all m h) Q s \<longleftrightarrow> wp m (\<lambda>r s'. case r of Raised e \<Rightarrow> wp (h e) Q s' | _ \<Rightarrow> Q r s') s"
  by (auto simp: wp_def act_catch_all_def split: prod.splits outcome.splits)

lemma wp_attempt [wp_simps]:
  "wp (attempt m) Q s \<longleftrightarrow>
   wp m (\<lambda>r s'. case r of
       Done x \<Rightarrow> Q (Done (Inr x)) s'
     | Raised (TransferErr code message) \<Rightarrow> Q (Done (Inl (code, message))) s'
     | Raised OtherException \<Rightarrow> Q (Raised OtherException) s'
     | Hung \<Rightarrow> Q Hung s') s"
  by (auto simp: attempt_def act_catch_def act_bind_def act_return_def wp_def
      split: prod.splits outcome.splits transfer_exception.splits)

lemma wp_swallow [wp_simps]:
  "wp (swallow m) Q s \<longleftrightarrow> wp m (\<lambda>r s'. case r of Raised e \<Rightarrow> Q (Done ()) s' | _ \<Rightarrow> Q r s') s"
  by (simp add: swallow_def wp_catch_all wp_return cong: outcome.case_cong)

lemma wp_when [wp_simps]: "wp (act_when b m) Q s \<longleftrightarrow> (if b then wp m Q s else Q (Done ()) s)"
  by (simp add: act_when_def wp_return)

lemma wp_throw_if [wp_simps]:
  "wp (throw_if b code message) Q s \<longleftrightarrow> (if b then Q (Raised (TransferErr code message)) s else Q (Done ()) s)"
  by (simp add: throw_if_def wp_when wp_throw)

lemma wp_the_cell [wp_simps]: "wp the_cell Q s \<longleftrightarrow> Q (Done (ts_cell s)) s"
  by (simp add: wp_def the_cell_def)

lemma wp_set_cell [wp_simps]: "wp (set_cell f) Q s \<longleftrightarrow> Q (Done ()) (s\<lparr>ts_cell := f (ts_cell s)\<rparr>)"
  by (simp add: wp_def set_cell_def)

lemma wp_raise_left [wp_simps]:
  "wp (raise_left r) Q s \<longleftrightarrow> (case r of Inl e \<Rightarrow> Q (Raised e) s | Inr x \<Rightarrow> Q (Done x) s)"
  by (simp add: raise_left_def wp_return wp_throw split: sum.split)

lemma wp_mono: "wp m Q s \<Longrightarrow> (\<And>r s'. Q r s' \<Longrightarrow> R r s') \<Longrightarrow> wp m R s"
  by (auto simp: wp_def)

text \<open>The world may answer anything: a call meets \<open>Q\<close> if every answer does.\<close>

lemma wp_askI: "(\<And>a w. Q (Done a) (s\<lparr>ts_world := w, ts_log := ts_log s @ [entry a]\<rparr>)) \<Longrightarrow> wp (ask f entry) Q s"
  by (auto simp: wp_def ask_def split: prod.splits)

lemma wp_invokeI:
  "(\<And>e w. Q (Raised e) (s\<lparr>ts_world := w, ts_log := ts_log s @ [entry (Inl e)]\<rparr>)) \<Longrightarrow>
   (\<And>a w. Q (Done a) (s\<lparr>ts_world := w, ts_log := ts_log s @ [entry (Inr a)]\<rparr>)) \<Longrightarrow> wp (invoke f entry) Q s"
  unfolding invoke_def wp_bind by (rule wp_askI) (auto simp: wp_raise_left split: sum.split)

lemma wp_clockI: "(\<And>t w. Q (Done t) (s\<lparr>ts_world := w\<rparr>)) \<Longrightarrow> wp (read_clock f) Q s"
  by (auto simp: wp_def read_clock_def split: prod.splits)

lemma wp_tell: "wp (tell f entry) Q s \<longleftrightarrow> Q (Done ()) (s\<lparr>ts_world := f (ts_world s), ts_log := ts_log s @ [entry]\<rparr>)"
  by (simp add: wp_def tell_def)

end
