(* ===== verification/TransferCell.thy ===== *)
theory TransferCell
  imports TransferWorld
begin

text \<open>
  The snapshot of a transfer and how it reaches the ledger and the listeners
  (\<^verbatim>\<open>SnapshotCell\<close>, \<^verbatim>\<open>SnapshotGuard\<close> and the mutation helpers of
  \<^verbatim>\<open>src/native/desktop_host/src/transfer_manager.cpp\<close>).  A guarded mutation holds the mutex of
  the cell until it is committed, so it is one action here.
\<close>

subsection \<open>Names and paths\<close>

definition basename_of :: "string \<Rightarrow> string" where
  "basename_of path = (case rfind_char (CHR ''/'') path of None \<Rightarrow> path | Some slash \<Rightarrow> drop (slash + 1) path)"

definition parent_of :: "string \<Rightarrow> string" where
  "parent_of path =
     (case rfind_char (CHR ''/'') path of
        None \<Rightarrow> ''/''
      | Some slash \<Rightarrow> if slash = 0 then ''/'' else take slash path)"

text \<open>\<^verbatim>\<open>truncate_utf8\<close>: the first \<open>max_chars\<close> code points, by their lead bytes.\<close>

definition utf8_width :: "char \<Rightarrow> nat" where
  "utf8_width c = (if 0xF0 \<le> byte c then 4 else if 0xE0 \<le> byte c then 3 else if 0xC0 \<le> byte c then 2 else 1)"

fun truncate_utf8 :: "string \<Rightarrow> nat \<Rightarrow> string" where
  "truncate_utf8 value 0 = []"
| "truncate_utf8 [] (Suc n) = []"
| "truncate_utf8 (c # cs) (Suc n) =
     take (utf8_width c) (c # cs) @ truncate_utf8 (drop (utf8_width c) (c # cs)) n"

definition input_error_message :: "transfer_input_error \<Rightarrow> string" where
  "input_error_message e =
     (case e of
        UnsafeName \<Rightarrow> ''the file name cannot be transferred safely''
      | InvalidRemotePath \<Rightarrow> ''the remote transfer path is invalid''
      | InvalidConflictAction \<Rightarrow> ''the transfer conflict action is invalid''
      | InvalidConflictRename \<Rightarrow> ''the transfer conflict rename is invalid'')"

definition checked :: "transfer_input_error + 'a \<Rightarrow> ('w, 'a) action" where
  "checked r =
     (case r of
        Inl e \<Rightarrow> act_throw (TransferErr ErrInvalidInput (input_error_message e))
      | Inr x \<Rightarrow> act_return x)"

definition safe_name :: "string \<Rightarrow> ('w, string) action" where
  "safe_name name = act_bind (checked (validate_safe_name name)) (\<lambda>_. act_return name)"

definition remote_child_checked :: "string \<Rightarrow> string \<Rightarrow> ('w, string) action" where
  "remote_child_checked parent name = checked (remote_child parent name)"

definition validate_remote_path :: "string \<Rightarrow> ('w, unit) action" where
  "validate_remote_path path = checked (validate_transfer_remote_path path)"

definition remote_path_is_valid :: "string \<Rightarrow> bool" where
  "remote_path_is_valid path \<longleftrightarrow> validate_transfer_remote_path path = Inr ()"

subsection \<open>The ledger and the listeners\<close>

definition ledger_update :: "'w transfer_env \<Rightarrow> transfer_snapshot \<Rightarrow> staging_file list \<Rightarrow> ('w, string + unit) action" where
  "ledger_update env snapshot staging = ask (te_ledger_update (env_host env) snapshot staging) (EvLedger snapshot staging)"

definition ledger_insert :: "'w transfer_env \<Rightarrow> transfer_snapshot \<Rightarrow> staging_file list \<Rightarrow> ('w, string + unit) action" where
  "ledger_insert env snapshot staging = ask (te_ledger_insert (env_host env) snapshot staging) (EvInsert snapshot staging)"

definition publish :: "'w transfer_env \<Rightarrow> transfer_snapshot \<Rightarrow> ('w, unit) action" where
  "publish env snapshot = tell (te_notify (env_host env) snapshot) (EvNotify snapshot)"

definition touch_at :: "int \<Rightarrow> transfer_snapshot \<Rightarrow> transfer_snapshot" where
  "touch_at now snapshot = snapshot\<lparr>sn_updated_at := epoch_millis now\<rparr>"

definition persist_quiet :: "'w transfer_env \<Rightarrow> ('w, unit) action" where
  "persist_quiet env =
     act_bind the_cell (\<lambda>c.
     act_when (sc_history c) (act_bind (ledger_update env (sc_snapshot c) (sc_staging c)) (\<lambda>_. act_return ())))"

text \<open>\<^verbatim>\<open>SnapshotGuard::commit\<close>.\<close>

definition commit :: "'w transfer_env \<Rightarrow> bool \<Rightarrow> ('w, unit) action" where
  "commit env force =
     act_bind the_cell (\<lambda>c.
     act_bind (read_clock (te_steady (env_host env))) (\<lambda>now.
     let status = sn_status (sc_snapshot c);
         should_publish = (sc_last_status c \<noteq> status \<or> 100 \<le> now - sc_last_time c)
     in
     act_bind (act_when should_publish (set_cell (\<lambda>c. c\<lparr>sc_last_time := now, sc_last_status := status\<rparr>))) (\<lambda>_.
     act_bind (act_when (should_publish \<or> force) (persist_quiet env)) (\<lambda>_.
     act_when should_publish (publish env (sc_snapshot c))))))"

text \<open>A guard: the mutation \<open>f\<close>, \<^verbatim>\<open>touch\<close>, and the commit of its destructor.\<close>

definition cell_write :: "'w transfer_env \<Rightarrow> bool \<Rightarrow> (transfer_snapshot \<Rightarrow> transfer_snapshot) \<Rightarrow> ('w, unit) action" where
  "cell_write env force f =
     act_bind (read_clock (te_clock (env_host env))) (\<lambda>now.
     act_bind (set_cell (\<lambda>c. c\<lparr>sc_snapshot := touch_at now (f (sc_snapshot c))\<rparr>)) (\<lambda>_.
     commit env force))"

definition persist_initial :: "'w transfer_env \<Rightarrow> ('w, unit) action" where
  "persist_initial env =
     act_bind the_cell (\<lambda>c.
     act_when (sc_history c)
       (act_bind (ledger_insert env (sc_snapshot c) (sc_staging c)) (\<lambda>r.
        case r of
          Inl what \<Rightarrow> act_throw (TransferErr ErrLocal (''could not persist transfer history: '' @ what))
        | Inr _ \<Rightarrow> act_return ())))"

definition persist_now :: "'w transfer_env \<Rightarrow> ('w, unit) action" where
  "persist_now env =
     act_bind the_cell (\<lambda>c.
     act_when (sc_history c)
       (act_bind (ledger_update env (sc_snapshot c) (sc_staging c)) (\<lambda>r.
        case r of
          Inl what \<Rightarrow> act_throw (TransferErr ErrLocal (''could not persist transfer state: '' @ what))
        | Inr _ \<Rightarrow> act_return ())))"

definition add_staging :: "'w transfer_env \<Rightarrow> staging_file \<Rightarrow> ('w, unit) action" where
  "add_staging env artifact =
     act_bind (set_cell (\<lambda>c. c\<lparr>sc_staging := sc_staging c @ [artifact]\<rparr>)) (\<lambda>_.
     act_bind (cell_write env True (\<lambda>sn. sn)) (\<lambda>_.
     persist_now env))"

definition remove_staging :: "'w transfer_env \<Rightarrow> staging_file \<Rightarrow> ('w, unit) action" where
  "remove_staging env artifact =
     act_bind (set_cell (\<lambda>c. c\<lparr>sc_staging := filter (\<lambda>current. current \<noteq> artifact) (sc_staging c)\<rparr>)) (\<lambda>_.
     act_bind (cell_write env True (\<lambda>sn. sn)) (\<lambda>_.
     persist_now env))"

definition clear_item :: "transfer_snapshot \<Rightarrow> transfer_snapshot" where
  "clear_item sn = sn\<lparr>sn_current_item := None, sn_current_item_bytes := 0, sn_current_item_total_bytes := None\<rparr>"

definition ledger_failure :: item_failure where
  "ledger_failure =
     \<lparr>if_item_index = None, if_item = ''transfer history'', if_kind = LocalIo,
      if_message = ''the final transfer state could not be saved; verify the destination before retrying'',
      if_staging_residue = None\<rparr>"

text \<open>\<^verbatim>\<open>finalize_status\<close>: the first attempt, and the fallback where the ledger refused it.\<close>

definition save_terminal :: "'w transfer_env \<Rightarrow> ('w, unit) action" where
  "save_terminal env =
     act_bind the_cell (\<lambda>c.
     act_when (sc_history c)
       (act_bind (ledger_update env (sc_snapshot c) (sc_staging c)) (\<lambda>r.
        case r of
          Inr _ \<Rightarrow> act_return ()
        | Inl _ \<Rightarrow>
            act_bind (read_clock (te_clock (env_host env))) (\<lambda>now.
            act_bind (set_cell (\<lambda>c. c\<lparr>sc_snapshot := touch_at now ((sc_snapshot c)
              \<lparr>sn_status := Failed, sn_failures := sn_failures (sc_snapshot c) @ [ledger_failure]\<rparr>)\<rparr>)) (\<lambda>_.
            act_bind the_cell (\<lambda>c'.
            act_bind (ledger_update env (sc_snapshot c') (sc_staging c)) (\<lambda>_. act_return ())))))))"

definition finalize_status :: "'w transfer_env \<Rightarrow> transfer_status \<Rightarrow> ('w, unit) action" where
  "finalize_status env requested =
     act_bind (read_clock (te_clock (env_host env))) (\<lambda>now.
     act_bind (set_cell (\<lambda>c. c\<lparr>sc_snapshot := touch_at now ((clear_item (sc_snapshot c))
       \<lparr>sn_active_conflict := None, sn_status := requested\<rparr>)\<rparr>)) (\<lambda>_.
     act_bind (save_terminal env) (\<lambda>_.
     act_bind (read_clock (te_steady (env_host env))) (\<lambda>steady.
     act_bind (set_cell (\<lambda>c. c\<lparr>sc_last_time := steady, sc_last_status := sn_status (sc_snapshot c)\<rparr>)) (\<lambda>_.
     act_bind the_cell (\<lambda>c. publish env (sc_snapshot c)))))))"

definition publish_initial :: "'w transfer_env \<Rightarrow> ('w, unit) action" where
  "publish_initial env = act_bind the_cell (\<lambda>c. publish env (sc_snapshot c))"

subsection \<open>Mutations\<close>

definition push_failure :: "'w transfer_env \<Rightarrow> item_failure \<Rightarrow> ('w, unit) action" where
  "push_failure env failure =
     cell_write env False (\<lambda>sn. clear_item (sn
       \<lparr>sn_staging_residue := sn_staging_residue sn @
          (case if_staging_residue failure of Some residue \<Rightarrow> [residue] | None \<Rightarrow> []),
        sn_failures := sn_failures sn @ [failure]\<rparr>))"

definition failure_for ::
  "64 word option \<Rightarrow> string \<Rightarrow> transfer_error_code \<Rightarrow> string \<Rightarrow> string option \<Rightarrow> item_failure" where
  "failure_for item_index item code message residue =
     \<lparr>if_item_index = item_index, if_item = item, if_kind = failure_kind code, if_message = message,
      if_staging_residue = residue\<rparr>"

definition note_staging_residue ::
  "'w transfer_env \<Rightarrow> 64 word \<Rightarrow> string \<Rightarrow> transfer_error_code \<Rightarrow> string \<Rightarrow> ('w, unit) action" where
  "note_staging_residue env item_index path code message =
     push_failure env (failure_for (Some item_index) path code message (Some path))"

definition value_or :: "'a option \<Rightarrow> 'a \<Rightarrow> 'a" where
  "value_or x d = (case x of Some v \<Rightarrow> v | None \<Rightarrow> d)"

definition allocate_file :: "'w transfer_env \<Rightarrow> 64 word \<Rightarrow> ('w, 64 word) action" where
  "allocate_file env bytes =
     act_bind the_cell (\<lambda>c.
     let index = value_or (sn_total_files (sc_snapshot c)) 0 in
     act_bind (cell_write env False (\<lambda>sn. sn
       \<lparr>sn_total_files := Some (index + 1), sn_total_bytes := Some (value_or (sn_total_bytes sn) 0 + bytes)\<rparr>)) (\<lambda>_.
     act_return index))"

definition begin_item :: "'w transfer_env \<Rightarrow> string \<Rightarrow> 64 word \<Rightarrow> ('w, unit) action" where
  "begin_item env label total_bytes =
     cell_write env False (\<lambda>sn. sn
       \<lparr>sn_current_item := Some label, sn_current_item_bytes := 0, sn_current_item_total_bytes := Some total_bytes\<rparr>)"

definition complete_item :: "'w transfer_env \<Rightarrow> bool \<Rightarrow> ('w, unit) action" where
  "complete_item env verified =
     cell_write env False (\<lambda>sn. clear_item
       (let sn' = sn\<lparr>sn_completed_files := sn_completed_files sn + 1\<rparr> in
        if verified then sn'\<lparr>sn_verified_files := sn_verified_files sn' + 1\<rparr>
        else sn'\<lparr>sn_unverified_files := sn_unverified_files sn' + 1\<rparr>))"

definition skip_item :: "'w transfer_env \<Rightarrow> ('w, unit) action" where
  "skip_item env = cell_write env False (\<lambda>sn. clear_item (sn\<lparr>sn_skipped_files := sn_skipped_files sn + 1\<rparr>))"

definition push_recovery_failure ::
  "int \<Rightarrow> 64 word \<Rightarrow> string \<Rightarrow> transfer_failure_kind \<Rightarrow> string \<Rightarrow> transfer_snapshot \<Rightarrow> transfer_snapshot" where
  "push_recovery_failure now item_index whole_item kind whole_message sn =
     (let item = truncate_utf8 whole_item 256;
          message = truncate_utf8 whole_message 512;
          duplicate = list_ex (\<lambda>f. if_item_index f = Some item_index \<and> if_item f = item \<and> if_message f = message)
            (sn_failures sn)
      in touch_at now
        (if duplicate then sn
         else sn\<lparr>sn_staging_residue := sn_staging_residue sn @ [item],
                sn_failures := sn_failures sn @
                  [\<lparr>if_item_index = Some item_index, if_item = item, if_kind = kind, if_message = message,
                    if_staging_residue = Some item\<rparr>]\<rparr>))"

end
