(* ===== verification/TransferLocal.thy ===== *)
theory TransferLocal
  imports TransferCell
begin

text \<open>
  The local side of a transfer (\<^verbatim>\<open>src/native/desktop_host/src/transfer_local.cpp\<close>): fingerprints,
  the exclusive staging file of a download, its publication, and the recovery of a staging file
  left by an earlier run.
\<close>

abbreviation throw_local :: "string \<Rightarrow> ('w, 'a) action" where
  "throw_local message \<equiv> act_throw (TransferErr ErrLocal message)"

abbreviation throw_invalid :: "string \<Rightarrow> ('w, 'a) action" where
  "throw_invalid message \<equiv> act_throw (TransferErr ErrInvalidInput message)"

definition status_missing :: "file_type \<Rightarrow> os_error option \<Rightarrow> bool" where
  "status_missing t e \<longleftrightarrow> t = NotFound \<or> e = Some NoSuchFile"

definition fingerprint_for :: "'w transfer_env \<Rightarrow> string \<Rightarrow> ('w, local_fingerprint) action" where
  "fingerprint_for env path =
     act_bind (file_size env path) (\<lambda>r.
     case r of
       Inl e \<Rightarrow> throw_local (''could not read local file size: '' @ os_message e)
     | Inr bytes \<Rightarrow>
         act_bind (last_write_time env path) (\<lambda>modified.
         act_return \<lparr>lf_size = bytes, lf_modified = modified\<rparr>))"

definition local_source_fingerprint :: "'w transfer_env \<Rightarrow> string \<Rightarrow> ('w, local_fingerprint) action" where
  "local_source_fingerprint env path =
     act_bind (symlink_status env path) (\<lambda>(t, e).
     if status_missing t e then throw_local ''could not inspect local source''
     else case e of
         Some err \<Rightarrow> throw_local (''could not inspect local source: '' @ os_message err)
       | None \<Rightarrow>
           if t \<noteq> RegularFile then throw_invalid ''only regular selected files can be transferred''
           else fingerprint_for env path)"

definition open_local_source :: "'w transfer_env \<Rightarrow> string \<Rightarrow> ('w, nat \<times> local_fingerprint) action" where
  "open_local_source env path =
     act_bind (local_source_fingerprint env path) (\<lambda>before.
     act_bind (ask (te_open_local (env_files env) path) (\<lambda>r. Local (LOpen path r))) (\<lambda>h.
     case h of
       None \<Rightarrow> throw_local ''could not open the local source file''
     | Some stream \<Rightarrow> act_return (stream, before)))"

definition verify_local_source_unchanged :: "'w transfer_env \<Rightarrow> string \<Rightarrow> local_fingerprint \<Rightarrow> ('w, unit) action" where
  "verify_local_source_unchanged env path initial =
     act_bind (symlink_status env path) (\<lambda>(t, e).
     if e \<noteq> None \<and> \<not> status_missing t e
     then throw_local (''could not inspect local source: '' @ (case e of Some err \<Rightarrow> os_message err | None \<Rightarrow> []))
     else
       act_bind (if status_missing t e \<or> t \<noteq> RegularFile then act_return False
                 else act_bind (fingerprint_for env path) (\<lambda>now. act_return (now = initial))) (\<lambda>same.
       throw_if (\<not> same) ErrSourceChanged ''selected local source changed while it was being uploaded''))"

definition read_local_directory :: "'w transfer_env \<Rightarrow> string \<Rightarrow> ('w, string list) action" where
  "read_local_directory env path =
     act_bind (symlink_status env path) (\<lambda>(t, e).
     if status_missing t e then throw_local ''could not inspect local directory''
     else case e of
         Some err \<Rightarrow> throw_local (''could not inspect local directory: '' @ os_message err)
       | None \<Rightarrow>
           if t \<noteq> DirectoryFile then throw_invalid ''only real directories can be traversed''
           else
             act_bind (ask (te_iterate (env_files env) path) (\<lambda>r. Local (LIterate path r))) (\<lambda>entries.
             case entries of
               None \<Rightarrow> throw_local ''could not read the local directory''
             | Some paths \<Rightarrow> act_return (sort_key (te_components (env_paths env)) paths)))"

fun local_stage_attempts ::
  "'w transfer_env \<Rightarrow> string \<Rightarrow> string \<Rightarrow> string \<Rightarrow> 64 word \<Rightarrow> nat list \<Rightarrow> ('w, string \<times> nat) action" where
  "local_stage_attempts env parent name transfer_id item_index [] =
     act_throw (TransferErr ErrUnsupported ''could not allocate a unique local staging file after 32 attempts'')"
| "local_stage_attempts env parent name transfer_id item_index (k # ks) =
     (let staging = te_join (env_paths env) parent (stage_name transfer_id name (unat item_index) k) in
      act_bind (ask (te_fopen_exclusive (env_files env) staging) (\<lambda>r. Local (LCreate staging r))) (\<lambda>r.
      case r of
        Opened h \<Rightarrow> act_return (staging, h)
      | Exists \<Rightarrow> local_stage_attempts env parent name transfer_id item_index ks
      | CannotOpen \<Rightarrow> throw_local ''could not create a local staging file''))"

definition create_local_staging_file ::
  "'w transfer_env \<Rightarrow> string \<Rightarrow> string \<Rightarrow> 64 word \<Rightarrow> ('w, string \<times> nat) action" where
  "create_local_staging_file env target transfer_id item_index =
     (let parent = te_parent (env_paths env) target; name = te_filename (env_paths env) target in
      if parent = [] then throw_invalid ''download destination has no parent directory''
      else if name = [] then throw_invalid ''download destination file name is not valid UTF-8''
      else local_stage_attempts env parent name transfer_id item_index [0..<32])"

text \<open>\<^verbatim>\<open>LocalStagingFile::write\<close> and \<^verbatim>\<open>close\<close> on an open file.\<close>

definition staging_write :: "'w transfer_env \<Rightarrow> nat \<Rightarrow> string \<Rightarrow> ('w, unit) action" where
  "staging_write env h data =
     (if data = [] then act_return ()
      else
        act_bind (ask (te_fwrite (env_files env) h data) (\<lambda>r. Local (LWrite h data r))) (\<lambda>ok.
        throw_if (\<not> ok) ErrLocal ''could not write to the local staging file''))"

definition staging_close :: "'w transfer_env \<Rightarrow> nat \<Rightarrow> ('w, unit) action" where
  "staging_close env h =
     act_bind (ask (te_fflush (env_files env) h) (\<lambda>r. Local (LFlush h r))) (\<lambda>flushed.
     act_bind (ask (te_fclose (env_files env) h) (\<lambda>r. Local (LFinish h r))) (\<lambda>closed.
     if \<not> flushed then throw_local ''could not flush the local staging file''
     else throw_if (\<not> closed) ErrLocal ''could not close the local staging file''))"

definition staging_drop :: "'w transfer_env \<Rightarrow> nat \<Rightarrow> ('w, unit) action" where
  "staging_drop env h = tell (te_drop_local (env_files env) h) (Local (LClose h))"

definition local_remove :: "'w transfer_env \<Rightarrow> string \<Rightarrow> ('w, bool) action" where
  "local_remove env path = ask (te_remove_local (env_files env) path) (\<lambda>r. Local (LRemove path r))"

definition publish_local_no_replace :: "'w transfer_env \<Rightarrow> string \<Rightarrow> string \<Rightarrow> ('w, unit) action" where
  "publish_local_no_replace env staging destination =
     act_bind (ask (te_hard_link (env_files env) staging destination) (\<lambda>r. Local (LLink staging destination r))) (\<lambda>linked.
     if \<not> linked then
       act_bind (ask (te_exists (env_files env) destination) (\<lambda>r. Local (LExists destination r))) (\<lambda>exists.
       if exists then throw_invalid ''destination appeared during publication''
       else act_throw (TransferErr ErrUnsupported ''this filesystem cannot publish a download without replacement''))
     else
       act_bind (local_remove env staging) (\<lambda>removed.
       throw_if (\<not> removed) ErrLocal ''could not remove the local staging file''))"

definition publish_local_replace ::
  "'w transfer_env \<Rightarrow> string \<Rightarrow> string \<Rightarrow> local_fingerprint \<Rightarrow> ('w, unit) action" where
  "publish_local_replace env staging destination expected =
     act_bind (symlink_status env destination) (\<lambda>(t, e).
     if e \<noteq> None \<and> \<not> status_missing t e then throw_local ''could not inspect the overwrite target''
     else if status_missing t e \<or> t \<noteq> RegularFile
     then throw_invalid ''overwrite target is no longer a regular file''
     else
       act_bind (fingerprint_for env destination) (\<lambda>now.
       if now \<noteq> expected then throw_invalid ''overwrite target changed while the transfer was staged''
       else
         act_bind (ask (te_rename_local (env_files env) staging destination)
             (\<lambda>r. Local (LReplace staging destination r))) (\<lambda>ok.
         throw_if (\<not> ok) ErrLocal ''could not replace the download destination'')))"

definition remove_local_staging :: "'w transfer_env \<Rightarrow> string \<Rightarrow> ('w, unit) action" where
  "remove_local_staging env path =
     act_bind (local_remove env path) (\<lambda>removed.
     throw_if (\<not> removed) ErrLocal ''could not remove the local staging file'')"

definition remove_recovered_local_staging :: "'w transfer_env \<Rightarrow> string \<Rightarrow> string \<Rightarrow> ('w, unit) action" where
  "remove_recovered_local_staging env path transfer_id =
     (if \<not> te_is_absolute (env_paths env) path \<or>
         \<not> is_owned_staging_name (te_filename (env_paths env) path) transfer_id
      then throw_invalid ''recovered staging path is not owned by this transfer''
      else
        act_bind (symlink_status env (te_parent (env_paths env) path)) (\<lambda>(pt, pe).
        if pe \<noteq> None \<or> pt \<noteq> DirectoryFile then throw_invalid ''recovered staging parent is not a real directory''
        else
          act_bind (symlink_status env path) (\<lambda>(t, e).
          if status_missing t e then act_return ()
          else if e \<noteq> None then throw_local ''could not inspect the recovered staging file''
          else if t \<noteq> RegularFile then throw_invalid ''recovered staging entry is not a regular file''
          else
            act_bind (local_remove env path) (\<lambda>removed.
            throw_if (\<not> removed) ErrLocal ''could not remove the recovered staging file''))))"

definition ensure_download_directory :: "'w transfer_env \<Rightarrow> string \<Rightarrow> ('w, unit) action" where
  "ensure_download_directory env path =
     act_bind (symlink_status env path) (\<lambda>(t, e).
     if status_missing t e then throw_invalid ''download destination does not exist''
     else if e \<noteq> None then throw_local ''could not inspect the download destination''
     else throw_if (t \<noteq> DirectoryFile) ErrInvalidInput ''download destination is not a real directory'')"

definition path_fingerprint_if_regular :: "'w transfer_env \<Rightarrow> string \<Rightarrow> ('w, local_fingerprint option) action" where
  "path_fingerprint_if_regular env path =
     act_bind (symlink_status env path) (\<lambda>(t, e).
     if status_missing t e then act_return None
     else if e \<noteq> None then throw_local ''could not inspect the local destination''
     else if t = SymlinkFile then throw_invalid ''destination is a symbolic link or reparse point''
     else if t \<noteq> RegularFile then throw_invalid ''destination already exists and is not a regular file''
     else act_bind (fingerprint_for env path) (\<lambda>f. act_return (Some f)))"

end
