(* ===== verification/TransferEngine.thy ===== *)
theory TransferEngine
  imports TransferLocal
begin

text \<open>
  One file of a transfer (\<^verbatim>\<open>src/native/desktop_host/src/transfer_manager.cpp\<close>): the walk along a
  remote path, the copy loop, the remote staging file, conflicts, and \<^verbatim>\<open>upload_file\<close> and
  \<^verbatim>\<open>download_file\<close>.  The loops that only the other side can end (copying, hashing and
  waiting for a decision) take the fuel of the environment as their number of rounds.
\<close>

subsection \<open>Remote directories\<close>

fun walk_chain :: "'w transfer_env \<Rightarrow> string \<Rightarrow> bool \<Rightarrow> string \<Rightarrow> string list \<Rightarrow> ('w, remote_stat) action" where
  "walk_chain env server expect_directory current [] = throw_invalid ''remote path is empty''"
| "walk_chain env server expect_directory current (part # parts) =
     act_bind (remote_child_checked current part) (\<lambda>child.
     act_bind (lstat env server child) (\<lambda>found.
     case found of
       None \<Rightarrow> act_throw (TransferErr ErrRemote (''remote path does not exist: '' @ child))
     | Some stat \<Rightarrow>
         if rs_kind stat = RemoteSymlink
         then throw_invalid (''symbolic links cannot be traversed during transfer: '' @ child)
         else if parts \<noteq> [] \<and> rs_kind stat \<noteq> RemoteDirectory
         then throw_invalid (''remote path component is not a directory: '' @ child)
         else if parts = [] \<and> expect_directory \<and> rs_kind stat \<noteq> RemoteDirectory
         then throw_invalid (''remote path is not a directory: '' @ child)
         else if parts = [] then act_return stat
         else walk_chain env server expect_directory child parts))"

definition ensure_remote_path_chain :: "'w transfer_env \<Rightarrow> string \<Rightarrow> string \<Rightarrow> bool \<Rightarrow> ('w, remote_stat) action" where
  "ensure_remote_path_chain env server path expect_directory =
     act_bind (validate_remote_path path) (\<lambda>_.
     let components = filter (\<lambda>part. part \<noteq> []) (split_on (CHR ''/'') path) in
     if components = [] then
       act_bind (lstat env server ''/'') (\<lambda>found.
       case found of
         None \<Rightarrow> act_throw (TransferErr ErrRemote ''remote root does not exist'')
       | Some stat \<Rightarrow>
           if rs_kind stat \<noteq> RemoteDirectory then throw_invalid ''remote root is not a directory''
           else act_return stat)
     else walk_chain env server expect_directory ''/'' components)"

definition ensure_remote_directory :: "'w transfer_env \<Rightarrow> string \<Rightarrow> string \<Rightarrow> ('w, unit) action" where
  "ensure_remote_directory env server path =
     act_bind (validate_remote_path path) (\<lambda>_.
     act_bind (act_when (path \<noteq> ''/'')
       (act_bind (ensure_remote_path_chain env server (parent_of path) True) (\<lambda>_. act_return ()))) (\<lambda>_.
     act_bind (lstat env server path) (\<lambda>found.
     case found of
       Some stat \<Rightarrow>
         if rs_kind stat = RemoteDirectory then act_return ()
         else if rs_kind stat = RemoteSymlink
         then throw_invalid (''symbolic link cannot be used as a transfer directory: '' @ path)
         else throw_invalid (''transfer directory path is occupied by a non-directory: '' @ path)
     | None \<Rightarrow>
         act_bind (attempt (create_dir env server path)) (\<lambda>made.
         case made of
           Inl (code, message) \<Rightarrow>
             act_bind (lstat env server path) (\<lambda>after.
             if (case after of Some stat \<Rightarrow> rs_kind stat = RemoteDirectory | None \<Rightarrow> False) then act_return ()
             else act_throw (TransferErr code message))
         | Inr _ \<Rightarrow> act_bind (ensure_remote_path_chain env server path True) (\<lambda>_. act_return ())))))"

definition ensure_local_directory :: "'w transfer_env \<Rightarrow> string \<Rightarrow> ('w, unit) action" where
  "ensure_local_directory env path =
     act_bind (symlink_status env path) (\<lambda>(t, e).
     if e \<noteq> None \<and> e \<noteq> Some NoSuchFile
     then throw_local (''could not inspect the local directory: '' @ (case e of Some err \<Rightarrow> os_message err | None \<Rightarrow> []))
     else if t = NotFound \<or> e = Some NoSuchFile then
       act_bind (ask (te_create_directory (env_files env) path) (\<lambda>r. Local (LMkdir path r))) (\<lambda>made.
       case made of
         Some err \<Rightarrow> throw_local (''could not create the local directory: '' @ os_message err)
       | None \<Rightarrow>
           act_bind (symlink_status env path) (\<lambda>(t', e').
           throw_if (e' \<noteq> None \<or> t' \<noteq> DirectoryFile) ErrInvalidInput
             ''directory changed during creation: selected directory''))
     else throw_if (t \<noteq> DirectoryFile) ErrInvalidInput
         ''directory destination is a symbolic link or non-directory: selected directory'')"

subsection \<open>Streams\<close>

definition local_read :: "'w transfer_env \<Rightarrow> nat \<Rightarrow> nat \<Rightarrow> ('w, string) action" where
  "local_read env h amount =
     act_bind (ask (te_read_local (env_files env) h amount) (\<lambda>(data, bad). Local (LRead h data bad))) (\<lambda>(data, bad).
     if bad then throw_local ''could not read the local source file'' else act_return data)"

definition kCopyBufferBytes :: nat where
  "kCopyBufferBytes = 64 * 1024"

definition throw_cancelled :: "'w transfer_env \<Rightarrow> ('w, unit) action" where
  "throw_cancelled env = act_bind (cancelled env) (\<lambda>b. throw_if b ErrCancelled ''transfer cancelled'')"

definition note_progress :: "'w transfer_env \<Rightarrow> nat \<Rightarrow> ('w, unit) action" where
  "note_progress env amount =
     cell_write env False (\<lambda>sn. sn
       \<lparr>sn_current_item_bytes := sn_current_item_bytes sn + of_nat amount,
        sn_transferred_bytes := sn_transferred_bytes sn + of_nat amount\<rparr>)"

fun copy_loop ::
  "'w transfer_env \<Rightarrow> ('w, string) action \<Rightarrow> (string \<Rightarrow> ('w, unit) action) \<Rightarrow> nat \<Rightarrow> hasher \<Rightarrow> 64 word \<Rightarrow>
   ('w, 64 word \<times> string) action" where
  "copy_loop env reader writer 0 hasher bytes = act_hang"
| "copy_loop env reader writer (Suc n) hasher bytes =
     act_bind (throw_cancelled env) (\<lambda>_.
     act_bind reader (\<lambda>data.
     if data = [] then act_return (bytes, hexdigest hasher)
     else
       act_bind (throw_cancelled env) (\<lambda>_.
       act_bind (writer data) (\<lambda>_.
       act_bind (note_progress env (length data)) (\<lambda>_.
       copy_loop env reader writer n (update (map of_char data) hasher) (bytes + of_nat (length data)))))))"

definition copy_stream ::
  "'w transfer_env \<Rightarrow> ('w, string) action \<Rightarrow> (string \<Rightarrow> ('w, unit) action) \<Rightarrow> ('w, 64 word \<times> string) action" where
  "copy_stream env reader writer = copy_loop env reader writer (env_fuel env) new_hasher 0"

fun hash_loop :: "'w transfer_env \<Rightarrow> ('w, string) action \<Rightarrow> nat \<Rightarrow> hasher \<Rightarrow> ('w, string) action" where
  "hash_loop env reader 0 hasher = act_hang"
| "hash_loop env reader (Suc n) hasher =
     act_bind (throw_cancelled env) (\<lambda>_.
     act_bind reader (\<lambda>data.
     if data = [] then act_return (hexdigest hasher)
     else hash_loop env reader n (update (map of_char data) hasher)))"

definition hash_reader :: "'w transfer_env \<Rightarrow> ('w, string) action \<Rightarrow> ('w, string) action" where
  "hash_reader env reader = hash_loop env reader (env_fuel env) new_hasher"

definition hash_remote_file :: "'w transfer_env \<Rightarrow> string \<Rightarrow> string \<Rightarrow> ('w, string) action" where
  "hash_remote_file env server path =
     act_bind (open_read env server path) (\<lambda>h. hash_reader env (remote_read env h kCopyBufferBytes))"

definition hash_local_file :: "'w transfer_env \<Rightarrow> string \<Rightarrow> ('w, string) action" where
  "hash_local_file env path =
     act_bind (open_local_source env path) (\<lambda>(h, _). hash_reader env (local_read env h kCopyBufferBytes))"

subsection \<open>The remote staging file\<close>

fun stage_attempts ::
  "'w transfer_env \<Rightarrow> string \<Rightarrow> string \<Rightarrow> string \<Rightarrow> string \<Rightarrow> 64 word \<Rightarrow> nat list \<Rightarrow> ('w, string \<times> nat) action" where
  "stage_attempts env server transfer_id parent name item_index [] =
     act_throw (TransferErr ErrUnsupported ''could not allocate a unique remote staging file after 32 attempts'')"
| "stage_attempts env server transfer_id parent name item_index (k # ks) =
     act_bind (remote_child_checked parent (stage_name transfer_id name (unat item_index) k)) (\<lambda>path.
     act_bind (lstat env server path) (\<lambda>found.
     if found \<noteq> None then stage_attempts env server transfer_id parent name item_index ks
     else
       act_bind (attempt (create_exclusive env server path)) (\<lambda>made.
       case made of
         Inr h \<Rightarrow> act_return (path, h)
       | Inl (code, message) \<Rightarrow>
           if code = ErrAlreadyExists then stage_attempts env server transfer_id parent name item_index ks
           else act_throw (TransferErr code message))))"

definition create_remote_stage ::
  "'w transfer_env \<Rightarrow> string \<Rightarrow> string \<Rightarrow> string \<Rightarrow> 64 word \<Rightarrow> ('w, string \<times> nat) action" where
  "create_remote_stage env server transfer_id target item_index =
     stage_attempts env server transfer_id (parent_of target) (basename_of target) item_index [0..<32]"

definition not_a_regular_stage :: string where
  "not_a_regular_stage = ''remote staging path no longer refers to a regular file''"

definition cleanup_remote_stage ::
  "'w transfer_env \<Rightarrow> string \<Rightarrow> string \<Rightarrow> 64 word \<Rightarrow> staging_file \<Rightarrow> ('w, unit) action" where
  "cleanup_remote_stage env server stage item_index artifact =
     act_bind (attempt (lstat env server stage)) (\<lambda>found.
     case found of
       Inl (code, message) \<Rightarrow> note_staging_residue env item_index stage code message
     | Inr None \<Rightarrow> swallow (remove_staging env artifact)
     | Inr (Some stat) \<Rightarrow>
         if rs_kind stat \<noteq> RemoteFile
         then note_staging_residue env item_index stage ErrInvalidInput not_a_regular_stage
         else
           act_bind (attempt (remove_file env server stage)) (\<lambda>removed.
           case removed of
             Inl (code, message) \<Rightarrow> note_staging_residue env item_index stage code message
           | Inr _ \<Rightarrow> swallow (remove_staging env artifact)))"

definition remove_published_remote_stage :: "'w transfer_env \<Rightarrow> string \<Rightarrow> string \<Rightarrow> ('w, unit) action" where
  "remove_published_remote_stage env server stage =
     act_bind (lstat env server stage) (\<lambda>found.
     case found of
       None \<Rightarrow> act_return ()
     | Some stat \<Rightarrow>
         if rs_kind stat = RemoteFile then remove_file env server stage
         else throw_invalid not_a_regular_stage)"

subsection \<open>Conflicts\<close>

record execution_context =
  xc_transfer_id :: string
  xc_server_id :: string
  xc_policy :: conflict_policy

record upload_item =
  ui_source :: string
  ui_target :: string
  ui_display_name :: string
  ui_index :: "64 word"

record download_item =
  di_source :: string
  di_initial_target :: string
  di_display_name :: string
  di_initial_stat :: remote_stat
  di_index :: "64 word"

datatype destination_choice = SkipDestination | CreateDestination | ReplaceDestination

record remote_resolution =
  rr_target :: string
  rr_choice :: destination_choice
  rr_expected :: "remote_stat option"

record local_resolution =
  lr_target :: string
  lr_choice :: destination_choice
  lr_expected :: "local_fingerprint option"

fun await_decision :: "'w transfer_env \<Rightarrow> 64 word \<Rightarrow> nat \<Rightarrow> ('w, conflict_action) action" where
  "await_decision env item_index 0 = act_hang"
| "await_decision env item_index (Suc n) =
     act_bind (throw_cancelled env) (\<lambda>_.
     act_bind (ask (te_decision (env_host env)) EvDecision) (\<lambda>d.
     case d of
       Some (index, action) \<Rightarrow>
         if index = item_index then act_return action else await_decision env item_index n
     | None \<Rightarrow> await_decision env item_index n))"

definition await_conflict :: "'w transfer_env \<Rightarrow> conflict_request \<Rightarrow> ('w, conflict_action) action" where
  "await_conflict env conflict =
     act_bind (cell_write env False (\<lambda>sn. sn\<lparr>sn_status := WaitingConflict, sn_active_conflict := Some conflict\<rparr>)) (\<lambda>_.
     act_bind (await_decision env (cr_item_index conflict) (env_fuel env)) (\<lambda>action.
     act_bind (cell_write env False (\<lambda>sn. sn\<lparr>sn_status := Running, sn_active_conflict := None\<rparr>)) (\<lambda>_.
     act_return action)))"

definition plain_action :: "conflict_action_kind \<Rightarrow> conflict_action" where
  "plain_action kind = \<lparr>ca_kind = kind, ca_rename_to = []\<rparr>"

definition no_atomic_overwrite :: string where
  "no_atomic_overwrite = ''this SFTP backend does not advertise an atomic overwrite rename''"

definition remote_decision ::
  "'w transfer_env \<Rightarrow> execution_context \<Rightarrow> upload_item \<Rightarrow> 64 word \<Rightarrow> remote_stat \<Rightarrow> ('w, conflict_action) action" where
  "remote_decision env context item incoming_size existing =
     (case xc_policy context of
        SkipPolicy \<Rightarrow> act_return (plain_action SkipAction)
      | OverwritePolicy \<Rightarrow> act_return (plain_action OverwriteAction)
      | AskPolicy \<Rightarrow>
          await_conflict env
            \<lparr>cr_item_index = ui_index item, cr_source_name = ui_display_name item, cr_target_name = ui_target item,
             cr_existing_size = rs_size existing, cr_incoming_size = incoming_size,
             cr_existing_modified = map_option ucast (rs_modified existing),
             cr_allowed_actions = [SkipAction, RenameAction] @
               (if te_atomic_replace (env_backend env) then [OverwriteAction] else [])\<rparr>)"

definition resolve_remote_destination ::
  "'w transfer_env \<Rightarrow> execution_context \<Rightarrow> upload_item \<Rightarrow> 64 word \<Rightarrow> remote_stat option \<Rightarrow> ('w, remote_resolution) action" where
  "resolve_remote_destination env context item incoming_size existing =
     (case existing of
        None \<Rightarrow> act_return \<lparr>rr_target = ui_target item, rr_choice = CreateDestination, rr_expected = None\<rparr>
      | Some stat \<Rightarrow>
          if rs_kind stat \<noteq> RemoteFile
          then throw_invalid ''remote transfer target is occupied by a directory, symbolic link, or special file''
          else if xc_policy context = OverwritePolicy \<and> \<not> te_atomic_replace (env_backend env)
          then act_throw (TransferErr ErrUnsupported no_atomic_overwrite)
          else
            act_bind (remote_decision env context item incoming_size stat) (\<lambda>action.
            case ca_kind action of
              SkipAction \<Rightarrow>
                act_return \<lparr>rr_target = ui_target item, rr_choice = SkipDestination, rr_expected = existing\<rparr>
            | OverwriteAction \<Rightarrow>
                if \<not> te_atomic_replace (env_backend env) then act_throw (TransferErr ErrUnsupported no_atomic_overwrite)
                else act_return \<lparr>rr_target = ui_target item, rr_choice = ReplaceDestination, rr_expected = existing\<rparr>
            | RenameAction \<Rightarrow>
                act_bind (remote_child_checked (parent_of (ui_target item)) (ca_rename_to action)) (\<lambda>renamed.
                act_bind (lstat env (xc_server_id context) renamed) (\<lambda>found.
                if found \<noteq> None then throw_invalid ''the renamed remote target already exists''
                else act_return \<lparr>rr_target = renamed, rr_choice = CreateDestination, rr_expected = None\<rparr>))))"

definition local_decision ::
  "'w transfer_env \<Rightarrow> execution_context \<Rightarrow> download_item \<Rightarrow> local_fingerprint \<Rightarrow> ('w, conflict_action) action" where
  "local_decision env context item existing =
     (case xc_policy context of
        SkipPolicy \<Rightarrow> act_return (plain_action SkipAction)
      | OverwritePolicy \<Rightarrow> act_return (plain_action OverwriteAction)
      | AskPolicy \<Rightarrow>
          await_conflict env
            \<lparr>cr_item_index = di_index item, cr_source_name = di_display_name item,
             cr_target_name = te_filename (env_paths env) (di_initial_target item),
             cr_existing_size = lf_size existing, cr_incoming_size = rs_size (di_initial_stat item),
             cr_existing_modified = Option.bind (lf_modified existing) (te_file_epoch (env_paths env)),
             cr_allowed_actions = [SkipAction, OverwriteAction, RenameAction]\<rparr>)"

definition resolve_local_destination ::
  "'w transfer_env \<Rightarrow> execution_context \<Rightarrow> download_item \<Rightarrow> ('w, local_resolution) action" where
  "resolve_local_destination env context item =
     (let target = di_initial_target item in
      act_bind (path_fingerprint_if_regular env target) (\<lambda>existing.
      case existing of
        None \<Rightarrow> act_return \<lparr>lr_target = target, lr_choice = CreateDestination, lr_expected = None\<rparr>
      | Some fingerprint \<Rightarrow>
          act_bind (local_decision env context item fingerprint) (\<lambda>action.
          case ca_kind action of
            SkipAction \<Rightarrow> act_return \<lparr>lr_target = target, lr_choice = SkipDestination, lr_expected = existing\<rparr>
          | OverwriteAction \<Rightarrow> act_return \<lparr>lr_target = target, lr_choice = ReplaceDestination, lr_expected = existing\<rparr>
          | RenameAction \<Rightarrow>
              act_bind (safe_name (ca_rename_to action)) (\<lambda>_.
              if te_parent (env_paths env) target = [] then throw_invalid ''download target has no parent directory''
              else
                let renamed = te_join (env_paths env) (te_parent (env_paths env) target) (ca_rename_to action) in
                act_bind (path_fingerprint_if_regular env renamed) (\<lambda>found.
                if found \<noteq> None then throw_invalid ''the renamed local target already exists''
                else act_return \<lparr>lr_target = renamed, lr_choice = CreateDestination, lr_expected = None\<rparr>)))))"

end
