(* ===== verification/TransferFile.thy ===== *)
theory TransferFile
  imports TransferEngine
begin

text \<open>
  \<^verbatim>\<open>upload_file\<close> and \<^verbatim>\<open>download_file\<close> of \<^verbatim>\<open>src/native/desktop_host/src/transfer_manager.cpp\<close>, in
  the steps of their bodies: resolve the destination, create an exclusive staging file and record
  it, stream and verify, publish without replacing or over the expected target, clean up.
\<close>

subsection \<open>Upload\<close>

definition remote_artifact :: "string \<Rightarrow> string \<Rightarrow> 64 word \<Rightarrow> staging_file" where
  "remote_artifact server stage item_index =
     \<lparr>sf_remote = True, sf_path = stage, sf_server_id = server, sf_item_index = item_index\<rparr>"

text \<open>From the first byte to \<^verbatim>\<open>stage.writer->finish()\<close>; the result is the count and the digest of the stream.\<close>

definition upload_stream ::
  "'w transfer_env \<Rightarrow> upload_item \<Rightarrow> nat \<Rightarrow> local_fingerprint \<Rightarrow> nat \<Rightarrow> ('w, 64 word \<times> string) action" where
  "upload_stream env item input fingerprint writer =
     act_bind (copy_stream env (local_read env input kCopyBufferBytes) (remote_write env writer)) (\<lambda>(bytes, sha).
     act_bind (throw_if (bytes \<noteq> lf_size fingerprint) ErrSourceChanged
       (''selected local source changed size while being uploaded (expected '' @ decimal (unat (lf_size fingerprint)) @
        '' bytes, read '' @ decimal (unat bytes) @ '')'')) (\<lambda>_.
     act_bind (verify_local_source_unchanged env (ui_source item) fingerprint) (\<lambda>_.
     act_bind (throw_cancelled env) (\<lambda>_.
     act_bind (remote_finish env writer) (\<lambda>_.
     act_return (bytes, sha))))))"

definition is_file_of_size :: "remote_stat option \<Rightarrow> 64 word \<Rightarrow> bool" where
  "is_file_of_size found bytes \<longleftrightarrow>
     (case found of Some stat \<Rightarrow> rs_kind stat = RemoteFile \<and> rs_size stat = bytes | None \<Rightarrow> False)"

definition verify_stage :: "'w transfer_env \<Rightarrow> string \<Rightarrow> string \<Rightarrow> 64 word \<Rightarrow> string \<Rightarrow> ('w, unit) action" where
  "verify_stage env server stage bytes sha =
     act_bind (lstat env server stage) (\<lambda>found.
     act_bind (throw_if (\<not> is_file_of_size found bytes) ErrVerification
       ''remote staging file size or type did not match the uploaded stream'') (\<lambda>_.
     act_bind (hash_remote_file env server stage) (\<lambda>remote_digest.
     throw_if (remote_digest \<noteq> sha) ErrVerification
       ''remote staging file SHA-256 did not match the local source'')))"

definition publish_stage :: "'w transfer_env \<Rightarrow> string \<Rightarrow> string \<Rightarrow> remote_resolution \<Rightarrow> ('w, unit) action" where
  "publish_stage env server stage resolution =
     act_bind (lstat env server (rr_target resolution)) (\<lambda>current.
     if rr_choice resolution = CreateDestination then
       (if current \<noteq> None then act_throw (TransferErr ErrAlreadyExists ''destination already exists'')
        else publish_no_replace env server stage (rr_target resolution))
     else if current = None then throw_invalid ''overwrite target disappeared before publication''
     else if rr_expected resolution = None \<or> current \<noteq> rr_expected resolution
     then throw_invalid ''overwrite target changed while the upload was staged''
     else rename_replace env server stage (rr_target resolution))"

definition confirm_published :: "'w transfer_env \<Rightarrow> string \<Rightarrow> string \<Rightarrow> 64 word \<Rightarrow> ('w, unit) action" where
  "confirm_published env server target bytes =
     act_bind (lstat env server target) (\<lambda>published.
     throw_if (\<not> is_file_of_size published bytes) ErrVerification
       ''published remote file size or type did not match the uploaded stream'')"

definition unwind_stage ::
  "'w transfer_env \<Rightarrow> string \<Rightarrow> string \<Rightarrow> 64 word \<Rightarrow> transfer_exception \<Rightarrow> ('w, 'a) action" where
  "unwind_stage env server stage item_index e =
     act_bind (cleanup_remote_stage env server stage item_index (remote_artifact server stage item_index))
       (\<lambda>_. act_throw e)"

definition with_writer :: "'w transfer_env \<Rightarrow> string \<Rightarrow> string \<Rightarrow> 64 word \<Rightarrow> nat \<Rightarrow> ('w, 'a) action \<Rightarrow> ('w, 'a) action" where
  "with_writer env server stage item_index writer body =
     act_catch_all body (\<lambda>e.
     act_bind (remote_close env writer) (\<lambda>_. unwind_stage env server stage item_index e))"

definition settle_stage :: "'w transfer_env \<Rightarrow> string \<Rightarrow> string \<Rightarrow> 64 word \<Rightarrow> destination_choice \<Rightarrow> ('w, unit) action" where
  "settle_stage env server stage item_index choice =
     (let artifact = remote_artifact server stage item_index in
      if choice = CreateDestination then
        act_bind (attempt (remove_published_remote_stage env server stage)) (\<lambda>removed.
        case removed of
          Inr _ \<Rightarrow> remove_staging env artifact
        | Inl (code, message) \<Rightarrow>
            note_staging_residue env item_index stage ErrRemote
              (''remote destination was published and verified, but its staging link could not be removed: '' @ message))
      else remove_staging env artifact)"

definition upload_staged ::
  "'w transfer_env \<Rightarrow> execution_context \<Rightarrow> upload_item \<Rightarrow> nat \<Rightarrow> local_fingerprint \<Rightarrow> remote_resolution \<Rightarrow>
   string \<Rightarrow> nat \<Rightarrow> ('w, unit) action" where
  "upload_staged env context item input fingerprint resolution stage writer =
     (let server = xc_server_id context; index = ui_index item in
      act_bind (with_writer env server stage index writer (add_staging env (remote_artifact server stage index))) (\<lambda>_.
      act_bind (with_writer env server stage index writer (upload_stream env item input fingerprint writer)) (\<lambda>(bytes, sha).
      act_bind (remote_close env writer) (\<lambda>_.
      act_bind (act_catch_all
        (act_bind (verify_stage env server stage bytes sha) (\<lambda>_.
         act_bind (publish_stage env server stage resolution) (\<lambda>_.
         confirm_published env server (rr_target resolution) bytes)))
        (unwind_stage env server stage index)) (\<lambda>_.
      act_bind (settle_stage env server stage index (rr_choice resolution)) (\<lambda>_.
      complete_item env True))))))"

definition upload_file :: "'w transfer_env \<Rightarrow> execution_context \<Rightarrow> upload_item \<Rightarrow> ('w, unit) action" where
  "upload_file env context item =
     (let server = xc_server_id context in
      act_bind (open_local_source env (ui_source item)) (\<lambda>(input, fingerprint).
      act_bind (begin_item env (ui_display_name item) (lf_size fingerprint)) (\<lambda>_.
      act_bind (lstat env server (ui_target item)) (\<lambda>initial.
      act_bind (resolve_remote_destination env context item (lf_size fingerprint) initial) (\<lambda>resolution.
      if rr_choice resolution = SkipDestination then skip_item env
      else
        act_bind (ensure_remote_path_chain env server (parent_of (rr_target resolution)) True) (\<lambda>_.
        act_bind (create_remote_stage env server (xc_transfer_id context) (rr_target resolution) (ui_index item))
          (\<lambda>(stage, writer). upload_staged env context item input fingerprint resolution stage writer)))))))"

subsection \<open>Download\<close>

definition local_artifact :: "string \<Rightarrow> 64 word \<Rightarrow> staging_file" where
  "local_artifact stage item_index =
     \<lparr>sf_remote = False, sf_path = stage, sf_server_id = [], sf_item_index = item_index\<rparr>"

definition open_download :: "'w transfer_env \<Rightarrow> string \<Rightarrow> download_item \<Rightarrow> ('w, nat) action" where
  "open_download env server item =
     act_bind (ensure_remote_path_chain env server (di_source item) False) (\<lambda>_.
     act_bind (open_read env server (di_source item)) (\<lambda>h.
     act_bind (lstat env server (di_source item)) (\<lambda>after_open.
     act_bind (throw_if (after_open \<noteq> Some (di_initial_stat item) \<or> rs_kind (di_initial_stat item) \<noteq> RemoteFile)
       ErrSourceChanged (di_source item)) (\<lambda>_.
     act_return h))))"

definition download_stream :: "'w transfer_env \<Rightarrow> string \<Rightarrow> download_item \<Rightarrow> nat \<Rightarrow> ('w, string) action" where
  "download_stream env server item writer =
     act_bind (open_download env server item) (\<lambda>h.
     act_bind (copy_stream env (remote_read env h kCopyBufferBytes) (staging_write env writer)) (\<lambda>(bytes, sha).
     act_bind (throw_if (bytes \<noteq> rs_size (di_initial_stat item)) ErrSourceChanged
       (di_source item @ '' changed size while being downloaded (expected '' @
        decimal (unat (rs_size (di_initial_stat item))) @ '' bytes, read '' @ decimal (unat bytes) @ '')'')) (\<lambda>_.
     act_bind (throw_cancelled env) (\<lambda>_.
     act_bind (staging_close env writer) (\<lambda>_.
     act_return sha)))))"

definition verify_download :: "'w transfer_env \<Rightarrow> string \<Rightarrow> download_item \<Rightarrow> string \<Rightarrow> string \<Rightarrow> ('w, unit) action" where
  "verify_download env server item stage sha =
     act_bind (hash_local_file env stage) (\<lambda>staged.
     act_bind (throw_if (staged \<noteq> sha) ErrVerification
       ''local staging file SHA-256 did not match the downloaded stream'') (\<lambda>_.
     act_bind (hash_remote_file env server (di_source item)) (\<lambda>second.
     act_bind (throw_if (second \<noteq> sha) ErrSourceChanged
       (di_source item @ '' changed between download verification reads'')) (\<lambda>_.
     act_bind (lstat env server (di_source item)) (\<lambda>final.
     throw_if (final \<noteq> Some (di_initial_stat item)) ErrSourceChanged (di_source item))))))"

definition publish_download :: "'w transfer_env \<Rightarrow> string \<Rightarrow> local_resolution \<Rightarrow> ('w, unit) action" where
  "publish_download env stage resolution =
     (if lr_choice resolution = CreateDestination then
        act_bind (path_fingerprint_if_regular env (lr_target resolution)) (\<lambda>found.
        if found \<noteq> None then act_throw (TransferErr ErrAlreadyExists ''destination already exists'')
        else publish_local_no_replace env stage (lr_target resolution))
      else case lr_expected resolution of
          None \<Rightarrow> throw_invalid ''overwrite target guard is missing''
        | Some expected \<Rightarrow> publish_local_replace env stage (lr_target resolution) expected)"

definition unwind_download :: "'w transfer_env \<Rightarrow> string \<Rightarrow> 64 word \<Rightarrow> transfer_exception \<Rightarrow> ('w, 'a) action" where
  "unwind_download env stage item_index e =
     act_bind (attempt (remove_local_staging env stage)) (\<lambda>removed.
     act_bind (case removed of
         Inr _ \<Rightarrow> swallow (remove_staging env (local_artifact stage item_index))
       | Inl (code, message) \<Rightarrow>
           note_staging_residue env item_index (te_filename (env_paths env) stage) code message) (\<lambda>_.
     act_throw e))"

definition unwind_recording :: "'w transfer_env \<Rightarrow> string \<Rightarrow> 64 word \<Rightarrow> transfer_exception \<Rightarrow> ('w, 'a) action" where
  "unwind_recording env stage item_index e =
     act_bind (swallow (remove_local_staging env stage)) (\<lambda>_.
     act_bind (swallow (remove_staging env (local_artifact stage item_index))) (\<lambda>_.
     act_throw e))"

definition with_local_writer :: "'w transfer_env \<Rightarrow> nat \<Rightarrow> (transfer_exception \<Rightarrow> ('w, 'a) action) \<Rightarrow> ('w, 'a) action \<Rightarrow> ('w, 'a) action" where
  "with_local_writer env writer handler body =
     act_catch_all body (\<lambda>e. act_bind (staging_drop env writer) (\<lambda>_. handler e))"

definition download_staged ::
  "'w transfer_env \<Rightarrow> execution_context \<Rightarrow> download_item \<Rightarrow> local_resolution \<Rightarrow> string \<Rightarrow> nat \<Rightarrow> ('w, unit) action" where
  "download_staged env context item resolution stage writer =
     (let server = xc_server_id context; index = di_index item in
      act_bind (with_local_writer env writer (unwind_recording env stage index)
        (add_staging env (local_artifact stage index))) (\<lambda>_.
      act_bind (with_local_writer env writer (unwind_download env stage index)
        (download_stream env server item writer)) (\<lambda>sha.
      act_bind (staging_drop env writer) (\<lambda>_.
      act_bind (act_catch_all
        (act_bind (verify_download env server item stage sha) (\<lambda>_. publish_download env stage resolution))
        (unwind_download env stage index)) (\<lambda>_.
      act_bind (remove_staging env (local_artifact stage index)) (\<lambda>_.
      complete_item env True))))))"

definition download_file :: "'w transfer_env \<Rightarrow> execution_context \<Rightarrow> download_item \<Rightarrow> ('w, unit) action" where
  "download_file env context item =
     (if rs_kind (di_initial_stat item) \<noteq> RemoteFile then throw_invalid ''only remote regular files can be downloaded''
      else
        act_bind (begin_item env (di_display_name item) (rs_size (di_initial_stat item))) (\<lambda>_.
        act_bind (resolve_local_destination env context item) (\<lambda>resolution.
        if lr_choice resolution = SkipDestination then skip_item env
        else if te_parent (env_paths env) (lr_target resolution) = []
        then throw_invalid ''download target has no parent directory''
        else
          act_bind (ensure_download_directory env (te_parent (env_paths env) (lr_target resolution))) (\<lambda>_.
          act_bind the_cell (\<lambda>c.
          act_bind (create_local_staging_file env (lr_target resolution) (sn_transfer_id (sc_snapshot c)) (di_index item))
            (\<lambda>(stage, writer). download_staged env context item resolution stage writer))))))"

end
