(* ===== verification/TransferTrace.thy ===== *)
theory TransferTrace
  imports TransferFile
begin

text \<open>
  Specifications of actions by the events they add to the log and by what they do to the staging
  inventory.  They hold in every world: nothing is assumed of the answers.
\<close>

definition spec ::
  "('w, 'a) action \<Rightarrow> ('a outcome \<Rightarrow> staging_file list \<Rightarrow> event list \<Rightarrow> staging_file list \<Rightarrow> bool) \<Rightarrow> bool" where
  "spec m S \<longleftrightarrow>
     (\<forall>s r s'. m s = (r, s') \<longrightarrow>
        (\<exists>new. ts_log s' = ts_log s @ new \<and> S r (sc_staging (ts_cell s)) new (sc_staging (ts_cell s'))))"

lemma specI:
  "(\<And>s r s'. m s = (r, s') \<Longrightarrow>
     \<exists>new. ts_log s' = ts_log s @ new \<and> S r (sc_staging (ts_cell s)) new (sc_staging (ts_cell s'))) \<Longrightarrow> spec m S"
  by (simp add: spec_def)

lemma specE:
  assumes "spec m S" "m s = (r, s')"
  obtains new where "ts_log s' = ts_log s @ new" "S r (sc_staging (ts_cell s)) new (sc_staging (ts_cell s'))"
  using assms unfolding spec_def by blast

lemma spec_wp:
  assumes "\<And>s. wp m (\<lambda>r s'. \<exists>new. ts_log s' = ts_log s @ new \<and>
    S r (sc_staging (ts_cell s)) new (sc_staging (ts_cell s'))) s"
  shows "spec m S"
proof (rule specI)
  fix s r s'
  assume "m s = (r, s')"
  with assms [of s] show "\<exists>new. ts_log s' = ts_log s @ new \<and> S r (sc_staging (ts_cell s)) new (sc_staging (ts_cell s'))"
    by (simp add: wp_def)
qed

lemma spec_mono: "spec m S \<Longrightarrow> (\<And>r st new st'. S r st new st' \<Longrightarrow> T r st new st') \<Longrightarrow> spec m T"
  by (fastforce simp: spec_def)

lemma spec_bindI:
  assumes m: "spec m S" and f: "\<And>x st a mid. S (Done x) st a mid \<Longrightarrow> spec (f x) (T x)"
    and steps: "\<And>x r st a mid b st'. S (Done x) st a mid \<Longrightarrow> T x r mid b st' \<Longrightarrow> Q r st (a @ b) st'"
    and exits: "\<And>e st new st'. S (Raised e) st new st' \<Longrightarrow> Q (Raised e) st new st'"
      "\<And>st new st'. S Hung st new st' \<Longrightarrow> Q Hung st new st'"
  shows "spec (act_bind m f) Q"
proof (rule specI)
  fix s r s'
  assume run: "act_bind m f s = (r, s')"
  obtain r1 s1 where one: "m s = (r1, s1)" by fastforce
  obtain a where a: "ts_log s1 = ts_log s @ a" "S r1 (sc_staging (ts_cell s)) a (sc_staging (ts_cell s1))"
    using specE [OF m one] .
  show "\<exists>new. ts_log s' = ts_log s @ new \<and> Q r (sc_staging (ts_cell s)) new (sc_staging (ts_cell s'))"
  proof (cases r1)
    case (Done x)
    then have two: "f x s1 = (r, s')" using run one by (simp add: act_bind_def)
    obtain b where b: "ts_log s' = ts_log s1 @ b" "T x r (sc_staging (ts_cell s1)) b (sc_staging (ts_cell s'))"
      using specE [OF f [OF a(2) [unfolded Done]] two] .
    with steps [OF a(2) [unfolded Done] b(2)] a(1) show ?thesis by simp
  qed (use run one a exits in \<open>auto simp: act_bind_def\<close>)
qed

lemma spec_catch_allI:
  assumes m: "spec m S" and h: "\<And>e. spec (h e) (T e)"
    and steps: "\<And>e r st a mid b st'. S (Raised e) st a mid \<Longrightarrow> T e r mid b st' \<Longrightarrow> Q r st (a @ b) st'"
    and exits: "\<And>x st new st'. S (Done x) st new st' \<Longrightarrow> Q (Done x) st new st'"
      "\<And>st new st'. S Hung st new st' \<Longrightarrow> Q Hung st new st'"
  shows "spec (act_catch_all m h) Q"
proof (rule specI)
  fix s r s'
  assume run: "act_catch_all m h s = (r, s')"
  obtain r1 s1 where one: "m s = (r1, s1)" by fastforce
  obtain a where a: "ts_log s1 = ts_log s @ a" "S r1 (sc_staging (ts_cell s)) a (sc_staging (ts_cell s1))"
    using specE [OF m one] .
  show "\<exists>new. ts_log s' = ts_log s @ new \<and> Q r (sc_staging (ts_cell s)) new (sc_staging (ts_cell s'))"
  proof (cases r1)
    case (Raised e)
    then have two: "h e s1 = (r, s')" using run one by (simp add: act_catch_all_def)
    obtain b where b: "ts_log s' = ts_log s1 @ b" "T e r (sc_staging (ts_cell s1)) b (sc_staging (ts_cell s'))"
      using specE [OF h two] .
    with steps [OF a(2) [unfolded Raised] b(2)] a(1) show ?thesis by simp
  qed (use run one a exits in \<open>auto simp: act_catch_all_def\<close>)
qed

lemma act_bind_assoc: "act_bind (act_bind m f) g = act_bind m (\<lambda>x. act_bind (f x) g)"
  by (auto simp: fun_eq_iff act_bind_def split: prod.splits outcome.splits)

lemma spec_attemptI:
  assumes m: "spec m S"
    and cases: "\<And>x st new st'. S (Done x) st new st' \<Longrightarrow> Q (Done (Inr x)) st new st'"
      "\<And>c t st new st'. S (Raised (TransferErr c t)) st new st' \<Longrightarrow> Q (Done (Inl (c, t))) st new st'"
      "\<And>st new st'. S (Raised OtherException) st new st' \<Longrightarrow> Q (Raised OtherException) st new st'"
      "\<And>st new st'. S Hung st new st' \<Longrightarrow> Q Hung st new st'"
  shows "spec (attempt m) Q"
proof (rule specI)
  fix s r s'
  assume run: "attempt m s = (r, s')"
  obtain r1 s1 where one: "m s = (r1, s1)" by fastforce
  obtain a where a: "ts_log s1 = ts_log s @ a" "S r1 (sc_staging (ts_cell s)) a (sc_staging (ts_cell s1))"
    using specE [OF m one] .
  with run one cases show "\<exists>new. ts_log s' = ts_log s @ new \<and> Q r (sc_staging (ts_cell s)) new (sc_staging (ts_cell s'))"
    by (cases r1) (auto simp: attempt_def act_catch_def act_bind_def act_return_def split: transfer_exception.splits)
qed

lemma spec_ask: "(\<And>a st. Q (Done a) st [entry a] st) \<Longrightarrow> spec (ask f entry) Q"
  by (rule spec_wp) (auto intro!: wp_askI)

lemma spec_invoke:
  "(\<And>e st. Q (Raised e) st [entry (Inl e)] st) \<Longrightarrow> (\<And>a st. Q (Done a) st [entry (Inr a)] st) \<Longrightarrow> spec (invoke f entry) Q"
  by (rule spec_wp) (auto intro!: wp_invokeI)

lemma spec_tell: "(\<And>st. Q (Done ()) st [entry] st) \<Longrightarrow> spec (tell f entry) Q"
  by (rule spec_wp) (simp add: wp_tell)

lemma spec_clock: "(\<And>t st. Q (Done t) st [] st) \<Longrightarrow> spec (read_clock f) Q"
  by (rule spec_wp) (auto intro!: wp_clockI)

lemma spec_return: "(\<And>st. Q (Done x) st [] st) \<Longrightarrow> spec (act_return x) Q"
  by (rule spec_wp) (simp add: wp_return)

lemma spec_throw: "(\<And>st. Q (Raised e) st [] st) \<Longrightarrow> spec (act_throw e) Q"
  by (rule spec_wp) (simp add: wp_throw)

subsection \<open>Calm actions\<close>

text \<open>Events in \<open>P\<close>, no change of the inventory, and a result in \<open>R\<close>.\<close>

definition calm :: "(event \<Rightarrow> bool) \<Rightarrow> ('a \<Rightarrow> bool) \<Rightarrow> ('w, 'a) action \<Rightarrow> bool" where
  "calm P R m \<longleftrightarrow>
     spec m (\<lambda>r st new st'. st' = st \<and> list_all P new \<and> (case r of Done x \<Rightarrow> R x | _ \<Rightarrow> True))"

named_theorems calm_intros

lemma calm_spec: "calm P R m \<Longrightarrow> spec m (\<lambda>r st new st'. st' = st \<and> list_all P new)"
  unfolding calm_def by (erule spec_mono) simp

lemma calm_return [calm_intros]: "R x \<Longrightarrow> calm P R (act_return x)"
  unfolding calm_def by (rule spec_wp) (simp add: wp_return)

lemma calm_throw [calm_intros]: "calm P R (act_throw e)"
  unfolding calm_def by (rule spec_wp) (simp add: wp_throw)

lemma calm_hang [calm_intros]: "calm P R act_hang"
  unfolding calm_def by (rule spec_wp) (simp add: wp_hang)

lemma calm_bind:
  assumes m: "calm P Q m" and f: "\<And>x. Q x \<Longrightarrow> calm P R (f x)"
  shows "calm P R (act_bind m f)"
  unfolding calm_def
proof (rule spec_bindI [OF m [unfolded calm_def]])
  fix x st a mid
  assume "mid = st \<and> list_all P a \<and> (case Done x of Done x \<Rightarrow> Q x | _ \<Rightarrow> True)"
  then show "spec (f x) (\<lambda>r st new st'. st' = st \<and> list_all P new \<and> (case r of Done x \<Rightarrow> R x | _ \<Rightarrow> True))"
    using f [of x] by (simp add: calm_def)
qed auto

lemma calm_any: "calm P Q m \<Longrightarrow> (\<And>x. Q x \<Longrightarrow> R x) \<Longrightarrow> calm P R m"
  unfolding calm_def by (erule spec_mono) (auto split: outcome.splits)

lemma calm_events: "calm P Q m \<Longrightarrow> (\<And>e. P e \<Longrightarrow> P' e) \<Longrightarrow> calm P' Q m"
  unfolding calm_def by (erule spec_mono) (auto elim: list.pred_mono_strong)

lemma calm_bind_any [calm_intros]:
  "calm P (\<lambda>_. True) m \<Longrightarrow> (\<And>x. calm P R (f x)) \<Longrightarrow> calm P R (act_bind m f)"
  by (rule calm_bind)

lemma calm_catch_all [calm_intros]:
  assumes "calm P R m" "\<And>e. calm P R (h e)"
  shows "calm P R (act_catch_all m h)"
  unfolding calm_def by (rule spec_catch_allI [OF assms [unfolded calm_def]]) auto

lemma calm_attempt [calm_intros]: "calm P (\<lambda>_. True) m \<Longrightarrow> calm P (\<lambda>_. True) (attempt m)"
  unfolding calm_def by (erule spec_attemptI) auto

lemma calm_when [calm_intros]: "(b \<Longrightarrow> calm P (\<lambda>_. True) m) \<Longrightarrow> calm P (\<lambda>_. True) (act_when b m)"
  by (auto simp: act_when_def intro: calm_intros)

lemma calm_throw_if [calm_intros]: "R () \<Longrightarrow> calm P R (throw_if b c t)"
  by (auto simp: throw_if_def act_when_def intro: calm_intros)

lemma calm_swallow [calm_intros]: "calm P (\<lambda>_. True) m \<Longrightarrow> calm P (\<lambda>_. True) (swallow m)"
  unfolding swallow_def by (intro calm_intros) auto

lemma calm_cell [calm_intros]: "calm P (\<lambda>_. True) the_cell"
  unfolding calm_def by (rule spec_wp) (simp add: wp_the_cell)

lemma calm_set_cell [calm_intros]: "(\<And>c. sc_staging (f c) = sc_staging c) \<Longrightarrow> calm P (\<lambda>_. True) (set_cell f)"
  unfolding calm_def by (rule spec_wp) (simp add: wp_set_cell)

lemma calm_ask [calm_intros]: "(\<And>a. P (entry a)) \<Longrightarrow> calm P (\<lambda>_. True) (ask f entry)"
  unfolding calm_def by (rule spec_ask) simp

lemma calm_invoke [calm_intros]: "(\<And>a. P (entry a)) \<Longrightarrow> calm P (\<lambda>_. True) (invoke f entry)"
  unfolding calm_def by (rule spec_invoke) simp_all

lemma calm_tell [calm_intros]: "P entry \<Longrightarrow> calm P (\<lambda>_. True) (tell f entry)"
  unfolding calm_def by (rule spec_tell) simp

lemma calm_clock [calm_intros]: "calm P (\<lambda>_. True) (read_clock f)"
  unfolding calm_def by (rule spec_clock) simp

lemma calm_if [calm_intros]: "(b \<Longrightarrow> calm P R m) \<Longrightarrow> (\<not> b \<Longrightarrow> calm P R m') \<Longrightarrow> calm P R (if b then m else m')"
  by simp

lemma calm_option [calm_intros]:
  "(x = None \<Longrightarrow> calm P R m) \<Longrightarrow> (\<And>v. x = Some v \<Longrightarrow> calm P R (f v)) \<Longrightarrow>
   calm P R (case x of None \<Rightarrow> m | Some v \<Rightarrow> f v)"
  by (cases x) auto

lemma calm_sum [calm_intros]:
  "(\<And>v. x = Inl v \<Longrightarrow> calm P R (f v)) \<Longrightarrow> (\<And>v. x = Inr v \<Longrightarrow> calm P R (g v)) \<Longrightarrow>
   calm P R (case x of Inl v \<Rightarrow> f v | Inr v \<Rightarrow> g v)"
  by (cases x) auto

lemma calm_pair [calm_intros]: "(\<And>a b. x = (a, b) \<Longrightarrow> calm P R (f a b)) \<Longrightarrow> calm P R (case x of (a, b) \<Rightarrow> f a b)"
  by (cases x) auto

lemma calm_let [calm_intros]: "(\<And>y. y = x \<Longrightarrow> calm P R (f y)) \<Longrightarrow> calm P R (let y = x in f y)"
  by simp

lemma calm_checked [calm_intros]: "calm P (\<lambda>x. r = Inr x) (checked r)"
  by (cases r) (auto simp: checked_def intro: calm_intros)

end
