(* ===== verification/TransferFacts.thy ===== *)
theory TransferFacts
  imports TransferTrace
begin

text \<open>
  What the steps of a transfer can do: which of them only look, what the copy and hash loops
  compute, and which paths the staging file may have.
\<close>

subsection \<open>Events that change something outside the host\<close>

fun remote_changing :: "remote_event \<Rightarrow> bool" where
  "remote_changing (RLstat server path r) = False"
| "remote_changing (RListDir server path r) = False"
| "remote_changing (ROpenRead server path r) = False"
| "remote_changing (RRead h r) = False"
| "remote_changing _ = True"

fun local_changing :: "local_event \<Rightarrow> bool" where
  "local_changing (LStatus path t e) = False"
| "local_changing (LSize path r) = False"
| "local_changing (LTime path r) = False"
| "local_changing (LOpen path r) = False"
| "local_changing (LRead h d b) = False"
| "local_changing (LExists path r) = False"
| "local_changing (LIterate path r) = False"
| "local_changing _ = True"

fun changing :: "event \<Rightarrow> bool" where
  "changing (Remote e) = remote_changing e"
| "changing (Local e) = local_changing e"
| "changing _ = False"

abbreviation harmless :: "event \<Rightarrow> bool" where
  "harmless e \<equiv> \<not> changing e"

text \<open>Events of the snapshot cell and of the cancellation flag.\<close>

fun host_event :: "event \<Rightarrow> bool" where
  "host_event (Remote e) = False"
| "host_event (Local e) = False"
| "host_event _ = True"

lemma host_harmless: "host_event e \<Longrightarrow> harmless e"
  by (cases e) auto

subsection \<open>Steps that only look\<close>

lemma calm_commit [calm_intros]: "calm host_event (\<lambda>_. True) (commit env force)"
  unfolding commit_def persist_quiet_def ledger_update_def publish_def by (auto intro!: calm_intros)

lemma calm_cell_write [calm_intros]:
  "calm host_event (\<lambda>_. True) (cell_write env force f)"
  unfolding cell_write_def by (intro calm_intros) simp

lemma calm_persist_now [calm_intros]: "calm host_event (\<lambda>_. True) (persist_now env)"
  unfolding persist_now_def ledger_update_def by (auto intro!: calm_intros)

lemma calm_push_failure [calm_intros]: "calm host_event (\<lambda>_. True) (push_failure env failure)"
  unfolding push_failure_def by (auto intro!: calm_intros)

lemma calm_note_residue [calm_intros]: "calm host_event (\<lambda>_. True) (note_staging_residue env i p c m)"
  unfolding note_staging_residue_def by (auto intro!: calm_intros)

lemma calm_begin_item [calm_intros]: "calm host_event (\<lambda>_. True) (begin_item env l b)"
  unfolding begin_item_def by (auto intro!: calm_intros)

lemma calm_complete_item [calm_intros]: "calm host_event (\<lambda>_. True) (complete_item env v)"
  unfolding complete_item_def by (auto intro!: calm_intros)

lemma calm_skip_item [calm_intros]: "calm host_event (\<lambda>_. True) (skip_item env)"
  unfolding skip_item_def by (auto intro!: calm_intros)

lemma calm_cancelled [calm_intros]: "calm host_event (\<lambda>_. True) (throw_cancelled env)"
  unfolding throw_cancelled_def cancelled_def by (auto intro!: calm_intros)

lemma calm_progress [calm_intros]: "calm host_event (\<lambda>_. True) (note_progress env n)"
  unfolding note_progress_def by (auto intro!: calm_intros)

lemma calm_await_decision [calm_intros]: "calm host_event (\<lambda>_. True) (await_decision env i n)"
  by (induction n) (auto intro!: calm_intros)

lemma calm_await_conflict [calm_intros]: "calm host_event (\<lambda>_. True) (await_conflict env c)"
  unfolding await_conflict_def by (auto intro!: calm_intros)

text \<open>A host step is harmless.\<close>

lemma calm_host: "calm host_event (\<lambda>_. True) m \<Longrightarrow> calm harmless (\<lambda>_. True) m"
  by (erule calm_events) (rule host_harmless)

lemmas calm_hosted [calm_intros] =
  calm_commit [THEN calm_host] calm_cell_write [THEN calm_host] calm_persist_now [THEN calm_host]
  calm_push_failure [THEN calm_host] calm_note_residue [THEN calm_host] calm_begin_item [THEN calm_host]
  calm_complete_item [THEN calm_host] calm_skip_item [THEN calm_host] calm_cancelled [THEN calm_host]
  calm_progress [THEN calm_host] calm_await_conflict [THEN calm_host]

lemma calm_checked_any: "calm P (\<lambda>_. True) (checked r)"
  by (rule calm_any [OF calm_checked]) simp

lemma calm_remote_child [calm_intros]: "calm P (\<lambda>_. True) (remote_child_checked p n)"
  unfolding remote_child_checked_def by (rule calm_checked_any)

lemma calm_validate [calm_intros]: "calm P (\<lambda>_. True) (validate_remote_path p)"
  unfolding validate_remote_path_def by (rule calm_checked_any)

lemma calm_lstat [calm_intros]: "calm harmless (\<lambda>_. True) (lstat env server path)"
  unfolding lstat_def by (intro calm_intros) simp

lemma calm_open_read [calm_intros]: "calm harmless (\<lambda>_. True) (open_read env server path)"
  unfolding open_read_def by (intro calm_intros) simp

lemma calm_symlink_status [calm_intros]: "calm harmless (\<lambda>_. True) (symlink_status env path)"
  unfolding symlink_status_def by (auto intro!: calm_intros)

lemma calm_fingerprint_for [calm_intros]: "calm harmless (\<lambda>_. True) (fingerprint_for env path)"
  unfolding fingerprint_for_def file_size_def last_write_time_def by (auto intro!: calm_intros)

lemma calm_path_fingerprint [calm_intros]: "calm harmless (\<lambda>_. True) (path_fingerprint_if_regular env path)"
  unfolding path_fingerprint_if_regular_def by (auto intro!: calm_intros)

lemma calm_open_local_source [calm_intros]: "calm harmless (\<lambda>_. True) (open_local_source env path)"
  unfolding open_local_source_def local_source_fingerprint_def by (auto intro!: calm_intros)

lemma calm_verify_source [calm_intros]: "calm harmless (\<lambda>_. True) (verify_local_source_unchanged env path f)"
  unfolding verify_local_source_unchanged_def by (auto intro!: calm_intros)

lemma calm_walk_chain [calm_intros]: "calm harmless (\<lambda>_. True) (walk_chain env server expect current parts)"
  by (induction parts arbitrary: current) (auto intro!: calm_intros)

lemma calm_path_chain [calm_intros]: "calm harmless (\<lambda>_. True) (ensure_remote_path_chain env server path expect)"
  unfolding ensure_remote_path_chain_def by (auto intro!: calm_intros)

lemma calm_ensure_download_directory [calm_intros]: "calm harmless (\<lambda>_. True) (ensure_download_directory env path)"
  unfolding ensure_download_directory_def by (auto intro!: calm_intros)


subsection \<open>Streams\<close>

text \<open>What was read from and written to a handle, from the events.\<close>

definition remote_got :: "nat \<Rightarrow> event list \<Rightarrow> string" where
  "remote_got h es = concat (map (\<lambda>e. case e of Remote (RRead h' (Inr d)) \<Rightarrow> if h' = h then d else [] | _ \<Rightarrow> []) es)"

definition remote_put :: "nat \<Rightarrow> event list \<Rightarrow> string" where
  "remote_put h es = concat (map (\<lambda>e. case e of Remote (RWrite h' d (Inr u)) \<Rightarrow> if h' = h then d else [] | _ \<Rightarrow> []) es)"

definition local_got :: "nat \<Rightarrow> event list \<Rightarrow> string" where
  "local_got h es = concat (map (\<lambda>e. case e of Local (LRead h' d bad) \<Rightarrow> if h' = h \<and> \<not> bad then d else [] | _ \<Rightarrow> []) es)"

definition local_put :: "nat \<Rightarrow> event list \<Rightarrow> string" where
  "local_put h es = concat (map (\<lambda>e. case e of Local (LWrite h' d ok) \<Rightarrow> if h' = h \<and> ok then d else [] | _ \<Rightarrow> []) es)"

lemmas stream_defs = remote_got_def remote_put_def local_got_def local_put_def

lemma stream_append:
  "remote_got h (a @ b) = remote_got h a @ remote_got h b" "remote_put h (a @ b) = remote_put h a @ remote_put h b"
  "local_got h (a @ b) = local_got h a @ local_got h b" "local_put h (a @ b) = local_put h a @ local_put h b"
  by (simp_all add: stream_defs)

lemma update_append: "update (xs @ ys) h = update ys (update xs h)"
  by (simp add: update_def)

lemma host_no_stream:
  "list_all host_event es \<Longrightarrow> remote_got h es = [] \<and> remote_put h es = [] \<and> local_got h es = [] \<and> local_put h es = []"
proof (induction es)
  case (Cons e es)
  then show ?case by (cases e) (auto simp: stream_defs)
qed (simp add: stream_defs)

text \<open>A reader whose events add its data to \<open>got\<close>; the hash of what it delivers.\<close>

locale hashing =
  fixes reader :: "('w, string) action" and got :: "event list \<Rightarrow> string" and admitted :: "event \<Rightarrow> bool"
  assumes got_append: "got (a @ b) = got a @ got b"
    and got_host: "list_all host_event es \<Longrightarrow> got es = []"
    and admitted_host: "host_event e \<Longrightarrow> admitted e"
    and reader_spec: "spec reader (\<lambda>r st new st'. st' = st \<and> list_all admitted new \<and> (\<forall>d. r = Done d \<longrightarrow> got new = d))"
begin

lemma hosted: "list_all host_event es \<Longrightarrow> list_all admitted es"
  using admitted_host by (auto elim: list.pred_mono_strong)

lemma hash_loop_spec:
  "spec (hash_loop env reader n hasher) (\<lambda>r st new st'. st' = st \<and> list_all admitted new \<and>
     (\<forall>d. r = Done d \<longrightarrow> d = hexdigest (update (map of_char (got new)) hasher)))"
proof (induction n arbitrary: hasher)
  case 0
  show ?case by (auto intro!: spec_wp simp: wp_hang)
next
  case (Suc n)
  have tail: "spec (if data = [] then act_return (hexdigest hasher)
      else hash_loop env reader n (update (map of_char data) hasher))
    (\<lambda>r st new st'. st' = st \<and> list_all admitted new \<and>
       (\<forall>d. r = Done d \<longrightarrow> d = hexdigest (update (map of_char (data @ got new)) hasher)))" for data
  proof (cases "data = []")
    case True
    have "update [] hasher = hasher" by (simp add: update_def)
    with True show ?thesis using got_host [of "[]"] by (auto intro!: spec_wp simp: wp_return)
  next
    case False
    with Suc [of "update (map of_char data) hasher"] show ?thesis by (auto elim!: spec_mono simp: update_append)
  qed
  have "spec (act_bind reader (\<lambda>data. if data = [] then act_return (hexdigest hasher)
      else hash_loop env reader n (update (map of_char data) hasher)))
    (\<lambda>r st new st'. st' = st \<and> list_all admitted new \<and>
       (\<forall>d. r = Done d \<longrightarrow> d = hexdigest (update (map of_char (got new)) hasher)))"
    by (rule spec_bindI [OF reader_spec tail]) (auto simp: got_append)
  then show ?case
    unfolding hash_loop.simps
    by (rule spec_bindI [OF calm_cancelled [unfolded calm_def]]) (auto simp: got_append got_host hosted)
qed

end

text \<open>A copy; \<open>ended\<close> tells that the reader has delivered nothing, the end of its file.\<close>

locale copying = hashing reader got admitted
  for reader :: "('w, string) action" and got and admitted :: "event \<Rightarrow> bool" +
  fixes writer :: "string \<Rightarrow> ('w, unit) action" and put :: "event list \<Rightarrow> string" and ended :: "event list \<Rightarrow> bool"
  assumes put_append: "put (a @ b) = put a @ put b"
    and put_host: "list_all host_event es \<Longrightarrow> put es = []"
    and ended_append: "ended a \<or> ended b \<Longrightarrow> ended (a @ b)"
    and reader_put: "spec reader (\<lambda>r st new st'. put new = [] \<and> (r = Done [] \<longrightarrow> ended new))"
    and writer_spec: "data \<noteq> [] \<Longrightarrow> spec (writer data) (\<lambda>r st new st'. st' = st \<and> list_all admitted new \<and> got new = [] \<and>
      (r = Done () \<longrightarrow> put new = data))"
begin

lemma reader_both:
  "spec reader (\<lambda>r st new st'. st' = st \<and> list_all admitted new \<and> put new = [] \<and> (\<forall>d. r = Done d \<longrightarrow> got new = d) \<and>
     (r = Done [] \<longrightarrow> ended new))"
proof (rule specI)
  fix s r s'
  assume run: "reader s = (r, s')"
  obtain a where "ts_log s' = ts_log s @ a" "sc_staging (ts_cell s') = sc_staging (ts_cell s)" "list_all admitted a"
    "\<forall>d. r = Done d \<longrightarrow> got a = d" using specE [OF reader_spec run] by blast
  moreover obtain b where "ts_log s' = ts_log s @ b" "put b = []" "r = Done [] \<longrightarrow> ended b"
    using specE [OF reader_put run] by blast
  ultimately show "\<exists>new. ts_log s' = ts_log s @ new \<and> sc_staging (ts_cell s') = sc_staging (ts_cell s) \<and>
      list_all admitted new \<and> put new = [] \<and> (\<forall>d. r = Done d \<longrightarrow> got new = d) \<and> (r = Done [] \<longrightarrow> ended new)" by auto
qed

lemma copy_loop_spec:
  "spec (copy_loop env reader writer n hasher bytes) (\<lambda>r st new st'. st' = st \<and> list_all admitted new \<and>
     (\<forall>b d. r = Done (b, d) \<longrightarrow> ended new \<and> put new = got new \<and> b = bytes + of_nat (length (put new)) \<and>
        d = hexdigest (update (map of_char (put new)) hasher)))"
proof (induction n arbitrary: hasher bytes)
  case 0
  show ?case by (auto intro!: spec_wp simp: wp_hang)
next
  case (Suc n)
  have step: "spec (act_bind (throw_cancelled env) (\<lambda>_. act_bind (writer data) (\<lambda>_. act_bind (note_progress env (length data)) (\<lambda>_.
        copy_loop env reader writer n (update (map of_char data) hasher) (bytes + of_nat (length data))))))
    (\<lambda>r st new st'. st' = st \<and> list_all admitted new \<and>
     (\<forall>b d. r = Done (b, d) \<longrightarrow> ended new \<and> put new = data @ got new \<and> b = bytes + of_nat (length (put new)) \<and>
        d = hexdigest (update (map of_char (put new)) hasher)))" if "data \<noteq> []" for data
  proof -
    let ?Q = "\<lambda>r st new st'. st' = st \<and> list_all admitted new \<and>
     (\<forall>b d. r = Done (b, d) \<longrightarrow> ended new \<and> put new = got new \<and> b = bytes + of_nat (length (data @ put new)) \<and>
        d = hexdigest (update (map of_char (data @ put new)) hasher))"
    have "spec (copy_loop env reader writer n (update (map of_char data) hasher) (bytes + of_nat (length data))) ?Q"
      by (rule spec_mono [OF Suc]) (auto simp: update_append)
    then have "spec (act_bind (note_progress env (length data)) (\<lambda>_.
        copy_loop env reader writer n (update (map of_char data) hasher) (bytes + of_nat (length data)))) ?Q"
      by (rule spec_bindI [OF calm_progress [unfolded calm_def]])
        (auto simp: ended_append got_append put_append got_host put_host hosted)
    then have "spec (act_bind (writer data) (\<lambda>_. act_bind (note_progress env (length data)) (\<lambda>_.
        copy_loop env reader writer n (update (map of_char data) hasher) (bytes + of_nat (length data)))))
      (\<lambda>r st new st'. st' = st \<and> list_all admitted new \<and>
       (\<forall>b d. r = Done (b, d) \<longrightarrow> ended new \<and> put new = data @ got new \<and> b = bytes + of_nat (length (put new)) \<and>
        d = hexdigest (update (map of_char (put new)) hasher)))"
      by (rule spec_bindI [OF writer_spec [OF that]]) (auto simp: ended_append got_append put_append)
    then show ?thesis
      by (rule spec_bindI [OF calm_cancelled [unfolded calm_def]])
        (auto simp: ended_append got_append put_append got_host put_host hosted)
  qed
  have empty: "update [] hasher = hasher" by (simp add: update_def)
  have tail: "spec (if data = [] then act_return (bytes, hexdigest hasher)
      else act_bind (throw_cancelled env) (\<lambda>_. act_bind (writer data) (\<lambda>_. act_bind (note_progress env (length data)) (\<lambda>_.
        copy_loop env reader writer n (update (map of_char data) hasher) (bytes + of_nat (length data))))))
    (\<lambda>r st new st'. st' = st \<and> list_all admitted new \<and>
     (\<forall>b d. r = Done (b, d) \<longrightarrow> (data \<noteq> [] \<longrightarrow> ended new) \<and> put new = data @ got new \<and> b = bytes + of_nat (length (put new)) \<and>
        d = hexdigest (update (map of_char (put new)) hasher)))" for data
    using step [of data] got_host [of "[]"] put_host [of "[]"]
    by (cases "data = []") (auto intro!: spec_wp simp: wp_return empty)
  have "spec (act_bind reader (\<lambda>data. if data = [] then act_return (bytes, hexdigest hasher)
      else act_bind (throw_cancelled env) (\<lambda>_. act_bind (writer data) (\<lambda>_. act_bind (note_progress env (length data)) (\<lambda>_.
        copy_loop env reader writer n (update (map of_char data) hasher) (bytes + of_nat (length data)))))))
    (\<lambda>r st new st'. st' = st \<and> list_all admitted new \<and>
     (\<forall>b d. r = Done (b, d) \<longrightarrow> ended new \<and> put new = got new \<and> b = bytes + of_nat (length (put new)) \<and>
        d = hexdigest (update (map of_char (put new)) hasher)))"
    by (rule spec_bindI [OF reader_both tail]) (auto simp: ended_append got_append put_append)
  then show ?case
    unfolding copy_loop.simps
    by (rule spec_bindI [OF calm_cancelled [unfolded calm_def]])
      (auto simp: ended_append got_append put_append got_host put_host hosted)
qed

end

end
