(* ===== verification/TransferUpload.thy ===== *)
theory TransferUpload
  imports TransferFacts
begin

text \<open>
  The steps of \<^verbatim>\<open>upload_file\<close> specified by the calls they make, up to the shape of every run.
\<close>

subsection \<open>Streams of the transfer\<close>

interpretation remote_hash: hashing "remote_read env h amount" "remote_got h" harmless for env h amount
proof unfold_locales
  show "spec (remote_read env h amount) (\<lambda>r st new st'. st' = st \<and> list_all harmless new \<and> (\<forall>d. r = Done d \<longrightarrow> remote_got h new = d))"
    unfolding remote_read_def by (rule spec_invoke) (auto simp: stream_defs)
qed (auto simp: stream_append host_no_stream host_harmless)

interpretation local_hash: hashing "local_read env h amount" "local_got h" harmless for env h amount
proof unfold_locales
  show "spec (local_read env h amount) (\<lambda>r st new st'. st' = st \<and> list_all harmless new \<and> (\<forall>d. r = Done d \<longrightarrow> local_got h new = d))"
    unfolding local_read_def
    by (rule spec_wp) (auto simp: wp_bind wp_throw wp_return stream_defs intro!: wp_askI)
qed (auto simp: stream_append host_no_stream host_harmless)

definition writes_remote :: "nat \<Rightarrow> event \<Rightarrow> bool" where
  "writes_remote w e \<longleftrightarrow> harmless e \<or> (\<exists>d x. e = Remote (RWrite w d x))"

definition writes_local :: "nat \<Rightarrow> event \<Rightarrow> bool" where
  "writes_local w e \<longleftrightarrow> harmless e \<or> (\<exists>d x. e = Local (LWrite w d x))"

interpretation upload_copy:
  copying "local_read env h amount" "local_got h" "writes_remote w" "remote_write env w" "remote_put w"
    "\<lambda>es. Local (LRead h [] False) \<in> set es" for env h amount w
proof unfold_locales
  show "spec (local_read env h amount) (\<lambda>r st new st'. st' = st \<and> list_all (writes_remote w) new \<and> (\<forall>d. r = Done d \<longrightarrow> local_got h new = d))"
    by (rule spec_mono [OF local_hash.reader_spec]) (auto simp: writes_remote_def elim: list.pred_mono_strong)
  show "spec (local_read env h amount) (\<lambda>r st new st'. remote_put w new = [] \<and> (r = Done [] \<longrightarrow> Local (LRead h [] False) \<in> set new))"
    unfolding local_read_def by (rule spec_wp) (auto simp: wp_bind wp_throw wp_return stream_defs intro!: wp_askI)
  show "spec (remote_write env w data) (\<lambda>r st new st'. st' = st \<and> list_all (writes_remote w) new \<and> local_got h new = [] \<and>
      (r = Done () \<longrightarrow> remote_put w new = data))" for data
    unfolding remote_write_def by (rule spec_invoke) (auto simp: stream_defs writes_remote_def)
qed (auto simp: stream_append host_no_stream host_harmless writes_remote_def)

interpretation download_copy:
  copying "remote_read env h amount" "remote_got h" "writes_local w" "staging_write env w" "local_put w"
    "\<lambda>es. Remote (RRead h (Inr [])) \<in> set es" for env h amount w
proof unfold_locales
  show "spec (remote_read env h amount) (\<lambda>r st new st'. st' = st \<and> list_all (writes_local w) new \<and> (\<forall>d. r = Done d \<longrightarrow> remote_got h new = d))"
    by (rule spec_mono [OF remote_hash.reader_spec]) (auto simp: writes_local_def elim: list.pred_mono_strong)
  show "spec (remote_read env h amount) (\<lambda>r st new st'. local_put w new = [] \<and> (r = Done [] \<longrightarrow> Remote (RRead h (Inr [])) \<in> set new))"
    unfolding remote_read_def by (rule spec_invoke) (auto simp: stream_defs)
  show "data \<noteq> [] \<Longrightarrow> spec (staging_write env w data) (\<lambda>r st new st'. st' = st \<and> list_all (writes_local w) new \<and> remote_got h new = [] \<and>
      (r = Done () \<longrightarrow> local_put w new = data))" for data
    unfolding staging_write_def
    by (rule spec_wp) (auto simp: wp_simps stream_defs writes_local_def intro!: wp_askI)
qed (auto simp: stream_append host_no_stream host_harmless writes_local_def)

lemma content_revision_update: "hexdigest (update (map of_char d) new_hasher) = content_revision_hex d"
  by (simp add: content_revision_hex_def)

definition remote_hashed :: "string \<Rightarrow> string \<Rightarrow> string \<Rightarrow> event list \<Rightarrow> bool" where
  "remote_hashed server path d es \<longleftrightarrow>
     (\<exists>h. Remote (ROpenRead server path (Inr h)) \<in> set es \<and> d = content_revision_hex (remote_got h es))"

lemma hash_remote_file_spec:
  "spec (hash_remote_file env server path) (\<lambda>r st new st'. st' = st \<and> list_all harmless new \<and>
     (\<forall>d. r = Done d \<longrightarrow> remote_hashed server path d new))"
  unfolding hash_remote_file_def open_read_def
proof (rule spec_bindI)
  show "spec (invoke (te_open_read (env_backend env) server path) (\<lambda>r. Remote (ROpenRead server path r)))
      (\<lambda>r st new st'. st' = st \<and> (case r of Done h \<Rightarrow> new = [Remote (ROpenRead server path (Inr h))] | _ \<Rightarrow> list_all harmless new))"
    by (rule spec_invoke) auto
  show "spec (hash_reader env (remote_read env h kCopyBufferBytes)) (\<lambda>r st new st'. st' = st \<and> list_all harmless new \<and>
     (\<forall>d. r = Done d \<longrightarrow> d = content_revision_hex (remote_got h new)))" for h
    unfolding hash_reader_def content_revision_update [symmetric] by (rule remote_hash.hash_loop_spec)
qed (auto simp: remote_hashed_def remote_got_def)

subsection \<open>The staging inventory\<close>

lemma add_staging_spec:
  "spec (add_staging env a) (\<lambda>r st new st'. st' = st @ [a] \<and> list_all host_event new)"
  unfolding add_staging_def
proof (rule spec_bindI)
  show "spec (set_cell (\<lambda>c. c\<lparr>sc_staging := sc_staging c @ [a]\<rparr>)) (\<lambda>r st new st'. r = Done () \<and> st' = st @ [a] \<and> new = [])"
    by (rule spec_wp) (auto simp: wp_set_cell)
  have "calm host_event (\<lambda>_. True) (act_bind (cell_write env True (\<lambda>sn. sn)) (\<lambda>_. persist_now env))"
    by (intro calm_intros)
  then show "spec (act_bind (cell_write env True (\<lambda>sn. sn)) (\<lambda>_. persist_now env)) (\<lambda>r st new st'. st' = st \<and> list_all host_event new)"
    unfolding calm_def by (rule spec_mono) auto
qed auto

lemma remove_staging_spec:
  "spec (remove_staging env a) (\<lambda>r st new st'. st' = filter (\<lambda>x. x \<noteq> a) st \<and> list_all host_event new)"
  unfolding remove_staging_def
proof (rule spec_bindI)
  show "spec (set_cell (\<lambda>c. c\<lparr>sc_staging := filter (\<lambda>current. current \<noteq> a) (sc_staging c)\<rparr>))
      (\<lambda>r st new st'. r = Done () \<and> st' = filter (\<lambda>x. x \<noteq> a) st \<and> new = [])"
    by (rule spec_wp) (auto simp: wp_set_cell)
  have "calm host_event (\<lambda>_. True) (act_bind (cell_write env True (\<lambda>sn. sn)) (\<lambda>_. persist_now env))"
    by (intro calm_intros)
  then show "spec (act_bind (cell_write env True (\<lambda>sn. sn)) (\<lambda>_. persist_now env)) (\<lambda>r st new st'. st' = st \<and> list_all host_event new)"
    unfolding calm_def by (rule spec_mono) auto
qed auto

lemma swallow_remove_spec:
  "spec (swallow (remove_staging env a)) (\<lambda>r st new st'. st' = filter (\<lambda>x. x \<noteq> a) st \<and> list_all host_event new)"
  unfolding swallow_def
  by (rule spec_catch_allI [OF remove_staging_spec, where T = "\<lambda>_ r st new st'. st' = st \<and> new = []"])
    (auto intro!: spec_wp simp: wp_return)

text \<open>The staging file is no longer at its path.\<close>

definition remote_gone :: "string \<Rightarrow> string \<Rightarrow> event list \<Rightarrow> bool" where
  "remote_gone server stage es \<longleftrightarrow>
     Remote (RLstat server stage (Inr None)) \<in> set es \<or> Remote (RRemove server stage (Inr ())) \<in> set es"

definition removes :: "string \<Rightarrow> string \<Rightarrow> event \<Rightarrow> bool" where
  "removes server stage e \<longleftrightarrow> harmless e \<or> (\<exists>x. e = Remote (RRemove server stage x))"

definition dropped :: "string \<Rightarrow> string \<Rightarrow> staging_file \<Rightarrow> staging_file list \<Rightarrow> event list \<Rightarrow> staging_file list \<Rightarrow> bool" where
  "dropped server stage a st new st' \<longleftrightarrow> st' = st \<or> (st' = filter (\<lambda>x. x \<noteq> a) st \<and> remote_gone server stage new)"

lemma host_removes: "list_all host_event es \<Longrightarrow> list_all (removes server stage) es"
  by (auto simp: removes_def host_harmless elim: list.pred_mono_strong)

lemma residue_spec:
  "spec (note_staging_residue env i p c m) (\<lambda>r st new st'. st' = st \<and> list_all host_event new)"
  by (rule spec_mono [OF calm_note_residue [unfolded calm_def]]) auto

lemma spec_weak: "spec m S \<Longrightarrow> (\<And>r st new st'. S r st new st' \<Longrightarrow> T r st new st') \<Longrightarrow> spec m T"
  by (rule spec_mono)

lemma remove_file_cleanup:
  "spec (act_bind (attempt (remove_file env server stage)) (\<lambda>removed.
      case removed of
        Inl (code, message) \<Rightarrow> note_staging_residue env i p code message
      | Inr _ \<Rightarrow> swallow (remove_staging env a)))
    (\<lambda>r st new st'. list_all (removes server stage) new \<and> dropped server stage a st new st')"
proof (rule spec_bindI [where S = "\<lambda>r st new st'. st' = st \<and> list_all (removes server stage) new \<and>
      (\<forall>u. r = Done (Inr u) \<longrightarrow> Remote (RRemove server stage (Inr ())) \<in> set new)"
      and T = "\<lambda>x r st new st'. list_all host_event new \<and>
        (st' = st \<or> (\<exists>u. x = Inr u) \<and> st' = filter (\<lambda>x. x \<noteq> a) st)"])
  show "spec (attempt (remove_file env server stage)) (\<lambda>r st new st'. st' = st \<and> list_all (removes server stage) new \<and>
      (\<forall>u. r = Done (Inr u) \<longrightarrow> Remote (RRemove server stage (Inr ())) \<in> set new))"
    unfolding remove_file_def
  proof (rule spec_attemptI)
    show "spec (invoke (te_remove_file (env_backend env) server stage) (\<lambda>r. Remote (RRemove server stage r)))
        (\<lambda>r st new st'. st' = st \<and> list_all (removes server stage) new \<and>
          (\<forall>u. r = Done u \<longrightarrow> Remote (RRemove server stage (Inr ())) \<in> set new))"
      by (rule spec_invoke) (auto simp: removes_def)
  qed auto
  show "spec (case x of Inl (code, message) \<Rightarrow> note_staging_residue env i p code message | Inr _ \<Rightarrow> swallow (remove_staging env a))
      (\<lambda>r st new st'. list_all host_event new \<and> (st' = st \<or> (\<exists>u. x = Inr u) \<and> st' = filter (\<lambda>x. x \<noteq> a) st))" for x
    by (cases x) (auto intro!: spec_mono [OF residue_spec] spec_mono [OF swallow_remove_spec])
qed (auto simp: dropped_def remote_gone_def host_removes)

lemma cleanup_spec:
  "spec (cleanup_remote_stage env server stage i a)
    (\<lambda>r st new st'. list_all (removes server stage) new \<and> dropped server stage a st new st')"
  unfolding cleanup_remote_stage_def
proof (rule spec_bindI [where S = "\<lambda>r st new st'. st' = st \<and> list_all harmless new \<and>
      (r = Done (Inr None) \<longrightarrow> Remote (RLstat server stage (Inr None)) \<in> set new)"
      and T = "\<lambda>x r st new st'. list_all (removes server stage) new \<and>
        (dropped server stage a st new st' \<or> x = Inr None \<and> st' = filter (\<lambda>x. x \<noteq> a) st)"])
  show "spec (attempt (lstat env server stage)) (\<lambda>r st new st'. st' = st \<and> list_all harmless new \<and>
      (r = Done (Inr None) \<longrightarrow> Remote (RLstat server stage (Inr None)) \<in> set new))"
    unfolding lstat_def
  proof (rule spec_attemptI)
    show "spec (invoke (te_lstat (env_backend env) server stage) (\<lambda>r. Remote (RLstat server stage r)))
        (\<lambda>r st new st'. st' = st \<and> list_all harmless new \<and>
          (r = Done None \<longrightarrow> Remote (RLstat server stage (Inr None)) \<in> set new))"
      by (rule spec_invoke) auto
  qed auto
  show "spec (case x of
      Inl (code, message) \<Rightarrow> note_staging_residue env i stage code message
    | Inr None \<Rightarrow> swallow (remove_staging env a)
    | Inr (Some stat) \<Rightarrow>
        if rs_kind stat \<noteq> RemoteFile then note_staging_residue env i stage ErrInvalidInput not_a_regular_stage
        else act_bind (attempt (remove_file env server stage)) (\<lambda>removed.
          case removed of
            Inl (code, message) \<Rightarrow> note_staging_residue env i stage code message
          | Inr _ \<Rightarrow> swallow (remove_staging env a)))
    (\<lambda>r st new st'. list_all (removes server stage) new \<and>
        (dropped server stage a st new st' \<or> x = Inr None \<and> st' = filter (\<lambda>x. x \<noteq> a) st))" for x
    by (auto intro!: spec_mono [OF residue_spec] spec_mono [OF swallow_remove_spec] spec_mono [OF remove_file_cleanup]
        simp: dropped_def host_removes split: sum.split option.split)
qed (auto simp: dropped_def remote_gone_def removes_def elim: list.pred_mono_strong)

lemma unwind_stage_spec:
  "spec (unwind_stage env server stage i e) (\<lambda>r st new st'. (\<forall>x. r \<noteq> Done x) \<and> list_all (removes server stage) new \<and>
     dropped server stage (remote_artifact server stage i) st new st')"
  unfolding unwind_stage_def
  by (rule spec_bindI [OF cleanup_spec, where T = "\<lambda>_ r st new st'. r = Raised e \<and> st' = st \<and> new = []"])
    (auto intro!: spec_wp simp: wp_throw)

subsection \<open>The staging file\<close>

definition staged_path :: "string \<Rightarrow> string \<Rightarrow> 64 word \<Rightarrow> string \<Rightarrow> bool" where
  "staged_path transfer_id target i p \<longleftrightarrow>
     (\<exists>k<32. remote_child (parent_of target) (stage_name transfer_id (basename_of target) (unat i) k) = Inr p)"

definition probes :: "string \<Rightarrow> string \<Rightarrow> string \<Rightarrow> 64 word \<Rightarrow> event \<Rightarrow> bool" where
  "probes server transfer_id target i e \<longleftrightarrow>
     harmless e \<or> (\<exists>p x. e = Remote (RCreate server p (Inl x)) \<and> staged_path transfer_id target i p)"

definition created :: "string \<Rightarrow> string \<Rightarrow> string \<Rightarrow> 64 word \<Rightarrow> (string \<times> nat) outcome \<Rightarrow> event list \<Rightarrow> bool" where
  "created server transfer_id target i r new \<longleftrightarrow>
     (case r of
        Done (p, w) \<Rightarrow> staged_path transfer_id target i p \<and>
          (\<exists>pre. new = pre @ [Remote (RCreate server p (Inr w))] \<and> list_all (probes server transfer_id target i) pre)
      | _ \<Rightarrow> list_all (probes server transfer_id target i) new)"

lemma created_prefix:
  "list_all (probes server tid target i) a \<Longrightarrow> created server tid target i r b \<Longrightarrow> created server tid target i r (a @ b)"
  by (fastforce simp: created_def split: outcome.splits)

lemma created_harmless: "list_all harmless a \<Longrightarrow> created server tid target i r b \<Longrightarrow> created server tid target i r (a @ b)"
  by (rule created_prefix) (auto simp: probes_def elim: list.pred_mono_strong)

lemma created_exit:
  "list_all harmless es \<Longrightarrow> created server tid target i (Raised e) es \<and> created server tid target i Hung es"
  by (auto simp: created_def probes_def elim: list.pred_mono_strong)

lemma create_attempt_spec:
  "spec (attempt (create_exclusive env server p)) (\<lambda>r st new st'. st' = st \<and>
     (case r of
        Done (Inr w) \<Rightarrow> new = [Remote (RCreate server p (Inr w))]
      | _ \<Rightarrow> \<exists>x. new = [Remote (RCreate server p (Inl x))]))"
  unfolding create_exclusive_def
proof (rule spec_attemptI)
  show "spec (invoke (te_create_exclusive (env_backend env) server p) (\<lambda>r. Remote (RCreate server p r)))
      (\<lambda>r st new st'. st' = st \<and> (case r of
          Done w \<Rightarrow> new = [Remote (RCreate server p (Inr w))]
        | _ \<Rightarrow> r \<noteq> Hung \<and> (\<exists>x. new = [Remote (RCreate server p (Inl x))])))"
    by (rule spec_invoke) auto
qed auto

lemma stage_attempts_spec:
  assumes "set ks \<subseteq> {..<32}"
  shows "spec (stage_attempts env server tid (parent_of target) (basename_of target) i ks)
    (\<lambda>r st new st'. st' = st \<and> created server tid target i r new)"
  using assms
proof (induction ks)
  case Nil
  show ?case by (auto intro!: spec_wp simp: wp_throw created_def)
next
  case (Cons k ks)
  let ?child = "remote_child (parent_of target) (stage_name tid (basename_of target) (unat i) k)"
  have next_try: "spec (stage_attempts env server tid (parent_of target) (basename_of target) i ks)
      (\<lambda>r st new st'. st' = st \<and> created server tid target i r new)" using Cons by simp
  have made: "spec (act_bind (attempt (create_exclusive env server p)) (\<lambda>made.
       case made of
         Inr h \<Rightarrow> act_return (p, h)
       | Inl (code, message) \<Rightarrow>
           if code = ErrAlreadyExists then stage_attempts env server tid (parent_of target) (basename_of target) i ks
           else act_throw (TransferErr code message)))
      (\<lambda>r st new st'. st' = st \<and> created server tid target i r new)" if "?child = Inr p" for p
  proof -
    have path: "staged_path tid target i p" using that Cons.prems by (auto simp: staged_path_def)
    show ?thesis
    proof (rule spec_bindI [OF create_attempt_spec])
      fix made :: "(transfer_error_code \<times> string) + nat"
      show "spec (case made of
          Inr h \<Rightarrow> act_return (p, h)
        | Inl (code, message) \<Rightarrow>
            if code = ErrAlreadyExists then stage_attempts env server tid (parent_of target) (basename_of target) i ks
            else act_throw (TransferErr code message))
        (\<lambda>r st new st'. st' = st \<and> (case made of Inr h \<Rightarrow> r = Done (p, h) \<and> new = [] | Inl _ \<Rightarrow> created server tid target i r new))"
        by (auto intro!: spec_wp spec_mono [OF next_try] simp: wp_return wp_throw created_def split: sum.split)
    next
      fix made :: "(transfer_error_code \<times> string) + nat" and r st a mid b st'
      assume "mid = st \<and> (case Done made of Done (Inr w) \<Rightarrow> a = [Remote (RCreate server p (Inr w))]
          | _ \<Rightarrow> \<exists>x. a = [Remote (RCreate server p (Inl x))])"
        and "st' = mid \<and> (case made of Inr h \<Rightarrow> r = Done (p, h) \<and> b = [] | Inl _ \<Rightarrow> created server tid target i r b)"
      then show "st' = st \<and> created server tid target i r (a @ b)"
        using path created_prefix [of server tid target i a r b]
        by (cases made) (auto simp: probes_def, auto simp: created_def)
    qed (use path in \<open>auto simp: created_def probes_def split: outcome.splits\<close>)
  qed
  show ?case
    unfolding stage_attempts.simps remote_child_checked_def
  proof (rule spec_bindI [OF calm_checked [of "\<lambda>_. False", unfolded calm_def]])
    fix p and st :: "staging_file list" and a mid
    assume "mid = st \<and> list_all (\<lambda>_. False) a \<and> (case Done p of Done x \<Rightarrow> ?child = Inr x | _ \<Rightarrow> True)"
    then have child: "?child = Inr p" by simp
    show "spec (act_bind (lstat env server p) (\<lambda>found.
        if found \<noteq> None then stage_attempts env server tid (parent_of target) (basename_of target) i ks
        else act_bind (attempt (create_exclusive env server p)) (\<lambda>made.
          case made of
            Inr h \<Rightarrow> act_return (p, h)
          | Inl (code, message) \<Rightarrow>
              if code = ErrAlreadyExists then stage_attempts env server tid (parent_of target) (basename_of target) i ks
              else act_throw (TransferErr code message))))
      (\<lambda>r st new st'. st' = st \<and> created server tid target i r new)"
    proof (rule spec_bindI [OF calm_lstat [unfolded calm_def]])
      show "spec (if found \<noteq> None then stage_attempts env server tid (parent_of target) (basename_of target) i ks
        else act_bind (attempt (create_exclusive env server p)) (\<lambda>made.
          case made of
            Inr h \<Rightarrow> act_return (p, h)
          | Inl (code, message) \<Rightarrow>
              if code = ErrAlreadyExists then stage_attempts env server tid (parent_of target) (basename_of target) i ks
              else act_throw (TransferErr code message)))
        (\<lambda>r st new st'. st' = st \<and> created server tid target i r new)" for found
        using made [OF child] next_try by simp
    qed (auto simp: created_harmless created_exit)
  qed (auto simp: created_def list_all_iff)
qed

lemma create_remote_stage_spec:
  "spec (create_remote_stage env server tid target i) (\<lambda>r st new st'. st' = st \<and> created server tid target i r new)"
  unfolding create_remote_stage_def by (rule stage_attempts_spec) auto

subsection \<open>Streaming, checking and publishing\<close>

text \<open>What has been established when the writer was finished, and when the stage was read back.\<close>

text \<open>The source was looked at: a regular file with that size and time of change.\<close>

definition source_seen :: "string \<Rightarrow> local_fingerprint \<Rightarrow> event list \<Rightarrow> bool" where
  "source_seen path fp es \<longleftrightarrow>
     Local (LStatus path RegularFile None) \<in> set es \<and> Local (LSize path (Inr (lf_size fp))) \<in> set es \<and>
     Local (LTime path (lf_modified fp)) \<in> set es"

definition streamed :: "string \<Rightarrow> nat \<Rightarrow> nat \<Rightarrow> local_fingerprint \<Rightarrow> 64 word \<Rightarrow> string \<Rightarrow> event list \<Rightarrow> bool" where
  "streamed source input w fingerprint bytes sha es \<longleftrightarrow>
     remote_put w es = local_got input es \<and> bytes = of_nat (length (remote_put w es)) \<and>
     bytes = lf_size fingerprint \<and> sha = content_revision_hex (remote_put w es) \<and>
     (\<exists>copied rest. es = copied @ rest \<and> Local (LRead input [] False) \<in> set copied \<and>
        source_seen source fingerprint rest \<and> Remote (RFinish w (Inr ())) \<in> set rest)"

lemma streamed_more:
  assumes "streamed source input w fp bytes sha es" "remote_put w other = []" "local_got input other = []"
  shows "streamed source input w fp bytes sha (es @ other)" "streamed source input w fp bytes sha (other @ es)"
proof -
  obtain copied rest where es: "es = copied @ rest" "Local (LRead input [] False) \<in> set copied" "source_seen source fp rest"
    "Remote (RFinish w (Inr ())) \<in> set rest"
    using assms(1) unfolding streamed_def by blast
  have "source_seen source fp (rest @ other)" using es(3) by (auto simp: source_seen_def)
  moreover have "es @ other = copied @ (rest @ other)" "other @ es = (other @ copied) @ rest" using es(1) by simp_all
  ultimately show "streamed source input w fp bytes sha (es @ other)" "streamed source input w fp bytes sha (other @ es)"
    using assms es unfolding streamed_def stream_append by (metis append_Nil append_Nil2 Un_iff set_append)+
qed

definition writing :: "nat \<Rightarrow> event \<Rightarrow> bool" where
  "writing w e \<longleftrightarrow> harmless e \<or> (\<exists>d x. e = Remote (RWrite w d x)) \<or> (\<exists>x. e = Remote (RFinish w x)) \<or> e = Remote (RClose w)"

text \<open>A step that neither reads the source nor writes the stage.\<close>

definition neutral :: "event \<Rightarrow> bool" where
  "neutral e \<longleftrightarrow> harmless e \<and> (\<forall>h d b. e \<noteq> Local (LRead h d b))"

lemma neutral_streams: "list_all neutral es \<Longrightarrow> local_got h es = [] \<and> remote_put w es = []"
proof (induction es)
  case (Cons e es)
  then show ?case by (cases e) (auto simp: stream_defs neutral_def split: remote_event.splits local_event.splits)
qed (simp add: stream_defs)

lemma host_neutral: "host_event e \<Longrightarrow> neutral e"
  by (cases e) (auto simp: neutral_def)

lemma calm_verify_neutral: "calm neutral (\<lambda>_. True) (verify_local_source_unchanged env path f)"
  unfolding verify_local_source_unchanged_def fingerprint_for_def symlink_status_def file_size_def last_write_time_def
  by (auto intro!: calm_intros simp: neutral_def)

lemma calm_cancelled_neutral: "calm neutral (\<lambda>_. True) (throw_cancelled env)"
  by (rule calm_events [OF calm_cancelled host_neutral])

lemma streamed_suffix: "list_all neutral b \<Longrightarrow>
  remote_put w (a @ b) = remote_put w a \<and> local_got input (a @ b) = local_got input a"
  using neutral_streams by (simp add: stream_append)

lemma neutral_writing: "list_all neutral es \<Longrightarrow> list_all (writing w) es"
  by (auto simp: writing_def neutral_def elim: list.pred_mono_strong)

lemma finish_streams: "remote_put w [Remote (RFinish w' x)] = []" "local_got h [Remote (RFinish w' x)] = []"
  "writing w (Remote (RFinish w x))"
  by (simp_all add: stream_defs writing_def)

lemma throw_if_spec: "spec (throw_if b c t) (\<lambda>r st new st'. st' = st \<and> new = [] \<and> (r = Done () \<longrightarrow> \<not> b))"
  by (rule spec_wp) (simp add: wp_throw_if)

lemma fingerprint_spec:
  "spec (fingerprint_for env path) (\<lambda>r st new st'. st' = st \<and> list_all neutral new \<and>
     (\<forall>fp. r = Done fp \<longrightarrow> Local (LSize path (Inr (lf_size fp))) \<in> set new \<and> Local (LTime path (lf_modified fp)) \<in> set new))"
  unfolding fingerprint_for_def file_size_def last_write_time_def
  by (rule spec_wp) (auto simp: wp_simps neutral_def intro!: wp_askI split: sum.split)

lemma verify_source_spec:
  "spec (verify_local_source_unchanged env path fp) (\<lambda>r st new st'. st' = st \<and> list_all neutral new \<and>
     (r = Done () \<longrightarrow> source_seen path fp new))"
proof -
  let ?look = "\<lambda>t e. if status_missing t e \<or> t \<noteq> RegularFile then act_return False
     else act_bind (fingerprint_for env path) (\<lambda>now. act_return (now = fp))"
  have same: "spec (?look t e) (\<lambda>r st new st'. st' = st \<and> list_all neutral new \<and> (r = Done True \<longrightarrow> t = RegularFile \<and>
      \<not> status_missing t e \<and> Local (LSize path (Inr (lf_size fp))) \<in> set new \<and> Local (LTime path (lf_modified fp)) \<in> set new))" for t e
  proof (cases "status_missing t e \<or> t \<noteq> RegularFile")
    case False
    have "spec (act_bind (fingerprint_for env path) (\<lambda>now. act_return (now = fp))) (\<lambda>r st new st'. st' = st \<and> list_all neutral new \<and>
      (r = Done True \<longrightarrow> Local (LSize path (Inr (lf_size fp))) \<in> set new \<and> Local (LTime path (lf_modified fp)) \<in> set new))"
      by (rule spec_bindI [OF fingerprint_spec spec_return [where Q = "\<lambda>r st new st'. r = Done (x = fp) \<and> new = [] \<and> st' = st" for x]]) auto
    with False show ?thesis by (auto elim: spec_mono)
  qed (auto intro!: spec_return)
  show ?thesis
    unfolding verify_local_source_unchanged_def symlink_status_def
  proof (rule spec_bindI [where S = "\<lambda>r st new st'. st' = st \<and> (\<forall>y. r = Done y \<longrightarrow> new = [Local (LStatus path (fst y) (snd y))]) \<and> list_all neutral new"])
    show "spec (ask (te_symlink_status (env_files env) path) (\<lambda>(t, e). Local (LStatus path t e)))
      (\<lambda>r st new st'. st' = st \<and> (\<forall>y. r = Done y \<longrightarrow> new = [Local (LStatus path (fst y) (snd y))]) \<and> list_all neutral new)"
      by (rule spec_ask) (auto simp: neutral_def split: prod.split)
    have body: "spec (act_bind (?look t e) (\<lambda>same. throw_if (\<not> same) ErrSourceChanged m))
      (\<lambda>r st new st'. st' = st \<and> list_all neutral new \<and> (r = Done () \<longrightarrow> t = RegularFile \<and>
      \<not> status_missing t e \<and> Local (LSize path (Inr (lf_size fp))) \<in> set new \<and> Local (LTime path (lf_modified fp)) \<in> set new))" for t e m
      by (rule spec_bindI [OF same throw_if_spec]) auto
    show "spec (case y of (t, e) \<Rightarrow> if e \<noteq> None \<and> \<not> status_missing t e then throw_local (m t e)
        else act_bind (?look t e) (\<lambda>same. throw_if (\<not> same) ErrSourceChanged m'))
      (\<lambda>r st new st'. st' = st \<and> list_all neutral new \<and> (r = Done () \<longrightarrow> y = (RegularFile, None) \<and>
         Local (LSize path (Inr (lf_size fp))) \<in> set new \<and> Local (LTime path (lf_modified fp)) \<in> set new))" for y m m'
    proof (cases y)
      case (Pair t e)
      show ?thesis
      proof (cases "e \<noteq> None \<and> \<not> status_missing t e")
        case True
        then show ?thesis by (simp add: Pair) (rule spec_throw, simp)
      next
        case False
        show ?thesis unfolding Pair prod.case if_not_P [OF False] by (rule spec_mono [OF body]) (use False in auto)
      qed
    qed
  qed (auto simp: source_seen_def)
qed

lemma upload_stream_spec:
  "spec (upload_stream env item input fingerprint w) (\<lambda>r st new st'. st' = st \<and> list_all (writing w) new \<and>
     (\<forall>b d. r = Done (b, d) \<longrightarrow> streamed (ui_source item) input w fingerprint b d new))"
proof -
  let ?unchanged = "act_bind (verify_local_source_unchanged env (ui_source item) fingerprint) (\<lambda>_. throw_cancelled env)"
  let ?checks = "\<lambda>bytes sha. act_bind (throw_if (bytes \<noteq> lf_size fingerprint) ErrSourceChanged
       (''selected local source changed size while being uploaded (expected '' @ decimal (unat (lf_size fingerprint)) @
        '' bytes, read '' @ decimal (unat bytes) @ '')'')) (\<lambda>_. ?unchanged)"
  have unchanged: "spec ?unchanged (\<lambda>r st new st'. st' = st \<and> list_all neutral new \<and>
      (r = Done () \<longrightarrow> source_seen (ui_source item) fingerprint new))"
    by (rule spec_bindI [OF verify_source_spec calm_cancelled_neutral [unfolded calm_def]]) (auto simp: source_seen_def)
  have checks: "spec (?checks bytes sha) (\<lambda>r st new st'. st' = st \<and> list_all neutral new \<and>
      (r = Done () \<longrightarrow> bytes = lf_size fingerprint \<and> source_seen (ui_source item) fingerprint new))" for bytes sha
    by (rule spec_bindI [OF throw_if_spec unchanged]) auto
  have finish: "spec (act_bind (remote_finish env w) (\<lambda>_. act_return (bytes, sha))) (\<lambda>r st new st'. st' = st \<and>
      (\<exists>x. new = [Remote (RFinish w x)] \<and> (\<forall>y. r = Done y \<longrightarrow> y = (bytes, sha) \<and> x = Inr ())))" for bytes sha
    unfolding remote_finish_def
  proof (rule spec_bindI)
    show "spec (invoke (te_finish (env_backend env) w) (\<lambda>r. Remote (RFinish w r))) (\<lambda>r st new st'. st' = st \<and>
        (\<exists>x. new = [Remote (RFinish w x)] \<and> (r = Done () \<longrightarrow> x = Inr ())))"
      by (rule spec_invoke) auto
    show "spec (act_return (bytes, sha)) (\<lambda>r st new st'. r = Done (bytes, sha) \<and> new = [] \<and> st' = st)"
      by (rule spec_wp) (simp add: wp_return)
  qed auto
  have tail: "spec (act_bind (?checks bytes sha) (\<lambda>_. act_bind (remote_finish env w) (\<lambda>_. act_return (bytes, sha))))
    (\<lambda>r st new st'. st' = st \<and> list_all (writing w) new \<and> remote_put w new = [] \<and> local_got input new = [] \<and>
      (\<forall>y. r = Done y \<longrightarrow> y = (bytes, sha) \<and> bytes = lf_size fingerprint \<and> source_seen (ui_source item) fingerprint new \<and>
         Remote (RFinish w (Inr ())) \<in> set new))" for bytes sha
  proof (rule spec_bindI [OF checks finish])
  qed (auto simp: finish_streams stream_append neutral_streams neutral_writing source_seen_def)
  have copy: "spec (copy_stream env (local_read env input kCopyBufferBytes) (remote_write env w))
    (\<lambda>r st new st'. st' = st \<and> list_all (writing w) new \<and> (\<forall>b d. r = Done (b, d) \<longrightarrow>
       Local (LRead input [] False) \<in> set new \<and>
       remote_put w new = local_got input new \<and> b = of_nat (length (remote_put w new)) \<and>
       d = content_revision_hex (remote_put w new)))"
    unfolding copy_stream_def
    by (rule spec_mono [OF upload_copy.copy_loop_spec])
      (auto simp: content_revision_update writes_remote_def writing_def elim: list.pred_mono_strong)
  have rest: "spec (case y of (bytes, sha) \<Rightarrow> act_bind (?checks bytes sha) (\<lambda>_. act_bind (remote_finish env w) (\<lambda>_. act_return (bytes, sha))))
    (\<lambda>r st new st'. st' = st \<and> list_all (writing w) new \<and> remote_put w new = [] \<and> local_got input new = [] \<and>
      (\<forall>z. r = Done z \<longrightarrow> z = y \<and> fst y = lf_size fingerprint \<and> source_seen (ui_source item) fingerprint new \<and>
         Remote (RFinish w (Inr ())) \<in> set new))" for y
    using tail by (cases y) (auto elim: spec_mono)
  show ?thesis
    unfolding upload_stream_def
  proof (rule spec_bindI [OF copy rest [unfolded act_bind_assoc]])
  qed (auto simp: streamed_def stream_append, blast)
qed

subsection \<open>Reading the stage back\<close>

definition verified :: "string \<Rightarrow> string \<Rightarrow> 64 word \<Rightarrow> string \<Rightarrow> event list \<Rightarrow> bool" where
  "verified server stage bytes sha es \<longleftrightarrow>
     (\<exists>stat. Remote (RLstat server stage (Inr (Some stat))) \<in> set es \<and> rs_kind stat = RemoteFile \<and> rs_size stat = bytes) \<and>
     remote_hashed server stage sha es"

lemma lstat_spec:
  "spec (lstat env server path) (\<lambda>r st new st'. st' = st \<and> (\<exists>x. new = [Remote (RLstat server path x)] \<and>
     (\<forall>found. r = Done found \<longrightarrow> x = Inr found) \<and> r \<noteq> Hung))"
  unfolding lstat_def by (rule spec_invoke) auto

lemma remote_hashed_lstat: "remote_hashed server p d es \<Longrightarrow> remote_hashed server p d (Remote (RLstat s' p' x) # es)"
  by (auto simp: remote_hashed_def remote_got_def)

lemma verify_stage_spec:
  "spec (verify_stage env server stage bytes sha) (\<lambda>r st new st'. st' = st \<and> list_all harmless new \<and>
     (r = Done () \<longrightarrow> verified server stage bytes sha new))"
  unfolding verify_stage_def
proof (rule spec_bindI [OF lstat_spec])
  fix found
  show "spec (act_bind (throw_if (\<not> is_file_of_size found bytes) ErrVerification
       ''remote staging file size or type did not match the uploaded stream'') (\<lambda>_.
     act_bind (hash_remote_file env server stage) (\<lambda>remote_digest.
     throw_if (remote_digest \<noteq> sha) ErrVerification ''remote staging file SHA-256 did not match the local source'')))
    (\<lambda>r st new st'. st' = st \<and> list_all harmless new \<and>
       (r = Done () \<longrightarrow> is_file_of_size found bytes \<and> remote_hashed server stage sha new))"
  proof (rule spec_bindI [OF throw_if_spec])
    show "spec (act_bind (hash_remote_file env server stage) (\<lambda>remote_digest.
        throw_if (remote_digest \<noteq> sha) ErrVerification ''remote staging file SHA-256 did not match the local source''))
      (\<lambda>r st new st'. st' = st \<and> list_all harmless new \<and> (r = Done () \<longrightarrow> remote_hashed server stage sha new))"
      by (rule spec_bindI [OF hash_remote_file_spec throw_if_spec]) auto
  qed auto
qed (auto simp: is_file_of_size_def verified_def remote_hashed_lstat split: option.splits)

subsection \<open>The publication\<close>

text \<open>
  The look at the target and the publication that follows it at once: without replacing when the
  target was absent, or over the entry that was expected there.
\<close>

definition publication :: "string \<Rightarrow> string \<Rightarrow> remote_resolution \<Rightarrow> transfer_exception + unit \<Rightarrow> event list \<Rightarrow> bool" where
  "publication server stage res x es \<longleftrightarrow>
     (\<exists>cur. rr_choice res = CreateDestination \<and> cur = None \<and>
         es = [Remote (RLstat server (rr_target res) (Inr cur)), Remote (RPublish server stage (rr_target res) x)]
       \<or> rr_choice res \<noteq> CreateDestination \<and> cur \<noteq> None \<and> cur = rr_expected res \<and>
         es = [Remote (RLstat server (rr_target res) (Inr cur)), Remote (RReplace server stage (rr_target res) x)])"

lemma publish_calls:
  "spec (publish_no_replace env server stage t) (\<lambda>r st new st'. st' = st \<and>
     (\<exists>x. new = [Remote (RPublish server stage t x)] \<and> (r = Done () \<longrightarrow> x = Inr ()) \<and> r \<noteq> Hung))"
  "spec (rename_replace env server stage t) (\<lambda>r st new st'. st' = st \<and>
     (\<exists>x. new = [Remote (RReplace server stage t x)] \<and> (r = Done () \<longrightarrow> x = Inr ()) \<and> r \<noteq> Hung))"
  unfolding publish_no_replace_def rename_replace_def by (rule spec_invoke; auto)+

lemma publish_stage_spec:
  "spec (publish_stage env server stage res) (\<lambda>r st new st'. st' = st \<and>
     (list_all harmless new \<and> r \<noteq> Done () \<or>
      (\<exists>x. publication server stage res x new \<and> (r = Done () \<longrightarrow> x = Inr ()))))"
  unfolding publish_stage_def
proof (rule spec_bindI [OF lstat_spec])
  fix current
  show "spec (if rr_choice res = CreateDestination then
       (if current \<noteq> None then act_throw (TransferErr ErrAlreadyExists ''destination already exists'')
        else publish_no_replace env server stage (rr_target res))
     else if current = None then throw_invalid ''overwrite target disappeared before publication''
     else if rr_expected res = None \<or> current \<noteq> rr_expected res
     then throw_invalid ''overwrite target changed while the upload was staged''
     else rename_replace env server stage (rr_target res))
    (\<lambda>r st new st'. st' = st \<and> (new = [] \<and> r \<noteq> Done () \<or>
       (\<exists>x. (r = Done () \<longrightarrow> x = Inr ()) \<and>
         (rr_choice res = CreateDestination \<and> current = None \<and> new = [Remote (RPublish server stage (rr_target res) x)] \<or>
          rr_choice res \<noteq> CreateDestination \<and> current \<noteq> None \<and> current = rr_expected res \<and>
            new = [Remote (RReplace server stage (rr_target res) x)]))))"
    by (auto intro!: spec_mono [OF publish_calls(1)] spec_mono [OF publish_calls(2)] spec_throw)
qed (auto simp: publication_def)

lemma confirm_spec:
  "spec (confirm_published env server t bytes) (\<lambda>r st new st'. st' = st \<and> list_all harmless new)"
  unfolding confirm_published_def by (rule spec_bindI [OF lstat_spec throw_if_spec]) auto

definition delivered :: "string \<Rightarrow> string \<Rightarrow> remote_resolution \<Rightarrow> 64 word \<Rightarrow> string \<Rightarrow> transfer_exception + unit \<Rightarrow> event list \<Rightarrow> bool" where
  "delivered server stage res bytes sha x es \<longleftrightarrow>
     (\<exists>before pub post. es = before @ pub @ post \<and> list_all harmless before \<and> verified server stage bytes sha before \<and>
        publication server stage res x pub \<and> list_all (removes server stage) post)"

lemma delivered_more:
  "delivered server stage res bytes sha x es \<Longrightarrow> list_all (removes server stage) later \<Longrightarrow>
   delivered server stage res bytes sha x (es @ later)"
  unfolding delivered_def by (elim exE conjE) (metis append.assoc list_all_append)

lemma harmless_removes: "list_all harmless es \<Longrightarrow> list_all (removes server stage) es"
  by (auto simp: removes_def elim: list.pred_mono_strong)

end
