(* ===== verification/TransferDownload.thy ===== *)
theory TransferDownload
  imports TransferUpload
begin

text \<open>
  The shape of every run of \<^verbatim>\<open>download_file\<close>, by the calls it makes.
\<close>

subsection \<open>Events of a download\<close>

definition filling :: "nat \<Rightarrow> event \<Rightarrow> bool" where
  "filling w e \<longleftrightarrow> harmless e \<or> (\<exists>d x. e = Local (LWrite w d x)) \<or> (\<exists>x. e = Local (LFlush w x)) \<or>
     (\<exists>x. e = Local (LFinish w x)) \<or> e = Local (LClose w)"

definition removes_local :: "string \<Rightarrow> event \<Rightarrow> bool" where
  "removes_local stage e \<longleftrightarrow> harmless e \<or> (\<exists>x. e = Local (LRemove stage x))"

definition local_stage_event :: "string \<Rightarrow> nat \<Rightarrow> event \<Rightarrow> bool" where
  "local_stage_event stage w e \<longleftrightarrow> filling w e \<or> removes_local stage e"

lemma local_stage_events:
  "list_all harmless es \<Longrightarrow> list_all (filling w) es"
  "list_all harmless es \<Longrightarrow> list_all (removes_local stage) es"
  "list_all (filling w) es \<Longrightarrow> list_all (local_stage_event stage w) es"
  "list_all (removes_local stage) es \<Longrightarrow> list_all (local_stage_event stage w) es"
  by (auto simp: filling_def removes_local_def local_stage_event_def elim: list.pred_mono_strong)

text \<open>An action with all its events in \<open>P\<close>, whatever it does to the inventory.\<close>

definition within :: "(event \<Rightarrow> bool) \<Rightarrow> ('w, 'a) action \<Rightarrow> bool" where
  "within P m \<longleftrightarrow> spec m (\<lambda>r st new st'. list_all P new)"

lemma within_bind: "within P m \<Longrightarrow> (\<And>x. within P (f x)) \<Longrightarrow> within P (act_bind m f)"
  unfolding within_def
proof -
  assume "spec m (\<lambda>r st new st'. list_all P new)" "\<And>x. spec (f x) (\<lambda>r st new st'. list_all P new)"
  then show "spec (act_bind m f) (\<lambda>r st new st'. list_all P new)" by (rule spec_bindI) auto
qed

lemma within_calm: "calm P R m \<Longrightarrow> within P m"
  unfolding calm_def within_def by (erule spec_mono) simp

lemma within_events: "within P m \<Longrightarrow> (\<And>e. P e \<Longrightarrow> Q e) \<Longrightarrow> within Q m"
  unfolding within_def by (erule spec_mono) (auto elim: list.pred_mono_strong)

lemma within_staging: "within host_event (add_staging env a)" "within host_event (remove_staging env a)"
    "within host_event (swallow (remove_staging env a))"
  unfolding within_def
  by (rule spec_mono [OF add_staging_spec] spec_mono [OF remove_staging_spec] spec_mono [OF swallow_remove_spec], simp)+

lemma within_attempt: "within P m \<Longrightarrow> within P (attempt m)"
  unfolding within_def by (erule spec_attemptI) auto

lemma within_swallow: "within P m \<Longrightarrow> within P (swallow m)"
  unfolding within_def swallow_def
proof -
  assume "spec m (\<lambda>r st new st'. list_all P new)"
  then show "spec (act_catch_all m (\<lambda>_. act_return ())) (\<lambda>r st new st'. list_all P new)"
    by (rule spec_catch_allI [where T = "\<lambda>_ r st new st'. new = []"]) (auto intro: spec_return)
qed

lemma remove_local_within: "within (removes_local stage) (remove_local_staging env stage)"
  unfolding remove_local_staging_def local_remove_def
  by (rule within_calm [where R = "\<lambda>_. True"]) (auto intro!: calm_intros simp: removes_local_def)

lemma host_removes_local: "host_event e \<Longrightarrow> removes_local stage e"
  by (simp add: removes_local_def host_harmless)

lemma unwind_download_within: "spec (unwind_download env stage i e) (\<lambda>r st new st'. (\<forall>x. r \<noteq> Done x) \<and> list_all (removes_local stage) new)"
proof -
  have residue: "within (removes_local stage) (note_staging_residue env i p c m)" for p c m
    by (rule within_events [OF within_calm [OF calm_note_residue] host_removes_local])
  have tidy: "within (removes_local stage) (case x of
         Inr _ \<Rightarrow> swallow (remove_staging env (local_artifact stage i))
       | Inl (code, message) \<Rightarrow> note_staging_residue env i (te_filename (env_paths env) stage) code message)" for x
    using residue within_events [OF within_staging(3) host_removes_local] by (cases x) auto
  have "spec (act_bind (case x of
         Inr _ \<Rightarrow> swallow (remove_staging env (local_artifact stage i))
       | Inl (code, message) \<Rightarrow> note_staging_residue env i (te_filename (env_paths env) stage) code message) (\<lambda>_. act_throw e))
     (\<lambda>r st new st'. (\<forall>y. r \<noteq> Done y) \<and> list_all (removes_local stage) new)" for x
    by (rule spec_bindI [OF tidy [unfolded within_def], where T = "\<lambda>_ r st new st'. r = Raised e \<and> new = []"])
      (auto intro!: spec_throw)
  then show ?thesis
    unfolding unwind_download_def
    by (rule spec_bindI [OF within_attempt [OF remove_local_within, unfolded within_def]]) auto
qed

lemma unwind_recording_within: "spec (unwind_recording env stage i e) (\<lambda>r st new st'. (\<forall>x. r \<noteq> Done x) \<and> list_all (removes_local stage) new)"
proof -
  have "spec (act_bind (swallow (remove_staging env (local_artifact stage i))) (\<lambda>_. act_throw e))
     (\<lambda>r st new st'. (\<forall>y. r \<noteq> Done y) \<and> list_all (removes_local stage) new)"
    by (rule spec_bindI [OF within_events [OF within_staging(3) host_removes_local, unfolded within_def],
          where T = "\<lambda>_ r st new st'. r = Raised e \<and> new = []"]) (auto intro!: spec_throw)
  then show ?thesis
    unfolding unwind_recording_def
    by (rule spec_bindI [OF within_swallow [OF remove_local_within, unfolded within_def]]) auto
qed

subsection \<open>The staging file\<close>

definition local_staged_path :: "'w transfer_env \<Rightarrow> string \<Rightarrow> string \<Rightarrow> 64 word \<Rightarrow> string \<Rightarrow> bool" where
  "local_staged_path env tid target i p \<longleftrightarrow>
     (\<exists>k<32. p = te_join (env_paths env) (te_parent (env_paths env) target)
        (stage_name tid (te_filename (env_paths env) target) (unat i) k))"

definition tries_local :: "event \<Rightarrow> bool" where
  "tries_local e \<longleftrightarrow> harmless e \<or> (\<exists>p x. e = Local (LCreate p x) \<and> (\<forall>h. x \<noteq> Opened h))"

definition created_local :: "'w transfer_env \<Rightarrow> string \<Rightarrow> string \<Rightarrow> 64 word \<Rightarrow> (string \<times> nat) outcome \<Rightarrow> event list \<Rightarrow> bool" where
  "created_local env tid target i r new \<longleftrightarrow>
     (case r of
        Done (p, w) \<Rightarrow> local_staged_path env tid target i p \<and>
          (\<exists>pre. new = pre @ [Local (LCreate p (Opened w))] \<and> list_all tries_local pre)
      | _ \<Rightarrow> list_all tries_local new)"

lemma local_attempts_spec:
  assumes "set ks \<subseteq> {..<32}"
  shows "spec (local_stage_attempts env (te_parent (env_paths env) target) (te_filename (env_paths env) target) tid i ks)
    (\<lambda>r st new st'. st' = st \<and> created_local env tid target i r new)"
  using assms
proof (induction ks)
  case Nil
  show ?case by (auto intro!: spec_throw simp: created_local_def)
next
  case (Cons k ks)
  let ?p = "te_join (env_paths env) (te_parent (env_paths env) target) (stage_name tid (te_filename (env_paths env) target) (unat i) k)"
  have path: "local_staged_path env tid target i ?p" using Cons.prems unfolding local_staged_path_def by auto
  have again: "spec (local_stage_attempts env (te_parent (env_paths env) target) (te_filename (env_paths env) target) tid i ks)
    (\<lambda>r st new st'. st' = st \<and> created_local env tid target i r new)" using Cons by simp
  show ?case
    unfolding local_stage_attempts.simps Let_def
  proof (rule spec_bindI)
    show "spec (ask (te_fopen_exclusive (env_files env) ?p) (\<lambda>r. Local (LCreate ?p r)))
        (\<lambda>r st new st'. st' = st \<and> (\<exists>x. r = Done x \<and> new = [Local (LCreate ?p x)]))"
      by (rule spec_ask) simp
    fix x and st mid :: "staging_file list" and a
    show "spec (case x of
        Opened h \<Rightarrow> act_return (?p, h)
      | Exists \<Rightarrow> local_stage_attempts env (te_parent (env_paths env) target) (te_filename (env_paths env) target) tid i ks
      | CannotOpen \<Rightarrow> throw_local ''could not create a local staging file'')
      (\<lambda>r st new st'. st' = st \<and> (case x of Opened h \<Rightarrow> r = Done (?p, h) \<and> new = [] | _ \<Rightarrow> created_local env tid target i r new))"
      by (cases x) (auto intro!: spec_return spec_throw spec_mono [OF again] simp: created_local_def)
  next
    fix x r st a mid b st'
    assume "mid = st \<and> (\<exists>y. Done x = Done y \<and> a = [Local (LCreate ?p y)])"
      "st' = mid \<and> (case x of Opened h \<Rightarrow> r = Done (?p, h) \<and> b = [] | _ \<Rightarrow> created_local env tid target i r b)"
    then show "st' = st \<and> created_local env tid target i r (a @ b)"
      using path by (cases x; cases r) (fastforce simp: created_local_def tries_local_def)+
  qed auto
qed

lemma create_local_spec:
  "spec (create_local_staging_file env target tid i) (\<lambda>r st new st'. st' = st \<and> created_local env tid target i r new)"
proof -
  have "set [0..<32] \<subseteq> {..<32}" by auto
  then have "spec (local_stage_attempts env (te_parent (env_paths env) target) (te_filename (env_paths env) target) tid i [0..<32])
    (\<lambda>r st new st'. st' = st \<and> created_local env tid target i r new)" by (rule local_attempts_spec)
  then show ?thesis unfolding create_local_staging_file_def Let_def by (simp add: spec_throw created_local_def)
qed

subsection \<open>Fetching\<close>

text \<open>A step that reads from no stream.\<close>

definition silent :: "event \<Rightarrow> bool" where
  "silent e \<longleftrightarrow> harmless e \<and> (\<forall>h d b. e \<noteq> Local (LRead h d b)) \<and> (\<forall>h x. e \<noteq> Remote (RRead h x))"

lemma silent_harmless: "list_all silent es \<Longrightarrow> list_all harmless es"
  by (auto simp: silent_def elim: list.pred_mono_strong)

lemma silent_streams:
  "list_all silent es \<Longrightarrow> remote_got h es = [] \<and> local_got h es = [] \<and> local_put h es = [] \<and> remote_put h es = []"
proof (induction es)
  case (Cons e es)
  then show ?case by (cases e) (auto simp: stream_defs silent_def split: remote_event.splits local_event.splits)
qed (simp add: stream_defs)

lemma host_silent: "host_event e \<Longrightarrow> silent e"
  by (cases e) (auto simp: silent_def)

lemma silent_lstat: "calm silent (\<lambda>_. True) (lstat env server path)"
  unfolding lstat_def by (intro calm_intros) (simp add: silent_def)

lemma silent_walk: "calm silent (\<lambda>_. True) (walk_chain env server expect current parts)"
  by (induction parts arbitrary: current) (auto intro!: calm_intros silent_lstat)

lemma silent_chain: "calm silent (\<lambda>_. True) (ensure_remote_path_chain env server path expect)"
  unfolding ensure_remote_path_chain_def by (auto intro!: calm_intros silent_lstat silent_walk)

lemma silent_cancelled: "calm silent (\<lambda>_. True) (throw_cancelled env)"
  by (rule calm_events [OF calm_cancelled host_silent])

lemma silent_open_local:
  "spec (open_local_source env path) (\<lambda>r st new st'. st' = st \<and> list_all silent new \<and>
     (\<forall>y. r = Done y \<longrightarrow> Local (LOpen path (Some (fst y))) \<in> set new))"
proof -
  have look: "calm silent (\<lambda>_. True) (local_source_fingerprint env path)"
    unfolding local_source_fingerprint_def fingerprint_for_def symlink_status_def file_size_def last_write_time_def
    by (auto intro!: calm_intros simp: silent_def)
  have "spec (act_bind (ask (te_open_local (env_files env) path) (\<lambda>r. Local (LOpen path r))) (\<lambda>h.
     case h of None \<Rightarrow> throw_local ''could not open the local source file'' | Some stream \<Rightarrow> act_return (stream, before)))
    (\<lambda>r st new st'. st' = st \<and> list_all silent new \<and> (\<forall>y. r = Done y \<longrightarrow> Local (LOpen path (Some (fst y))) \<in> set new))" for before
    by (rule spec_wp) (auto simp: wp_simps silent_def intro!: wp_askI split: option.split)
  then show ?thesis
    unfolding open_local_source_def by (rule spec_bindI [OF look [unfolded calm_def]]) auto
qed

definition local_hashed :: "string \<Rightarrow> string \<Rightarrow> event list \<Rightarrow> bool" where
  "local_hashed path d es \<longleftrightarrow>
     (\<exists>h. Local (LOpen path (Some h)) \<in> set es \<and> d = content_revision_hex (local_got h es))"

lemma hash_local_file_spec:
  "spec (hash_local_file env path) (\<lambda>r st new st'. st' = st \<and> list_all harmless new \<and>
     (\<forall>d. r = Done d \<longrightarrow> local_hashed path d new))"
proof -
  have "spec (case y of (h, _) \<Rightarrow> hash_reader env (local_read env h kCopyBufferBytes)) (\<lambda>r st new st'. st' = st \<and> list_all harmless new \<and>
     (\<forall>d. r = Done d \<longrightarrow> d = content_revision_hex (local_got (fst y) new)))" for y :: "nat \<times> local_fingerprint"
    unfolding hash_reader_def content_revision_update [symmetric] using local_hash.hash_loop_spec by (cases y) simp
  then show ?thesis
    unfolding hash_local_file_def
    by (rule spec_bindI [OF silent_open_local])
      (auto simp: local_hashed_def stream_append silent_streams silent_harmless)
qed

definition fetched :: "string \<Rightarrow> download_item \<Rightarrow> nat \<Rightarrow> string \<Rightarrow> event list \<Rightarrow> bool" where
  "fetched server item w sha es \<longleftrightarrow>
     (\<exists>h. Remote (ROpenRead server (di_source item) (Inr h)) \<in> set es \<and> local_put w es = remote_got h es) \<and>
     of_nat (length (local_put w es)) = rs_size (di_initial_stat item) \<and>
     sha = content_revision_hex (local_put w es) \<and>
     Local (LFlush w True) \<in> set es \<and> Local (LFinish w True) \<in> set es"

lemma open_download_spec:
  "spec (open_download env server item) (\<lambda>r st new st'. st' = st \<and> list_all silent new \<and>
     (\<forall>h. r = Done h \<longrightarrow> Remote (ROpenRead server (di_source item) (Inr h)) \<in> set new))"
proof -
  have check: "calm silent (\<lambda>x. x = h) (act_bind (lstat env server (di_source item)) (\<lambda>after_open.
     act_bind (throw_if (after_open \<noteq> Some (di_initial_stat item) \<or> rs_kind (di_initial_stat item) \<noteq> RemoteFile)
       ErrSourceChanged (di_source item)) (\<lambda>_. act_return h)))" for h
    by (auto intro!: calm_intros silent_lstat)
  have "spec (open_read env server (di_source item)) (\<lambda>r st new st'. st' = st \<and> list_all silent new \<and>
     (\<forall>h. r = Done h \<longrightarrow> Remote (ROpenRead server (di_source item) (Inr h)) \<in> set new))"
    unfolding open_read_def by (rule spec_invoke) (auto simp: silent_def)
  then have "spec (act_bind (open_read env server (di_source item)) (\<lambda>h. act_bind (lstat env server (di_source item)) (\<lambda>after_open.
     act_bind (throw_if (after_open \<noteq> Some (di_initial_stat item) \<or> rs_kind (di_initial_stat item) \<noteq> RemoteFile)
       ErrSourceChanged (di_source item)) (\<lambda>_. act_return h))))
    (\<lambda>r st new st'. st' = st \<and> list_all silent new \<and>
     (\<forall>h. r = Done h \<longrightarrow> Remote (ROpenRead server (di_source item) (Inr h)) \<in> set new))"
    by (rule spec_bindI [OF _ check [unfolded calm_def]]) auto
  then show ?thesis
    unfolding open_download_def by (rule spec_bindI [OF silent_chain [unfolded calm_def]]) auto
qed

lemma close_file_spec:
  "spec (staging_close env w) (\<lambda>r st new st'. st' = st \<and> list_all (filling w) new \<and> local_put w new = [] \<and> (\<forall>h. remote_got h new = []) \<and>
     (r = Done () \<longrightarrow> Local (LFlush w True) \<in> set new \<and> Local (LFinish w True) \<in> set new))"
  unfolding staging_close_def
  by (rule spec_wp) (auto simp: wp_simps filling_def stream_defs ex_bool_eq intro!: wp_askI)

lemma fetched_intro:
  assumes "list_all silent a" "Remote (ROpenRead server (di_source item) (Inr h)) \<in> set a"
    "local_put w b = remote_got h b" "of_nat (length (local_put w b)) = rs_size (di_initial_stat item)"
    "sha = content_revision_hex (local_put w b)" "Local (LFlush w True) \<in> set b" "Local (LFinish w True) \<in> set b"
  shows "fetched server item w sha (a @ b)"
proof -
  have "local_put w (a @ b) = local_put w b" "remote_got h (a @ b) = remote_got h b"
    using silent_streams [OF assms(1)] by (simp_all add: stream_append)
  with assms show ?thesis unfolding fetched_def by auto
qed

lemma download_stream_spec:
  "spec (download_stream env server item w) (\<lambda>r st new st'. st' = st \<and> list_all (filling w) new \<and>
     (\<forall>sha. r = Done sha \<longrightarrow> fetched server item w sha new))"
proof -
  let ?m = "\<lambda>bytes. di_source item @ '' changed size while being downloaded (expected '' @
        decimal (unat (rs_size (di_initial_stat item))) @ '' bytes, read '' @ decimal (unat bytes) @ '')''"
  have finish: "spec (act_bind (staging_close env w) (\<lambda>_. act_return sha)) (\<lambda>r st new st'. st' = st \<and> list_all (filling w) new \<and>
      local_put w new = [] \<and> (\<forall>h. remote_got h new = []) \<and>
      (\<forall>x. r = Done x \<longrightarrow> x = sha \<and> Local (LFlush w True) \<in> set new \<and> Local (LFinish w True) \<in> set new))" for sha
    by (rule spec_bindI [OF close_file_spec, where T = "\<lambda>_ r st new st'. r = Done sha \<and> new = [] \<and> st' = st"])
      (auto intro!: spec_return)
  have tail: "spec (act_bind (throw_if (bytes \<noteq> rs_size (di_initial_stat item)) ErrSourceChanged (?m bytes)) (\<lambda>_.
      act_bind (throw_cancelled env) (\<lambda>_. act_bind (staging_close env w) (\<lambda>_. act_return sha))))
    (\<lambda>r st new st'. st' = st \<and> list_all (filling w) new \<and> local_put w new = [] \<and> (\<forall>h. remote_got h new = []) \<and>
      (\<forall>x. r = Done x \<longrightarrow> x = sha \<and> bytes = rs_size (di_initial_stat item) \<and>
         Local (LFlush w True) \<in> set new \<and> Local (LFinish w True) \<in> set new))" for bytes sha
  proof (rule spec_bindI [OF throw_if_spec])
    show "spec (act_bind (throw_cancelled env) (\<lambda>_. act_bind (staging_close env w) (\<lambda>_. act_return sha)))
      (\<lambda>r st new st'. st' = st \<and> list_all (filling w) new \<and> local_put w new = [] \<and> (\<forall>h. remote_got h new = []) \<and>
      (\<forall>x. r = Done x \<longrightarrow> x = sha \<and> Local (LFlush w True) \<in> set new \<and> Local (LFinish w True) \<in> set new))"
      by (rule spec_bindI [OF silent_cancelled [unfolded calm_def] finish])
        (auto simp: stream_append silent_streams silent_harmless local_stage_events)
  qed (auto simp: stream_defs)
  have copy: "spec (copy_stream env (remote_read env h kCopyBufferBytes) (staging_write env w))
    (\<lambda>r st new st'. st' = st \<and> list_all (filling w) new \<and> (\<forall>b d. r = Done (b, d) \<longrightarrow>
       local_put w new = remote_got h new \<and> b = of_nat (length (local_put w new)) \<and> d = content_revision_hex (local_put w new)))" for h
    unfolding copy_stream_def
    by (rule spec_mono [OF download_copy.copy_loop_spec])
      (auto simp: content_revision_update writes_local_def filling_def elim: list.pred_mono_strong)
  have rest: "spec (case y of (bytes, sha) \<Rightarrow>
      act_bind (throw_if (bytes \<noteq> rs_size (di_initial_stat item)) ErrSourceChanged (?m bytes)) (\<lambda>_.
      act_bind (throw_cancelled env) (\<lambda>_. act_bind (staging_close env w) (\<lambda>_. act_return sha))))
    (\<lambda>r st new st'. st' = st \<and> list_all (filling w) new \<and> local_put w new = [] \<and> (\<forall>h. remote_got h new = []) \<and>
      (\<forall>x. r = Done x \<longrightarrow> x = snd y \<and> fst y = rs_size (di_initial_stat item) \<and>
         Local (LFlush w True) \<in> set new \<and> Local (LFinish w True) \<in> set new))" for y
    using tail by (cases y) (auto elim: spec_mono)
  have body: "spec (act_bind (copy_stream env (remote_read env h kCopyBufferBytes) (staging_write env w)) (\<lambda>y. case y of (bytes, sha) \<Rightarrow>
      act_bind (throw_if (bytes \<noteq> rs_size (di_initial_stat item)) ErrSourceChanged (?m bytes)) (\<lambda>_.
      act_bind (throw_cancelled env) (\<lambda>_. act_bind (staging_close env w) (\<lambda>_. act_return sha)))))
    (\<lambda>r st new st'. st' = st \<and> list_all (filling w) new \<and> (\<forall>sha. r = Done sha \<longrightarrow>
       local_put w new = remote_got h new \<and> of_nat (length (local_put w new)) = rs_size (di_initial_stat item) \<and>
       sha = content_revision_hex (local_put w new) \<and> Local (LFlush w True) \<in> set new \<and> Local (LFinish w True) \<in> set new))" for h
    by (rule spec_bindI [OF copy rest]) (auto simp: stream_append)
  show ?thesis
    unfolding download_stream_def
  proof (rule spec_bindI [OF open_download_spec body])
  qed (auto intro: fetched_intro simp: silent_harmless local_stage_events)
qed

subsection \<open>Checking and publishing\<close>

text \<open>The stage was read back, the source was read again, and its entry was looked at last.\<close>

definition verified_download :: "string \<Rightarrow> download_item \<Rightarrow> string \<Rightarrow> string \<Rightarrow> event list \<Rightarrow> bool" where
  "verified_download server item stage sha es \<longleftrightarrow>
     (\<exists>one two. es = one @ two @ [Remote (RLstat server (di_source item) (Inr (Some (di_initial_stat item))))] \<and>
        local_hashed stage sha one \<and> remote_hashed server (di_source item) sha two)"

lemma verify_download_spec:
  "spec (verify_download env server item stage sha) (\<lambda>r st new st'. st' = st \<and> list_all harmless new \<and>
     (r = Done () \<longrightarrow> verified_download server item stage sha new))"
proof -
  let ?last = "Remote (RLstat server (di_source item) (Inr (Some (di_initial_stat item))))"
  have final: "spec (act_bind (lstat env server (di_source item)) (\<lambda>final.
      throw_if (final \<noteq> Some (di_initial_stat item)) ErrSourceChanged (di_source item)))
    (\<lambda>r st new st'. st' = st \<and> list_all harmless new \<and> (r = Done () \<longrightarrow> new = [?last]))"
    by (rule spec_bindI [OF lstat_spec throw_if_spec]) auto
  have second: "spec (act_bind (hash_remote_file env server (di_source item)) (\<lambda>second.
      act_bind (throw_if (second \<noteq> sha) ErrSourceChanged (di_source item @ '' changed between download verification reads'')) (\<lambda>_.
      act_bind (lstat env server (di_source item)) (\<lambda>final.
      throw_if (final \<noteq> Some (di_initial_stat item)) ErrSourceChanged (di_source item)))))
    (\<lambda>r st new st'. st' = st \<and> list_all harmless new \<and>
      (r = Done () \<longrightarrow> (\<exists>two. new = two @ [?last] \<and> remote_hashed server (di_source item) sha two)))"
  proof (rule spec_bindI [OF hash_remote_file_spec])
    show "spec (act_bind (throw_if (second \<noteq> sha) ErrSourceChanged (di_source item @ '' changed between download verification reads'')) (\<lambda>_.
        act_bind (lstat env server (di_source item)) (\<lambda>final.
        throw_if (final \<noteq> Some (di_initial_stat item)) ErrSourceChanged (di_source item))))
      (\<lambda>r st new st'. st' = st \<and> list_all harmless new \<and> (r = Done () \<longrightarrow> new = [?last] \<and> second = sha))" for second
      by (rule spec_bindI [OF throw_if_spec final]) auto
  qed auto
  have first: "spec (act_bind (throw_if (staged \<noteq> sha) ErrVerification m) (\<lambda>_.
      act_bind (hash_remote_file env server (di_source item)) (\<lambda>second.
      act_bind (throw_if (second \<noteq> sha) ErrSourceChanged (di_source item @ '' changed between download verification reads'')) (\<lambda>_.
      act_bind (lstat env server (di_source item)) (\<lambda>final.
      throw_if (final \<noteq> Some (di_initial_stat item)) ErrSourceChanged (di_source item))))))
    (\<lambda>r st new st'. st' = st \<and> list_all harmless new \<and>
      (r = Done () \<longrightarrow> staged = sha \<and> (\<exists>two. new = two @ [?last] \<and> remote_hashed server (di_source item) sha two)))" for staged m
    by (rule spec_bindI [OF throw_if_spec second]) auto
  show ?thesis
    unfolding verify_download_def
    by (rule spec_bindI [OF hash_local_file_spec first]) (auto simp: verified_download_def)
qed

definition local_publication :: "string \<Rightarrow> local_resolution \<Rightarrow> bool \<Rightarrow> event list \<Rightarrow> bool" where
  "local_publication stage res ok es \<longleftrightarrow>
     (\<exists>t e. lr_choice res = CreateDestination \<and> status_missing t e \<and>
        es = [Local (LStatus (lr_target res) t e), Local (LLink stage (lr_target res) ok)]) \<or>
     (\<exists>expected t e. lr_choice res \<noteq> CreateDestination \<and> lr_expected res = Some expected \<and> \<not> status_missing t e \<and> e = None \<and> t = RegularFile \<and>
        es = [Local (LStatus (lr_target res) t e), Local (LSize (lr_target res) (Inr (lf_size expected))),
              Local (LTime (lr_target res) (lf_modified expected)), Local (LReplace stage (lr_target res) ok)])"

lemma taken_fingerprint_spec:
  "spec (fingerprint_for env path) (\<lambda>r st new st'. st' = st \<and> list_all harmless new \<and>
     (\<forall>f. r = Done f \<longrightarrow> new = [Local (LSize path (Inr (lf_size f))), Local (LTime path (lf_modified f))]) \<and> r \<noteq> Hung)"
  unfolding fingerprint_for_def file_size_def last_write_time_def
  by (rule spec_wp) (auto simp: wp_simps intro!: wp_askI split: sum.split)

lemma path_fingerprint_spec:
  "spec (path_fingerprint_if_regular env path) (\<lambda>r st new st'. st' = st \<and> list_all harmless new \<and>
     (r = Done None \<longrightarrow> (\<exists>t e. status_missing t e \<and> new = [Local (LStatus path t e)])) \<and>
     (\<forall>f. r = Done (Some f) \<longrightarrow> Local (LSize path (Inr (lf_size f))) \<in> set new \<and> Local (LTime path (lf_modified f)) \<in> set new))"
  unfolding path_fingerprint_if_regular_def
proof (rule spec_bindI)
  show "spec (symlink_status env path) (\<lambda>r st new st'. st' = st \<and> (\<exists>t e. r = Done (t, e) \<and> new = [Local (LStatus path t e)]))"
    unfolding symlink_status_def by (rule spec_ask) auto
  have found: "spec (act_bind (fingerprint_for env path) (\<lambda>f. act_return (Some f))) (\<lambda>r st new st'. st' = st \<and> list_all harmless new \<and>
      r \<noteq> Done None \<and>
      (\<forall>f. r = Done (Some f) \<longrightarrow> Local (LSize path (Inr (lf_size f))) \<in> set new \<and> Local (LTime path (lf_modified f)) \<in> set new))"
    by (rule spec_bindI [OF taken_fingerprint_spec, where T = "\<lambda>f r st new st'. r = Done (Some f) \<and> new = [] \<and> st' = st"])
      (auto intro!: spec_return)
  show "spec (case y of (t, e) \<Rightarrow>
     if status_missing t e then act_return None
     else if e \<noteq> None then throw_local ''could not inspect the local destination''
     else if t = SymlinkFile then throw_invalid ''destination is a symbolic link or reparse point''
     else if t \<noteq> RegularFile then throw_invalid ''destination already exists and is not a regular file''
     else act_bind (fingerprint_for env path) (\<lambda>f. act_return (Some f)))
    (\<lambda>r st new st'. st' = st \<and> list_all harmless new \<and> (r = Done None \<longrightarrow> status_missing (fst y) (snd y) \<and> new = []) \<and>
      (\<forall>f. r = Done (Some f) \<longrightarrow> Local (LSize path (Inr (lf_size f))) \<in> set new \<and> Local (LTime path (lf_modified f)) \<in> set new))"
    for y :: "file_type \<times> os_error option"
    by (cases y) (auto intro!: spec_return spec_throw spec_mono [OF found])
qed auto

lemma publish_download_spec:
  "spec (publish_download env stage res) (\<lambda>r st new st'. st' = st \<and>
     (list_all harmless new \<and> r \<noteq> Done () \<or>
      (\<exists>ok pub tail. new = pub @ tail \<and> local_publication stage res ok pub \<and> list_all (removes_local stage) tail \<and> (r = Done () \<longrightarrow> ok))))"
proof (cases "lr_choice res = CreateDestination")
  case True
  have link: "spec (publish_local_no_replace env stage (lr_target res)) (\<lambda>r st new st'. st' = st \<and>
      (\<exists>ok tail. new = Local (LLink stage (lr_target res) ok) # tail \<and> list_all (removes_local stage) tail \<and> (r = Done () \<longrightarrow> ok)))"
    unfolding publish_local_no_replace_def local_remove_def
    by (rule spec_wp) (auto simp: wp_simps removes_local_def ex_bool_eq intro!: wp_askI)
  have "spec (act_bind (path_fingerprint_if_regular env (lr_target res)) (\<lambda>found.
        if found \<noteq> None then act_throw (TransferErr ErrAlreadyExists ''destination already exists'')
        else publish_local_no_replace env stage (lr_target res)))
    (\<lambda>r st new st'. st' = st \<and> (list_all harmless new \<and> r \<noteq> Done () \<or>
      (\<exists>ok pub tail. new = pub @ tail \<and> local_publication stage res ok pub \<and> list_all (removes_local stage) tail \<and> (r = Done () \<longrightarrow> ok))))"
  proof (rule spec_bindI [OF path_fingerprint_spec])
    show "spec (if found \<noteq> None then act_throw (TransferErr ErrAlreadyExists ''destination already exists'')
        else publish_local_no_replace env stage (lr_target res))
      (\<lambda>r st new st'. st' = st \<and> (new = [] \<and> r \<noteq> Done () \<or> found = None \<and>
       (\<exists>ok tail. new = Local (LLink stage (lr_target res) ok) # tail \<and> list_all (removes_local stage) tail \<and> (r = Done () \<longrightarrow> ok))))" for found
      by (auto intro!: spec_throw spec_mono [OF link])
  next
    fix found and r :: "unit outcome" and st mid st' :: "staging_file list" and a b
    assume one: "mid = st \<and> list_all harmless a \<and>
       (Done found = Done None \<longrightarrow> (\<exists>t e. status_missing t e \<and> a = [Local (LStatus (lr_target res) t e)])) \<and>
       (\<forall>f. Done found = Done (Some f) \<longrightarrow> Local (LSize (lr_target res) (Inr (lf_size f))) \<in> set a \<and>
          Local (LTime (lr_target res) (lf_modified f)) \<in> set a)"
    assume "st' = mid \<and> (b = [] \<and> r \<noteq> Done () \<or> found = None \<and>
       (\<exists>ok tail. b = Local (LLink stage (lr_target res) ok) # tail \<and> list_all (removes_local stage) tail \<and> (r = Done () \<longrightarrow> ok)))"
    then consider "st' = mid" "b = []" "r \<noteq> Done ()"
      | ok tail where "st' = mid" "found = None" "b = Local (LLink stage (lr_target res) ok) # tail" "list_all (removes_local stage) tail"
          "r = Done () \<longrightarrow> ok" by blast
    then show "st' = st \<and> (list_all harmless (a @ b) \<and> r \<noteq> Done () \<or>
      (\<exists>ok pub tail. a @ b = pub @ tail \<and> local_publication stage res ok pub \<and> list_all (removes_local stage) tail \<and> (r = Done () \<longrightarrow> ok)))"
    proof cases
      case 1
      with one show ?thesis by simp
    next
      case 2
      with one obtain t e where "status_missing t e" "a = [Local (LStatus (lr_target res) t e)]" by auto
      then have "local_publication stage res ok (a @ [Local (LLink stage (lr_target res) ok)])"
        "a @ b = (a @ [Local (LLink stage (lr_target res) ok)]) @ tail"
        using True 2(3) by (simp_all add: local_publication_def)
      with one 2 show ?thesis by blast
    qed
  qed auto
  with True show ?thesis unfolding publish_download_def by simp
next
  case False
  have rename: "spec (publish_local_replace env stage (lr_target res) expected) (\<lambda>r st new st'. st' = st \<and>
      (list_all harmless new \<and> r \<noteq> Done () \<or>
       (\<exists>ok. new = [Local (LStatus (lr_target res) RegularFile None), Local (LSize (lr_target res) (Inr (lf_size expected))),
              Local (LTime (lr_target res) (lf_modified expected)), Local (LReplace stage (lr_target res) ok)] \<and> (r = Done () \<longrightarrow> ok))))"
    for expected
    unfolding publish_local_replace_def fingerprint_for_def symlink_status_def file_size_def last_write_time_def
    by (rule spec_wp) (auto simp: wp_simps ex_bool_eq intro!: wp_askI split: sum.split prod.split)
  show ?thesis
  proof (cases "lr_expected res")
    case None
    with False show ?thesis unfolding publish_download_def by (auto intro!: spec_throw)
  next
    case (Some expected)
    have "spec (publish_local_replace env stage (lr_target res) expected) (\<lambda>r st new st'. st' = st \<and>
     (list_all harmless new \<and> r \<noteq> Done () \<or>
      (\<exists>ok pub tail. new = pub @ tail \<and> local_publication stage res ok pub \<and> list_all (removes_local stage) tail \<and> (r = Done () \<longrightarrow> ok))))"
    proof (rule spec_mono [OF rename])
      have here: "local_publication stage res ok [Local (LStatus (lr_target res) RegularFile None), Local (LSize (lr_target res) (Inr (lf_size expected))),
              Local (LTime (lr_target res) (lf_modified expected)), Local (LReplace stage (lr_target res) ok)]" for ok
        using False Some by (simp add: local_publication_def status_missing_def)
      fix r :: "unit outcome" and st new st'
      assume "st' = st \<and> (list_all harmless new \<and> r \<noteq> Done () \<or>
       (\<exists>ok. new = [Local (LStatus (lr_target res) RegularFile None), Local (LSize (lr_target res) (Inr (lf_size expected))),
              Local (LTime (lr_target res) (lf_modified expected)), Local (LReplace stage (lr_target res) ok)] \<and> (r = Done () \<longrightarrow> ok)))"
      then show "st' = st \<and> (list_all harmless new \<and> r \<noteq> Done () \<or>
      (\<exists>ok pub tail. new = pub @ tail \<and> local_publication stage res ok pub \<and> list_all (removes_local stage) tail \<and> (r = Done () \<longrightarrow> ok)))"
        using here by (metis append_Nil2 list.pred_inject(1))
    qed
    with False Some show ?thesis unfolding publish_download_def by simp
  qed
qed

definition delivered_local :: "string \<Rightarrow> download_item \<Rightarrow> string \<Rightarrow> local_resolution \<Rightarrow> string \<Rightarrow> bool \<Rightarrow> event list \<Rightarrow> bool" where
  "delivered_local server item stage res sha ok es \<longleftrightarrow>
     (\<exists>check pub tail. es = check @ pub @ tail \<and> list_all harmless check \<and> verified_download server item stage sha check \<and>
        local_publication stage res ok pub \<and> list_all (removes_local stage) tail)"

lemma delivered_local_later:
  "delivered_local server item stage res sha ok es \<Longrightarrow> list_all (removes_local stage) later \<Longrightarrow>
   delivered_local server item stage res sha ok (es @ later)"
  unfolding delivered_local_def by (elim exE conjE) (metis append.assoc list_all_append)

lemma download_checked_spec:
  "spec (act_catch_all (act_bind (verify_download env server item stage sha) (\<lambda>_. publish_download env stage res))
      (unwind_download env stage i))
    (\<lambda>r st new st'. list_all (removes_local stage) new \<and> r \<noteq> Done () \<or>
      (\<exists>ok. delivered_local server item stage res sha ok new \<and> (r = Done () \<longrightarrow> ok)))"
proof -
  have inner: "spec (act_bind (verify_download env server item stage sha) (\<lambda>_. publish_download env stage res))
    (\<lambda>r st new st'. list_all harmless new \<and> r \<noteq> Done () \<or>
      (\<exists>ok. delivered_local server item stage res sha ok new \<and> (r = Done () \<longrightarrow> ok)))"
  proof (rule spec_bindI [OF verify_download_spec publish_download_spec])
    fix u :: unit and r :: "unit outcome" and st a mid b st'
    assume a: "mid = st \<and> list_all harmless a \<and> (Done u = Done () \<longrightarrow> verified_download server item stage sha a)"
    assume "st' = mid \<and> (list_all harmless b \<and> r \<noteq> Done () \<or>
      (\<exists>ok pub tail. b = pub @ tail \<and> local_publication stage res ok pub \<and> list_all (removes_local stage) tail \<and> (r = Done () \<longrightarrow> ok)))"
    then consider "list_all harmless b" "r \<noteq> Done ()"
      | ok pub tail where "b = pub @ tail" "local_publication stage res ok pub" "list_all (removes_local stage) tail" "r = Done () \<longrightarrow> ok"
      by blast
    then show "list_all harmless (a @ b) \<and> r \<noteq> Done () \<or>
      (\<exists>ok. delivered_local server item stage res sha ok (a @ b) \<and> (r = Done () \<longrightarrow> ok))"
    proof cases
      case 1
      with a show ?thesis by simp
    next
      case 2
      with a have "delivered_local server item stage res sha ok (a @ b)" unfolding delivered_local_def by auto
      with 2(4) show ?thesis by blast
    qed
  qed auto
  show ?thesis
  proof (rule spec_catch_allI [OF inner unwind_download_within])
    fix e and r :: "unit outcome" and st :: "staging_file list" and a b
    assume "list_all harmless a \<and> Raised e \<noteq> Done () \<or>
      (\<exists>ok. delivered_local server item stage res sha ok a \<and> (Raised e = Done () \<longrightarrow> ok))"
      "(\<forall>x. r \<noteq> Done x) \<and> list_all (removes_local stage) b"
    then show "list_all (removes_local stage) (a @ b) \<and> r \<noteq> Done () \<or>
      (\<exists>ok. delivered_local server item stage res sha ok (a @ b) \<and> (r = Done () \<longrightarrow> ok))"
      using delivered_local_later [of server item stage res sha _ a b] local_stage_events(2) [of a stage] by auto
  qed (auto simp: local_stage_events)
qed

definition downloaded :: "string \<Rightarrow> download_item \<Rightarrow> string \<Rightarrow> nat \<Rightarrow> local_resolution \<Rightarrow> bool \<Rightarrow> event list \<Rightarrow> bool" where
  "downloaded server item stage w res ok es \<longleftrightarrow>
     (\<exists>written check sha. es = written @ check \<and> list_all (filling w) written \<and> fetched server item w sha written \<and>
        delivered_local server item stage res sha ok check)"

definition download_outcome :: "string \<Rightarrow> download_item \<Rightarrow> string \<Rightarrow> nat \<Rightarrow> local_resolution \<Rightarrow> unit outcome \<Rightarrow> event list \<Rightarrow> bool" where
  "download_outcome server item stage w res r es \<longleftrightarrow>
     list_all (local_stage_event stage w) es \<and> r \<noteq> Done () \<or>
     (\<exists>ok. downloaded server item stage w res ok es \<and> (r = Done () \<longrightarrow> ok))"

text \<open>A step under the writer.\<close>

lemma with_local_writer_spec:
  assumes body: "spec body (\<lambda>r st new st'. list_all (filling w) new \<and> (\<forall>y. r = Done y \<longrightarrow> R y new))"
    and handler: "\<And>e. spec (handler e) (\<lambda>r st new st'. (\<forall>x. r \<noteq> Done x) \<and> list_all (removes_local stage) new)"
  shows "spec (with_local_writer env w handler body) (\<lambda>r st new st'. list_all (local_stage_event stage w) new \<and>
      (\<forall>y. r = Done y \<longrightarrow> list_all (filling w) new \<and> R y new))"
proof -
  have "spec (act_bind (staging_drop env w) (\<lambda>_. handler e)) (\<lambda>r st new st'. (\<forall>x. r \<noteq> Done x) \<and> list_all (local_stage_event stage w) new)" for e
    unfolding staging_drop_def
  proof (rule spec_bindI [OF _ handler])
    show "spec (tell (te_drop_local (env_files env) w) (Local (LClose w))) (\<lambda>r st new st'. new = [Local (LClose w)] \<and> r = Done ())"
      by (rule spec_tell) simp
  qed (auto simp: local_stage_events, auto simp: local_stage_event_def filling_def)
  then show ?thesis
    unfolding with_local_writer_def by (rule spec_catch_allI [OF body]) (auto simp: local_stage_events)
qed

lemma drop_spec: "spec (staging_drop env w) (\<lambda>r st new st'. r = Done () \<and> new = [Local (LClose w)])"
  unfolding staging_drop_def by (rule spec_tell) simp

lemma fetched_host: "list_all host_event a \<Longrightarrow> fetched server item w sha b \<Longrightarrow> fetched server item w sha (a @ b)"
  by (auto simp: fetched_def stream_append host_no_stream)

lemma fetched_close: "fetched server item w sha a \<Longrightarrow> fetched server item w sha (a @ [Local (LClose w)])"
  by (auto simp: fetched_def stream_append stream_defs)

lemma downloaded_host:
  assumes "list_all host_event a" "downloaded server item stage w res ok b"
  shows "downloaded server item stage w res ok (a @ b)"
proof -
  have a: "list_all harmless a" using assms(1) host_harmless by (auto elim: list.pred_mono_strong)
  obtain written check sha where b: "b = written @ check" "list_all (filling w) written" "fetched server item w sha written"
    "delivered_local server item stage res sha ok check" using assms(2) unfolding downloaded_def by (elim exE conjE)
  have "a @ b = (a @ written) @ check" "list_all (filling w) (a @ written)" "fetched server item w sha (a @ written)"
    using b(1,2) local_stage_events(1) [OF a] fetched_host [OF assms(1) b(3)] by simp_all
  with b(4) show ?thesis unfolding downloaded_def by blast
qed

lemma download_outcome_host:
  assumes "list_all host_event a" "download_outcome server item stage w res r b"
  shows "download_outcome server item stage w res r (a @ b)"
proof -
  have "list_all harmless a" using assms(1) host_harmless by (auto elim: list.pred_mono_strong)
  then have "list_all (local_stage_event stage w) a" by (simp add: local_stage_events)
  with assms(2) show ?thesis
    unfolding download_outcome_def by (elim disjE exE conjE) (simp, blast intro: downloaded_host [OF assms(1)])
qed

lemma download_outcome_written:
  assumes written: "list_all (filling w) a" "fetched server item w sha a"
    and b: "list_all (removes_local stage) b \<and> r \<noteq> Done () \<or> (\<exists>ok. delivered_local server item stage res sha ok b \<and> (r = Done () \<longrightarrow> ok))"
  shows "download_outcome server item stage w res r (a @ Local (LClose w) # b)"
proof -
  have close: "filling w (Local (LClose w))" by (simp add: filling_def)
  have joined: "a @ Local (LClose w) # b = (a @ [Local (LClose w)]) @ b" by simp
  from b show ?thesis
  proof (elim disjE exE conjE)
    assume "list_all (removes_local stage) b" "r \<noteq> Done ()"
    with written(1) close show ?thesis unfolding download_outcome_def by (auto simp: local_stage_events local_stage_event_def)
  next
    fix ok
    assume "delivered_local server item stage res sha ok b" "r = Done () \<longrightarrow> ok"
    moreover have "list_all (filling w) (a @ [Local (LClose w)])" using written(1) close by simp
    ultimately have "downloaded server item stage w res ok (a @ Local (LClose w) # b)"
      unfolding downloaded_def joined using fetched_close [OF written(2)] by blast
    with \<open>r = Done () \<longrightarrow> ok\<close> show ?thesis unfolding download_outcome_def by blast
  qed
qed

lemma download_staged_spec:
  "spec (download_staged env context item res stage w)
    (\<lambda>r st new st'. download_outcome (xc_server_id context) item stage w res r new)"
proof -
  let ?server = "xc_server_id context" and ?i = "di_index item"
  have tail: "spec (act_bind (remove_staging env a) (\<lambda>_. complete_item env True)) (\<lambda>r st new st'. list_all (removes_local stage) new)" for a
    by (rule within_bind [OF within_events [OF within_staging(2) host_removes_local]
          within_events [OF within_calm [OF calm_complete_item] host_removes_local], unfolded within_def])
  have check: "spec (act_bind (act_catch_all (act_bind (verify_download env ?server item stage sha) (\<lambda>_. publish_download env stage res))
        (unwind_download env stage ?i)) (\<lambda>_. act_bind (remove_staging env (local_artifact stage ?i)) (\<lambda>_. complete_item env True)))
    (\<lambda>r st new st'. list_all (removes_local stage) new \<and> r \<noteq> Done () \<or>
      (\<exists>ok. delivered_local ?server item stage res sha ok new \<and> (r = Done () \<longrightarrow> ok)))" for sha
    by (rule spec_bindI [OF download_checked_spec tail]) (auto intro: delivered_local_later)
  have close: "spec (act_bind (staging_drop env w) (\<lambda>_. act_bind (act_catch_all
        (act_bind (verify_download env ?server item stage sha) (\<lambda>_. publish_download env stage res))
        (unwind_download env stage ?i)) (\<lambda>_. act_bind (remove_staging env (local_artifact stage ?i)) (\<lambda>_. complete_item env True))))
    (\<lambda>r st new st'. \<exists>b. new = Local (LClose w) # b \<and> (list_all (removes_local stage) b \<and> r \<noteq> Done () \<or>
      (\<exists>ok. delivered_local ?server item stage res sha ok b \<and> (r = Done () \<longrightarrow> ok))))" for sha
    by (rule spec_bindI [OF drop_spec check]) auto
  have stream: "spec (with_local_writer env w (unwind_download env stage ?i) (download_stream env ?server item w))
    (\<lambda>r st new st'. list_all (local_stage_event stage w) new \<and>
      (\<forall>sha. r = Done sha \<longrightarrow> list_all (filling w) new \<and> fetched ?server item w sha new))"
    by (rule with_local_writer_spec [OF _ unwind_download_within], rule spec_mono [OF download_stream_spec]) simp
  have body: "spec (act_bind (with_local_writer env w (unwind_download env stage ?i) (download_stream env ?server item w)) (\<lambda>sha.
      act_bind (staging_drop env w) (\<lambda>_. act_bind (act_catch_all
        (act_bind (verify_download env ?server item stage sha) (\<lambda>_. publish_download env stage res))
        (unwind_download env stage ?i)) (\<lambda>_. act_bind (remove_staging env (local_artifact stage ?i)) (\<lambda>_. complete_item env True)))))
    (\<lambda>r st new st'. download_outcome ?server item stage w res r new)"
  proof (rule spec_bindI [OF stream close])
    fix sha and r :: "unit outcome" and st mid st' :: "staging_file list" and a b
    assume "list_all (local_stage_event stage w) a \<and>
      (\<forall>d. Done sha = Done d \<longrightarrow> list_all (filling w) a \<and> fetched ?server item w d a)"
    then have a: "list_all (filling w) a" "fetched ?server item w sha a" by simp_all
    assume "\<exists>c. b = Local (LClose w) # c \<and> (list_all (removes_local stage) c \<and> r \<noteq> Done () \<or>
      (\<exists>ok. delivered_local ?server item stage res sha ok c \<and> (r = Done () \<longrightarrow> ok)))"
    then obtain c where c: "b = Local (LClose w) # c" "list_all (removes_local stage) c \<and> r \<noteq> Done () \<or>
      (\<exists>ok. delivered_local ?server item stage res sha ok c \<and> (r = Done () \<longrightarrow> ok))" by (elim exE conjE)
    show "download_outcome ?server item stage w res r (a @ b)" unfolding c(1) by (rule download_outcome_written [OF a c(2)])
  qed (auto simp: download_outcome_def)
  have recording: "spec (with_local_writer env w (unwind_recording env stage ?i) (add_staging env (local_artifact stage ?i)))
    (\<lambda>r st new st'. list_all (local_stage_event stage w) new \<and>
      (\<forall>u. r = Done u \<longrightarrow> list_all (filling w) new \<and> list_all host_event new))"
    by (rule with_local_writer_spec [OF _ unwind_recording_within], rule spec_mono [OF add_staging_spec])
      (auto simp: filling_def host_harmless elim: list.pred_mono_strong)
  show ?thesis
    unfolding download_staged_def Let_def
    by (rule spec_bindI [OF recording body]) (auto simp: download_outcome_host, auto simp: download_outcome_def)
qed

subsection \<open>The whole of \<^verbatim>\<open>download_file\<close>\<close>

definition allowed_local :: "'w transfer_env \<Rightarrow> download_item \<Rightarrow> string \<Rightarrow> bool" where
  "allowed_local env item t \<longleftrightarrow> t = di_initial_target item \<or>
     (\<exists>name. validate_safe_name name = Inr () \<and> t = te_join (env_paths env) (te_parent (env_paths env) (di_initial_target item)) name)"

text \<open>What was seen at the target when its replacement was decided.\<close>

definition target_seen :: "download_item \<Rightarrow> local_resolution \<Rightarrow> event list \<Rightarrow> bool" where
  "target_seen item res es \<longleftrightarrow>
     lr_target res = di_initial_target item \<and>
     (\<exists>f. lr_expected res = Some f \<and> Local (LSize (di_initial_target item) (Inr (lf_size f))) \<in> set es \<and>
        Local (LTime (di_initial_target item) (lf_modified f)) \<in> set es)"

definition resolved_local :: "'w transfer_env \<Rightarrow> download_item \<Rightarrow> local_resolution \<Rightarrow> event list \<Rightarrow> bool" where
  "resolved_local env item res es \<longleftrightarrow>
     allowed_local env item (lr_target res) \<and> (lr_choice res = ReplaceDestination \<longrightarrow> target_seen item res es)"

lemma calm_local_decision: "calm harmless (\<lambda>_. True) (local_decision env context item f)"
  unfolding local_decision_def by (cases "xc_policy context") (auto intro!: calm_intros)

definition rename_local :: "'w transfer_env \<Rightarrow> download_item \<Rightarrow> string \<Rightarrow> ('w, local_resolution) action" where
  "rename_local env item name =
     act_bind (safe_name name) (\<lambda>_.
     if te_parent (env_paths env) (di_initial_target item) = []
     then throw_invalid ''download target has no parent directory''
     else
       act_bind (path_fingerprint_if_regular env (te_join (env_paths env) (te_parent (env_paths env) (di_initial_target item)) name)) (\<lambda>found.
       if found \<noteq> None then throw_invalid ''the renamed local target already exists''
       else act_return \<lparr>lr_target = te_join (env_paths env) (te_parent (env_paths env) (di_initial_target item)) name,
         lr_choice = CreateDestination, lr_expected = None\<rparr>))"

definition decided_local :: "'w transfer_env \<Rightarrow> download_item \<Rightarrow> local_fingerprint option \<Rightarrow> local_resolution \<Rightarrow> bool" where
  "decided_local env item found res \<longleftrightarrow> allowed_local env item (lr_target res) \<and>
     (lr_choice res = ReplaceDestination \<longrightarrow> lr_target res = di_initial_target item \<and> lr_expected res = found \<and> found \<noteq> None)"

lemma calm_rename_local: "calm harmless (decided_local env item found) (rename_local env item name)"
  unfolding rename_local_def
proof (rule calm_bind)
  show "calm harmless (\<lambda>_. validate_safe_name name = Inr ()) (safe_name name)"
    unfolding safe_name_def by (rule calm_bind [OF calm_checked]) (auto intro: calm_intros)
qed (auto intro!: calm_intros simp: decided_local_def allowed_local_def)

lemma resolve_local_spec:
  "spec (resolve_local_destination env context item) (\<lambda>r st new st'. st' = st \<and> list_all harmless new \<and>
     (\<forall>res. r = Done res \<longrightarrow> resolved_local env item res new))"
  unfolding resolve_local_destination_def Let_def rename_local_def [symmetric]
proof (rule spec_bindI [OF path_fingerprint_spec])
  fix found :: "local_fingerprint option"
  let ?t = "di_initial_target item"
  have decide: "calm harmless (decided_local env item (Some f))
    (act_bind (local_decision env context item f) (\<lambda>action.
          case ca_kind action of
            SkipAction \<Rightarrow> act_return \<lparr>lr_target = ?t, lr_choice = SkipDestination, lr_expected = Some f\<rparr>
          | OverwriteAction \<Rightarrow> act_return \<lparr>lr_target = ?t, lr_choice = ReplaceDestination, lr_expected = Some f\<rparr>
          | RenameAction \<Rightarrow> rename_local env item (ca_rename_to action)))" for f
  proof (rule calm_bind [OF calm_local_decision])
    show "calm harmless (decided_local env item (Some f)) (case ca_kind action of
            SkipAction \<Rightarrow> act_return \<lparr>lr_target = ?t, lr_choice = SkipDestination, lr_expected = Some f\<rparr>
          | OverwriteAction \<Rightarrow> act_return \<lparr>lr_target = ?t, lr_choice = ReplaceDestination, lr_expected = Some f\<rparr>
          | RenameAction \<Rightarrow> rename_local env item (ca_rename_to action))" for action
      by (cases "ca_kind action") (simp_all add: calm_rename_local calm_return decided_local_def allowed_local_def)
  qed
  show "spec (case found of
        None \<Rightarrow> act_return \<lparr>lr_target = ?t, lr_choice = CreateDestination, lr_expected = None\<rparr>
      | Some fingerprint \<Rightarrow>
          act_bind (local_decision env context item fingerprint) (\<lambda>action.
          case ca_kind action of
            SkipAction \<Rightarrow> act_return \<lparr>lr_target = ?t, lr_choice = SkipDestination, lr_expected = found\<rparr>
          | OverwriteAction \<Rightarrow> act_return \<lparr>lr_target = ?t, lr_choice = ReplaceDestination, lr_expected = found\<rparr>
          | RenameAction \<Rightarrow> rename_local env item (ca_rename_to action)))
      (\<lambda>r st new st'. st' = st \<and> list_all harmless new \<and> (\<forall>res. r = Done res \<longrightarrow> decided_local env item found res))"
  proof (cases found)
    case None
    then show ?thesis by (simp add: spec_return decided_local_def allowed_local_def)
  next
    case (Some f)
    show ?thesis unfolding Some option.case by (rule spec_mono [OF decide [unfolded calm_def]]) auto
  qed
next
  fix found and r :: "local_resolution outcome" and st a mid b st'
  assume "mid = st \<and> list_all harmless a \<and>
     (Done found = Done None \<longrightarrow> (\<exists>t e. status_missing t e \<and> a = [Local (LStatus (di_initial_target item) t e)])) \<and>
     (\<forall>f. Done found = Done (Some f) \<longrightarrow> Local (LSize (di_initial_target item) (Inr (lf_size f))) \<in> set a \<and>
        Local (LTime (di_initial_target item) (lf_modified f)) \<in> set a)"
    "st' = mid \<and> list_all harmless b \<and> (\<forall>res. r = Done res \<longrightarrow> decided_local env item found res)"
  then show "st' = st \<and> list_all harmless (a @ b) \<and> (\<forall>res. r = Done res \<longrightarrow> resolved_local env item res (a @ b))"
    unfolding resolved_local_def target_seen_def decided_local_def by auto
qed auto

text \<open>A run that stages nothing, or one staged file after a resolved destination.\<close>

definition download_tail ::
  "'w transfer_env \<Rightarrow> execution_context \<Rightarrow> download_item \<Rightarrow> local_resolution \<Rightarrow> (event list \<Rightarrow> bool) \<Rightarrow> unit outcome \<Rightarrow> event list \<Rightarrow> bool" where
  "download_tail env context item res known r new \<longleftrightarrow>
     (\<exists>tid before p w rest. new = before @ Local (LCreate p (Opened w)) # rest \<and> list_all tries_local before \<and> known before \<and>
        local_staged_path env tid (lr_target res) (di_index item) p \<and>
        lr_choice res \<noteq> SkipDestination \<and> download_outcome (xc_server_id context) item p w res r rest)"

lemma tries_harmless: "list_all harmless es \<Longrightarrow> list_all tries_local es"
  by (auto simp: tries_local_def elim: list.pred_mono_strong)

lemma target_seen_more: "target_seen item res a \<Longrightarrow> target_seen item res (a @ b)" "target_seen item res b \<Longrightarrow> target_seen item res (a @ b)"
  by (auto simp: target_seen_def)

lemma download_tail_left:
  assumes "list_all harmless a" "download_tail env context item res known r b" "\<And>es. known es \<Longrightarrow> known' (a @ es)"
  shows "download_tail env context item res known' r (a @ b)"
proof -
  obtain tid before p w rest where b: "b = before @ Local (LCreate p (Opened w)) # rest" "list_all tries_local before" "known before"
    "local_staged_path env tid (lr_target res) (di_index item) p" "lr_choice res \<noteq> SkipDestination"
    "download_outcome (xc_server_id context) item p w res r rest"
    using assms(2) unfolding download_tail_def by blast
  have "a @ b = (a @ before) @ Local (LCreate p (Opened w)) # rest" "list_all tries_local (a @ before)" "known' (a @ before)"
    using b(1-3) tries_harmless [OF assms(1)] assms(3) by auto
  with b(4-6) show ?thesis unfolding download_tail_def by blast
qed

definition download_body :: "'w transfer_env \<Rightarrow> execution_context \<Rightarrow> download_item \<Rightarrow> local_resolution \<Rightarrow> ('w, unit) action" where
  "download_body env context item resolution =
     (if lr_choice resolution = SkipDestination then skip_item env
      else if te_parent (env_paths env) (lr_target resolution) = []
      then throw_invalid ''download target has no parent directory''
      else
        act_bind (ensure_download_directory env (te_parent (env_paths env) (lr_target resolution))) (\<lambda>_.
        act_bind the_cell (\<lambda>c.
        act_bind (create_local_staging_file env (lr_target resolution) (sn_transfer_id (sc_snapshot c)) (di_index item))
          (\<lambda>(stage, writer). download_staged env context item resolution stage writer))))"

definition download_kept :: "'w transfer_env \<Rightarrow> execution_context \<Rightarrow> download_item \<Rightarrow> local_resolution \<Rightarrow> unit outcome \<Rightarrow> event list \<Rightarrow> bool" where
  "download_kept env context item res r new \<longleftrightarrow>
     list_all tries_local new \<or> download_tail env context item res (\<lambda>_. True) r new"

lemma download_kept_left:
  "list_all harmless a \<Longrightarrow> download_kept env context item res r b \<Longrightarrow> download_kept env context item res r (a @ b)"
  unfolding download_kept_def
  using tries_harmless [of a] download_tail_left [of a env "context" item res "\<lambda>_. True" r b "\<lambda>_. True"] by auto

lemma download_kept_harmless: "list_all harmless a \<Longrightarrow> download_kept env context item res r a"
  unfolding download_kept_def by (simp add: tries_harmless)

lemma download_create_spec:
  assumes "lr_choice res \<noteq> SkipDestination"
  shows "spec (act_bind (create_local_staging_file env (lr_target res) tid (di_index item))
            (\<lambda>(stage, writer). download_staged env context item res stage writer))
    (\<lambda>r st new st'. download_kept env context item res r new)"
proof (rule spec_bindI [OF create_local_spec])
  show "spec (case y of (stage, writer) \<Rightarrow> download_staged env context item res stage writer)
    (\<lambda>r st new st'. download_outcome (xc_server_id context) item (fst y) (snd y) res r new)" for y
    by (cases y) (simp add: download_staged_spec)
next
  fix y and r :: "unit outcome" and st mid st' :: "staging_file list" and a b
  assume "mid = st \<and> created_local env tid (lr_target res) (di_index item) (Done y) a"
  then obtain pre where a: "a = pre @ [Local (LCreate (fst y) (Opened (snd y)))]" "list_all tries_local pre"
    "local_staged_path env tid (lr_target res) (di_index item) (fst y)"
    unfolding created_local_def by (cases y) auto
  assume outcome: "download_outcome (xc_server_id context) item (fst y) (snd y) res r b"
  have "a @ b = pre @ Local (LCreate (fst y) (Opened (snd y))) # b" by (simp add: a(1))
  with a(2,3) outcome assms show "download_kept env context item res r (a @ b)"
    unfolding download_kept_def download_tail_def by blast
qed (auto simp: created_local_def download_kept_def)

lemma download_body_spec: "spec (download_body env context item res) (\<lambda>r st new st'. download_kept env context item res r new)"
proof -
  consider "lr_choice res = SkipDestination" | "lr_choice res \<noteq> SkipDestination" "te_parent (env_paths env) (lr_target res) = []"
    | "lr_choice res \<noteq> SkipDestination" "te_parent (env_paths env) (lr_target res) \<noteq> []" by blast
  then show ?thesis
  proof cases
    case 1
    have "spec (skip_item env) (\<lambda>r st new st'. download_kept env context item res r new)"
      by (rule spec_mono [OF calm_spec [OF calm_host [OF calm_skip_item]]]) (simp add: download_kept_harmless)
    with 1 show ?thesis unfolding download_body_def by simp
  next
    case 2
    then show ?thesis unfolding download_body_def by (auto intro!: spec_throw simp: download_kept_harmless)
  next
    case 3
    have "spec (act_bind the_cell (\<lambda>c. act_bind (create_local_staging_file env (lr_target res) (sn_transfer_id (sc_snapshot c)) (di_index item))
            (\<lambda>(stage, writer). download_staged env context item res stage writer)))
      (\<lambda>r st new st'. download_kept env context item res r new)"
      by (rule spec_bindI [OF calm_spec [OF calm_cell, where P = harmless] download_create_spec [OF 3(1)]])
        (auto simp: download_kept_left download_kept_harmless)
    then have "spec (act_bind (ensure_download_directory env (te_parent (env_paths env) (lr_target res))) (\<lambda>_.
        act_bind the_cell (\<lambda>c. act_bind (create_local_staging_file env (lr_target res) (sn_transfer_id (sc_snapshot c)) (di_index item))
            (\<lambda>(stage, writer). download_staged env context item res stage writer))))
      (\<lambda>r st new st'. download_kept env context item res r new)"
      by (rule spec_bindI [OF calm_spec [OF calm_ensure_download_directory]]) (auto simp: download_kept_left download_kept_harmless)
    with 3 show ?thesis unfolding download_body_def by simp
  qed
qed

definition download_run :: "'w transfer_env \<Rightarrow> execution_context \<Rightarrow> download_item \<Rightarrow> unit outcome \<Rightarrow> event list \<Rightarrow> bool" where
  "download_run env context item r new \<longleftrightarrow>
     list_all tries_local new \<or>
     (\<exists>res. allowed_local env item (lr_target res) \<and>
        download_tail env context item res (\<lambda>es. lr_choice res = ReplaceDestination \<longrightarrow> target_seen item res es) r new)"

lemma download_run_left:
  assumes a: "list_all harmless a" and b: "download_run env context item r b"
  shows "download_run env context item r (a @ b)"
  using b unfolding download_run_def
proof (elim disjE exE conjE)
  fix res
  assume "allowed_local env item (lr_target res)"
    "download_tail env context item res (\<lambda>es. lr_choice res = ReplaceDestination \<longrightarrow> target_seen item res es) r b"
  then show "list_all tries_local (a @ b) \<or> (\<exists>res. allowed_local env item (lr_target res) \<and>
        download_tail env context item res (\<lambda>es. lr_choice res = ReplaceDestination \<longrightarrow> target_seen item res es) r (a @ b))"
    using download_tail_left [OF a] target_seen_more(2) by (metis (no_types, lifting))
qed (simp add: tries_harmless [OF a])

lemma download_file_spec: "spec (download_file env context item) (\<lambda>r st new st'. download_run env context item r new)"
proof (cases "rs_kind (di_initial_stat item) = RemoteFile")
  case False
  then show ?thesis unfolding download_file_def by (auto intro!: spec_throw simp: download_run_def)
next
  case True
  have resolve: "spec (act_bind (resolve_local_destination env context item) (download_body env context item))
    (\<lambda>r st new st'. download_run env context item r new)"
  proof (rule spec_bindI [OF resolve_local_spec download_body_spec])
    fix res r st a mid b st'
    assume "mid = st \<and> list_all harmless a \<and> (\<forall>x. Done res = Done x \<longrightarrow> resolved_local env item x a)"
    then have a: "list_all harmless a" "resolved_local env item res a" by simp_all
    assume "download_kept env context item res r b"
    then show "download_run env context item r (a @ b)"
      unfolding download_kept_def
    proof
      assume "download_tail env context item res (\<lambda>_. True) r b"
      then have "download_tail env context item res (\<lambda>es. lr_choice res = ReplaceDestination \<longrightarrow> target_seen item res es) r (a @ b)"
        by (rule download_tail_left [OF a(1)]) (use a(2) target_seen_more(1) in \<open>auto simp: resolved_local_def\<close>)
      with a(2) show ?thesis unfolding download_run_def resolved_local_def by blast
    qed (simp add: download_run_def tries_harmless [OF a(1)])
  qed (auto simp: download_run_def tries_harmless)
  have "spec (act_bind (begin_item env l n) (\<lambda>_. act_bind (resolve_local_destination env context item) (download_body env context item)))
    (\<lambda>r st new st'. download_run env context item r new)" for l n
    by (rule spec_bindI [OF calm_spec [OF calm_host [OF calm_begin_item]] resolve])
      (simp_all add: download_run_left, simp_all add: download_run_def tries_harmless)
  with True show ?thesis unfolding download_file_def download_body_def [symmetric] by simp
qed

end
