(* ===== verification/TransferEnds.thy ===== *)
theory TransferEnds
  imports TransferFacts
begin

text \<open>
  When an upload or a download ends.  The loops that only the other side can end run with the fuel
  of the environment; these lemmas show what a run without a result has in its log: that many
  non-empty chunks read, or that many rounds of waiting for a decision.
\<close>

subsection \<open>Work done by a run\<close>

fun local_chunk :: "event \<Rightarrow> bool" where
  "local_chunk (Local (LRead h d bad)) \<longleftrightarrow> d \<noteq> [] \<and> \<not> bad"
| "local_chunk _ \<longleftrightarrow> False"

fun remote_chunk :: "event \<Rightarrow> bool" where
  "remote_chunk (Remote (RRead h x)) \<longleftrightarrow> (case x of Inr d \<Rightarrow> d \<noteq> [] | Inl e \<Rightarrow> False)"
| "remote_chunk _ \<longleftrightarrow> False"

fun waiting_round :: "event \<Rightarrow> bool" where
  "waiting_round (EvDecision d) = True"
| "waiting_round _ = False"

definition count_events :: "(event \<Rightarrow> bool) \<Rightarrow> event list \<Rightarrow> nat" where
  "count_events P es = length (filter P es)"

lemma count_append: "count_events P (a @ b) = count_events P a + count_events P b"
  by (simp add: count_events_def)

definition busy :: "nat \<Rightarrow> event list \<Rightarrow> bool" where
  "busy n es \<longleftrightarrow>
     n \<le> count_events local_chunk es \<or> n \<le> count_events remote_chunk es \<or> n \<le> count_events waiting_round es"

lemma busy_append: "busy n a \<Longrightarrow> busy n (a @ b)" "busy n b \<Longrightarrow> busy n (a @ b)"
  by (auto simp: busy_def count_append)

definition ends :: "nat \<Rightarrow> ('w, 'a) action \<Rightarrow> bool" where
  "ends n m \<longleftrightarrow> spec m (\<lambda>r st new st'. r = Hung \<longrightarrow> busy n new)"

named_theorems ends_intros

lemma ends_return [ends_intros]: "ends n (act_return x)"
  unfolding ends_def by (rule spec_return) simp

lemma ends_throw [ends_intros]: "ends n (act_throw e)"
  unfolding ends_def by (rule spec_throw) simp

lemma ends_bind [ends_intros]:
  assumes "ends n m" "\<And>x. ends n (f x)"
  shows "ends n (act_bind m f)"
  unfolding ends_def by (rule spec_bindI [OF assms [unfolded ends_def]]) (auto simp: busy_append)

lemma ends_catch_all [ends_intros]:
  assumes "ends n m" "\<And>e. ends n (h e)"
  shows "ends n (act_catch_all m h)"
  unfolding ends_def by (rule spec_catch_allI [OF assms [unfolded ends_def]]) (auto simp: busy_append)

lemma ends_attempt [ends_intros]: "ends n m \<Longrightarrow> ends n (attempt m)"
  unfolding ends_def by (erule spec_attemptI) auto

lemma ends_swallow [ends_intros]: "ends n m \<Longrightarrow> ends n (swallow m)"
  unfolding swallow_def by (intro ends_intros)

lemma ends_when [ends_intros]: "(b \<Longrightarrow> ends n m) \<Longrightarrow> ends n (act_when b m)"
  by (auto simp: act_when_def intro: ends_intros)

lemma ends_throw_if [ends_intros]: "ends n (throw_if b c t)"
  unfolding throw_if_def by (intro ends_intros)

lemma ends_cell [ends_intros]: "ends n the_cell" "ends n (set_cell f)"
  unfolding ends_def by (auto intro!: spec_wp simp: wp_simps)

lemma ends_ask [ends_intros]: "ends n (ask f entry)"
  unfolding ends_def by (rule spec_ask) simp

lemma ends_invoke [ends_intros]: "ends n (invoke f entry)"
  unfolding ends_def by (rule spec_invoke) simp_all

lemma ends_tell [ends_intros]: "ends n (tell f entry)"
  unfolding ends_def by (rule spec_tell) simp

lemma ends_clock [ends_intros]: "ends n (read_clock f)"
  unfolding ends_def by (rule spec_clock) simp

lemma ends_if [ends_intros]: "(b \<Longrightarrow> ends n m) \<Longrightarrow> (\<not> b \<Longrightarrow> ends n m') \<Longrightarrow> ends n (if b then m else m')"
  by simp

lemma ends_option [ends_intros]:
  "ends n m \<Longrightarrow> (\<And>v. ends n (f v)) \<Longrightarrow> ends n (case x of None \<Rightarrow> m | Some v \<Rightarrow> f v)"
  by (cases x) auto

lemma ends_sum [ends_intros]:
  "(\<And>v. ends n (f v)) \<Longrightarrow> (\<And>v. ends n (g v)) \<Longrightarrow> ends n (case x of Inl v \<Rightarrow> f v | Inr v \<Rightarrow> g v)"
  by (cases x) auto

lemma ends_pair [ends_intros]: "(\<And>a b. ends n (f a b)) \<Longrightarrow> ends n (case x of (a, b) \<Rightarrow> f a b)"
  by (cases x) auto

lemma ends_let [ends_intros]: "(\<And>y. ends n (f y)) \<Longrightarrow> ends n (let y = x in f y)"
  by simp

lemma ends_action [ends_intros]:
  "ends n a \<Longrightarrow> ends n b \<Longrightarrow> ends n c \<Longrightarrow>
   ends n (case k of SkipAction \<Rightarrow> a | OverwriteAction \<Rightarrow> b | RenameAction \<Rightarrow> c)"
  by (cases k) auto

lemma ends_policy [ends_intros]:
  "ends n a \<Longrightarrow> ends n b \<Longrightarrow> ends n c \<Longrightarrow> ends n (case k of AskPolicy \<Rightarrow> a | SkipPolicy \<Rightarrow> b | OverwritePolicy \<Rightarrow> c)"
  by (cases k) auto

lemma ends_fopen [ends_intros]:
  "(\<And>h. ends n (a h)) \<Longrightarrow> ends n b \<Longrightarrow> ends n c \<Longrightarrow> ends n (case k of Opened h \<Rightarrow> a h | Exists \<Rightarrow> b | CannotOpen \<Rightarrow> c)"
  by (cases k) auto

lemma ends_checked [ends_intros]: "ends n (checked r)"
  by (cases r) (auto simp: checked_def intro: ends_intros)

subsection \<open>The steps without loops\<close>

lemma ends_basic [ends_intros]:
  "ends n (cell_write env b f)" "ends n (persist_now env)" "ends n (throw_cancelled env)" "ends n (note_progress env k)"
  "ends n (symlink_status env path)" "ends n (file_size env path)" "ends n (last_write_time env path)"
  "ends n (lstat env server path)" "ends n (open_read env server path)" "ends n (remote_read env h k)"
  "ends n (remote_write env h d)" "ends n (remote_finish env h)" "ends n (remote_close env h)"
  "ends n (remove_file env server path)" "ends n (create_exclusive env server path)" "ends n (create_dir env server path)"
  "ends n (publish_no_replace env server a b')" "ends n (rename_replace env server a b')" "ends n (local_read env h k)"
  "ends n (staging_write env h d)" "ends n (staging_close env h)" "ends n (staging_drop env h)" "ends n (local_remove env path)"
  unfolding cell_write_def commit_def persist_quiet_def ledger_update_def publish_def persist_now_def throw_cancelled_def
    cancelled_def note_progress_def symlink_status_def file_size_def last_write_time_def lstat_def open_read_def
    remote_read_def remote_write_def remote_finish_def remote_close_def remove_file_def create_exclusive_def create_dir_def
    publish_no_replace_def rename_replace_def local_read_def staging_write_def staging_close_def staging_drop_def local_remove_def
  by (intro ends_intros)+

lemma ends_cell_steps [ends_intros]:
  "ends n (add_staging env a)" "ends n (remove_staging env a)" "ends n (push_failure env f)" "ends n (skip_item env)"
  "ends n (note_staging_residue env i p c m)" "ends n (begin_item env l k)" "ends n (complete_item env b)"
  "ends n (allocate_file env k)"
  unfolding add_staging_def remove_staging_def push_failure_def note_staging_residue_def begin_item_def complete_item_def
    skip_item_def allocate_file_def
  by (intro ends_intros)+

lemma ends_names [ends_intros]:
  "ends n (remote_child_checked p name)" "ends n (validate_remote_path p)" "ends n (safe_name name)"
  unfolding remote_child_checked_def validate_remote_path_def safe_name_def by (intro ends_intros)+

lemma ends_fingerprints [ends_intros]:
  "ends n (fingerprint_for env path)" "ends n (open_local_source env path)" "ends n (path_fingerprint_if_regular env path)"
  "ends n (verify_local_source_unchanged env path f)" "ends n (ensure_download_directory env path)"
  "ends n (ensure_local_directory env path)" "ends n (read_local_directory env path)"
  unfolding fingerprint_for_def open_local_source_def local_source_fingerprint_def path_fingerprint_if_regular_def
    verify_local_source_unchanged_def ensure_download_directory_def ensure_local_directory_def read_local_directory_def
    symlink_status_def file_size_def last_write_time_def
  by (intro ends_intros)+

lemma ends_walk [ends_intros]: "ends n (walk_chain env server expect current parts)"
  by (induction parts arbitrary: current) (auto intro!: ends_intros)

lemma ends_paths [ends_intros]:
  "ends n (ensure_remote_path_chain env server path expect)" "ends n (ensure_remote_directory env server path)"
  unfolding ensure_remote_path_chain_def ensure_remote_directory_def by (intro ends_intros)+

lemma ends_stage_attempts [ends_intros]: "ends n (stage_attempts env server tid parent name i ks)"
  by (induction ks) (auto intro!: ends_intros)

lemma ends_local_stage_attempts [ends_intros]: "ends n (local_stage_attempts env parent name tid i ks)"
  by (induction ks) (auto simp: Let_def intro!: ends_intros)

lemma ends_stages [ends_intros]:
  "ends n (create_remote_stage env server tid target i)" "ends n (create_local_staging_file env target tid i)"
  "ends n (cleanup_remote_stage env server stage i a)" "ends n (remove_published_remote_stage env server stage)"
  "ends n (publish_local_no_replace env stage target)" "ends n (publish_local_replace env stage target f)"
  "ends n (remove_local_staging env path)"
  unfolding create_remote_stage_def create_local_staging_file_def cleanup_remote_stage_def remove_published_remote_stage_def
    publish_local_no_replace_def publish_local_replace_def remove_local_staging_def
  by (intro ends_intros)+

subsection \<open>The loops\<close>

text \<open>A step that always ends, with at least one event in \<open>P\<close> when its result is in \<open>R\<close>.\<close>

definition counted :: "(event \<Rightarrow> bool) \<Rightarrow> ('a \<Rightarrow> bool) \<Rightarrow> ('w, 'a) action \<Rightarrow> bool" where
  "counted P R m \<longleftrightarrow> spec m (\<lambda>r st new st'. r \<noteq> Hung \<and> (\<forall>x. r = Done x \<longrightarrow> R x \<longrightarrow> 0 < count_events P new))"

definition rounds :: "(event \<Rightarrow> bool) \<Rightarrow> nat \<Rightarrow> ('w, 'a) action \<Rightarrow> bool" where
  "rounds P k m \<longleftrightarrow> spec m (\<lambda>r st new st'. r = Hung \<longrightarrow> k \<le> count_events P new)"

lemma rounds_ends: "rounds local_chunk n m \<or> rounds remote_chunk n m \<or> rounds waiting_round n m \<Longrightarrow> ends n m"
  unfolding rounds_def ends_def by (auto elim!: spec_mono simp: busy_def)

lemma rounds_zero: "rounds P 0 act_hang"
  unfolding rounds_def by (rule spec_wp) (simp add: wp_hang)

lemma rounds_done: "rounds P k (act_return x)" "rounds P k (act_throw e)"
  unfolding rounds_def by (auto intro!: spec_return spec_throw)

lemma rounds_skip:
  assumes "counted Q (\<lambda>_. False) m" "\<And>x. rounds P k (f x)"
  shows "rounds P k (act_bind m f)"
  unfolding rounds_def
  by (rule spec_bindI [OF assms(1) [unfolded counted_def] assms(2) [unfolded rounds_def]]) (auto simp: count_append)

lemma rounds_step:
  assumes m: "counted P R m" and again: "\<And>x. R x \<Longrightarrow> rounds P k (f x)" and over: "\<And>x. \<not> R x \<Longrightarrow> rounds P (Suc k) (f x)"
  shows "rounds P (Suc k) (act_bind m f)"
  unfolding rounds_def
proof (rule spec_bindI [OF m [unfolded counted_def], where T = "\<lambda>x r st new st'. r = Hung \<longrightarrow> (if R x then k else Suc k) \<le> count_events P new"])
  show "spec (f x) (\<lambda>r st new st'. r = Hung \<longrightarrow> (if R x then k else Suc k) \<le> count_events P new)" for x
    using again over by (cases "R x") (auto simp: rounds_def)
qed (auto simp: count_append split: if_splits)

lemma counted_weak: "counted P R m \<Longrightarrow> counted Q (\<lambda>_. False) m"
  unfolding counted_def by (erule spec_mono) simp

text \<open>Steps that always end.\<close>

lemma counted_ends: "(\<And>n. ends n m) \<Longrightarrow> counted Q (\<lambda>_. False) m"
  unfolding counted_def
proof (rule specI)
  fix s r s'
  assume all: "\<And>n. ends n m" and run: "m s = (r, s')"
  obtain new where new: "ts_log s' = ts_log s @ new" using specE [OF all [of 0, unfolded ends_def] run] .
  have "r \<noteq> Hung"
  proof
    assume "r = Hung"
    with specE [OF all [of "Suc (length new)", unfolded ends_def] run] new have "busy (Suc (length new)) new" by auto
    then show False unfolding busy_def count_events_def using length_filter_le by (metis not_less_eq_eq)
  qed
  with new show "\<exists>new. ts_log s' = ts_log s @ new \<and> r \<noteq> Hung \<and> (\<forall>x. r = Done x \<longrightarrow> False \<longrightarrow> 0 < count_events Q new)" by auto
qed

lemma counted_readers:
  "counted remote_chunk (\<lambda>d. d \<noteq> []) (remote_read env h k)"
  "counted local_chunk (\<lambda>d. d \<noteq> []) (local_read env h k)"
  unfolding counted_def remote_read_def local_read_def
  by (rule spec_invoke, simp_all add: count_events_def)
    (rule spec_wp, auto simp: wp_simps count_events_def intro!: wp_askI)

lemma rounds_hash_loop: "counted P (\<lambda>d. d \<noteq> []) reader \<Longrightarrow> rounds P k (hash_loop env reader k hasher)"
proof (induction k arbitrary: hasher)
  case 0
  show ?case by (simp add: rounds_zero)
next
  case (Suc k)
  have "rounds P (Suc k) (act_bind reader (\<lambda>data. if data = [] then act_return (hexdigest hasher)
      else hash_loop env reader k (update (map of_char data) hasher)))"
    by (rule rounds_step [OF Suc.prems]) (auto simp: Suc.IH [OF Suc.prems] rounds_done)
  then show ?case
    unfolding hash_loop.simps by (rule rounds_skip [OF counted_ends [OF ends_basic(3)]])
qed

lemma rounds_copy_loop:
  assumes reader: "counted P (\<lambda>d. d \<noteq> []) reader" and writer: "\<And>d n. ends n (writer d)"
  shows "rounds P k (copy_loop env reader writer k hasher bytes)"
proof (induction k arbitrary: hasher bytes)
  case 0
  show ?case by (simp add: rounds_zero)
next
  case (Suc k)
  have "rounds P k (act_bind (throw_cancelled env) (\<lambda>_. act_bind (writer data) (\<lambda>_. act_bind (note_progress env (length data)) (\<lambda>_.
      copy_loop env reader writer k (update (map of_char data) hasher) (bytes + of_nat (length data))))))" for data
    by (intro rounds_skip [OF counted_ends] Suc ends_basic writer)
  then have "rounds P (Suc k) (act_bind reader (\<lambda>data. if data = [] then act_return (bytes, hexdigest hasher)
      else act_bind (throw_cancelled env) (\<lambda>_. act_bind (writer data) (\<lambda>_. act_bind (note_progress env (length data)) (\<lambda>_.
      copy_loop env reader writer k (update (map of_char data) hasher) (bytes + of_nat (length data)))))))"
    by (intro rounds_step [OF reader]) (auto simp: rounds_done)
  then show ?case
    unfolding copy_loop.simps by (rule rounds_skip [OF counted_ends [OF ends_basic(3)]])
qed

lemma rounds_await: "rounds waiting_round k (await_decision env i k)"
proof (induction k)
  case 0
  show ?case by (simp add: rounds_zero)
next
  case (Suc k)
  have answer: "counted waiting_round (\<lambda>_. True) (ask (te_decision (env_host env)) EvDecision)"
    unfolding counted_def by (rule spec_ask) (simp add: count_events_def)
  have "rounds waiting_round (Suc k) (act_bind (ask (te_decision (env_host env)) EvDecision) (\<lambda>d.
     case d of
       Some (index, action) \<Rightarrow> if index = i then act_return action else await_decision env i k
     | None \<Rightarrow> await_decision env i k))"
    by (rule rounds_step [OF answer]) (auto simp: Suc rounds_done split: option.split)
  then show ?case
    unfolding await_decision.simps by (rule rounds_skip [OF counted_ends [OF ends_basic(3)]])
qed

subsection \<open>A file\<close>

lemma ends_readers [ends_intros]:
  "ends (env_fuel env) (hash_reader env (remote_read env h k))" "ends (env_fuel env) (hash_reader env (local_read env h k))"
  "ends (env_fuel env) (await_decision env i (env_fuel env))"
  "ends (env_fuel env) (copy_stream env (local_read env h k) (remote_write env w))"
  "ends (env_fuel env) (copy_stream env (remote_read env h k) (staging_write env w))"
  unfolding hash_reader_def copy_stream_def
  by (rule rounds_ends, simp add: rounds_await rounds_hash_loop rounds_copy_loop counted_readers ends_basic)+

lemma ends_loops [ends_intros]:
  "ends (env_fuel env) (hash_remote_file env server path)" "ends (env_fuel env) (hash_local_file env path)"
  unfolding hash_remote_file_def hash_local_file_def by (intro ends_intros)+

lemma ends_conflict [ends_intros]:
  "ends (env_fuel env) (await_conflict env c)" "ends (env_fuel env) (resolve_remote_destination env context item n e)"
  "ends (env_fuel env) (resolve_local_destination env context item')"
  unfolding await_conflict_def resolve_remote_destination_def remote_decision_def resolve_local_destination_def local_decision_def
  by (intro ends_intros)+

lemma ends_upload_file: "ends (env_fuel env) (upload_file env context item)"
  unfolding upload_file_def upload_staged_def with_writer_def unwind_stage_def upload_stream_def verify_stage_def
    publish_stage_def confirm_published_def settle_stage_def
  by (intro ends_intros)

lemma ends_download_file: "ends (env_fuel env) (download_file env context item)"
  unfolding download_file_def download_staged_def with_local_writer_def unwind_recording_def unwind_download_def
    download_stream_def open_download_def verify_download_def publish_download_def
  by (intro ends_intros)

end
