(* ===== verification/TransferUploadRun.thy ===== *)
theory TransferUploadRun
  imports TransferUpload
begin

text \<open>
  The shape of every run of \<^verbatim>\<open>upload_file\<close>: what it publishes and after which checks, and what
  happens to its staging file.
\<close>

subsection \<open>Verification and publication\<close>

definition publishing :: "'w transfer_env \<Rightarrow> string \<Rightarrow> string \<Rightarrow> remote_resolution \<Rightarrow> 64 word \<Rightarrow> string \<Rightarrow> ('w, unit) action" where
  "publishing env server stage res bytes sha =
     act_bind (verify_stage env server stage bytes sha) (\<lambda>_.
     act_bind (publish_stage env server stage res) (\<lambda>_.
     confirm_published env server (rr_target res) bytes))"

lemma delivered_intro:
  "list_all harmless before \<Longrightarrow> verified server stage bytes sha before \<Longrightarrow> publication server stage res x pub \<Longrightarrow>
   list_all harmless post \<Longrightarrow> delivered server stage res bytes sha x (before @ pub @ post)"
  unfolding delivered_def using harmless_removes by blast

lemma publishing_spec:
  "spec (publishing env server stage res bytes sha) (\<lambda>r st new st'. st' = st \<and>
     (list_all harmless new \<and> r \<noteq> Done () \<or>
      (\<exists>x. delivered server stage res bytes sha x new \<and> (r = Done () \<longrightarrow> x = Inr ()))))"
  unfolding publishing_def
proof (rule spec_bindI [OF verify_stage_spec])
  show "spec (act_bind (publish_stage env server stage res) (\<lambda>_. confirm_published env server (rr_target res) bytes))
    (\<lambda>r st new st'. st' = st \<and> (list_all harmless new \<and> r \<noteq> Done () \<or>
      (\<exists>x pub post. new = pub @ post \<and> publication server stage res x pub \<and> list_all harmless post \<and> (r = Done () \<longrightarrow> x = Inr ()))))"
  proof (rule spec_bindI [OF publish_stage_spec confirm_spec])
    fix u :: unit and r :: "unit outcome" and st a mid b st'
    assume "mid = st \<and> (list_all harmless a \<and> Done u \<noteq> Done () \<or>
        (\<exists>x. publication server stage res x a \<and> (Done u = Done () \<longrightarrow> x = Inr ())))" "st' = mid \<and> list_all harmless b"
    then show "st' = st \<and> (list_all harmless (a @ b) \<and> r \<noteq> Done () \<or>
      (\<exists>x pub post. a @ b = pub @ post \<and> publication server stage res x pub \<and> list_all harmless post \<and> (r = Done () \<longrightarrow> x = Inr ())))"
      by auto
  qed (force+)
next
  fix u :: unit and r :: "unit outcome" and st a mid b st'
  assume "mid = st \<and> list_all harmless a \<and> (Done u = Done () \<longrightarrow> verified server stage bytes sha a)"
    and "st' = mid \<and> (list_all harmless b \<and> r \<noteq> Done () \<or>
      (\<exists>x pub post. b = pub @ post \<and> publication server stage res x pub \<and> list_all harmless post \<and> (r = Done () \<longrightarrow> x = Inr ())))"
  then show "st' = st \<and> (list_all harmless (a @ b) \<and> r \<noteq> Done () \<or>
      (\<exists>x. delivered server stage res bytes sha x (a @ b) \<and> (r = Done () \<longrightarrow> x = Inr ())))"
    using delivered_intro [of a server stage bytes sha res] by auto
qed auto

text \<open>The stage has left its path: it was removed, or renamed over the target.\<close>

definition released :: "string \<Rightarrow> string \<Rightarrow> string \<Rightarrow> event list \<Rightarrow> bool" where
  "released server stage t es \<longleftrightarrow> remote_gone server stage es \<or> Remote (RReplace server stage t (Inr ())) \<in> set es"

definition accounted :: "string \<Rightarrow> string \<Rightarrow> string \<Rightarrow> staging_file \<Rightarrow> staging_file list \<Rightarrow> event list \<Rightarrow> staging_file list \<Rightarrow> bool" where
  "accounted server stage t a st new st' \<longleftrightarrow> st' = st \<or> st' = filter (\<lambda>x. x \<noteq> a) st \<and> released server stage t new"

lemma released_append: "released server stage t (a @ b) \<longleftrightarrow> released server stage t a \<or> released server stage t b"
  by (auto simp: released_def remote_gone_def)

lemma dropped_accounted: "dropped server stage a st new st' \<Longrightarrow> accounted server stage t a st (more' @ new) st'"
  by (auto simp: dropped_def accounted_def released_def remote_gone_def)

lemma caught_publishing_spec:
  "spec (act_catch_all (publishing env server stage res bytes sha) (unwind_stage env server stage i))
    (\<lambda>r st new st'. accounted server stage t (remote_artifact server stage i) st new st' \<and>
       (list_all (removes server stage) new \<and> r \<noteq> Done () \<or>
        (\<exists>x. delivered server stage res bytes sha x new \<and> (r = Done () \<longrightarrow> x = Inr () \<and> st' = st))))"
proof (rule spec_catch_allI [OF publishing_spec unwind_stage_spec])
  fix e and r :: "unit outcome" and st a mid b st'
  assume a: "mid = st \<and> (list_all harmless a \<and> Raised e \<noteq> Done () \<or>
      (\<exists>x. delivered server stage res bytes sha x a \<and> (Raised e = Done () \<longrightarrow> x = Inr ())))"
    and b: "(\<forall>x. r \<noteq> Done x) \<and> list_all (removes server stage) b \<and> dropped server stage (remote_artifact server stage i) mid b st'"
  then have "accounted server stage t (remote_artifact server stage i) st (a @ b) st'" by (simp add: dropped_accounted)
  with a b show "accounted server stage t (remote_artifact server stage i) st (a @ b) st' \<and>
       (list_all (removes server stage) (a @ b) \<and> r \<noteq> Done () \<or>
        (\<exists>x. delivered server stage res bytes sha x (a @ b) \<and> (r = Done () \<longrightarrow> x = Inr () \<and> st' = st)))"
    using delivered_more [of server stage res bytes sha _ a b] harmless_removes [of a server stage] by auto
qed (auto simp: accounted_def harmless_removes)

lemma settle_stage_spec:
  "spec (settle_stage env server stage i choice) (\<lambda>r st new st'. list_all (removes server stage) new \<and>
     (if choice = CreateDestination then dropped server stage (remote_artifact server stage i) st new st'
      else st' = filter (\<lambda>x. x \<noteq> remote_artifact server stage i) st))"
proof (cases "choice = CreateDestination")
  case True
  let ?a = "remote_artifact server stage i"
  have remove: "spec (remove_published_remote_stage env server stage) (\<lambda>r st new st'. st' = st \<and> list_all (removes server stage) new \<and>
      (r = Done () \<longrightarrow> remote_gone server stage new))"
    unfolding remove_published_remote_stage_def
  proof (rule spec_bindI [OF lstat_spec])
    have call: "spec (remove_file env server stage) (\<lambda>r st new st'. st' = st \<and> list_all (removes server stage) new \<and>
        (r = Done () \<longrightarrow> remote_gone server stage new))"
      unfolding remove_file_def by (rule spec_invoke) (auto simp: removes_def remote_gone_def)
    show "spec (case found of None \<Rightarrow> act_return ()
        | Some stat \<Rightarrow> if rs_kind stat = RemoteFile then remove_file env server stage else throw_invalid not_a_regular_stage)
      (\<lambda>r st new st'. st' = st \<and> list_all (removes server stage) new \<and>
        (r = Done () \<longrightarrow> found = None \<or> remote_gone server stage new))" for found
      by (auto intro!: spec_return spec_throw spec_mono [OF call] split: option.split)
  qed (auto simp: removes_def remote_gone_def)
  have tried: "spec (attempt (remove_published_remote_stage env server stage)) (\<lambda>r st new st'. st' = st \<and>
      list_all (removes server stage) new \<and> (\<forall>u. r = Done (Inr u) \<longrightarrow> remote_gone server stage new))"
    by (rule spec_attemptI [OF remove]) auto
  have "spec (act_bind (attempt (remove_published_remote_stage env server stage)) (\<lambda>removed.
        case removed of
          Inr _ \<Rightarrow> remove_staging env ?a
        | Inl (code, message) \<Rightarrow>
            note_staging_residue env i stage ErrRemote
              (''remote destination was published and verified, but its staging link could not be removed: '' @ message)))
    (\<lambda>r st new st'. list_all (removes server stage) new \<and> dropped server stage ?a st new st')"
  proof (rule spec_bindI [OF tried, where T = "\<lambda>x r st new st'. list_all host_event new \<and>
        (st' = st \<or> (\<exists>u. x = Inr u) \<and> st' = filter (\<lambda>x. x \<noteq> ?a) st)"])
    show "spec (case x of Inr _ \<Rightarrow> remove_staging env ?a
        | Inl (code, message) \<Rightarrow>
            note_staging_residue env i stage ErrRemote
              (''remote destination was published and verified, but its staging link could not be removed: '' @ message))
      (\<lambda>r st new st'. list_all host_event new \<and> (st' = st \<or> (\<exists>u. x = Inr u) \<and> st' = filter (\<lambda>x. x \<noteq> ?a) st))" for x
      by (cases x) (auto intro!: spec_mono [OF residue_spec] spec_mono [OF remove_staging_spec])
  qed (auto simp: dropped_def host_removes remote_gone_def)
  with True show ?thesis unfolding settle_stage_def Let_def by (simp only: simp_thms if_True)
next
  case False
  have "spec (remove_staging env (remote_artifact server stage i)) (\<lambda>r st new st'. list_all (removes server stage) new \<and>
      st' = filter (\<lambda>x. x \<noteq> remote_artifact server stage i) st)"
    by (rule spec_mono [OF remove_staging_spec]) (auto simp: host_removes)
  with False show ?thesis by (simp add: settle_stage_def)
qed

subsection \<open>From the first byte to the last look\<close>

definition stage_event :: "string \<Rightarrow> string \<Rightarrow> nat \<Rightarrow> event \<Rightarrow> bool" where
  "stage_event server stage w e \<longleftrightarrow> writing w e \<or> removes server stage e"

lemma stage_events:
  "list_all (writing w) es \<Longrightarrow> list_all (stage_event server stage w) es"
  "list_all (removes server stage) es \<Longrightarrow> list_all (stage_event server stage w) es"
  "list_all host_event es \<Longrightarrow> list_all (stage_event server stage w) es"
  "list_all harmless es \<Longrightarrow> list_all (stage_event server stage w) es"
  by (auto simp: stage_event_def removes_def host_harmless elim: list.pred_mono_strong)

lemma accounted_trans:
  "accounted server stage t a st n1 mid \<Longrightarrow> accounted server stage t a mid n2 st' \<Longrightarrow> accounted server stage t a st (n1 @ n2) st'"
  by (auto simp: accounted_def released_append)

lemma accounted_refl: "accounted server stage t a st es st"
  by (simp add: accounted_def)

lemma accounted_left: "accounted server stage t a st es st' \<Longrightarrow> accounted server stage t a st (es' @ es) st'"
  using accounted_trans accounted_refl by blast

lemma accounted_right: "accounted server stage t a st es st' \<Longrightarrow> accounted server stage t a st (es @ es') st'"
  using accounted_trans accounted_refl by blast

text \<open>A step under the writer: an exception closes it, removes the stage and goes on.\<close>

lemma with_writer_spec:
  assumes body: "spec body (\<lambda>r st new st'. st' = grow st \<and> list_all (writing w) new \<and> (\<forall>y. r = Done y \<longrightarrow> R y new))"
  shows "spec (with_writer env server stage i w body) (\<lambda>r st new st'.
      accounted server stage t (remote_artifact server stage i) (grow st) new st' \<and> list_all (stage_event server stage w) new \<and>
      (\<forall>y. r = Done y \<longrightarrow> st' = grow st \<and> list_all (writing w) new \<and> R y new))"
proof -
  have close: "spec (act_bind (remote_close env w) (\<lambda>_. unwind_stage env server stage i e)) (\<lambda>r st new st'. (\<forall>x. r \<noteq> Done x) \<and>
      accounted server stage t (remote_artifact server stage i) st new st' \<and> list_all (stage_event server stage w) new)" for e
    unfolding remote_close_def
  proof (rule spec_bindI [OF _ unwind_stage_spec])
    show "spec (tell (te_close (env_backend env) w) (Remote (RClose w))) (\<lambda>r st new st'. st' = st \<and> new = [Remote (RClose w)] \<and> r = Done ())"
      by (rule spec_tell) simp
  qed (auto simp: dropped_accounted [where more' = "[_]", simplified] stage_events, auto simp: stage_event_def writing_def)
  show ?thesis
    unfolding with_writer_def
  proof (rule spec_catch_allI [OF body close])
  qed (auto simp: accounted_left stage_events accounted_refl)
qed

definition uploaded ::
  "string \<Rightarrow> string \<Rightarrow> string \<Rightarrow> nat \<Rightarrow> nat \<Rightarrow> local_fingerprint \<Rightarrow> remote_resolution \<Rightarrow> transfer_exception + unit \<Rightarrow> event list \<Rightarrow> bool" where
  "uploaded server stage source w input fingerprint res x es \<longleftrightarrow>
     (\<exists>written check bytes sha. es = written @ check \<and> list_all (writing w) written \<and>
        streamed source input w fingerprint bytes sha written \<and> delivered server stage res bytes sha x check)"

lemma uploaded_more:
  "uploaded server stage source w input fp res x es \<Longrightarrow> list_all (removes server stage) later \<Longrightarrow>
   uploaded server stage source w input fp res x (es @ later)"
  unfolding uploaded_def using delivered_more by fastforce

lemma delivered_replace:
  "delivered server stage res bytes sha (Inr ()) es \<Longrightarrow> rr_choice res \<noteq> CreateDestination \<Longrightarrow>
   Remote (RReplace server stage (rr_target res) (Inr ())) \<in> set es"
  by (auto simp: delivered_def publication_def)

text \<open>Everything from the recorded stage on, as one outcome.\<close>

definition staged_outcome ::
  "string \<Rightarrow> string \<Rightarrow> string \<Rightarrow> nat \<Rightarrow> nat \<Rightarrow> local_fingerprint \<Rightarrow> remote_resolution \<Rightarrow> unit outcome \<Rightarrow> event list \<Rightarrow> bool" where
  "staged_outcome server stage source w input fingerprint res r es \<longleftrightarrow>
     list_all (stage_event server stage w) es \<and> r \<noteq> Done () \<or>
     (\<exists>x. uploaded server stage source w input fingerprint res x es \<and> (r = Done () \<longrightarrow> x = Inr ()))"

lemma close_spec: "spec (remote_close env w) (\<lambda>r st new st'. st' = st \<and> r = Done () \<and> new = [Remote (RClose w)])"
  unfolding remote_close_def by (rule spec_tell) simp

lemma staged_tail_spec:
  "spec (act_bind (settle_stage env server stage i (rr_choice res)) (\<lambda>_. complete_item env v))
    (\<lambda>r st new st'. list_all (removes server stage) new \<and>
     (if rr_choice res = CreateDestination then accounted server stage t (remote_artifact server stage i) st new st'
      else st' = st \<or> st' = filter (\<lambda>x. x \<noteq> remote_artifact server stage i) st))"
  by (rule spec_bindI [OF settle_stage_spec calm_spec [OF calm_complete_item]])
    (auto simp: host_removes dropped_accounted [where more' = "[]", simplified] accounted_right split: if_splits)

lemma staged_rest_spec:
  fixes env :: "'w transfer_env"
  assumes t: "t = rr_target res"
  shows "spec (act_bind (act_catch_all (publishing env server stage res bytes sha) (unwind_stage env server stage i)) (\<lambda>_.
      act_bind (settle_stage env server stage i (rr_choice res)) (\<lambda>_. complete_item env v)))
    (\<lambda>r st new st'. accounted server stage t (remote_artifact server stage i) st new st' \<and>
       (list_all (removes server stage) new \<and> r \<noteq> Done () \<or>
        (\<exists>x. delivered server stage res bytes sha x new \<and> (r = Done () \<longrightarrow> x = Inr ()))))"
proof (rule spec_bindI [OF caught_publishing_spec [where t = t] staged_tail_spec [where t = t]])
  fix u :: unit and r :: "unit outcome" and st a mid b st'
  let ?a = "remote_artifact server stage i"
  assume one: "accounted server stage t ?a st a mid \<and> (list_all (removes server stage) a \<and> Done u \<noteq> Done () \<or>
      (\<exists>x. delivered server stage res bytes sha x a \<and> (Done u = Done () \<longrightarrow> x = Inr () \<and> mid = st)))"
    and two: "list_all (removes server stage) b \<and>
     (if rr_choice res = CreateDestination then accounted server stage t ?a mid b st'
      else st' = mid \<or> st' = filter (\<lambda>x. x \<noteq> ?a) mid)"
  then have d: "delivered server stage res bytes sha (Inr ()) a" "mid = st" by auto
  have "accounted server stage t ?a st (a @ b) st'"
  proof (cases "rr_choice res = CreateDestination")
    case True
    with one two show ?thesis using accounted_trans by auto
  next
    case False
    with delivered_replace [OF d(1)] t have "released server stage t (a @ b)" by (auto simp: released_def)
    with two d False show ?thesis by (auto simp: accounted_def)
  qed
  with two d show "accounted server stage t ?a st (a @ b) st' \<and> (list_all (removes server stage) (a @ b) \<and> r \<noteq> Done () \<or>
      (\<exists>x. delivered server stage res bytes sha x (a @ b) \<and> (r = Done () \<longrightarrow> x = Inr ())))"
    using delivered_more [OF d(1)] by blast
qed auto

lemma streamed_close: "streamed source input w fp bytes sha es \<Longrightarrow> streamed source input w fp bytes sha (es @ [Remote (RClose w)])"
  by (rule streamed_more) (simp_all add: stream_defs)

lemma staged_stream_spec:
  "spec (with_writer env server stage i w (upload_stream env item input fp w)) (\<lambda>r st new st'.
      accounted server stage t (remote_artifact server stage i) st new st' \<and> list_all (stage_event server stage w) new \<and>
      (\<forall>y. r = Done y \<longrightarrow> st' = st \<and> list_all (writing w) new \<and> streamed (ui_source item) input w fp (fst y) (snd y) new))"
  by (rule with_writer_spec [where grow = "\<lambda>st. st" and R = "\<lambda>y new. streamed (ui_source item) input w fp (fst y) (snd y) new"],
      rule spec_mono [OF upload_stream_spec]) auto

lemma staged_record_spec:
  "spec (with_writer env server stage i w (add_staging env (remote_artifact server stage i))) (\<lambda>r st new st'.
      accounted server stage t (remote_artifact server stage i) (st @ [remote_artifact server stage i]) new st' \<and>
      list_all (stage_event server stage w) new \<and>
      (r = Done () \<longrightarrow> st' = st @ [remote_artifact server stage i] \<and> list_all (writing w) new \<and> list_all host_event new))"
proof -
  have "spec (with_writer env server stage i w (add_staging env (remote_artifact server stage i))) (\<lambda>r st new st'.
      accounted server stage t (remote_artifact server stage i) (st @ [remote_artifact server stage i]) new st' \<and>
      list_all (stage_event server stage w) new \<and>
      (\<forall>y. r = Done y \<longrightarrow> st' = st @ [remote_artifact server stage i] \<and> list_all (writing w) new \<and> list_all host_event new))"
    by (rule with_writer_spec [where grow = "\<lambda>st. st @ [remote_artifact server stage i]" and R = "\<lambda>y new. list_all host_event new"],
        rule spec_mono [OF add_staging_spec])
      (auto simp: writing_def host_harmless elim: list.pred_mono_strong)
  then show ?thesis by (rule spec_mono) auto
qed

lemma streamed_host: "list_all host_event a \<Longrightarrow> streamed source input w fp bytes sha b \<Longrightarrow> streamed source input w fp bytes sha (a @ b)"
  by (rule streamed_more) (simp_all add: host_no_stream)

lemma uploaded_host:
  assumes "list_all host_event a" "list_all (writing w) a" "uploaded server stage source w input fp res x b"
  shows "uploaded server stage source w input fp res x (a @ b)"
proof -
  obtain written check bytes sha where b: "b = written @ check" "list_all (writing w) written"
    "streamed source input w fp bytes sha written" "delivered server stage res bytes sha x check"
    using assms(3) unfolding uploaded_def by blast
  have "a @ b = (a @ written) @ check" "list_all (writing w) (a @ written)" "streamed source input w fp bytes sha (a @ written)"
    using assms b streamed_host by auto
  with b(4) show ?thesis unfolding uploaded_def by blast
qed

lemma staged_outcome_host:
  "list_all host_event a \<Longrightarrow> list_all (writing w) a \<Longrightarrow> staged_outcome server stage source w input fp res r b \<Longrightarrow>
   staged_outcome server stage source w input fp res r (a @ b)"
  unfolding staged_outcome_def using uploaded_host stage_events by fastforce

lemma upload_staged_spec:
  fixes env :: "'w transfer_env"
  defines "stored \<equiv> \<lambda>server stage i st. st @ [remote_artifact server stage i]"
  shows "spec (upload_staged env context item input fp res stage w) (\<lambda>r st new st'.
     accounted (xc_server_id context) stage (rr_target res) (remote_artifact (xc_server_id context) stage (ui_index item))
       (stored (xc_server_id context) stage (ui_index item) st) new st' \<and>
     staged_outcome (xc_server_id context) stage (ui_source item) w input fp res r new)"
proof -
  let ?server = "xc_server_id context" and ?i = "ui_index item" and ?t = "rr_target res"
  let ?a = "remote_artifact ?server stage ?i"
  have after: "spec (act_bind (remote_close env w) (\<lambda>_.
      act_bind (act_catch_all (publishing env ?server stage res bytes sha) (unwind_stage env ?server stage ?i)) (\<lambda>_.
      act_bind (settle_stage env ?server stage ?i (rr_choice res)) (\<lambda>_. complete_item env True))))
    (\<lambda>r st new st'. accounted ?server stage ?t ?a st new st' \<and> (\<exists>b. new = Remote (RClose w) # b \<and>
       (list_all (removes ?server stage) b \<and> r \<noteq> Done () \<or>
        (\<exists>x. delivered ?server stage res bytes sha x b \<and> (r = Done () \<longrightarrow> x = Inr ())))))" for bytes sha
    by (rule spec_bindI [OF close_spec staged_rest_spec [OF refl]])
      (auto intro: accounted_left [where es' = "[_]", simplified])
  let ?rest = "\<lambda>y. case y of (bytes, sha) \<Rightarrow> act_bind (remote_close env w) (\<lambda>_.
      act_bind (act_catch_all (publishing env ?server stage res bytes sha) (unwind_stage env ?server stage ?i)) (\<lambda>_.
      act_bind (settle_stage env ?server stage ?i (rr_choice res)) (\<lambda>_. complete_item env True)))"
  have rest: "spec (?rest y) (\<lambda>r st new st'. accounted ?server stage ?t ?a st new st' \<and> (\<exists>b. new = Remote (RClose w) # b \<and>
       (list_all (removes ?server stage) b \<and> r \<noteq> Done () \<or>
        (\<exists>x. delivered ?server stage res (fst y) (snd y) x b \<and> (r = Done () \<longrightarrow> x = Inr ())))))" for y
    using after by (cases y) simp
  have stream: "spec (act_bind (with_writer env ?server stage ?i w (upload_stream env item input fp w)) ?rest)
    (\<lambda>r st new st'. accounted ?server stage ?t ?a st new st' \<and> staged_outcome ?server stage (ui_source item) w input fp res r new)"
  proof (rule spec_bindI [OF staged_stream_spec [where t = ?t] rest])
    fix y and r :: "unit outcome" and st a mid b st'
    assume one: "accounted ?server stage ?t ?a st a mid \<and> list_all (stage_event ?server stage w) a \<and>
      (\<forall>z. Done y = Done z \<longrightarrow> mid = st \<and> list_all (writing w) a \<and> streamed (ui_source item) input w fp (fst z) (snd z) a)"
      and two: "accounted ?server stage ?t ?a mid b st' \<and> (\<exists>c. b = Remote (RClose w) # c \<and>
       (list_all (removes ?server stage) c \<and> r \<noteq> Done () \<or>
        (\<exists>x. delivered ?server stage res (fst y) (snd y) x c \<and> (r = Done () \<longrightarrow> x = Inr ()))))"
    then obtain c where c: "b = Remote (RClose w) # c" "list_all (removes ?server stage) c \<and> r \<noteq> Done () \<or>
        (\<exists>x. delivered ?server stage res (fst y) (snd y) x c \<and> (r = Done () \<longrightarrow> x = Inr ()))" by blast
    have written: "list_all (writing w) (a @ [Remote (RClose w)])"
        "streamed (ui_source item) input w fp (fst y) (snd y) (a @ [Remote (RClose w)])"
      using one streamed_close by (auto simp: writing_def)
    have joined: "a @ b = (a @ [Remote (RClose w)]) @ c" by (simp add: c(1))
    have "staged_outcome ?server stage (ui_source item) w input fp res r (a @ b)"
      using c(2)
    proof (elim disjE exE conjE)
      assume "list_all (removes ?server stage) c" "r \<noteq> Done ()"
      with written(1) show ?thesis unfolding staged_outcome_def joined by (simp add: stage_events) (simp add: stage_event_def)
    next
      fix x
      assume "delivered ?server stage res (fst y) (snd y) x c" "r = Done () \<longrightarrow> x = Inr ()"
      with written show ?thesis unfolding staged_outcome_def uploaded_def joined by blast
    qed
    with one two show "accounted ?server stage ?t ?a st (a @ b) st' \<and> staged_outcome ?server stage (ui_source item) w input fp res r (a @ b)"
      using accounted_trans by blast
  qed (auto simp: staged_outcome_def)
  have "spec (upload_staged env context item input fp res stage w) (\<lambda>r st new st'.
     accounted ?server stage ?t ?a (stored ?server stage ?i st) new st' \<and> staged_outcome ?server stage (ui_source item) w input fp res r new)"
    unfolding upload_staged_def Let_def publishing_def [symmetric]
  proof (rule spec_bindI [OF staged_record_spec [where t = ?t] stream])
    fix u :: unit and r :: "unit outcome" and st a mid b st'
    assume one: "accounted ?server stage ?t ?a (st @ [?a]) a mid \<and> list_all (stage_event ?server stage w) a \<and>
      (Done u = Done () \<longrightarrow> mid = st @ [?a] \<and> list_all (writing w) a \<and> list_all host_event a)"
      and two: "accounted ?server stage ?t ?a mid b st' \<and> staged_outcome ?server stage (ui_source item) w input fp res r b"
    then have "staged_outcome ?server stage (ui_source item) w input fp res r (a @ b)"
      by (auto intro: staged_outcome_host)
    with one two show "accounted ?server stage ?t ?a (stored ?server stage ?i st) (a @ b) st' \<and>
        staged_outcome ?server stage (ui_source item) w input fp res r (a @ b)"
      using accounted_trans unfolding stored_def by blast
  qed (auto simp: staged_outcome_def stored_def)
  then show ?thesis .
qed

subsection \<open>The whole of \<^verbatim>\<open>upload_file\<close>\<close>

definition allowed_target :: "upload_item \<Rightarrow> string \<Rightarrow> bool" where
  "allowed_target item t \<longleftrightarrow> t = ui_target item \<or> (\<exists>name. remote_child (parent_of (ui_target item)) name = Inr t)"

definition resolved :: "upload_item \<Rightarrow> remote_stat option \<Rightarrow> remote_resolution \<Rightarrow> bool" where
  "resolved item existing res \<longleftrightarrow>
     allowed_target item (rr_target res) \<and>
     (rr_choice res \<noteq> CreateDestination \<longrightarrow> rr_target res = ui_target item \<and> existing \<noteq> None \<and> rr_expected res = existing)"

lemma calm_remote_decision: "calm harmless (\<lambda>_. True) (remote_decision env context item incoming stat)"
  unfolding remote_decision_def by (cases "xc_policy context") (auto intro!: calm_intros)

lemma calm_resolve_remote: "calm harmless (resolved item existing) (resolve_remote_destination env context item incoming existing)"
proof -
  have renamed: "calm harmless (resolved item existing) (act_bind (remote_child_checked (parent_of (ui_target item)) name) (\<lambda>renamed.
      act_bind (lstat env server renamed) (\<lambda>found.
      if found \<noteq> None then throw_invalid m
      else act_return \<lparr>rr_target = renamed, rr_choice = CreateDestination, rr_expected = None\<rparr>)))" for name server m
    unfolding remote_child_checked_def
    by (rule calm_bind [OF calm_checked]) (auto intro!: calm_intros simp: resolved_def allowed_target_def)
  show ?thesis
    unfolding resolve_remote_destination_def
    using renamed calm_remote_decision
    by (auto intro!: calm_intros simp: resolved_def allowed_target_def split: option.split conflict_action_kind.split)
qed

lemma neutral_harmless: "list_all neutral es \<Longrightarrow> list_all harmless es"
  by (auto simp: neutral_def elim: list.pred_mono_strong)

lemma source_fingerprint_spec:
  "spec (local_source_fingerprint env path) (\<lambda>r st new st'. st' = st \<and> list_all harmless new \<and>
     (\<forall>fp. r = Done fp \<longrightarrow> source_seen path fp new))"
  unfolding local_source_fingerprint_def symlink_status_def
proof (rule spec_bindI)
  show "spec (ask (te_symlink_status (env_files env) path) (\<lambda>(t, e). Local (LStatus path t e)))
      (\<lambda>r st new st'. st' = st \<and> (\<exists>t e. new = [Local (LStatus path t e)] \<and> r = Done (t, e)))"
    by (rule spec_ask) (auto split: prod.split)
  show "spec (case y of (t, e) \<Rightarrow> if status_missing t e then throw_local m
      else case e of Some err \<Rightarrow> throw_local (m' @ os_message err)
       | None \<Rightarrow> if t \<noteq> RegularFile then throw_invalid m'' else fingerprint_for env path)
    (\<lambda>r st new st'. st' = st \<and> list_all harmless new \<and> (\<forall>fp. r = Done fp \<longrightarrow> y = (RegularFile, None) \<and>
       Local (LSize path (Inr (lf_size fp))) \<in> set new \<and> Local (LTime path (lf_modified fp)) \<in> set new))" for y m m' m''
    by (cases y) (auto intro!: spec_throw spec_mono [OF fingerprint_spec] neutral_harmless split: option.split)
qed (auto simp: source_seen_def)

lemma open_source_spec:
  "spec (open_local_source env path) (\<lambda>r st new st'. st' = st \<and> list_all harmless new \<and>
     (\<forall>y. r = Done y \<longrightarrow> Local (LOpen path (Some (fst y))) \<in> set new \<and> source_seen path (snd y) new))"
  unfolding open_local_source_def
proof (rule spec_bindI [OF source_fingerprint_spec])
  show "spec (act_bind (ask (te_open_local (env_files env) path) (\<lambda>r. Local (LOpen path r))) (\<lambda>h.
     case h of None \<Rightarrow> throw_local ''could not open the local source file'' | Some stream \<Rightarrow> act_return (stream, before)))
    (\<lambda>r st new st'. st' = st \<and> list_all harmless new \<and>
       (\<forall>y. r = Done y \<longrightarrow> Local (LOpen path (Some (fst y))) \<in> set new \<and> snd y = before))" for before
    by (rule spec_wp) (auto simp: wp_simps intro!: wp_askI split: option.split)
qed (auto simp: source_seen_def)

text \<open>
  After the destination is resolved: nothing is staged, or one stage is created, recorded and
  settled.  The calls in \<open>known\<close> were made before that.
\<close>

definition staged_run ::
  "execution_context \<Rightarrow> upload_item \<Rightarrow> event set \<Rightarrow> nat \<Rightarrow> local_fingerprint \<Rightarrow> remote_resolution \<Rightarrow> unit outcome \<Rightarrow>
   staging_file list \<Rightarrow> event list \<Rightarrow> staging_file list \<Rightarrow> bool" where
  "staged_run context item known input fp res r st new st' \<longleftrightarrow>
     (let server = xc_server_id context; tid = xc_transfer_id context; i = ui_index item; t = rr_target res in
      \<exists>before p w rest. new = before @ Remote (RCreate server p (Inr w)) # rest \<and>
         list_all (probes server tid t i) before \<and> known \<subseteq> set before \<and> staged_path tid t i p \<and>
         accounted server p t (remote_artifact server p i) (st @ [remote_artifact server p i]) rest st' \<and>
         staged_outcome server p (ui_source item) w input fp res r rest)"

definition upload_tail ::
  "execution_context \<Rightarrow> upload_item \<Rightarrow> event set \<Rightarrow> nat \<Rightarrow> local_fingerprint \<Rightarrow> remote_resolution \<Rightarrow> unit outcome \<Rightarrow>
   staging_file list \<Rightarrow> event list \<Rightarrow> staging_file list \<Rightarrow> bool" where
  "upload_tail context item known input fp res r st new st' \<longleftrightarrow>
     st' = st \<and> list_all (probes (xc_server_id context) (xc_transfer_id context) (rr_target res) (ui_index item)) new \<and>
     known \<subseteq> set new \<and> (r = Done () \<longrightarrow> rr_choice res = SkipDestination \<and> list_all harmless new) \<or>
     rr_choice res \<noteq> SkipDestination \<and> staged_run context item known input fp res r st new st'"

definition upload_body ::
  "'w transfer_env \<Rightarrow> execution_context \<Rightarrow> upload_item \<Rightarrow> nat \<Rightarrow> local_fingerprint \<Rightarrow> remote_resolution \<Rightarrow> ('w, unit) action" where
  "upload_body env context item input fp res =
     (if rr_choice res = SkipDestination then skip_item env
      else
        act_bind (ensure_remote_path_chain env (xc_server_id context) (parent_of (rr_target res)) True) (\<lambda>_.
        act_bind (create_remote_stage env (xc_server_id context) (xc_transfer_id context) (rr_target res) (ui_index item))
          (\<lambda>(stage, writer). upload_staged env context item input fp res stage writer)))"

lemma harmless_probes: "list_all harmless es \<Longrightarrow> list_all (probes server tid t i) es"
  by (auto simp: probes_def elim: list.pred_mono_strong)

lemma staged_run_left:
  assumes probing: "list_all (probes (xc_server_id context) (xc_transfer_id context) (rr_target res) (ui_index item)) a"
    and b: "staged_run context item known input fp res r st b st'" and seen: "seen \<subseteq> set a"
  shows "staged_run context item (seen \<union> known) input fp res r st (a @ b) st'"
proof -
  let ?server = "xc_server_id context" and ?tid = "xc_transfer_id context" and ?i = "ui_index item" and ?t = "rr_target res"
  obtain before p w rest where b: "b = before @ Remote (RCreate ?server p (Inr w)) # rest"
    "list_all (probes ?server ?tid ?t ?i) before" "known \<subseteq> set before" and c: "staged_path ?tid ?t ?i p"
    "accounted ?server p ?t (remote_artifact ?server p ?i) (st @ [remote_artifact ?server p ?i]) rest st'"
    "staged_outcome ?server p (ui_source item) w input fp res r rest"
    using b unfolding staged_run_def Let_def by blast
  have "a @ b = (a @ before) @ Remote (RCreate ?server p (Inr w)) # rest"
    "list_all (probes ?server ?tid ?t ?i) (a @ before)" "seen \<union> known \<subseteq> set (a @ before)"
    using b probing seen by auto
  with c show ?thesis unfolding staged_run_def Let_def by blast
qed

lemma upload_tail_left:
  assumes a: "list_all harmless a" and b: "upload_tail context item known input fp res r st b st'" and seen: "seen \<subseteq> set a"
  shows "upload_tail context item (seen \<union> known) input fp res r st (a @ b) st'"
  using a b staged_run_left [OF harmless_probes [OF a] _ seen] harmless_probes [OF a] seen unfolding upload_tail_def by auto

lemma upload_created_spec:
  assumes "rr_choice res \<noteq> SkipDestination"
  shows "spec (act_bind (create_remote_stage env (xc_server_id context) (xc_transfer_id context) (rr_target res) (ui_index item))
          (\<lambda>(stage, writer). upload_staged env context item input fp res stage writer))
    (upload_tail context item {} input fp res)"
proof (rule spec_bindI [OF create_remote_stage_spec])
  show "spec (case y of (stage, writer) \<Rightarrow> upload_staged env context item input fp res stage writer)
    (\<lambda>r st new st'.
     accounted (xc_server_id context) (fst y) (rr_target res) (remote_artifact (xc_server_id context) (fst y) (ui_index item))
       (st @ [remote_artifact (xc_server_id context) (fst y) (ui_index item)]) new st' \<and>
     staged_outcome (xc_server_id context) (fst y) (ui_source item) (snd y) input fp res r new)" for y
    by (cases y) (simp add: upload_staged_spec)
next
  fix y r st a mid b st'
  assume "mid = st \<and> created (xc_server_id context) (xc_transfer_id context) (rr_target res) (ui_index item) (Done y) a"
    "accounted (xc_server_id context) (fst y) (rr_target res) (remote_artifact (xc_server_id context) (fst y) (ui_index item))
       (mid @ [remote_artifact (xc_server_id context) (fst y) (ui_index item)]) b st' \<and>
     staged_outcome (xc_server_id context) (fst y) (ui_source item) (snd y) input fp res r b"
  then show "upload_tail context item {} input fp res r st (a @ b) st'"
    using assms unfolding upload_tail_def staged_run_def created_def Let_def by (cases y) fastforce
qed (auto simp: upload_tail_def created_def)

lemma upload_body_spec: "spec (upload_body env context item input fp res) (upload_tail context item {} input fp res)"
proof (cases "rr_choice res = SkipDestination")
  case True
  have "spec (skip_item env) (upload_tail context item {} input fp res)"
    by (rule spec_mono [OF calm_spec [OF calm_skip_item]])
      (auto simp: upload_tail_def True probes_def host_harmless elim: list.pred_mono_strong)
  with True show ?thesis unfolding upload_body_def by simp
next
  case False
  have "spec (act_bind (ensure_remote_path_chain env (xc_server_id context) (parent_of (rr_target res)) True) (\<lambda>_.
        act_bind (create_remote_stage env (xc_server_id context) (xc_transfer_id context) (rr_target res) (ui_index item))
          (\<lambda>(stage, writer). upload_staged env context item input fp res stage writer)))
    (upload_tail context item {} input fp res)"
    by (rule spec_bindI [OF calm_path_chain [unfolded calm_def] upload_created_spec [OF False]])
      (auto dest: upload_tail_left [where seen = "{}"], auto simp: upload_tail_def harmless_probes)
  with False show ?thesis unfolding upload_body_def by simp
qed

text \<open>Steps that only look, in front of it.\<close>

definition upload_from ::
  "execution_context \<Rightarrow> upload_item \<Rightarrow> (nat \<Rightarrow> local_fingerprint \<Rightarrow> remote_resolution \<Rightarrow> event set \<Rightarrow> bool) \<Rightarrow>
   unit outcome \<Rightarrow> staging_file list \<Rightarrow> event list \<Rightarrow> staging_file list \<Rightarrow> bool" where
  "upload_from context item P r st new st' \<longleftrightarrow>
     st' = st \<and> list_all harmless new \<and> r \<noteq> Done () \<or>
     (\<exists>input fp res known. P input fp res known \<and> upload_tail context item known input fp res r st new st')"

lemma upload_step:
  assumes m: "spec m (\<lambda>r st new st'. st' = st \<and> list_all harmless new \<and> (\<forall>x. r = Done x \<longrightarrow> G x \<and> K x \<subseteq> set new))"
    and f: "\<And>x. G x \<Longrightarrow> spec (f x) (upload_from context item (P x))"
    and P: "\<And>x input fp res known. G x \<Longrightarrow> P x input fp res known \<Longrightarrow> P' input fp res (K x \<union> known)"
  shows "spec (act_bind m f) (upload_from context item P')"
proof (rule spec_bindI [OF m f])
  fix x and r :: "unit outcome" and st mid :: "staging_file list" and a b and st' :: "staging_file list"
  assume "mid = st \<and> list_all harmless a \<and> (\<forall>y. Done x = Done y \<longrightarrow> G y \<and> K y \<subseteq> set a)"
  then have a: "mid = st" "list_all harmless a" "G x" "K x \<subseteq> set a" by auto
  assume "upload_from context item (P x) r mid b st'"
  then show "upload_from context item P' r st (a @ b) st'"
    unfolding upload_from_def
  proof (elim disjE exE conjE)
    fix input fp res known
    assume "P x input fp res known" "upload_tail context item known input fp res r mid b st'"
    with upload_tail_left [OF a(2) _ a(4)] P [OF a(3)] a(1)
    show "st' = st \<and> list_all harmless (a @ b) \<and> r \<noteq> Done () \<or>
      (\<exists>input fp res known. P' input fp res known \<and> upload_tail context item known input fp res r st (a @ b) st')" by blast
  qed (simp add: a)
qed (auto simp: upload_from_def)

text \<open>The source was found with the fingerprint and opened.\<close>

definition source_calls :: "upload_item \<Rightarrow> nat \<Rightarrow> local_fingerprint \<Rightarrow> event set" where
  "source_calls item input fp =
     {Local (LStatus (ui_source item) RegularFile None), Local (LSize (ui_source item) (Inr (lf_size fp))),
      Local (LTime (ui_source item) (lf_modified fp)), Local (LOpen (ui_source item) (Some input))}"

definition upload_run ::
  "execution_context \<Rightarrow> upload_item \<Rightarrow> unit outcome \<Rightarrow> staging_file list \<Rightarrow> event list \<Rightarrow> staging_file list \<Rightarrow> bool" where
  "upload_run context item =
     upload_from context item (\<lambda>input fp res known. source_calls item input fp \<subseteq> known \<and>
       (\<exists>existing. Remote (RLstat (xc_server_id context) (ui_target item) (Inr existing)) \<in> known \<and> resolved item existing res))"

lemma upload_file_spec: "spec (upload_file env context item) (upload_run context item)"
proof -
  let ?server = "xc_server_id context"
  let ?look = "\<lambda>existing. Remote (RLstat ?server (ui_target item) (Inr existing))"
  have host: "spec m (\<lambda>r st new st'. st' = st \<and> list_all harmless new \<and> (\<forall>x. r = Done x \<longrightarrow> True \<and> {} \<subseteq> set new))"
    if "calm host_event (\<lambda>_. True) m" for m :: "('a, unit) action"
    by (rule spec_mono [OF calm_spec [OF calm_host [OF that]]]) simp
  have body: "spec (upload_body env context item input fp res) (upload_from context item (\<lambda>i f r k. i = input \<and> f = fp \<and> r = res))"
    for input fp res
    by (rule spec_mono [OF upload_body_spec]) (auto simp: upload_from_def)
  have decide: "spec (act_bind (resolve_remote_destination env context item n existing) (upload_body env context item input fp))
    (upload_from context item (\<lambda>i f r k. i = input \<and> f = fp \<and> resolved item existing r))" for n existing input fp
    by (rule upload_step [where G = "resolved item existing" and K = "\<lambda>_. {}" and P = "\<lambda>x i f r k. i = input \<and> f = fp \<and> r = x"])
      (rule spec_mono [OF calm_resolve_remote [unfolded calm_def]], auto intro: body)
  have look: "spec (act_bind (lstat env ?server (ui_target item)) (\<lambda>initial.
      act_bind (resolve_remote_destination env context item n initial) (upload_body env context item input fp)))
    (upload_from context item (\<lambda>i f r k. i = input \<and> f = fp \<and> (\<exists>e. ?look e \<in> k \<and> resolved item e r)))" for n input fp
    by (rule upload_step [where G = "\<lambda>_. True" and K = "\<lambda>e. {?look e}" and P = "\<lambda>e i f r k. i = input \<and> f = fp \<and> resolved item e r"])
      (rule spec_mono [OF lstat_spec], auto intro: decide)
  have started: "spec (act_bind (begin_item env label n) (\<lambda>_. act_bind (lstat env ?server (ui_target item)) (\<lambda>initial.
      act_bind (resolve_remote_destination env context item n' initial) (upload_body env context item input fp))))
    (upload_from context item (\<lambda>i f r k. i = input \<and> f = fp \<and> (\<exists>e. ?look e \<in> k \<and> resolved item e r)))" for label n n' input fp
    by (rule upload_step [where G = "\<lambda>_. True" and K = "\<lambda>_. {}", OF host [OF calm_begin_item] look]) simp_all
  have "spec (act_bind (open_local_source env (ui_source item)) (\<lambda>y. case y of (input, fp) \<Rightarrow>
      act_bind (begin_item env (ui_display_name item) (lf_size fp)) (\<lambda>_. act_bind (lstat env ?server (ui_target item)) (\<lambda>initial.
      act_bind (resolve_remote_destination env context item (lf_size fp) initial) (upload_body env context item input fp)))))
    (upload_run context item)"
    unfolding upload_run_def
  proof (rule upload_step [where G = "\<lambda>_. True" and K = "\<lambda>y. source_calls item (fst y) (snd y)" and
      P = "\<lambda>y i f r k. i = fst y \<and> f = snd y \<and> (\<exists>e. ?look e \<in> k \<and> resolved item e r)"])
    show "spec (case y of (input, fp) \<Rightarrow>
      act_bind (begin_item env (ui_display_name item) (lf_size fp)) (\<lambda>_. act_bind (lstat env ?server (ui_target item)) (\<lambda>initial.
      act_bind (resolve_remote_destination env context item (lf_size fp) initial) (upload_body env context item input fp))))
      (upload_from context item (\<lambda>i f r k. i = fst y \<and> f = snd y \<and> (\<exists>e. ?look e \<in> k \<and> resolved item e r)))" for y
      by (cases y) (simp add: started)
  qed (rule spec_mono [OF open_source_spec], auto simp: source_calls_def source_seen_def)
  then show ?thesis unfolding upload_file_def Let_def upload_body_def [symmetric] .
qed

end
