(* ===== verification/TransferUploadProps.thy ===== *)
theory TransferUploadProps
  imports TransferUploadRun
begin

text \<open>
  What an upload may do, read off the shape of its runs: the publication and the checks before it,
  the paths it touches, and the account of its staging file.
\<close>

subsection \<open>Reading the shape\<close>

fun publishes :: "event \<Rightarrow> bool" where
  "publishes (Remote (RPublish server stage t x)) = True"
| "publishes (Remote (RReplace server stage t x)) = True"
| "publishes _ = False"

lemma harmless_unpublished: "harmless e \<Longrightarrow> \<not> publishes e"
  by (cases e rule: publishes.cases) auto

lemma unpublished:
  "list_all harmless es \<Longrightarrow> list_all (\<lambda>e. \<not> publishes e) es"
  "list_all (probes server tid t i) es \<Longrightarrow> list_all (\<lambda>e. \<not> publishes e) es"
  "list_all (writing w) es \<Longrightarrow> list_all (\<lambda>e. \<not> publishes e) es"
  "list_all (removes server stage) es \<Longrightarrow> list_all (\<lambda>e. \<not> publishes e) es"
  "list_all (stage_event server stage w) es \<Longrightarrow> list_all (\<lambda>e. \<not> publishes e) es"
  by (auto simp: probes_def writing_def removes_def stage_event_def harmless_unpublished elim!: list.pred_mono_strong)

text \<open>The checks an upload passed before the publication \<open>pub\<close>, in their order.\<close>

definition publication_checked :: "execution_context \<Rightarrow> upload_item \<Rightarrow> event list \<Rightarrow> event \<Rightarrow> bool" where
  "publication_checked context item new pub \<longleftrightarrow>
     (let server = xc_server_id context in
      \<exists>before w stage copied settled check t cur post input fp stat.
        new = before @ [Remote (RCreate server stage (Inr w))] @ copied @ settled @ check @
          [Remote (RLstat server t (Inr cur)), pub] @ post \<and>
        list_all (\<lambda>e. \<not> publishes e) (before @ copied @ settled @ check @ post) \<and>
        staged_path (xc_transfer_id context) t (ui_index item) stage \<and> allowed_target item t \<and>
        source_seen (ui_source item) fp before \<and> Local (LOpen (ui_source item) (Some input)) \<in> set before \<and>
        Local (LRead input [] False) \<in> set copied \<and>
        remote_put w (copied @ settled) = local_got input (copied @ settled) \<and>
        of_nat (length (remote_put w (copied @ settled))) = lf_size fp \<and>
        source_seen (ui_source item) fp settled \<and> Remote (RFinish w (Inr ())) \<in> set settled \<and>
        Remote (RLstat server stage (Inr (Some stat))) \<in> set check \<and> rs_kind stat = RemoteFile \<and>
        rs_size stat = lf_size fp \<and>
        remote_hashed server stage (content_revision_hex (remote_put w (copied @ settled))) check \<and>
        (cur = None \<and> (\<exists>x. pub = Remote (RPublish server stage t x)) \<or>
         cur \<noteq> None \<and> (\<exists>x. pub = Remote (RReplace server stage t x)) \<and> t = ui_target item \<and>
           Remote (RLstat server t (Inr cur)) \<in> set before))"

lemma publication_events:
  assumes "publication server stage res x pub" "e \<in> set pub" "publishes e"
  obtains cur where "pub = [Remote (RLstat server (rr_target res) (Inr cur)), e]"
    "rr_choice res = CreateDestination \<and> cur = None \<and> e = Remote (RPublish server stage (rr_target res) x) \<or>
     rr_choice res \<noteq> CreateDestination \<and> cur \<noteq> None \<and> cur = rr_expected res \<and> e = Remote (RReplace server stage (rr_target res) x)"
  using assms unfolding publication_def by fastforce

lemma staged_run_published:
  assumes run: "staged_run context item known input fp res r st new st'"
    and e: "e \<in> set new" "publishes e" and res: "resolved item existing res"
    and known: "source_calls item input fp \<subseteq> known"
      "Remote (RLstat (xc_server_id context) (ui_target item) (Inr existing)) \<in> known"
  shows "publication_checked context item new e"
proof -
  let ?server = "xc_server_id context"
  obtain before p w rest where new: "new = before @ Remote (RCreate ?server p (Inr w)) # rest"
    and before: "list_all (probes ?server (xc_transfer_id context) (rr_target res) (ui_index item)) before" "known \<subseteq> set before"
    and path: "staged_path (xc_transfer_id context) (rr_target res) (ui_index item) p"
    and outcome: "staged_outcome ?server p (ui_source item) w input fp res r rest"
    using run unfolding staged_run_def Let_def by blast
  have "e \<in> set rest"
    using e unpublished(2) [OF before(1)] new by (auto simp: list_all_iff)
  then have "\<not> list_all (stage_event ?server p w) rest"
    using e(2) unpublished(5) by (fastforce simp: list_all_iff)
  then obtain x where "uploaded ?server p (ui_source item) w input fp res x rest"
    using outcome unfolding staged_outcome_def by blast
  then obtain written bytes sha check pub post where rest: "rest = written @ check @ pub @ post"
    and w: "list_all (writing w) written" "streamed (ui_source item) input w fp bytes sha written"
    and c: "list_all harmless check" "verified ?server p bytes sha check"
    and pub: "publication ?server p res x pub" and post: "list_all (removes ?server p) post"
    unfolding uploaded_def delivered_def by fastforce
  have quiet: "list_all (\<lambda>e. \<not> publishes e) (before @ written @ check @ post)"
    using unpublished(2) [OF before(1)] unpublished(3) [OF w(1)] unpublished(1) [OF c(1)] unpublished(4) [OF post] by simp
  then have "e \<in> set pub"
    using \<open>e \<in> set rest\<close> e(2) rest by (auto simp: list_all_iff)
  then obtain cur where cur: "pub = [Remote (RLstat ?server (rr_target res) (Inr cur)), e]"
    "rr_choice res = CreateDestination \<and> cur = None \<and> e = Remote (RPublish ?server p (rr_target res) x) \<or>
     rr_choice res \<noteq> CreateDestination \<and> cur \<noteq> None \<and> cur = rr_expected res \<and> e = Remote (RReplace ?server p (rr_target res) x)"
    using publication_events [OF pub _ e(2)] by blast
  obtain stat where stat: "Remote (RLstat ?server p (Inr (Some stat))) \<in> set check" "rs_kind stat = RemoteFile"
    "rs_size stat = bytes" "remote_hashed ?server p sha check"
    using c(2) unfolding verified_def by blast
  obtain copied settled where written: "written = copied @ settled" "Local (LRead input [] False) \<in> set copied"
    "source_seen (ui_source item) fp settled" "Remote (RFinish w (Inr ())) \<in> set settled"
    using w(2) unfolding streamed_def by blast
  have split: "new = before @ [Remote (RCreate ?server p (Inr w))] @ copied @ settled @ check @
      [Remote (RLstat ?server (rr_target res) (Inr cur)), e] @ post"
    using new rest cur(1) written(1) by simp
  have guard: "cur = None \<and> (\<exists>x. e = Remote (RPublish ?server p (rr_target res) x)) \<or>
      cur \<noteq> None \<and> (\<exists>x. e = Remote (RReplace ?server p (rr_target res) x)) \<and> rr_target res = ui_target item \<and>
      Remote (RLstat ?server (rr_target res) (Inr cur)) \<in> set before"
    using cur(2) res known(2) before(2) unfolding resolved_def by auto
  have source: "source_seen (ui_source item) fp before" "Local (LOpen (ui_source item) (Some input)) \<in> set before"
    using known(1) before(2) by (auto simp: source_calls_def source_seen_def)
  have target: "allowed_target item (rr_target res)" using res unfolding resolved_def by blast
  have sent: "remote_put w (copied @ settled) = local_got input (copied @ settled)"
    "of_nat (length (remote_put w (copied @ settled))) = lf_size fp" "bytes = lf_size fp"
    "sha = content_revision_hex (remote_put w (copied @ settled))"
    using w(2) unfolding streamed_def written(1) by blast+
  show ?thesis
    unfolding publication_checked_def Let_def
    using split quiet [unfolded written(1) append_assoc] path target source sent(1,2) written(2-4) stat [unfolded sent(3,4)] guard by blast
qed

lemma upload_published:
  assumes run: "upload_file env context item s = (r, s')" and log: "ts_log s' = ts_log s @ new"
    and e: "e \<in> set new" "publishes e"
  shows "publication_checked context item new e"
proof -
  have "upload_run context item r (sc_staging (ts_cell s)) new (sc_staging (ts_cell s'))"
    using specE [OF upload_file_spec run] log by auto
  moreover have "\<not> list_all harmless new" "\<not> list_all (probes server tid t i) new" for server tid t i
    using e harmless_unpublished unpublished(2) by (fastforce simp: list_all_iff)+
  ultimately obtain input fp res known existing where "staged_run context item known input fp res r (sc_staging (ts_cell s)) new (sc_staging (ts_cell s'))"
    "source_calls item input fp \<subseteq> known" "resolved item existing res"
    "Remote (RLstat (xc_server_id context) (ui_target item) (Inr existing)) \<in> known"
    unfolding upload_run_def upload_from_def upload_tail_def by blast
  with e show ?thesis using staged_run_published by blast
qed

lemma upload_runs:
  obtains new where "ts_log (snd (upload_file env context item s)) = ts_log s @ new"
    "upload_run context item (fst (upload_file env context item s)) (sc_staging (ts_cell s)) new
       (sc_staging (ts_cell (snd (upload_file env context item s))))"
  by (rule specE [OF upload_file_spec prod.collapse [symmetric]])

lemma checked_once:
  assumes "publication_checked context item new pub"
  shows "filter publishes new = [pub]"
proof -
  have none: "list_all (\<lambda>e. \<not> publishes e) es \<Longrightarrow> filter publishes es = []" for es
    by (simp add: list_all_iff filter_empty_conv)
  from assms show ?thesis
    unfolding publication_checked_def Let_def by (auto simp: none)
qed

text \<open>C3: Every run of an upload publishes at most once, and only a complete and verified copy of a
  source that stayed the same.  Whatever the server, the local file system and the clock answer, a publication comes
  after these steps: the source was found to be a regular file, its size and time were recorded and it was opened; an
  exclusive staging file was created under an owned name next to the target; the source was read to its end and
  all of it written to the stage, as many bytes as the recorded size; after that the source was again a regular file of
  the recorded size and time, and the writer was finished; the stage was found to be a file of that size and read
  back with the SHA-256 of that content; and a look at the target in the call before found it absent (and it is
  published without replacing) or found the entry that stood there before staging (and it is replaced).\<close>

theorem upload_publication_guarded:
  "\<exists>new. ts_log (snd (upload_file env context item s)) = ts_log s @ new \<and>
     length (filter publishes new) \<le> 1 \<and>
     list_all (publication_checked context item new) (filter publishes new)"
proof -
  obtain new where log: "ts_log (snd (upload_file env context item s)) = ts_log s @ new" using upload_runs .
  have checked: "publication_checked context item new e" if "e \<in> set new" "publishes e" for e
    using upload_published [OF prod.collapse [symmetric] log that] .
  have "length (filter publishes new) \<le> 1"
  proof (cases "filter publishes new")
    case (Cons e es)
    then have "e \<in> set new" "publishes e" by (auto dest: filter_eq_ConsD)
    then show ?thesis using checked_once [OF checked] by simp
  qed simp
  with log checked show ?thesis by (auto simp: list_all_iff)
qed

subsection \<open>The paths an upload touches\<close>

definition upload_stage :: "execution_context \<Rightarrow> upload_item \<Rightarrow> string \<Rightarrow> bool" where
  "upload_stage context item p \<longleftrightarrow> (\<exists>t. allowed_target item t \<and> staged_path (xc_transfer_id context) t (ui_index item) p)"

fun upload_permits :: "execution_context \<Rightarrow> upload_item \<Rightarrow> event list \<Rightarrow> event \<Rightarrow> bool" where
  "upload_permits context item new (Remote (RCreate server p x)) \<longleftrightarrow>
     server = xc_server_id context \<and> upload_stage context item p"
| "upload_permits context item new (Remote (RRemove server p x)) \<longleftrightarrow>
     server = xc_server_id context \<and> upload_stage context item p"
| "upload_permits context item new (Remote (RWrite w d x)) \<longleftrightarrow>
     (\<exists>p. Remote (RCreate (xc_server_id context) p (Inr w)) \<in> set new)"
| "upload_permits context item new (Remote (RFinish w x)) \<longleftrightarrow>
     (\<exists>p. Remote (RCreate (xc_server_id context) p (Inr w)) \<in> set new)"
| "upload_permits context item new (Remote (RClose w)) \<longleftrightarrow>
     (\<exists>p. Remote (RCreate (xc_server_id context) p (Inr w)) \<in> set new)"
| "upload_permits context item new (Remote (RPublish server p t x)) \<longleftrightarrow>
     server = xc_server_id context \<and> upload_stage context item p \<and> allowed_target item t"
| "upload_permits context item new (Remote (RReplace server p t x)) \<longleftrightarrow>
     server = xc_server_id context \<and> upload_stage context item p \<and> t = ui_target item"
| "upload_permits context item new _ \<longleftrightarrow> False"

definition tame :: "execution_context \<Rightarrow> upload_item \<Rightarrow> event list \<Rightarrow> event list \<Rightarrow> bool" where
  "tame context item new es \<longleftrightarrow> list_all (\<lambda>e. harmless e \<or> upload_permits context item new e) es"

lemma tame_append: "tame context item new (a @ b) \<longleftrightarrow> tame context item new a \<and> tame context item new b"
  by (simp add: tame_def)

lemma tame_intros:
  assumes t: "allowed_target item t"
  shows "list_all harmless es \<Longrightarrow> tame context item new es"
    and "list_all (probes (xc_server_id context) (xc_transfer_id context) t (ui_index item)) es \<Longrightarrow> tame context item new es"
    and "staged_path (xc_transfer_id context) t (ui_index item) p \<Longrightarrow>
      list_all (removes (xc_server_id context) p) es \<Longrightarrow> tame context item new es"
    and "Remote (RCreate (xc_server_id context) p (Inr w)) \<in> set new \<Longrightarrow> list_all (writing w) es \<Longrightarrow> tame context item new es"
    and "staged_path (xc_transfer_id context) t (ui_index item) p \<Longrightarrow> Remote (RCreate (xc_server_id context) p (Inr w)) \<in> set new \<Longrightarrow>
      list_all (stage_event (xc_server_id context) p w) es \<Longrightarrow> tame context item new es"
  unfolding tame_def using t
  by (auto simp: probes_def removes_def writing_def stage_event_def upload_stage_def elim!: list.pred_mono_strong) blast+

lemma staged_run_tame:
  assumes run: "staged_run context item known input fp res r st new st'" and res: "resolved item existing res"
  shows "tame context item new new"
proof -
  let ?server = "xc_server_id context" and ?t = "rr_target res"
  obtain before p w rest where new: "new = before @ Remote (RCreate ?server p (Inr w)) # rest"
    and before: "list_all (probes ?server (xc_transfer_id context) ?t (ui_index item)) before"
    and path: "staged_path (xc_transfer_id context) ?t (ui_index item) p"
    and outcome: "staged_outcome ?server p (ui_source item) w input fp res r rest"
    using run unfolding staged_run_def Let_def by blast
  have t: "allowed_target item ?t" using res unfolding resolved_def by blast
  have w: "Remote (RCreate ?server p (Inr w)) \<in> set new" using new by simp
  have stage: "upload_stage context item p" using t path unfolding upload_stage_def by blast
  have made: "tame context item new [Remote (RCreate ?server p (Inr w))]" using stage by (simp add: tame_def)
  have "tame context item new rest"
    using outcome unfolding staged_outcome_def
  proof (elim disjE exE conjE)
    fix x
    assume "uploaded ?server p (ui_source item) w input fp res x rest"
    then obtain written check pub post where rest: "rest = written @ check @ pub @ post"
      and parts: "list_all (writing w) written" "list_all harmless check" "list_all (removes ?server p) post"
      and pub: "publication ?server p res x pub"
      unfolding uploaded_def delivered_def by fastforce
    have "tame context item new pub"
      using pub stage t res unfolding publication_def tame_def resolved_def by auto
    with parts show ?thesis unfolding rest tame_append using tame_intros [OF t] path w by blast
  qed (use tame_intros(5) [OF t path w] in blast)
  with made tame_intros(2) [OF t before] show ?thesis by (subst (2) new) (simp add: tame_def)
qed

lemma upload_run_tame:
  assumes run: "upload_run context item r st new st'"
  shows "tame context item new new"
proof -
  have self: "allowed_target item (ui_target item)" by (simp add: allowed_target_def)
  show ?thesis
    using run staged_run_tame tame_intros(1) [OF self] tame_intros(2)
    unfolding upload_run_def upload_from_def upload_tail_def resolved_def by (metis (no_types, lifting) resolved_def)
qed

text \<open>C27: An upload changes nothing on the local side, and on the remote side it only creates and
  removes staging files of this transfer and item next to a target it may write, writes to the
  handle it created, publishes such a stage at the requested target or at a renamed sibling of it,
  and replaces nothing but the requested target.\<close>

theorem upload_confined:
  "\<exists>new. ts_log (snd (upload_file env context item s)) = ts_log s @ new \<and>
     list_all (upload_permits context item new) (filter changing new)"
proof -
  obtain new where log: "ts_log (snd (upload_file env context item s)) = ts_log s @ new"
    and run: "upload_run context item (fst (upload_file env context item s)) (sc_staging (ts_cell s)) new
       (sc_staging (ts_cell (snd (upload_file env context item s))))" using upload_runs .
  have "tame context item new new" using run by (rule upload_run_tame)
  with log show ?thesis unfolding tame_def by (auto simp: list_all_iff)
qed

subsection \<open>Success\<close>

fun published_well :: "event \<Rightarrow> bool" where
  "published_well (Remote (RPublish server p t x)) \<longleftrightarrow> x = Inr ()"
| "published_well (Remote (RReplace server p t x)) \<longleftrightarrow> x = Inr ()"
| "published_well _ \<longleftrightarrow> False"

lemma staged_run_done:
  assumes run: "staged_run context item known input fp res (Done u) st new st'"
  shows "\<exists>pub. pub \<in> set new \<and> publishes pub \<and> published_well pub"
proof -
  obtain before p w rest where new: "new = before @ Remote (RCreate (xc_server_id context) p (Inr w)) # rest"
    and outcome: "staged_outcome (xc_server_id context) p (ui_source item) w input fp res (Done u) rest"
    using run unfolding staged_run_def Let_def by blast
  from outcome have "uploaded (xc_server_id context) p (ui_source item) w input fp res (Inr ()) rest"
    unfolding staged_outcome_def by auto
  then have "\<exists>pub. pub \<in> set rest \<and> publishes pub \<and> published_well pub"
    unfolding uploaded_def delivered_def publication_def by fastforce
  with new show ?thesis by auto
qed

text \<open>C20: An upload that returns has either published its verified stage and was told so, or skipped
  the item: then the target was occupied and nothing was changed anywhere.\<close>

theorem upload_success:
  "case upload_file env context item s of
     (Done u, s') \<Rightarrow>
       \<exists>new. ts_log s' = ts_log s @ new \<and>
         ((\<exists>pub. filter publishes new = [pub] \<and> published_well pub \<and> publication_checked context item new pub) \<or>
          list_all harmless new \<and>
          (\<exists>stat. Remote (RLstat (xc_server_id context) (ui_target item) (Inr (Some stat))) \<in> set new))
   | (_, s') \<Rightarrow> True"
proof (cases "fst (upload_file env context item s)")
  case (Done u)
  obtain new where log: "ts_log (snd (upload_file env context item s)) = ts_log s @ new"
    and run: "upload_run context item (fst (upload_file env context item s)) (sc_staging (ts_cell s)) new
       (sc_staging (ts_cell (snd (upload_file env context item s))))" using upload_runs .
  have "(\<exists>pub. filter publishes new = [pub] \<and> published_well pub \<and> publication_checked context item new pub) \<or>
      list_all harmless new \<and> (\<exists>stat. Remote (RLstat (xc_server_id context) (ui_target item) (Inr (Some stat))) \<in> set new)"
  proof (cases "list_all harmless new")
    case True
    then have "\<not> staged_run context item known input fp res (Done u) st new st'" for known input fp res st st'
      using staged_run_done harmless_unpublished by (metis list_all_iff)
    with run Done obtain existing known res where "Remote (RLstat (xc_server_id context) (ui_target item) (Inr existing)) \<in> known"
        "known \<subseteq> set new" "resolved item existing res" "rr_choice res = SkipDestination"
      unfolding upload_run_def upload_from_def upload_tail_def by auto
    with True show ?thesis unfolding resolved_def by auto
  next
    case False
    with run Done obtain known input fp res where "staged_run context item known input fp res (Done u) (sc_staging (ts_cell s)) new
       (sc_staging (ts_cell (snd (upload_file env context item s))))"
      unfolding upload_run_def upload_from_def upload_tail_def by auto
    then obtain pub where pub: "pub \<in> set new" "publishes pub" "published_well pub" using staged_run_done by blast
    have "publication_checked context item new pub"
      using upload_published [OF prod.collapse [symmetric] log pub(1,2)] .
    with pub(3) checked_once show ?thesis by blast
  qed
  with log Done show ?thesis by (auto split: prod.split)
qed (auto split: prod.split)

subsection \<open>The account of the staging files\<close>

definition stage_left :: "event list \<Rightarrow> staging_file \<Rightarrow> bool" where
  "stage_left es a \<longleftrightarrow>
     remote_gone (sf_server_id a) (sf_path a) es \<or>
     (\<exists>t. Remote (RReplace (sf_server_id a) (sf_path a) t (Inr ())) \<in> set es)"

text \<open>Every stage created in \<open>es\<close> is in the inventory \<open>st\<close>, or it left its path later.\<close>

fun stages_accounted :: "64 word \<Rightarrow> staging_file list \<Rightarrow> event list \<Rightarrow> bool" where
  "stages_accounted i st [] \<longleftrightarrow> True"
| "stages_accounted i st (Remote (RCreate server p (Inr w)) # es) \<longleftrightarrow>
     (remote_artifact server p i \<in> set st \<or> stage_left es (remote_artifact server p i)) \<and> stages_accounted i st es"
| "stages_accounted i st (e # es) \<longleftrightarrow> stages_accounted i st es"

fun creates :: "event \<Rightarrow> bool" where
  "creates (Remote (RCreate server p (Inr w))) = True"
| "creates _ = False"

lemma harmless_uncreated: "harmless e \<Longrightarrow> \<not> creates e"
  by (cases e rule: creates.cases) auto

lemma accounted_none: "list_all (\<lambda>e. \<not> creates e) es \<Longrightarrow> stages_accounted i st (es @ more') \<longleftrightarrow> stages_accounted i st more'"
proof (induction es)
  case (Cons e es)
  then show ?case by (cases "(i, st, e # es)" rule: stages_accounted.cases) auto
qed simp

lemma uncreated:
  "list_all harmless es \<Longrightarrow> list_all (\<lambda>e. \<not> creates e) es"
  "list_all (probes server tid t i) es \<Longrightarrow> list_all (\<lambda>e. \<not> creates e) es"
  "list_all (writing w) es \<Longrightarrow> list_all (\<lambda>e. \<not> creates e) es"
  "list_all (removes server stage) es \<Longrightarrow> list_all (\<lambda>e. \<not> creates e) es"
  "list_all (stage_event server stage w) es \<Longrightarrow> list_all (\<lambda>e. \<not> creates e) es"
  by (auto simp: probes_def writing_def removes_def stage_event_def harmless_uncreated elim!: list.pred_mono_strong)

lemma uncreated_outcome: "staged_outcome server p source w input fp res r rest \<Longrightarrow> list_all (\<lambda>e. \<not> creates e) rest"
  unfolding staged_outcome_def uploaded_def delivered_def publication_def
  by (elim disjE exE conjE) (auto simp: uncreated)

lemma upload_run_cases:
  assumes "upload_run context item r st new st'"
  obtains "st' = st" "list_all (\<lambda>e. \<not> creates e) new"
    | known input fp res where "staged_run context item known input fp res r st new st'"
  using assms uncreated(1) [of new] uncreated(2) [of _ _ _ _ new] unfolding upload_run_def upload_from_def upload_tail_def by metis

text \<open>C6: A staging file is never forgotten.  After any run of an upload, also one that ended with an
  exception or not at all, every staging file it created is in the recorded inventory, unless it was
  later removed, seen absent or renamed over the target; and a record that was there before is
  dropped only for such a reason.\<close>

theorem staging_accounted:
  "\<exists>new. ts_log (snd (upload_file env context item s)) = ts_log s @ new \<and>
     stages_accounted (ui_index item) (sc_staging (ts_cell (snd (upload_file env context item s)))) new \<and>
     list_all (\<lambda>a. a \<in> set (sc_staging (ts_cell (snd (upload_file env context item s)))) \<or> stage_left new a)
       (sc_staging (ts_cell s))"
proof -
  let ?st = "sc_staging (ts_cell s)" and ?st' = "sc_staging (ts_cell (snd (upload_file env context item s)))"
  obtain new where log: "ts_log (snd (upload_file env context item s)) = ts_log s @ new"
    and run: "upload_run context item (fst (upload_file env context item s)) ?st new ?st'" using upload_runs .
  have "stages_accounted (ui_index item) ?st' new \<and> list_all (\<lambda>a. a \<in> set ?st' \<or> stage_left new a) ?st"
    using run
  proof (cases rule: upload_run_cases)
    case 1
    then show ?thesis using accounted_none [of new _ _ "[]"] by (simp add: list_all_iff)
  next
    case (2 known input fp res)
    then obtain before p w rest where new: "new = before @ Remote (RCreate (xc_server_id context) p (Inr w)) # rest"
      and probing: "list_all (probes (xc_server_id context) (xc_transfer_id context) (rr_target res) (ui_index item)) before"
      and outcome: "staged_outcome (xc_server_id context) p (ui_source item) w input fp res (fst (upload_file env context item s)) rest"
      and account: "accounted (xc_server_id context) p (rr_target res) (remote_artifact (xc_server_id context) p (ui_index item))
         (?st @ [remote_artifact (xc_server_id context) p (ui_index item)]) rest ?st'"
      unfolding staged_run_def Let_def by blast
    note before = uncreated(2) [OF probing] uncreated_outcome [OF outcome]
    let ?a = "remote_artifact (xc_server_id context) p (ui_index item)"
    have left: "?st' = ?st @ [?a] \<or> ?st' = filter (\<lambda>x. x \<noteq> ?a) (?st @ [?a]) \<and> stage_left rest ?a"
      using account unfolding accounted_def released_def stage_left_def by (auto simp: remote_artifact_def)
    have grow: "stage_left rest ?a \<Longrightarrow> stage_left new ?a"
      unfolding new stage_left_def remote_gone_def by auto
    have "stages_accounted (ui_index item) ?st' new \<longleftrightarrow> ?a \<in> set ?st' \<or> stage_left rest ?a"
      unfolding new accounted_none [OF before(1)] using accounted_none [OF before(2), of _ _ "[]"] by simp
    with left grow show ?thesis by (auto simp: list_all_iff)
  qed
  with log show ?thesis by blast
qed

end
