(* ===== verification/TransferDownloadProps.thy ===== *)
theory TransferDownloadProps
  imports TransferDownload TransferEnds TransferUploadProps
begin

text \<open>
  What a download may publish and after which checks, and when a transfer of a file ends.
\<close>

fun publishes_local :: "event \<Rightarrow> bool" where
  "publishes_local (Local (LLink stage t ok)) = True"
| "publishes_local (Local (LReplace stage t ok)) = True"
| "publishes_local _ = False"

lemma harmless_unpublished_local: "harmless e \<Longrightarrow> \<not> publishes_local e"
  by (cases e rule: publishes_local.cases) auto

lemma unpublished_local:
  "list_all harmless es \<Longrightarrow> list_all (\<lambda>e. \<not> publishes_local e) es"
  "list_all tries_local es \<Longrightarrow> list_all (\<lambda>e. \<not> publishes_local e) es"
  "list_all (filling w) es \<Longrightarrow> list_all (\<lambda>e. \<not> publishes_local e) es"
  "list_all (removes_local stage) es \<Longrightarrow> list_all (\<lambda>e. \<not> publishes_local e) es"
  "list_all (local_stage_event stage w) es \<Longrightarrow> list_all (\<lambda>e. \<not> publishes_local e) es"
  by (auto simp: tries_local_def filling_def removes_local_def local_stage_event_def harmless_unpublished_local
      elim!: list.pred_mono_strong)

text \<open>The look at the target in the calls before the publication \<open>pub\<close>.\<close>

definition target_guard :: "string \<Rightarrow> string \<Rightarrow> download_item \<Rightarrow> event list \<Rightarrow> event list \<Rightarrow> event \<Rightarrow> bool" where
  "target_guard stage t item before look pub \<longleftrightarrow>
     (\<exists>ty e ok. status_missing ty e \<and> look = [Local (LStatus t ty e)] \<and> pub = Local (LLink stage t ok)) \<or>
     (\<exists>bytes modified ok. look = [Local (LStatus t RegularFile None), Local (LSize t (Inr bytes)), Local (LTime t modified)] \<and>
        pub = Local (LReplace stage t ok) \<and> t = di_initial_target item \<and>
        Local (LSize t (Inr bytes)) \<in> set before \<and> Local (LTime t modified) \<in> set before)"

definition download_publication_checked ::
  "'w transfer_env \<Rightarrow> execution_context \<Rightarrow> download_item \<Rightarrow> event list \<Rightarrow> event \<Rightarrow> bool" where
  "download_publication_checked env context item new pub \<longleftrightarrow>
     (let server = xc_server_id context; source = di_source item; stat = di_initial_stat item in
      \<exists>tid before stage w written one two look post t h.
        new = before @ [Local (LCreate stage (Opened w))] @ written @ one @ two @
          [Remote (RLstat server source (Inr (Some stat)))] @ look @ [pub] @ post \<and>
        list_all (\<lambda>e. \<not> publishes_local e) (before @ written @ one @ two @ post) \<and>
        local_staged_path env tid t (di_index item) stage \<and> allowed_local env item t \<and>
        Remote (ROpenRead server source (Inr h)) \<in> set written \<and> local_put w written = remote_got h written \<and>
        of_nat (length (local_put w written)) = rs_size stat \<and>
        Local (LFlush w True) \<in> set written \<and> Local (LFinish w True) \<in> set written \<and>
        local_hashed stage (content_revision_hex (local_put w written)) one \<and>
        remote_hashed server source (content_revision_hex (local_put w written)) two \<and>
        target_guard stage t item before look pub)"

lemma local_publication_split:
  assumes pub: "local_publication stage res ok es" and e: "e \<in> set es" "publishes_local e" and choice: "lr_choice res \<noteq> SkipDestination"
    and seen: "lr_choice res = ReplaceDestination \<longrightarrow> target_seen item res before"
  obtains look where "es = look @ [e]" "target_guard stage (lr_target res) item before look e" "list_all harmless look"
  using pub unfolding local_publication_def
proof (elim disjE exE conjE)
  fix t u
  assume "lr_choice res = CreateDestination" "status_missing t u"
    "es = [Local (LStatus (lr_target res) t u), Local (LLink stage (lr_target res) ok)]"
  then show thesis using e that [of "[Local (LStatus (lr_target res) t u)]"] by (auto simp: target_guard_def)
next
  fix expected t u
  assume x: "lr_choice res \<noteq> CreateDestination" "lr_expected res = Some expected" "u = None" "t = RegularFile"
    "es = [Local (LStatus (lr_target res) t u), Local (LSize (lr_target res) (Inr (lf_size expected))),
              Local (LTime (lr_target res) (lf_modified expected)), Local (LReplace stage (lr_target res) ok)]"
  then have "target_seen item res before" using seen choice by (cases "lr_choice res") auto
  then show thesis
    using x e that [of "[Local (LStatus (lr_target res) t u), Local (LSize (lr_target res) (Inr (lf_size expected))),
              Local (LTime (lr_target res) (lf_modified expected))]"]
    by (auto simp: target_guard_def target_seen_def)
qed

lemma download_tail_published:
  assumes run: "download_tail env context item res (\<lambda>es. lr_choice res = ReplaceDestination \<longrightarrow> target_seen item res es) r new"
    and t: "allowed_local env item (lr_target res)" and e: "e \<in> set new" "publishes_local e"
  shows "download_publication_checked env context item new e"
proof -
  let ?server = "xc_server_id context"
  let ?last = "Remote (RLstat ?server (di_source item) (Inr (Some (di_initial_stat item))))"
  obtain tid before p w rest where new: "new = before @ Local (LCreate p (Opened w)) # rest" and before: "list_all tries_local before"
    and known: "lr_choice res = ReplaceDestination \<longrightarrow> target_seen item res before"
    and path: "local_staged_path env tid (lr_target res) (di_index item) p"
    and choice: "lr_choice res \<noteq> SkipDestination" and outcome: "download_outcome ?server item p w res r rest"
    using run unfolding download_tail_def by (elim exE conjE)
  have "e \<in> set rest" using e unpublished_local(2) [OF before] new by (auto simp: list_all_iff)
  then have "\<not> list_all (local_stage_event p w) rest" using e(2) unpublished_local(5) by (fastforce simp: list_all_iff)
  then obtain ok where "downloaded ?server item p w res ok rest" using outcome unfolding download_outcome_def by blast
  then obtain written check sha where rest: "rest = written @ check" and written: "list_all (filling w) written" "fetched ?server item w sha written"
    and "delivered_local ?server item p res sha ok check" unfolding downloaded_def by (elim exE conjE)
  then obtain inspect pub tail where check: "check = inspect @ pub @ tail" and parts: "list_all harmless inspect" "list_all (removes_local p) tail"
    and verified: "verified_download ?server item p sha inspect" and pub: "local_publication p res ok pub"
    unfolding delivered_local_def by (elim exE conjE)
  obtain one two where inspect: "inspect = one @ two @ [?last]" and hashes: "local_hashed p sha one" "remote_hashed ?server (di_source item) sha two"
    using verified unfolding verified_download_def by (elim exE conjE)
  have "e \<in> set pub"
    using \<open>e \<in> set rest\<close> e(2) unpublished_local(3) [OF written(1)] unpublished_local(1) [OF parts(1)] unpublished_local(4) [OF parts(2)]
    by (auto simp: rest check list_all_iff)
  then obtain look where look: "pub = look @ [e]" "target_guard p (lr_target res) item before look e" "list_all harmless look"
    using local_publication_split [OF pub _ e(2) choice known] by blast
  have split: "new = before @ [Local (LCreate p (Opened w))] @ written @ one @ two @ [?last] @ look @ [e] @ tail"
    by (simp add: new rest check inspect look(1))
  have quiet: "list_all (\<lambda>e. \<not> publishes_local e) (before @ written @ one @ two @ tail)"
    using unpublished_local(2) [OF before] unpublished_local(3) [OF written(1)] unpublished_local(1) [OF parts(1)] unpublished_local(4) [OF parts(2)]
    by (simp add: inspect)
  obtain h where h: "Remote (ROpenRead ?server (di_source item) (Inr h)) \<in> set written" "local_put w written = remote_got h written"
    and sent: "of_nat (length (local_put w written)) = rs_size (di_initial_stat item)" "sha = content_revision_hex (local_put w written)"
      "Local (LFlush w True) \<in> set written" "Local (LFinish w True) \<in> set written"
    using written(2) unfolding fetched_def by blast
  show ?thesis
    unfolding download_publication_checked_def Let_def
    using split quiet path t h sent(1,3,4) hashes [unfolded sent(2)] look(2) by blast
qed

text \<open>C11: Every run of a download publishes at most once, and only after these checks: an exclusive
  staging file next to the target was created; everything read from the opened remote source was
  written to it, as many bytes as the entry listed, and it was flushed and closed without an error;
  the staging file was read back and the source was read a second time, both with the SHA-256 of the
  written content; the source's entry was found unchanged; and in the calls just before, the target
  was absent (a hard link that cannot replace) or was a regular file of the size and time seen when
  the replacement was decided.\<close>

theorem download_publication_guarded:
  "\<exists>new. ts_log (snd (download_file env context item s)) = ts_log s @ new \<and>
     length (filter publishes_local new) \<le> 1 \<and>
     list_all (download_publication_checked env context item new) (filter publishes_local new)"
proof -
  obtain new where log: "ts_log (snd (download_file env context item s)) = ts_log s @ new"
    and run: "download_run env context item (fst (download_file env context item s)) new"
    by (rule specE [OF download_file_spec prod.collapse [symmetric]])
  have checked: "download_publication_checked env context item new e" if e: "e \<in> set new" "publishes_local e" for e
  proof -
    have "\<not> list_all tries_local new" using e unpublished_local(2) by (fastforce simp: list_all_iff)
    with run e show ?thesis using download_tail_published unfolding download_run_def by blast
  qed
  have none: "list_all (\<lambda>e. \<not> publishes_local e) es \<Longrightarrow> filter publishes_local es = []" for es
    by (simp add: list_all_iff filter_empty_conv)
  have "length (filter publishes_local new) \<le> 1"
  proof (cases "filter publishes_local new")
    case (Cons e es)
    then have "e \<in> set new" "publishes_local e" by (auto dest: filter_eq_ConsD)
    from checked [OF this] show ?thesis
      unfolding download_publication_checked_def target_guard_def Let_def by (auto simp: none)
  qed simp
  with log checked show ?thesis by (auto simp: list_all_iff)
qed

lemma ends_result:
  assumes "ends n m"
  shows "case m s of (Hung, s') \<Rightarrow> \<exists>new. ts_log s' = ts_log s @ new \<and> busy n new | _ \<Rightarrow> True"
proof (cases "m s")
  case (Pair r s')
  then show ?thesis using specE [OF assms [unfolded ends_def] Pair] by (cases r) auto
qed

text \<open>C36: The transfer of a file ends.  The copy, hash and waiting loops only go on while the other
  side feeds them: a run that has not ended after the fuel \<open>n\<close> of the environment has read \<open>n\<close>
  non-empty chunks of a local file, \<open>n\<close> non-empty chunks of a remote file, or polled \<open>n\<close> times for a
  conflict decision; so with files of fewer chunks and a decision or a cancellation in time, the
  upload and the download return or raise.\<close>

theorem transfer_ends:
  "(case upload_file env context item s of
      (Hung, s') \<Rightarrow> \<exists>new. ts_log s' = ts_log s @ new \<and> busy (env_fuel env) new
    | _ \<Rightarrow> True) \<and>
   (case download_file env context item' s of
      (Hung, s') \<Rightarrow> \<exists>new. ts_log s' = ts_log s @ new \<and> busy (env_fuel env) new
    | _ \<Rightarrow> True)"
  by (intro conjI ends_result ends_upload_file ends_download_file)

end
