(* ===== verification/TransferBatch.thy ===== *)
theory TransferBatch
  imports TransferFile
begin

text \<open>
  \<^verbatim>\<open>upload_batch\<close> and \<^verbatim>\<open>download_batch\<close> of
  \<^verbatim>\<open>src/native/desktop_host/src/transfer_manager.cpp\<close>: the selected sources in their order, and
  below a directory the depth-first walk with an explicit stack.  An error of one entry is pushed
  as a failure and the walk goes on; the walk ends when the stack is empty or the transfer is
  cancelled, so it takes the fuel of the environment as the number of its rounds.
\<close>

subsection \<open>Failures and files\<close>

definition note_failure :: "'w transfer_env \<Rightarrow> 64 word option \<Rightarrow> string \<Rightarrow> transfer_error_code \<Rightarrow> string \<Rightarrow> ('w, unit) action" where
  "note_failure env item_index item code message = push_failure env (failure_for item_index item code message None)"

text \<open>\<^verbatim>\<open>try { m } catch (const TransferError&) { push_failure; continue; }\<close> and what follows it.\<close>

definition try_else_note ::
  "'w transfer_env \<Rightarrow> 64 word option \<Rightarrow> string \<Rightarrow> ('w, 'a) action \<Rightarrow> 'b \<Rightarrow> ('a \<Rightarrow> ('w, 'b) action) \<Rightarrow> ('w, 'b) action" where
  "try_else_note env item_index item m skipped k =
     act_bind (attempt m) (\<lambda>r.
     case r of
       Inl (code, message) \<Rightarrow> act_bind (note_failure env item_index item code message) (\<lambda>_. act_return skipped)
     | Inr x \<Rightarrow> k x)"

definition note_and_skip :: "'w transfer_env \<Rightarrow> string \<Rightarrow> transfer_error_code \<Rightarrow> string \<Rightarrow> 'b \<Rightarrow> ('w, 'b) action" where
  "note_and_skip env item code message skipped =
     act_bind (note_failure env None item code message) (\<lambda>_. act_return skipped)"

definition links_not_followed :: string where
  "links_not_followed = ''symbolic links and reparse points are not followed''"

definition special_not_transferred :: string where
  "special_not_transferred = ''special files cannot be transferred''"

definition remote_special_not_transferred :: string where
  "remote_special_not_transferred = ''symbolic links and special files are not transferred''"

definition upload_entry ::
  "'w transfer_env \<Rightarrow> execution_context \<Rightarrow> string \<Rightarrow> string \<Rightarrow> string \<Rightarrow> ('w, unit) action" where
  "upload_entry env context source target display =
     act_bind (file_size env source) (\<lambda>found.
     act_bind (allocate_file env (case found of Inr bytes \<Rightarrow> bytes | Inl _ \<Rightarrow> 0)) (\<lambda>index.
     try_else_note env (Some index) display
       (upload_file env context \<lparr>ui_source = source, ui_target = target, ui_display_name = display, ui_index = index\<rparr>)
       () act_return))"

definition download_entry ::
  "'w transfer_env \<Rightarrow> execution_context \<Rightarrow> string \<Rightarrow> string \<Rightarrow> string \<Rightarrow> string \<Rightarrow> remote_stat \<Rightarrow> ('w, unit) action" where
  "download_entry env context source target display label stat =
     act_bind (allocate_file env (rs_size stat)) (\<lambda>index.
     try_else_note env (Some index) label
       (download_file env context
          \<lparr>di_source = source, di_initial_target = target, di_display_name = display, di_initial_stat = stat, di_index = index\<rparr>)
       () act_return)"

subsection \<open>Upload\<close>

record upload_frame =
  uf_local :: string
  uf_remote :: string
  uf_prefix :: string

text \<open>One directory entry; the result is the frame it pushes.\<close>

definition upload_child :: "'w transfer_env \<Rightarrow> execution_context \<Rightarrow> upload_frame \<Rightarrow> string \<Rightarrow> ('w, upload_frame option) action" where
  "upload_child env context frame child =
     (let name = te_filename (env_paths env) child; display = uf_prefix frame @ ''/'' @ name in
      if name = [] then note_and_skip env (uf_prefix frame) ErrInvalidInput ''directory entry name is not UTF-8'' None
      else
        try_else_note env None name (safe_name name) None (\<lambda>_.
        act_bind (symlink_status env child) (\<lambda>(t, e).
        if e \<noteq> None \<or> t = NotFound then note_and_skip env name ErrLocal ''could not inspect the local entry'' None
        else if t = SymlinkFile then note_and_skip env display ErrInvalidInput links_not_followed None
        else
          try_else_note env None name (remote_child_checked (uf_remote frame) name) None (\<lambda>target.
          if t = DirectoryFile then
            try_else_note env None display (ensure_remote_directory env (xc_server_id context) target) None (\<lambda>_.
            act_return (Some \<lparr>uf_local = child, uf_remote = target, uf_prefix = display\<rparr>))
          else if t = RegularFile then act_bind (upload_entry env context child target display) (\<lambda>_. act_return None)
          else note_and_skip env display ErrInvalidInput special_not_transferred None))))"

fun upload_children ::
  "'w transfer_env \<Rightarrow> execution_context \<Rightarrow> upload_frame \<Rightarrow> string list \<Rightarrow> upload_frame list \<Rightarrow> ('w, upload_frame list) action" where
  "upload_children env context frame [] stack = act_return stack"
| "upload_children env context frame (child # children) stack =
     act_bind (upload_child env context frame child) (\<lambda>pushed.
     upload_children env context frame children (case pushed of Some f \<Rightarrow> f # stack | None \<Rightarrow> stack))"

fun upload_walk :: "'w transfer_env \<Rightarrow> execution_context \<Rightarrow> nat \<Rightarrow> upload_frame list \<Rightarrow> ('w, unit) action" where
  "upload_walk env context n [] = act_return ()"
| "upload_walk env context 0 (frame # stack) = act_hang"
| "upload_walk env context (Suc n) (frame # stack) =
     act_bind (cancelled env) (\<lambda>stop.
     if stop then act_return ()
     else
       act_bind (try_else_note env None (uf_prefix frame) (read_local_directory env (uf_local frame)) stack
         (\<lambda>children. upload_children env context frame (rev children) stack))
       (upload_walk env context n))"

definition upload_source :: "'w transfer_env \<Rightarrow> execution_context \<Rightarrow> string \<Rightarrow> string \<Rightarrow> ('w, unit) action" where
  "upload_source env context remote_dir source =
     (let name = te_filename (env_paths env) source in
      if name = [] then note_and_skip env ''selected source file'' ErrInvalidInput ''local path has no portable UTF-8 name'' ()
      else
        try_else_note env None name (safe_name name) () (\<lambda>_.
        act_bind (symlink_status env source) (\<lambda>(t, e).
        if e \<noteq> None \<and> e \<noteq> Some NoSuchFile
        then note_and_skip env name ErrLocal
          (''could not inspect the local source: '' @ (case e of Some err \<Rightarrow> os_message err | None \<Rightarrow> [])) ()
        else if t = NotFound then note_and_skip env name ErrLocal ''could not inspect the local source'' ()
        else if t = SymlinkFile then note_and_skip env name ErrInvalidInput links_not_followed ()
        else
          try_else_note env None name (remote_child_checked remote_dir name) () (\<lambda>root.
          if t = RegularFile then upload_entry env context source root name
          else if t = DirectoryFile then
            try_else_note env None name (ensure_remote_directory env (xc_server_id context) root) () (\<lambda>_.
            upload_walk env context (env_fuel env) [\<lparr>uf_local = source, uf_remote = root, uf_prefix = name\<rparr>])
          else note_and_skip env name ErrInvalidInput special_not_transferred ()))))"

fun upload_sources :: "'w transfer_env \<Rightarrow> execution_context \<Rightarrow> string \<Rightarrow> string list \<Rightarrow> ('w, unit) action" where
  "upload_sources env context remote_dir [] = act_return ()"
| "upload_sources env context remote_dir (source # sources) =
     act_bind (cancelled env) (\<lambda>stop.
     if stop then act_return ()
     else act_bind (upload_source env context remote_dir source) (\<lambda>_. upload_sources env context remote_dir sources))"

definition upload_batch :: "'w transfer_env \<Rightarrow> execution_context \<Rightarrow> string \<Rightarrow> string list \<Rightarrow> ('w, unit) action" where
  "upload_batch env context remote_dir local_paths =
     try_else_note env None remote_dir (ensure_remote_directory env (xc_server_id context) remote_dir) () (\<lambda>_.
     upload_sources env context remote_dir local_paths)"

subsection \<open>Download\<close>

record download_frame =
  df_remote :: string
  df_target :: string
  df_prefix :: string

definition download_child ::
  "'w transfer_env \<Rightarrow> execution_context \<Rightarrow> download_frame \<Rightarrow> string \<Rightarrow> ('w, download_frame option) action" where
  "download_child env context frame name =
     (if name = ''.'' \<or> name = ''..'' then act_return None
      else
        try_else_note env None name (safe_name name) None (\<lambda>_.
        try_else_note env None name (remote_child_checked (df_remote frame) name) None (\<lambda>child.
        try_else_note env None child (lstat env (xc_server_id context) child) None (\<lambda>found.
        case found of
          None \<Rightarrow> note_and_skip env child ErrRemote ''entry disappeared during traversal'' None
        | Some stat \<Rightarrow>
            (let target = te_join (env_paths env) (df_target frame) name; display = df_prefix frame @ ''/'' @ name in
             if rs_kind stat = RemoteDirectory then
               try_else_note env None display (ensure_local_directory env target) None (\<lambda>_.
               act_return (Some \<lparr>df_remote = child, df_target = target, df_prefix = display\<rparr>))
             else if rs_kind stat = RemoteFile then
               act_bind (download_entry env context child target display display stat) (\<lambda>_. act_return None)
             else note_and_skip env display ErrInvalidInput remote_special_not_transferred None)))))"

fun download_children ::
  "'w transfer_env \<Rightarrow> execution_context \<Rightarrow> download_frame \<Rightarrow> string list \<Rightarrow> download_frame list \<Rightarrow> ('w, download_frame list) action" where
  "download_children env context frame [] stack = act_return stack"
| "download_children env context frame (name # names) stack =
     act_bind (download_child env context frame name) (\<lambda>pushed.
     download_children env context frame names (case pushed of Some f \<Rightarrow> f # stack | None \<Rightarrow> stack))"

fun download_walk :: "'w transfer_env \<Rightarrow> execution_context \<Rightarrow> nat \<Rightarrow> download_frame list \<Rightarrow> ('w, unit) action" where
  "download_walk env context n [] = act_return ()"
| "download_walk env context 0 (frame # stack) = act_hang"
| "download_walk env context (Suc n) (frame # stack) =
     act_bind (cancelled env) (\<lambda>stop.
     if stop then act_return ()
     else
       act_bind (try_else_note env None (df_prefix frame) (list_dir env (xc_server_id context) (df_remote frame)) stack
         (\<lambda>entries. download_children env context frame (rev (map fst entries)) stack))
       (download_walk env context n))"

definition download_source :: "'w transfer_env \<Rightarrow> execution_context \<Rightarrow> string \<Rightarrow> string \<Rightarrow> ('w, unit) action" where
  "download_source env context local_dir source =
     (let name = basename_of source in
      try_else_note env None source (safe_name name) () (\<lambda>_.
      try_else_note env None source (lstat env (xc_server_id context) source) () (\<lambda>found.
      case found of
        None \<Rightarrow> note_and_skip env source ErrRemote ''source does not exist'' ()
      | Some stat \<Rightarrow>
          (let target = te_join (env_paths env) local_dir name in
           if rs_kind stat = RemoteFile then download_entry env context source target name source stat
           else if rs_kind stat = RemoteDirectory then
             try_else_note env None source (ensure_local_directory env target) () (\<lambda>_.
             download_walk env context (env_fuel env) [\<lparr>df_remote = source, df_target = target, df_prefix = name\<rparr>])
           else note_and_skip env source ErrInvalidInput remote_special_not_transferred ()))))"

fun download_sources :: "'w transfer_env \<Rightarrow> execution_context \<Rightarrow> string \<Rightarrow> string list \<Rightarrow> ('w, unit) action" where
  "download_sources env context local_dir [] = act_return ()"
| "download_sources env context local_dir (source # sources) =
     act_bind (cancelled env) (\<lambda>stop.
     if stop then act_return ()
     else act_bind (download_source env context local_dir source) (\<lambda>_. download_sources env context local_dir sources))"

definition download_batch :: "'w transfer_env \<Rightarrow> execution_context \<Rightarrow> string list \<Rightarrow> string \<Rightarrow> ('w, unit) action" where
  "download_batch env context remote_paths local_dir =
     try_else_note env None ''local download destination'' (ensure_download_directory env local_dir) () (\<lambda>_.
     download_sources env context local_dir remote_paths)"

subsection \<open>A job\<close>

text \<open>The status \<^verbatim>\<open>run_job\<close> ends with, from the cancellation flag and the snapshot.\<close>

definition final_status :: "bool \<Rightarrow> transfer_snapshot \<Rightarrow> transfer_status" where
  "final_status stopped sn =
     (if stopped then Cancelled
      else if sn_failures sn \<noteq> [] \<or> 0 < sn_skipped_files sn
      then (if 0 < sn_completed_files sn \<or> 0 < sn_skipped_files sn then Partial else Failed)
      else Completed)"

definition conclude_job :: "'w transfer_env \<Rightarrow> ('w, unit) action" where
  "conclude_job env =
     act_bind the_cell (\<lambda>c.
     act_bind (cancelled env) (\<lambda>stopped.
     finalize_status env (final_status stopped (sc_snapshot c))))"

text \<open>\<^verbatim>\<open>run_job\<close> after \<^verbatim>\<open>permits.acquire\<close> answered \<open>acquired\<close>.\<close>

definition run_job :: "'w transfer_env \<Rightarrow> bool \<Rightarrow> ('w, unit) action \<Rightarrow> ('w, unit) action" where
  "run_job env acquired work =
     (if \<not> acquired then finalize_status env Cancelled
      else
        act_bind (cancelled env) (\<lambda>early.
        act_bind (cell_write env False (\<lambda>sn. sn\<lparr>sn_status := (if early then Cancelled else Running)\<rparr>)) (\<lambda>_.
        if early then act_return ()
        else act_bind work (\<lambda>_. conclude_job env))))"

definition fail_job :: "'w transfer_env \<Rightarrow> string \<Rightarrow> ('w, unit) action" where
  "fail_job env message =
     swallow
       (act_bind (push_failure env
          \<lparr>if_item_index = None, if_item = ''transfer'', if_kind = LocalIo, if_message = message, if_staging_residue = None\<rparr>) (\<lambda>_.
        finalize_status env Failed))"

text \<open>The entry of the worker thread in \<^verbatim>\<open>launch_reserved_job\<close>.\<close>

definition worker :: "'w transfer_env \<Rightarrow> string \<Rightarrow> bool \<Rightarrow> ('w, unit) action \<Rightarrow> ('w, unit) action" where
  "worker env kind acquired work =
     act_catch_all (run_job env acquired work) (\<lambda>_. fail_job env (''the '' @ kind @ '' worker failed unexpectedly''))"

end
