(* ===== verification/TransferBatchProps.thy ===== *)
theory TransferBatchProps
  imports TransferBatch TransferProps TransferDownloadProps
begin

text \<open>
  Where a batch of uploads can write, and what the status of a finished job means.
\<close>

subsection \<open>Below the remote directory\<close>

definition below :: "string \<Rightarrow> string \<Rightarrow> bool" where
  "below dir p \<longleftrightarrow>
     (\<exists>names. names \<noteq> [] \<and> list_all (\<lambda>n. validate_safe_name n = Inr ()) names \<and>
        split_on (CHR ''/'') p = directory_segments dir @ names)"

lemma split_last_empty: "last (split_on d u) = [] \<Longrightarrow> u = [] \<or> last u = d"
proof (induction u)
  case (Cons c u)
  obtain h t where split: "split_on d u = h # t" using split_on_nonempty by (metis list.exhaust)
  show ?case
  proof (cases "c = d")
    case True
    with Cons split show ?thesis by auto
  next
    case False
    with Cons.prems split have "t \<noteq> []" "last t = []" by (auto split: if_splits)
    then have "u = [] \<or> last u = d" using Cons.IH split by simp
    with \<open>t \<noteq> []\<close> split show ?thesis by auto
  qed
qed simp

lemma double_slash: "find_sub [d, d] (v @ [d, d]) \<noteq> None"
proof (induction v)
  case (Cons c v)
  then show ?case by (auto split: option.split)
qed (simp add: starts_with_def)

lemma valid_segments_last:
  assumes "validate_transfer_remote_path dir = Inr ()"
  shows "directory_segments dir = [[]] \<or> last (directory_segments dir) \<noteq> []"
proof (rule ccontr)
  note dir = valid_path_facts [OF assms]
  obtain u where u: "directory_prefix dir = u @ ''/''" "split_on (CHR ''/'') u = directory_segments dir"
    using dir(1) by (rule directory_prefix_split)
  assume "\<not> ?thesis"
  with u(2) have "last (split_on (CHR ''/'') u) = []" "u \<noteq> []" by auto
  then obtain v where "u = v @ ''/''" using split_last_empty by (metis append_butlast_last_id)
  moreover have "find_sub ''//'' (directory_prefix dir) = None"
    using dir(1,3) find_sub_double_snoc [of "CHR ''/''" dir] by (auto simp: directory_prefix_def)
  ultimately show False using u(1) double_slash [of "CHR ''/''" v] by simp
qed

lemma segments_of_path: "u \<noteq> [] \<Longrightarrow> last u \<noteq> CHR ''/'' \<Longrightarrow> directory_segments u = split_on (CHR ''/'') u"
  by (simp add: directory_segments_def directory_prefix_def str_simps)

lemma split_last_slash: "last (split_on d (u @ [d])) = []"
  by (simp add: str_simps)

lemma below_child: "remote_child dir n = Inr p \<Longrightarrow> below dir p"
  using remote_child_segments [of dir n p] unfolding below_def by (intro exI [of _ "[n]"]) simp

lemma below_descend:
  assumes "below dir d" "remote_child d n = Inr p"
  shows "below dir p"
proof -
  obtain names where names: "names \<noteq> []" "list_all (\<lambda>n. validate_safe_name n = Inr ()) names"
    "split_on (CHR ''/'') d = directory_segments dir @ names" using assms(1) unfolding below_def by blast
  have "last names \<noteq> []"
    using names(1,2) safe_name_bytes(1) by (auto simp: list_all_iff)
  then have filled: "last (split_on (CHR ''/'') d) \<noteq> []" using names(1,3) by simp
  have "d \<noteq> []"
  proof
    assume "d = []"
    with filled show False by simp
  qed
  moreover have "last d \<noteq> CHR ''/''"
  proof
    assume "last d = CHR ''/''"
    with \<open>d \<noteq> []\<close> have "d = butlast d @ ''/''" by (metis append_butlast_last_id)
    with filled split_last_slash show False by metis
  qed
  ultimately have "directory_segments d = directory_segments dir @ names" using names(3) by (simp add: segments_of_path)
  with remote_child_segments [OF assms(2)] names(2) show ?thesis
    unfolding below_def by (intro exI [of _ "names @ [n]"]) simp
qed

lemma directory_segments_nonempty: "dir \<noteq> [] \<Longrightarrow> directory_segments dir \<noteq> []"
  by (erule directory_prefix_split) (metis split_on_nonempty)

lemma split_single: "split_on d u = [[]] \<Longrightarrow> u = []"
  using join_with_split_on [of d u] by simp

lemma parent_segments:
  assumes t: "below dir t" and dir: "validate_transfer_remote_path dir = Inr ()"
  obtains names where "directory_segments (parent_of t) = directory_segments dir @ names"
    "list_all (\<lambda>n. validate_safe_name n = Inr ()) names"
proof -
  obtain names where names: "names \<noteq> []" "list_all (\<lambda>n. validate_safe_name n = Inr ()) names"
    "split_on (CHR ''/'') t = directory_segments dir @ names" using t unfolding below_def by blast
  have "split_on (CHR ''/'') t \<noteq> [t]"
    using names(1,3) directory_segments_nonempty [OF valid_path_facts(1) [OF dir]] by (cases "directory_segments dir"; cases names) auto
  then have "CHR ''/'' \<in> set t" using split_on_free by metis
  then obtain i where i: "rfind_char (CHR ''/'') t = Some i" using rfind_char_None by (metis option.exhaust)
  define u where "u = take i t"
  have "t = u @ CHR ''/'' # drop (Suc i) t" "CHR ''/'' \<notin> set (drop (Suc i) t)" "i < length t"
    using rfind_char_SomeD [OF i] unfolding u_def by auto
  then have "split_on (CHR ''/'') t = split_on (CHR ''/'') u @ [drop (Suc i) t]"
    using split_on_append split_on_free by metis
  then have u: "split_on (CHR ''/'') u = directory_segments dir @ butlast names"
    using names(1,3) by (metis butlast_append butlast_snoc)
  have safe: "list_all (\<lambda>n. validate_safe_name n = Inr ()) (butlast names)"
    using names(2) by (auto simp: list_all_iff dest: in_set_butlastD)
  have "directory_segments (parent_of t) = split_on (CHR ''/'') u"
  proof (cases "i = 0")
    case True
    then show ?thesis by (simp add: parent_of_def i u_def directory_segments_def directory_prefix_def)
  next
    case False
    then have "u \<noteq> []" using \<open>i < length t\<close> by (auto simp: u_def)
    have "last u \<noteq> CHR ''/''"
    proof
      assume "last u = CHR ''/''"
      with \<open>u \<noteq> []\<close> have "u = butlast u @ ''/''" by (metis append_butlast_last_id)
      then have last_empty: "last (directory_segments dir @ butlast names) = []" using split_last_slash u by metis
      then have "butlast names = []"
        using safe safe_name_bytes(1) by (cases "butlast names" rule: rev_cases) auto
      with last_empty valid_segments_last [OF dir] u have "split_on (CHR ''/'') u = [[]]" by simp
      with split_single \<open>u \<noteq> []\<close> show False by metis
    qed
    with False \<open>u \<noteq> []\<close> show ?thesis by (simp add: parent_of_def i u_def [symmetric] segments_of_path)
  qed
  with u safe that show thesis by simp
qed

lemma below_sibling:
  assumes t: "below dir t" and dir: "validate_transfer_remote_path dir = Inr ()" and p: "remote_child (parent_of t) n = Inr p"
  shows "below dir p"
proof -
  obtain names where "directory_segments (parent_of t) = directory_segments dir @ names"
    "list_all (\<lambda>n. validate_safe_name n = Inr ()) names" using parent_segments [OF t dir] .
  with remote_child_segments [OF p] show ?thesis
    unfolding below_def by (intro exI [of _ "names @ [n]"]) simp
qed

text \<open>The changes an upload may make below a directory of one server.\<close>

fun stays_below :: "string \<Rightarrow> string \<Rightarrow> event \<Rightarrow> bool" where
  "stays_below server dir (Remote (RCreate s p x)) \<longleftrightarrow> s = server \<and> below dir p"
| "stays_below server dir (Remote (RRemove s p x)) \<longleftrightarrow> s = server \<and> below dir p"
| "stays_below server dir (Remote (RMkdir s p x)) \<longleftrightarrow> s = server \<and> (p = dir \<or> below dir p)"
| "stays_below server dir (Remote (RPublish s p t x)) \<longleftrightarrow> s = server \<and> below dir p \<and> below dir t"
| "stays_below server dir (Remote (RReplace s p t x)) \<longleftrightarrow> s = server \<and> below dir p \<and> below dir t"
| "stays_below server dir e \<longleftrightarrow> harmless e \<or> (\<exists>w d x. e = Remote (RWrite w d x)) \<or> (\<exists>w x. e = Remote (RFinish w x)) \<or>
     (\<exists>w. e = Remote (RClose w))"

lemma harmless_below: "harmless e \<Longrightarrow> stays_below server dir e"
  by (cases "(server, dir, e)" rule: stays_below.cases) auto

lemma host_below: "host_event e \<Longrightarrow> stays_below server dir e"
  by (rule harmless_below [OF host_harmless])

lemma permits_below:
  assumes e: "upload_permits context item new e" and t: "below dir (ui_target item)"
    and dir: "validate_transfer_remote_path dir = Inr ()"
  shows "stays_below (xc_server_id context) dir e"
proof -
  have target: "below dir t" if "allowed_target item t" for t
    using that t below_sibling [OF t dir] unfolding allowed_target_def by blast
  have stage: "below dir p" if "upload_stage context item p" for p
    using that below_sibling [OF target dir] unfolding upload_stage_def staged_path_def by blast
  show ?thesis
    using e by (cases "(context, item, new, e)" rule: upload_permits.cases) (auto simp: target stage t)
qed

lemma upload_file_below:
  assumes "below dir (ui_target item)" "validate_transfer_remote_path dir = Inr ()"
  shows "within (stays_below (xc_server_id context) dir) (upload_file env context item)"
  unfolding within_def
proof (rule spec_mono [OF upload_file_spec])
  fix r st new st'
  assume "upload_run context item r st new st'"
  then have "tame context item new new" by (rule upload_run_tame)
  then show "list_all (stays_below (xc_server_id context) dir) new"
    unfolding tame_def using permits_below [OF _ assms] harmless_below by (auto simp: list_all_iff)
qed

subsection \<open>The batch\<close>

text \<open>All events in \<open>P\<close> and every result in \<open>R\<close>, whatever happens to the inventory.\<close>

definition yields :: "(event \<Rightarrow> bool) \<Rightarrow> ('a \<Rightarrow> bool) \<Rightarrow> ('w, 'a) action \<Rightarrow> bool" where
  "yields P R m \<longleftrightarrow> spec m (\<lambda>r st new st'. list_all P new \<and> (\<forall>x. r = Done x \<longrightarrow> R x))"

lemma yields_calm: "calm Q R m \<Longrightarrow> (\<And>e. Q e \<Longrightarrow> P e) \<Longrightarrow> yields P R m"
  unfolding calm_def yields_def by (erule spec_mono) (auto elim: list.pred_mono_strong)

lemma yields_within: "within P m \<Longrightarrow> yields P (\<lambda>_. True) m"
  unfolding within_def yields_def by (erule spec_mono) simp

lemma yields_return: "R x \<Longrightarrow> yields P R (act_return x)"
  unfolding yields_def by (rule spec_return) simp

lemma yields_hang: "yields P R act_hang"
  unfolding yields_def by (rule spec_wp) (simp add: wp_hang)

lemma yields_bind:
  assumes "yields P Q m" "\<And>x. Q x \<Longrightarrow> yields P R (f x)"
  shows "yields P R (act_bind m f)"
  unfolding yields_def
proof (rule spec_bindI [OF assms(1) [unfolded yields_def]])
  show "spec (f x) (\<lambda>r st new st'. list_all P new \<and> (\<forall>x. r = Done x \<longrightarrow> R x))"
    if "list_all P a \<and> (\<forall>y. Done x = Done y \<longrightarrow> Q y)" for x a
    using assms(2) [of x] that by (simp add: yields_def)
qed auto

lemma yields_attempt: "yields P R m \<Longrightarrow> yields P (\<lambda>r. case r of Inr x \<Rightarrow> R x | Inl _ \<Rightarrow> True) (attempt m)"
  unfolding yields_def by (erule spec_attemptI) auto

lemma yields_note: "yields (stays_below server dir) (\<lambda>_. True) (note_failure env i l c m)"
  unfolding note_failure_def by (rule yields_calm [OF calm_push_failure host_below])

lemma yields_try:
  assumes "yields (stays_below server dir) Q m" "R skipped" "\<And>x. Q x \<Longrightarrow> yields (stays_below server dir) R (k x)"
  shows "yields (stays_below server dir) R (try_else_note env i l m skipped k)"
  unfolding try_else_note_def
proof (rule yields_bind [OF yields_attempt [OF assms(1)]])
  have "yields (stays_below server dir) R (act_bind (note_failure env i l c t) (\<lambda>_. act_return skipped))" for c t
    by (rule yields_bind [OF yields_note yields_return]) (rule assms(2))
  then show "yields (stays_below server dir) R (case r of
      Inl (code, message) \<Rightarrow> act_bind (note_failure env i l code message) (\<lambda>_. act_return skipped) | Inr x \<Rightarrow> k x)"
    if "case r of Inr x \<Rightarrow> Q x | Inl _ \<Rightarrow> True" for r
    using that assms(3) by (auto split: sum.splits)
qed

lemma yields_skip: "R skipped \<Longrightarrow> yields (stays_below server dir) R (note_and_skip env l c m skipped)"
  unfolding note_and_skip_def by (rule yields_bind [OF yields_note]) (rule yields_return)

lemma yields_look: "calm harmless (\<lambda>_. True) m \<Longrightarrow> yields (stays_below server dir) (\<lambda>_. True) m"
  by (erule yields_calm) (rule harmless_below)

lemma yields_child: "yields (stays_below server dir) (\<lambda>p. remote_child d n = Inr p) (remote_child_checked d n)"
  unfolding remote_child_checked_def by (rule yields_calm [OF calm_checked harmless_below])

lemma calm_mkdir: "p = dir \<or> below dir p \<Longrightarrow> calm (stays_below server dir) (\<lambda>_. True) (ensure_remote_directory env server p)"
  unfolding ensure_remote_directory_def create_dir_def
  by (auto intro!: calm_intros calm_events [OF calm_validate harmless_below] calm_events [OF calm_path_chain harmless_below]
      calm_events [OF calm_lstat harmless_below])

lemma yields_mkdir: "p = dir \<or> below dir p \<Longrightarrow> yields (stays_below server dir) (\<lambda>_. True) (ensure_remote_directory env server p)"
  by (rule yields_calm [OF calm_mkdir])

lemma calm_read_directory: "calm harmless (\<lambda>_. True) (read_local_directory env path)"
  unfolding read_local_directory_def by (auto intro!: calm_intros)

lemma yields_entry:
  assumes "below dir target" "validate_transfer_remote_path dir = Inr ()" "server = xc_server_id context"
  shows "yields (stays_below server dir) (\<lambda>_. True) (upload_entry env context source target display)"
proof -
  have allocate: "yields (stays_below server dir) (\<lambda>_. True) (allocate_file env n)" for n
    unfolding allocate_file_def Let_def
    by (rule yields_calm [where Q = host_event]) (auto intro!: calm_intros simp: host_below)
  have sending: "yields (stays_below server dir) (\<lambda>_. True) (upload_file env context
      \<lparr>ui_source = source, ui_target = target, ui_display_name = display, ui_index = index\<rparr>)" for index
    unfolding assms(3) by (rule yields_within [OF upload_file_below [OF _ assms(2)]]) (simp add: assms(1))
  show ?thesis
    unfolding upload_entry_def
    by (rule yields_bind [OF yields_look], simp add: file_size_def calm_ask)
      (rule yields_bind [OF allocate], rule yields_try [OF sending], simp_all add: yields_return)
qed

lemma yields_status: "yields (stays_below server dir) (\<lambda>_. True) (symlink_status env path)"
  by (rule yields_look [OF calm_symlink_status])

lemma yields_safe_name: "yields (stays_below server dir) (\<lambda>_. True) (safe_name n)"
  unfolding safe_name_def by (rule yields_look) (auto intro!: calm_intros calm_checked_any)

text \<open>A frame stays below the batch's directory.\<close>

definition frame_below :: "string \<Rightarrow> upload_frame \<Rightarrow> bool" where
  "frame_below dir frame \<longleftrightarrow> below dir (uf_remote frame)"

lemma yields_upload_child:
  assumes frame: "frame_below dir frame" and dir: "validate_transfer_remote_path dir = Inr ()" and server: "server = xc_server_id context"
  shows "yields (stays_below server dir) (\<lambda>f. case f of Some g \<Rightarrow> frame_below dir g | None \<Rightarrow> True) (upload_child env context frame child)"
proof -
  let ?R = "\<lambda>f. case f of Some g \<Rightarrow> frame_below dir g | None \<Rightarrow> True"
  let ?name = "te_filename (env_paths env) child"
  have entry: "yields (stays_below server dir) ?R (
      if t = DirectoryFile then
            try_else_note env None display (ensure_remote_directory env (xc_server_id context) target) None (\<lambda>_.
            act_return (Some \<lparr>uf_local = child, uf_remote = target, uf_prefix = display\<rparr>))
          else if t = RegularFile then act_bind (upload_entry env context child target display) (\<lambda>_. act_return None)
          else note_and_skip env display ErrInvalidInput special_not_transferred None)"
    if target: "remote_child (uf_remote frame) ?name = Inr target" for t target display
  proof -
    have b: "below dir target" using below_descend frame target unfolding frame_below_def by blast
    have "yields (stays_below server dir) ?R (try_else_note env None display (ensure_remote_directory env (xc_server_id context) target) None (\<lambda>_.
            act_return (Some \<lparr>uf_local = child, uf_remote = target, uf_prefix = display\<rparr>)))"
      unfolding server [symmetric] by (rule yields_try [OF yields_mkdir]) (auto simp: b frame_below_def intro!: yields_return)
    moreover have "yields (stays_below server dir) ?R (act_bind (upload_entry env context child target display) (\<lambda>_. act_return None))"
      by (rule yields_bind [OF yields_entry [OF b dir server]]) (simp add: yields_return)
    ultimately show ?thesis by (simp add: yields_skip)
  qed
  have inner: "yields (stays_below server dir) ?R (act_bind (symlink_status env child) (\<lambda>(t, e).
        if e \<noteq> None \<or> t = NotFound then note_and_skip env ?name ErrLocal ''could not inspect the local entry'' None
        else if t = SymlinkFile then note_and_skip env display ErrInvalidInput links_not_followed None
        else
          try_else_note env None ?name (remote_child_checked (uf_remote frame) ?name) None (\<lambda>target.
          if t = DirectoryFile then
            try_else_note env None display (ensure_remote_directory env (xc_server_id context) target) None (\<lambda>_.
            act_return (Some \<lparr>uf_local = child, uf_remote = target, uf_prefix = display\<rparr>))
          else if t = RegularFile then act_bind (upload_entry env context child target display) (\<lambda>_. act_return None)
          else note_and_skip env display ErrInvalidInput special_not_transferred None)))" for display
    by (rule yields_bind [OF yields_status]) (auto intro!: yields_skip yields_try [OF yields_child] entry split: prod.split)
  show ?thesis
  proof (cases "?name = []")
    case True
    then show ?thesis unfolding upload_child_def Let_def by (simp add: yields_skip)
  next
    case False
    show ?thesis
      unfolding upload_child_def Let_def if_not_P [OF False] by (rule yields_try [OF yields_safe_name _ inner]) simp
  qed
qed

lemma yields_upload_children:
  assumes "frame_below dir frame" "validate_transfer_remote_path dir = Inr ()" "server = xc_server_id context" "list_all (frame_below dir) stack"
  shows "yields (stays_below server dir) (list_all (frame_below dir)) (upload_children env context frame children stack)"
  using assms(4)
proof (induction children arbitrary: stack)
  case Nil
  then show ?case by (simp add: yields_return)
next
  case (Cons child children)
  show ?case
    unfolding upload_children.simps
    by (rule yields_bind [OF yields_upload_child [OF assms(1-3)]], rule Cons.IH)
      (use Cons.prems in \<open>auto split: option.splits\<close>)
qed

lemma yields_upload_walk:
  assumes "validate_transfer_remote_path dir = Inr ()" "server = xc_server_id context"
  shows "list_all (frame_below dir) stack \<Longrightarrow> yields (stays_below server dir) (\<lambda>_. True) (upload_walk env context n stack)"
proof (induction n arbitrary: stack)
  case 0
  then show ?case by (cases stack) (simp_all add: yields_return yields_hang)
next
  case (Suc n)
  show ?case
  proof (cases stack)
    case Nil
    then show ?thesis by (simp add: yields_return)
  next
    case (Cons frame rest)
    then have frame: "frame_below dir frame" "list_all (frame_below dir) rest" using Suc.prems by simp_all
    have level: "yields (stays_below server dir) (list_all (frame_below dir))
      (try_else_note env None (uf_prefix frame) (read_local_directory env (uf_local frame)) rest
         (\<lambda>children. upload_children env context frame (rev children) rest))"
      by (rule yields_try [OF yields_look [OF calm_read_directory]])
        (simp_all add: frame yields_upload_children [OF frame(1) assms frame(2)])
    have stop: "yields (stays_below server dir) (\<lambda>_. True) (cancelled env)"
      unfolding cancelled_def by (rule yields_look) (simp add: calm_ask)
    show ?thesis
      unfolding Cons upload_walk.simps
      by (rule yields_bind [OF stop]) (auto intro!: yields_return yields_bind [OF level] Suc.IH)
  qed
qed

lemma yields_upload_source:
  assumes "validate_transfer_remote_path dir = Inr ()" "server = xc_server_id context"
  shows "yields (stays_below server dir) (\<lambda>_. True) (upload_source env context dir source)"
proof -
  let ?name = "te_filename (env_paths env) source"
  have root: "yields (stays_below server dir) (\<lambda>_. True) (
      if t = RegularFile then upload_entry env context source root name
          else if t = DirectoryFile then
            try_else_note env None name (ensure_remote_directory env (xc_server_id context) root) () (\<lambda>_.
            upload_walk env context (env_fuel env) [\<lparr>uf_local = source, uf_remote = root, uf_prefix = name\<rparr>])
          else note_and_skip env name ErrInvalidInput special_not_transferred ())"
    if "remote_child dir n = Inr root" for t root name n
  proof -
    have b: "below dir root" using that by (rule below_child)
    have "yields (stays_below server dir) (\<lambda>_. True) (try_else_note env None name (ensure_remote_directory env (xc_server_id context) root) () (\<lambda>_.
            upload_walk env context (env_fuel env) [\<lparr>uf_local = source, uf_remote = root, uf_prefix = name\<rparr>]))"
      unfolding assms(2) [symmetric]
      by (rule yields_try [OF yields_mkdir]) (simp_all add: b yields_upload_walk [OF assms] frame_below_def)
    with yields_entry [OF b assms, of env source name] show ?thesis by (simp add: yields_skip)
  qed
  have status: "yields (stays_below server dir) (\<lambda>_. True) (act_bind (symlink_status env source) (\<lambda>(t, e).
        if e \<noteq> None \<and> e \<noteq> Some NoSuchFile
        then note_and_skip env ?name ErrLocal
          (''could not inspect the local source: '' @ (case e of Some err \<Rightarrow> os_message err | None \<Rightarrow> [])) ()
        else if t = NotFound then note_and_skip env ?name ErrLocal ''could not inspect the local source'' ()
        else if t = SymlinkFile then note_and_skip env ?name ErrInvalidInput links_not_followed ()
        else
          try_else_note env None ?name (remote_child_checked dir ?name) () (\<lambda>root.
          if t = RegularFile then upload_entry env context source root ?name
          else if t = DirectoryFile then
            try_else_note env None ?name (ensure_remote_directory env (xc_server_id context) root) () (\<lambda>_.
            upload_walk env context (env_fuel env) [\<lparr>uf_local = source, uf_remote = root, uf_prefix = ?name\<rparr>])
          else note_and_skip env ?name ErrInvalidInput special_not_transferred ())))"
    by (rule yields_bind [OF yields_status]) (auto intro!: yields_skip yields_try [OF yields_child] root split: prod.split)
  show ?thesis
  proof (cases "?name = []")
    case True
    then show ?thesis unfolding upload_source_def Let_def by (simp add: yields_skip)
  next
    case False
    show ?thesis
      unfolding upload_source_def Let_def if_not_P [OF False] by (rule yields_try [OF yields_safe_name _ status]) simp
  qed
qed

lemma yields_upload_sources:
  assumes "validate_transfer_remote_path dir = Inr ()" "server = xc_server_id context"
  shows "yields (stays_below server dir) (\<lambda>_. True) (upload_sources env context dir sources)"
proof (induction sources)
  case (Cons source sources)
  have stop: "yields (stays_below server dir) (\<lambda>_. True) (cancelled env)"
    unfolding cancelled_def by (rule yields_look) (simp add: calm_ask)
  show ?case
    unfolding upload_sources.simps
    by (rule yields_bind [OF stop]) (auto intro!: yields_return yields_bind [OF yields_upload_source [OF assms]] Cons)
qed (simp add: yields_return)

lemma yields_upload_batch:
  assumes "validate_transfer_remote_path dir = Inr ()"
  shows "yields (stays_below (xc_server_id context) dir) (\<lambda>_. True) (upload_batch env context dir sources)"
  unfolding upload_batch_def
  by (rule yields_try [OF yields_mkdir]) (simp_all add: yields_upload_sources [OF assms refl])

text \<open>C13: An upload never writes outside its directory.  Whatever trees are selected and whatever the
  names in them and the answers of the server are, every remote change of \<open>upload_batch\<close> is on the
  transfer's server and on a path whose segments are those of the requested directory followed by
  safe names: no \<open>..\<close>, no empty segment, no separator inside a name; only the directory itself may
  also be created.  Nothing is changed on the local side.\<close>

theorem batch_stays_below:
  assumes "validate_transfer_remote_path remote_dir = Inr ()"
  shows "\<exists>new. ts_log (snd (upload_batch env context remote_dir sources s)) = ts_log s @ new \<and>
    list_all (stays_below (xc_server_id context) remote_dir) new"
  by (rule specE [OF yields_upload_batch [OF assms, unfolded yields_def] prod.collapse [symmetric]]) blast

theorem batch_stays_below_witness:
  "\<forall>env context sources s. \<exists>new.
     ts_log (snd (upload_batch env context ''/srv/app'' sources s)) = ts_log s @ new \<and>
     list_all (stays_below (xc_server_id context) ''/srv/app'') new"
  by (intro allI, rule batch_stays_below)
    (simp add: validate_transfer_remote_path_def utf8_char_length_def max_remote_path_chars_def starts_with_def char_of_def)

end
