(* ===== verification/TransferManager.thy ===== *)
theory TransferManager
  imports TransferBatch "HOL-Library.Product_Lexorder" "HOL-Library.AList"
begin

text \<open>
  The transfer manager of \<^verbatim>\<open>src/native/desktop_host/src/transfer_manager.cpp\<close>: admission,
  the permits of the semaphore, the table of jobs, cancellation, conflict decisions, the listing
  and shutdown.  Every mutex-protected section is one operation on the state \<open>manager\<close>; the
  threads (starting calls and workers) take them in any order, as steps of the relation \<open>mstep\<close>.
\<close>

subsection \<open>State\<close>

text \<open>
  Progress of the call that starts a transfer (\<^verbatim>\<open>start_upload\<close>, \<^verbatim>\<open>launch_reserved_job\<close>) and of its
  worker thread (\<^verbatim>\<open>run_job\<close>).  Both own the \<^verbatim>\<open>WorkerAdmission\<close>; the last owner releases it.
\<close>

datatype start_phase = Reserved | Registered | Launched | Returned

datatype worker_phase = NotLaunched | WaitingPermit | HoldingPermit | PermitReleased | WorkerGone

record transfer_thread =
  tt_id :: string
  tt_start :: start_phase
  tt_worker :: worker_phase
  tt_cancel :: bool

record manager =
  mg_parallel :: nat
  mg_history :: bool
  mg_available :: nat
  mg_active :: nat
  mg_jobs :: "string set"
  mg_threads :: "transfer_thread list"
  mg_shutting_down :: bool
  mg_shutdown_complete :: bool

definition kMaxParallelTransfers :: nat where
  "kMaxParallelTransfers = 3"

definition kMaxPendingTransfers :: nat where
  "kMaxPendingTransfers = 16"

text \<open>\<^verbatim>\<open>std::clamp(max_parallel, 1, kMaxParallelTransfers)\<close>.\<close>

definition clamp_parallel :: "nat \<Rightarrow> nat" where
  "clamp_parallel n = min (max n 1) kMaxParallelTransfers"

definition new_manager :: "nat \<Rightarrow> bool \<Rightarrow> manager" where
  "new_manager max_parallel history =
     \<lparr>mg_parallel = clamp_parallel max_parallel, mg_history = history, mg_available = clamp_parallel max_parallel,
      mg_active = 0, mg_jobs = {}, mg_threads = [], mg_shutting_down = False, mg_shutdown_complete = False\<rparr>"

definition maximum_admitted :: "manager \<Rightarrow> nat" where
  "maximum_admitted m = mg_parallel m + kMaxPendingTransfers"

definition update_thread :: "nat \<Rightarrow> (transfer_thread \<Rightarrow> transfer_thread) \<Rightarrow> manager \<Rightarrow> manager" where
  "update_thread i f m = m\<lparr>mg_threads := (mg_threads m)[i := f (mg_threads m ! i)]\<rparr>"

text \<open>A thread that still owns the admission.\<close>

definition owns_admission :: "transfer_thread \<Rightarrow> bool" where
  "owns_admission t \<longleftrightarrow> tt_start t \<noteq> Returned \<or> tt_worker t \<noteq> NotLaunched \<and> tt_worker t \<noteq> WorkerGone"

text \<open>\<^verbatim>\<open>~WorkerAdmission\<close>, run when the last owner lets go.\<close>

definition release_admission :: "nat \<Rightarrow> manager \<Rightarrow> manager" where
  "release_admission i m =
     (if owns_admission (mg_threads m ! i) then m else m\<lparr>mg_active := mg_active m - 1\<rparr>)"

subsection \<open>Operations\<close>

text \<open>\<^verbatim>\<open>WorkerAdmission::WorkerAdmission\<close>.\<close>

definition admit :: "string \<Rightarrow> manager \<Rightarrow> transfer_error_code + manager" where
  "admit new_id m =
     (if mg_shutting_down m then Inl ErrShuttingDown
      else if maximum_admitted m \<le> mg_active m then Inl ErrBusy
      else Inr (m\<lparr>mg_active := mg_active m + 1,
        mg_threads := mg_threads m @ [\<lparr>tt_id = new_id, tt_start = Reserved, tt_worker = NotLaunched, tt_cancel = False\<rparr>]\<rparr>))"

text \<open>\<^verbatim>\<open>insert_job\<close>.\<close>

definition insert_job :: "nat \<Rightarrow> manager \<Rightarrow> transfer_error_code + manager" where
  "insert_job i m =
     (if mg_shutting_down m then Inl ErrShuttingDown
      else Inr (update_thread i (\<lambda>t. t\<lparr>tt_start := Registered\<rparr>)
        (m\<lparr>mg_jobs := insert (tt_id (mg_threads m ! i)) (mg_jobs m)\<rparr>)))"

text \<open>The rollback of \<^verbatim>\<open>launch_reserved_job\<close> and the end of the failed start.\<close>

definition abandon_start :: "nat \<Rightarrow> manager \<Rightarrow> manager" where
  "abandon_start i m =
     (let t = mg_threads m ! i;
          m' = (if tt_start t = Registered then m\<lparr>mg_jobs := mg_jobs m - {tt_id t}\<rparr> else m)
      in release_admission i (update_thread i (\<lambda>t. t\<lparr>tt_start := Returned\<rparr>) m'))"

text \<open>\<^verbatim>\<open>worker_launcher\<close> started the thread; then the starting call publishes and returns.\<close>

definition launch_worker :: "nat \<Rightarrow> manager \<Rightarrow> manager" where
  "launch_worker i = update_thread i (\<lambda>t. t\<lparr>tt_start := Launched, tt_worker := WaitingPermit\<rparr>)"

definition return_start :: "nat \<Rightarrow> manager \<Rightarrow> manager" where
  "return_start i m = release_admission i (update_thread i (\<lambda>t. t\<lparr>tt_start := Returned\<rparr>) m)"

text \<open>One round of \<^verbatim>\<open>Semaphore::acquire\<close>: a permit, \<open>false\<close> on cancellation, or another round.\<close>

definition acquire :: "nat \<Rightarrow> manager \<Rightarrow> bool option \<times> manager" where
  "acquire i m =
     (if 0 < mg_available m
      then (Some True, update_thread i (\<lambda>t. t\<lparr>tt_worker := HoldingPermit\<rparr>) (m\<lparr>mg_available := mg_available m - 1\<rparr>))
      else if tt_cancel (mg_threads m ! i) then (Some False, update_thread i (\<lambda>t. t\<lparr>tt_worker := PermitReleased\<rparr>) m)
      else (None, m))"

text \<open>\<^verbatim>\<open>PermitGuard::release\<close>.\<close>

definition release_permit :: "nat \<Rightarrow> manager \<Rightarrow> manager" where
  "release_permit i m =
     update_thread i (\<lambda>t. t\<lparr>tt_worker := PermitReleased\<rparr>) (m\<lparr>mg_available := mg_available m + 1\<rparr>)"

text \<open>\<^verbatim>\<open>remove_terminal_job\<close> and the end of the worker.\<close>

definition finish_worker :: "nat \<Rightarrow> manager \<Rightarrow> manager" where
  "finish_worker i m =
     (let m' = (if mg_history m then m\<lparr>mg_jobs := mg_jobs m - {tt_id (mg_threads m ! i)}\<rparr> else m)
      in release_admission i (update_thread i (\<lambda>t. t\<lparr>tt_worker := WorkerGone\<rparr>) m'))"

definition cancel_thread :: "string \<Rightarrow> transfer_thread \<Rightarrow> transfer_thread" where
  "cancel_thread i t = (if tt_id t = i then t\<lparr>tt_cancel := True\<rparr> else t)"

definition cancel_transfer :: "string \<Rightarrow> manager \<Rightarrow> transfer_error_code + manager" where
  "cancel_transfer i m =
     (if i \<notin> mg_jobs m then Inl ErrInvalidInput
      else Inr (m\<lparr>mg_threads := map (cancel_thread i) (mg_threads m)\<rparr>))"

text \<open>\<^verbatim>\<open>shutdown\<close>: closing the admission and cancelling the registered jobs that are not terminal
  (\<open>terminal\<close>), and the end of the wait for the workers.\<close>

definition begin_shutdown :: "(string \<Rightarrow> bool) \<Rightarrow> manager \<Rightarrow> manager" where
  "begin_shutdown terminal m =
     (if mg_shutting_down m then m
      else m\<lparr>mg_shutting_down := True,
        mg_threads := map (\<lambda>t. if tt_id t \<in> mg_jobs m \<and> \<not> terminal (tt_id t) then t\<lparr>tt_cancel := True\<rparr> else t) (mg_threads m)\<rparr>)"

definition finish_shutdown :: "manager \<Rightarrow> manager option" where
  "finish_shutdown m =
     (if mg_shutting_down m \<and> mg_active m = 0 then Some (m\<lparr>mg_shutdown_complete := True\<rparr>) else None)"

subsection \<open>Steps\<close>

abbreviation thread_at :: "manager \<Rightarrow> nat \<Rightarrow> transfer_thread" where
  "thread_at m i \<equiv> mg_threads m ! i"

inductive mstep :: "manager \<Rightarrow> manager \<Rightarrow> bool" where
  admitted: "admit new_id m = Inr m' \<Longrightarrow> new_id \<notin> tt_id ` set (mg_threads m) \<Longrightarrow> mstep m m'"
| registered: "i < length (mg_threads m) \<Longrightarrow> tt_start (thread_at m i) = Reserved \<Longrightarrow> insert_job i m = Inr m' \<Longrightarrow> mstep m m'"
| abandoned: "i < length (mg_threads m) \<Longrightarrow> tt_start (thread_at m i) = Reserved \<or> tt_start (thread_at m i) = Registered \<Longrightarrow>
    mstep m (abandon_start i m)"
| launched: "i < length (mg_threads m) \<Longrightarrow> tt_start (thread_at m i) = Registered \<Longrightarrow> mstep m (launch_worker i m)"
| returned: "i < length (mg_threads m) \<Longrightarrow> tt_start (thread_at m i) = Launched \<Longrightarrow> mstep m (return_start i m)"
| acquired: "i < length (mg_threads m) \<Longrightarrow> tt_worker (thread_at m i) = WaitingPermit \<Longrightarrow> acquire i m = (r, m') \<Longrightarrow> mstep m m'"
| released: "i < length (mg_threads m) \<Longrightarrow> tt_worker (thread_at m i) = HoldingPermit \<Longrightarrow> mstep m (release_permit i m)"
| finished: "i < length (mg_threads m) \<Longrightarrow> tt_worker (thread_at m i) = PermitReleased \<Longrightarrow> mstep m (finish_worker i m)"
| cancelling: "cancel_transfer i m = Inr m' \<Longrightarrow> mstep m m'"
| closing: "mstep m (begin_shutdown terminal m)"
| closed: "finish_shutdown m = Some m' \<Longrightarrow> mstep m m'"

inductive reachable_from :: "nat \<Rightarrow> bool \<Rightarrow> manager \<Rightarrow> bool" for n history where
  start: "reachable_from n history (new_manager n history)"
| step: "reachable_from n history m \<Longrightarrow> mstep m m' \<Longrightarrow> reachable_from n history m'"

subsection \<open>Conflict decisions\<close>

text \<open>
  \<^verbatim>\<open>resolve_conflict\<close> of a job with the snapshot \<open>sn\<close>: the decision to be queued, or the message of
  the exception.
\<close>

definition resolve_conflict ::
  "transfer_snapshot \<Rightarrow> 64 word \<Rightarrow> conflict_action \<Rightarrow> string + 64 word \<times> conflict_action" where
  "resolve_conflict sn item_index action =
     (case sn_active_conflict sn of
        None \<Rightarrow> Inl ''transfer is not waiting for a conflict decision''
      | Some conflict \<Rightarrow>
          if sn_status sn \<noteq> WaitingConflict \<or> cr_item_index conflict \<noteq> item_index
          then Inl ''conflict decision does not match the active transfer item''
          else if ca_kind action \<notin> set (cr_allowed_actions conflict)
          then Inl ''conflict action is not allowed for this target''
          else if ca_kind action = RenameAction then
            (case validate_safe_name (ca_rename_to action) of
               Inl e \<Rightarrow> Inl (input_error_message e)
             | Inr _ \<Rightarrow> Inr (item_index, action))
          else Inr (item_index, action))"

subsection \<open>Listing\<close>

text \<open>The entries of the \<^verbatim>\<open>std::map\<close>: the stored snapshots, then the live ones over them.\<close>

definition snapshot_table :: "transfer_snapshot list \<Rightarrow> transfer_snapshot list \<Rightarrow> (string \<times> transfer_snapshot) list" where
  "snapshot_table stored live =
     foldl (\<lambda>table sn. AList.update (sn_transfer_id sn) sn table) [] (stored @ live)"

definition list_transfers ::
  "string option \<Rightarrow> nat \<Rightarrow> (string + transfer_snapshot list) option \<Rightarrow> transfer_snapshot list \<Rightarrow>
   (transfer_error_code \<times> string) + transfer_snapshot list" where
  "list_transfers server_id limit stored live =
     (if limit = 0 \<or> 100 < limit then Inl (ErrInvalidInput, ''transfer history limit must be between 1 and 100'')
      else case (case stored of None \<Rightarrow> Inr [] | Some r \<Rightarrow> r) of
          Inl what \<Rightarrow> Inl (ErrLocal, ''could not list transfer history: '' @ what)
        | Inr rows \<Rightarrow>
            Inr (take limit (rev (sort_key (\<lambda>sn. (sn_updated_at sn, sn_transfer_id sn))
              (map snd (snapshot_table rows
                (filter (\<lambda>sn. case server_id of None \<Rightarrow> True | Some s \<Rightarrow> sn_server_id sn = s) live)))))))"

end
