(* ===== verification/TransferStart.thy ===== *)
theory TransferStart
  imports TransferManager
begin

text \<open>
  Starting a transfer and the calls on a known one (\<^verbatim>\<open>src/native/desktop_host/src/transfer_manager.cpp\<close>):
  the checks of \<^verbatim>\<open>start_upload\<close> and \<^verbatim>\<open>start_download\<close>, \<^verbatim>\<open>launch_reserved_job\<close> with its rollback, the lookup
  of a snapshot and the last write of \<^verbatim>\<open>shutdown\<close>.  The admission and the table of jobs are those of
  \<open>TransferManager\<close>; here their answers are arguments.
\<close>

subsection \<open>Checks\<close>

fun each :: "('a \<Rightarrow> ('w, unit) action) \<Rightarrow> 'a list \<Rightarrow> ('w, unit) action" where
  "each f [] = act_return ()"
| "each f (x # xs) = act_bind (f x) (\<lambda>_. each f xs)"

definition validate_start :: "'w transfer_env \<Rightarrow> string \<Rightarrow> string \<Rightarrow> string list \<Rightarrow> ('w, unit) action" where
  "validate_start env server_id remote_dir local_paths =
     act_bind (throw_if (trim_blank server_id = []) ErrInvalidInput ''serverId is required'') (\<lambda>_.
     act_bind (validate_remote_path remote_dir) (\<lambda>_.
     act_bind (throw_if (local_paths = []) ErrInvalidInput ''at least one local source is required'') (\<lambda>_.
     each (\<lambda>path. throw_if (\<not> te_is_absolute (env_paths env) path) ErrInvalidInput
       ''local source paths must be absolute host paths'') local_paths)))"

definition validate_download_start :: "'w transfer_env \<Rightarrow> string \<Rightarrow> string list \<Rightarrow> string \<Rightarrow> ('w, unit) action" where
  "validate_download_start env server_id remote_paths local_dir =
     act_bind (throw_if (trim_blank server_id = []) ErrInvalidInput ''serverId is required'') (\<lambda>_.
     act_bind (throw_if (remote_paths = []) ErrInvalidInput ''at least one remote source is required'') (\<lambda>_.
     act_bind (each validate_remote_path remote_paths) (\<lambda>_.
     throw_if (\<not> te_is_absolute (env_paths env) local_dir) ErrInvalidInput
       ''local destination must be an absolute host path'')))"

subsection \<open>Launching\<close>

text \<open>The UTF-8 bytes of the three messages that are not ASCII: closing, busy, and a failed launch.\<close>

definition closing_message :: string where
  "closing_message = map char_of [229, 186, 148, 231, 148, 168, 230, 173, 163, 229, 156, 168, 229, 133, 179, 233, 151, 173::nat]"

definition busy_message :: string where
  "busy_message = map char_of [229, 189, 147, 229, 137, 141, 228, 188, 160, 232, 190, 147, 232, 190, 131, 229, 164, 154, 239, 188, 140, 232, 175, 183, 231, 168, 141, 229, 144, 142, 233, 135, 141, 232, 175, 149::nat]"

definition launch_message :: string where
  "launch_message = map char_of [230, 151, 160, 230, 179, 149, 229, 144, 175, 229, 138, 168, 230, 150, 135, 228, 187, 182, 228, 188, 160, 232, 190, 147, 239, 188, 140, 232, 175, 183, 231, 168, 141, 229, 144, 142, 233, 135, 141, 232, 175, 149::nat]"

definition refusal :: "transfer_error_code \<Rightarrow> transfer_exception" where
  "refusal code = TransferErr code (if code = ErrBusy then busy_message else closing_message)"

text \<open>The state of a new transfer.\<close>

definition new_cell :: "bool \<Rightarrow> int \<Rightarrow> int \<Rightarrow> string \<Rightarrow> string \<Rightarrow> transfer_direction \<Rightarrow> snapshot_cell" where
  "new_cell history now steady tid server_id direction =
     (let sn = new_transfer_snapshot now tid server_id direction
      in \<lparr>sc_snapshot = sn, sc_staging = [], sc_history = history, sc_last_time = steady - 1000, sc_last_status = sn_status sn\<rparr>)"

text \<open>
  One step inside the \<^verbatim>\<open>try\<close> of \<^verbatim>\<open>launch_reserved_job\<close>: an exception rolls back what was persisted; \<open>closing\<close>
  is \<^verbatim>\<open>shutting_down\<close> at that moment.
\<close>

definition start_rollback :: "'w transfer_env \<Rightarrow> bool \<Rightarrow> bool \<Rightarrow> ('w, unit) action" where
  "start_rollback env persisted closing =
     act_when persisted (finalize_status env (if closing then Interrupted else Failed))"

definition start_step :: "'w transfer_env \<Rightarrow> bool \<Rightarrow> bool \<Rightarrow> ('w, unit) action \<Rightarrow> ('w, unit) action" where
  "start_step env persisted closing m =
     act_catch_all m (\<lambda>e.
       act_bind (start_rollback env persisted closing) (\<lambda>_.
       act_throw (case e of TransferErr c t \<Rightarrow> TransferErr c t | OtherException \<Rightarrow> TransferErr ErrLocal launch_message)))"

definition launch_reserved_job ::
  "'w transfer_env \<Rightarrow> transfer_error_code + manager \<Rightarrow> transfer_exception option \<Rightarrow> bool \<Rightarrow> ('w, unit) action" where
  "launch_reserved_job env inserted launched closing =
     act_bind (start_step env False closing (persist_initial env)) (\<lambda>_.
     act_bind (start_step env True closing
       (case inserted of Inl code \<Rightarrow> act_throw (refusal code) | Inr _ \<Rightarrow> act_return ())) (\<lambda>_.
     act_bind (start_step env True closing
       (case launched of Some e \<Rightarrow> act_throw e | None \<Rightarrow> act_return ())) (\<lambda>_.
     publish_initial env)))"

text \<open>\<^verbatim>\<open>start_upload\<close> and \<^verbatim>\<open>start_download\<close>: \<open>admitted\<close> is what the admission answered.\<close>

definition start_upload ::
  "'w transfer_env \<Rightarrow> string \<Rightarrow> string \<Rightarrow> string list \<Rightarrow> transfer_error_code + manager \<Rightarrow> string \<Rightarrow>
   transfer_error_code + manager \<Rightarrow> transfer_exception option \<Rightarrow> bool \<Rightarrow> ('w, string) action" where
  "start_upload env server_id remote_dir local_paths admitted tid inserted launched closing =
     act_bind (validate_start env server_id remote_dir local_paths) (\<lambda>_.
     act_bind (case admitted of Inl code \<Rightarrow> act_throw (refusal code) | Inr _ \<Rightarrow> act_return ()) (\<lambda>_.
     act_bind (read_clock (te_clock (env_host env))) (\<lambda>now.
     act_bind (read_clock (te_steady (env_host env))) (\<lambda>steady.
     act_bind (set_cell (\<lambda>c. new_cell (sc_history c) now steady tid server_id Upload)) (\<lambda>_.
     act_bind (launch_reserved_job env inserted launched closing) (\<lambda>_. act_return tid))))))"

definition start_download ::
  "'w transfer_env \<Rightarrow> string \<Rightarrow> string list \<Rightarrow> string \<Rightarrow> transfer_error_code + manager \<Rightarrow> string \<Rightarrow>
   transfer_error_code + manager \<Rightarrow> transfer_exception option \<Rightarrow> bool \<Rightarrow> ('w, string) action" where
  "start_download env server_id remote_paths local_dir admitted tid inserted launched closing =
     act_bind (validate_download_start env server_id remote_paths local_dir) (\<lambda>_.
     act_bind (case admitted of Inl code \<Rightarrow> act_throw (refusal code) | Inr _ \<Rightarrow> act_return ()) (\<lambda>_.
     act_bind (read_clock (te_clock (env_host env))) (\<lambda>now.
     act_bind (read_clock (te_steady (env_host env))) (\<lambda>steady.
     act_bind (set_cell (\<lambda>c. new_cell (sc_history c) now steady tid server_id Download)) (\<lambda>_.
     act_bind (launch_reserved_job env inserted launched closing) (\<lambda>_. act_return tid))))))"

subsection \<open>A known transfer\<close>

text \<open>\<^verbatim>\<open>get\<close>: the live job, else the history, whose failure counts as nothing stored.\<close>

definition get_transfer ::
  "(string \<Rightarrow> transfer_snapshot option) \<Rightarrow> (string \<Rightarrow> string + transfer_snapshot option) option \<Rightarrow> string \<Rightarrow> transfer_snapshot option" where
  "get_transfer live history tid =
     (case live tid of
        Some sn \<Rightarrow> Some sn
      | None \<Rightarrow>
          (case history of
             None \<Rightarrow> None
           | Some get \<Rightarrow> (case get tid of Inl _ \<Rightarrow> None | Inr found \<Rightarrow> found)))"

text \<open>What \<^verbatim>\<open>shutdown\<close> writes into every job that was active when it began.\<close>

definition interrupt_job :: "'w transfer_env \<Rightarrow> ('w, unit) action" where
  "interrupt_job env =
     cell_write env False (\<lambda>sn. sn\<lparr>sn_status := Interrupted, sn_active_conflict := None, sn_current_item := None\<rparr>)"

end
