(* ===== verification/TransferJobProps.thy ===== *)
theory TransferJobProps
  imports TransferBatch
begin

text \<open>
  What the status of a finished job means.
\<close>

text \<open>What \<open>conclude_job\<close> shows after the snapshot \<open>sn\<close> when the flag was \<open>stopped\<close>: the ledger entries and the
  snapshot published last.\<close>

definition saved_verdict :: "bool \<Rightarrow> bool \<Rightarrow> transfer_snapshot \<Rightarrow> event list \<Rightarrow> transfer_snapshot \<Rightarrow> bool" where
  "saved_verdict history stopped sn entries shown \<longleftrightarrow>
     (if history then
        (\<exists>staging. entries = [EvLedger shown staging (Inr ())] \<and> sn_status shown = final_status stopped sn \<and>
           sn_failures shown = sn_failures sn) \<or>
        (\<exists>tried staging m x. entries = [EvLedger tried staging (Inl m), EvLedger shown staging x] \<and>
           sn_status tried = final_status stopped sn \<and>
           sn_status shown = Failed \<and> sn_failures shown = sn_failures sn @ [ledger_failure])
      else entries = [] \<and> sn_status shown = final_status stopped sn \<and> sn_failures shown = sn_failures sn)"

lemma conclude_job_wp:
  "wp (conclude_job env) (\<lambda>r s'. \<exists>stopped entries.
     r = Done () \<and>
     ts_log s' = ts_log s @ [EvCancelled stopped] @ entries @ [EvNotify (sc_snapshot (ts_cell s'))] \<and>
     saved_verdict (sc_history (ts_cell s)) stopped (sc_snapshot (ts_cell s)) entries (sc_snapshot (ts_cell s'))) s"
  unfolding conclude_job_def finalize_status_def save_terminal_def cancelled_def ledger_update_def publish_def
  by (auto simp: wp_simps wp_tell saved_verdict_def touch_at_def clear_item_def intro!: wp_askI wp_clockI split: sum.split)

text \<open>A finished job tells the truth.  After the work, the cancellation flag is read once, the
  ledger is written and exactly one snapshot is shown, the one the job keeps; its status is the
  verdict on the counters and failures (\<open>final_status\<close>: completed only without a failure, a skipped
  file or a cancellation), and if the ledger refused the entry the job is shown as failed for that
  reason, never with the refused verdict.\<close>

theorem job_verdict:
  "\<exists>stopped entries.
     fst (conclude_job env s) = Done () \<and>
     ts_log (snd (conclude_job env s)) =
       ts_log s @ [EvCancelled stopped] @ entries @ [EvNotify (sc_snapshot (ts_cell (snd (conclude_job env s))))] \<and>
     saved_verdict (sc_history (ts_cell s)) stopped (sc_snapshot (ts_cell s)) entries
       (sc_snapshot (ts_cell (snd (conclude_job env s))))"
  using conclude_job_wp [of env s] unfolding wp_def by (simp add: split_beta)

subsection \<open>A worker always settles its job\<close>

lemma wp_any: "(\<And>r s'. Q r s') \<Longrightarrow> wp m Q s"
  by (auto simp: wp_def split: prod.split)

lemma wp_bindI:
  "wp m (\<lambda>r s'. case r of Done x \<Rightarrow> wp (f x) Q s' | Raised e \<Rightarrow> Q (Raised e) s' | Hung \<Rightarrow> Q Hung s') s \<Longrightarrow> wp (act_bind m f) Q s"
  by (simp add: wp_bind)

lemma failed_terminal: "is_terminal Failed" "is_terminal Cancelled"
  by (simp_all add: is_terminal_def)

lemma finalize_wp:
  assumes "is_terminal requested"
  shows "wp (finalize_status env requested) (\<lambda>r s'. r = Done () \<and> is_terminal (sn_status (sc_snapshot (ts_cell s')))) s"
  unfolding finalize_status_def save_terminal_def ledger_update_def publish_def
  by (auto simp: wp_simps wp_tell touch_at_def clear_item_def assms failed_terminal intro!: wp_askI wp_clockI split: sum.split)

lemma cell_write_wp:
  assumes "\<And>sn. sn_status (f sn) = g sn"
  shows "wp (cell_write env force f) (\<lambda>r s'. r = Done () \<and> sn_status (sc_snapshot (ts_cell s')) = g (sc_snapshot (ts_cell s))) s"
  unfolding cell_write_def commit_def persist_quiet_def ledger_update_def publish_def Let_def
  by (auto simp: wp_simps wp_tell touch_at_def assms intro!: wp_askI wp_clockI)

lemma fail_job_wp: "wp (fail_job env m) (\<lambda>r s'. r = Done () \<and> is_terminal (sn_status (sc_snapshot (ts_cell s')))) s"
proof -
  show ?thesis
    unfolding fail_job_def wp_swallow push_failure_def
    by (rule wp_bindI, rule wp_mono [OF cell_write_wp [where g = sn_status]])
      (auto simp: clear_item_def intro!: wp_mono [OF finalize_wp [OF failed_terminal(1)]])
qed

lemma final_status_terminal: "is_terminal (final_status stopped sn)"
  by (simp add: final_status_def is_terminal_def)

lemma run_job_wp:
  "wp (run_job env acquired work) (\<lambda>r s'. case r of Done u \<Rightarrow> is_terminal (sn_status (sc_snapshot (ts_cell s'))) | _ \<Rightarrow> True) s"
proof (cases acquired)
  case False
  then show ?thesis unfolding run_job_def by (auto intro!: wp_mono [OF finalize_wp [OF failed_terminal(2)]])
next
  case True
  have conclude: "wp (conclude_job env) (\<lambda>r s'. case r of Done u \<Rightarrow> is_terminal (sn_status (sc_snapshot (ts_cell s'))) | _ \<Rightarrow> True) s" for s
    unfolding conclude_job_def cancelled_def
    by (auto simp: wp_simps intro!: wp_askI wp_mono [OF finalize_wp [OF final_status_terminal]])
  have early: "wp (cell_write env False (\<lambda>sn. sn\<lparr>sn_status := (if b then Cancelled else Running)\<rparr>))
      (\<lambda>r s'. r = Done () \<and> sn_status (sc_snapshot (ts_cell s')) = (if b then Cancelled else Running)) s" for b s
    by (rule cell_write_wp [where g = "\<lambda>_. if b then Cancelled else Running"]) simp
  let ?Q = "\<lambda>r s'. case r of Done u \<Rightarrow> is_terminal (sn_status (sc_snapshot (ts_cell s'))) | _ \<Rightarrow> True"
  have rest: "wp (act_bind work (\<lambda>_. conclude_job env)) ?Q s" for s
    by (rule wp_bindI, rule wp_any) (auto intro!: wp_mono [OF conclude] split: outcome.splits)
  have tail: "wp (act_bind (cell_write env False (\<lambda>sn. sn\<lparr>sn_status := (if b then Cancelled else Running)\<rparr>)) (\<lambda>_.
      if b then act_return () else act_bind work (\<lambda>_. conclude_job env))) ?Q s" for b s
    by (rule wp_bindI, rule wp_mono [OF early]) (auto simp: wp_return failed_terminal intro!: wp_mono [OF rest] split: outcome.splits)
  show ?thesis
    unfolding run_job_def cancelled_def using True tail by (auto intro!: wp_bindI wp_askI)
qed

text \<open>C23: A worker always settles its job.  Whatever the transfer itself does, also when it raises an
  exception nobody expected, the worker never lets an exception out, and when it returns the
  snapshot it keeps has a terminal status.\<close>

theorem worker_settles:
  "case worker env kind acquired work s of
     (Done u, s') \<Rightarrow> is_terminal (sn_status (sc_snapshot (ts_cell s')))
   | (Raised e, s') \<Rightarrow> False
   | (Hung, s') \<Rightarrow> True"
proof -
  have "wp (worker env kind acquired work)
    (\<lambda>r s'. case r of Done u \<Rightarrow> is_terminal (sn_status (sc_snapshot (ts_cell s'))) | Raised e \<Rightarrow> False | Hung \<Rightarrow> True) s"
    unfolding worker_def wp_catch_all
    by (rule wp_mono [OF run_job_wp]) (auto intro!: wp_mono [OF fail_job_wp] split: outcome.splits)
  then show ?thesis by (auto simp: wp_def split: prod.splits outcome.splits)
qed

end
