(* ===== verification/TransferStartProps.thy ===== *)
theory TransferStartProps
  imports TransferStart TransferJobProps
begin

text \<open>
  What a starting call leaves behind.
\<close>

text \<open>The row a transfer has in the history after some events: the last one the history accepted.\<close>

fun row_after :: "event list \<Rightarrow> transfer_snapshot option \<Rightarrow> transfer_snapshot option" where
  "row_after [] row = row"
| "row_after (EvInsert sn staging (Inr _) # es) row = row_after es (Some sn)"
| "row_after (EvLedger sn staging (Inr _) # es) row = row_after es (Some sn)"
| "row_after (_ # es) row = row_after es row"

lemma row_after_append: "row_after (xs @ ys) row = row_after ys (row_after xs row)"
  by (induction xs row rule: row_after.induct) simp_all

text \<open>The snapshot \<open>sn\<close> with the status \<open>st\<close> at some time, with no current item and no open conflict.\<close>

definition settled_as :: "transfer_status \<Rightarrow> transfer_snapshot \<Rightarrow> transfer_snapshot \<Rightarrow> bool" where
  "settled_as st sn sn' \<longleftrightarrow>
     (\<exists>now. sn' = sn\<lparr>sn_current_item := None, sn_current_item_bytes := 0, sn_current_item_total_bytes := None,
        sn_active_conflict := None, sn_status := st, sn_updated_at := epoch_millis now\<rparr>)"

text \<open>
  How a row that was inserted is taken back: \<open>es\<close> updates it with the settled snapshot, and if this is
  refused, once more with the status failed and the refusal among the failures; then the kept snapshot is
  shown.
\<close>

definition taken_back :: "transfer_status \<Rightarrow> snapshot_cell \<Rightarrow> snapshot_cell \<Rightarrow> event list \<Rightarrow> bool" where
  "taken_back st cell cell' es \<longleftrightarrow>
     (let shown = sc_snapshot cell'; files = sc_staging cell in
      if \<not> sc_history cell then settled_as st (sc_snapshot cell) shown \<and> es = [EvNotify shown]
      else settled_as st (sc_snapshot cell) shown \<and> es = [EvLedger shown files (Inr ()), EvNotify shown] \<or>
        (\<exists>tried what answer. settled_as st (sc_snapshot cell) tried \<and> sn_status shown = Failed \<and>
           sn_failures shown = sn_failures tried @ [ledger_failure] \<and>
           es = [EvLedger tried files (Inl what), EvLedger shown files answer, EvNotify shown]))"

definition both_refused :: "event list \<Rightarrow> bool" where
  "both_refused es \<longleftrightarrow>
     (\<exists>a b files x y n. es = [EvLedger a files (Inl x), EvLedger b files (Inl y), EvNotify n])"

definition row_settled :: "bool \<Rightarrow> snapshot_cell \<Rightarrow> snapshot_cell \<Rightarrow> event list \<Rightarrow> event list \<Rightarrow> bool" where
  "row_settled closing cell cell' before after \<longleftrightarrow>
     (\<exists>es. after = before @ es \<and> taken_back (if closing then Interrupted else Failed) cell cell' es \<and>
        is_terminal (sn_status (sc_snapshot cell')) \<and>
        (sc_history cell \<longrightarrow> row_after after None = Some (sc_snapshot cell') \<or> both_refused es))"

definition start_outcome ::
  "bool \<Rightarrow> bool \<Rightarrow> snapshot_cell \<Rightarrow> event list \<Rightarrow> unit outcome \<Rightarrow> snapshot_cell \<Rightarrow> event list \<Rightarrow> bool" where
  "start_outcome accepted closing cell before r cell' after \<longleftrightarrow>
     (let inserted = (\<lambda>x. if sc_history cell then [EvInsert (sc_snapshot cell) (sc_staging cell) x] else [])
      in case r of
          Done _ \<Rightarrow> accepted \<and> cell' = cell \<and> after = before @ inserted (Inr ()) @ [EvNotify (sc_snapshot cell)]
        | Raised e \<Rightarrow> (\<exists>c t. e = TransferErr c t) \<and>
            ((\<exists>what. sc_history cell \<and> cell' = cell \<and> after = before @ inserted (Inl what)) \<or>
             \<not> accepted \<and> row_settled closing cell cell' (before @ inserted (Inr ())) after)
        | Hung \<Rightarrow> False)"

lemma settled_asI:
  "settled_as st sn (sn\<lparr>sn_current_item := None, sn_current_item_bytes := 0, sn_current_item_total_bytes := None,
     sn_active_conflict := None, sn_status := st, sn_updated_at := epoch_millis now\<rparr>)"
  by (auto simp: settled_as_def)

lemma settled_status: "settled_as st sn sn' \<Longrightarrow> sn_status sn' = st"
  by (auto simp: settled_as_def)

lemma finalize_takes_back:
  "wp (finalize_status env requested) (\<lambda>r s'. r = Done () \<and>
    (\<exists>es. ts_log s' = ts_log s @ es \<and> taken_back requested (ts_cell s) (ts_cell s') es)) s"
  unfolding finalize_status_def save_terminal_def ledger_update_def publish_def
  by (auto simp: wp_simps wp_tell touch_at_def clear_item_def taken_back_def Let_def
      intro!: wp_askI wp_clockI settled_asI split: sum.split)

lemma interrupted_terminal: "is_terminal Interrupted" "is_terminal Failed"
  by (simp_all add: is_terminal_def)

text \<open>The three ways a row is taken back.\<close>

lemma taken_back_cases:
  assumes "taken_back st cell cell' es"
  obtains (hidden) "\<not> sc_history cell" "sn_status (sc_snapshot cell') = st" "es = [EvNotify (sc_snapshot cell')]"
  | (updated) u where "sn_status (sc_snapshot cell') = st"
      "es = [EvLedger (sc_snapshot cell') (sc_staging cell) (Inr u), EvNotify (sc_snapshot cell')]"
  | (refused) tried what answer where "sn_status (sc_snapshot cell') = Failed"
      "es = [EvLedger tried (sc_staging cell) (Inl what), EvLedger (sc_snapshot cell') (sc_staging cell) answer,
         EvNotify (sc_snapshot cell')]"
  using assms unfolding taken_back_def Let_def by (metis settled_status)

lemma taken_back_terminal:
  assumes "taken_back st cell cell' es" "is_terminal st"
  shows "is_terminal (sn_status (sc_snapshot cell'))"
  using assms(1) by (rule taken_back_cases) (use assms(2) in \<open>simp_all add: interrupted_terminal\<close>)

lemma taken_back_row:
  assumes "taken_back st cell cell' es" "sc_history cell"
  shows "row_after (before @ es) None = Some (sc_snapshot cell') \<or> both_refused es"
  using assms(1)
proof (cases rule: taken_back_cases)
  case (refused tried what answer)
  then show ?thesis by (cases answer) (auto simp: row_after_append both_refused_def)
qed (use assms(2) in \<open>simp_all add: row_after_append\<close>)

lemma taken_back_settles:
  assumes "taken_back (if closing then Interrupted else Failed) cell cell' es"
  shows "row_settled closing cell cell' before (before @ es)"
  using assms taken_back_row [OF assms] taken_back_terminal [OF assms] interrupted_terminal
  unfolding row_settled_def by (cases closing) auto

lemma rolled_back_wp:
  "wp (start_step env True closing (act_throw e)) (\<lambda>r s'. (\<exists>c t. r = Raised (TransferErr c t)) \<and>
    row_settled closing (ts_cell s) (ts_cell s') (ts_log s) (ts_log s')) s"
  unfolding start_step_def start_rollback_def
  by (auto simp: wp_simps split: transfer_exception.split
      intro!: wp_mono [OF finalize_takes_back] intro: taken_back_settles [of True, simplified] taken_back_settles [of False, simplified])

lemma persist_initial_wp:
  "wp (start_step env False closing (persist_initial env)) (\<lambda>r s'. ts_cell s' = ts_cell s \<and>
    (\<exists>x. ts_log s' = ts_log s @ (if sc_history (ts_cell s)
           then [EvInsert (sc_snapshot (ts_cell s)) (sc_staging (ts_cell s)) x] else []) \<and>
       (case r of
          Done u \<Rightarrow> x = Inr ()
        | Raised e \<Rightarrow> sc_history (ts_cell s) \<and> (\<exists>what. x = Inl what) \<and> (\<exists>c t. e = TransferErr c t)
        | Hung \<Rightarrow> False))) s"
  unfolding start_step_def start_rollback_def persist_initial_def ledger_insert_def
  by (auto simp: wp_simps intro!: wp_askI split: sum.split)

lemma start_step_return: "start_step env persisted closing (act_return u) = act_return u"
  by (simp add: start_step_def act_catch_all_def act_return_def fun_eq_iff)

text \<open>C32: A start either takes effect or takes its row back.  When \<open>launch_reserved_job\<close> returns, the job was
  registered and its worker launched, the snapshot is unchanged and was inserted and shown once.  When it raises, the
  exception is a transfer error, and either the history refused the row and nothing was stored, shown or changed, or the row was
  inserted and then written again with the status interrupted (when the manager is closing) or failed, no
  current item and no conflict; where the history refuses this update, a second one says failed
  and names the refusal; then the settled snapshot is shown.  So the row in the history
  is the terminal snapshot that is shown, unless the history refused both updates.\<close>

theorem start_settles:
  "case launch_reserved_job env inserted launched closing s of (r, s') \<Rightarrow>
     start_outcome ((\<exists>m. inserted = Inr m) \<and> launched = None) closing (ts_cell s) (ts_log s) r (ts_cell s') (ts_log s')"
proof -
  let ?Q = "\<lambda>r s'. start_outcome ((\<exists>m. inserted = Inr m) \<and> launched = None) closing (ts_cell s) (ts_log s) r (ts_cell s') (ts_log s')"
  have "wp (launch_reserved_job env inserted launched closing) ?Q s"
    unfolding launch_reserved_job_def
    apply (rule wp_bindI, rule wp_mono [OF persist_initial_wp])
    apply (cases inserted; cases launched)
       apply (auto simp: start_step_return wp_simps wp_tell publish_initial_def publish_def start_outcome_def Let_def
        intro!: wp_mono [OF rolled_back_wp] split: outcome.splits)
    done
  then show ?thesis by (simp add: wp_def split_beta)
qed

text \<open>\<^verbatim>\<open>shutdown\<close> may write over a status that was already final.\<close>

theorem shutdown_overwrites_status:
  "sn_status (sc_snapshot (ts_cell (snd (interrupt_job env s)))) = Interrupted"
  using cell_write_wp [of "\<lambda>sn. sn\<lparr>sn_status := Interrupted, sn_active_conflict := None, sn_current_item := None\<rparr>"
      "\<lambda>_. Interrupted" env False s]
  by (simp add: interrupt_job_def wp_def split_beta)

end
