(* ===== verification/TransferManagerProps.thy ===== *)
theory TransferManagerProps
  imports TransferManager
begin

text \<open>
  What the manager keeps under every interleaving of its calls and workers: the admission count,
  the permits, the job table and shutdown; and what its conflict decisions and listings promise.
\<close>

subsection \<open>Counting threads\<close>

definition holds :: "transfer_thread \<Rightarrow> bool" where
  "holds t \<longleftrightarrow> tt_worker t = HoldingPermit"

definition tally :: "('a \<Rightarrow> bool) \<Rightarrow> 'a list \<Rightarrow> nat" where
  "tally P xs = length (filter P xs)"

lemma tally_simps [simp]: "tally P [] = 0" "tally P (x # xs) = of_bool (P x) + tally P xs"
  "tally P (xs @ ys) = tally P xs + tally P ys"
  by (simp_all add: tally_def)

lemma tally_update: "i < length xs \<Longrightarrow> tally P (xs[i := y]) + of_bool (P (xs ! i)) = tally P xs + of_bool (P y)"
proof (induction xs arbitrary: i)
  case (Cons x xs)
  then show ?case by (cases i) auto
qed simp

lemma tally_map: "(\<And>x. P (f x) = P x) \<Longrightarrow> tally P (map f xs) = tally P xs"
  by (induction xs) auto

lemma tally_pos: "x \<in> set xs \<Longrightarrow> P x \<Longrightarrow> 0 < tally P xs"
  by (induction xs) auto

lemma tally_zero: "tally P xs = 0 \<longleftrightarrow> (\<forall>x\<in>set xs. \<not> P x)"
  by (induction xs) auto

lemma nth_update: "i < length xs \<Longrightarrow> xs[i := y] ! j = (if j = i then y else xs ! j)"
  by (simp add: nth_list_update)

subsection \<open>The invariant\<close>

text \<open>A worker runs only for a start that launched it, and a launched start has one.\<close>

definition phases_ok :: "transfer_thread \<Rightarrow> bool" where
  "phases_ok t \<longleftrightarrow>
     (tt_start t = Reserved \<or> tt_start t = Registered \<longrightarrow> tt_worker t = NotLaunched) \<and>
     (tt_start t = Launched \<longrightarrow> tt_worker t \<noteq> NotLaunched)"

definition manager_ok :: "manager \<Rightarrow> bool" where
  "manager_ok m \<longleftrightarrow>
     mg_active m = tally owns_admission (mg_threads m) \<and> mg_active m \<le> maximum_admitted m \<and>
     mg_available m + tally holds (mg_threads m) = mg_parallel m \<and>
     list_all phases_ok (mg_threads m) \<and>
     (mg_shutdown_complete m \<longrightarrow> mg_shutting_down m \<and> mg_active m = 0)"

lemma manager_okI:
  "mg_active m = tally owns_admission (mg_threads m) \<Longrightarrow> mg_active m \<le> maximum_admitted m \<Longrightarrow>
   mg_available m + tally holds (mg_threads m) = mg_parallel m \<Longrightarrow> list_all phases_ok (mg_threads m) \<Longrightarrow>
   (mg_shutdown_complete m \<Longrightarrow> mg_shutting_down m \<and> mg_active m = 0) \<Longrightarrow> manager_ok m"
  by (simp add: manager_ok_def)

lemma manager_okD:
  assumes "manager_ok m"
  shows "mg_active m = tally owns_admission (mg_threads m)" "mg_active m \<le> maximum_admitted m"
    "mg_available m + tally holds (mg_threads m) = mg_parallel m" "list_all phases_ok (mg_threads m)"
    "mg_shutdown_complete m \<Longrightarrow> mg_shutting_down m \<and> mg_active m = 0"
  using assms by (simp_all add: manager_ok_def)

lemma owner_active: "manager_ok m \<Longrightarrow> i < length (mg_threads m) \<Longrightarrow> owns_admission (thread_at m i) \<Longrightarrow> 0 < mg_active m"
  using tally_pos [of "thread_at m i" "mg_threads m" owns_admission] by (simp add: manager_ok_def)

lemma owner_not_closed: "manager_ok m \<Longrightarrow> i < length (mg_threads m) \<Longrightarrow> owns_admission (thread_at m i) \<Longrightarrow> \<not> mg_shutdown_complete m"
  using owner_active manager_okD(5) by fastforce

text \<open>A step of one thread that keeps its admission, then one that may give it up.\<close>

lemma thread_step_ok:
  assumes ok: "manager_ok m" and i: "i < length (mg_threads m)" and old: "owns_admission (thread_at m i)"
    and new: "owns_admission (f (thread_at m i))" "phases_ok (f (thread_at m i))"
    and permits: "a + of_bool (holds (f (thread_at m i))) = mg_available m + of_bool (holds (thread_at m i))"
  shows "manager_ok (update_thread i f (m\<lparr>mg_available := a, mg_jobs := jobs\<rparr>))"
proof (rule manager_okI)
  have threads: "mg_threads (update_thread i f (m\<lparr>mg_available := a, mg_jobs := jobs\<rparr>)) = (mg_threads m)[i := f (thread_at m i)]"
    by (simp add: update_thread_def)
  have same: "tally owns_admission ((mg_threads m)[i := f (thread_at m i)]) = tally owns_admission (mg_threads m)"
    using tally_update [OF i, of owns_admission "f (thread_at m i)"] old new(1) by simp
  have hold: "tally holds ((mg_threads m)[i := f (thread_at m i)]) + of_bool (holds (thread_at m i)) =
      tally holds (mg_threads m) + of_bool (holds (f (thread_at m i)))"
    using tally_update [OF i, of holds "f (thread_at m i)"] .
  show "mg_available (update_thread i f (m\<lparr>mg_available := a, mg_jobs := jobs\<rparr>)) +
      tally holds (mg_threads (update_thread i f (m\<lparr>mg_available := a, mg_jobs := jobs\<rparr>))) =
      mg_parallel (update_thread i f (m\<lparr>mg_available := a, mg_jobs := jobs\<rparr>))"
    unfolding threads using hold permits manager_okD(3) [OF ok] by (simp add: update_thread_def)
  show "list_all phases_ok (mg_threads (update_thread i f (m\<lparr>mg_available := a, mg_jobs := jobs\<rparr>)))"
    unfolding threads using manager_okD(4) [OF ok] new(2) i by (auto simp: list_all_iff dest!: in_set_conv_nth [THEN iffD1] split: if_splits)
      (metis nth_list_update nth_mem length_list_update)
qed (use manager_okD(1,2) [OF ok] manager_okD(5) [OF ok] tally_update [OF i, of owns_admission "f (thread_at m i)"] old new(1)
    in \<open>simp_all add: update_thread_def maximum_admitted_def\<close>)

lemma jobs_available: "m\<lparr>mg_available := mg_available m, mg_jobs := jobs\<rparr> = m\<lparr>mg_jobs := jobs\<rparr>" "m\<lparr>mg_jobs := mg_jobs m\<rparr> = m"
  "m\<lparr>mg_available := a, mg_jobs := mg_jobs m\<rparr> = m\<lparr>mg_available := a\<rparr>"
  by simp_all

lemma leave_step_ok:
  assumes ok: "manager_ok m" and i: "i < length (mg_threads m)" and old: "owns_admission (thread_at m i)"
    and new: "phases_ok (f (thread_at m i))" and permits: "holds (f (thread_at m i)) = holds (thread_at m i)"
  shows "manager_ok (release_admission i (update_thread i f (m\<lparr>mg_jobs := jobs\<rparr>)))"
proof (cases "owns_admission (f (thread_at m i))")
  case True
  have "manager_ok (update_thread i f (m\<lparr>mg_available := mg_available m, mg_jobs := jobs\<rparr>))"
    by (rule thread_step_ok [where f = f, OF ok i old True new]) (simp add: permits)
  with True i show ?thesis by (simp add: release_admission_def update_thread_def)
next
  case False
  have threads: "mg_threads (update_thread i f (m\<lparr>mg_jobs := jobs\<rparr>)) = (mg_threads m)[i := f (thread_at m i)]"
    by (simp add: update_thread_def)
  have left: "release_admission i (update_thread i f (m\<lparr>mg_jobs := jobs\<rparr>)) =
      (update_thread i f (m\<lparr>mg_jobs := jobs\<rparr>))\<lparr>mg_active := mg_active m - 1\<rparr>"
    using False i by (simp add: release_admission_def update_thread_def)
  have count: "tally owns_admission ((mg_threads m)[i := f (thread_at m i)]) + 1 = tally owns_admission (mg_threads m)"
    using tally_update [OF i, of owns_admission "f (thread_at m i)"] old False by simp
  have hold: "tally holds ((mg_threads m)[i := f (thread_at m i)]) = tally holds (mg_threads m)"
    using tally_update [OF i, of holds "f (thread_at m i)"] permits by simp
  have phases: "list_all phases_ok ((mg_threads m)[i := f (thread_at m i)])"
    using manager_okD(4) [OF ok] new i set_update_subset_insert [of "mg_threads m" i] by (fastforce simp: list_all_iff)
  show ?thesis
    unfolding left
    by (rule manager_okI)
      (use manager_okD [OF ok] owner_not_closed [OF ok i old] count hold phases threads
        in \<open>simp_all add: update_thread_def maximum_admitted_def\<close>)
qed

lemma cancel_same: "owns_admission (t\<lparr>tt_cancel := b\<rparr>) = owns_admission t" "holds (t\<lparr>tt_cancel := b\<rparr>) = holds t"
  "phases_ok (t\<lparr>tt_cancel := b\<rparr>) = phases_ok t"
  by (simp_all add: owns_admission_def holds_def phases_ok_def)

lemma cancelling_ok:
  assumes ok: "manager_ok m"
    and same: "\<And>t. owns_admission (f t) = owns_admission t" "\<And>t. holds (f t) = holds t" "\<And>t. phases_ok (f t) = phases_ok t"
  shows "manager_ok (m\<lparr>mg_threads := map f (mg_threads m)\<rparr>)"
    "manager_ok (m\<lparr>mg_shutting_down := True, mg_threads := map f (mg_threads m)\<rparr>)"
  using ok tally_map [of owns_admission f, OF same(1)] tally_map [of holds f, OF same(2)] same(3)
  by (auto simp: manager_ok_def maximum_admitted_def list_all_iff)

lemma mstep_ok: "mstep m m' \<Longrightarrow> manager_ok m \<Longrightarrow> manager_ok m'"
proof (induction rule: mstep.induct)
  case (admitted new_id m m')
  then show ?case
    by (auto simp: admit_def manager_ok_def maximum_admitted_def owns_admission_def holds_def phases_ok_def split: if_splits)
next
  case (registered i m m')
  then have "manager_ok (update_thread i (\<lambda>t. t\<lparr>tt_start := Registered\<rparr>)
      (m\<lparr>mg_available := mg_available m, mg_jobs := insert (tt_id (thread_at m i)) (mg_jobs m)\<rparr>))"
    using manager_okD(4) [of m]
    by (intro thread_step_ok) (auto simp: owns_admission_def holds_def phases_ok_def list_all_length)
  with registered show ?case by (auto simp: insert_job_def split: if_splits)
next
  case (abandoned i m)
  have "manager_ok (release_admission i (update_thread i (\<lambda>t. t\<lparr>tt_start := Returned\<rparr>) (m\<lparr>mg_jobs := jobs\<rparr>)))" for jobs
    using abandoned manager_okD(4) [of m]
    by (intro leave_step_ok) (auto simp: owns_admission_def holds_def phases_ok_def list_all_length)
  from this [of "mg_jobs m - {tt_id (thread_at m i)}"] this [of "mg_jobs m"] show ?case
    by (auto simp: abandon_start_def Let_def)
next
  case (launched i m)
  then have "manager_ok (update_thread i (\<lambda>t. t\<lparr>tt_start := Launched, tt_worker := WaitingPermit\<rparr>)
      (m\<lparr>mg_available := mg_available m, mg_jobs := mg_jobs m\<rparr>))"
    using manager_okD(4) [of m]
    by (intro thread_step_ok) (auto simp: owns_admission_def holds_def phases_ok_def list_all_length)
  then show ?case by (simp add: launch_worker_def)
next
  case (returned i m)
  have "manager_ok (release_admission i (update_thread i (\<lambda>t. t\<lparr>tt_start := Returned\<rparr>) (m\<lparr>mg_jobs := mg_jobs m\<rparr>)))"
    using returned manager_okD(4) [of m]
    by (intro leave_step_ok) (auto simp: owns_admission_def holds_def phases_ok_def list_all_length)
  then show ?case by (simp add: return_start_def)
next
  case (acquired i m r m')
  have owns: "owns_admission (thread_at m i)" using acquired(2) by (simp add: owns_admission_def)
  have phases: "phases_ok (thread_at m i)" using acquired manager_okD(4) [of m] by (simp add: list_all_length)
  have take: "manager_ok (update_thread i (\<lambda>t. t\<lparr>tt_worker := HoldingPermit\<rparr>)
      (m\<lparr>mg_available := mg_available m - 1, mg_jobs := mg_jobs m\<rparr>))" if "0 < mg_available m"
    by (rule thread_step_ok [OF acquired(4,1) owns])
      (use that acquired(2) phases in \<open>auto simp: owns_admission_def holds_def phases_ok_def\<close>)
  have give_up: "manager_ok (update_thread i (\<lambda>t. t\<lparr>tt_worker := PermitReleased\<rparr>)
      (m\<lparr>mg_available := mg_available m, mg_jobs := mg_jobs m\<rparr>))"
    by (rule thread_step_ok [OF acquired(4,1) owns])
      (use acquired(2) phases in \<open>auto simp: owns_admission_def holds_def phases_ok_def\<close>)
  show ?case
    using acquired(3,4) take give_up by (auto simp: acquire_def split: if_splits)
next
  case (released i m)
  have "manager_ok (update_thread i (\<lambda>t. t\<lparr>tt_worker := PermitReleased\<rparr>)
      (m\<lparr>mg_available := mg_available m + 1, mg_jobs := mg_jobs m\<rparr>))"
    using released manager_okD(4) [of m]
    by (intro thread_step_ok) (auto simp: owns_admission_def holds_def phases_ok_def list_all_length)
  then show ?case by (simp add: release_permit_def)
next
  case (finished i m)
  have "manager_ok (release_admission i (update_thread i (\<lambda>t. t\<lparr>tt_worker := WorkerGone\<rparr>) (m\<lparr>mg_jobs := jobs\<rparr>)))" for jobs
    using finished manager_okD(4) [of m]
    by (intro leave_step_ok) (auto simp: owns_admission_def holds_def phases_ok_def list_all_length)
  from this [of "mg_jobs m - {tt_id (thread_at m i)}"] this [of "mg_jobs m"] show ?case
    by (auto simp: finish_worker_def Let_def)
next
  case (cancelling i m m')
  then show ?case
    using cancelling_ok(1) [of m "cancel_thread i"] by (auto simp: cancel_transfer_def cancel_thread_def cancel_same split: if_splits)
next
  case (closing m terminal)
  then show ?case
    using cancelling_ok(2) [of m "\<lambda>t. if tt_id t \<in> mg_jobs m \<and> \<not> terminal (tt_id t) then t\<lparr>tt_cancel := True\<rparr> else t"]
    by (auto simp: begin_shutdown_def cancel_same)
next
  case (closed m m')
  then show ?case by (auto simp: finish_shutdown_def manager_ok_def maximum_admitted_def split: if_splits)
qed

lemma mstep_parallel: "mstep m m' \<Longrightarrow> mg_parallel m' = mg_parallel m"
  by (induction rule: mstep.induct)
    (auto simp: admit_def insert_job_def abandon_start_def launch_worker_def return_start_def acquire_def release_permit_def
      finish_worker_def cancel_transfer_def begin_shutdown_def finish_shutdown_def update_thread_def release_admission_def Let_def
      split: if_splits)

lemma reachable_ok: "reachable_from n history m \<Longrightarrow> manager_ok m \<and> mg_parallel m = clamp_parallel n"
proof (induction rule: reachable_from.induct)
  case start
  show ?case by (simp add: manager_ok_def new_manager_def)
next
  case (step m m')
  then show ?case using mstep_ok mstep_parallel by simp
qed

text \<open>C18: The manager never takes on more than it can: in every reachable state, however its calls and
  workers interleave, the admission counter is exactly the number of starting calls and workers still
  alive and at most 19 (three transfers and sixteen waiting ones); the permits in hand and the free
  ones add up to the configured parallelism, at least one and at most three; so no error path leaks
  a slot or a permit, and none is released twice.\<close>

theorem manager_bounds:
  assumes "reachable_from n history m"
  shows "length (filter owns_admission (mg_threads m)) = mg_active m \<and> mg_active m \<le> 19 \<and>
    length (filter holds (mg_threads m)) + mg_available m = clamp_parallel n \<and>
    1 \<le> clamp_parallel n \<and> clamp_parallel n \<le> 3"
proof -
  have "manager_ok m" "mg_parallel m = clamp_parallel n" using reachable_ok [OF assms] by auto
  then show ?thesis
    by (auto simp: manager_ok_def tally_def maximum_admitted_def clamp_parallel_def kMaxParallelTransfers_def kMaxPendingTransfers_def)
qed

definition one_running :: manager where
  "one_running =
     \<lparr>mg_parallel = 1, mg_history = True, mg_available = 0, mg_active = 1, mg_jobs = {''t1''},
      mg_threads = [\<lparr>tt_id = ''t1'', tt_start = Returned, tt_worker = HoldingPermit, tt_cancel = False\<rparr>],
      mg_shutting_down = False, mg_shutdown_complete = False\<rparr>"

lemmas manager_runs =
  new_manager_def admit_def insert_job_def launch_worker_def return_start_def acquire_def release_permit_def finish_worker_def
  begin_shutdown_def finish_shutdown_def update_thread_def release_admission_def owns_admission_def clamp_parallel_def
  kMaxParallelTransfers_def kMaxPendingTransfers_def maximum_admitted_def

lemma one_running_reachable: "reachable_from 1 True one_running"
proof -
  define admitted where "admitted = (case admit ''t1'' (new_manager 1 True) of Inr m \<Rightarrow> m)"
  define registered where "registered = (case insert_job 0 admitted of Inr m \<Rightarrow> m)"
  define started where "started = return_start 0 (launch_worker 0 registered)"
  note runs = admitted_def registered_def started_def one_running_def manager_runs
  have "reachable_from 1 True admitted"
    by (rule reachable_from.step [OF reachable_from.start], rule mstep.admitted [of "''t1''"]) (simp_all add: runs)
  then have "reachable_from 1 True registered"
    by (rule reachable_from.step, intro mstep.registered [of 0]) (simp_all add: runs)
  then have "reachable_from 1 True (launch_worker 0 registered)"
    by (rule reachable_from.step, intro mstep.launched) (simp_all add: runs)
  then have "reachable_from 1 True started"
    unfolding started_def by (rule reachable_from.step, intro mstep.returned) (simp_all add: runs)
  then show ?thesis
    by (rule reachable_from.step, intro mstep.acquired [of 0 _ "Some True"]) (simp_all add: runs)
qed

theorem manager_bounds_witness:
  "length (filter owns_admission (mg_threads one_running)) = mg_active one_running \<and> mg_active one_running \<le> 19 \<and>
    length (filter holds (mg_threads one_running)) + mg_available one_running = clamp_parallel 1 \<and>
    1 \<le> clamp_parallel 1 \<and> clamp_parallel 1 \<le> 3"
  by (rule manager_bounds [OF one_running_reachable])

text \<open>C33: Shutdown waits for everyone: once it has completed, no starting call and no worker is left, all
  permits are back, and no later step can admit a transfer.\<close>

theorem shutdown_quiescent:
  assumes "reachable_from n history m" "mg_shutdown_complete m"
  shows "list_all (\<lambda>t. \<not> owns_admission t \<and> \<not> holds t) (mg_threads m) \<and> mg_available m = clamp_parallel n \<and>
    admit new_id m = Inl ErrShuttingDown \<and> insert_job i m = Inl ErrShuttingDown"
proof -
  have ok: "manager_ok m" "mg_parallel m = clamp_parallel n" using reachable_ok [OF assms(1)] by auto
  have none: "\<not> owns_admission t" if "t \<in> set (mg_threads m)" for t
    using manager_okD(1) [OF ok(1)] manager_okD(5) [OF ok(1) assms(2)] tally_zero that by metis
  then have free: "\<not> holds t" if "t \<in> set (mg_threads m)" for t
    using that unfolding owns_admission_def holds_def by fastforce
  then have "tally holds (mg_threads m) = 0" by (simp add: tally_zero)
  with ok manager_okD(3,5) [OF ok(1)] assms(2) none free show ?thesis
    by (simp add: list_all_iff admit_def insert_job_def)
qed

definition stopped :: manager where
  "stopped = (case finish_shutdown (finish_worker 0 (release_permit 0 (begin_shutdown (\<lambda>_. False) one_running))) of Some m \<Rightarrow> m)"

lemma stopped_reachable: "reachable_from 1 True stopped" "mg_shutdown_complete stopped"
proof -
  note runs = stopped_def one_running_def manager_runs
  have "reachable_from 1 True (begin_shutdown (\<lambda>_. False) one_running)"
    by (rule reachable_from.step [OF one_running_reachable mstep.closing])
  then have "reachable_from 1 True (release_permit 0 (begin_shutdown (\<lambda>_. False) one_running))"
    by (rule reachable_from.step, intro mstep.released) (simp_all add: runs)
  then have "reachable_from 1 True (finish_worker 0 (release_permit 0 (begin_shutdown (\<lambda>_. False) one_running)))"
    by (rule reachable_from.step, intro mstep.finished) (simp_all add: runs)
  then show "reachable_from 1 True stopped"
    by (rule reachable_from.step, intro mstep.closed) (simp add: runs)
  show "mg_shutdown_complete stopped" by (simp add: runs)
qed

theorem shutdown_quiescent_witness:
  "list_all (\<lambda>t. \<not> owns_admission t \<and> \<not> holds t) (mg_threads stopped) \<and> mg_available stopped = clamp_parallel 1 \<and>
    admit ''t2'' stopped = Inl ErrShuttingDown \<and> insert_job 0 stopped = Inl ErrShuttingDown"
  by (rule shutdown_quiescent [OF stopped_reachable])

subsection \<open>Decisions and listings\<close>

text \<open>A conflict decision is queued exactly for the item that waits: the snapshot waits for a
  decision on that item, the action is one of those offered for it, and a new name is a safe one; every
  other call is refused and queues nothing.\<close>

theorem conflict_decision_valid:
  "resolve_conflict sn item_index action = Inr decision \<longleftrightarrow>
     decision = (item_index, action) \<and> sn_status sn = WaitingConflict \<and>
     (\<exists>conflict. sn_active_conflict sn = Some conflict \<and> cr_item_index conflict = item_index \<and>
        ca_kind action \<in> set (cr_allowed_actions conflict)) \<and>
     (case ca_kind action of RenameAction \<Rightarrow> validate_safe_name (ca_rename_to action) = Inr () | _ \<Rightarrow> True)"
  by (auto simp: resolve_conflict_def split: option.splits sum.splits conflict_action_kind.splits)

end
