(* ===== verification/TransferRecovery.thy ===== *)
theory TransferRecovery
  imports TransferFile
begin

text \<open>
  Recovery of interrupted transfers: \<^verbatim>\<open>recover_into\<close> at startup and \<^verbatim>\<open>reconcile_remote_staging\<close> once
  a session is authenticated (\<^verbatim>\<open>src/native/desktop_host/src/transfer_manager.cpp\<close>).
\<close>

subsection \<open>Startup\<close>

definition name_or :: "string \<Rightarrow> string \<Rightarrow> string" where
  "name_or name fallback = (if name = [] then fallback else name)"

definition pending_cleanup :: string where
  "pending_cleanup = ''remote staging cleanup is pending an authenticated server session''"

definition staging_record_owned :: "transfer_snapshot \<Rightarrow> staging_file \<Rightarrow> bool" where
  "staging_record_owned sn artifact \<longleftrightarrow>
     sf_server_id artifact = sn_server_id sn \<and> remote_path_is_valid (sf_path artifact) \<and>
     is_owned_staging_name (name_or (basename_of (sf_path artifact)) ''remote staging file'') (sn_transfer_id sn)"

text \<open>One artifact: the snapshot with its failure, and whether the artifact stays pending.\<close>

definition recover_artifact ::
  "'w transfer_env \<Rightarrow> transfer_snapshot \<Rightarrow> staging_file \<Rightarrow> ('w, transfer_snapshot \<times> bool) action" where
  "recover_artifact env sn artifact =
     (if \<not> sf_remote artifact then
        act_bind (attempt (remove_recovered_local_staging env (sf_path artifact) (sn_transfer_id sn))) (\<lambda>removed.
        case removed of
          Inr _ \<Rightarrow> act_return (sn, False)
        | Inl (code, message) \<Rightarrow>
            act_bind (read_clock (te_clock (env_host env))) (\<lambda>now.
            act_return (push_recovery_failure now (sf_item_index artifact)
              (name_or (basename_of (sf_path artifact)) ''local staging file'') LocalIo
              (''startup recovery could not clean local staging: '' @ message) sn, True)))
      else
        act_bind (read_clock (te_clock (env_host env))) (\<lambda>now.
        act_return
          (if staging_record_owned sn artifact
           then push_recovery_failure now (sf_item_index artifact)
             (name_or (basename_of (sf_path artifact)) ''remote staging file'') RemoteIo pending_cleanup sn
           else push_recovery_failure now (sf_item_index artifact) ''remote staging record'' RemoteIo
             ''startup recovery rejected a remote staging record that did not match its owner'' sn, True)))"

fun recover_artifacts ::
  "'w transfer_env \<Rightarrow> transfer_snapshot \<Rightarrow> staging_file list \<Rightarrow> ('w, transfer_snapshot \<times> staging_file list) action" where
  "recover_artifacts env sn [] = act_return (sn, [])"
| "recover_artifacts env sn (artifact # artifacts) =
     act_bind (recover_artifact env sn artifact) (\<lambda>(sn', kept).
     act_bind (recover_artifacts env sn' artifacts) (\<lambda>(sn'', unclean).
     act_return (sn'', if kept then artifact # unclean else unclean)))"

definition recover_record ::
  "'w transfer_env \<Rightarrow> transfer_snapshot \<Rightarrow> staging_file list \<Rightarrow> ('w, staging_file list) action" where
  "recover_record env snapshot staging =
     act_bind (recover_artifacts env snapshot staging) (\<lambda>(sn, unclean).
     act_bind (ledger_update env sn unclean) (\<lambda>saved.
     case saved of
       Inl what \<Rightarrow> throw_local (''could not persist transfer recovery: '' @ what)
     | Inr _ \<Rightarrow> act_return unclean))"

text \<open>The result is \<^verbatim>\<open>pending_recovery\<close>; \<open>recovered\<close> is what \<^verbatim>\<open>history->recover\<close> returned.\<close>

fun recover_records ::
  "'w transfer_env \<Rightarrow> (transfer_snapshot \<times> staging_file list) list \<Rightarrow> ('w, (string \<times> staging_file list) list) action" where
  "recover_records env [] = act_return []"
| "recover_records env ((sn, staging) # records) =
     act_bind (recover_record env sn staging) (\<lambda>unclean.
     act_bind (recover_records env records) (\<lambda>rest.
     act_return (if unclean = [] then rest else (sn_transfer_id sn, unclean) # rest)))"

definition recover_into ::
  "'w transfer_env \<Rightarrow> string + (transfer_snapshot \<times> staging_file list) list \<Rightarrow> ('w, (string \<times> staging_file list) list) action" where
  "recover_into env recovered =
     (case recovered of
        Inl what \<Rightarrow> throw_local (''transfer recovery failed: '' @ what)
      | Inr records \<Rightarrow> recover_records env records)"

subsection \<open>With a session\<close>

definition remove_recovered :: "'w transfer_env \<Rightarrow> string \<Rightarrow> string \<Rightarrow> ('w, unit) action" where
  "remove_recovered env server path =
     invoke (te_remove_recovered (env_backend env) server path) (\<lambda>r. Remote (RRemoveRecovered server path r))"

text \<open>One artifact of transfer \<open>tid\<close>: whether it was removed.\<close>

definition reconcile_artifact :: "'w transfer_env \<Rightarrow> string \<Rightarrow> staging_file \<Rightarrow> ('w, bool) action" where
  "reconcile_artifact env tid artifact =
     (if sf_remote artifact \<and> is_owned_staging_name (basename_of (sf_path artifact)) tid \<and> remote_path_is_valid (sf_path artifact)
      then act_catch_all
        (act_bind (remove_recovered env (sf_server_id artifact) (sf_path artifact)) (\<lambda>_. act_return True)) (\<lambda>_. act_return False)
      else act_return False)"

fun reconcile_artifacts ::
  "'w transfer_env \<Rightarrow> string \<Rightarrow> staging_file list \<Rightarrow> ('w, staging_file list \<times> string list) action" where
  "reconcile_artifacts env tid [] = act_return ([], [])"
| "reconcile_artifacts env tid (artifact # artifacts) =
     act_bind (reconcile_artifact env tid artifact) (\<lambda>removed.
     act_bind (reconcile_artifacts env tid artifacts) (\<lambda>(remaining, cleaned).
     act_return (if removed then (remaining, basename_of (sf_path artifact) # cleaned) else (artifact # remaining, cleaned))))"

definition forget_cleaned :: "string list \<Rightarrow> transfer_snapshot \<Rightarrow> transfer_snapshot" where
  "forget_cleaned cleaned sn =
     sn\<lparr>sn_staging_residue := filter (\<lambda>name. name \<notin> set cleaned) (sn_staging_residue sn),
        sn_failures := filter (\<lambda>f. \<not> (if_message f = pending_cleanup \<and>
          (case if_staging_residue f of Some residue \<Rightarrow> residue \<in> set cleaned | None \<Rightarrow> False))) (sn_failures sn)\<rparr>"

text \<open>
  One transfer: the staging files that stay pending.  \<open>lookup\<close> is \<^verbatim>\<open>history->get\<close>, absent when the
  manager has no history; when it fails or finds nothing the entry is left as it was.
\<close>

definition reconcile_transfer ::
  "'w transfer_env \<Rightarrow> (string \<Rightarrow> (transfer_snapshot option) option) option \<Rightarrow> string \<Rightarrow> staging_file list \<Rightarrow> ('w, staging_file list) action" where
  "reconcile_transfer env lookup tid staging =
     act_bind (reconcile_artifacts env tid staging) (\<lambda>(remaining, cleaned).
     if cleaned = [] then act_return staging
     else case lookup of
         None \<Rightarrow> act_return remaining
       | Some get \<Rightarrow>
           (case get tid of
              Some (Some sn) \<Rightarrow>
                act_bind (read_clock (te_clock (env_host env))) (\<lambda>now.
                act_bind (ledger_update env (touch_at now (forget_cleaned cleaned sn)) remaining) (\<lambda>_.
                act_return remaining))
            | _ \<Rightarrow> act_return staging))"

fun reconcile_remote_staging ::
  "'w transfer_env \<Rightarrow> (string \<Rightarrow> (transfer_snapshot option) option) option \<Rightarrow> (string \<times> staging_file list) list \<Rightarrow>
   ('w, (string \<times> staging_file list) list) action" where
  "reconcile_remote_staging env lookup [] = act_return []"
| "reconcile_remote_staging env lookup ((tid, staging) # entries) =
     act_bind (reconcile_transfer env lookup tid staging) (\<lambda>remaining.
     act_bind (reconcile_remote_staging env lookup entries) (\<lambda>rest.
     act_return ((tid, remaining) # rest)))"

end
