(* ===== verification/TransferRecoveryProps.thy ===== *)
theory TransferRecoveryProps
  imports TransferRecovery TransferFacts
begin

text \<open>
  Recovery removes only what a record names as a staging file of its own transfer, and forgets only
  what it saw gone.
\<close>

subsection \<open>Startup\<close>

text \<open>
  A try at the staging file \<open>path\<close> of transfer \<open>tid\<close>: looks and removals of this one path, and a removal only of
  an absolute path with an owned name that was seen as a regular file in a real directory.
\<close>

definition staging_look :: "event \<Rightarrow> bool" where
  "staging_look e \<longleftrightarrow> (\<exists>p t x. e = Local (LStatus p t x))"

definition staging_try :: "'w transfer_env \<Rightarrow> string \<Rightarrow> string \<Rightarrow> event list \<Rightarrow> bool" where
  "staging_try env tid path es \<longleftrightarrow>
     list_all (\<lambda>e. staging_look e \<or> (\<exists>x. e = Local (LRemove path x))) es \<and>
     ((\<exists>x. Local (LRemove path x) \<in> set es) \<longrightarrow>
        te_is_absolute (env_paths env) path \<and> is_owned_staging_name (te_filename (env_paths env) path) tid \<and>
        Local (LStatus path RegularFile None) \<in> set es \<and>
        Local (LStatus (te_parent (env_paths env) path) DirectoryFile None) \<in> set es)"

definition seen_gone :: "string \<Rightarrow> event list \<Rightarrow> bool" where
  "seen_gone path es \<longleftrightarrow>
     Local (LRemove path True) \<in> set es \<or> (\<exists>t e. Local (LStatus path t e) \<in> set es \<and> status_missing t e)"

text \<open>One artifact: the events, and whether it stays pending.\<close>

definition artifact_tried :: "'w transfer_env \<Rightarrow> string \<Rightarrow> staging_file \<Rightarrow> event list \<Rightarrow> bool \<Rightarrow> bool" where
  "artifact_tried env tid a es kept \<longleftrightarrow>
     (if sf_remote a then es = [] \<and> kept
      else staging_try env tid (sf_path a) es \<and>
        (if kept then Local (LRemove (sf_path a) True) \<notin> set es else seen_gone (sf_path a) es))"

text \<open>The artifacts of a record, in their order, and the ones left.\<close>

inductive artifacts_tried :: "'w transfer_env \<Rightarrow> string \<Rightarrow> staging_file list \<Rightarrow> event list \<Rightarrow> staging_file list \<Rightarrow> bool"
  for env tid where
  tried_none: "artifacts_tried env tid [] [] []"
| tried_next: "artifact_tried env tid a xs kept \<Longrightarrow> artifacts_tried env tid artifacts ys rest \<Longrightarrow>
    artifacts_tried env tid (a # artifacts) (xs @ ys) (if kept then a # rest else rest)"

text \<open>The snapshot that is stored: it only gains failures, and has one for every artifact that is left.\<close>

definition failures_gained :: "transfer_snapshot \<Rightarrow> staging_file list \<Rightarrow> transfer_snapshot \<Rightarrow> bool" where
  "failures_gained sn files sn' \<longleftrightarrow>
     sn_transfer_id sn' = sn_transfer_id sn \<and> sn_status sn' = sn_status sn \<and>
     set (sn_failures sn) \<subseteq> set (sn_failures sn') \<and>
     (\<forall>a\<in>set files. Some (sf_item_index a) \<in> if_item_index ` set (sn_failures sn'))"

text \<open>
  The records in their order: each one's artifacts, then the update of its row with exactly the
  artifacts that are left, which the history accepts, and these artifacts as an entry of the result.
\<close>

inductive records_recovered ::
  "'w transfer_env \<Rightarrow> (transfer_snapshot \<times> staging_file list) list \<Rightarrow> event list \<Rightarrow> (string \<times> staging_file list) list \<Rightarrow> bool"
  for env where
  recovered_none: "records_recovered env [] [] []"
| recovered_next: "artifacts_tried env (sn_transfer_id sn) staging xs files \<Longrightarrow> failures_gained sn files sn' \<Longrightarrow>
    records_recovered env records ys entries \<Longrightarrow>
    records_recovered env ((sn, staging) # records) (xs @ EvLedger sn' files (Inr ()) # ys)
      (if files = [] then entries else (sn_transfer_id sn, files) # entries)"

definition recovery_failure :: "string \<Rightarrow> transfer_exception" where
  "recovery_failure what = TransferErr ErrLocal (''could not persist transfer recovery: '' @ what)"

text \<open>Recovery stops at the record whose update the history refuses.\<close>

definition recovery_refused ::
  "'w transfer_env \<Rightarrow> (transfer_snapshot \<times> staging_file list) list \<Rightarrow> event list \<Rightarrow> transfer_exception \<Rightarrow> bool" where
  "recovery_refused env records es e \<longleftrightarrow>
     (\<exists>before sn staging later xs entries ys files sn' what.
        records = before @ (sn, staging) # later \<and> records_recovered env before xs entries \<and>
        artifacts_tried env (sn_transfer_id sn) staging ys files \<and> failures_gained sn files sn' \<and>
        es = xs @ ys @ [EvLedger sn' files (Inl what)] \<and>
        e = recovery_failure what)"

lemma spec_clocked: "(\<And>t st. Q (Done (g t)) st [] st) \<Longrightarrow> spec (act_bind (read_clock f) (\<lambda>t. act_return (g t))) Q"
  by (rule spec_bindI [OF spec_clock [where Q = "\<lambda>r st new st'. (\<exists>t. r = Done t) \<and> new = [] \<and> st' = st"] spec_return
        [where Q = "\<lambda>r st new st'. new = [] \<and> st' = st \<and> (\<exists>t. r = Done (g t))"]]) auto

lemma failures_gained_Nil: "failures_gained sn [] sn"
  by (simp add: failures_gained_def)

lemma failures_gained_trans:
  "failures_gained sn xs sn1 \<Longrightarrow> failures_gained sn1 ys sn2 \<Longrightarrow> failures_gained sn (xs @ ys) sn2"
  by (fastforce simp: failures_gained_def)

lemma push_recovery_gains: "failures_gained sn [a] (push_recovery_failure now (sf_item_index a) w k m sn)"
  by (auto simp: failures_gained_def push_recovery_failure_def touch_at_def Let_def list_ex_iff) (metis image_eqI)

lemma spec_status:
  "spec (symlink_status env path) (\<lambda>r st new st'. \<exists>t e. r = Done (t, e) \<and> new = [Local (LStatus path t e)])"
  unfolding symlink_status_def by (rule spec_ask) (auto split: prod.splits)

lemma spec_local_remove:
  "spec (local_remove env path) (\<lambda>r st new st'. \<exists>x. r = Done x \<and> new = [Local (LRemove path x)])"
  unfolding local_remove_def by (rule spec_ask) auto

text \<open>How a removal ends, and that a file it removed does not stay.\<close>

definition removal_ended :: "'w transfer_env \<Rightarrow> string \<Rightarrow> string \<Rightarrow> unit outcome \<Rightarrow> event list \<Rightarrow> bool" where
  "removal_ended env tid path r es \<longleftrightarrow>
     staging_try env tid path es \<and>
     (case r of
        Done _ \<Rightarrow> seen_gone path es
      | Raised e \<Rightarrow> (\<exists>c t. e = TransferErr c t) \<and> Local (LRemove path True) \<notin> set es
      | Hung \<Rightarrow> False)"

lemma staging_try_looks: "list_all staging_look es \<Longrightarrow> staging_try env tid path es"
  by (fastforce simp: staging_try_def staging_look_def list_all_iff)

lemma look_simps [simp]: "staging_look (Local (LStatus p t x))" "\<not> staging_look (Local (LRemove p y))"
  by (simp_all add: staging_look_def)

lemma removal_gave_up: "list_all staging_look es \<Longrightarrow> removal_ended env tid path (Raised (TransferErr c t)) es"
  by (fastforce simp: removal_ended_def staging_try_looks staging_look_def list_all_iff)

lemma removal_missing:
  "list_all staging_look es \<Longrightarrow> Local (LStatus path t e) \<in> set es \<Longrightarrow> status_missing t e \<Longrightarrow>
   removal_ended env tid path (Done u) es"
  by (auto simp: removal_ended_def staging_try_looks seen_gone_def)

lemma remove_seen_spec:
  assumes "te_is_absolute (env_paths env) path" "is_owned_staging_name (te_filename (env_paths env) path) tid"
    and seen: "looks = [Local (LStatus (te_parent (env_paths env) path) DirectoryFile None), Local (LStatus path RegularFile None)]"
  shows "spec (act_bind (local_remove env path) (\<lambda>removed.
      throw_if (\<not> removed) ErrLocal m)) (\<lambda>r st new st'. removal_ended env tid path r (looks @ new))"
  by (rule spec_bindI [OF spec_local_remove,
      where T = "\<lambda>x r st new st'. new = [] \<and> r = (if x then Done () else Raised (TransferErr ErrLocal m))"])
    (use assms in \<open>auto simp: throw_if_def act_when_def removal_ended_def staging_try_def seen_gone_def
       intro!: spec_throw spec_return\<close>)

lemma remove_local_spec:
  "spec (remove_recovered_local_staging env path tid) (\<lambda>r st new st'. removal_ended env tid path r new)"
proof (cases "\<not> te_is_absolute (env_paths env) path \<or> \<not> is_owned_staging_name (te_filename (env_paths env) path) tid")
  case True
  then show ?thesis
    unfolding remove_recovered_local_staging_def
    by (auto intro!: spec_throw removal_gave_up)
next
  case False
  let ?parent = "Local (LStatus (te_parent (env_paths env) path) DirectoryFile None)"
  have entry: "spec (case x of (t, e) \<Rightarrow>
      if status_missing t e then act_return ()
      else if e \<noteq> None then throw_local ''could not inspect the recovered staging file''
      else if t \<noteq> RegularFile then throw_invalid ''recovered staging entry is not a regular file''
      else act_bind (local_remove env path) (\<lambda>removed.
        throw_if (\<not> removed) ErrLocal ''could not remove the recovered staging file''))
      (\<lambda>r st new st'. removal_ended env tid path r (?parent # Local (LStatus path (fst x) (snd x)) # new))" for x
    using False remove_seen_spec [of env path tid "[?parent, Local (LStatus path RegularFile None)]"]
    by (cases x) (auto intro!: spec_throw spec_return removal_gave_up removal_missing)
  have inner: "spec (act_bind (symlink_status env path) (\<lambda>(t, e).
      if status_missing t e then act_return ()
      else if e \<noteq> None then throw_local ''could not inspect the recovered staging file''
      else if t \<noteq> RegularFile then throw_invalid ''recovered staging entry is not a regular file''
      else act_bind (local_remove env path) (\<lambda>removed.
        throw_if (\<not> removed) ErrLocal ''could not remove the recovered staging file'')))
      (\<lambda>r st new st'. removal_ended env tid path r (?parent # new))"
    by (rule spec_bindI [OF spec_status entry]) auto
  have parent: "spec (case x of (pt, pe) \<Rightarrow>
      if pe \<noteq> None \<or> pt \<noteq> DirectoryFile then throw_invalid ''recovered staging parent is not a real directory''
      else act_bind (symlink_status env path) (\<lambda>(t, e).
      if status_missing t e then act_return ()
      else if e \<noteq> None then throw_local ''could not inspect the recovered staging file''
      else if t \<noteq> RegularFile then throw_invalid ''recovered staging entry is not a regular file''
      else act_bind (local_remove env path) (\<lambda>removed.
        throw_if (\<not> removed) ErrLocal ''could not remove the recovered staging file'')))
      (\<lambda>r st new st'. removal_ended env tid path r
         (Local (LStatus (te_parent (env_paths env) path) (fst x) (snd x)) # new))" for x
    by (cases x) (auto intro!: spec_throw removal_gave_up inner)
  show ?thesis
    unfolding remove_recovered_local_staging_def if_not_P [OF False]
    by (rule spec_bindI [OF spec_status parent]) auto
qed

lemma recover_artifact_spec:
  "spec (recover_artifact env sn a) (\<lambda>r st new st'. \<exists>sn' kept. r = Done (sn', kept) \<and>
     artifact_tried env (sn_transfer_id sn) a new kept \<and> failures_gained sn (if kept then [a] else []) sn')"
proof (cases "sf_remote a")
  case True
  then have remote: "\<not> \<not> sf_remote a" by simp
  show ?thesis
    unfolding recover_artifact_def if_not_P [OF remote]
    by (rule spec_clocked, rule exI, rule exI, rule conjI, rule refl)
      (use True in \<open>simp add: artifact_tried_def push_recovery_gains\<close>)
next
  case False
  have attempted: "spec (attempt (remove_recovered_local_staging env (sf_path a) (sn_transfer_id sn)))
      (\<lambda>r st new st'. \<exists>x. r = Done x \<and> artifact_tried env (sn_transfer_id sn) a new (\<exists>e. x = Inl e))"
    by (rule spec_attemptI [OF remove_local_spec]) (use False in \<open>auto simp: removal_ended_def artifact_tried_def\<close>)
  have after: "spec (case removed of
      Inr _ \<Rightarrow> act_return (sn, False)
    | Inl (code, message) \<Rightarrow>
        act_bind (read_clock (te_clock (env_host env))) (\<lambda>now.
        act_return (push_recovery_failure now (sf_item_index a)
          (name_or (basename_of (sf_path a)) ''local staging file'') LocalIo
          (''startup recovery could not clean local staging: '' @ message) sn, True)))
      (\<lambda>r st new st'. new = [] \<and> (\<exists>sn'. r = Done (sn', \<exists>e. removed = Inl e) \<and>
         failures_gained sn (if \<exists>e. removed = Inl e then [a] else []) sn'))" for removed :: "(transfer_error_code \<times> string) + unit"
    by (cases removed) (auto intro!: spec_return spec_clocked push_recovery_gains failures_gained_Nil split: prod.splits)
  show ?thesis
    unfolding recover_artifact_def if_P [OF False]
    by (rule spec_bindI [OF attempted after]) (metis append_Nil2 outcome.inject(1), simp_all)
qed

lemma recover_artifacts_spec:
  "spec (recover_artifacts env sn artifacts) (\<lambda>r st new st'. \<exists>sn' files. r = Done (sn', files) \<and>
     artifacts_tried env (sn_transfer_id sn) artifacts new files \<and> failures_gained sn files sn')"
proof (induction artifacts arbitrary: sn)
  case Nil
  show ?case by (auto intro!: spec_return artifacts_tried.intros failures_gained_Nil)
next
  case (Cons artifact artifacts)
  have finish: "spec (case y of (sn2, files) \<Rightarrow> act_return (sn2, if kept then artifact # files else files))
      (\<lambda>r st new st'. new = [] \<and> r = Done (fst y, if kept then artifact # snd y else snd y))" for kept y
    by (cases y) (auto intro!: spec_return)
  have rest: "spec (case x of (sn1, kept) \<Rightarrow>
      act_bind (recover_artifacts env sn1 artifacts) (\<lambda>(sn2, files).
      act_return (sn2, if kept then artifact # files else files)))
    (\<lambda>r st new st'. \<exists>sn2 files. r = Done (sn2, if snd x then artifact # files else files) \<and>
       artifacts_tried env (sn_transfer_id (fst x)) artifacts new files \<and> failures_gained (fst x) files sn2)" for x
    unfolding case_prod_beta [of _ x]
    by (rule spec_bindI [OF Cons.IH finish]) auto
  show ?case
    unfolding recover_artifacts.simps
  proof (rule spec_bindI [OF recover_artifact_spec rest])
    fix x r st a mid b st'
    assume "\<exists>sn1 kept. Done x = Done (sn1, kept) \<and> artifact_tried env (sn_transfer_id sn) artifact a kept \<and>
        failures_gained sn (if kept then [artifact] else []) sn1"
      and "\<exists>sn2 files. r = Done (sn2, if snd x then artifact # files else files) \<and>
        artifacts_tried env (sn_transfer_id (fst x)) artifacts b files \<and> failures_gained (fst x) files sn2"
    then obtain sn1 kept sn2 files where one: "artifact_tried env (sn_transfer_id sn) artifact a kept"
        "failures_gained sn (if kept then [artifact] else []) sn1"
      and two: "r = Done (sn2, if kept then artifact # files else files)"
        "artifacts_tried env (sn_transfer_id sn1) artifacts b files" "failures_gained sn1 files sn2" by auto
    from one(2) have "sn_transfer_id sn1 = sn_transfer_id sn" by (simp add: failures_gained_def)
    with tried_next [OF one(1)] two failures_gained_trans [OF one(2) two(3)]
    show "\<exists>sn' files. r = Done (sn', files) \<and>
        artifacts_tried env (sn_transfer_id sn) (artifact # artifacts) (a @ b) files \<and> failures_gained sn files sn'"
      by (cases kept) auto
  qed auto
qed

lemma spec_ledger: "spec (ledger_update env sn staging) (\<lambda>r st new st'. \<exists>x. r = Done x \<and> new = [EvLedger sn staging x])"
  unfolding ledger_update_def by (rule spec_ask) auto

fun record_end :: "string + unit \<Rightarrow> 'a \<Rightarrow> 'a outcome" where
  "record_end (Inr u) files = Done files"
| "record_end (Inl what) files = Raised (recovery_failure what)"

lemma record_end_eq [simp]:
  "record_end saved files = Done x \<longleftrightarrow> (\<exists>u. saved = Inr u) \<and> files = x"
  "record_end saved files = Raised e \<longleftrightarrow> (\<exists>what. saved = Inl what \<and> e = recovery_failure what)"
  "record_end saved files \<noteq> Hung"
  by (cases saved; auto)+

text \<open>One record: its artifacts, the update of its row, and how it ends.\<close>

definition record_recovered ::
  "'w transfer_env \<Rightarrow> transfer_snapshot \<Rightarrow> staging_file list \<Rightarrow> staging_file list outcome \<Rightarrow> event list \<Rightarrow> bool" where
  "record_recovered env sn staging r es \<longleftrightarrow>
     (\<exists>ys files sn' saved. es = ys @ [EvLedger sn' files saved] \<and>
        artifacts_tried env (sn_transfer_id sn) staging ys files \<and> failures_gained sn files sn' \<and>
        record_end saved files = r)"

lemma recover_record_spec: "spec (recover_record env sn staging) (\<lambda>r st new st'. record_recovered env sn staging r new)"
proof -
  let ?told = "\<lambda>saved files. case saved of
      Inl what \<Rightarrow> throw_local (''could not persist transfer recovery: '' @ what) | Inr _ \<Rightarrow> act_return files"
  have told: "spec (?told saved files) (\<lambda>r st new st'. new = [] \<and> r = record_end saved files)"
    for saved :: "string + unit" and files :: "staging_file list"
    by (cases saved) (auto simp: recovery_failure_def intro!: spec_throw spec_return)
  have last: "spec (case y of (sn', files) \<Rightarrow> act_bind (ledger_update env sn' files) (\<lambda>saved. ?told saved files))
      (\<lambda>r st new st'. \<exists>saved. new = [EvLedger (fst y) (snd y) saved] \<and> r = record_end saved (snd y))" for y
    unfolding case_prod_beta by (rule spec_bindI [OF spec_ledger told]) auto
  show ?thesis
    unfolding recover_record_def
    by (rule spec_bindI [OF recover_artifacts_spec last]) (fastforce simp: record_recovered_def)+
qed

definition records_outcome ::
  "'w transfer_env \<Rightarrow> (transfer_snapshot \<times> staging_file list) list \<Rightarrow> (string \<times> staging_file list) list outcome \<Rightarrow> event list \<Rightarrow> bool" where
  "records_outcome env records r es \<longleftrightarrow>
     (case r of
        Done entries \<Rightarrow> records_recovered env records es entries
      | Raised e \<Rightarrow> recovery_refused env records es e
      | Hung \<Rightarrow> False)"

lemma recovery_refusedI:
  assumes "records_recovered env before xs entries" "artifacts_tried env (sn_transfer_id sn) staging ys files"
    and "failures_gained sn files sn'" "records = before @ (sn, staging) # later"
    and "es = xs @ ys @ [EvLedger sn' files (Inl what)]"
  shows "recovery_refused env records es (recovery_failure what)"
  using assms unfolding recovery_refused_def by blast

lemma records_refused_first:
  assumes "record_recovered env sn staging (Raised e) es"
  shows "recovery_refused env ((sn, staging) # records) es e"
proof -
  from assms obtain ys files sn' what where r: "es = ys @ [EvLedger sn' files (Inl what)]"
    "artifacts_tried env (sn_transfer_id sn) staging ys files" "failures_gained sn files sn'" "e = recovery_failure what"
    by (auto simp: record_recovered_def)
  show ?thesis unfolding r(4) by (rule recovery_refusedI [OF recovered_none r(2,3)]) (simp_all add: r(1))
qed

lemma records_refused_later:
  assumes "artifacts_tried env (sn_transfer_id sn) staging ys files" "failures_gained sn files sn'"
    and "recovery_refused env records es e"
  shows "recovery_refused env ((sn, staging) # records) (ys @ EvLedger sn' files (Inr ()) # es) e"
proof -
  from assms(3) obtain before sn1 staging1 later xs entries zs files1 sn2 what where
    r: "records = before @ (sn1, staging1) # later" "records_recovered env before xs entries"
      "artifacts_tried env (sn_transfer_id sn1) staging1 zs files1" "failures_gained sn1 files1 sn2"
      "es = xs @ zs @ [EvLedger sn2 files1 (Inl what)]"
      "e = recovery_failure what"
    unfolding recovery_refused_def by blast
  show ?thesis
    unfolding r(6) by (rule recovery_refusedI [OF recovered_next [OF assms(1,2) r(2)] r(3,4)]) (simp_all add: r(1,5))
qed

fun entry_added :: "string \<Rightarrow> staging_file list \<Rightarrow> (string \<times> staging_file list) list outcome \<Rightarrow> (string \<times> staging_file list) list outcome" where
  "entry_added tid files (Done rest) = Done (if files = [] then rest else (tid, files) # rest)"
| "entry_added tid files (Raised e) = Raised e"
| "entry_added tid files Hung = Hung"

lemma records_outcome_next:
  assumes "record_recovered env sn staging (Done files) a" "records_outcome env records r b"
  shows "records_outcome env ((sn, staging) # records) (entry_added (sn_transfer_id sn) files r) (a @ b)"
proof -
  from assms(1) obtain ys sn' where a: "a = ys @ [EvLedger sn' files (Inr ())]"
    "artifacts_tried env (sn_transfer_id sn) staging ys files" "failures_gained sn files sn'"
    by (auto simp: record_recovered_def)
  from assms(2) recovered_next [OF a(2,3)] records_refused_later [OF a(2,3)] show ?thesis
    by (auto simp: records_outcome_def a(1) split: outcome.splits)
qed

lemma recover_records_spec: "spec (recover_records env records) (\<lambda>r st new st'. records_outcome env records r new)"
proof (induction records)
  case Nil
  show ?case by (auto intro!: spec_return recovered_none simp: records_outcome_def)
next
  case (Cons entry records)
  obtain sn staging where entry: "entry = (sn, staging)" by fastforce
  have rest: "spec (act_bind (recover_records env records)
      (\<lambda>rest. act_return (if files = [] then rest else (sn_transfer_id sn, files) # rest)))
    (\<lambda>r st new st'. \<exists>q. records_outcome env records q new \<and> r = entry_added (sn_transfer_id sn) files q)" for files
  proof (rule spec_bindI [OF Cons.IH])
    show "spec (act_return (if files = [] then rest else (sn_transfer_id sn, files) # rest))
        (\<lambda>r st new st'. new = [] \<and> r = entry_added (sn_transfer_id sn) files (Done rest))" for rest
      by (auto intro!: spec_return)
  qed (metis append_Nil2, metis entry_added.simps(2), metis entry_added.simps(3))
  show ?case
    unfolding entry recover_records.simps
    by (rule spec_bindI [OF recover_record_spec rest])
      (auto intro: records_outcome_next, auto simp: records_outcome_def records_refused_first record_recovered_def)
qed

text \<open>C34: Startup recovery goes through the records in order and touches nothing but local staging files that a record
  names: its events are looks at files, removals of the named path (absolute, with a file name that belongs to the record's
  transfer, and seen as a regular file in a real directory) and one update of each row; there is no event of the remote side.  The row
  is stored with exactly the artifacts that are left, and with a failure for each of them: every remote one, and every local one
  that was neither removed nor found missing.  The same artifacts are the pending entry of the transfer.  If the history
  refuses an update, recovery stops with this error, after the earlier records were stored in the same way.\<close>

theorem recovery_owned:
  "case recover_into env (Inr records) s of (r, s') \<Rightarrow> \<exists>new. ts_log s' = ts_log s @ new \<and>
     (case r of
        Done entries \<Rightarrow> records_recovered env records new entries
      | Raised e \<Rightarrow> recovery_refused env records new e
      | Hung \<Rightarrow> False)"
proof -
  obtain r s' where run: "recover_records env records s = (r, s')" by fastforce
  from recover_records_spec run show ?thesis
    by (rule specE) (auto simp: recover_into_def run records_outcome_def)
qed

subsection \<open>With a session\<close>

definition reconciled :: "staging_file \<Rightarrow> event list \<Rightarrow> bool" where
  "reconciled a es \<longleftrightarrow> Remote (RRemoveRecovered (sf_server_id a) (sf_path a) (Inr ())) \<in> set es"

definition reconcile_event :: "(string \<times> staging_file list) list \<Rightarrow> event \<Rightarrow> bool" where
  "reconcile_event entries e \<longleftrightarrow>
     changing e \<longrightarrow> (\<exists>(tid, staging) \<in> set entries. \<exists>a \<in> set staging. sf_remote a \<and>
       is_owned_staging_name (basename_of (sf_path a)) tid \<and> remote_path_is_valid (sf_path a) \<and>
       (\<exists>r. e = Remote (RRemoveRecovered (sf_server_id a) (sf_path a) r)))"

definition still_pending :: "staging_file list \<Rightarrow> event list \<Rightarrow> staging_file list \<Rightarrow> bool" where
  "still_pending artifacts es rest \<longleftrightarrow>
     set rest \<subseteq> set artifacts \<and> list_all (\<lambda>a. a \<in> set rest \<or> reconciled a es) artifacts"

lemma still_pending_append:
  "still_pending xs a ps \<Longrightarrow> still_pending ys b qs \<Longrightarrow> still_pending (xs @ ys) (a @ b) (ps @ qs)"
  by (auto simp: still_pending_def reconciled_def list_all_iff)

lemma still_pending_all: "still_pending xs es xs"
  by (auto simp: still_pending_def list_all_iff)

lemma still_pending_longer: "still_pending xs a ps \<Longrightarrow> still_pending xs (a @ b) ps"
  using still_pending_append [OF _ still_pending_all [of "[]" b], of xs a ps] by simp

lemma reconcile_event_mono:
  assumes "list_all (reconcile_event [(tid, xs)]) es" "set xs \<subseteq> set ys"
  shows "list_all (reconcile_event ((tid, ys) # rest)) es"
  using assms(1) by (rule list.pred_mono_strong) (use assms(2) in \<open>fastforce simp: reconcile_event_def\<close>)

text \<open>The events of the artifacts alone: requests to remove one of them.\<close>

definition removal_request :: "staging_file list \<Rightarrow> event \<Rightarrow> bool" where
  "removal_request artifacts e \<longleftrightarrow>
     (\<exists>a\<in>set artifacts. \<exists>r. e = Remote (RRemoveRecovered (sf_server_id a) (sf_path a) r))"

lemma removal_request_mono:
  "list_all (removal_request xs) es \<Longrightarrow> set xs \<subseteq> set ys \<Longrightarrow> list_all (removal_request ys) es"
  by (erule list.pred_mono_strong) (auto simp: removal_request_def)

text \<open>The names of the artifacts that were removed.\<close>

definition removed_names :: "staging_file list \<Rightarrow> event list \<Rightarrow> string set" where
  "removed_names artifacts es = {basename_of (sf_path a) | a. a \<in> set artifacts \<and> reconciled a es}"

text \<open>
  What is written to the history: for an entry, the row the history has, without the residues and
  failures of artifacts that were removed, and with exactly the artifacts that are left to reconcile.
\<close>

definition row_rewritten ::
  "(string \<Rightarrow> (transfer_snapshot option) option) option \<Rightarrow> string \<times> staging_file list \<Rightarrow> event list \<Rightarrow>
   transfer_snapshot \<Rightarrow> staging_file list \<Rightarrow> bool" where
  "row_rewritten lookup entry es sn files \<longleftrightarrow>
     still_pending (snd entry) es files \<and>
     (\<exists>get sn0 now cleaned. lookup = Some get \<and> get (fst entry) = Some (Some sn0) \<and>
        sn = touch_at now (forget_cleaned cleaned sn0) \<and> set cleaned \<subseteq> removed_names (snd entry) es)"

definition rows_rewritten ::
  "(string \<Rightarrow> (transfer_snapshot option) option) option \<Rightarrow> (string \<times> staging_file list) list \<Rightarrow> event list \<Rightarrow> bool" where
  "rows_rewritten lookup entries es \<longleftrightarrow>
     (\<forall>sn files x. EvLedger sn files x \<in> set es \<longrightarrow> (\<exists>entry\<in>set entries. row_rewritten lookup entry es sn files))"

lemma row_rewritten_longer:
  "row_rewritten lookup entry es sn files \<Longrightarrow> set es \<subseteq> set es' \<Longrightarrow> row_rewritten lookup entry es' sn files"
  by (fastforce simp: row_rewritten_def still_pending_def removed_names_def reconciled_def list_all_iff)

lemma rows_rewritten_append:
  assumes "rows_rewritten lookup xs a" "rows_rewritten lookup ys b" "set xs \<subseteq> set zs" "set ys \<subseteq> set zs"
  shows "rows_rewritten lookup zs (a @ b)"
  using assms row_rewritten_longer [of lookup _ a _ _ "a @ b"] row_rewritten_longer [of lookup _ b _ _ "a @ b"]
  unfolding rows_rewritten_def by (metis Un_iff Un_upper1 Un_upper2 set_append subsetD)

lemma reconcile_event_later: "list_all (reconcile_event rest) es \<Longrightarrow> list_all (reconcile_event (r # rest)) es"
  by (erule list.pred_mono_strong) (auto simp: reconcile_event_def)

lemma spec_remove_recovered:
  "spec (remove_recovered env server path) (\<lambda>r st new st'. \<exists>x. new = [Remote (RRemoveRecovered server path x)] \<and>
     (r = Done () \<longrightarrow> x = Inr ()))"
  unfolding remove_recovered_def by (rule spec_invoke) auto

lemma reconcile_artifact_spec:
  "spec (reconcile_artifact env tid a) (\<lambda>r st new st'. list_all (reconcile_event [(tid, [a])]) new \<and>
     list_all (removal_request [a]) new \<and> (r = Done True \<longrightarrow> reconciled a new))"
proof (cases "sf_remote a \<and> is_owned_staging_name (basename_of (sf_path a)) tid \<and> remote_path_is_valid (sf_path a)")
  case False
  then show ?thesis by (auto simp: reconcile_artifact_def intro!: spec_return)
next
  case True
  have removing: "spec (act_bind (remove_recovered env (sf_server_id a) (sf_path a)) (\<lambda>_. act_return True))
      (\<lambda>r st new st'. list_all (reconcile_event [(tid, [a])]) new \<and> list_all (removal_request [a]) new \<and> (r = Done True \<longrightarrow> reconciled a new))"
    by (rule spec_bindI [OF spec_remove_recovered, where T = "\<lambda>x r st new st'. new = []"])
      (use True in \<open>auto simp: reconcile_event_def removal_request_def reconciled_def intro!: spec_return\<close>)
  show ?thesis
    unfolding reconcile_artifact_def if_P [OF True]
    by (rule spec_catch_allI [OF removing, where T = "\<lambda>x r st new st'. new = [] \<and> r = Done False"]) (auto intro!: spec_return)
qed

abbreviation artifacts_reconciled ::
  "string \<Rightarrow> staging_file list \<Rightarrow> (staging_file list \<times> string list) outcome \<Rightarrow> event list \<Rightarrow> bool" where
  "artifacts_reconciled tid artifacts r es \<equiv>
     list_all (reconcile_event [(tid, artifacts)]) es \<and> list_all (removal_request artifacts) es \<and>
     (\<forall>rest cleaned. r = Done (rest, cleaned) \<longrightarrow>
        still_pending artifacts es rest \<and> set cleaned \<subseteq> removed_names artifacts es)"

lemma artifacts_reconciled_events:
  assumes "list_all (reconcile_event [(tid, [a])]) xs" "list_all (removal_request [a]) xs"
    and "list_all (reconcile_event [(tid, artifacts)]) ys" "list_all (removal_request artifacts) ys"
  shows "list_all (reconcile_event [(tid, a # artifacts)]) (xs @ ys)" "list_all (removal_request (a # artifacts)) (xs @ ys)"
  using assms reconcile_event_mono [of tid "[a]" xs "a # artifacts" "[]"] removal_request_mono [of "[a]" xs "a # artifacts"]
    reconcile_event_mono [of tid artifacts ys "a # artifacts" "[]"] removal_request_mono [of artifacts ys "a # artifacts"]
  by auto

lemma artifacts_reconciled_next:
  assumes "list_all (reconcile_event [(tid, [a])]) xs" "list_all (removal_request [a]) xs" "removed \<longrightarrow> reconciled a xs"
    and "artifacts_reconciled tid artifacts (Done (rest, cleaned)) ys"
  shows "artifacts_reconciled tid (a # artifacts)
    (Done (if removed then (rest, basename_of (sf_path a) # cleaned) else (a # rest, cleaned))) (xs @ ys)"
proof -
  have kept: "still_pending [a] xs (if removed then [] else [a])"
    using assms(3) by (cases removed) (simp_all add: still_pending_def)
  from still_pending_append [OF kept, of artifacts ys rest] assms(4)
  have "still_pending (a # artifacts) (xs @ ys) ((if removed then [] else [a]) @ rest)" by simp
  moreover have "removed \<Longrightarrow> basename_of (sf_path a) \<in> removed_names (a # artifacts) (xs @ ys)"
    "removed_names artifacts ys \<subseteq> removed_names (a # artifacts) (xs @ ys)"
    using assms(3) by (auto simp: removed_names_def reconciled_def)
  ultimately show ?thesis
    using assms(4) artifacts_reconciled_events [OF assms(1,2), of artifacts ys] by (cases removed) auto
qed

lemma reconcile_artifacts_spec:
  "spec (reconcile_artifacts env tid artifacts) (\<lambda>r st new st'. artifacts_reconciled tid artifacts r new)"
proof (induction artifacts)
  case Nil
  show ?case by (auto intro!: spec_return simp: still_pending_def)
next
  case (Cons a artifacts)
  have rest: "spec (act_bind (reconcile_artifacts env tid artifacts) (\<lambda>(remaining, cleaned).
      act_return (if removed then (remaining, basename_of (sf_path a) # cleaned) else (a # remaining, cleaned))))
    (\<lambda>r st new st'. \<exists>q. artifacts_reconciled tid artifacts q new \<and> (case q of
       Done (rest, cleaned) \<Rightarrow> r = Done (if removed then (rest, basename_of (sf_path a) # cleaned) else (a # rest, cleaned))
     | _ \<Rightarrow> \<forall>x. r \<noteq> Done x))" for removed
    by (rule spec_bindI [OF Cons.IH, where T = "\<lambda>y r st new st'. new = [] \<and>
          r = Done (if removed then (fst y, basename_of (sf_path a) # snd y) else (a # fst y, snd y))"])
      (auto intro!: spec_return, fastforce+)
  show ?case
    unfolding reconcile_artifacts.simps
  proof (rule spec_bindI [OF reconcile_artifact_spec rest])
    fix removed r st x mid b st'
    assume one: "list_all (reconcile_event [(tid, [a])]) x \<and> list_all (removal_request [a]) x \<and>
        (Done removed = Done True \<longrightarrow> reconciled a x)"
      and further: "\<exists>q. artifacts_reconciled tid artifacts q b \<and> (case q of
         Done (rest, cleaned) \<Rightarrow> r = Done (if removed then (rest, basename_of (sf_path a) # cleaned) else (a # rest, cleaned))
       | _ \<Rightarrow> \<forall>x. r \<noteq> Done x)"
    then obtain q where q: "artifacts_reconciled tid artifacts q b" "case q of
         Done (rest, cleaned) \<Rightarrow> r = Done (if removed then (rest, basename_of (sf_path a) # cleaned) else (a # rest, cleaned))
       | _ \<Rightarrow> \<forall>x. r \<noteq> Done x" by blast
    show "artifacts_reconciled tid (a # artifacts) r (x @ b)"
    proof (cases "\<exists>rest cleaned. q = Done (rest, cleaned)")
      case True
      then obtain rest cleaned where "q = Done (rest, cleaned)" by blast
      with one q artifacts_reconciled_next [of tid a x removed artifacts b rest cleaned] show ?thesis by simp
    next
      case False
      then have "r \<noteq> Done y" for y using q(2) by (cases q; cases y) auto
      then show ?thesis using one q(1) artifacts_reconciled_events [of tid a x artifacts b] by simp
    qed
  qed (auto dest: reconcile_event_mono [where ys = "a # artifacts" and rest = "[]"] removal_request_mono [where ys = "a # artifacts"])
qed

text \<open>Rewriting the row of the transfer leaves the files the artifacts left.\<close>

definition history_answered ::
  "(string \<Rightarrow> (transfer_snapshot option) option) option \<Rightarrow> string \<Rightarrow> staging_file list \<Rightarrow> staging_file list \<Rightarrow> string list \<Rightarrow>
   staging_file list outcome \<Rightarrow> event list \<Rightarrow> bool" where
  "history_answered lookup tid staging remaining cleaned r es \<longleftrightarrow>
     list_all host_event es \<and> (\<forall>x. r = Done x \<longrightarrow> x = staging \<or> x = remaining) \<and>
     (\<forall>sn files x. EvLedger sn files x \<in> set es \<longrightarrow> files = remaining \<and>
        (\<exists>get sn0 now. lookup = Some get \<and> get tid = Some (Some sn0) \<and> sn = touch_at now (forget_cleaned cleaned sn0)))"

lemma reconcile_history_spec:
  "spec (if cleaned = [] then act_return staging
     else case lookup of
         None \<Rightarrow> act_return remaining
       | Some get \<Rightarrow>
           (case get tid of
              Some (Some sn) \<Rightarrow>
                act_bind (read_clock (te_clock (env_host env))) (\<lambda>now.
                act_bind (ledger_update env (touch_at now (forget_cleaned cleaned sn)) remaining) (\<lambda>_.
                act_return remaining))
            | _ \<Rightarrow> act_return staging))
    (\<lambda>r st new st'. history_answered lookup tid staging remaining cleaned r new)"
proof -
  have ledger: "spec (act_bind (ledger_update env sn remaining) (\<lambda>_. act_return remaining))
      (\<lambda>r st new st'. r = Done remaining \<and> (\<exists>x. new = [EvLedger sn remaining x]))" for sn
    by (rule spec_bindI [OF spec_ledger, where T = "\<lambda>x r st new st'. new = [] \<and> r = Done remaining"])
      (auto intro!: spec_return)
  have "spec (act_bind (read_clock (te_clock (env_host env))) (\<lambda>now.
      act_bind (ledger_update env (touch_at now (forget_cleaned cleaned sn)) remaining) (\<lambda>_. act_return remaining)))
      (\<lambda>r st new st'. history_answered lookup tid staging remaining cleaned r new)"
    if "lookup = Some get" "get tid = Some (Some sn)" for get sn
    by (rule spec_bindI [OF spec_clock [where Q = "\<lambda>r st new st'. (\<exists>t. r = Done t) \<and> new = []"] ledger])
      (use that in \<open>auto simp: history_answered_def\<close>)
  moreover have "history_answered lookup tid staging remaining cleaned (Done files) []" if "files = staging \<or> files = remaining" for files
    using that by (auto simp: history_answered_def)
  ultimately show ?thesis
    by (auto intro!: spec_return split: option.split)
qed

lemma host_reconcile: "list_all host_event es \<Longrightarrow> list_all (reconcile_event entries) es"
  by (erule list.pred_mono_strong) (simp add: reconcile_event_def host_harmless)

lemma requests_no_rows: "list_all (removal_request artifacts) es \<Longrightarrow> EvLedger sn files x \<notin> set es"
  by (auto simp: removal_request_def list_all_iff)

lemma removed_names_longer: "removed_names xs a \<subseteq> removed_names xs (a @ b)"
  by (auto simp: removed_names_def reconciled_def)

abbreviation transfer_reconciled ::
  "(string \<Rightarrow> (transfer_snapshot option) option) option \<Rightarrow> string \<Rightarrow> staging_file list \<Rightarrow> staging_file list outcome \<Rightarrow> event list \<Rightarrow> bool" where
  "transfer_reconciled lookup tid staging r es \<equiv>
     list_all (reconcile_event [(tid, staging)]) es \<and> rows_rewritten lookup [(tid, staging)] es \<and>
     (\<forall>x. r = Done x \<longrightarrow> still_pending staging es x)"

lemma reconcile_transfer_spec:
  "spec (reconcile_transfer env lookup tid staging) (\<lambda>r st new st'. transfer_reconciled lookup tid staging r new)"
  unfolding reconcile_transfer_def
proof (rule spec_bindI [OF reconcile_artifacts_spec,
    where T = "\<lambda>y r st new st'. history_answered lookup tid staging (fst y) (snd y) r new"])
  fix y r st a mid b st'
  assume one: "artifacts_reconciled tid staging (Done y) a"
    and further: "history_answered lookup tid staging (fst y) (snd y) r b"
  have pending: "still_pending staging (a @ b) (fst y)" "set (snd y) \<subseteq> removed_names staging (a @ b)"
    using one removed_names_longer [of staging a b] by (cases y; simp add: still_pending_longer; blast)+
  have "rows_rewritten lookup [(tid, staging)] (a @ b)"
    unfolding rows_rewritten_def
  proof (intro allI impI)
    fix sn files x
    assume "EvLedger sn files x \<in> set (a @ b)"
    with one have "EvLedger sn files x \<in> set b" using requests_no_rows [of staging a] by auto
    with further have "files = fst y" "\<exists>get sn0 now. lookup = Some get \<and> get tid = Some (Some sn0) \<and>
        sn = touch_at now (forget_cleaned (snd y) sn0)" unfolding history_answered_def by blast+
    with pending show "\<exists>entry\<in>set [(tid, staging)]. row_rewritten lookup entry (a @ b) sn files"
      unfolding row_rewritten_def by auto
  qed
  then show "transfer_reconciled lookup tid staging r (a @ b)"
    using one further pending(1) by (auto simp: history_answered_def host_reconcile still_pending_all)
qed ((simp only: case_prod_beta, rule reconcile_history_spec) | auto simp: rows_rewritten_def requests_no_rows)+

abbreviation entries_pending :: "(string \<times> staging_file list) list \<Rightarrow> event list \<Rightarrow> (string \<times> staging_file list) list \<Rightarrow> bool" where
  "entries_pending before es after \<equiv>
     list_all2 (\<lambda>(tid, xs) (tid', ys). tid' = tid \<and> still_pending xs es ys) before after"

lemma reconcile_spec:
  "spec (reconcile_remote_staging env lookup entries) (\<lambda>r st new st'. list_all (reconcile_event entries) new \<and>
     rows_rewritten lookup entries new \<and> (\<forall>x. r = Done x \<longrightarrow> entries_pending entries new x))"
proof (induction entries)
  case Nil
  show ?case by (auto intro!: spec_return simp: rows_rewritten_def)
next
  case (Cons entry entries)
  obtain tid staging where entry: "entry = (tid, staging)" by fastforce
  have rest: "spec (act_bind (reconcile_remote_staging env lookup entries) (\<lambda>rest. act_return ((tid, files) # rest)))
    (\<lambda>r st new st'. list_all (reconcile_event entries) new \<and> rows_rewritten lookup entries new \<and>
       (\<forall>x. r = Done x \<longrightarrow> (\<exists>rest. x = (tid, files) # rest \<and> entries_pending entries new rest)))" for files
    by (rule spec_bindI [OF Cons.IH, where T = "\<lambda>y r st new st'. new = [] \<and> r = Done ((tid, files) # y)"])
      (auto intro!: spec_return)
  show ?case
    unfolding entry reconcile_remote_staging.simps
  proof (rule spec_bindI [OF reconcile_transfer_spec rest])
    fix files r st a mid b st'
    assume one: "transfer_reconciled lookup tid staging (Done files) a"
      and further: "list_all (reconcile_event entries) b \<and> rows_rewritten lookup entries b \<and>
        (\<forall>x. r = Done x \<longrightarrow> (\<exists>rest. x = (tid, files) # rest \<and> entries_pending entries b rest))"
    have "list_all (reconcile_event ((tid, staging) # entries)) (a @ b)"
      using reconcile_event_mono [of tid staging a staging entries] reconcile_event_later [of entries b "(tid, staging)"]
        one further by simp
    moreover have "entries_pending entries (a @ b) rest" if "entries_pending entries b rest" for rest
      using that by (rule list.rel_mono_strong) (auto simp: still_pending_def reconciled_def list_all_iff)
    moreover have "rows_rewritten lookup ((tid, staging) # entries) (a @ b)"
      using one further by (auto intro!: rows_rewritten_append [of lookup "[(tid, staging)]" a entries b])
    ultimately show "list_all (reconcile_event ((tid, staging) # entries)) (a @ b) \<and>
        rows_rewritten lookup ((tid, staging) # entries) (a @ b) \<and>
        (\<forall>x. r = Done x \<longrightarrow> entries_pending ((tid, staging) # entries) (a @ b) x)"
      using one further by (auto simp: still_pending_longer)
  qed (auto dest: reconcile_event_mono [where ys = staging and rest = entries] simp: rows_rewritten_def)
qed

text \<open>C35: Reconciliation makes no other change than removing, on its own server, a recorded remote artifact with a
  valid path and a file name owned by its transfer; an entry keeps its transfer, gains no artifact, and an artifact
  leaves it only once the backend answered that the file was removed.  What is written to the history is the row the history
  has for an entry, without residues and failures of removed artifacts, and with staging files of this entry
  from which only artifacts are missing that the backend answered were removed.\<close>

theorem reconcile_owned:
  "case reconcile_remote_staging env lookup entries s of (r, s') \<Rightarrow> \<exists>new. ts_log s' = ts_log s @ new \<and>
     list_all (reconcile_event entries) new \<and> rows_rewritten lookup entries new \<and>
     (case r of Done entries' \<Rightarrow> entries_pending entries new entries' | _ \<Rightarrow> True)"
proof -
  obtain r s' where run: "reconcile_remote_staging env lookup entries s = (r, s')" by fastforce
  from reconcile_spec run show ?thesis
    by (rule specE) (auto simp: run split: outcome.split)
qed

end
