(* ===== verification/SshWorld.thy ===== *)
theory SshWorld
  imports PolicyParse
begin

text \<open>
  The file operations of the SSH service (\<^verbatim>\<open>src/native/src/ssh.cpp\<close>) over the calls they make to
  \<^verbatim>\<open>libssh2\<close>.  The library and the clock are a record of functions on a world \<open>'w\<close>; an operation is a
  function that also returns the list of its calls with the answers, so a property of a run is a property
  of that list.  A failed operation returns the code and message \<^verbatim>\<open>fail\<close> stores in the result.
\<close>

subsection \<open>Results and attributes\<close>

record exec_failure =
  ef_code :: string
  ef_message :: string
  ef_missing :: "string list"

text \<open>\<^verbatim>\<open>LIBSSH2_SFTP_ATTRIBUTES\<close>: a field is present when its flag is set.\<close>

record sftp_attributes =
  at_size :: "64 word option"
  at_owner :: "(32 word \<times> 32 word) option"
  at_permissions :: "32 word option"
  at_times :: "(32 word \<times> 32 word) option"

datatype open_mode = OpenRead | OpenDirectory | OpenExclusive | OpenTruncate

text \<open>What \<^verbatim>\<open>libssh2_sftp_readdir_ex\<close> answers: an entry, the end, or an error.\<close>

datatype readdir_answer = Entry string sftp_attributes | EndOfDirectory | ReaddirError

text \<open>\<^verbatim>\<open>SftpMetadataDeadline::Phase\<close> (\<^verbatim>\<open>src/native/src/ssh_timeouts.hpp\<close>), told with a failed connection.\<close>

datatype metadata_phase =
    NoPhase | HostKeyPhase | ConnectionPhase | HandshakePhase | AuthenticationPhase | StartupPhase | OperationPhase

text \<open>\<^verbatim>\<open>ConnectFailure\<close>: why no socket was connected.\<close>

datatype connect_failure =
    ConnectTimeout | ResolverBusy | ResolverUnavailable | ProxyAuthRequired | ProxyConnectFailed | ProxyTlsFailed | ConnectFailed

datatype ssh_event =
    SshLibrary bool
  | SshSocket "connect_failure option"
  | SshSession bool
  | SshHandshake "string option"
  | SshHostKey "string option"
  | SshConnect "(exec_failure \<times> metadata_phase) option"
  | SshArm bool
  | SshGrace
  | SshExpired bool
  | SshTimedOut bool
  | SshErrno int
  | SshSftpError int
  | SshOpen string open_mode int "nat option"
  | SshWrite nat "8 word list" int
  | SshRead nat nat "8 word list option"
  | SshReaddir nat readdir_answer
  | SshFsetstat nat sftp_attributes bool
  | SshSetstat string sftp_attributes bool
  | SshFsync nat bool
  | SshClose nat bool
  | SshLstat string "sftp_attributes option"
  | SshUnlink string bool
  | SshMkdir string int bool
  | SshRename string string bool
  | SshChannel bool
  | SshExec string bool
  | SshEof bool
  | SshDrain bool "string list" bool
  | SshWait bool
  | SshExitStatus "int option"
  | SshSubsystem bool
  | SshNonblocking bool
  | SshSend string bool
  | SshReceive nat "string option"

subsection \<open>The library\<close>

text \<open>
  \<open>sl_arm\<close> is \<^verbatim>\<open>set_session_timeout\<close> with the deadline of the operation, \<open>sl_grace\<close> with the second allowed for
  cleaning up, \<open>sl_expired\<close> the test \<^verbatim>\<open>remaining_ms(deadline) == 0\<close>, \<open>sl_timed_out\<close> is \<^verbatim>\<open>session_timed_out\<close>;
  \<open>sl_connect\<close> is \<^verbatim>\<open>connect_sftp\<close> with the failure and the phase it failed in, \<open>sl_send\<close> and \<open>sl_receive\<close> are the loops
  \<^verbatim>\<open>write_sftp_channel\<close> and \<^verbatim>\<open>read_sftp_channel_exact\<close>, \<open>sl_digest\<close> is \<^verbatim>\<open>compute_sha256\<close> and \<open>sl_dump\<close> is \<^verbatim>\<open>nlohmann::json::dump\<close>.
  \<open>sl_library\<close>, \<open>sl_socket\<close>, \<open>sl_session\<close>, \<open>sl_handshake\<close> (with the message of a failure) and \<open>sl_host_key\<close> are
  the steps of a connection that is only opened to see the host key.
  \<open>sl_drain\<close> stands for the reads of one stream of a command until nothing is left for the moment: the chunks
  and whether the last read failed; \<open>sl_rounds\<close> is the number of rounds of the output loop that start before the
  deadline of the command, whatever it is: a clock that advances makes it finite.
\<close>

record 'w ssh_library =
  sl_library :: "'w \<Rightarrow> bool \<times> 'w"
  sl_socket :: "'w \<Rightarrow> connect_failure option \<times> 'w"
  sl_session :: "'w \<Rightarrow> bool \<times> 'w"
  sl_handshake :: "'w \<Rightarrow> string option \<times> 'w"
  sl_host_key :: "'w \<Rightarrow> string option \<times> 'w"
  sl_fingerprint :: "string \<Rightarrow> string"
  sl_connect :: "'w \<Rightarrow> (exec_failure \<times> metadata_phase) option \<times> 'w"
  sl_arm :: "'w \<Rightarrow> bool \<times> 'w"
  sl_grace :: "'w \<Rightarrow> 'w"
  sl_expired :: "'w \<Rightarrow> bool \<times> 'w"
  sl_timed_out :: "'w \<Rightarrow> bool \<times> 'w"
  sl_errno :: "'w \<Rightarrow> int \<times> 'w"
  sl_sftp_error :: "'w \<Rightarrow> int \<times> 'w"
  sl_open :: "string \<Rightarrow> open_mode \<Rightarrow> int \<Rightarrow> 'w \<Rightarrow> nat option \<times> 'w"
  sl_write :: "nat \<Rightarrow> 8 word list \<Rightarrow> 'w \<Rightarrow> int \<times> 'w"
  sl_read :: "nat \<Rightarrow> nat \<Rightarrow> 'w \<Rightarrow> 8 word list option \<times> 'w"
  sl_readdir :: "nat \<Rightarrow> 'w \<Rightarrow> readdir_answer \<times> 'w"
  sl_fsetstat :: "nat \<Rightarrow> sftp_attributes \<Rightarrow> 'w \<Rightarrow> bool \<times> 'w"
  sl_setstat :: "string \<Rightarrow> sftp_attributes \<Rightarrow> 'w \<Rightarrow> bool \<times> 'w"
  sl_fsync :: "nat \<Rightarrow> 'w \<Rightarrow> bool \<times> 'w"
  sl_close :: "nat \<Rightarrow> 'w \<Rightarrow> bool \<times> 'w"
  sl_lstat :: "string \<Rightarrow> 'w \<Rightarrow> sftp_attributes option \<times> 'w"
  sl_unlink :: "string \<Rightarrow> 'w \<Rightarrow> bool \<times> 'w"
  sl_mkdir :: "string \<Rightarrow> int \<Rightarrow> 'w \<Rightarrow> bool \<times> 'w"
  sl_posix_rename :: "string \<Rightarrow> string \<Rightarrow> 'w \<Rightarrow> bool \<times> 'w"
  sl_channel :: "'w \<Rightarrow> bool \<times> 'w"
  sl_exec :: "string \<Rightarrow> 'w \<Rightarrow> bool \<times> 'w"
  sl_eof :: "'w \<Rightarrow> bool \<times> 'w"
  sl_drain :: "bool \<Rightarrow> 'w \<Rightarrow> (string list \<times> bool) \<times> 'w"
  sl_wait :: "'w \<Rightarrow> bool \<times> 'w"
  sl_exit_status :: "'w \<Rightarrow> int option \<times> 'w"
  sl_rounds :: "'w \<Rightarrow> nat"
  sl_subsystem :: "'w \<Rightarrow> bool \<times> 'w"
  sl_nonblocking :: "'w \<Rightarrow> bool \<times> 'w"
  sl_send :: "string \<Rightarrow> 'w \<Rightarrow> bool \<times> 'w"
  sl_receive :: "nat \<Rightarrow> 'w \<Rightarrow> string option \<times> 'w"
  sl_digest :: "8 word list \<Rightarrow> 8 word list option"
  sl_dump :: "json \<Rightarrow> string"

subsection \<open>Operations\<close>

type_synonym ('w, 'a) ssh = "'w \<Rightarrow> (exec_failure + 'a) \<times> 'w \<times> ssh_event list"

definition ssh_return :: "'a \<Rightarrow> ('w, 'a) ssh" where
  "ssh_return x w = (Inr x, w, [])"

definition ssh_fail :: "string \<Rightarrow> string \<Rightarrow> ('w, 'a) ssh" where
  "ssh_fail code message w = (Inl \<lparr>ef_code = code, ef_message = message, ef_missing = []\<rparr>, w, [])"

definition ssh_bind :: "('w, 'a) ssh \<Rightarrow> ('a \<Rightarrow> ('w, 'b) ssh) \<Rightarrow> ('w, 'b) ssh" where
  "ssh_bind m f w =
     (case m w of
        (Inl e, w', es) \<Rightarrow> (Inl e, w', es)
      | (Inr x, w', es) \<Rightarrow> (case f x w' of (r, w'', es') \<Rightarrow> (r, w'', es @ es')))"

text \<open>What \<open>m\<close> returned, an error as a value: for the code that cleans up in both cases.\<close>

definition ssh_result :: "('w, 'a) ssh \<Rightarrow> ('w, exec_failure + 'a) ssh" where
  "ssh_result m w = (case m w of (r, w', es) \<Rightarrow> (Inr r, w', es))"

definition ssh_raise :: "exec_failure + 'a \<Rightarrow> ('w, 'a) ssh" where
  "ssh_raise r w = (r, w, [])"

definition ssh_ask :: "('w \<Rightarrow> 'a \<times> 'w) \<Rightarrow> ('a \<Rightarrow> ssh_event) \<Rightarrow> ('w, 'a) ssh" where
  "ssh_ask f entry w = (case f w of (a, w') \<Rightarrow> (Inr a, w', [entry a]))"

definition ssh_tell :: "('w \<Rightarrow> 'w) \<Rightarrow> ssh_event \<Rightarrow> ('w, unit) ssh" where
  "ssh_tell f entry w = (Inr (), f w, [entry])"

definition ssh_look :: "('w \<Rightarrow> 'a) \<Rightarrow> ('w, 'a) ssh" where
  "ssh_look f w = (Inr (f w), w, [])"

lemma ssh_bind_cong [fundef_cong]:
  "m = m' \<Longrightarrow> (\<And>x. f x = g x) \<Longrightarrow> ssh_bind m f = ssh_bind m' g"
  by (metis ext)

subsection \<open>The calls\<close>

definition ssh_connect :: "'w ssh_library \<Rightarrow> ('w, unit) ssh" where
  "ssh_connect lib =
     ssh_bind (ssh_ask (sl_connect lib) SshConnect) (\<lambda>r.
     case r of Some (e, _) \<Rightarrow> ssh_raise (Inl e) | None \<Rightarrow> ssh_return ())"

definition arm :: "'w ssh_library \<Rightarrow> ('w, bool) ssh" where
  "arm lib = ssh_ask (sl_arm lib) SshArm"

text \<open>\<^verbatim>\<open>if (!set_session_timeout(...)) fail(&result, "timeout", message)\<close>.\<close>

definition arm_or_fail :: "'w ssh_library \<Rightarrow> string \<Rightarrow> ('w, unit) ssh" where
  "arm_or_fail lib message =
     ssh_bind (arm lib) (\<lambda>ok. if ok then ssh_return () else ssh_fail ''timeout'' message)"

definition expired :: "'w ssh_library \<Rightarrow> ('w, bool) ssh" where
  "expired lib = ssh_ask (sl_expired lib) SshExpired"

text \<open>The failure of a call: a timeout when the deadline has passed, \<open>code\<close> otherwise.\<close>

definition fail_late :: "'w ssh_library \<Rightarrow> string \<Rightarrow> string \<Rightarrow> string \<Rightarrow> ('w, 'a) ssh" where
  "fail_late lib late code message =
     ssh_bind (expired lib) (\<lambda>timed_out.
     if timed_out then ssh_fail ''timeout'' late else ssh_fail code message)"

definition fail_session :: "'w ssh_library \<Rightarrow> string \<Rightarrow> string \<Rightarrow> string \<Rightarrow> ('w, 'a) ssh" where
  "fail_session lib late code message =
     ssh_bind (ssh_ask (sl_timed_out lib) SshTimedOut) (\<lambda>timed_out.
     if timed_out then ssh_fail ''timeout'' late else ssh_fail code message)"

text \<open>\<^verbatim>\<open>if (!set_session_timeout(session, deadline)) set_session_timeout(session, now + 1000 ms)\<close>.\<close>

definition arm_cleanup :: "'w ssh_library \<Rightarrow> ('w, unit) ssh" where
  "arm_cleanup lib =
     ssh_bind (arm lib) (\<lambda>ok. if ok then ssh_return () else ssh_tell (sl_grace lib) SshGrace)"

definition sftp_open :: "'w ssh_library \<Rightarrow> string \<Rightarrow> open_mode \<Rightarrow> int \<Rightarrow> ('w, nat option) ssh" where
  "sftp_open lib path mode permissions = ssh_ask (sl_open lib path mode permissions) (SshOpen path mode permissions)"

definition sftp_unlink :: "'w ssh_library \<Rightarrow> string \<Rightarrow> ('w, unit) ssh" where
  "sftp_unlink lib path = ssh_bind (ssh_ask (sl_unlink lib path) (SshUnlink path)) (\<lambda>_. ssh_return ())"

text \<open>\<^verbatim>\<open>sftp_lstat\<close>: \<^term>\<open>None\<close> when the session has no time left or the call fails.\<close>

definition sftp_lstat :: "'w ssh_library \<Rightarrow> string \<Rightarrow> ('w, sftp_attributes option) ssh" where
  "sftp_lstat lib path =
     ssh_bind (arm lib) (\<lambda>ok.
     if ok then ssh_ask (sl_lstat lib path) (SshLstat path) else ssh_return None)"

text \<open>A read fills a buffer of \<open>amount\<close> bytes at most.\<close>

definition sftp_read_some :: "'w ssh_library \<Rightarrow> nat \<Rightarrow> nat \<Rightarrow> ('w, 8 word list option) ssh" where
  "sftp_read_some lib h amount =
     ssh_ask (\<lambda>w. case sl_read lib h amount w of (r, w') \<Rightarrow> (map_option (take amount) r, w')) (SshRead h amount)"

text \<open>The write loops: \<open>late\<close> and \<open>message\<close> are the texts of a timeout and of a refused write.\<close>

fun write_all :: "'w ssh_library \<Rightarrow> string \<Rightarrow> string \<Rightarrow> nat \<Rightarrow> 8 word list \<Rightarrow> ('w, unit) ssh" where
  "write_all lib late message h [] = ssh_return ()"
| "write_all lib late message h (c # cs) =
     ssh_bind (arm_or_fail lib late) (\<lambda>_.
     ssh_bind (ssh_ask (sl_write lib h (c # cs)) (SshWrite h (c # cs))) (\<lambda>count.
     if count \<le> 0 then fail_late lib late ''sftp_error'' message
     else write_all lib late message h (drop (nat count - 1) cs)))"

text \<open>The bounded read loops: until \<open>limit\<close> bytes are read or the file ends.\<close>

function read_bounded :: "'w ssh_library \<Rightarrow> string \<Rightarrow> string \<Rightarrow> nat \<Rightarrow> nat \<Rightarrow> 8 word list \<Rightarrow> ('w, 8 word list) ssh" where
  "read_bounded lib late message h limit bytes =
     (if limit \<le> length bytes then ssh_return bytes
      else
        ssh_bind (arm_or_fail lib late) (\<lambda>_.
        ssh_bind (sftp_read_some lib h (min (limit - length bytes) (32 * 1024))) (\<lambda>r.
        case r of
          None \<Rightarrow> fail_late lib late ''sftp_error'' message
        | Some chunk \<Rightarrow> if chunk = [] then ssh_return bytes else read_bounded lib late message h limit (bytes @ chunk))))"
  by pat_completeness auto
termination by (relation "measure (\<lambda>(lib, late, message, h, limit, bytes). limit - length bytes)")
  (auto simp flip: length_greater_0_conv)

declare read_bounded.simps [simp del]

subsection \<open>Runs\<close>

text \<open>\<open>traced m r es\<close>: some run of \<open>m\<close> makes the calls \<open>es\<close> and returns \<open>r\<close>.\<close>

definition traced :: "('w, 'a) ssh \<Rightarrow> exec_failure + 'a \<Rightarrow> ssh_event list \<Rightarrow> bool" where
  "traced m r es \<longleftrightarrow> (\<exists>w w'. m w = (r, w', es))"

named_theorems traced_simps

lemma traced_return [traced_simps]: "traced (ssh_return x) r es \<longleftrightarrow> r = Inr x \<and> es = []"
  by (auto simp: traced_def ssh_return_def)

lemma traced_fail [traced_simps]:
  "traced (ssh_fail code message) r es \<longleftrightarrow> r = Inl \<lparr>ef_code = code, ef_message = message, ef_missing = []\<rparr> \<and> es = []"
  by (auto simp: traced_def ssh_fail_def)

lemma traced_raise [traced_simps]: "traced (ssh_raise x) r es \<longleftrightarrow> r = x \<and> es = []"
  by (auto simp: traced_def ssh_raise_def)

lemma traced_bindE:
  assumes "traced (ssh_bind m f) r es"
  obtains (stop) e where "r = Inl e" "traced m (Inl e) es"
  | (go) x es1 es2 where "traced m (Inr x) es1" "traced (f x) r es2" "es = es1 @ es2"
proof -
  obtain w w' where run: "ssh_bind m f w = (r, w', es)" using assms by (auto simp: traced_def)
  obtain q w1 es1 where one: "m w = (q, w1, es1)" by (cases "m w") auto
  show thesis
  proof (cases q)
    case (Inl e)
    then show thesis using run one by (intro stop [of e]) (auto simp: ssh_bind_def traced_def)
  next
    case (Inr x)
    obtain q2 w2 es2 where two: "f x w1 = (q2, w2, es2)" by (cases "f x w1") auto
    show thesis
      using run one two Inr by (intro go [of x es1 es2]) (auto simp: ssh_bind_def traced_def)
  qed
qed

lemma traced_askE:
  assumes "traced (ssh_ask f entry) r es"
  obtains a where "r = Inr a" "es = [entry a]"
proof -
  obtain w w' where run: "ssh_ask f entry w = (r, w', es)" using assms by (auto simp: traced_def)
  obtain a w1 where "f w = (a, w1)" by (cases "f w")
  with run that show thesis by (auto simp: ssh_ask_def)
qed

lemma traced_lookE:
  assumes "traced (ssh_look f) r es"
  obtains x where "r = Inr x" "es = []"
  using assms by (auto simp: traced_def ssh_look_def)

lemma traced_tellE:
  assumes "traced (ssh_tell f entry) r es"
  obtains "r = Inr ()" "es = [entry]"
  using assms by (auto simp: traced_def ssh_tell_def)

lemma traced_resultE:
  assumes "traced (ssh_result m) r es"
  obtains q where "r = Inr q" "traced m q es"
proof -
  obtain w w' where run: "ssh_result m w = (r, w', es)" using assms by (auto simp: traced_def)
  obtain q w1 es1 where "m w = (q, w1, es1)" by (cases "m w") auto
  with run that show thesis by (auto simp: ssh_result_def traced_def)
qed

end
