(* ===== verification/SshExec.thy ===== *)
theory SshExec
  imports SshWorld Digits
begin

text \<open>
  Running one command on the server (\<^verbatim>\<open>run_ssh_command_with_limits\<close> of \<^verbatim>\<open>src/native/src/ssh.cpp\<close>): its two output
  streams are collected up to a limit, and the result is complete only with an exit status.
\<close>

subsection \<open>Results\<close>

text \<open>\<^verbatim>\<open>ExecResult\<close>: the outcome is the stored failure or the exit code of a completed command.\<close>

record exec_result =
  xr_stdout :: string
  xr_stderr :: string
  xr_stdout_truncated :: bool
  xr_stderr_truncated :: bool
  xr_outcome :: "exec_failure + int"

definition empty_result :: "exec_failure + int \<Rightarrow> exec_result" where
  "empty_result outcome =
     \<lparr>xr_stdout = [], xr_stderr = [], xr_stdout_truncated = False, xr_stderr_truncated = False, xr_outcome = outcome\<rparr>"

definition failed_result :: "string \<Rightarrow> string \<Rightarrow> exec_result" where
  "failed_result code message = empty_result (Inl \<lparr>ef_code = code, ef_message = message, ef_missing = []\<rparr>)"

definition output_truncated :: "exec_result \<Rightarrow> bool" where
  "output_truncated x \<longleftrightarrow> xr_stdout_truncated x \<or> xr_stderr_truncated x"

subsection \<open>Collecting output\<close>

definition append_output :: "string \<Rightarrow> string \<Rightarrow> nat \<Rightarrow> string \<times> nat \<times> bool" where
  "append_output output_text chunk remaining_bytes =
     (let keep = min remaining_bytes (length chunk) in
      (output_text @ take keep chunk, remaining_bytes - keep, keep = length chunk))"

text \<open>
  The output so far with what each stream may still take; with \<open>preserve\<close> both draw on \<open>cs_combined\<close>.
\<close>

record collected =
  cs_result :: exec_result
  cs_stdout_remaining :: nat
  cs_stderr_remaining :: nat
  cs_combined :: nat

definition collected_start :: "nat \<Rightarrow> collected" where
  "collected_start maximum =
     \<lparr>cs_result = empty_result (Inr 0), cs_stdout_remaining = maximum, cs_stderr_remaining = maximum,
      cs_combined = maximum\<rparr>"

text \<open>One chunk of standard output, or with \<open>err\<close> of standard error; and whether it was kept whole.\<close>

definition collect_chunk :: "bool \<Rightarrow> bool \<Rightarrow> string \<Rightarrow> collected \<Rightarrow> collected \<times> bool" where
  "collect_chunk preserve err chunk s =
     (let x = cs_result s;
          room = (if preserve then cs_combined s else if err then cs_stderr_remaining s else cs_stdout_remaining s) in
      case append_output (if err then xr_stderr x else xr_stdout x) chunk room of (kept, room', whole) \<Rightarrow>
        let x1 = (if err then x\<lparr>xr_stderr := kept\<rparr> else x\<lparr>xr_stdout := kept\<rparr>);
            x2 = (if whole then x1 else if err then x1\<lparr>xr_stderr_truncated := True\<rparr> else x1\<lparr>xr_stdout_truncated := True\<rparr>);
            s1 = s\<lparr>cs_result := x2\<rparr>
        in (if preserve then s1\<lparr>cs_combined := room'\<rparr>
            else if err then s1\<lparr>cs_stderr_remaining := room'\<rparr> else s1\<lparr>cs_stdout_remaining := room'\<rparr>, whole))"

text \<open>The chunks of one stream, until the limit stops it; and whether it did.\<close>

fun collect_chunks :: "bool \<Rightarrow> bool \<Rightarrow> string list \<Rightarrow> collected \<Rightarrow> collected \<times> bool" where
  "collect_chunks preserve err [] s = (s, False)"
| "collect_chunks preserve err (chunk # chunks) s =
     (case collect_chunk preserve err chunk s of (s', whole) \<Rightarrow>
        if whole \<or> preserve then collect_chunks preserve err chunks s' else (s', True))"

text \<open>A read returns at least one byte and at most the buffer.\<close>

definition drain :: "'w ssh_library \<Rightarrow> bool \<Rightarrow> ('w, string list \<times> bool) ssh" where
  "drain lib err =
     ssh_ask (\<lambda>w. case sl_drain lib err w of ((chunks, failed), w') \<Rightarrow>
       ((filter (\<lambda>c. c \<noteq> []) (map (take 8192) chunks), failed), w')) (\<lambda>(chunks, failed). SshDrain err chunks failed)"

text \<open>The state with the failure that ended the loop, if any.\<close>

type_synonym collection = "collected \<times> (string \<times> string) option"

definition unknown_timeout :: "string \<times> string" where
  "unknown_timeout = (''timeout'', ''SSH command timed out; the remote result is unknown'')"

definition collect_stream ::
  "'w ssh_library \<Rightarrow> bool \<Rightarrow> bool \<Rightarrow> collected \<Rightarrow> ('w, (collected \<times> bool) + collection) ssh" where
  "collect_stream lib preserve err s =
     ssh_bind (drain lib err) (\<lambda>(chunks, failed).
     case collect_chunks preserve err chunks s of (s', over) \<Rightarrow>
       ssh_return
         (if over then Inr (s', Some (''output_limit'', ''SSH output exceeded the configured 64 KiB per-stream limit''))
          else if failed then Inr (s', Some (''ssh_error'', ''Reading the SSH command result failed''))
          else Inl (s', chunks \<noteq> [])))"

definition collect_round :: "'w ssh_library \<Rightarrow> bool \<Rightarrow> collected \<Rightarrow> ('w, collected + collection) ssh" where
  "collect_round lib preserve s =
     ssh_bind (collect_stream lib preserve False s) (\<lambda>first.
     case first of
       Inr stopped \<Rightarrow> ssh_return (Inr stopped)
     | Inl (s1, progress1) \<Rightarrow>
         ssh_bind (collect_stream lib preserve True s1) (\<lambda>second.
         case second of
           Inr stopped \<Rightarrow> ssh_return (Inr stopped)
         | Inl (s2, progress2) \<Rightarrow>
             ssh_bind (ssh_ask (sl_eof lib) SshEof) (\<lambda>at_end.
             if at_end \<or> progress1 \<or> progress2 then ssh_return (Inl s2)
             else
               ssh_bind (ssh_ask (sl_wait lib) SshWait) (\<lambda>ready.
               ssh_return (if ready then Inl s2 else Inr (s2, Some unknown_timeout))))))"

fun collect :: "'w ssh_library \<Rightarrow> bool \<Rightarrow> nat \<Rightarrow> collected \<Rightarrow> ('w, collection) ssh" where
  "collect lib preserve rounds s =
     ssh_bind (ssh_ask (sl_eof lib) SshEof) (\<lambda>at_end.
     if at_end then ssh_return (s, None)
     else
       (case rounds of
          0 \<Rightarrow> ssh_return (s, Some unknown_timeout)
        | Suc left_rounds \<Rightarrow>
            ssh_bind (collect_round lib preserve s) (\<lambda>r.
            case r of Inr stopped \<Rightarrow> ssh_return stopped | Inl s' \<Rightarrow> collect lib preserve left_rounds s')))"

declare collect.simps [simp del]

subsection \<open>Commands\<close>

definition start_command :: "'w ssh_library \<Rightarrow> string \<Rightarrow> ('w, unit) ssh" where
  "start_command lib command =
     ssh_bind (ssh_connect lib) (\<lambda>_.
     ssh_bind (arm_or_fail lib ''SSH command timed out'') (\<lambda>_.
     ssh_bind (ssh_ask (sl_channel lib) SshChannel) (\<lambda>channel.
     if \<not> channel then fail_session lib ''SSH command timed out'' ''ssh_error'' ''Could not open an SSH command channel''
     else
       ssh_bind (arm lib) (\<lambda>armed.
       ssh_bind (if armed then ssh_ask (sl_exec lib command) (SshExec command) else ssh_return False) (\<lambda>started.
       if started then ssh_return ()
       else fail_session lib ''Starting the SSH command timed out'' ''ssh_error'' ''Could not start the read-only SSH operation'')))))"

text \<open>\<^verbatim>\<open>interpret_exit_status\<close> (\<^verbatim>\<open>src/native/src/exit_status.hpp\<close>): no status is no result.\<close>

definition finish_result :: "bool \<Rightarrow> collection \<Rightarrow> int option \<Rightarrow> exec_result" where
  "finish_result preserve collection exit_status =
     (case collection of
        (s, Some (code, message)) \<Rightarrow> (cs_result s)\<lparr>xr_outcome := Inl \<lparr>ef_code = code, ef_message = message, ef_missing = []\<rparr>\<rparr>
      | (s, None) \<Rightarrow>
          (cs_result s)\<lparr>xr_outcome :=
            (case exit_status of
               None \<Rightarrow> Inl \<lparr>ef_code = ''result_unknown'',
                 ef_message = ''The SSH connection closed before an exit status was received'', ef_missing = []\<rparr>
             | Some status \<Rightarrow>
                 if output_truncated (cs_result s) \<and> \<not> preserve
                 then Inl \<lparr>ef_code = ''output_limit'',
                   ef_message = ''SSH output exceeded the configured 64 KiB per-stream limit'', ef_missing = []\<rparr>
                 else Inr status)\<rparr>)"

definition run_ssh_command_with_limits :: "'w ssh_library \<Rightarrow> string \<Rightarrow> nat \<Rightarrow> bool \<Rightarrow> ('w, exec_result) ssh" where
  "run_ssh_command_with_limits lib command maximum preserve =
     ssh_bind (ssh_result (start_command lib command)) (\<lambda>started.
     case started of
       Inl e \<Rightarrow> ssh_return (empty_result (Inl e))
     | Inr _ \<Rightarrow>
         ssh_bind (ssh_look (sl_rounds lib)) (\<lambda>rounds.
         ssh_bind (collect lib preserve rounds (collected_start maximum)) (\<lambda>collection.
         if snd collection \<noteq> None then ssh_return (finish_result preserve collection None)
         else
           ssh_bind (ssh_ask (sl_exit_status lib) SshExitStatus) (\<lambda>exit_status.
           ssh_return (finish_result preserve collection exit_status)))))"

definition kMaxOutputBytes :: nat where
  "kMaxOutputBytes = 64 * 1024"

definition run_ssh_command_with_timeout_limit ::
  "'w ssh_library \<Rightarrow> string \<Rightarrow> int \<Rightarrow> int \<Rightarrow> ('w, exec_result) ssh" where
  "run_ssh_command_with_timeout_limit lib command timeout_seconds maximum_timeout_seconds =
     (if timeout_seconds < 1 \<or> maximum_timeout_seconds < timeout_seconds
      then ssh_return (failed_result ''invalid_parameters'' ''The structured SSH operation timeout is invalid'')
      else run_ssh_command_with_limits lib command kMaxOutputBytes False)"

definition run_ssh_command :: "'w ssh_library \<Rightarrow> string \<Rightarrow> int \<Rightarrow> ('w, exec_result) ssh" where
  "run_ssh_command lib command timeout_seconds = run_ssh_command_with_timeout_limit lib command timeout_seconds 30"

end
