(* ===== verification/SshSftp.thy ===== *)
theory SshSftp
  imports SshExec
begin

text \<open>
  The SFTP operations of \<^verbatim>\<open>src/native/src/ssh.cpp\<close>: listing, metadata, directory creation, bounded reads and
  writes, removal, the link count and the guarded replacement.  The destructor of \<^verbatim>\<open>SshResources\<close>, which
  closes what is still open when an operation returns, is not part of the traces.
\<close>

subsection \<open>The budget of a metadata operation\<close>

text \<open>\<^verbatim>\<open>SftpMetadataDeadline\<close>, times in milliseconds.\<close>

record metadata_deadline =
  md_overall :: int
  md_phase_deadline :: int
  md_phase :: metadata_phase

definition new_metadata_deadline :: "int \<Rightarrow> int \<Rightarrow> metadata_deadline" where
  "new_metadata_deadline started total_ms =
     \<lparr>md_overall = started + total_ms, md_phase_deadline = started + total_ms, md_phase = NoPhase\<rparr>"

definition phase_limit :: "metadata_phase \<Rightarrow> int" where
  "phase_limit phase =
     (case phase of
        ConnectionPhase \<Rightarrow> 10000
      | HandshakePhase \<Rightarrow> 10000
      | AuthenticationPhase \<Rightarrow> 15000
      | StartupPhase \<Rightarrow> 5000
      | OperationPhase \<Rightarrow> 10000
      | _ \<Rightarrow> 30000)"

definition enter_phase :: "metadata_phase \<Rightarrow> int \<Rightarrow> metadata_deadline \<Rightarrow> metadata_deadline" where
  "enter_phase phase now d =
     (if phase = md_phase d then d
      else d\<lparr>md_phase := phase, md_phase_deadline := min (md_overall d) (now + phase_limit phase)\<rparr>)"

text \<open>\<^verbatim>\<open>phase_label\<close>, UTF-8.\<close>

definition phase_label :: "metadata_phase \<Rightarrow> string" where
  "phase_label phase =
     (case phase of
        HostKeyPhase \<Rightarrow> map char_of [228, 184, 187, 230, 156, 186, 232, 186, 171, 228, 187, 189, 230, 160, 161, 233, 170, 140::nat]
      | ConnectionPhase \<Rightarrow> map char_of [232, 191, 158, 230, 142, 165::nat]
      | HandshakePhase \<Rightarrow> map char_of [83, 83, 72, 32, 230, 143, 161, 230, 137, 139::nat]
      | AuthenticationPhase \<Rightarrow> map char_of [83, 83, 72, 32, 232, 174, 164, 232, 175, 129::nat]
      | StartupPhase \<Rightarrow> map char_of [83, 70, 84, 80, 32, 229, 136, 157, 229, 167, 139, 229, 140, 150::nat]
      | OperationPhase \<Rightarrow> map char_of [230, 150, 135, 228, 187, 182, 230, 147, 141, 228, 189, 156::nat]
      | NoPhase \<Rightarrow> map char_of [229, 135, 134, 229, 164, 135::nat])"

definition phase_suffix :: string where
  "phase_suffix = map char_of [233, 152, 182, 230, 174, 181, 239, 188, 154::nat]"

definition annotate_connection_failure :: "metadata_phase \<Rightarrow> exec_failure \<Rightarrow> exec_failure" where
  "annotate_connection_failure phase e =
     e\<lparr>ef_message := ''SFTP '' @ phase_label phase @ phase_suffix @ ef_message e\<rparr>"

definition ssh_connect_metadata :: "'w ssh_library \<Rightarrow> ('w, unit) ssh" where
  "ssh_connect_metadata lib =
     ssh_bind (ssh_ask (sl_connect lib) SshConnect) (\<lambda>r.
     case r of
       Some (e, phase) \<Rightarrow> ssh_raise (Inl (annotate_connection_failure phase e))
     | None \<Rightarrow> ssh_return ())"

subsection \<open>Parameters and attributes\<close>

definition bad_sftp_path :: "string \<Rightarrow> bool" where
  "bad_sftp_path path \<longleftrightarrow> path = [] \<or> 4096 < length path \<or> CHR 0x00 \<in> set path"

definition bad_timeout :: "int \<Rightarrow> bool" where
  "bad_timeout seconds \<longleftrightarrow> seconds < 1 \<or> 30 < seconds"

definition bad_absolute_path :: "string \<Rightarrow> bool" where
  "bad_absolute_path path \<longleftrightarrow>
     bad_sftp_path path \<or> hd path \<noteq> CHR ''/'' \<or> CHR 0x0D \<in> set path \<or> CHR 0x0A \<in> set path"

definition file_kind :: "sftp_attributes \<Rightarrow> string" where
  "file_kind attributes =
     (case at_permissions attributes of
        None \<Rightarrow> ''other''
      | Some p \<Rightarrow>
          if and p 61440 = 16384 then ''directory''
          else if and p 61440 = 32768 then ''file''
          else if and p 61440 = 40960 then ''symlink'' else ''other'')"

definition is_regular_file :: "sftp_attributes \<Rightarrow> bool" where
  "is_regular_file attributes \<longleftrightarrow>
     (case at_permissions attributes of Some p \<Rightarrow> and p 61440 = 32768 | None \<Rightarrow> False)"

definition file_size_of :: "sftp_attributes \<Rightarrow> 64 word" where
  "file_size_of attributes = (case at_size attributes of Some n \<Rightarrow> n | None \<Rightarrow> 0)"

definition modified_time :: "sftp_attributes \<Rightarrow> nat option" where
  "modified_time attributes = map_option (unat \<circ> snd) (at_times attributes)"

definition preserved_attributes :: "sftp_attributes \<Rightarrow> sftp_attributes" where
  "preserved_attributes source = source\<lparr>at_size := None\<rparr>"

definition unpreserved_metadata :: "sftp_attributes \<Rightarrow> sftp_attributes \<Rightarrow> string list" where
  "unpreserved_metadata source staged =
     (if at_permissions source \<noteq> None \<and> at_permissions staged \<noteq> at_permissions source then [''mode''] else []) @
     (if at_times source \<noteq> None \<and> modified_time staged \<noteq> modified_time source then [''mtime''] else []) @
     (case at_owner source of
        None \<Rightarrow> []
      | Some (uid, gid) \<Rightarrow>
          (if map_option fst (at_owner staged) \<noteq> Some uid then [''owner''] else []) @
          (if map_option snd (at_owner staged) \<noteq> Some gid then [''group''] else []))"

subsection \<open>Listing and metadata\<close>

definition entry_json :: "string \<Rightarrow> sftp_attributes \<Rightarrow> json" where
  "entry_json name attributes =
     JObject [(''name'', JString name), (''file_type'', JString (file_kind attributes)),
       (''size'', JUnsigned (file_size_of attributes))]"

function list_entries :: "'w ssh_library \<Rightarrow> nat \<Rightarrow> json list \<Rightarrow> ('w, json list) ssh" where
  "list_entries lib h entries =
     (if 4096 < length entries
      then ssh_fail ''output_limit'' ''The remote directory contains too many entries to list safely''
      else
        ssh_bind (arm_or_fail lib ''SFTP directory listing timed out'') (\<lambda>_.
        ssh_bind (ssh_ask (sl_readdir lib h) (SshReaddir h)) (\<lambda>answer.
        case answer of
          EndOfDirectory \<Rightarrow> ssh_return entries
        | ReaddirError \<Rightarrow>
            fail_session lib ''SFTP directory listing timed out'' ''sftp_error'' ''Could not read the remote directory''
        | Entry name attributes \<Rightarrow> list_entries lib h (entries @ [entry_json name attributes]))))"
  by pat_completeness auto
termination by (relation "measure (\<lambda>(lib, h, entries). 4097 - length entries)") auto

declare list_entries.simps [simp del]

definition sftp_list :: "'w ssh_library \<Rightarrow> string \<Rightarrow> int \<Rightarrow> ('w, string) ssh" where
  "sftp_list lib path timeout_seconds =
     (if bad_sftp_path path \<or> bad_timeout timeout_seconds
      then ssh_fail ''invalid_parameters'' ''The SFTP directory listing parameters are invalid''
      else
        ssh_bind (ssh_connect_metadata lib) (\<lambda>_.
        ssh_bind (arm_or_fail lib ''SFTP directory listing timed out'') (\<lambda>_.
        ssh_bind (sftp_open lib path OpenDirectory 0) (\<lambda>opened.
        case opened of
          None \<Rightarrow> fail_session lib ''SFTP directory listing timed out'' ''sftp_error'' ''Could not open the remote directory''
        | Some h \<Rightarrow>
            ssh_bind (list_entries lib h []) (\<lambda>entries.
            let stdout_text = sl_dump lib (JArray entries) in
            if 256 * 1024 < length stdout_text
            then ssh_fail ''output_limit'' ''The remote directory listing exceeded the response size limit''
            else ssh_return stdout_text)))))"

definition stat_json :: "bool \<Rightarrow> sftp_attributes \<Rightarrow> json" where
  "stat_json optional attributes =
     JObject ([(''kind'', JString (file_kind attributes)), (''size'', JUnsigned (file_size_of attributes)),
       (''modified'', case at_times attributes of Some (_, m) \<Rightarrow> JUnsigned (ucast m) | None \<Rightarrow> JNull)] @
       (if optional then [(''exists'', JBool True)] else []))"

text \<open>\<^verbatim>\<open>LIBSSH2_FX_NO_SUCH_FILE\<close> and \<^verbatim>\<open>LIBSSH2_FX_NO_SUCH_PATH\<close>.\<close>

definition sftp_stat_impl :: "'w ssh_library \<Rightarrow> string \<Rightarrow> int \<Rightarrow> bool \<Rightarrow> ('w, string) ssh" where
  "sftp_stat_impl lib path timeout_seconds optional =
     (if bad_sftp_path path \<or> bad_timeout timeout_seconds
      then ssh_fail ''invalid_parameters'' ''The SFTP metadata request parameters are invalid''
      else
        ssh_bind (ssh_connect_metadata lib) (\<lambda>_.
        ssh_bind (arm_or_fail lib ''SFTP metadata request timed out'') (\<lambda>_.
        ssh_bind (ssh_ask (sl_lstat lib path) (SshLstat path)) (\<lambda>found.
        case found of
          None \<Rightarrow>
            ssh_bind (ssh_ask (sl_timed_out lib) SshTimedOut) (\<lambda>timed_out.
            ssh_bind (ssh_ask (sl_sftp_error lib) SshSftpError) (\<lambda>sftp_error.
            if \<not> timed_out \<and> optional \<and> (sftp_error = 2 \<or> sftp_error = 10)
            then ssh_return (''{'' @ [CHR 0x22] @ ''exists'' @ [CHR 0x22] @ '':false}'')
            else if timed_out then ssh_fail ''timeout'' ''SFTP metadata request timed out''
            else ssh_fail ''sftp_error'' ''Could not read remote path metadata''))
        | Some attributes \<Rightarrow> ssh_return (sl_dump lib (stat_json optional attributes))))))"

definition sftp_stat :: "'w ssh_library \<Rightarrow> string \<Rightarrow> int \<Rightarrow> ('w, string) ssh" where
  "sftp_stat lib path timeout_seconds = sftp_stat_impl lib path timeout_seconds False"

definition sftp_lstat_optional :: "'w ssh_library \<Rightarrow> string \<Rightarrow> int \<Rightarrow> ('w, string) ssh" where
  "sftp_lstat_optional lib path timeout_seconds = sftp_stat_impl lib path timeout_seconds True"

definition confirmation :: "string \<Rightarrow> string" where
  "confirmation key = ''{'' @ [CHR 0x22] @ key @ [CHR 0x22] @ '':true}''"

definition sftp_create_dir :: "'w ssh_library \<Rightarrow> string \<Rightarrow> int \<Rightarrow> ('w, string) ssh" where
  "sftp_create_dir lib path timeout_seconds =
     (if bad_sftp_path path \<or> bad_timeout timeout_seconds
      then ssh_fail ''invalid_parameters'' ''The SFTP directory creation parameters are invalid''
      else
        ssh_bind (ssh_connect_metadata lib) (\<lambda>_.
        ssh_bind (arm_or_fail lib ''SFTP directory creation timed out'') (\<lambda>_.
        ssh_bind (ssh_ask (sl_mkdir lib path 493) (SshMkdir path 493)) (\<lambda>made.
        if made then ssh_return (confirmation ''created'')
        else fail_session lib ''SFTP directory creation timed out'' ''sftp_error'' ''Could not create the remote directory''))))"

definition sftp_remove_file :: "'w ssh_library \<Rightarrow> string \<Rightarrow> int \<Rightarrow> ('w, string) ssh" where
  "sftp_remove_file lib path timeout_seconds =
     (if bad_sftp_path path \<or> bad_timeout timeout_seconds
      then ssh_fail ''invalid_parameters'' ''The SFTP file removal parameters are invalid''
      else
        ssh_bind (ssh_connect_metadata lib) (\<lambda>_.
        ssh_bind (arm_or_fail lib ''SFTP file removal timed out'') (\<lambda>_.
        ssh_bind (ssh_ask (sl_unlink lib path) (SshUnlink path)) (\<lambda>removed.
        if removed then ssh_return (confirmation ''removed'')
        else fail_session lib ''SFTP file removal timed out'' ''sftp_error'' ''Could not remove the remote file''))))"

subsection \<open>Bounded reads and writes\<close>

text \<open>\<^verbatim>\<open>base64_encode\<close> of this file, block by block on 32-bit words.\<close>

definition base64_alphabet :: string where
  "base64_alphabet = ''ABCDEFGHIJKLMNOPQRSTUVWXYZabcdefghijklmnopqrstuvwxyz0123456789+/''"

definition alphabet_char :: "32 word \<Rightarrow> char" where
  "alphabet_char index = base64_alphabet ! unat (and index 63)"

definition encode_block :: "8 word \<Rightarrow> 8 word option \<Rightarrow> 8 word option \<Rightarrow> string" where
  "encode_block first second third =
     (let value = (\<lambda>b. case b of Some x \<Rightarrow> ucast x | None \<Rightarrow> 0);
          block = or (or (push_bit 16 (ucast first)) (push_bit 8 (value second))) (value third) :: 32 word
      in [alphabet_char (drop_bit 18 block), alphabet_char (drop_bit 12 block),
          if second = None then CHR ''='' else alphabet_char (drop_bit 6 block),
          if third = None then CHR ''='' else alphabet_char block])"

fun base64_encode :: "8 word list \<Rightarrow> string" where
  "base64_encode (x # y # z # rest) = encode_block x (Some y) (Some z) @ base64_encode rest"
| "base64_encode [x, y] = encode_block x (Some y) None"
| "base64_encode [x] = encode_block x None None"
| "base64_encode [] = []"

definition sftp_read :: "'w ssh_library \<Rightarrow> string \<Rightarrow> nat \<Rightarrow> int \<Rightarrow> ('w, string) ssh" where
  "sftp_read lib path max_bytes timeout_seconds =
     (if bad_sftp_path path \<or> 1024 * 1024 < max_bytes \<or> bad_timeout timeout_seconds
      then ssh_fail ''invalid_parameters'' ''The bounded SFTP read parameters are invalid''
      else
        ssh_bind (ssh_connect lib) (\<lambda>_.
        ssh_bind (arm_or_fail lib ''SFTP file read timed out'') (\<lambda>_.
        ssh_bind (sftp_open lib path OpenRead 0) (\<lambda>opened.
        case opened of
          None \<Rightarrow> fail_late lib ''SFTP file read timed out'' ''sftp_error'' ''Could not open the remote file for reading''
        | Some h \<Rightarrow>
            ssh_bind (read_bounded lib ''SFTP file read timed out'' ''Could not read the remote file'' h (max_bytes + 1) [])
              (\<lambda>bytes. ssh_return (base64_encode bytes))))))"

text \<open>\<^verbatim>\<open>if (!set_session_timeout(...) || libssh2_sftp_fsync(...) != 0)\<close>.\<close>

definition sync_or_fail :: "'w ssh_library \<Rightarrow> nat \<Rightarrow> string \<Rightarrow> string \<Rightarrow> ('w, unit) ssh" where
  "sync_or_fail lib h late message =
     ssh_bind (arm lib) (\<lambda>ok.
     if \<not> ok then fail_late lib late ''sftp_error'' message
     else
       ssh_bind (ssh_ask (sl_fsync lib h) (SshFsync h)) (\<lambda>synced.
       if synced then ssh_return () else fail_late lib late ''sftp_error'' message))"

text \<open>The code and the message of a failed close are chosen by two looks at the clock.\<close>

definition close_written :: "'w ssh_library \<Rightarrow> nat \<Rightarrow> exec_failure + unit \<Rightarrow> ('w, unit) ssh" where
  "close_written lib h written =
     ssh_bind (ssh_ask (sl_close lib h) (SshClose h)) (\<lambda>closed.
     if \<not> closed \<and> written = Inr () then
       ssh_bind (expired lib) (\<lambda>first.
       ssh_bind (expired lib) (\<lambda>second.
       ssh_fail (if first then ''timeout'' else ''sftp_error'')
         (if second then ''Closing the SFTP file timed out'' else ''Could not close the remote file after writing'')))
     else ssh_raise written)"

definition sftp_write_impl :: "'w ssh_library \<Rightarrow> string \<Rightarrow> 8 word list \<Rightarrow> bool \<Rightarrow> int \<Rightarrow> ('w, string) ssh" where
  "sftp_write_impl lib path content exclusive timeout_seconds =
     (if bad_sftp_path path \<or> (if exclusive then 1024 * 1024 else 512 * 1024) < length content \<or> bad_timeout timeout_seconds
      then ssh_fail ''invalid_parameters'' ''The bounded SFTP write parameters are invalid''
      else
        ssh_bind (ssh_connect lib) (\<lambda>_.
        ssh_bind (sftp_open lib path (if exclusive then OpenExclusive else OpenTruncate) 420) (\<lambda>opened.
        case opened of
          None \<Rightarrow> fail_late lib ''SFTP file write timed out'' ''sftp_error'' ''Could not open the remote file for writing''
        | Some h \<Rightarrow>
            ssh_bind (ssh_result
              (ssh_bind (write_all lib ''SFTP file write timed out'' ''Could not write the remote file'' h content) (\<lambda>_.
               if exclusive
               then sync_or_fail lib h ''Syncing the SFTP recovery file timed out'' ''The SFTP server could not sync the recovery file''
               else ssh_return ()))) (\<lambda>written.
            ssh_bind (arm_cleanup lib) (\<lambda>_.
            ssh_bind (ssh_result (close_written lib h written)) (\<lambda>closed.
            case closed of
              Inr _ \<Rightarrow> ssh_return (sl_dump lib (JObject [(''bytes_written'', JUnsigned (of_nat (length content)))]))
            | Inl e \<Rightarrow>
                ssh_bind (if exclusive then ssh_bind (arm_cleanup lib) (\<lambda>_. sftp_unlink lib path) else ssh_return ())
                  (\<lambda>_. ssh_raise (Inl e))))))))"

definition sftp_write :: "'w ssh_library \<Rightarrow> string \<Rightarrow> 8 word list \<Rightarrow> int \<Rightarrow> ('w, string) ssh" where
  "sftp_write lib path content timeout_seconds = sftp_write_impl lib path content False timeout_seconds"

definition sftp_create_exclusive :: "'w ssh_library \<Rightarrow> string \<Rightarrow> 8 word list \<Rightarrow> int \<Rightarrow> ('w, string) ssh" where
  "sftp_create_exclusive lib path content timeout_seconds = sftp_write_impl lib path content True timeout_seconds"

subsection \<open>The link count\<close>

fun quote_chars :: "string \<Rightarrow> string" where
  "quote_chars [] = []"
| "quote_chars (c # cs) = (if c = CHR 0x27 then [CHR 0x27, CHR 0x5C, CHR 0x27, CHR 0x27] else [c]) @ quote_chars cs"

definition shell_single_quote :: "string \<Rightarrow> string" where
  "shell_single_quote value = [CHR 0x27] @ quote_chars value @ [CHR 0x27]"

definition is_space :: "char \<Rightarrow> bool" where
  "is_space c \<longleftrightarrow> c = CHR '' '' \<or> 9 \<le> byte c \<and> byte c \<le> 13"

definition parse_link_count :: "int \<Rightarrow> string \<Rightarrow> 64 word option" where
  "parse_link_count exit_code stdout_text =
     (let output = trim_by is_space stdout_text in
      if exit_code = 0 \<and> output \<noteq> [] \<and> list_all ascii_digit output \<and> read_decimal output < 2 ^ 64
      then Some (of_nat (read_decimal output)) else None)"

definition link_count_command :: "string \<Rightarrow> string" where
  "link_count_command quoted =
     ''stat -c %h '' @ quoted @ '' 2>/dev/null || stat -f %l '' @ quoted @ '' 2>/dev/null''"

definition sftp_link_count :: "'w ssh_library \<Rightarrow> string \<Rightarrow> int \<Rightarrow> ('w, exec_result) ssh" where
  "sftp_link_count lib path timeout_seconds =
     (if bad_absolute_path path \<or> bad_timeout timeout_seconds
      then ssh_return (failed_result ''invalid_parameters'' ''The SFTP link-count path is invalid'')
      else
        ssh_bind (run_ssh_command lib (link_count_command (shell_single_quote path)) timeout_seconds) (\<lambda>probe.
        case xr_outcome probe of
          Inl e \<Rightarrow> ssh_return probe
        | Inr exit_code \<Rightarrow>
            ssh_return (probe\<lparr>
              xr_stdout := sl_dump lib (JObject [(''link_count'',
                case parse_link_count exit_code (xr_stdout probe) of Some n \<Rightarrow> JUnsigned n | None \<Rightarrow> JNull)]),
              xr_stderr := [], xr_outcome := Inr 0\<rparr>)))"

end
