(* ===== verification/SshReplace.thy ===== *)
theory SshReplace
  imports SshSftp
begin

text \<open>
  \<^verbatim>\<open>sftp_replace_guarded\<close> of \<^verbatim>\<open>src/native/src/ssh.cpp\<close>: an edited file replaces the one that was read only if
  that one has not changed, by size, modification time and content, and the replacement keeps its metadata.
\<close>

definition signed_decimal :: "int \<Rightarrow> string" where
  "signed_decimal n = (if n < 0 then CHR ''-'' # decimal (nat (- n)) else decimal (nat n))"

definition stage_path_for :: "string \<Rightarrow> int \<Rightarrow> string" where
  "stage_path_for path nonce = path @ ''.yukinal-stage-'' @ signed_decimal nonce"

definition bad_replace_request :: "exec_request \<Rightarrow> bool" where
  "bad_replace_request request \<longleftrightarrow>
     bad_absolute_path (er_path request) \<or> 1024 * 1024 < er_expected_size request \<or>
     1024 * 1024 < length (er_content request) \<or> bad_timeout (er_timeout_seconds request)"

text \<open>The target is the regular file the request expects.\<close>

definition matches_expected :: "exec_request \<Rightarrow> sftp_attributes \<Rightarrow> bool" where
  "matches_expected request attributes \<longleftrightarrow>
     unat (file_size_of attributes) = er_expected_size request \<and>
     modified_time attributes = er_expected_modified request"

definition lstat_or_fail :: "'w ssh_library \<Rightarrow> string \<Rightarrow> string \<Rightarrow> string \<Rightarrow> ('w, sftp_attributes) ssh" where
  "lstat_or_fail lib path late message =
     ssh_bind (sftp_lstat lib path) (\<lambda>found.
     case found of Some attributes \<Rightarrow> ssh_return attributes | None \<Rightarrow> fail_late lib late ''sftp_error'' message)"

definition check_source :: "'w ssh_library \<Rightarrow> exec_request \<Rightarrow> ('w, sftp_attributes) ssh" where
  "check_source lib request =
     ssh_bind (lstat_or_fail lib (er_path request)
       ''Reading the guarded SFTP target timed out'' ''Could not inspect the guarded SFTP target'') (\<lambda>source.
     if \<not> is_regular_file source
     then ssh_fail ''replace_unsupported'' ''Only a regular file can be replaced atomically; symlinks and directories are refused''
     else if \<not> matches_expected request source
     then ssh_fail ''concurrent_change'' ''The target size or mtime changed after it was read''
     else ssh_return source)"

definition recheck_target :: "'w ssh_library \<Rightarrow> exec_request \<Rightarrow> string \<Rightarrow> string \<Rightarrow> string \<Rightarrow> ('w, unit) ssh" where
  "recheck_target lib request late message changed =
     ssh_bind (lstat_or_fail lib (er_path request) late message) (\<lambda>current.
     if \<not> is_regular_file current \<or> \<not> matches_expected request current
     then ssh_fail ''concurrent_change'' changed else ssh_return ())"

definition set_metadata :: "'w ssh_library \<Rightarrow> string \<Rightarrow> nat \<Rightarrow> sftp_attributes \<Rightarrow> ('w, unit) ssh" where
  "set_metadata lib stage h desired =
     ssh_bind (arm_or_fail lib ''Preserving SFTP file metadata timed out'') (\<lambda>_.
     if at_permissions desired = None \<and> at_owner desired = None \<and> at_times desired = None then ssh_return ()
     else
       ssh_bind (ssh_ask (sl_fsetstat lib h desired) (SshFsetstat h desired)) (\<lambda>handle_metadata_set.
       if handle_metadata_set then ssh_return ()
       else
         ssh_bind (arm_or_fail lib ''Preserving SFTP file metadata timed out'') (\<lambda>_.
         ssh_bind (ssh_ask (sl_setstat lib stage desired) (SshSetstat stage desired)) (\<lambda>_. ssh_return ()))))"

definition fill_stage :: "'w ssh_library \<Rightarrow> exec_request \<Rightarrow> string \<Rightarrow> nat \<Rightarrow> sftp_attributes \<Rightarrow> ('w, unit) ssh" where
  "fill_stage lib request stage h source =
     ssh_bind (write_all lib ''Writing the guarded SFTP staging file timed out''
       ''Could not write the guarded SFTP staging file'' h (er_content request)) (\<lambda>_.
     ssh_bind (set_metadata lib stage h (preserved_attributes source)) (\<lambda>_.
     sync_or_fail lib h ''Syncing the guarded SFTP staging file timed out''
       ''The SFTP server could not sync the guarded staging file''))"

text \<open>The close after a step that returned \<open>r\<close>: its failure counts only if the step succeeded.\<close>

definition close_after ::
  "'w ssh_library \<Rightarrow> nat \<Rightarrow> string \<Rightarrow> string \<Rightarrow> exec_failure + 'a \<Rightarrow> ('w, 'a) ssh" where
  "close_after lib h late message r =
     ssh_bind (arm_cleanup lib) (\<lambda>_.
     ssh_bind (ssh_ask (sl_close lib h) (SshClose h)) (\<lambda>closed.
     case r of
       Inl e \<Rightarrow> ssh_raise (Inl e)
     | Inr x \<Rightarrow> if closed then ssh_return x else fail_late lib late ''sftp_error'' message))"

definition write_stage :: "'w ssh_library \<Rightarrow> exec_request \<Rightarrow> string \<Rightarrow> nat \<Rightarrow> sftp_attributes \<Rightarrow> ('w, unit) ssh" where
  "write_stage lib request stage h source =
     ssh_bind (ssh_result (fill_stage lib request stage h source))
       (close_after lib h ''Closing the guarded SFTP staging file timed out'' ''Could not close the guarded SFTP staging file'')"

definition check_stage :: "'w ssh_library \<Rightarrow> string \<Rightarrow> sftp_attributes \<Rightarrow> ('w, unit) ssh" where
  "check_stage lib stage source =
     ssh_bind (lstat_or_fail lib stage ''Verifying the SFTP staging file timed out'' ''Could not verify the SFTP staging file'') (\<lambda>staged.
     if unpreserved_metadata source staged \<noteq> []
     then ssh_raise (Inl \<lparr>ef_code = ''metadata_not_preserved'',
       ef_message = ''The remote server would not preserve the file'' @ [CHR 0x27] @ ''s metadata; the edit was not published'',
       ef_missing = unpreserved_metadata source staged\<rparr>)
     else ssh_return ())"

definition verify_content :: "'w ssh_library \<Rightarrow> exec_request \<Rightarrow> ('w, unit) ssh" where
  "verify_content lib request =
     ssh_bind (arm_or_fail lib ''Opening the target for guarded content verification timed out'') (\<lambda>_.
     ssh_bind (sftp_open lib (er_path request) OpenRead 0) (\<lambda>opened.
     case opened of
       None \<Rightarrow> fail_late lib ''Opening the target for guarded content verification timed out'' ''sftp_error''
         ''Could not read the target for guarded content verification''
     | Some h \<Rightarrow>
         ssh_bind (ssh_result (read_bounded lib ''Reading the target for guarded content verification timed out''
           ''Could not read the target for guarded content verification'' h (er_expected_size request + 1) [])) (\<lambda>r.
         ssh_bind (close_after lib h ''Closing guarded content verification timed out''
           ''Could not close guarded content verification'' r) (\<lambda>current.
         if length current \<noteq> er_expected_size request
         then ssh_fail ''concurrent_change'' ''The target size changed while its content was being verified''
         else
           (case sl_digest lib current of
              None \<Rightarrow> ssh_fail ''internal_error'' ''SHA-256 content verification is unavailable''
            | Some digest \<Rightarrow>
                if digest \<noteq> er_expected_digest request
                then ssh_fail ''concurrent_change'' ''The target content changed while the replacement was staged''
                else ssh_return ())))))"

text \<open>\<^verbatim>\<open>LIBSSH2_ERROR_TIMEOUT\<close> is -9, \<^verbatim>\<open>LIBSSH2_FX_OP_UNSUPPORTED\<close> 8, \<^verbatim>\<open>LIBSSH2_ERROR_SFTP_PROTOCOL\<close> -31.\<close>

definition publish_replacement :: "'w ssh_library \<Rightarrow> exec_request \<Rightarrow> string \<Rightarrow> ('w, unit) ssh" where
  "publish_replacement lib request stage =
     ssh_bind (arm_or_fail lib ''Publishing the guarded SFTP replacement timed out'') (\<lambda>_.
     ssh_bind (ssh_ask (sl_posix_rename lib stage (er_path request)) (SshRename stage (er_path request))) (\<lambda>renamed.
     if renamed then ssh_return ()
     else
       ssh_bind (ssh_ask (sl_errno lib) SshErrno) (\<lambda>session_error.
       ssh_bind (expired lib) (\<lambda>late.
       if late \<or> session_error = - 9 then ssh_fail ''timeout'' ''Publishing the guarded SFTP replacement timed out''
       else if session_error = 8 \<or> session_error = - 31
       then ssh_fail ''replace_unsupported'' ''The server refused safe atomic replacement, so the edit was not published''
       else ssh_fail ''sftp_error'' ''The guarded SFTP replacement could not be confirmed''))))"

text \<open>Everything between the creation of the stage and its publication.\<close>

definition replace_staged :: "'w ssh_library \<Rightarrow> exec_request \<Rightarrow> string \<Rightarrow> nat \<Rightarrow> sftp_attributes \<Rightarrow> ('w, unit) ssh" where
  "replace_staged lib request stage h source =
     ssh_bind (write_stage lib request stage h source) (\<lambda>_.
     ssh_bind (check_stage lib stage source) (\<lambda>_.
     ssh_bind (recheck_target lib request ''Rechecking the guarded SFTP target timed out''
       ''Could not recheck the guarded SFTP target'' ''The target metadata changed while the replacement was staged'') (\<lambda>_.
     ssh_bind (verify_content lib request) (\<lambda>_.
     ssh_bind (recheck_target lib request ''Rechecking target metadata after content verification timed out''
       ''Could not recheck target metadata after content verification''
       ''The target metadata changed during content verification'') (\<lambda>_.
     publish_replacement lib request stage)))))"

definition confirm_replacement :: "'w ssh_library \<Rightarrow> exec_request \<Rightarrow> ('w, string) ssh" where
  "confirm_replacement lib request =
     ssh_bind (lstat_or_fail lib (er_path request) ''Verifying the published replacement timed out''
       ''The replacement was published but its metadata could not be verified'') (\<lambda>published.
     if \<not> is_regular_file published \<or> unat (file_size_of published) \<noteq> length (er_content request)
     then ssh_fail ''concurrent_change'' ''The published path does not contain the replacement that was staged''
     else ssh_return (sl_dump lib (JObject [(''size'', JUnsigned (file_size_of published)),
       (''modified'', case at_times published of Some (_, m) \<Rightarrow> JUnsigned (ucast m) | None \<Rightarrow> JNull)])))"

text \<open>\<^verbatim>\<open>~StagingFileCleanup\<close>.\<close>

definition discard_stage :: "'w ssh_library \<Rightarrow> string \<Rightarrow> ('w, unit) ssh" where
  "discard_stage lib stage = ssh_bind (ssh_tell (sl_grace lib) SshGrace) (\<lambda>_. sftp_unlink lib stage)"

definition sftp_replace_guarded :: "'w ssh_library \<Rightarrow> int \<Rightarrow> exec_request \<Rightarrow> ('w, string) ssh" where
  "sftp_replace_guarded lib nonce request =
     (let path = er_path request; stage = stage_path_for path nonce in
      if bad_replace_request request
      then ssh_fail ''invalid_parameters'' ''The guarded SFTP replacement parameters are invalid''
      else if last path = CHR ''/''
      then ssh_fail ''replace_unsupported'' ''A root or directory path cannot be replaced as a regular file''
      else if 4096 < length stage
      then ssh_fail ''replace_unsupported'' ''The path is too long to place a sibling staging file safely''
      else
        ssh_bind (ssh_connect lib) (\<lambda>_.
        ssh_bind (check_source lib request) (\<lambda>source.
        ssh_bind (arm_or_fail lib ''Creating the guarded SFTP staging file timed out'') (\<lambda>_.
        ssh_bind (sftp_open lib stage OpenExclusive
          (case at_permissions source of Some p \<Rightarrow> uint p | None \<Rightarrow> 384)) (\<lambda>opened.
        case opened of
          None \<Rightarrow> fail_late lib ''Creating the guarded SFTP staging file timed out'' ''replace_unsupported''
            ''The server refused an exclusive sibling staging file, so nothing was published''
        | Some h \<Rightarrow>
            ssh_bind (ssh_result (replace_staged lib request stage h source)) (\<lambda>r.
            case r of
              Inl e \<Rightarrow> ssh_bind (discard_stage lib stage) (\<lambda>_. ssh_raise (Inl e))
            | Inr _ \<Rightarrow> confirm_replacement lib request))))))"

end
