(* ===== verification/SshReplaceProps.thy ===== *)
theory SshReplaceProps
  imports SshReplace
begin

text \<open>
  Every run of the guarded replacement: what was seen before the one rename, and what is left behind.
\<close>

subsection \<open>Runs of the building blocks\<close>

lemma traced_arm_or_fail:
  assumes "traced (arm_or_fail lib message) r es"
  shows "r = Inr () \<and> es = [SshArm True] \<or> (\<exists>e. r = Inl e \<and> es = [SshArm False])"
  using assms unfolding arm_or_fail_def arm_def
  by (auto simp: traced_simps elim!: traced_bindE traced_askE split: if_splits)

lemma traced_fail_late:
  assumes "traced (fail_late lib late code message) r es"
  shows "\<exists>e b. r = Inl e \<and> es = [SshExpired b]"
  using assms unfolding fail_late_def expired_def
  by (auto simp: traced_simps elim!: traced_bindE traced_askE split: if_splits)

lemma traced_arm_cleanup:
  assumes "traced (arm_cleanup lib) r es"
  shows "r = Inr () \<and> (es = [SshArm True] \<or> es = [SshArm False, SshGrace])"
  using assms unfolding arm_cleanup_def arm_def
  by (auto simp: traced_simps elim!: traced_bindE traced_askE traced_tellE split: if_splits)

text \<open>Calls that change nothing on the server.\<close>

fun looking :: "ssh_event \<Rightarrow> bool" where
  "looking (SshOpen path mode permissions r) = (mode = OpenRead \<or> mode = OpenDirectory \<or> r = None)"
| "looking (SshWrite h data n) = False"
| "looking (SshFsetstat h a r) = False"
| "looking (SshSetstat path a r) = False"
| "looking (SshUnlink path r) = False"
| "looking (SshMkdir path n r) = False"
| "looking (SshRename source target r) = False"
| "looking (SshSend bytes r) = False"
| "looking (SshExec command r) = False"
| "looking _ = True"

fun is_rename :: "ssh_event \<Rightarrow> bool" where
  "is_rename (SshRename source target r) = True"
| "is_rename _ = False"

lemma looking_no_rename: "looking e \<Longrightarrow> \<not> is_rename e"
  by (cases e) auto

lemma traced_lstat_or_fail:
  assumes "traced (lstat_or_fail lib path late message) r es"
  shows "(\<exists>a. r = Inr a \<and> es = [SshArm True, SshLstat path (Some a)]) \<or> (\<exists>e. r = Inl e \<and> list_all looking es)"
  using assms unfolding lstat_or_fail_def sftp_lstat_def arm_def
  by (auto simp: traced_simps elim!: traced_bindE traced_askE dest!: traced_fail_late split: if_splits option.splits)

text \<open>What was written to and read from a handle.\<close>

fun written_to :: "nat \<Rightarrow> ssh_event list \<Rightarrow> 8 word list" where
  "written_to h [] = []"
| "written_to h (SshWrite h' data n # es) = (if h' = h then take (nat n) data else []) @ written_to h es"
| "written_to h (_ # es) = written_to h es"

fun read_from :: "nat \<Rightarrow> ssh_event list \<Rightarrow> 8 word list" where
  "read_from h [] = []"
| "read_from h (SshRead h' n (Some data) # es) = (if h' = h then data else []) @ read_from h es"
| "read_from h (_ # es) = read_from h es"

lemma written_append: "written_to h (a @ b) = written_to h a @ written_to h b"
  by (induction a rule: written_to.induct) auto

lemma read_append: "read_from h (a @ b) = read_from h a @ read_from h b"
  by (induction h a rule: read_from.induct) auto

lemma traced_write_all:
  assumes "traced (write_all lib late message h data) r es"
  shows "list_all (\<lambda>e. looking e \<or> (\<exists>d n. e = SshWrite h d n)) es \<and> (r = Inr () \<longrightarrow> written_to h es = data)"
  using assms
proof (induction lib late message h data arbitrary: r es rule: write_all.induct)
  case (1 lib late message h)
  then show ?case by (simp add: traced_simps)
next
  case (2 lib late message h c cs)
  from "2.prems" show ?case
    unfolding write_all.simps
  proof (cases rule: traced_bindE)
    case (stop e)
    then show ?thesis by (auto dest!: traced_arm_or_fail)
  next
    case (go u es1 es2)
    from go(2) show ?thesis
    proof (cases rule: traced_bindE)
      case (stop e)
      then show ?thesis by (auto elim!: traced_askE)
    next
      case (go n es3 es4)
      have first: "es1 = [SshArm True]" using \<open>traced (arm_or_fail lib late) (Inr u) es1\<close> by (auto dest: traced_arm_or_fail)
      have second: "es3 = [SshWrite h (c # cs) n]" using go(1) by (auto elim: traced_askE)
      show ?thesis
      proof (cases "n \<le> 0")
        case True
        then show ?thesis using go \<open>es = es1 @ es2\<close> first second by (auto dest!: traced_fail_late)
      next
        case False
        obtain k where k: "nat n = Suc k" using False by (cases "nat n") auto
        show ?thesis
          using "2.IH" [of n r es4] False go \<open>es = es1 @ es2\<close> first second k by (simp add: take_Suc_Cons)
      qed
    qed
  qed
qed

lemma traced_read_bounded:
  assumes "traced (read_bounded lib late message h limit bytes) r es"
  shows "list_all looking es \<and> (\<forall>got. r = Inr got \<longrightarrow> got = bytes @ read_from h es)"
  using assms
proof (induction lib late message h limit bytes arbitrary: r es rule: read_bounded.induct)
  case (1 lib late message h limit bytes)
  show ?case
  proof (cases "limit \<le> length bytes")
    case True
    then show ?thesis using "1.prems" by (subst (asm) read_bounded.simps) (simp add: traced_simps)
  next
    case False
    from "1.prems" False have "traced (ssh_bind (arm_or_fail lib late) (\<lambda>_.
        ssh_bind (sftp_read_some lib h (min (limit - length bytes) (32 * 1024))) (\<lambda>r.
        case r of
          None \<Rightarrow> fail_late lib late ''sftp_error'' message
        | Some chunk \<Rightarrow> if chunk = [] then ssh_return bytes else read_bounded lib late message h limit (bytes @ chunk)))) r es"
      by (subst (asm) read_bounded.simps) simp
    then show ?thesis
    proof (cases rule: traced_bindE)
      case (stop e)
      then show ?thesis by (auto dest!: traced_arm_or_fail)
    next
      case (go u es1 es2)
      have first: "es1 = [SshArm True]" using go(1) by (auto dest: traced_arm_or_fail)
      from go(2) show ?thesis
      proof (cases rule: traced_bindE)
        case (stop e)
        then show ?thesis by (auto simp: sftp_read_some_def elim!: traced_askE)
      next
        case (go chunk es3 es4)
        have second: "es3 = [SshRead h (min (limit - length bytes) (32 * 1024)) chunk]"
          using go(1) by (auto simp: sftp_read_some_def elim: traced_askE)
        show ?thesis
        proof (cases "\<exists>data. chunk = Some data \<and> data \<noteq> []")
          case True
          then obtain data where data: "chunk = Some data" "data \<noteq> []" by blast
          show ?thesis
            using "1.IH" [OF False data, of r es4] go \<open>es = es1 @ es2\<close> first second data by auto
        next
          case False
          then show ?thesis using go \<open>es = es1 @ es2\<close> first second
            by (auto simp: traced_simps dest!: traced_fail_late split: option.splits)
        qed
      qed
    qed
  qed
qed

subsection \<open>The phases\<close>

text \<open>Calls that change nothing but the stage.\<close>

definition stage_only :: "string \<Rightarrow> nat \<Rightarrow> ssh_event \<Rightarrow> bool" where
  "stage_only stage h e \<longleftrightarrow>
     looking e \<or> (\<exists>d n. e = SshWrite h d n) \<or> (\<exists>a r. e = SshFsetstat h a r) \<or> (\<exists>a r. e = SshSetstat stage a r)"

lemma looking_stage: "list_all looking es \<Longrightarrow> list_all (stage_only stage h) es"
  by (auto simp: list_all_iff stage_only_def)

lemma traced_set_metadata:
  assumes "traced (set_metadata lib stage h desired) r es"
  shows "list_all (stage_only stage h) es \<and> written_to h es = []"
  using assms unfolding set_metadata_def
  by (auto simp: traced_simps stage_only_def elim!: traced_bindE traced_askE dest!: traced_arm_or_fail split: if_splits)

lemma traced_sync:
  assumes "traced (sync_or_fail lib h late message) r es"
  shows "list_all looking es \<and> written_to h es = [] \<and> (r = Inr () \<longrightarrow> SshFsync h True \<in> set es)"
  using assms unfolding sync_or_fail_def arm_def
  by (auto simp: traced_simps elim!: traced_bindE traced_askE dest!: traced_fail_late split: if_splits)

lemma traced_fill_stage:
  assumes "traced (fill_stage lib request stage h source) r es"
  shows "list_all (stage_only stage h) es \<and> (r = Inr () \<longrightarrow> written_to h es = er_content request \<and> SshFsync h True \<in> set es)"
proof -
  have wrote: "list_all (stage_only stage h) es" if "list_all (\<lambda>e. looking e \<or> (\<exists>d n. e = SshWrite h d n)) es" for es
    using that by (auto simp: list_all_iff stage_only_def)
  from assms show ?thesis
    unfolding fill_stage_def
  proof (cases rule: traced_bindE)
    case (stop e)
    then show ?thesis using wrote by (auto dest!: traced_write_all)
  next
    case (go u es1 es2)
    note one = traced_write_all [OF go(1)]
    from go(2) show ?thesis
    proof (cases rule: traced_bindE)
      case (stop e)
      then show ?thesis using one wrote \<open>es = es1 @ es2\<close> by (auto dest!: traced_set_metadata)
    next
      case (go v es3 es4)
      then show ?thesis
        using one wrote \<open>es = es1 @ es2\<close> traced_set_metadata [OF go(1)] traced_sync [OF go(2)]
        by (auto simp: written_append looking_stage)
    qed
  qed
qed

lemma traced_close_after:
  assumes "traced (close_after lib h late message r0) r es"
  shows "list_all looking es \<and> (\<forall>k. written_to k es = [] \<and> read_from k es = []) \<and>
    (\<forall>x. r = Inr x \<longrightarrow> r0 = Inr x \<and> SshClose h True \<in> set es)"
  using assms unfolding close_after_def
  by (auto simp: traced_simps elim!: traced_bindE traced_askE dest!: traced_arm_cleanup traced_fail_late split: if_splits sum.splits)

lemma traced_write_stage:
  assumes "traced (write_stage lib request stage h source) r es"
  shows "list_all (stage_only stage h) es \<and>
    (r = Inr () \<longrightarrow> written_to h es = er_content request \<and> SshFsync h True \<in> set es \<and> SshClose h True \<in> set es)"
  using assms unfolding write_stage_def
proof (cases rule: traced_bindE)
  case (stop e)
  then show ?thesis by (auto elim!: traced_resultE)
next
  case (go q es1 es2)
  have filled: "traced (fill_stage lib request stage h source) q es1" using go(1) by (auto elim: traced_resultE)
  show ?thesis
    using traced_fill_stage [OF filled] traced_close_after [OF go(2)] go(3)
    by (auto simp: written_append looking_stage)
qed

lemma traced_check_stage:
  assumes "traced (check_stage lib stage source) r es"
  shows "(\<exists>staged. r = Inr () \<and> es = [SshArm True, SshLstat stage (Some staged)] \<and> unpreserved_metadata source staged = []) \<or>
    (\<exists>e. r = Inl e \<and> list_all looking es)"
  using assms unfolding check_stage_def
  by (auto simp: traced_simps elim!: traced_bindE dest!: traced_lstat_or_fail split: if_splits)

definition expected_target :: "exec_request \<Rightarrow> sftp_attributes \<Rightarrow> bool" where
  "expected_target request a \<longleftrightarrow> is_regular_file a \<and> matches_expected request a"

lemma traced_recheck:
  assumes "traced (recheck_target lib request late message changed) r es"
  shows "(\<exists>a. r = Inr () \<and> es = [SshArm True, SshLstat (er_path request) (Some a)] \<and> expected_target request a) \<or>
    (\<exists>e. r = Inl e \<and> list_all looking es)"
  using assms unfolding recheck_target_def expected_target_def
  by (auto simp: traced_simps elim!: traced_bindE dest!: traced_lstat_or_fail split: if_splits)

lemma traced_check_source:
  assumes "traced (check_source lib request) r es"
  shows "(\<exists>a. r = Inr a \<and> es = [SshArm True, SshLstat (er_path request) (Some a)] \<and> expected_target request a) \<or>
    (\<exists>e. r = Inl e \<and> list_all looking es)"
  using assms unfolding check_source_def expected_target_def
  by (auto simp: traced_simps elim!: traced_bindE dest!: traced_lstat_or_fail split: if_splits)

text \<open>The target was opened, read to its end, closed, and had the expected length and digest.\<close>

definition content_seen :: "'w ssh_library \<Rightarrow> exec_request \<Rightarrow> ssh_event list \<Rightarrow> bool" where
  "content_seen lib request es \<longleftrightarrow>
     (\<exists>h rest. es = [SshArm True, SshOpen (er_path request) OpenRead 0 (Some h)] @ rest \<and> SshClose h True \<in> set rest \<and>
        length (read_from h rest) = er_expected_size request \<and>
        sl_digest lib (read_from h rest) = Some (er_expected_digest request))"

lemma traced_verify_content:
  assumes "traced (verify_content lib request) r es"
  shows "list_all looking es \<and> (r = Inr () \<longrightarrow> content_seen lib request es)"
  using assms unfolding verify_content_def
proof (cases rule: traced_bindE)
  case (stop e)
  then show ?thesis by (auto dest!: traced_arm_or_fail)
next
  case (go u es1 es2)
  have first: "es1 = [SshArm True]" using go(1) by (auto dest: traced_arm_or_fail)
  from go(2) show ?thesis
  proof (cases rule: traced_bindE)
    case (stop e)
    then show ?thesis by (auto simp: sftp_open_def elim!: traced_askE)
  next
    case (go opened es3 es4)
    have second: "es3 = [SshOpen (er_path request) OpenRead 0 opened]"
      using go(1) by (auto simp: sftp_open_def elim: traced_askE)
    show ?thesis
    proof (cases opened)
      case None
      then show ?thesis using go \<open>es = es1 @ es2\<close> first second by (auto dest!: traced_fail_late)
    next
      case (Some h)
      from go(2) [unfolded Some option.case] show ?thesis
      proof (cases rule: traced_bindE)
        case (stop e)
        then show ?thesis by (auto elim!: traced_resultE)
      next
        case (go q es5 es6)
        obtain late message where body: "traced (read_bounded lib late message h (er_expected_size request + 1) []) q es5"
          using go(1) by (auto elim: traced_resultE)
        from go(2) show ?thesis
        proof (cases rule: traced_bindE)
          case (stop e)
          then show ?thesis
            using \<open>es = es1 @ es2\<close> \<open>es2 = es3 @ es4\<close> \<open>es4 = es5 @ es6\<close> first second traced_read_bounded [OF body]
            by (auto dest!: traced_close_after)
        next
          case (go current es7 es8)
          note closed = traced_close_after [OF go(1)]
          have got: "q = Inr current" "SshClose h True \<in> set es7" using closed by auto
          have bytes: "current = read_from h es5" using traced_read_bounded [OF body] got by simp
          have tail: "es8 = []" "r = Inr () \<longrightarrow> length current = er_expected_size request \<and>
              sl_digest lib current = Some (er_expected_digest request)"
            using go(2) by (auto simp: traced_simps split: if_splits option.splits)
          have all: "es = [SshArm True, SshOpen (er_path request) OpenRead 0 (Some h)] @ (es5 @ es7)"
            using \<open>es = es1 @ es2\<close> \<open>es2 = es3 @ es4\<close> \<open>es4 = es5 @ es6\<close> \<open>es6 = es7 @ es8\<close> first second tail Some by simp
          have "read_from h (es5 @ es7) = current" using bytes closed by (simp add: read_append)
          then have "r = Inr () \<longrightarrow> content_seen lib request es"
            using tail(2) got(2) all unfolding content_seen_def by (intro impI exI [of _ h] exI [of _ "es5 @ es7"]) simp
          moreover have "list_all looking es" using all traced_read_bounded [OF body] closed by simp
          ultimately show ?thesis by simp
        qed
      qed
    qed
  qed
qed

lemma traced_publish:
  assumes "traced (publish_replacement lib request stage) r es"
  shows "(\<exists>ok post. es = [SshArm True, SshRename stage (er_path request) ok] @ post \<and> list_all looking post \<and> (r = Inr () \<longleftrightarrow> ok)) \<or>
    (\<exists>e. r = Inl e \<and> list_all looking es)"
  using assms unfolding publish_replacement_def expired_def
  by (auto simp: traced_simps elim!: traced_bindE traced_askE dest!: traced_arm_or_fail split: if_splits)

text \<open>
  What precedes the rename: the content is in the synced and closed stage with all metadata, the target was
  the expected one, had the expected content, and still was the expected one in the look just before.
\<close>

definition publication_ready ::
  "'w ssh_library \<Rightarrow> exec_request \<Rightarrow> string \<Rightarrow> nat \<Rightarrow> sftp_attributes \<Rightarrow> ssh_event list \<Rightarrow> bool" where
  "publication_ready lib request stage h source es \<longleftrightarrow>
     (\<exists>filling staged before reading after.
        es = filling @ [SshArm True, SshLstat stage (Some staged), SshArm True, SshLstat (er_path request) (Some before)] @
          reading @ [SshArm True, SshLstat (er_path request) (Some after), SshArm True] \<and>
        list_all (stage_only stage h) filling \<and> written_to h filling = er_content request \<and>
        SshFsync h True \<in> set filling \<and> SshClose h True \<in> set filling \<and>
        unpreserved_metadata source staged = [] \<and>
        expected_target request before \<and> content_seen lib request reading \<and> list_all looking reading \<and>
        expected_target request after)"

lemma traced_staged:
  assumes "traced (replace_staged lib request stage h source) r es"
  shows "(\<exists>pre ok post. es = pre @ [SshRename stage (er_path request) ok] @ post \<and> (r = Inr () \<longleftrightarrow> ok) \<and>
      publication_ready lib request stage h source pre \<and> list_all looking post) \<or>
    (\<exists>e. r = Inl e \<and> list_all (stage_only stage h) es)"
  using assms unfolding replace_staged_def
proof (cases rule: traced_bindE)
  case (stop e)
  then show ?thesis by (auto dest!: traced_write_stage)
next
  case (go u filling es2)
  note filled = traced_write_stage [OF go(1)]
  from go(2) show ?thesis
  proof (cases rule: traced_bindE)
    case (stop e)
    then show ?thesis using filled \<open>es = filling @ es2\<close> by (auto dest!: traced_check_stage simp: looking_stage)
  next
    case (go v es3 es4)
    obtain staged where stage: "es3 = [SshArm True, SshLstat stage (Some staged)]" "unpreserved_metadata source staged = []"
      using traced_check_stage [OF go(1)] by auto
    from go(2) show ?thesis
    proof (cases rule: traced_bindE)
      case (stop e)
      then show ?thesis using filled stage \<open>es = filling @ es2\<close> \<open>es2 = es3 @ es4\<close>
        by (auto dest!: traced_recheck simp: looking_stage stage_only_def)
    next
      case (go v es5 es6)
      obtain before where before: "es5 = [SshArm True, SshLstat (er_path request) (Some before)]" "expected_target request before"
        using traced_recheck [OF go(1)] by auto
      from go(2) show ?thesis
      proof (cases rule: traced_bindE)
        case (stop e)
        then show ?thesis using filled stage before \<open>es = filling @ es2\<close> \<open>es2 = es3 @ es4\<close> \<open>es4 = es5 @ es6\<close>
          by (auto dest!: traced_verify_content simp: looking_stage stage_only_def)
      next
        case (go v reading es8)
        note read = traced_verify_content [OF go(1)]
        from go(2) show ?thesis
        proof (cases rule: traced_bindE)
          case (stop e)
          then show ?thesis
            using filled stage before read \<open>es = filling @ es2\<close> \<open>es2 = es3 @ es4\<close> \<open>es4 = es5 @ es6\<close> \<open>es6 = reading @ es8\<close>
            by (auto dest!: traced_recheck simp: looking_stage stage_only_def)
        next
          case (go v es9 es10)
          obtain after where after: "es9 = [SshArm True, SshLstat (er_path request) (Some after)]" "expected_target request after"
            using traced_recheck [OF go(1)] by auto
          have all: "es = filling @ [SshArm True, SshLstat stage (Some staged), SshArm True, SshLstat (er_path request) (Some before)] @
              reading @ [SshArm True, SshLstat (er_path request) (Some after)] @ es10"
            using \<open>es = filling @ es2\<close> \<open>es2 = es3 @ es4\<close> \<open>es4 = es5 @ es6\<close> \<open>es6 = reading @ es8\<close> \<open>es8 = es9 @ es10\<close>
              stage before after by simp
          from traced_publish [OF go(2)] show ?thesis
          proof (elim disjE exE conjE)
            fix ok post
            assume tail: "es10 = [SshArm True, SshRename stage (er_path request) ok] @ post" "list_all looking post" "r = Inr () \<longleftrightarrow> ok"
            have "publication_ready lib request stage h source
                (filling @ [SshArm True, SshLstat stage (Some staged), SshArm True, SshLstat (er_path request) (Some before)] @
                 reading @ [SshArm True, SshLstat (er_path request) (Some after), SshArm True])"
              unfolding publication_ready_def using filled stage before read after
              by (intro exI [of _ filling] exI [of _ staged] exI [of _ before] exI [of _ reading] exI [of _ after]) simp
            then show ?thesis using all tail by (intro disjI1 exI [of _ ok] exI [of _ post] exI conjI) auto
          next
            fix e
            assume "r = Inl e" "list_all looking es10"
            then show ?thesis using all filled read by (auto simp: looking_stage stage_only_def)
          qed
        qed
      qed
    qed
  qed
qed

lemma traced_discard:
  assumes "traced (discard_stage lib stage) r es"
  shows "\<exists>u. r = Inr () \<and> es = [SshGrace, SshUnlink stage u]"
  using assms unfolding discard_stage_def sftp_unlink_def
  by (auto simp: traced_simps elim!: traced_bindE traced_askE traced_tellE)

lemma traced_confirm:
  assumes "traced (confirm_replacement lib request) r es"
  shows "list_all looking es \<and> (\<forall>text. r = Inr text \<longrightarrow> (\<exists>published.
    es = [SshArm True, SshLstat (er_path request) (Some published)] \<and> is_regular_file published \<and>
    unat (file_size_of published) = length (er_content request)))"
  using assms unfolding confirm_replacement_def
  by (auto simp: traced_simps elim!: traced_bindE dest!: traced_lstat_or_fail split: if_splits)

text \<open>The whole run, in its three shapes.\<close>

definition unchanged_run :: "exec_failure + string \<Rightarrow> ssh_event list \<Rightarrow> bool" where
  "unchanged_run r es \<longleftrightarrow> (\<exists>e. r = Inl e) \<and> list_all looking es"

definition stage_created :: "exec_request \<Rightarrow> string \<Rightarrow> nat \<Rightarrow> sftp_attributes \<Rightarrow> ssh_event list \<Rightarrow> bool" where
  "stage_created request stage h source es \<longleftrightarrow>
     (\<exists>start mode. es = start @ [SshLstat (er_path request) (Some source), SshArm True, SshOpen stage OpenExclusive mode (Some h)] \<and>
        list_all looking start \<and> expected_target request source)"

definition discarded_run :: "exec_request \<Rightarrow> string \<Rightarrow> exec_failure + string \<Rightarrow> ssh_event list \<Rightarrow> bool" where
  "discarded_run request stage r es \<longleftrightarrow>
     (\<exists>e h source start filling u. r = Inl e \<and> es = start @ filling @ [SshGrace, SshUnlink stage u] \<and>
        stage_created request stage h source start \<and> list_all (stage_only stage h) filling)"

definition renaming_run :: "'w ssh_library \<Rightarrow> exec_request \<Rightarrow> string \<Rightarrow> exec_failure + string \<Rightarrow> ssh_event list \<Rightarrow> bool" where
  "renaming_run lib request stage r es \<longleftrightarrow>
     (\<exists>h source start pre ok post. es = start @ pre @ [SshRename stage (er_path request) ok] @ post \<and>
        stage_created request stage h source start \<and> publication_ready lib request stage h source pre \<and>
        (if ok
         then list_all looking post \<and> (\<forall>text. r = Inr text \<longrightarrow> (\<exists>published rest.
           post = rest @ [SshLstat (er_path request) (Some published)] \<and> is_regular_file published \<and>
           unat (file_size_of published) = length (er_content request)))
         else (\<exists>e looks u. r = Inl e \<and> post = looks @ [SshGrace, SshUnlink stage u] \<and> list_all looking looks)))"

lemma traced_created:
  assumes run: "traced (ssh_bind (ssh_result (replace_staged lib request stage h source)) (\<lambda>r.
        case r of
          Inl e \<Rightarrow> ssh_bind (discard_stage lib stage) (\<lambda>_. ssh_raise (Inl e))
        | Inr _ \<Rightarrow> confirm_replacement lib request)) r es"
    and start: "stage_created request stage h source start"
  shows "discarded_run request stage r (start @ es) \<or> renaming_run lib request stage r (start @ es)"
  using run
proof (cases rule: traced_bindE)
  case (stop e)
  then show ?thesis by (auto elim!: traced_resultE)
next
  case (go q es1 es2)
  have staged: "traced (replace_staged lib request stage h source) q es1" using go(1) by (auto elim: traced_resultE)
  have cleaned: "r = Inl e \<and> (\<exists>u. es2 = [SshGrace, SshUnlink stage u])" if "q = Inl e" for e
    using go(2) that by (auto simp: traced_simps elim!: traced_bindE dest!: traced_discard)
  from traced_staged [OF staged] show ?thesis
  proof (elim disjE exE conjE)
    fix pre ok post
    assume shape: "es1 = pre @ [SshRename stage (er_path request) ok] @ post" "q = Inr () \<longleftrightarrow> ok"
      "publication_ready lib request stage h source pre" "list_all looking post"
    show ?thesis
    proof (cases q)
      case (Inl e)
      obtain u where "r = Inl e" "es2 = [SshGrace, SshUnlink stage u]" using cleaned [OF Inl] by blast
      then show ?thesis
        unfolding renaming_run_def using shape start Inl go(3)
        by (intro disjI2 exI [of _ h] exI [of _ source] exI [of _ start] exI [of _ pre] exI [of _ ok] exI [of _ "post @ es2"]) auto
    next
      case (Inr u)
      then have confirmed: "traced (confirm_replacement lib request) r es2" using go(2) by simp
      show ?thesis
        unfolding renaming_run_def using shape start Inr go(3) traced_confirm [OF confirmed]
        by (intro disjI2 exI [of _ h] exI [of _ source] exI [of _ start] exI [of _ pre] exI [of _ ok] exI [of _ "post @ es2"])
          (auto intro!: exI [of _ "post @ [SshArm True]"])
    qed
  next
    fix e
    assume shape: "q = Inl e" "list_all (stage_only stage h) es1"
    obtain u where "r = Inl e" "es2 = [SshGrace, SshUnlink stage u]" using cleaned [OF shape(1)] by blast
    then show ?thesis
      unfolding discarded_run_def using shape start go(3)
      by (intro disjI1 exI [of _ e] exI [of _ h] exI [of _ source] exI [of _ start] exI [of _ es1] exI [of _ u]) simp
  qed
qed

lemma replace_guarded_runs:
  assumes "traced (sftp_replace_guarded lib nonce request) r es"
  shows "unchanged_run r es \<or> discarded_run request (stage_path_for (er_path request) nonce) r es \<or>
    renaming_run lib request (stage_path_for (er_path request) nonce) r es"
proof -
  let ?stage = "stage_path_for (er_path request) nonce"
  from assms consider "unchanged_run r es"
    | "traced (ssh_bind (ssh_connect lib) (\<lambda>_.
        ssh_bind (check_source lib request) (\<lambda>source.
        ssh_bind (arm_or_fail lib ''Creating the guarded SFTP staging file timed out'') (\<lambda>_.
        ssh_bind (sftp_open lib ?stage OpenExclusive
          (case at_permissions source of Some p \<Rightarrow> uint p | None \<Rightarrow> 384)) (\<lambda>opened.
        case opened of
          None \<Rightarrow> fail_late lib ''Creating the guarded SFTP staging file timed out'' ''replace_unsupported''
            ''The server refused an exclusive sibling staging file, so nothing was published''
        | Some h \<Rightarrow>
            ssh_bind (ssh_result (replace_staged lib request ?stage h source)) (\<lambda>r.
            case r of
              Inl e \<Rightarrow> ssh_bind (discard_stage lib ?stage) (\<lambda>_. ssh_raise (Inl e))
            | Inr _ \<Rightarrow> confirm_replacement lib request)))))) r es"
    unfolding sftp_replace_guarded_def Let_def unchanged_run_def by (auto simp: traced_simps split: if_splits)
  then show ?thesis
  proof cases
    case 1
    then show ?thesis by simp
  next
    case 2
    then show ?thesis
    proof (cases rule: traced_bindE)
      case (stop e)
      then show ?thesis
        by (auto simp: unchanged_run_def ssh_connect_def traced_simps elim!: traced_bindE traced_askE split: option.splits)
    next
      case (go u es1 es2)
      have connected: "list_all looking es1"
        using go(1) by (auto simp: ssh_connect_def traced_simps elim!: traced_bindE traced_askE split: option.splits)
      from go(2) show ?thesis
      proof (cases rule: traced_bindE)
        case (stop e)
        then show ?thesis using connected \<open>es = es1 @ es2\<close> by (auto simp: unchanged_run_def dest!: traced_check_source)
      next
        case (go source es3 es4)
        have source: "es3 = [SshArm True, SshLstat (er_path request) (Some source)]" "expected_target request source"
          using traced_check_source [OF go(1)] by auto
        from go(2) show ?thesis
        proof (cases rule: traced_bindE)
          case (stop e)
          then show ?thesis using connected source \<open>es = es1 @ es2\<close> \<open>es2 = es3 @ es4\<close>
            by (auto simp: unchanged_run_def dest!: traced_arm_or_fail)
        next
          case (go v es5 es6)
          have armed: "es5 = [SshArm True]" using go(1) by (auto dest: traced_arm_or_fail)
          from go(2) show ?thesis
          proof (cases rule: traced_bindE)
            case (stop e)
            then show ?thesis by (auto simp: sftp_open_def elim!: traced_askE)
          next
            case (go opened es7 es8)
            obtain mode where creating: "es7 = [SshOpen ?stage OpenExclusive mode opened]"
              using go(1) by (auto simp: sftp_open_def elim: traced_askE)
            let ?start = "es1 @ es3 @ es5 @ es7"
            have all: "es = ?start @ es8"
              using \<open>es = es1 @ es2\<close> \<open>es2 = es3 @ es4\<close> \<open>es4 = es5 @ es6\<close> \<open>es6 = es7 @ es8\<close> by simp
            show ?thesis
            proof (cases opened)
              case None
              then show ?thesis using all connected source armed creating go(2)
                by (auto simp: unchanged_run_def dest!: traced_fail_late)
            next
              case (Some h)
              have created: "stage_created request ?stage h source ?start"
                unfolding stage_created_def using connected source armed creating Some
                by (intro exI [of _ "es1 @ [SshArm True]"] exI [of _ mode]) simp
              show ?thesis using traced_created [OF go(2) [unfolded Some option.case] created] all by simp
            qed
          qed
        qed
      qed
    qed
  qed
qed

text \<open>C4: A guarded replacement publishes only what was checked.  In every run there is at most one rename,
  of the stage over the requested path, and before it: the path was seen as the regular file of the expected
  size and time, the stage was created exclusively, filled with exactly the content, synced and closed, its
  metadata was seen to be that of the original, the path was seen unchanged, its content was read with the
  expected length and SHA-256, and it was seen unchanged again in the last call; a run without the rename
  changes nothing but its own stage.\<close>

theorem replacement_guarded:
  "case sftp_replace_guarded lib nonce request w of (r, w', es) \<Rightarrow>
     unchanged_run r es \<or> discarded_run request (stage_path_for (er_path request) nonce) r es \<or>
     renaming_run lib request (stage_path_for (er_path request) nonce) r es"
proof -
  obtain r w' es where run: "sftp_replace_guarded lib nonce request w = (r, w', es)" by (cases "sftp_replace_guarded lib nonce request w")
  then have "traced (sftp_replace_guarded lib nonce request) r es" by (auto simp: traced_def)
  with run show ?thesis using replace_guarded_runs [of lib nonce request r es] by simp
qed

end
