(* ===== verification/SshPublish.thy ===== *)
theory SshPublish
  imports SshSftp Wire
begin

text \<open>
  \<^verbatim>\<open>sftp_publish_no_replace\<close> of \<^verbatim>\<open>src/native/src/ssh.cpp\<close>: the publication of a staged file by a hard link,
  spoken in SFTP packets on a channel of its own because \<^verbatim>\<open>libssh2\<close> has no call for the extension.
\<close>

subsection \<open>Packets\<close>

text \<open>\<^verbatim>\<open>read_sftp_channel_exact\<close> fills the whole buffer or fails.\<close>

definition receive_exact :: "'w ssh_library \<Rightarrow> nat \<Rightarrow> ('w, string option) ssh" where
  "receive_exact lib n =
     ssh_ask (\<lambda>w. case sl_receive lib n w of
       (Some s, w') \<Rightarrow> (if length s = n then Some s else None, w') | (None, w') \<Rightarrow> (None, w')) (SshReceive n)"

definition receive_packet :: "'w ssh_library \<Rightarrow> ('w, string option) ssh" where
  "receive_packet lib =
     ssh_bind (receive_exact lib 4) (\<lambda>length_bytes.
     case length_bytes of
       None \<Rightarrow> ssh_return None
     | Some s \<Rightarrow>
         (let n = be_value s in
          if n = 0 \<or> 64 * 1024 < n then ssh_return None else receive_exact lib n))"

definition sftp_frame :: "string \<Rightarrow> string" where
  "sftp_frame body = be_bytes 4 (length body) @ body"

definition init_body :: string where
  "init_body = char_of (1 :: nat) # be_bytes 4 3"

definition hardlink_name :: string where
  "hardlink_name = ''hardlink@openssh.com''"

definition hardlink_body :: "string \<Rightarrow> string \<Rightarrow> string" where
  "hardlink_body source destination =
     char_of (200 :: nat) # be_bytes 4 1 @ wire_string hardlink_name @ wire_string source @ wire_string destination"

definition lstat_body :: "string \<Rightarrow> string" where
  "lstat_body path = char_of (7 :: nat) # be_bytes 4 2 @ wire_string path"

text \<open>\<^verbatim>\<open>read_sftp_u32(packet.data() + offset)\<close>.\<close>

definition packet_u32 :: "string \<Rightarrow> nat \<Rightarrow> nat" where
  "packet_u32 packet offset = be_value (take 4 (drop offset packet))"

definition packet_is :: "string \<Rightarrow> nat \<Rightarrow> bool" where
  "packet_is packet kind \<longleftrightarrow> byte (hd packet) = kind"

text \<open>The extensions of the version packet; \<^term>\<open>None\<close> when they are malformed.\<close>

function hardlink_offered :: "string \<Rightarrow> bool \<Rightarrow> bool option" where
  "hardlink_offered rest found =
     (if rest = [] then Some found
      else case read_string rest of
          None \<Rightarrow> None
        | Some (name, rest1) \<Rightarrow>
            (case read_string rest1 of
               None \<Rightarrow> None
             | Some (version, rest2) \<Rightarrow>
                 hardlink_offered rest2 (if name = hardlink_name \<and> version = ''1'' then True else found)))"
  by pat_completeness auto
termination by (relation "measure (\<lambda>(rest, found). length rest)") (auto dest!: read_string_shorter)

declare hardlink_offered.simps [simp del]

subsection \<open>The exchange\<close>

definition start_channel :: "'w ssh_library \<Rightarrow> ('w, unit) ssh" where
  "start_channel lib =
     (let late = ''Starting the SFTP publication timed out'' in
      ssh_bind (arm_or_fail lib late) (\<lambda>_.
      ssh_bind (ssh_ask (sl_channel lib) SshChannel) (\<lambda>channel.
      if \<not> channel then fail_session lib late ''sftp_error'' ''Could not open the SFTP publication channel''
      else
        ssh_bind (arm lib) (\<lambda>armed.
        ssh_bind (if armed then ssh_ask (sl_subsystem lib) SshSubsystem else ssh_return False) (\<lambda>started.
        if \<not> started then fail_session lib late ''sftp_error'' ''Could not start the SFTP subsystem for publication''
        else
          ssh_bind (ssh_ask (sl_nonblocking lib) SshNonblocking) (\<lambda>ok.
          if ok then ssh_return () else ssh_fail ''sftp_error'' ''Could not configure the SFTP publication channel''))))))"

definition send_frame :: "'w ssh_library \<Rightarrow> string \<Rightarrow> ('w, bool) ssh" where
  "send_frame lib body = ssh_ask (sl_send lib (sftp_frame body)) (SshSend (sftp_frame body))"

definition negotiate_hardlink :: "'w ssh_library \<Rightarrow> ('w, unit) ssh" where
  "negotiate_hardlink lib =
     (let late = ''Negotiating the SFTP publication timed out'' in
      ssh_bind (send_frame lib init_body) (\<lambda>sent.
      if \<not> sent then fail_session lib late ''sftp_error'' ''Could not initialize the SFTP publication channel''
      else
        ssh_bind (receive_packet lib) (\<lambda>received.
        case received of
          None \<Rightarrow> fail_session lib late ''sftp_error'' ''The SFTP server returned an invalid version packet''
        | Some packet \<Rightarrow>
            if length packet < 5 \<or> \<not> packet_is packet 2 \<or> packet_u32 packet 1 < 3
            then ssh_fail ''replace_unsupported'' ''The SFTP server did not negotiate a supported protocol version''
            else
              (case hardlink_offered (drop 5 packet) False of
                 None \<Rightarrow> ssh_fail ''sftp_error'' ''The SFTP server returned malformed extension metadata''
               | Some offered \<Rightarrow>
                   if \<not> offered
                   then ssh_fail ''replace_unsupported'' ''The SFTP server did not negotiate hardlink@openssh.com version 1''
                   else ssh_return ()))))"

text \<open>Whether the server says, after a general failure, that the destination is there.\<close>

definition destination_there :: "'w ssh_library \<Rightarrow> string \<Rightarrow> ('w, bool) ssh" where
  "destination_there lib destination =
     ssh_bind (send_frame lib (lstat_body destination)) (\<lambda>sent.
     if \<not> sent then ssh_return False
     else
       ssh_bind (receive_packet lib) (\<lambda>received.
       case received of
         None \<Rightarrow> ssh_return False
       | Some packet \<Rightarrow> ssh_return (9 \<le> length packet \<and> packet_u32 packet 1 = 2 \<and> packet_is packet 105)))"

text \<open>\<^verbatim>\<open>LIBSSH2_FX_OK\<close> is 0, \<^verbatim>\<open>LIBSSH2_FX_FAILURE\<close> 4 and \<^verbatim>\<open>LIBSSH2_FX_FILE_ALREADY_EXISTS\<close> 11.\<close>

definition request_hardlink :: "'w ssh_library \<Rightarrow> string \<Rightarrow> string \<Rightarrow> ('w, string) ssh" where
  "request_hardlink lib source destination =
     (let late = ''Publishing the remote file timed out''; unconfirmed = ''The SFTP server did not confirm file publication'' in
      ssh_bind (send_frame lib (hardlink_body source destination)) (\<lambda>sent.
      if \<not> sent then fail_session lib late ''sftp_error'' unconfirmed
      else
        ssh_bind (receive_packet lib) (\<lambda>received.
        case received of
          None \<Rightarrow> fail_session lib late ''sftp_error'' unconfirmed
        | Some packet \<Rightarrow>
            if length packet < 9 \<or> \<not> packet_is packet 101 \<or> packet_u32 packet 1 \<noteq> 1
            then ssh_fail ''sftp_error'' ''The SFTP server returned an invalid publication response''
            else
              (let status = packet_u32 packet 5 in
               if status = 11 then ssh_fail ''already_exists'' ''The remote destination already exists''
               else if status \<noteq> 0 then
                 ssh_bind (if status = 4 then destination_there lib destination else ssh_return False) (\<lambda>destination_exists.
                 if destination_exists then ssh_fail ''already_exists'' ''The remote destination already exists''
                 else ssh_fail ''sftp_error'' ''The SFTP server refused no-replace publication'')
               else ssh_return (confirmation ''published'')))))"

definition bad_publication_path :: "string \<Rightarrow> bool" where
  "bad_publication_path path \<longleftrightarrow> bad_absolute_path path \<or> last path = CHR ''/''"

text \<open>The path before the last slash, \<^verbatim>\<open>/\<close> when that is empty.\<close>

definition normalized_parent :: "string \<Rightarrow> string" where
  "normalized_parent path =
     (let parent = (case rfind_char (CHR ''/'') path of Some i \<Rightarrow> take i path | None \<Rightarrow> path) in
      if parent = [] then ''/'' else parent)"

definition sftp_publish_no_replace :: "'w ssh_library \<Rightarrow> string \<Rightarrow> string \<Rightarrow> int \<Rightarrow> ('w, string) ssh" where
  "sftp_publish_no_replace lib source destination timeout_seconds =
     (if bad_publication_path source \<or> bad_publication_path destination \<or> source = destination \<or>
         bad_timeout timeout_seconds
      then ssh_fail ''invalid_parameters'' ''The SFTP no-replace publication paths are invalid''
      else if normalized_parent source \<noteq> normalized_parent destination
      then ssh_fail ''invalid_parameters'' ''The SFTP no-replace publication paths must be siblings''
      else
        ssh_bind (ssh_connect_metadata lib) (\<lambda>_.
        ssh_bind (start_channel lib) (\<lambda>_.
        ssh_bind (negotiate_hardlink lib) (\<lambda>_.
        request_hardlink lib source destination))))"

end
