(* ===== verification/SshPublishProps.thy ===== *)
theory SshPublishProps
  imports SshPublish SshReplaceProps
begin

text \<open>
  Every run of the no-replace publication: what was negotiated before the request, what the request says, and
  what answer makes it a success.
\<close>

subsection \<open>The request, read back\<close>

text \<open>A frame is one length-prefixed string; its body is a type, a request id and the strings of the type.\<close>

definition read_hardlink_frame :: "string \<Rightarrow> (nat \<times> string \<times> string) option" where
  "read_hardlink_frame frame =
     (case read_string frame of
        Some (kind # body, []) \<Rightarrow>
          (if byte kind \<noteq> 200 then None
           else case read_u32 body of
               None \<Rightarrow> None
             | Some (request, rest) \<Rightarrow>
                 (case read_string rest of
                    Some (name, rest1) \<Rightarrow>
                      (if name \<noteq> ''hardlink@openssh.com'' then None
                       else case read_string rest1 of
                           None \<Rightarrow> None
                         | Some (source, rest2) \<Rightarrow>
                             (case read_string rest2 of
                                Some (destination, []) \<Rightarrow> Some (request, source, destination)
                              | _ \<Rightarrow> None))
                  | None \<Rightarrow> None))
      | _ \<Rightarrow> None)"

lemma hardlink_frame_read:
  assumes "length source < 2 ^ 31" "length destination < 2 ^ 30"
  shows "read_hardlink_frame (sftp_frame (hardlink_body source destination)) = Some (1, source, destination)"
proof -
  let ?body = "hardlink_body source destination"
  have frame: "read_string (sftp_frame ?body) = Some (?body, [])"
    using assms read_string_iff [of "sftp_frame ?body" ?body "[]"]
    by (simp add: sftp_frame_def wire_string_def hardlink_body_def hardlink_name_def)
  have last_read: "read_string (wire_string destination) = Some (destination, [])"
    using assms read_string_wire [of destination "[]"] by simp
  have byte: "byte (char_of (200 :: nat)) = 200" by (simp add: byte_def)
  show ?thesis
    unfolding read_hardlink_frame_def frame
    using assms last_read by (simp add: hardlink_body_def hardlink_name_def byte)
qed

subsection \<open>Runs\<close>

text \<open>Calls that change nothing on the server: everything but the changing calls and the hard link request.\<close>

definition harmless :: "ssh_event \<Rightarrow> bool" where
  "harmless e \<longleftrightarrow> looking e \<or> (\<exists>sent. e = SshSend (sftp_frame init_body) sent) \<or>
     (\<exists>path sent. e = SshSend (sftp_frame (lstat_body path)) sent)"

lemma looking_harmless: "list_all looking es \<Longrightarrow> list_all harmless es"
  by (auto simp: list_all_iff harmless_def)

text \<open>A packet was received: four bytes of length, then that many bytes.\<close>

definition received_packet :: "string option \<Rightarrow> ssh_event list \<Rightarrow> bool" where
  "received_packet answer es \<longleftrightarrow>
     (case answer of
        None \<Rightarrow> (\<exists>s. es = [SshReceive 4 s]) \<or> (\<exists>s n. es = [SshReceive 4 (Some s), SshReceive n None])
      | Some packet \<Rightarrow> length packet \<le> 64 * 1024 \<and>
          es = [SshReceive 4 (Some (be_bytes 4 (length packet))), SshReceive (length packet) (Some packet)])"

lemma traced_receive_exact:
  assumes "traced (receive_exact lib n) r es"
  obtains answer where "r = Inr answer" "es = [SshReceive n answer]" "\<And>s. answer = Some s \<Longrightarrow> length s = n"
proof -
  obtain w w' where run: "receive_exact lib n w = (r, w', es)" using assms by (auto simp: traced_def)
  show thesis
    using run that unfolding receive_exact_def ssh_ask_def
    by (cases "sl_receive lib n w") (auto split: option.splits if_splits)
qed

lemma traced_receive_packet:
  assumes "traced (receive_packet lib) r es"
  obtains answer where "r = Inr answer" "received_packet answer es"
  using assms unfolding receive_packet_def
proof (cases rule: traced_bindE)
  case (stop e)
  then show thesis by (auto elim: traced_receive_exact)
next
  case (go q es1 es2)
  obtain first: "es1 = [SshReceive 4 q]" "\<And>s. q = Some s \<Longrightarrow> length s = 4"
    using go(1) by (auto elim!: traced_receive_exact)
  show thesis
  proof (cases q)
    case None
    then show thesis using that [of None] go first by (simp add: traced_simps received_packet_def)
  next
    case (Some s)
    have four: "length s = 4" using first Some by simp
    show thesis
    proof (cases "be_value s = 0 \<or> 64 * 1024 < be_value s")
      case True
      then show thesis using that [of None] go first Some by (simp add: traced_simps received_packet_def)
    next
      case False
      from go(2) Some False have "traced (receive_exact lib (be_value s)) r es2" by (simp add: Let_def)
      then obtain answer where second: "r = Inr answer" "es2 = [SshReceive (be_value s) answer]"
          "\<And>p. answer = Some p \<Longrightarrow> length p = be_value s"
        by (elim traced_receive_exact) auto
      have "received_packet answer es"
        unfolding received_packet_def using second go(3) first Some False four be_bytes_be_value [of s]
        by (cases answer) auto
      then show thesis using that second by blast
    qed
  qed
qed

lemma traced_fail_session:
  assumes "traced (fail_session lib late code message) r es"
  shows "\<exists>e b. r = Inl e \<and> ef_code e \<in> {''timeout'', code} \<and> es = [SshTimedOut b]"
  using assms unfolding fail_session_def
  by (auto simp: traced_simps elim!: traced_bindE traced_askE split: if_splits)

lemma traced_start_channel:
  assumes "traced (start_channel lib) r es"
  shows "list_all looking es"
  using assms unfolding start_channel_def Let_def arm_def
  by (auto simp: traced_simps elim!: traced_bindE traced_askE dest!: traced_arm_or_fail traced_fail_session split: if_splits)

lemma traced_send_frame:
  assumes "traced (send_frame lib body) r es"
  obtains sent where "r = Inr sent" "es = [SshSend (sftp_frame body) sent]"
  using assms unfolding send_frame_def by (auto elim: traced_askE)

text \<open>The server offers the extension: version 3 at least, and it is among the named extensions.\<close>

definition offers_hardlink :: "string \<Rightarrow> bool" where
  "offers_hardlink packet \<longleftrightarrow>
     packet_is packet 2 \<and> 3 \<le> packet_u32 packet 1 \<and>
     (\<exists>extensions. drop 5 packet = concat (map (\<lambda>(name, version). wire_string name @ wire_string version) extensions) \<and>
        (''hardlink@openssh.com'', ''1'') \<in> set extensions)"

lemma hardlink_offered_pairs:
  "hardlink_offered rest found = Some b \<Longrightarrow>
     \<exists>extensions. rest = concat (map (\<lambda>(name, version). wire_string name @ wire_string version) extensions) \<and>
       b = (found \<or> (hardlink_name, ''1'') \<in> set extensions)"
proof (induction rest found rule: hardlink_offered.induct)
  case (1 rest found)
  show ?case
  proof (cases "rest = []")
    case True
    then show ?thesis using "1.prems" by (auto simp: hardlink_offered.simps intro!: exI [of _ "[]"])
  next
    case False
    then obtain name rest1 version rest2 where read: "read_string rest = Some (name, rest1)" "read_string rest1 = Some (version, rest2)"
      and step: "hardlink_offered rest2 (if name = hardlink_name \<and> version = ''1'' then True else found) = Some b"
      using "1.prems" by (subst (asm) hardlink_offered.simps) (auto split: option.splits prod.splits)
    from "1.IH" [OF False read(1) refl read(2) refl step]
    obtain extensions where tail: "rest2 = concat (map (\<lambda>(name, version). wire_string name @ wire_string version) extensions)"
      "b = ((if name = hardlink_name \<and> version = ''1'' then True else found) \<or> (hardlink_name, ''1'') \<in> set extensions)"
      by blast
    then show ?thesis using read
      by (intro exI [of _ "(name, version) # extensions"]) (auto simp: read_string_iff)
  qed
qed

lemma traced_negotiate:
  assumes "traced (negotiate_hardlink lib) r es"
  shows "list_all harmless es \<and>
    (\<forall>u. r = Inr u \<longrightarrow> (\<exists>pre packet post. es = pre @ post \<and> received_packet (Some packet) post \<and> offers_hardlink packet))"
  using assms unfolding negotiate_hardlink_def Let_def
proof (cases rule: traced_bindE)
  case (stop e)
  then show ?thesis by (auto elim: traced_send_frame)
next
  case (go sent es1 es2)
  have first: "es1 = [SshSend (sftp_frame init_body) sent]" using go(1) by (auto elim: traced_send_frame)
  have harmless_first: "list_all harmless es1" using first by (auto simp: harmless_def)
  show ?thesis
  proof (cases sent)
    case False
    then show ?thesis using go first harmless_first by (auto simp: harmless_def dest!: traced_fail_session)
  next
    case True
    then have "\<not> \<not> sent" by simp
    from go(2) [unfolded if_not_P [OF this]] show ?thesis
    proof (cases rule: traced_bindE)
      case (stop e)
      then show ?thesis by (auto elim: traced_receive_packet)
    next
      case (go answer es3 es4)
      have received: "received_packet answer es3" using go(1) by (auto elim: traced_receive_packet)
      have harmless_received: "list_all harmless es3"
        using received by (auto simp: received_packet_def harmless_def list_all_iff split: option.splits)
      show ?thesis
      proof (cases "\<exists>u. r = Inr u")
        case True
        then obtain packet where packet: "answer = Some packet" "es4 = []" "packet_is packet 2" "3 \<le> packet_u32 packet 1"
          "hardlink_offered (drop 5 packet) False = Some True"
          using go(2) by (auto simp: traced_simps dest!: traced_fail_session split: option.splits if_splits)
        have "offers_hardlink packet"
          unfolding offers_hardlink_def using packet hardlink_offered_pairs [OF packet(5)] by (auto simp: hardlink_name_def)
        then show ?thesis using received packet \<open>es = es1 @ es2\<close> go(3) harmless_first harmless_received by auto
      next
        case False
        have "list_all harmless es4" using go(2) False
          by (auto simp: traced_simps harmless_def dest!: traced_fail_session split: option.splits if_splits)
        then show ?thesis using False \<open>es = es1 @ es2\<close> go(3) harmless_first harmless_received by auto
      qed
    qed
  qed
qed

text \<open>The server answered the request with a status.\<close>

definition status_answer :: "nat \<Rightarrow> string \<Rightarrow> bool" where
  "status_answer status packet \<longleftrightarrow>
     9 \<le> length packet \<and> packet_is packet 101 \<and> packet_u32 packet 1 = 1 \<and> packet_u32 packet 5 = status"

definition attributes_answer :: "string \<Rightarrow> bool" where
  "attributes_answer packet \<longleftrightarrow> 9 \<le> length packet \<and> packet_is packet 105 \<and> packet_u32 packet 1 = 2"

text \<open>
  What the answer to the request must have been: a success is exactly status 0, and the destination is reported
  as existing on status 11, or on status 4 when the server also returned its attributes.
\<close>

definition answered :: "string \<Rightarrow> exec_failure + string \<Rightarrow> ssh_event list \<Rightarrow> bool" where
  "answered destination r es \<longleftrightarrow>
     (case r of
        Inr _ \<Rightarrow> (\<exists>packet. received_packet (Some packet) es \<and> status_answer 0 packet)
      | Inl e \<Rightarrow> list_all harmless es \<and>
          (\<forall>packet front rest. es = front @ rest \<longrightarrow> received_packet (Some packet) front \<longrightarrow> \<not> status_answer 0 packet) \<and>
          (ef_code e = ''already_exists'' \<longrightarrow>
            (\<exists>packet. received_packet (Some packet) es \<and> status_answer 11 packet) \<or>
            (\<exists>packet es1 there es2. es = es1 @ [SshSend (sftp_frame (lstat_body destination)) True] @ es2 \<and>
               received_packet (Some packet) es1 \<and> status_answer 4 packet \<and>
               received_packet (Some there) es2 \<and> attributes_answer there)))"

lemma received_unique:
  assumes "received_packet (Some p) front" "received_packet (Some q) front'" "front @ rest = front' @ rest'"
  shows "p = q"
  using assms by (auto simp: received_packet_def)

lemma received_harmless: "received_packet answer es \<Longrightarrow> list_all harmless es"
  by (auto simp: received_packet_def harmless_def list_all_iff split: option.splits)

lemma no_answer:
  assumes "received_packet None es \<or> es = []" "es @ [SshTimedOut b] = front @ rest"
  shows "\<not> received_packet (Some p) front"
  using assms by (auto simp: received_packet_def)

lemma traced_destination_there:
  assumes "traced (destination_there lib destination) r es"
  obtains there where "r = Inr there" "list_all harmless es" "es \<noteq> []"
    "there \<Longrightarrow> \<exists>packet rest. es = [SshSend (sftp_frame (lstat_body destination)) True] @ rest \<and>
       received_packet (Some packet) rest \<and> attributes_answer packet"
  using assms unfolding destination_there_def
proof (cases rule: traced_bindE)
  case (stop e)
  then show thesis by (auto elim: traced_send_frame)
next
  case (go sent es1 es2)
  have first: "es1 = [SshSend (sftp_frame (lstat_body destination)) sent]" using go(1) by (auto elim: traced_send_frame)
  have harmless_first: "list_all harmless es1" using first by (auto simp: harmless_def)
  show thesis
  proof (cases sent)
    case False
    then show thesis using that [of False] go first harmless_first by (simp add: traced_simps)
  next
    case True
    then have "\<not> \<not> sent" by simp
    from go(2) [unfolded if_not_P [OF this]] show thesis
    proof (cases rule: traced_bindE)
      case (stop e)
      then show thesis by (auto elim: traced_receive_packet)
    next
      case (go answer es3 es4)
      have received: "received_packet answer es3" using go(1) by (auto elim: traced_receive_packet)
      have quiet: "list_all harmless es" "es \<noteq> []"
        using go \<open>es = es1 @ es2\<close> harmless_first received_harmless [OF received] first
        by (auto simp: traced_simps split: option.splits)
      show thesis
      proof (cases answer)
        case None
        then show thesis using that [of False] go(2) quiet by (simp add: traced_simps)
      next
        case (Some packet)
        then have "r = Inr (attributes_answer packet)" "es4 = []"
          using go(2) by (auto simp: traced_simps attributes_answer_def)
        then show thesis
          using that [of "attributes_answer packet"] quiet received first True \<open>es = es1 @ es2\<close> go(3) Some by auto
      qed
    qed
  qed
qed

lemma traced_request:
  assumes "traced (request_hardlink lib source destination) r es"
  shows "\<exists>sent post. es = [SshSend (sftp_frame (hardlink_body source destination)) sent] @ post \<and>
    list_all harmless post \<and> answered destination r post"
  using assms unfolding request_hardlink_def Let_def
proof (cases rule: traced_bindE)
  case (stop e)
  then show ?thesis by (auto elim: traced_send_frame)
next
  case (go sent es1 es2)
  have first: "es1 = [SshSend (sftp_frame (hardlink_body source destination)) sent]" using go(1) by (auto elim: traced_send_frame)
  have late: "answered destination r (pre @ late) \<and> list_all harmless (pre @ late)"
    if "traced (fail_session lib late_text code message) r late" "code \<noteq> ''already_exists''"
      "received_packet None pre \<or> pre = []" for late_text code message pre late
  proof -
    note run = that
    obtain e b where failure: "r = Inl e" "ef_code e \<in> {''timeout'', code}" "late = [SshTimedOut b]"
      using traced_fail_session [OF run(1)] by blast
    moreover have "list_all harmless (pre @ late)"
      using run(3) received_harmless failure(3) by (auto simp: harmless_def)
    ultimately show ?thesis using run(2,3) no_answer by (auto simp: answered_def)
  qed
  show ?thesis
  proof (cases sent)
    case False
    then show ?thesis using go first late [of _ _ _ es2 "[]"] by auto
  next
    case True
    then have "\<not> \<not> sent" by simp
    from go(2) [unfolded if_not_P [OF this]] show ?thesis
    proof (cases rule: traced_bindE)
      case (stop e)
      then show ?thesis by (auto elim: traced_receive_packet)
    next
      case (go answer es3 es4)
      have received: "received_packet answer es3" using go(1) by (auto elim: traced_receive_packet)
      have "answered destination r (es3 @ es4) \<and> list_all harmless (es3 @ es4)"
      proof (cases answer)
        case None
        then show ?thesis using late [of _ _ _ es4 es3] go(2) received by auto
      next
        case (Some packet)
        have quiet: "list_all harmless es3" using received_harmless [OF received] .
        have only: "p = packet" if "received_packet (Some p) front" "es3 @ es4 = front @ rest" for p front rest
          using received_unique [OF that(1) received [unfolded Some]] that(2) by metis
        have failing: "answered destination r (es3 @ es4)"
          if "r = Inl e" "list_all harmless (es3 @ es4)" "\<not> status_answer 0 packet"
            "ef_code e = ''already_exists'' \<Longrightarrow> (\<exists>packet. received_packet (Some packet) (es3 @ es4) \<and> status_answer 11 packet) \<or>
            (\<exists>packet es1 there es2. es3 @ es4 = es1 @ [SshSend (sftp_frame (lstat_body destination)) True] @ es2 \<and>
               received_packet (Some packet) es1 \<and> status_answer 4 packet \<and>
               received_packet (Some there) es2 \<and> attributes_answer there)" for e
          using that only unfolding answered_def by auto
        from go(2) [unfolded Some option.case] consider
            (invalid) e where "r = Inl e" "ef_code e = ''sftp_error''" "es4 = []"
              "length packet < 9 \<or> \<not> packet_is packet 101 \<or> packet_u32 packet 1 \<noteq> 1"
          | (exists) e where "r = Inl e" "es4 = []" "status_answer 11 packet"
          | (refused) "traced (ssh_bind (if packet_u32 packet 5 = 4 then destination_there lib destination else ssh_return False)
                (\<lambda>destination_exists.
                 if destination_exists then ssh_fail ''already_exists'' ''The remote destination already exists''
                 else ssh_fail ''sftp_error'' ''The SFTP server refused no-replace publication'')) r es4"
              "status_answer (packet_u32 packet 5) packet" "packet_u32 packet 5 \<noteq> 0"
          | (done_ok) report where "r = Inr report" "es4 = []" "status_answer 0 packet"
          by (auto simp: traced_simps status_answer_def split: if_splits)
        then show ?thesis
        proof cases
          case (invalid e)
          then have "\<not> status_answer 0 packet" by (auto simp: status_answer_def)
          then show ?thesis using invalid quiet failing [of e] by simp
        next
          case (exists e)
          then have "\<not> status_answer 0 packet" by (simp add: status_answer_def)
          then show ?thesis using quiet failing [of e] exists received Some by auto
        next
          case done_ok
          then show ?thesis using quiet received Some by (auto simp: answered_def)
        next
          case refused
          from refused(1) show ?thesis
          proof (cases rule: traced_bindE)
            case (stop e)
            then show ?thesis by (auto simp: traced_simps elim: traced_destination_there split: if_splits)
          next
            case (go there es5 es6)
            have looked: "list_all harmless es5 \<and> (there \<longrightarrow> packet_u32 packet 5 = 4 \<and>
                (\<exists>found rest. es5 = [SshSend (sftp_frame (lstat_body destination)) True] @ rest \<and>
                   received_packet (Some found) rest \<and> attributes_answer found))"
              using go(1) by (auto simp: traced_simps elim!: traced_destination_there split: if_splits)
            obtain e where failure: "r = Inl e" "es6 = []" "ef_code e = (if there then ''already_exists'' else ''sftp_error'')"
              using go(2) by (auto simp: traced_simps split: if_splits)
            have unanswered: "\<not> status_answer 0 packet" using refused(2,3) by (simp add: status_answer_def)
            have "ef_code e = ''already_exists'' \<Longrightarrow> \<exists>found rest. es5 = [SshSend (sftp_frame (lstat_body destination)) True] @ rest \<and>
                received_packet (Some found) rest \<and> attributes_answer found \<and> status_answer 4 packet"
              using looked failure(3) refused(2) by (cases there) auto
            then show ?thesis
              using looked failure quiet unanswered received Some go(3)
              by (intro conjI failing [of e]) auto
          qed
        qed
      qed
      then show ?thesis using \<open>es = es1 @ es2\<close> go(3) first by auto
    qed
  qed
qed

lemma traced_connect_metadata:
  assumes "traced (ssh_connect_metadata lib) r es"
  shows "list_all looking es"
  using assms unfolding ssh_connect_metadata_def
  by (auto simp: traced_simps elim!: traced_bindE traced_askE split: option.splits)

lemma traced_publication:
  assumes "traced (sftp_publish_no_replace lib source destination timeout_seconds) r es"
  shows "(\<exists>e. r = Inl e) \<and> list_all harmless es \<or>
     (\<exists>before packet offer frame sent post.
        es = before @ offer @ [SshSend frame sent] @ post \<and>
        read_hardlink_frame frame = Some (1, source, destination) \<and>
        received_packet (Some packet) offer \<and> offers_hardlink packet \<and>
        list_all harmless before \<and> list_all harmless post \<and> answered destination r post)"
proof (cases "bad_publication_path source \<or> bad_publication_path destination \<or> source = destination \<or>
    bad_timeout timeout_seconds \<or> normalized_parent source \<noteq> normalized_parent destination")
  case True
  then have "\<exists>e. r = Inl e \<and> es = []"
    using assms unfolding sftp_publish_no_replace_def by (simp add: traced_simps split: if_splits)
  then show ?thesis by auto
next
  case False
  then have sizes: "\<not> bad_publication_path source" "\<not> bad_publication_path destination" by blast+
  from False assms have run: "traced (ssh_bind (ssh_connect_metadata lib) (\<lambda>_.
        ssh_bind (start_channel lib) (\<lambda>_.
        ssh_bind (negotiate_hardlink lib) (\<lambda>_.
        request_hardlink lib source destination)))) r es"
    unfolding sftp_publish_no_replace_def by (simp only: de_Morgan_disj if_False simp_thms)
  have frame: "read_hardlink_frame (sftp_frame (hardlink_body source destination)) = Some (1, source, destination)"
    using sizes by (intro hardlink_frame_read) (auto simp: bad_publication_path_def bad_absolute_path_def bad_sftp_path_def)
  from run show ?thesis
  proof (cases rule: traced_bindE)
    case (stop e)
    then show ?thesis by (auto dest!: traced_connect_metadata looking_harmless)
  next
    case (go u es1 es2)
    have connected: "list_all harmless es1" using go(1) by (auto dest!: traced_connect_metadata looking_harmless)
    from go(2) show ?thesis
    proof (cases rule: traced_bindE)
      case (stop e)
      then show ?thesis using connected \<open>es = es1 @ es2\<close> by (auto dest!: traced_start_channel looking_harmless)
    next
      case (go v es3 es4)
      have started: "list_all harmless es3" using go(1) by (auto dest!: traced_start_channel looking_harmless)
      from go(2) show ?thesis
      proof (cases rule: traced_bindE)
        case (stop e)
        then show ?thesis using connected started \<open>es = es1 @ es2\<close> \<open>es2 = es3 @ es4\<close> by (auto dest!: traced_negotiate)
      next
        case (go x es5 es6)
        obtain pre packet offer where offer: "es5 = pre @ offer" "received_packet (Some packet) offer" "offers_hardlink packet"
            "list_all harmless es5"
          using traced_negotiate [OF go(1)] by auto
        obtain sent post where request: "es6 = [SshSend (sftp_frame (hardlink_body source destination)) sent] @ post"
            "list_all harmless post" "answered destination r post"
          using traced_request [OF go(2)] by blast
        have "es = (es1 @ es3 @ pre) @ offer @ [SshSend (sftp_frame (hardlink_body source destination)) sent] @ post"
          using \<open>es = es1 @ es2\<close> \<open>es2 = es3 @ es4\<close> go(3) offer request by simp
        moreover have "list_all harmless (es1 @ es3 @ pre)" using connected started offer by simp
        ultimately show ?thesis using offer request frame by blast
      qed
    qed
  qed
qed

text \<open>C10: A publication never replaces a file and is reported exactly as the server decided it.  Every run either
  fails without asking for a link, or sends one request, which reads back as the hard link of exactly the source
  to exactly the destination, and sends it only after the server offered version 1 of that extension; then
  success is reported for a status 0 answer and nothing else, and that the destination exists only on the server's
  word.  All other calls of the run change nothing.\<close>

theorem publication_by_link:
  "case sftp_publish_no_replace lib source destination timeout_seconds w of (r, w', es) \<Rightarrow>
     (\<exists>e. r = Inl e) \<and> list_all harmless es \<or>
     (\<exists>before packet offer frame sent post.
        es = before @ offer @ [SshSend frame sent] @ post \<and>
        read_hardlink_frame frame = Some (1, source, destination) \<and>
        received_packet (Some packet) offer \<and> offers_hardlink packet \<and>
        list_all harmless before \<and> list_all harmless post \<and> answered destination r post)"
proof -
  obtain r w' es where run: "sftp_publish_no_replace lib source destination timeout_seconds w = (r, w', es)"
    by (cases "sftp_publish_no_replace lib source destination timeout_seconds w")
  then have "traced (sftp_publish_no_replace lib source destination timeout_seconds) r es" by (auto simp: traced_def)
  from traced_publication [OF this] show ?thesis unfolding run prod.case .
qed

end
