(* ===== verification/ShellWords.thy ===== *)
theory ShellWords
  imports SshSftp
begin

text \<open>
  How a POSIX shell reads the commands of the service: enough of its grammar to say that a quoted value is one
  word of the command and reaches the program unchanged.
\<close>

text \<open>
  One word of a POSIX shell command: inside single quotes every character stands for itself, outside a backslash
  quotes the next one and a space ends the word; every other special character is refused.
\<close>

datatype shell_mode = Plain | Quoted | Escaped

definition shell_plain :: "char \<Rightarrow> bool" where
  "shell_plain c \<longleftrightarrow> ascii_upper c \<or> ascii_lower c \<or> ascii_digit c \<or> 
     c \<in> {CHR ''-'', CHR ''_'', CHR ''.'', CHR ''/'', CHR ''%'', CHR ''='', CHR '','', CHR '':''}"

fun shell_word :: "shell_mode \<Rightarrow> string \<Rightarrow> (string \<times> string) option" where
  "shell_word mode [] = (if mode = Plain then Some ([], []) else None)"
| "shell_word Plain (c # cs) =
     (if c = CHR '' '' then Some ([], cs)
      else if c = CHR 0x27 then shell_word Quoted cs
      else if c = CHR 0x5C then shell_word Escaped cs
      else if shell_plain c then map_option (apfst ((#) c)) (shell_word Plain cs)
      else None)"
| "shell_word Quoted (c # cs) =
     (if c = CHR 0x27 then shell_word Plain cs else map_option (apfst ((#) c)) (shell_word Quoted cs))"
| "shell_word Escaped (c # cs) = map_option (apfst ((#) c)) (shell_word Plain cs)"

text \<open>The first \<open>n\<close> words, and what follows them.\<close>

fun shell_words :: "nat \<Rightarrow> string \<Rightarrow> (string list \<times> string) option" where
  "shell_words 0 s = Some ([], s)"
| "shell_words (Suc n) s =
     (case shell_word Plain s of
        None \<Rightarrow> None
      | Some (w, rest) \<Rightarrow> map_option (apfst ((#) w)) (shell_words n rest))"

lemma shell_word_quoted:
  "shell_word Quoted (quote_chars s @ CHR 0x27 # rest) = map_option (apfst ((@) s)) (shell_word Plain rest)"
  by (induction s) (auto simp: option.map_comp comp_def apfst_def map_prod_def prod.case_eq_if option.map_ident)

lemma shell_single_quote_word:
  "shell_word Plain (shell_single_quote s @ CHR '' '' # rest) = Some (s, rest)"
  by (simp add: shell_single_quote_def shell_word_quoted)

lemma shell_words_numeral:
  "shell_words (numeral k) s =
     (case shell_word Plain s of
        None \<Rightarrow> None
      | Some (w, rest) \<Rightarrow> map_option (apfst ((#) w)) (shell_words (pred_numeral k) rest))"
  by (simp add: numeral_eq_Suc)

text \<open>Words written without quotes, and names between single quotes.\<close>

lemma shell_word_plain:
  "list_all shell_plain s \<Longrightarrow> shell_word Plain (s @ CHR '' '' # rest) = Some (s, rest)"
  by (induction s) (auto simp: shell_plain_def byte_class_defs)

lemma shell_word_plain_append:
  "list_all shell_plain s \<Longrightarrow> shell_word Plain (s @ rest) = map_option (apfst ((@) s)) (shell_word Plain rest)"
proof (induction s)
  case (Cons c s)
  then have "c \<noteq> CHR '' ''" "c \<noteq> CHR 0x27" "c \<noteq> CHR 0x5C" by (auto simp: shell_plain_def byte_class_defs)
  with Cons show ?case by (simp add: option.map_comp comp_def apfst_def map_prod_def prod.case_eq_if)
qed (simp add: apfst_def map_prod_def prod.case_eq_if option.map_ident option.map_id id_def)

lemma quote_chars_plain: "CHR 0x27 \<notin> set s \<Longrightarrow> quote_chars s = s"
  by (induction s) auto

lemma shell_word_name:
  "CHR 0x27 \<notin> set s \<Longrightarrow> shell_word Plain ([CHR 0x27] @ s @ [CHR 0x27] @ CHR '' '' # rest) = Some (s, rest)"
  using shell_single_quote_word [of s rest] by (simp add: shell_single_quote_def quote_chars_plain)

lemma shell_word_in_quotes:
  "CHR 0x27 \<notin> set s \<Longrightarrow> shell_word Quoted (s @ CHR 0x27 # rest) = map_option (apfst ((@) s)) (shell_word Plain rest)"
  using shell_word_quoted [of s rest] by (simp add: quote_chars_plain)

lemma shell_word_last: "shell_word Plain (shell_single_quote s) = Some (s, [])"
  using shell_word_quoted [of s "[]"] by (simp add: shell_single_quote_def)

lemma shell_words_step:
  "shell_word Plain s = Some (w, rest) \<Longrightarrow> shell_words (Suc n) s = map_option (apfst ((#) w)) (shell_words n rest)"
  by simp

lemma shell_words_append:
  "shell_words m s = Some (ws, rest) \<Longrightarrow> shell_words (m + n) s = map_option (apfst ((@) ws)) (shell_words n rest)"
proof (induction m arbitrary: s ws)
  case (Suc m)
  then obtain w r us where "shell_word Plain s = Some (w, r)" "shell_words m r = Some (us, rest)" "ws = w # us"
    by (auto split: option.splits)
  then show ?case using Suc.IH [of r us]
    by (simp add: option.map_comp comp_def apfst_def map_prod_def prod.case_eq_if)
qed (auto simp: apfst_def map_prod_def prod.case_eq_if option.map_ident id_def)

end
