(* ===== verification/SshSftpProps.thy ===== *)
theory SshSftpProps
  imports SshReplaceProps ShellWords Base64
begin

text \<open>
  The bounded operations: what an exclusive write leaves, what a read returns, the quoting of a path for the
  remote shell, and the budget of a metadata operation.
\<close>

subsection \<open>The encoder\<close>

lemma alphabet_base64: "n < 64 \<Longrightarrow> base64_alphabet ! n = base64_char n"
proof -
  have "list_all (\<lambda>n. base64_alphabet ! n = base64_char n) [0..<64]"
    unfolding base64_alphabet_def base64_char_def by code_simp
  then show "n < 64 \<Longrightarrow> base64_alphabet ! n = base64_char n" by (simp add: list_all_iff)
qed

lemma alphabet_char_drop: "alphabet_char (drop_bit k w) = base64_char (unat w div 2 ^ k mod 64)"
proof -
  have "(63 :: 32 word) = mask 6" by (simp add: mask_eq_exp_minus_1)
  then have "and (drop_bit k w) 63 = take_bit 6 (drop_bit k w)" by (simp only: take_bit_eq_mask)
  then have "unat (and (drop_bit k w) 63) = unat w div 2 ^ k mod 64"
    by (simp only: unsigned_take_bit_eq unat_drop_bit_eq) (simp add: take_bit_eq_mod drop_bit_eq_div)
  then show ?thesis by (simp add: alphabet_char_def alphabet_base64)
qed

lemma alphabet_char_low: "alphabet_char w = base64_char (unat w mod 64)"
  using alphabet_char_drop [of 0 w] by simp

lemma unat_byte_less: "unat (x :: 8 word) < 256"
  using unsigned_less [of x] by simp

lemma word_of_bytes:
  "unat (or (or (push_bit 16 (ucast (x :: 8 word))) (push_bit 8 (ucast (y :: 8 word)))) (ucast (z :: 8 word)) :: 32 word) =
     unat x * 65536 + unat y * 256 + unat z"
proof -
  have word: "ucast b = (of_nat (unat b) :: 32 word)" for b :: "8 word" by simp
  have small: "unat x * 2 ^ 16 < 2 ^ 32" "unat y * 2 ^ 8 < 2 ^ 32" "unat z < 2 ^ 32"
    using unat_byte_less [of x] unat_byte_less [of y] unat_byte_less [of z] by simp_all
  have "unat (push_bit 16 (of_nat (unat x)) :: 32 word) = push_bit 16 (unat x)"
    "unat (push_bit 8 (of_nat (unat y)) :: 32 word) = push_bit 8 (unat y)"
    "unat (of_nat (unat z) :: 32 word) = unat z"
    by (rule unat_push_small [OF small(1)], rule unat_push_small [OF small(2)])
      (simp only: unat_of_nat, use small(3) in simp)
  moreover have "or (push_bit 8 (unat y)) (unat z) = unat y * 256 + unat z"
    using nat_or_add [of "unat z" 8 "unat y"] unat_byte_less [of z] by simp
  moreover have "or (push_bit 16 (unat x)) (unat y * 256 + unat z) = unat x * 65536 + (unat y * 256 + unat z)"
    using nat_or_add [of "unat y * 256 + unat z" 16 "unat x"] unat_byte_less [of y] unat_byte_less [of z] by simp
  ultimately show ?thesis
    by (simp only: word unsigned_or_eq or.assoc add.assoc)
qed

lemma encode_block_chars:
  "encode_block x y z =
     (let n = unat x * 65536 + (case y of Some b \<Rightarrow> unat b | None \<Rightarrow> 0) * 256 + (case z of Some b \<Rightarrow> unat b | None \<Rightarrow> 0) in
      [base64_char (n div 262144 mod 64), base64_char (n div 4096 mod 64),
       if y = None then CHR ''='' else base64_char (n div 64 mod 64),
       if z = None then CHR ''='' else base64_char (n mod 64)])"
proof -
  let ?v = "\<lambda>b. case b of Some (x :: 8 word) \<Rightarrow> x | None \<Rightarrow> 0"
  have bytes: "(case b of Some x \<Rightarrow> ucast x | None \<Rightarrow> 0) = (ucast (?v b) :: 32 word)" for b
    by (simp split: option.splits)
  have number: "(case b of Some x \<Rightarrow> unat x | None \<Rightarrow> 0) = unat (?v b)" for b
    by (simp split: option.splits)
  show ?thesis
    unfolding encode_block_def Let_def bytes number alphabet_char_drop unfolding alphabet_char_low word_of_bytes by simp
qed

lemma base64_encode_exact: "base64_encode bytes = encode_base64 bytes"
proof (induction bytes rule: base64_encode.induct)
  case (1 x y z rest)
  have "(unat x * 65536 + unat y * 256 + unat z) div 262144 < 64"
    using unat_byte_less [of x] unat_byte_less [of y] unat_byte_less [of z] by linarith
  with 1 show ?case by (simp add: encode_block_chars Let_def)
next
  case (2 x y)
  define m where "m = unat x * 1024 + unat y * 4"
  have "unat x * 65536 + unat y * 256 = m * 64" by (simp add: m_def)
  moreover have "m div 4096 < 64"
    using unat_byte_less [of x] unat_byte_less [of y] by (simp add: m_def)
  moreover have "m * 64 div 262144 = m div 4096" "m * 64 div 4096 = m div 64"
    using div_mult_mult2 [of 64 m 4096] div_mult_mult2 [of 64 m 64] by simp_all
  ultimately show ?case by (simp add: encode_block_chars Let_def flip: m_def)
next
  case (3 x)
  define m where "m = unat x * 16"
  have x: "unat x * 65536 = m * 4096" by (simp add: m_def)
  have "m div 64 < 64" using unat_byte_less [of x] by (simp add: m_def)
  moreover have "m * 4096 div 262144 = m div 64" "m * 4096 div 4096 = m"
    using div_mult_mult2 [of 4096 m 64] by simp_all
  ultimately show ?case
    unfolding base64_encode.simps encode_base64.simps encode_block_chars Let_def option.case x m_def [symmetric] by simp
qed simp

subsection \<open>The link-count command\<close>

text \<open>The path of a link-count probe reaches the remote \<^verbatim>\<open>stat\<close> as it is.  Whatever the path contains, quotes,
  spaces and newlines included, a POSIX shell splits either alternative of the command into exactly four words,
  of which the last is the path.\<close>

theorem link_count_argument:
  "shell_words 4 (link_count_command (shell_single_quote path)) =
     Some ([''stat'', ''-c'', ''%h'', path],
       ''2>/dev/null || stat -f %l '' @ shell_single_quote path @ '' 2>/dev/null'') \<and>
   shell_words 4 (''stat -f %l '' @ shell_single_quote path @ '' 2>/dev/null'') =
     Some ([''stat'', ''-f'', ''%l'', path], ''2>/dev/null'')"
  using shell_single_quote_word [of path]
  by (simp add: link_count_command_def eval_nat_numeral shell_plain_def ascii_upper_def ascii_lower_def ascii_digit_def byte_def)

subsection \<open>Reads\<close>

lemma traced_read_ends:
  assumes "traced (read_bounded lib late message h limit bytes) (Inr got) es" "length bytes \<le> limit"
  shows "length got \<le> limit \<and> (length got = limit \<or> (\<exists>n. SshRead h n (Some []) \<in> set es))"
  using assms
proof (induction lib late message h limit bytes arbitrary: es rule: read_bounded.induct)
  case (1 lib late message h limit bytes)
  show ?case
  proof (cases "limit \<le> length bytes")
    case True
    then show ?thesis using "1.prems" by (subst (asm) read_bounded.simps) (simp add: traced_simps)
  next
    case False
    let ?n = "min (limit - length bytes) (32 * 1024)"
    from "1.prems" False have "traced (ssh_bind (arm_or_fail lib late) (\<lambda>_.
        ssh_bind (sftp_read_some lib h ?n) (\<lambda>r.
        case r of
          None \<Rightarrow> fail_late lib late ''sftp_error'' message
        | Some chunk \<Rightarrow> if chunk = [] then ssh_return bytes else read_bounded lib late message h limit (bytes @ chunk)))) (Inr got) es"
      by (subst (asm) read_bounded.simps) simp
    then obtain u es1 es2 chunk es3 es4 where steps: "es = es1 @ es2" "es2 = es3 @ es4"
      "traced (sftp_read_some lib h ?n) (Inr chunk) es3"
      "traced (case chunk of None \<Rightarrow> fail_late lib late ''sftp_error'' message
        | Some chunk \<Rightarrow> if chunk = [] then ssh_return bytes else read_bounded lib late message h limit (bytes @ chunk)) (Inr got) es4"
      by (elim traced_bindE) auto
    obtain data where data: "chunk = Some data" "es3 = [SshRead h ?n (Some data)]" "length data \<le> ?n"
    proof -
      obtain w w' where read: "ssh_ask (\<lambda>w. case sl_read lib h ?n w of (r, w') \<Rightarrow> (map_option (take ?n) r, w')) (SshRead h ?n) w =
          (Inr chunk, w', es3)"
        using steps(3) unfolding sftp_read_some_def traced_def by blast
      have es3: "es3 = [SshRead h ?n chunk]" using steps(3) unfolding sftp_read_some_def by (auto elim: traced_askE)
      show thesis
      proof (cases chunk)
        case None
        then show thesis using steps(4) by (auto dest: traced_fail_late)
      next
        case (Some data)
        moreover have "length data \<le> ?n" using Some read by (auto simp: ssh_ask_def split: prod.splits)
        ultimately show thesis using that es3 by blast
      qed
    qed
    show ?thesis
    proof (cases "data = []")
      case True
      then show ?thesis using steps data "1.prems" False by (auto simp: traced_simps)
    next
      case nonempty: False
      have "length (bytes @ data) \<le> limit" using data(3) False by (simp add: algebra_simps le_diff_conv2)
      then show ?thesis using "1.IH" [OF False data(1) nonempty, of es4] steps data nonempty by auto
    qed
  qed
qed

subsection \<open>What a read returns\<close>

text \<open>
  A refused run changes nothing and returns no data; a complete one only looks, and returns the standard Base64
  of the bytes it read from the opened path, of which there is one more than the limit at most, and fewer than
  that only if the file ended.
\<close>

definition refused :: "exec_failure + string \<Rightarrow> ssh_event list \<Rightarrow> bool" where
  "refused r es \<longleftrightarrow> (\<exists>e. r = Inl e) \<and> list_all looking es"

definition complete_read :: "string \<Rightarrow> nat \<Rightarrow> exec_failure + string \<Rightarrow> ssh_event list \<Rightarrow> bool" where
  "complete_read path max_bytes r es \<longleftrightarrow>
     (\<exists>h bytes rest. es = [SshConnect None, SshArm True, SshOpen path OpenRead 0 (Some h)] @ rest \<and>
        list_all looking rest \<and> bytes = read_from h rest \<and> r = Inr (encode_base64 bytes) \<and>
        (length bytes = max_bytes + 1 \<or> length bytes \<le> max_bytes \<and> (\<exists>n. SshRead h n (Some []) \<in> set rest)))"

lemma traced_connect:
  assumes "traced (ssh_connect lib) r es"
  shows "r = Inr () \<and> es = [SshConnect None] \<or> (\<exists>e x. r = Inl e \<and> es = [SshConnect x])"
  using assms unfolding ssh_connect_def
  by (auto simp: traced_simps elim!: traced_bindE traced_askE split: option.splits)

lemma traced_sftp_read:
  assumes "traced (sftp_read lib path max_bytes timeout_seconds) r es"
  shows "refused r es \<or> complete_read path max_bytes r es"
proof (cases "bad_sftp_path path \<or> 1024 * 1024 < max_bytes \<or> bad_timeout timeout_seconds")
  case True
  then show ?thesis using assms by (simp add: sftp_read_def refused_def traced_simps)
next
  case False
  with assms have "traced (ssh_bind (ssh_connect lib) (\<lambda>_.
        ssh_bind (arm_or_fail lib ''SFTP file read timed out'') (\<lambda>_.
        ssh_bind (sftp_open lib path OpenRead 0) (\<lambda>opened.
        case opened of
          None \<Rightarrow> fail_late lib ''SFTP file read timed out'' ''sftp_error'' ''Could not open the remote file for reading''
        | Some h \<Rightarrow>
            ssh_bind (read_bounded lib ''SFTP file read timed out'' ''Could not read the remote file'' h (max_bytes + 1) [])
              (\<lambda>bytes. ssh_return (base64_encode bytes)))))) r es"
    unfolding sftp_read_def by (simp only: if_False)
  then show ?thesis
  proof (cases rule: traced_bindE)
    case (stop e)
    then show ?thesis by (auto simp: refused_def dest!: traced_connect)
  next
    case (go u es1 es2)
    have connected: "es1 = [SshConnect None]" using go(1) by (auto dest: traced_connect)
    from go(2) show ?thesis
    proof (cases rule: traced_bindE)
      case (stop e)
      then show ?thesis using connected \<open>es = es1 @ es2\<close> by (auto simp: refused_def dest!: traced_arm_or_fail)
    next
      case (go v es3 es4)
      have armed: "es3 = [SshArm True]" using go(1) by (auto dest: traced_arm_or_fail)
      from go(2) show ?thesis
      proof (cases rule: traced_bindE)
        case (stop e)
        then show ?thesis by (auto simp: sftp_open_def elim!: traced_askE)
      next
        case (go opened es5 es6)
        have opened: "es5 = [SshOpen path OpenRead 0 opened]" using go(1) by (auto simp: sftp_open_def elim: traced_askE)
        have all: "es = [SshConnect None, SshArm True, SshOpen path OpenRead 0 opened] @ es6"
          using \<open>es = es1 @ es2\<close> \<open>es2 = es3 @ es4\<close> \<open>es4 = es5 @ es6\<close> connected armed opened by simp
        show ?thesis
        proof (cases opened)
          case None
          then show ?thesis using go(2) all by (auto simp: refused_def dest!: traced_fail_late)
        next
          case (Some h)
          from go(2) [unfolded Some option.case] show ?thesis
          proof (cases rule: traced_bindE)
            case (stop e)
            then show ?thesis using all Some by (auto simp: refused_def dest!: traced_read_bounded)
          next
            case (go bytes es7 es8)
            note read = traced_read_bounded [OF go(1)] traced_read_ends [OF go(1)]
            have "r = Inr (encode_base64 bytes)" "es8 = []" using go(2) by (simp_all add: traced_simps base64_encode_exact)
            then show ?thesis using read all Some go(3) unfolding complete_read_def
              by (intro disjI2 exI [of _ h] exI [of _ bytes] exI [of _ es7]) auto
          qed
        qed
      qed
    qed
  qed
qed

text \<open>C26: A bounded read tells the whole file or that there is more.  Every run either fails without changing
  anything on the server, or returns a text that the strict decoder maps back to exactly the bytes the library
  read from the opened file; there are one more than the limit of them, or at most the limit, and then the
  library reported the end of the file.\<close>

theorem bounded_read_exact:
  "case sftp_read lib path max_bytes timeout_seconds w of
     (Inl e, w', es) \<Rightarrow> list_all looking es
   | (Inr encoded, w', es) \<Rightarrow>
       (\<exists>h bytes rest. es = [SshConnect None, SshArm True, SshOpen path OpenRead 0 (Some h)] @ rest \<and>
          list_all looking rest \<and> bytes = read_from h rest \<and>
          decode_base64 encoded (max_bytes + 1) = Some bytes \<and>
          (length bytes = max_bytes + 1 \<or> length bytes \<le> max_bytes \<and> (\<exists>n. SshRead h n (Some []) \<in> set rest)))"
proof -
  obtain r w' es where run: "sftp_read lib path max_bytes timeout_seconds w = (r, w', es)"
    by (cases "sftp_read lib path max_bytes timeout_seconds w")
  then have "traced (sftp_read lib path max_bytes timeout_seconds) r es" by (auto simp: traced_def)
  from traced_sftp_read [OF this] run show ?thesis
    by (cases r) (auto simp: refused_def complete_read_def decode_base64_inverse)
qed

subsection \<open>What an exclusive write leaves\<close>

definition kept_write :: "string \<Rightarrow> 8 word list \<Rightarrow> exec_failure + string \<Rightarrow> ssh_event list \<Rightarrow> bool" where
  "kept_write path content r es \<longleftrightarrow>
     (\<exists>report h filling. r = Inr report \<and> es = [SshConnect None, SshOpen path OpenExclusive 420 (Some h)] @ filling \<and>
        list_all (\<lambda>e. looking e \<or> (\<exists>d n. e = SshWrite h d n)) filling \<and> written_to h filling = content \<and>
        SshFsync h True \<in> set filling \<and> SshClose h True \<in> set filling)"

definition removed_write :: "string \<Rightarrow> exec_failure + string \<Rightarrow> ssh_event list \<Rightarrow> bool" where
  "removed_write path r es \<longleftrightarrow>
     (\<exists>e h filling u. r = Inl e \<and> es = [SshConnect None, SshOpen path OpenExclusive 420 (Some h)] @ filling @ [SshUnlink path u] \<and>
        list_all (\<lambda>e. looking e \<or> (\<exists>d n. e = SshWrite h d n)) filling)"

definition filling_only :: "nat \<Rightarrow> ssh_event list \<Rightarrow> bool" where
  "filling_only h es \<longleftrightarrow> list_all (\<lambda>e. looking e \<or> (\<exists>d n. e = SshWrite h d n)) es"

lemma filling_only_append [simp]: "filling_only h (a @ b) \<longleftrightarrow> filling_only h a \<and> filling_only h b"
  by (simp add: filling_only_def)

lemma looking_filling: "list_all looking es \<Longrightarrow> filling_only h es"
  by (auto simp: filling_only_def list_all_iff)

lemma traced_close_written:
  assumes "traced (close_written lib h written) r es"
  shows "list_all looking es \<and> written_to h es = [] \<and>
    (\<forall>u. r = Inr u \<longrightarrow> written = Inr () \<and> SshClose h True \<in> set es)"
  using assms unfolding close_written_def expired_def
  by (auto simp: traced_simps elim!: traced_bindE traced_askE split: if_splits)

lemma traced_filled:
  assumes "traced (ssh_bind (write_all lib late message h content) (\<lambda>_. sync_or_fail lib h late' message')) r es"
  shows "filling_only h es \<and> (r = Inr () \<longrightarrow> written_to h es = content \<and> SshFsync h True \<in> set es)"
  using assms
proof (cases rule: traced_bindE)
  case (stop e)
  then show ?thesis by (auto simp: filling_only_def dest!: traced_write_all)
next
  case (go u es1 es2)
  then show ?thesis using traced_write_all [OF go(1)] traced_sync [OF go(2)] looking_filling
    by (auto simp: filling_only_def written_append)
qed

lemma traced_removal:
  assumes "traced (ssh_bind (ssh_bind (arm_cleanup lib) (\<lambda>_. sftp_unlink lib path)) (\<lambda>_. ssh_raise (Inl e))) r es"
  obtains before u where "r = Inl e" "es = before @ [SshUnlink path u]" "list_all looking before"
  using assms unfolding sftp_unlink_def
  by (elim traced_bindE) (auto simp: traced_simps elim!: traced_askE dest!: traced_arm_cleanup)

text \<open>What follows the exclusive creation.\<close>

lemma traced_exclusive_tail:
  assumes "traced (ssh_bind (ssh_result
      (ssh_bind (write_all lib late message h content) (\<lambda>_. sync_or_fail lib h late' message'))) (\<lambda>written.
      ssh_bind (arm_cleanup lib) (\<lambda>_.
      ssh_bind (ssh_result (close_written lib h written)) (\<lambda>closed.
      case closed of
        Inr _ \<Rightarrow> ssh_return report
      | Inl e \<Rightarrow> ssh_bind (ssh_bind (arm_cleanup lib) (\<lambda>_. sftp_unlink lib path)) (\<lambda>_. ssh_raise (Inl e)))))) r es"
  shows "filling_only h es \<and> r = Inr report \<and> written_to h es = content \<and> SshFsync h True \<in> set es \<and> SshClose h True \<in> set es \<or>
    (\<exists>e filling u. r = Inl e \<and> es = filling @ [SshUnlink path u] \<and> filling_only h filling)"
  using assms
proof (cases rule: traced_bindE)
  case (stop e)
  then show ?thesis by (auto elim!: traced_resultE)
next
  case (go q es1 es2)
  have "traced (ssh_bind (write_all lib late message h content) (\<lambda>_. sync_or_fail lib h late' message')) q es1"
    using go(1) by (auto elim: traced_resultE)
  note filled = traced_filled [OF this]
  from go(2) show ?thesis
  proof (cases rule: traced_bindE)
    case (stop e)
    then show ?thesis by (auto dest!: traced_arm_cleanup)
  next
    case (go v es3 es4)
    have grace: "list_all looking es3" "written_to h es3 = []" using traced_arm_cleanup [OF go(1)] by auto
    from go(2) show ?thesis
    proof (cases rule: traced_bindE)
      case (stop e)
      then show ?thesis by (auto elim!: traced_resultE)
    next
      case (go closed es5 es6)
      have "traced (close_written lib h q) closed es5" using go(1) by (auto elim: traced_resultE)
      note close = traced_close_written [OF this]
      have all: "es = (es1 @ es3 @ es5) @ es6" using \<open>es = es1 @ es2\<close> \<open>es2 = es3 @ es4\<close> go(3) by simp
      have quiet: "filling_only h (es1 @ es3 @ es5)" using filled grace close by (simp add: looking_filling)
      show ?thesis
      proof (cases closed)
        case (Inl e)
        obtain before u where "r = Inl e" "es6 = before @ [SshUnlink path u]" "list_all looking before"
          using go(2) Inl by (auto elim: traced_removal)
        then show ?thesis using all quiet looking_filling
          by (intro disjI2 exI [of _ e] exI [of _ "(es1 @ es3 @ es5) @ before"] exI [of _ u]) auto
      next
        case (Inr x)
        then show ?thesis using go(2) all quiet filled grace close
          by (intro disjI1) (auto simp: traced_simps written_append)
      qed
    qed
  qed
qed

lemma traced_create_exclusive:
  assumes "traced (sftp_create_exclusive lib path content timeout_seconds) r es"
  shows "refused r es \<or> kept_write path content r es \<or> removed_write path r es"
proof (cases "bad_sftp_path path \<or> 1024 * 1024 < length content \<or> bad_timeout timeout_seconds")
  case True
  then show ?thesis using assms
    by (simp add: sftp_create_exclusive_def sftp_write_impl_def refused_def traced_simps)
next
  case False
  note run = assms [unfolded sftp_create_exclusive_def sftp_write_impl_def if_True, unfolded if_not_P [OF False]]
  from run show ?thesis
  proof (cases rule: traced_bindE)
    case (stop e)
    then show ?thesis by (auto simp: refused_def dest!: traced_connect)
  next
    case (go u es1 es2)
    have connected: "es1 = [SshConnect None]" using go(1) by (auto dest: traced_connect)
    from go(2) show ?thesis
    proof (cases rule: traced_bindE)
      case (stop e)
      then show ?thesis by (auto simp: sftp_open_def elim!: traced_askE)
    next
      case (go opened es3 es4)
      have opened: "es3 = [SshOpen path OpenExclusive 420 opened]" using go(1) by (auto simp: sftp_open_def elim: traced_askE)
      have all: "es = [SshConnect None, SshOpen path OpenExclusive 420 opened] @ es4"
        using \<open>es = es1 @ es2\<close> go(3) connected opened by simp
      show ?thesis
      proof (cases opened)
        case None
        then show ?thesis using go(2) all by (auto simp: refused_def dest!: traced_fail_late)
      next
        case (Some h)
        from traced_exclusive_tail [OF go(2) [unfolded Some option.case]] show ?thesis
          unfolding kept_write_def removed_write_def filling_only_def using all Some by auto
      qed
    qed
  qed
qed

text \<open>C15: An exclusive write leaves the whole content or tries to leave nothing.  Every run either fails
  without having created the path, or creates it exclusively and then either succeeds, with exactly the content
  written, synced and closed, or fails, writes nothing but that file, and removes it in its last call.\<close>

theorem exclusive_write_outcomes:
  "case sftp_create_exclusive lib path content timeout_seconds w of (r, w', es) \<Rightarrow>
     refused r es \<or> kept_write path content r es \<or> removed_write path r es"
proof -
  obtain r w' es where run: "sftp_create_exclusive lib path content timeout_seconds w = (r, w', es)"
    by (cases "sftp_create_exclusive lib path content timeout_seconds w")
  then have "traced (sftp_create_exclusive lib path content timeout_seconds) r es" by (auto simp: traced_def)
  from traced_create_exclusive [OF this] run show ?thesis by simp
qed

subsection \<open>The budget of a metadata operation\<close>

text \<open>Whatever phases are entered at whatever times, the deadline in force is within the overall one.\<close>

lemma metadata_deadline_bounded:
  "let d = fold (\<lambda>(phase, now). enter_phase phase now) steps (new_metadata_deadline started total_ms) in
   md_overall d = started + total_ms \<and> md_phase_deadline d \<le> md_overall d"
proof -
  have "md_overall (fold (\<lambda>(phase, now). enter_phase phase now) steps d) = md_overall d \<and>
      md_phase_deadline (fold (\<lambda>(phase, now). enter_phase phase now) steps d) \<le> md_overall d"
    if "md_phase_deadline d \<le> md_overall d" for d
    using that
  proof (induction steps arbitrary: d)
    case (Cons step steps)
    have "md_phase_deadline (case step of (phase, now) \<Rightarrow> enter_phase phase now d) \<le> md_overall d"
      "md_overall (case step of (phase, now) \<Rightarrow> enter_phase phase now d) = md_overall d"
      using Cons.prems by (auto simp: enter_phase_def split: prod.splits)
    then show ?case using Cons.IH [of "case step of (phase, now) \<Rightarrow> enter_phase phase now d"] by (cases step) simp
  qed simp
  from this [of "new_metadata_deadline started total_ms"] show ?thesis by (simp add: Let_def new_metadata_deadline_def)
qed

lemma metadata_phase_once:
  "enter_phase phase later (enter_phase phase now d) = enter_phase phase now d"
  by (simp add: enter_phase_def)

end
