(* ===== verification/SnapshotToolkit.thy ===== *)
theory SnapshotToolkit
  imports SshExec
begin

text \<open>
  The system snapshot (\<^verbatim>\<open>src/native/include/yukinal/snapshot_toolkit.hpp\<close>): one command runs the probes of the
  catalog and prints the output and status of each between markers that carry a nonce, and the parser finds
  them again.  The catalog is generated by the build, so its probes are an argument.
\<close>

record snapshot_probe =
  sp_id :: string
  sp_command :: string
  sp_timeout :: int
  sp_required :: bool

definition snapshot_nonce :: "string \<Rightarrow> bool" where
  "snapshot_nonce nonce \<longleftrightarrow>
     length nonce = 32 \<and> list_all (\<lambda>c. ascii_digit c \<or> 97 \<le> byte c \<and> byte c \<le> 102) nonce"

fun snapshot_quote_chars :: "string \<Rightarrow> string" where
  "snapshot_quote_chars [] = []"
| "snapshot_quote_chars (c # cs) =
     (if c = CHR 0x27 then [CHR 0x27, CHR 0x22, CHR 0x27, CHR 0x22, CHR 0x27] else [c]) @ snapshot_quote_chars cs"

definition snapshot_shell_quote :: "string \<Rightarrow> string" where
  "snapshot_shell_quote s = [CHR 0x27] @ snapshot_quote_chars s @ [CHR 0x27]"

definition snapshot_prefix :: "string \<Rightarrow> string \<Rightarrow> string" where
  "snapshot_prefix nonce probe_id = ''__YK_SNAPSHOT_'' @ nonce @ ''_'' @ probe_id"

text \<open>A backslash and \<^verbatim>\<open>n\<close>, which \<^verbatim>\<open>printf\<close> prints as a line break.\<close>

definition printf_newline :: string where
  "printf_newline = [CHR 0x5C, CHR ''n'']"

definition probe_shell :: "snapshot_probe \<Rightarrow> string" where
  "probe_shell probe =
     (if 0 < sp_timeout probe
      then ''if command -v timeout >/dev/null 2>&1; then timeout -k 1 '' @ decimal (nat (sp_timeout probe)) @
           '' sh -c '' @ snapshot_shell_quote (sp_command probe) @ ''; else (exit 127); fi''
      else ''( '' @ sp_command probe @ '' )'')"

text \<open>The format of the last step; the shell fills in the output and the status.\<close>

definition section_format :: "string \<Rightarrow> string \<Rightarrow> string" where
  "section_format nonce probe_id =
     (let prefix = snapshot_prefix nonce probe_id in
      prefix @ ''_BEGIN__'' @ printf_newline @ ''%s'' @ printf_newline @ prefix @ ''_END_%s__'' @ printf_newline)"

definition probe_command :: "string \<Rightarrow> snapshot_probe \<Rightarrow> string" where
  \<open>probe_command nonce probe =
     ''yk_snapshot_output=$( { '' @ probe_shell probe @ ''; } 2>/dev/null ); yk_snapshot_status=$?; '' @
     ''yk_snapshot_length=${#yk_snapshot_output}; '' @
     ''if test "$yk_snapshot_length" -gt 16384 || '' @
     ''test "$yk_snapshot_length" -gt "$yk_snapshot_remaining"; then '' @
     ''yk_snapshot_output='' @ [CHR 0x27, CHR 0x27] @ ''; yk_snapshot_status=125; else '' @
     ''yk_snapshot_remaining=$((yk_snapshot_remaining - yk_snapshot_length)); fi; '' @
     (if sp_id probe = ''docker_info'' then ''yk_docker_status=$yk_snapshot_status; export yk_docker_status; '' else []) @
     ''printf '' @ [CHR 0x27] @ section_format nonce (sp_id probe) @ [CHR 0x27] @
     '' "$yk_snapshot_output" "$yk_snapshot_status"; ''\<close>

text \<open>\<^term>\<open>None\<close> is the exception for an invalid nonce.\<close>

definition build_system_snapshot_command :: "snapshot_probe list \<Rightarrow> string \<Rightarrow> string option" where
  "build_system_snapshot_command probes nonce =
     (if snapshot_nonce nonce
      then Some (''export LC_ALL=C; yk_snapshot_remaining=49152; '' @ concat (map (probe_command nonce) probes))
      else None)"

subsection \<open>The parser\<close>

text \<open>
  The section of one probe: skipped when an optional probe left no trace, otherwise its status and output, or
  the exception that rejects the whole snapshot.
\<close>

datatype section_answer = Skipped | Section nat string | Malformed

definition find_from :: "string \<Rightarrow> string \<Rightarrow> nat \<Rightarrow> nat option" where
  "find_from needle s i = (if length s < i then None else map_option ((+) i) (find_sub needle (drop i s)))"

definition parse_section :: "string \<Rightarrow> string \<Rightarrow> snapshot_probe \<Rightarrow> section_answer" where
  "parse_section nonce out probe =
     (let prefix = snapshot_prefix nonce (sp_id probe);
          begin_marker = prefix @ ''_BEGIN__'' @ [CHR 0x0A];
          end_marker = CHR 0x0A # prefix @ ''_END_'';
          start = find_from begin_marker out 0
      in if \<not> sp_required probe \<and> start = None \<and> find_from (prefix @ ''_END_'') out 0 = None then Skipped
         else case start of
             None \<Rightarrow> Malformed
           | Some i \<Rightarrow>
               (let data_start = i + length begin_marker in
                if find_from begin_marker out data_start \<noteq> None then Malformed
                else case find_from end_marker out data_start of
                    None \<Rightarrow> Malformed
                  | Some j \<Rightarrow>
                      (let status_start = j + length end_marker in
                       if find_from end_marker out status_start \<noteq> None then Malformed
                       else case find_from (''__'' @ [CHR 0x0A]) out status_start of
                           None \<Rightarrow> Malformed
                         | Some k \<Rightarrow>
                             (let status = take (k - status_start) (drop status_start out) in
                              if status = [] \<or> 3 < length status \<or> \<not> list_all ascii_digit status \<or>
                                 255 < read_decimal status
                              then Malformed
                              else Section (read_decimal status) (take (j - data_start) (drop data_start out))))))"

text \<open>\<^verbatim>\<open>results[id] = ...\<close>: a later probe of the same name replaces the section.\<close>

fun parse_sections :: "string \<Rightarrow> string \<Rightarrow> snapshot_probe list \<Rightarrow> (string \<Rightarrow> (nat \<times> string) option) \<Rightarrow>
    (string \<Rightarrow> (nat \<times> string) option) option" where
  "parse_sections nonce out [] results = Some results"
| "parse_sections nonce out (probe # probes) results =
     (case parse_section nonce out probe of
        Skipped \<Rightarrow> parse_sections nonce out probes results
      | Malformed \<Rightarrow> None
      | Section status data \<Rightarrow> parse_sections nonce out probes (results(sp_id probe \<mapsto> (status, data))))"

definition parse_system_snapshot_outputs ::
  "snapshot_probe list \<Rightarrow> string \<Rightarrow> string \<Rightarrow> (string \<Rightarrow> (nat \<times> string) option) option" where
  "parse_system_snapshot_outputs probes out nonce =
     (case build_system_snapshot_command probes nonce of
        None \<Rightarrow> None
      | Some _ \<Rightarrow> parse_sections nonce out probes Map.empty)"

end
