(* ===== verification/SnapshotProps.thy ===== *)
theory SnapshotProps
  imports SnapshotToolkit
begin

text \<open>
  The framing of the system snapshot: what the shell prints between the markers is what the parser returns.
\<close>

subsection \<open>Texts of lines\<close>

abbreviation line_break :: char where
  "line_break \<equiv> CHR 0x0A"

definition unlines :: "string list \<Rightarrow> string" where
  "unlines ls = concat (map (\<lambda>l. l @ [line_break]) ls)"

lemma unlines_simps [simp]:
  "unlines [] = []" "unlines (l # ls) = l @ line_break # unlines ls" "unlines (ls @ ks) = unlines ls @ unlines ks"
  by (simp_all add: unlines_def)

definition lines_ok :: "string list \<Rightarrow> bool" where
  "lines_ok ls \<longleftrightarrow> (\<forall>l\<in>set ls. line_break \<notin> set l)"

lemma lines_ok_simps [simp]:
  "lines_ok []" "lines_ok (l # ls) \<longleftrightarrow> line_break \<notin> set l \<and> lines_ok ls" "lines_ok (ls @ ks) \<longleftrightarrow> lines_ok ls \<and> lines_ok ks"
  by (auto simp: lines_ok_def)

lemma unlines_join: "ls \<noteq> [] \<Longrightarrow> unlines ls = join_with line_break ls @ [line_break]"
  by (induction line_break ls rule: join_with.induct) auto

lemma lines_split [simp]: "lines_ok (split_on line_break s)"
  by (auto simp: lines_ok_def dest: split_on_segment_free)

lemma unlines_split [simp]: "unlines (split_on line_break s) = s @ [line_break]"
  by (simp add: unlines_join join_with_split_on)

lemma break_split:
  assumes "x @ d # y = p @ d # q" "d \<notin> set x"
  obtains "p = x" "q = y" | p' where "p = x @ d # p'" "y = p' @ d # q"
proof -
  from assms(1) consider us where "x = p @ us" "us @ d # y = d # q" | us where "x @ us = p" "d # y = us @ d # q"
    by (auto simp: append_eq_append_conv2)
  then show thesis
  proof cases
    case 1
    then have "us = []" using assms(2) by (cases us) auto
    with 1 that(1) show thesis by simp
  next
    case 2
    then show thesis using that by (cases us) auto
  qed
qed

lemma break_prefix:
  assumes "pre @ needle = x @ d # p" "d \<notin> set needle"
  obtains p' where "pre = x @ d # p'" "p = p' @ needle"
  using assms by (auto simp: append_eq_append_conv2 Cons_eq_append_conv append_eq_Cons_conv)

text \<open>An occurrence of a needle with a line break behind it is the end of a line.\<close>

lemma line_end_occurs:
  assumes "unlines ls = pre @ needle @ line_break # post" "line_break \<notin> set needle" "lines_ok ls"
  shows "\<exists>ls1 q ls2. ls = ls1 @ (q @ needle) # ls2 \<and> pre = unlines ls1 @ q \<and> post = unlines ls2"
  using assms
proof (induction ls arbitrary: pre)
  case (Cons l ls)
  from Cons.prems(1) have eq: "l @ line_break # unlines ls = (pre @ needle) @ line_break # post" by simp
  have "line_break \<notin> set l" using Cons.prems by simp
  with eq show ?case
  proof (cases rule: break_split)
    case 1
    then show ?thesis by (metis append_Nil unlines_simps(1))
  next
    case (2 p)
    from 2(1) Cons.prems(2) obtain p' where p': "pre = l @ line_break # p'" "p = p' @ needle" by (elim break_prefix)
    from 2(2) p' have "unlines ls = p' @ needle @ line_break # post" by simp
    with Cons obtain ls1 q ls2 where "ls = ls1 @ (q @ needle) # ls2" "p' = unlines ls1 @ q" "post = unlines ls2" by auto
    with p' show ?thesis by (intro exI [of _ "l # ls1"] exI [of _ q] exI [of _ ls2]) simp
  qed
qed simp

text \<open>An occurrence of a needle with a line break before it is the beginning of a line.\<close>

lemma line_start_occurs:
  assumes "unlines ls = pre @ line_break # needle @ post" "line_break \<notin> set needle" "needle \<noteq> []" "lines_ok ls"
  shows "\<exists>ls1 q ls2. ls = ls1 @ (needle @ q) # ls2 \<and> pre @ [line_break] = unlines ls1"
  using assms
proof (induction ls arbitrary: pre)
  case (Cons l ls)
  from Cons.prems(1) have eq: "l @ line_break # unlines ls = pre @ line_break # needle @ post" by simp
  have "line_break \<notin> set l" using Cons.prems by simp
  with eq show ?case
  proof (cases rule: break_split)
    case 1
    from 1 Cons.prems(3) obtain k ks where ks: "ls = k # ks" by (cases ls) auto
    with 1 have "needle @ post = k @ line_break # unlines ks" by simp
    with Cons.prems(2) obtain q where "k = needle @ q"
      by (auto simp: append_eq_append_conv2 append_eq_Cons_conv)
    then show ?thesis using ks 1 by (intro exI [of _ "[l]"] exI [of _ q] exI [of _ ks]) simp
  next
    case (2 p)
    with Cons obtain ls1 q ls2 where "ls = ls1 @ (needle @ q) # ls2" "p @ [line_break] = unlines ls1" by auto
    with 2 show ?thesis by (intro exI [of _ "l # ls1"] exI [of _ q] exI [of _ ls2]) simp
  qed
qed simp

text \<open>The first occurrence in a text of lines, when only one line can hold it.\<close>

lemma only_line:
  assumes "L1 @ x # T = ls1 @ y # ls2" "P y" "\<forall>l\<in>set (L1 @ T). \<not> P l"
  shows "ls1 = L1 \<and> y = x \<and> ls2 = T"
  using assms by (induction L1 arbitrary: ls1) (auto simp: Cons_eq_append_conv append_eq_Cons_conv)

lemma find_sub_bound: "find_sub needle s = Some i \<Longrightarrow> i \<le> length s"
  by (induction s arbitrary: i) (auto split: if_splits)

lemma find_unique:
  assumes "s = pre @ needle @ post" "\<And>pre' post'. s = pre' @ needle @ post' \<Longrightarrow> length pre' = length pre"
  shows "find_sub needle s = Some (length pre)"
proof (cases "find_sub needle s")
  case None
  then show ?thesis using find_sub_NoneD assms(1) by metis
next
  case (Some i)
  then have found: "s = take i s @ needle @ drop (i + length needle) s" by (rule find_sub_SomeD)
  moreover have "i \<le> length s" using Some find_sub_bound [of needle s i] by simp
  ultimately show ?thesis using assms(2) [OF found] Some by simp
qed

lemma find_line_end:
  assumes "lines_ok (L1 @ needle # T)" "\<forall>l\<in>set (L1 @ T). \<forall>q. l \<noteq> q @ needle"
  shows "find_sub (needle @ [line_break]) (unlines (L1 @ needle # T)) = Some (length (unlines L1))"
proof (rule find_unique)
  show "unlines (L1 @ needle # T) = unlines L1 @ (needle @ [line_break]) @ unlines T" by simp
next
  fix pre' post'
  assume "unlines (L1 @ needle # T) = pre' @ (needle @ [line_break]) @ post'"
  then obtain ls1 q ls2 where occurs: "L1 @ needle # T = ls1 @ (q @ needle) # ls2" "pre' = unlines ls1 @ q"
    using line_end_occurs [of "L1 @ needle # T" pre' needle post'] assms(1) by auto
  with only_line [OF occurs(1), of "\<lambda>l. \<exists>q. l = q @ needle"] assms(2)
  show "length pre' = length (unlines L1)" by auto
qed

lemma find_line_end_none:
  assumes "lines_ok ls" "line_break \<notin> set needle" "\<forall>l\<in>set ls. \<forall>q. l \<noteq> q @ needle"
  shows "find_sub (needle @ [line_break]) (unlines ls) = None"
  using assms line_end_occurs [of ls _ needle] by (fastforce simp: find_sub_None_iff)

lemma find_line_start:
  assumes "lines_ok (L1 @ (needle @ r) # T)" "L1 \<noteq> []" "needle \<noteq> []" "\<forall>l\<in>set (L1 @ T). \<forall>q. l \<noteq> needle @ q"
  shows "find_sub (line_break # needle) (unlines (L1 @ (needle @ r) # T)) = Some (length (unlines L1) - 1)"
proof -
  obtain front where front: "unlines L1 = front @ [line_break]"
    using assms(2) by (metis unlines_join)
  have "find_sub (line_break # needle) (unlines (L1 @ (needle @ r) # T)) = Some (length front)"
  proof (rule find_unique)
    show "unlines (L1 @ (needle @ r) # T) = front @ (line_break # needle) @ r @ line_break # unlines T" by (simp add: front)
  next
    fix pre' post'
    assume "unlines (L1 @ (needle @ r) # T) = pre' @ (line_break # needle) @ post'"
    then obtain ls1 q ls2 where occurs: "L1 @ (needle @ r) # T = ls1 @ (needle @ q) # ls2" "pre' @ [line_break] = unlines ls1"
      using line_start_occurs [of "L1 @ (needle @ r) # T" pre' needle post'] assms(1,3) by auto
    with only_line [OF occurs(1), of "\<lambda>l. \<exists>q. l = needle @ q"] assms(4) front
    show "length pre' = length front" by auto
  qed
  then show ?thesis by (simp add: front)
qed

lemma find_line_start_none:
  assumes "lines_ok (l # ls)" "line_break \<notin> set needle" "needle \<noteq> []" "\<forall>l\<in>set ls. \<forall>q. l \<noteq> needle @ q"
  shows "find_sub (line_break # needle) (unlines (l # ls)) = None"
proof -
  have "unlines (l # ls) \<noteq> pre @ (line_break # needle) @ post" for pre post
  proof
    assume "unlines (l # ls) = pre @ (line_break # needle) @ post"
    then obtain ls1 q ls2 where "l # ls = ls1 @ (needle @ q) # ls2" "pre @ [line_break] = unlines ls1"
      using line_start_occurs [of "l # ls" pre needle post] assms by auto
    then show False using assms(4) by (cases ls1) auto
  qed
  then show ?thesis by (simp add: find_sub_None_iff)
qed

subsection \<open>What the shell prints\<close>

text \<open>The part of \<^verbatim>\<open>printf\<close> the formats use: \<^verbatim>\<open>%s\<close> takes the next argument, \<^verbatim>\<open>\n\<close> breaks the line.\<close>

fun shell_printf :: "string \<Rightarrow> string list \<Rightarrow> string" where
  "shell_printf [] args = []"
| "shell_printf [c] args = [c]"
| "shell_printf (c # d # cs) args =
     (if c = CHR ''%'' \<and> d = CHR ''s''
      then (case args of [] \<Rightarrow> shell_printf cs [] | a # rest \<Rightarrow> a @ shell_printf cs rest)
      else if c = CHR 0x5C \<and> d = CHR ''n'' then line_break # shell_printf cs args
      else c # shell_printf (d # cs) args)"

definition printed_section :: "string \<Rightarrow> snapshot_probe \<Rightarrow> nat \<times> string \<Rightarrow> string" where
  "printed_section nonce probe answer = shell_printf (section_format nonce (sp_id probe)) [snd answer, decimal (fst answer)]"

definition printed_snapshot :: "string \<Rightarrow> snapshot_probe list \<Rightarrow> (nat \<times> string) list \<Rightarrow> string" where
  "printed_snapshot nonce probes runs = concat (map (\<lambda>(probe, answer). printed_section nonce probe answer) (zip probes runs))"

definition plain_text :: "string \<Rightarrow> bool" where
  "plain_text s \<longleftrightarrow> CHR ''%'' \<notin> set s \<and> CHR 0x5C \<notin> set s"

lemma printf_plain: "plain_text s \<Longrightarrow> shell_printf (s @ r) args = s @ shell_printf r args"
proof (induction s)
  case (Cons c s)
  then show ?case by (cases "s @ r") (auto simp: plain_text_def)
qed simp

text \<open>The names of the catalogue: lower-case letters, digits and underscores.\<close>

definition snapshot_name :: "string \<Rightarrow> bool" where
  "snapshot_name s \<longleftrightarrow> list_all (\<lambda>c. ascii_lower c \<or> ascii_digit c \<or> c = CHR ''_'') s"

definition marker :: "string \<Rightarrow> string" where
  "marker nonce = ''__YK_SNAPSHOT_'' @ nonce @ ''_''"

definition begin_line :: "string \<Rightarrow> string \<Rightarrow> string" where
  "begin_line nonce probe_id = marker nonce @ probe_id @ ''_BEGIN__''"

definition end_line :: "string \<Rightarrow> string \<Rightarrow> nat \<Rightarrow> string" where
  "end_line nonce probe_id status = marker nonce @ probe_id @ ''_END_'' @ decimal status @ ''__''"

definition section_lines :: "string \<Rightarrow> string \<Rightarrow> nat \<times> string \<Rightarrow> string list" where
  "section_lines nonce probe_id answer =
     begin_line nonce probe_id # split_on line_break (snd answer) @ [end_line nonce probe_id (fst answer)]"

lemma nonce_chars: "snapshot_nonce nonce \<Longrightarrow> snapshot_name nonce"
  by (auto simp: snapshot_nonce_def snapshot_name_def list_all_iff ascii_lower_def)

lemma name_chars:
  "snapshot_name s \<Longrightarrow> c \<in> set s \<Longrightarrow> c \<noteq> line_break \<and> c \<noteq> CHR ''%'' \<and> c \<noteq> CHR 0x5C \<and> \<not> ascii_upper c"
  by (auto simp: snapshot_name_def list_all_iff byte_class_defs)

lemma printed_section_lines:
  assumes "snapshot_nonce nonce" "snapshot_name (sp_id probe)"
  shows "printed_section nonce probe answer = unlines (section_lines nonce (sp_id probe) answer)"
proof -
  let ?p = "snapshot_prefix nonce (sp_id probe)"
  have "plain_text (?p @ ''_BEGIN__'')" "plain_text (?p @ ''_END_'')" "plain_text ''__''"
    using name_chars [OF assms(2)] name_chars [OF nonce_chars [OF assms(1)]]
    by (auto simp: plain_text_def snapshot_prefix_def)
  note plain = this [THEN printf_plain]
  have format: "section_format nonce (sp_id probe) =
      (?p @ ''_BEGIN__'') @ printf_newline @ ''%s'' @ printf_newline @ (?p @ ''_END_'') @ ''%s'' @ ''__'' @ printf_newline"
    by (simp add: section_format_def Let_def)
  have pieces: "shell_printf (printf_newline @ r) args = line_break # shell_printf r args"
    "shell_printf (''%s'' @ r) (a # args) = a @ shell_printf r args" for r args a
    by (cases r; simp add: printf_newline_def)+
  show ?thesis
    unfolding printed_section_def format plain pieces
    by (simp add: section_lines_def begin_line_def end_line_def marker_def snapshot_prefix_def printf_newline_def)
qed

subsection \<open>No line is mistaken for another\<close>

lemma split_head: "\<exists>post. s = hd (split_on d s) @ post"
  by (induction s) simp_all

lemma split_segment: "seg \<in> set (split_on d s) \<Longrightarrow> \<exists>pre post. s = pre @ seg @ post"
proof (induction s)
  case (Cons c s)
  show ?case
  proof (cases "c = d \<or> seg \<in> set (tl (split_on d s))")
    case True
    then have "seg = [] \<or> seg \<in> set (split_on d s)" using Cons.prems list.set_sel(2) [of "split_on d s" seg] by auto
    then show ?thesis
    proof
      assume "seg = []"
      then show ?thesis by auto
    next
      assume "seg \<in> set (split_on d s)"
      with Cons.IH obtain pre post where "s = pre @ seg @ post" by blast
      then show ?thesis by (intro exI [of _ "c # pre"] exI [of _ post]) simp
    qed
  next
    case False
    then have seg: "seg = c # hd (split_on d s)" using Cons.prems by simp
    obtain post where "hd (split_on d s) @ post = s" using split_head [of s d] by metis
    then have "[] @ seg @ post = c # s" by (simp only: seg append_Nil append_Cons)
    then show ?thesis by metis
  qed
qed simp

lemma output_line:
  assumes "find_sub (marker nonce) out = None" "l \<in> set (split_on line_break out)"
  shows "l \<noteq> q @ marker nonce @ x"
  using split_segment [OF assms(2)] find_sub_NoneD [OF assms(1)] by (metis append.assoc)

lemma name_split:
  assumes "snapshot_name a" "snapshot_name b" "ascii_upper u" "ascii_upper v"
    "a @ CHR ''_'' # u # x = b @ CHR ''_'' # v # y"
  shows "a = b \<and> u = v \<and> x = y"
proof -
  have low: "\<not> ascii_upper CHR ''_''" by (simp add: byte_class_defs)
  have front: "takeWhile (\<lambda>c. \<not> ascii_upper c) (s @ CHR ''_'' # w # z) = s @ [CHR ''_'']"
    "dropWhile (\<lambda>c. \<not> ascii_upper c) (s @ CHR ''_'' # w # z) = w # z"
    if "snapshot_name s" "ascii_upper w" for s w z
    using name_chars [OF that(1)] that(2) low by (simp_all add: takeWhile_append2 dropWhile_append2)
  show ?thesis using front [OF assms(1,3), of x] front [OF assms(2,4), of y] assms(5) by simp
qed

lemma name_no_Y: "snapshot_name s \<Longrightarrow> CHR ''Y'' \<notin> set s"
  using name_chars by (fastforce simp: byte_class_defs)

lemma decimal_no_Y: "CHR ''Y'' \<notin> set (decimal n)"
  using decimal_digits by (fastforce simp: byte_class_defs)

lemma marker_shift:
  assumes "q @ marker nonce @ x = marker nonce @ y" "snapshot_name nonce" "CHR ''Y'' \<notin> set y"
  shows "q = []"
proof -
  have nonce: "CHR ''Y'' \<notin> set nonce" using name_no_Y [OF assms(2)] .
  have "count_list (q @ marker nonce @ x) CHR ''Y'' = count_list (marker nonce @ y) CHR ''Y''" using assms(1) by simp
  then have "CHR ''Y'' \<notin> set q" using nonce assms(3) by (simp add: marker_def count_list_0_iff)
  then have "takeWhile (\<lambda>c. c \<noteq> CHR ''Y'') (q @ r) = q @ takeWhile (\<lambda>c. c \<noteq> CHR ''Y'') r" for r
    by (induction q) auto
  then have "takeWhile (\<lambda>c. c \<noteq> CHR ''Y'') (q @ marker nonce @ x) = q @ ''__''"
    by (simp add: marker_def)
  moreover have "takeWhile (\<lambda>c. c \<noteq> CHR ''Y'') (marker nonce @ y) = ''__''" by (simp add: marker_def)
  ultimately show ?thesis using assms(1) by simp
qed

lemma begin_begin:
  assumes "begin_line nonce a = q @ begin_line nonce b" "snapshot_name nonce" "snapshot_name a" "snapshot_name b"
  shows "a = b"
proof -
  have "q = []"
    using assms name_no_Y [OF assms(3)] by (intro marker_shift [of q nonce "b @ ''_BEGIN__''" "a @ ''_BEGIN__''"]) (auto simp: begin_line_def)
  then show ?thesis using assms(1) by (simp add: begin_line_def)
qed

lemma end_begin:
  assumes "snapshot_name nonce" "snapshot_name a" "snapshot_name b"
  shows "end_line nonce a status \<noteq> q @ begin_line nonce b"
proof
  assume eq: "end_line nonce a status = q @ begin_line nonce b"
  then have "q = []"
    using assms(1) name_no_Y [OF assms(2)] decimal_no_Y
    by (intro marker_shift [of q nonce "b @ ''_BEGIN__''" "a @ ''_END_'' @ decimal status @ ''__''"])
      (auto simp: begin_line_def end_line_def)
  with eq have "a @ CHR ''_'' # CHR ''E'' # ''ND_'' @ decimal status @ ''__'' = b @ CHR ''_'' # CHR ''B'' # ''EGIN__''"
    by (simp add: begin_line_def end_line_def)
  from name_split [OF assms(2,3) _ _ this] show False by (simp add: byte_class_defs)
qed

definition end_start :: "string \<Rightarrow> string \<Rightarrow> string" where
  "end_start nonce probe_id = marker nonce @ probe_id @ ''_END_''"

lemma begin_not_end:
  assumes "snapshot_name a" "snapshot_name b"
  shows "begin_line nonce a \<noteq> end_start nonce b @ q"
proof
  assume "begin_line nonce a = end_start nonce b @ q"
  then have "a @ CHR ''_'' # CHR ''B'' # ''EGIN__'' = b @ CHR ''_'' # CHR ''E'' # ''ND_'' @ q"
    by (simp add: begin_line_def end_start_def)
  from name_split [OF assms _ _ this] show False by (simp add: byte_class_defs)
qed

lemma end_end:
  assumes "end_line nonce a status = end_start nonce b @ q" "snapshot_name a" "snapshot_name b"
  shows "a = b"
proof -
  from assms(1) have "a @ CHR ''_'' # CHR ''E'' # ''ND_'' @ decimal status @ ''__'' = b @ CHR ''_'' # CHR ''E'' # ''ND_'' @ q"
    by (simp add: end_line_def end_start_def)
  from name_split [OF assms(2,3) _ _ this] show ?thesis by (simp add: byte_class_defs)
qed

text \<open>The lines of another section hold neither marker, and of its own ones only the first and the last do.\<close>

definition clean_for :: "string \<Rightarrow> string \<Rightarrow> string \<Rightarrow> bool" where
  "clean_for nonce probe_id l \<longleftrightarrow> (\<forall>q. l \<noteq> q @ begin_line nonce probe_id) \<and> (\<forall>q. l \<noteq> end_start nonce probe_id @ q)"

lemma clean_output:
  assumes "find_sub (marker nonce) out = None" "l \<in> set (split_on line_break out)"
  shows "clean_for nonce probe_id l"
  using output_line [OF assms] output_line [OF assms, of "[]"]
  by (auto simp: clean_for_def begin_line_def end_start_def)

lemma clean_section:
  assumes "snapshot_name nonce" "snapshot_name a" "snapshot_name b" "a \<noteq> b"
    "find_sub (marker nonce) (snd answer) = None" "l \<in> set (section_lines nonce a answer)"
  shows "clean_for nonce b l"
proof -
  consider "l = begin_line nonce a" | "l \<in> set (split_on line_break (snd answer))" | "l = end_line nonce a (fst answer)"
    using assms(6) by (auto simp: section_lines_def)
  then show ?thesis
  proof cases
    case 1
    then show ?thesis using begin_begin [OF _ assms(1-3)] begin_not_end [OF assms(2,3)] assms(4)
      by (auto simp: clean_for_def)
  next
    case 2
    then show ?thesis using clean_output [OF assms(5)] by blast
  next
    case 3
    then show ?thesis using end_begin [OF assms(1-3)] end_end [OF _ assms(2,3)] assms(4)
      by (auto simp: clean_for_def)
  qed
qed

lemma lines_ok_section:
  assumes "snapshot_name nonce" "snapshot_name a"
  shows "lines_ok (section_lines nonce a answer)"
proof -
  have "line_break \<notin> set (decimal n)" for n using decimal_digits by (fastforce simp: byte_class_defs)
  then show ?thesis using name_chars [OF assms(1)] name_chars [OF assms(2)]
    by (auto simp: section_lines_def begin_line_def end_line_def marker_def)
qed

subsection \<open>The round trip\<close>

lemma find_in_digits:
  "list_all ascii_digit s \<Longrightarrow> find_sub (''__'' @ [line_break]) (s @ ''__'' @ line_break # r) = Some (length s)"
proof (induction s)
  case (Cons c s)
  then have "c \<noteq> CHR ''_''" by (auto simp: byte_class_defs)
  with Cons show ?case by (simp add: starts_with_def)
qed (simp add: starts_with_def)

lemma small_status: "status \<le> 255 \<Longrightarrow> length (decimal status) \<le> 3"
proof (cases "status < 10")
  case False
  assume "status \<le> 255"
  then have "status div 10 < 100" by simp
  then show ?thesis using False
    by (cases "status < 100") (simp_all add: numeral_string_step [of 10 status] numeral_string_step [of 10 "status div 10"] numeral_string_small)
qed (simp add: numeral_string_small)

lemma find_from_shift: "find_from needle (s @ t) (length s) = map_option ((+) (length s)) (find_sub needle t)"
  by (simp add: find_from_def)

lemma parse_printed_section:
  assumes "snapshot_name nonce" "snapshot_name (sp_id probe)" "status \<le> 255" "find_sub (marker nonce) out = None"
    "lines_ok (front @ rear)" "\<forall>l\<in>set (front @ rear). clean_for nonce (sp_id probe) l"
  shows "parse_section nonce (unlines (front @ section_lines nonce (sp_id probe) (status, out) @ rear)) probe = Section status out"
proof -
  let ?id = "sp_id probe"
  let ?b = "begin_line nonce ?id" and ?e = "end_line nonce ?id status" and ?s = "end_start nonce ?id"
  let ?out = "split_on line_break out" and ?t = "unlines (front @ section_lines nonce ?id (status, out) @ rear)"
  have lines: "lines_ok (front @ ?b # ?out @ ?e # rear)"
    using assms(5) lines_ok_section [OF assms(1,2), of "(status, out)"] by (simp add: section_lines_def)
  have clean: "clean_for nonce ?id l" if "l \<in> set (front @ ?out @ rear)" for l
    using that assms(6) clean_output [OF assms(4)] by auto
  have begin_free: "\<forall>l\<in>set (?out @ ?e # rear). \<forall>q. l \<noteq> q @ ?b" "\<forall>l\<in>set (front @ ?out @ ?e # rear). \<forall>q. l \<noteq> q @ ?b"
    using clean end_begin [OF assms(1,2,2), of status] by (auto simp: clean_for_def)
  have end_free: "\<forall>l\<in>set (?out @ rear). \<forall>q. l \<noteq> ?s @ q"
    using clean by (auto simp: clean_for_def)
  have e: "?e = ?s @ (decimal status @ ''__'')" by (simp add: end_line_def end_start_def)
  have parts: "?t = unlines front @ (?b @ [line_break]) @ unlines (?out @ ?e # rear)"
    "?t = (unlines front @ (?b @ [line_break]) @ out @ line_break # ?s) @ unlines ((decimal status @ ''__'') # rear)"
    by (simp_all add: section_lines_def e)
  have digits: "list_all ascii_digit (decimal status)" "decimal status \<noteq> []"
    using is_digit_sequence_decimal [of status] by (auto simp: is_digit_sequence_def)
  define a b c where "a = length (unlines front)" and "b = length (unlines front @ ?b @ [line_break])"
    and "c = length (unlines front @ (?b @ [line_break]) @ out @ line_break # ?s)"
  have f1: "find_from (?b @ [line_break]) ?t 0 = Some a"
    using find_line_end [of front ?b "?out @ ?e # rear"] lines begin_free(2) by (simp add: find_from_def a_def section_lines_def)
  have f2: "find_from (?b @ [line_break]) ?t b = None"
    using find_line_end_none [of "?out @ ?e # rear" ?b] lines begin_free(1) find_from_shift [of "?b @ [line_break]" "unlines front @ ?b @ [line_break]"]
    unfolding parts(1) b_def by simp
  have f3: "find_from (line_break # ?s) ?t b = Some (b + length out)"
    using find_line_start [of ?out ?s "decimal status @ ''__''" rear] lines end_free find_from_shift [of "line_break # ?s" "unlines front @ ?b @ [line_break]"]
    unfolding parts(1) b_def e by (simp add: end_start_def)
  have f4: "find_from (line_break # ?s) ?t c = None"
    using find_line_start_none [of "decimal status @ ''__''" rear ?s] lines end_free
      find_from_shift [of "line_break # ?s" "unlines front @ (?b @ [line_break]) @ out @ line_break # ?s"]
    unfolding parts(2) c_def e by (simp add: end_start_def)
  have f5: "find_from (''__'' @ [line_break]) ?t c = Some (c + length (decimal status))"
    using find_in_digits [OF digits(1), of "unlines rear"]
      find_from_shift [of "''__'' @ [line_break]" "unlines front @ (?b @ [line_break]) @ out @ line_break # ?s"]
    unfolding parts(2) c_def by simp
  have lengths: "a + length (?b @ [line_break]) = b" "b + length out + length (line_break # ?s) = c"
    by (simp_all add: a_def b_def c_def)
  have status: "take (length (decimal status)) (drop c ?t) = decimal status"
    unfolding parts(2) c_def by simp
  have data: "take (length out) (drop b ?t) = out"
    unfolding parts(1) b_def by simp
  have markers: "snapshot_prefix nonce ?id @ ''_BEGIN__'' @ [CHR 0x0A] = ?b @ [line_break]"
    "CHR 0x0A # snapshot_prefix nonce ?id @ ''_END_'' = line_break # ?s"
    by (simp_all add: begin_line_def end_start_def marker_def snapshot_prefix_def)
  show ?thesis
    unfolding parse_section_def Let_def markers f1 option.case lengths(1) f2 f3 lengths(2) f4 f5
    using digits status data small_status [OF assms(3)] assms(3) by simp
qed

definition all_lines :: "string \<Rightarrow> (snapshot_probe \<times> nat \<times> string) list \<Rightarrow> string list" where
  "all_lines nonce sections = concat (map (\<lambda>(probe, answer). section_lines nonce (sp_id probe) answer) sections)"

definition section_ok :: "string \<Rightarrow> snapshot_probe \<times> nat \<times> string \<Rightarrow> bool" where
  "section_ok nonce = (\<lambda>(probe, status, out).
     snapshot_name (sp_id probe) \<and> status \<le> 255 \<and> find_sub (marker nonce) out = None)"

lemma all_lines_clean:
  assumes "snapshot_name nonce" "list_all (section_ok nonce) sections" "snapshot_name probe_id"
    "probe_id \<notin> set (map (sp_id \<circ> fst) sections)"
  shows "lines_ok (all_lines nonce sections) \<and> (\<forall>l\<in>set (all_lines nonce sections). clean_for nonce probe_id l)"
  using assms
proof (induction sections)
  case Nil
  then show ?case by (simp add: all_lines_def)
next
  case (Cons x sections)
  obtain probe answer where x: "x = (probe, answer)" by (cases x)
  have ok: "snapshot_name (sp_id probe)" "find_sub (marker nonce) (snd answer) = None"
    using Cons.prems(2) by (auto simp: x section_ok_def split: prod.splits)
  have "\<forall>l\<in>set (section_lines nonce (sp_id probe) answer). clean_for nonce probe_id l"
    using clean_section [OF assms(1) ok(1) assms(3) _ ok(2)] Cons.prems(4) by (auto simp: x)
  then show ?case
    using Cons lines_ok_section [OF assms(1) ok(1), of answer] by (auto simp: all_lines_def x)
qed

lemma parse_printed_rest:
  assumes "snapshot_name nonce" "list_all (section_ok nonce) (read @ rest)" "distinct (map (sp_id \<circ> fst) (read @ rest))"
  shows "parse_sections nonce (unlines (all_lines nonce (read @ rest))) (map fst rest) results =
    Some (results ++ map_of (map (\<lambda>(probe, answer). (sp_id probe, answer)) rest))"
  using assms(2,3)
proof (induction rest arbitrary: read results)
  case (Cons x rest)
  obtain probe status out where x: "x = (probe, status, out)" by (cases x)
  have ok: "snapshot_name (sp_id probe)" "status \<le> 255" "find_sub (marker nonce) out = None"
    using Cons.prems(1) by (auto simp: x section_ok_def)
  have fresh: "sp_id probe \<notin> set (map (sp_id \<circ> fst) read)" "sp_id probe \<notin> set (map (sp_id \<circ> fst) rest)"
    using Cons.prems(2) by (auto simp: x)
  have others: "lines_ok (all_lines nonce read @ all_lines nonce rest)"
    "\<forall>l\<in>set (all_lines nonce read @ all_lines nonce rest). clean_for nonce (sp_id probe) l"
    using all_lines_clean [OF assms(1) _ ok(1) fresh(1)] all_lines_clean [OF assms(1) _ ok(1) fresh(2)] Cons.prems(1) by auto
  have "parse_section nonce (unlines (all_lines nonce (read @ x # rest))) probe = Section status out"
    using parse_printed_section [OF assms(1) ok others] by (simp add: all_lines_def x)
  moreover have "parse_sections nonce (unlines (all_lines nonce (read @ x # rest))) (map fst rest) r =
      Some (r ++ map_of (map (\<lambda>(probe, answer). (sp_id probe, answer)) rest))" for r
    using Cons.IH [of "read @ [x]" r] Cons.prems by simp
  moreover have "sp_id probe \<notin> dom (map_of (map (\<lambda>(probe, answer). (sp_id probe, answer)) rest))"
    using fresh(2) by (auto simp: dom_map_of_conv_image_fst image_iff)
  ultimately show ?case by (auto simp: x fun_eq_iff map_add_def split: option.splits)
qed simp

lemma printed_snapshot_lines:
  assumes "snapshot_nonce nonce" "list_all (section_ok nonce) (zip probes answers)"
  shows "printed_snapshot nonce probes answers = unlines (all_lines nonce (zip probes answers))"
proof -
  have "concat (map (\<lambda>(probe, answer). printed_section nonce probe answer) sections) = unlines (all_lines nonce sections)"
    if "list_all (section_ok nonce) sections" for sections
    using that
    by (induction sections) (auto simp: all_lines_def section_ok_def printed_section_lines [OF assms(1)])
  then show ?thesis using assms(2) by (simp add: printed_snapshot_def)
qed

text \<open>C24: A system snapshot survives its framing.  Whatever the probes of the command print and return, as long as
  no output contains the marker with its nonce, the parser gives back exactly the status and the output
  of every probe from what the shell prints for the formats of the command: no output is cut, merged with another
  or taken for a marker, line breaks and underscores included.\<close>

theorem snapshot_round_trip:
  assumes "snapshot_nonce nonce" "length answers = length probes" "distinct (map sp_id probes)"
    "list_all (\<lambda>probe. snapshot_name (sp_id probe)) probes"
    "list_all (\<lambda>(status, out). status \<le> 255 \<and> find_sub (''__YK_SNAPSHOT_'' @ nonce @ ''_'') out = None) answers"
  shows "parse_system_snapshot_outputs probes (printed_snapshot nonce probes answers) nonce =
    Some (map_of (zip (map sp_id probes) answers))"
proof -
  have ok: "list_all (section_ok nonce) (zip probes answers)"
    unfolding list_all_iff
  proof
    fix section_pair
    assume "section_pair \<in> set (zip probes answers)"
    then have "fst section_pair \<in> set probes" "snd section_pair \<in> set answers"
      by (metis prod.collapse set_zip_leftD, metis prod.collapse set_zip_rightD)
    then show "section_ok nonce section_pair"
      using assms(4,5) by (auto simp: section_ok_def marker_def list_all_iff split: prod.splits)
  qed
  have fsts: "map fst (zip probes answers) = probes" "map (sp_id \<circ> fst) (zip probes answers) = map sp_id probes"
    using assms(2) by (simp_all flip: map_map)
  have pairs: "map (\<lambda>(probe, answer). (sp_id probe, answer)) (zip probes answers) = zip (map sp_id probes) answers"
    by (simp add: zip_map1 case_prod_beta')
  have "parse_sections nonce (printed_snapshot nonce probes answers) probes Map.empty = Some (map_of (zip (map sp_id probes) answers))"
    using parse_printed_rest [OF nonce_chars [OF assms(1)], of "[]" "zip probes answers" Map.empty] ok assms(3) fsts pairs
      printed_snapshot_lines [OF assms(1) ok] by simp
  then show ?thesis using assms(1) by (simp add: parse_system_snapshot_outputs_def build_system_snapshot_command_def)
qed

lemma snapshot_round_trip_witness:
  "parse_system_snapshot_outputs
     [\<lparr>sp_id = ''os_detect'', sp_command = ''uname'', sp_timeout = 0, sp_required = True\<rparr>,
      \<lparr>sp_id = ''docker_ps'', sp_command = ''docker ps'', sp_timeout = 2, sp_required = False\<rparr>]
     (printed_snapshot ''0123456789abcdef0123456789abcdef''
       [\<lparr>sp_id = ''os_detect'', sp_command = ''uname'', sp_timeout = 0, sp_required = True\<rparr>,
        \<lparr>sp_id = ''docker_ps'', sp_command = ''docker ps'', sp_timeout = 2, sp_required = False\<rparr>]
       [(0, ''Linux'' @ [CHR 0x0A] @ ''__YK''), (127, [])])
     ''0123456789abcdef0123456789abcdef'' =
   Some (map_of (zip [''os_detect'', ''docker_ps''] [(0, ''Linux'' @ [CHR 0x0A] @ ''__YK''), (127, [])]))"
proof -
  have "snapshot_nonce ''0123456789abcdef0123456789abcdef''" by code_simp
  moreover have "list_all (\<lambda>probe. snapshot_name (sp_id probe))
     [\<lparr>sp_id = ''os_detect'', sp_command = ''uname'', sp_timeout = 0, sp_required = True\<rparr>,
      \<lparr>sp_id = ''docker_ps'', sp_command = ''docker ps'', sp_timeout = 2, sp_required = False\<rparr>]" by code_simp
  moreover have "list_all (\<lambda>(status, out). status \<le> 255 \<and>
      find_sub (''__YK_SNAPSHOT_'' @ ''0123456789abcdef0123456789abcdef'' @ ''_'') out = None)
     [(0, ''Linux'' @ [CHR 0x0A] @ ''__YK''), (127 :: nat, [])]" by code_simp
  ultimately show ?thesis
    using snapshot_round_trip [of "''0123456789abcdef0123456789abcdef''" "[(0, ''Linux'' @ [CHR 0x0A] @ ''__YK''), (127, [])]"
      "[\<lparr>sp_id = ''os_detect'', sp_command = ''uname'', sp_timeout = 0, sp_required = True\<rparr>,
      \<lparr>sp_id = ''docker_ps'', sp_command = ''docker ps'', sp_timeout = 2, sp_required = False\<rparr>]"] by simp
qed

end
