(* ===== verification/SshOperations.thy ===== *)
theory SshOperations
  imports SshReplace SshPublish SnapshotToolkit ConfigParse
begin

text \<open>
  The structured operations of \<^verbatim>\<open>src/native/src/ssh.cpp\<close> that run a command, and the choice of the operation
  of a request (\<^verbatim>\<open>run_operation\<close>).  A command is a text for the shell of the server; the parts of it that
  come from the request are checked or quoted here.
\<close>

abbreviation quoted_name :: "string \<Rightarrow> string" where
  "quoted_name s \<equiv> [CHR 0x27] @ s @ [CHR 0x27]"

abbreviation invalid_result :: "string \<Rightarrow> ('w, exec_result) ssh" where
  "invalid_result message \<equiv> ssh_return (failed_result ''invalid_parameters'' message)"

subsection \<open>Command execution\<close>

fun environment_words :: "(string \<times> string) list \<Rightarrow> string" where
  "environment_words [] = []"
| "environment_words ((key, v) # rest) = '' '' @ key @ ''='' @ shell_single_quote v @ environment_words rest"

definition server_exec_command :: "exec_request \<Rightarrow> string" where
  "server_exec_command request =
     (if er_workdir request = [] then [] else ''cd '' @ shell_single_quote (er_workdir request) @ '' && '') @
     (if er_environment request = [] then ''/bin/sh -c ''
      else ''env'' @ environment_words (er_environment request) @ '' /bin/sh -c '') @
     shell_single_quote (er_command request)"

definition server_exec_operation ::
  "'w ssh_library \<Rightarrow> ('rx \<Rightarrow> string \<Rightarrow> bool option) \<Rightarrow> 'rx target_config \<Rightarrow> exec_request \<Rightarrow> ('w, exec_result) ssh" where
  "server_exec_operation lib search target request =
     (if \<not> tc_allow_server_exec target
      then ssh_return (failed_result ''operation_not_allowed'' ''server.exec requires a one-shot host authorization'')
      else if server_exec_command_is_denied search (tc_server_exec_denylist target) (er_command request) \<noteq> None
      then ssh_return (failed_result ''denied_by_policy'' ''the server.exec command is blocked by the configured command blacklist'')
      else run_ssh_command_with_limits lib (server_exec_command request) (er_max_output_bytes request) True)"

subsection \<open>Looking at the system\<close>

definition service_status :: "'w ssh_library \<Rightarrow> string \<Rightarrow> int \<Rightarrow> ('w, exec_result) ssh" where
  "service_status lib service timeout_seconds =
     (if \<not> valid_service_name service then invalid_result ''The read-only SSH operation parameters are invalid''
      else run_ssh_command lib (''systemctl is-active -- '' @ service) timeout_seconds)"

definition disk_usage :: "'w ssh_library \<Rightarrow> 'rx target_config \<Rightarrow> int \<Rightarrow> ('w, exec_result) ssh" where
  "disk_usage lib target timeout_seconds =
     (if tc_probe_only target \<or> bad_timeout timeout_seconds
      then invalid_result ''The read-only disk usage parameters are invalid''
      else run_ssh_command lib ''df -Pk /'' timeout_seconds)"

text \<open>The operations that answer with a text of their own, as results.\<close>

definition as_result :: "('w, string) ssh \<Rightarrow> ('w, exec_result) ssh" where
  "as_result m =
     ssh_bind (ssh_result m) (\<lambda>r.
     ssh_return (case r of
       Inl e \<Rightarrow> empty_result (Inl e)
     | Inr stdout_text \<Rightarrow> (empty_result (Inr 0))\<lparr>xr_stdout := stdout_text\<rparr>))"

definition connection_check :: "'w ssh_library \<Rightarrow> 'rx target_config \<Rightarrow> int \<Rightarrow> ('w, exec_result) ssh" where
  "connection_check lib target timeout_seconds =
     (if tc_probe_only target \<or> bad_timeout timeout_seconds
      then invalid_result ''The SSH connection check parameters are invalid''
      else as_result (ssh_bind (ssh_connect lib) (\<lambda>_. ssh_return (confirmation ''connected''))))"

definition system_snapshot ::
  "'w ssh_library \<Rightarrow> snapshot_probe list \<Rightarrow> 'rx target_config \<Rightarrow> string \<Rightarrow> int \<Rightarrow> ('w, exec_result) ssh" where
  "system_snapshot lib probes target nonce timeout_seconds =
     (if tc_probe_only target \<or> \<not> snapshot_nonce nonce \<or> bad_timeout timeout_seconds
      then invalid_result ''The system snapshot parameters are invalid''
      else case build_system_snapshot_command probes nonce of
          None \<Rightarrow> invalid_result ''The system snapshot parameters are invalid''
        | Some command \<Rightarrow> run_ssh_command lib command timeout_seconds)"

definition json_format :: string where
  "json_format = [CHR 0x27] @ ''{{json .}}'' @ [CHR 0x27]"

definition docker_ps_command :: "bool \<Rightarrow> string" where
  "docker_ps_command include_all_containers =
     (if include_all_containers then ''docker ps -a --format '' else ''docker ps --format '') @ json_format @ '' 2>/dev/null''"

definition docker_ps :: "'w ssh_library \<Rightarrow> 'rx target_config \<Rightarrow> bool \<Rightarrow> int \<Rightarrow> ('w, exec_result) ssh" where
  "docker_ps lib target include_all_containers timeout_seconds =
     (if tc_probe_only target \<or> bad_timeout timeout_seconds
      then invalid_result ''The Docker listing parameters are invalid''
      else run_ssh_command lib (docker_ps_command include_all_containers) timeout_seconds)"

definition docker_logs_command :: "string \<Rightarrow> nat \<Rightarrow> string" where
  "docker_logs_command container tail_lines =
     ''docker logs --tail '' @ decimal tail_lines @ '' --timestamps -- '' @ quoted_name container @ '' 2>&1''"

definition docker_logs :: "'w ssh_library \<Rightarrow> 'rx target_config \<Rightarrow> string \<Rightarrow> nat \<Rightarrow> int \<Rightarrow> ('w, exec_result) ssh" where
  "docker_logs lib target container tail_lines timeout_seconds =
     (if tc_probe_only target \<or> \<not> valid_container_ref container \<or> tail_lines < 1 \<or> 500 < tail_lines \<or>
         bad_timeout timeout_seconds
      then invalid_result ''The Docker log parameters are invalid''
      else run_ssh_command lib (docker_logs_command container tail_lines) timeout_seconds)"

definition docker_inspect_command :: "string \<Rightarrow> string" where
  "docker_inspect_command container =
     ''docker inspect --format '' @ json_format @ '' -- '' @ quoted_name container @ '' 2>/dev/null''"

definition docker_inspect :: "'w ssh_library \<Rightarrow> 'rx target_config \<Rightarrow> string \<Rightarrow> int \<Rightarrow> ('w, exec_result) ssh" where
  "docker_inspect lib target container timeout_seconds =
     (if tc_probe_only target \<or> \<not> valid_container_ref container \<or> bad_timeout timeout_seconds
      then invalid_result ''The Docker inspect parameters are invalid''
      else run_ssh_command lib (docker_inspect_command container) timeout_seconds)"

definition bad_unit :: "string \<Rightarrow> bool" where
  "bad_unit unit_name \<longleftrightarrow> \<not> valid_service_name unit_name \<or> \<not> ends_with ''.service'' unit_name"

definition systemd_inspect_command :: "string \<Rightarrow> string" where
  "systemd_inspect_command unit_name =
     ''systemctl show --no-pager --property=LoadState,ActiveState,SubState,Description --value -- '' @
     quoted_name unit_name @ '' 2>&1''"

definition systemd_inspect :: "'w ssh_library \<Rightarrow> 'rx target_config \<Rightarrow> string \<Rightarrow> int \<Rightarrow> ('w, exec_result) ssh" where
  "systemd_inspect lib target unit_name timeout_seconds =
     (if tc_probe_only target \<or> bad_unit unit_name \<or> bad_timeout timeout_seconds
      then invalid_result ''The systemd inspect parameters are invalid''
      else run_ssh_command lib (systemd_inspect_command unit_name) timeout_seconds)"

subsection \<open>Packages\<close>

text \<open>\<^verbatim>\<open>'%s\n'\<close> and the other quoted formats, with the backslash that reaches \<^verbatim>\<open>printf\<close>.\<close>

definition print_line :: "string \<Rightarrow> string" where
  "print_line s = ''printf '' @ quoted_name (''%s'' @ printf_newline) @ '' '' @ s"

definition printf_tab :: string where
  "printf_tab = [CHR 0x5C, CHR ''t'']"

text \<open>The status line of one query, or \<^verbatim>\<open>absent\<close>.\<close>

definition query_verdict :: "string \<Rightarrow> string" where
  \<open>query_verdict query =
     ''out=$('' @ query @ '' 2>/dev/null); status=$?; if [ $status -eq 0 ] && [ -n "$out" ]; then '' @
     print_line ''"$out"'' @ ''; else '' @ print_line ''absent'' @ ''; fi''\<close>

definition apt_query :: "string \<Rightarrow> string" where
  "apt_query package =
     query_verdict (''dpkg-query --showformat='' @ quoted_name (''${Status}'' @ printf_tab @ ''${Version}'' @ printf_newline) @
       '' --show -- '' @ quoted_name package)"

definition rpm_query :: "string \<Rightarrow> string" where
  "rpm_query package =
     query_verdict (''rpm --queryformat='' @ quoted_name (''installed'' @ printf_tab @ ''%{VERSION}-%{RELEASE}'' @ printf_newline) @
       '' --query -- '' @ quoted_name package)"

definition detect_manager :: string where
  "detect_manager =
     ''if command -v apt-get >/dev/null 2>&1 && command -v dpkg-query >/dev/null 2>&1; then manager=apt; '' @
     ''elif command -v dnf >/dev/null 2>&1 && command -v rpm >/dev/null 2>&1; then manager=dnf; '' @
     ''elif command -v yum >/dev/null 2>&1 && command -v rpm >/dev/null 2>&1; then manager=yum; '' @
     ''else manager=unsupported; fi; ''"

definition package_inspect_command :: "string \<Rightarrow> string \<Rightarrow> string" where
  \<open>package_inspect_command manager package =
     (if manager = ''apt'' then
        ''if command -v apt-get >/dev/null 2>&1 && command -v dpkg-query >/dev/null 2>&1; then '' @
        apt_query package @ ''; else '' @ print_line ''unsupported'' @ ''; fi''
      else if manager \<noteq> ''auto'' then
        ''if command -v '' @ manager @ '' >/dev/null 2>&1 && command -v rpm >/dev/null 2>&1; then '' @
        rpm_query package @ ''; else '' @ print_line ''unsupported'' @ ''; fi''
      else
        ''manager='' @ quoted_name [] @ ''; '' @ detect_manager @ ''case "$manager" in '' @
        ''apt) printf '' @ quoted_name (''__YUKINAL_MANAGER__=apt'' @ printf_newline) @ ''; '' @
        ''if command -v apt-get >/dev/null 2>&1 && command -v dpkg-query >/dev/null 2>&1; then '' @
        apt_query package @ ''; else '' @ print_line ''unsupported'' @ ''; fi ;; '' @
        ''dnf|yum) printf '' @ quoted_name (''__YUKINAL_MANAGER__=%s'' @ printf_newline) @ '' "$manager"; '' @
        ''if command -v "$manager" >/dev/null 2>&1 && command -v rpm >/dev/null 2>&1; then '' @
        rpm_query package @ ''; else '' @ print_line ''unsupported'' @ ''; fi ;; '' @
        ''*) printf '' @ quoted_name (''__YUKINAL_MANAGER__=unsupported'' @ printf_newline) @ '' ;; esac'')\<close>

definition package_inspect :: "'w ssh_library \<Rightarrow> 'rx target_config \<Rightarrow> string \<Rightarrow> string \<Rightarrow> int \<Rightarrow> ('w, exec_result) ssh" where
  "package_inspect lib target manager package timeout_seconds =
     (if tc_probe_only target \<or> \<not> valid_package_manager manager \<or> \<not> valid_package_ref package \<or> bad_timeout timeout_seconds
      then invalid_result ''The package inspect parameters are invalid''
      else run_ssh_command lib (package_inspect_command manager package) timeout_seconds)"

definition package_specification :: "string \<Rightarrow> string \<Rightarrow> string \<Rightarrow> string" where
  "package_specification manager package version =
     package @ (if version = [] then [] else if manager = ''apt'' then ''='' @ version else ''-'' @ version)"

definition package_install_command :: "string \<Rightarrow> string \<Rightarrow> string \<Rightarrow> string" where
  \<open>package_install_command manager package version =
     (if manager \<noteq> ''auto'' then
        (let package_arg = quoted_name (package_specification manager package version) in
         if manager = ''apt'' then
           ''DEBIAN_FRONTEND=noninteractive apt-get install --yes --no-install-recommends --no-remove -- '' @ package_arg @ '' 2>&1''
         else if manager = ''dnf'' then ''dnf install --assumeyes --setopt=install_weak_deps=False -- '' @ package_arg @ '' 2>&1''
         else ''yum install --assumeyes -- '' @ package_arg @ '' 2>&1'')
      else
        ''manager='' @ quoted_name [] @ ''; package='' @ quoted_name package @ ''; version='' @ quoted_name version @ ''; '' @
        detect_manager @
        ''if [ -n "$version" ]; then if [ "$manager" = apt ]; then specification="$package=$version"; '' @
        ''else specification="$package-$version"; fi; else specification=$package; fi; '' @
        ''case "$manager" in '' @
        ''apt) DEBIAN_FRONTEND=noninteractive apt-get install --yes --no-install-recommends --no-remove -- "$specification" 2>&1 ;; '' @
        ''dnf) dnf install --assumeyes --setopt=install_weak_deps=False -- "$specification" 2>&1 ;; '' @
        ''yum) yum install --assumeyes -- "$specification" 2>&1 ;; '' @
        ''*) '' @ print_line (quoted_name ''No supported package manager is available on the target'') @ '' >&2; exit 127 ;; esac'')\<close>

definition package_install ::
  "'w ssh_library \<Rightarrow> 'rx target_config \<Rightarrow> string \<Rightarrow> string \<Rightarrow> string \<Rightarrow> int \<Rightarrow> ('w, exec_result) ssh" where
  "package_install lib target manager package version timeout_seconds =
     (if tc_probe_only target \<or> \<not> valid_package_manager manager \<or> \<not> valid_package_ref package \<or>
         (version \<noteq> [] \<and> \<not> valid_package_version version) \<or> timeout_seconds < 1 \<or> 600 < timeout_seconds
      then invalid_result ''The package install parameters are invalid''
      else run_ssh_command_with_timeout_limit lib (package_install_command manager package version) timeout_seconds 600)"

subsection \<open>Restarts\<close>

definition docker_restart_command :: "string \<Rightarrow> nat \<Rightarrow> string" where
  "docker_restart_command container grace_period_seconds =
     ''docker restart --time '' @ decimal grace_period_seconds @ '' -- '' @ quoted_name container @ '' 2>&1''"

definition docker_restart :: "'w ssh_library \<Rightarrow> 'rx target_config \<Rightarrow> string \<Rightarrow> nat \<Rightarrow> int \<Rightarrow> ('w, exec_result) ssh" where
  "docker_restart lib target container grace_period_seconds timeout_seconds =
     (if tc_probe_only target \<or> \<not> valid_container_ref container \<or> grace_period_seconds < 1 \<or>
         120 < grace_period_seconds \<or> bad_timeout timeout_seconds
      then invalid_result ''The Docker restart parameters are invalid''
      else run_ssh_command lib (docker_restart_command container grace_period_seconds) timeout_seconds)"

definition systemd_restart_command :: "string \<Rightarrow> string" where
  "systemd_restart_command unit_name =
     ''systemctl restart --no-ask-password --wait -- '' @ quoted_name unit_name @ '' 2>&1''"

definition systemd_restart :: "'w ssh_library \<Rightarrow> 'rx target_config \<Rightarrow> string \<Rightarrow> int \<Rightarrow> ('w, exec_result) ssh" where
  "systemd_restart lib target unit_name timeout_seconds =
     (if tc_probe_only target \<or> bad_unit unit_name \<or> timeout_seconds < 1 \<or> 120 < timeout_seconds
      then invalid_result ''The systemd restart parameters are invalid''
      else run_ssh_command_with_timeout_limit lib (systemd_restart_command unit_name) timeout_seconds 120)"

subsection \<open>Inventories\<close>

text \<open>The lines of the \<^verbatim>\<open>awk\<close> program that keeps whole lines within the limits.\<close>

definition limiter_lines :: "string list" where
  \<open>limiter_lines =
     [[],
      ''function keep(line, size) {'',
      ''  if (line == "") return;'',
      ''  if (line ~ /^__YUKINAL_(SOURCE|TRUNCATED|STATUS)__=/) {'',
      ''    partial = 1;'',
      ''    return;'',
      ''  }'',
      ''  size = length(line) + 1;'',
      ''  if (count >= maximum_lines || bytes + size > 61440) {'',
      ''    partial = 1;'',
      ''    return;'',
      ''  }'',
      ''  rows[++count] = line;'',
      ''  bytes += size;'',
      ''}'',
      ''NR > 1 { keep(previous); }'',
      ''{ previous = $0; }'',
      ''END {'',
      ''  if (previous != "__YUKINAL_STATUS__=0") exit 1;'',
      ''  for (row_index = 1; row_index <= count; row_index++) print rows[row_index];'',
      ''  printf "__YUKINAL_SOURCE__=%s'' @ printf_newline @ ''", source;'',
      ''  if (partial) print "__YUKINAL_TRUNCATED__=1";'',
      ''}'']\<close>

definition bounded_inventory_source_command :: "string \<Rightarrow> string \<Rightarrow> nat \<Rightarrow> string" where
  \<open>bounded_inventory_source_command probe source maximum_lines =
     ''{ '' @ probe @ ''; yk_inventory_status=$?; printf '' @
     quoted_name (printf_newline @ ''__YUKINAL_STATUS__=%s'' @ printf_newline) @ '' "$yk_inventory_status"; } | '' @
     ''LC_ALL=C awk -v maximum_lines='' @ decimal maximum_lines @ '' -v source='' @ source @ '' '' @
     quoted_name (concat (map (\<lambda>l. l @ [CHR 0x0A]) limiter_lines))\<close>

definition inventory_attempt :: "string \<Rightarrow> string \<Rightarrow> string \<Rightarrow> nat \<Rightarrow> string" where
  "inventory_attempt test probe source maximum_lines =
     ''if '' @ test @ ''; then '' @ bounded_inventory_source_command probe source maximum_lines @
     ''; if [ $? -eq 0 ]; then exit 0; fi; fi; ''"

definition inventory_unavailable :: string where
  "inventory_unavailable = ''printf '' @ quoted_name (''__YUKINAL_SOURCE__=unavailable'' @ printf_newline)"

definition has_command :: "string \<Rightarrow> string" where
  "has_command name = ''command -v '' @ name @ '' >/dev/null 2>&1''"

definition service_inventory_command :: string where
  "service_inventory_command =
     inventory_attempt (has_command ''systemctl'')
          ''systemctl list-units --type=service --all --no-legend --no-pager --plain 2>/dev/null'' ''systemd'' 200 @
        inventory_attempt (has_command ''docker'')
          (''docker ps -a --format '' @ quoted_name (''{{.Names}}'' @ printf_tab @ ''{{.State}}'' @ printf_tab @
             ''{{.Status}}'' @ printf_tab @ ''{{.Image}}'') @ '' 2>/dev/null'') ''docker'' 200 @
        inventory_unavailable"

definition service_inventory :: "'w ssh_library \<Rightarrow> int \<Rightarrow> ('w, exec_result) ssh" where
  "service_inventory lib timeout_seconds =
     run_ssh_command lib service_inventory_command timeout_seconds"

definition process_inventory_command :: string where
  "process_inventory_command =
     inventory_attempt (has_command ''ps'')
          ''ps -eo pid=,ppid=,user=,pcpu=,pmem=,stat=,etimes=,comm= --sort=-pcpu 2>/dev/null'' ''ps'' 256 @
        inventory_attempt (has_command ''busybox'')
          ''busybox ps -o pid,ppid,user,pcpu,pmem,stat,etimes,comm 2>/dev/null'' ''busybox'' 256 @
        inventory_unavailable"

definition process_inventory :: "'w ssh_library \<Rightarrow> int \<Rightarrow> ('w, exec_result) ssh" where
  "process_inventory lib timeout_seconds =
     (if bad_timeout timeout_seconds then invalid_result ''The process inventory parameters are invalid''
      else run_ssh_command lib process_inventory_command timeout_seconds)"

definition port_inventory_command :: string where
  "port_inventory_command =
     inventory_attempt (has_command ''ss'') ''ss -H -lntup 2>/dev/null'' ''ss'' 256 @
        inventory_attempt (has_command ''netstat'') ''netstat -lntup 2>/dev/null'' ''netstat'' 256 @
        inventory_unavailable"

definition port_inventory :: "'w ssh_library \<Rightarrow> int \<Rightarrow> ('w, exec_result) ssh" where
  "port_inventory lib timeout_seconds =
     (if bad_timeout timeout_seconds then invalid_result ''The port inventory parameters are invalid''
      else run_ssh_command lib port_inventory_command timeout_seconds)"

definition server_logs_command :: "nat option \<Rightarrow> string \<Rightarrow> string" where
  "server_logs_command since_seconds unit_name =
     (let journal_probe = ''journalctl -n 100 --no-pager -o short-iso'' @
            (case since_seconds of Some s \<Rightarrow> '' --since '' @ quoted_name (''-'' @ decimal s @ '' seconds'') | None \<Rightarrow> []) @
            (if unit_name = [] then [] else '' --unit '' @ quoted_name unit_name) @ '' 2>/dev/null''
      in inventory_attempt (has_command ''journalctl'') journal_probe ''journalctl'' 100 @
         (if since_seconds = None \<and> unit_name = []
          then inventory_attempt ''[ -r /var/log/syslog ]'' ''tail -n 100 /var/log/syslog'' ''syslog'' 100 @
               inventory_attempt ''[ -r /var/log/messages ]'' ''tail -n 100 /var/log/messages'' ''messages'' 100
          else []) @ inventory_unavailable)"

definition server_logs :: "'w ssh_library \<Rightarrow> nat option \<Rightarrow> string \<Rightarrow> int \<Rightarrow> ('w, exec_result) ssh" where
  "server_logs lib since_seconds unit_name timeout_seconds =
     (if (case since_seconds of Some s \<Rightarrow> s < 1 \<or> 604800 < s | None \<Rightarrow> False) \<or> (unit_name \<noteq> [] \<and> bad_unit unit_name)
      then invalid_result ''The bounded server log parameters are invalid''
      else run_ssh_command lib (server_logs_command since_seconds unit_name) timeout_seconds)"

subsection \<open>The host key\<close>

definition probe_connect_failure :: "connect_failure \<Rightarrow> string \<times> string" where
  "probe_connect_failure failure =
     (case failure of
        ConnectTimeout \<Rightarrow> (''timeout'', ''SSH host-key probe timed out'')
      | ResolverBusy \<Rightarrow> (''resolver_busy'', ''DNS resolution capacity is temporarily exhausted'')
      | ResolverUnavailable \<Rightarrow> (''resolver_unavailable'', ''Could not start bounded DNS resolution'')
      | ProxyAuthRequired \<Rightarrow> (''proxy_auth_required'', ''The configured HTTP proxy credential is missing or was rejected'')
      | ProxyConnectFailed \<Rightarrow> (''proxy_connect_failed'', ''Could not establish a tunnel through the configured proxy'')
      | ProxyTlsFailed \<Rightarrow> (''proxy_tls_failed'', ''Could not establish a verified TLS connection to the HTTP proxy'')
      | ConnectFailed \<Rightarrow> (''connection_failed'', ''Could not connect to the SSH host for probing''))"

definition probed_key :: "'w ssh_library \<Rightarrow> ('w, string) ssh" where
  "probed_key lib =
     ssh_bind (ssh_ask (sl_host_key lib) SshHostKey) (\<lambda>host_key.
     case host_key of
       None \<Rightarrow> ssh_fail ''host_key_unavailable'' ''The SSH server did not present a host key''
     | Some blob \<Rightarrow>
         if blob = [] then ssh_fail ''host_key_unavailable'' ''The SSH server did not present a host key''
         else if sl_fingerprint lib blob = []
         then ssh_fail ''host_key_unavailable'' ''The SSH server did not present a supported host key''
         else ssh_return (sl_fingerprint lib blob))"

definition host_key_probe :: "'w ssh_library \<Rightarrow> 'rx target_config \<Rightarrow> int \<Rightarrow> ('w, exec_result) ssh" where
  "host_key_probe lib target timeout_seconds =
     (let late = ''SSH host-key probe timed out'' in
      if \<not> tc_probe_only target \<or> bad_timeout timeout_seconds
      then invalid_result ''The host-key probe target or timeout is invalid''
      else as_result
        (ssh_bind (ssh_ask (sl_library lib) SshLibrary) (\<lambda>ready.
         if \<not> ready then ssh_fail ''ssh_unavailable'' ''SSH library initialization failed''
         else
           ssh_bind (ssh_ask (sl_socket lib) SshSocket) (\<lambda>connection.
           case connection of
             Some failure \<Rightarrow> (case probe_connect_failure failure of (code, message) \<Rightarrow> ssh_fail code message)
           | None \<Rightarrow>
               ssh_bind (ssh_ask (sl_session lib) SshSession) (\<lambda>created.
               if \<not> created then ssh_fail ''ssh_unavailable'' ''Could not create an SSH session''
               else
                 ssh_bind (arm_or_fail lib late) (\<lambda>_.
                 ssh_bind (ssh_ask (sl_handshake lib) SshHandshake) (\<lambda>handshake.
                 case handshake of
                   Some message \<Rightarrow> fail_session lib late ''ssh_handshake_failed'' message
                 | None \<Rightarrow> probed_key lib)))))))"

subsection \<open>The operation of a request\<close>

definition run_file_operation :: "'w ssh_library \<Rightarrow> int \<Rightarrow> exec_request \<Rightarrow> ('w, exec_result) ssh" where
  "run_file_operation lib stage_nonce request =
     (let operation = er_operation request; path = er_path request; t = er_timeout_seconds request in
      if operation = ''sftp_list'' then as_result (sftp_list lib path t)
      else if operation = ''sftp_stat'' then as_result (sftp_stat lib path t)
      else if operation = ''sftp_lstat_optional'' then as_result (sftp_lstat_optional lib path t)
      else if operation = ''sftp_create_dir'' then as_result (sftp_create_dir lib path t)
      else if operation = ''sftp_publish_no_replace''
      then as_result (sftp_publish_no_replace lib (er_source_path request) (er_destination_path request) t)
      else if operation = ''sftp_read'' then as_result (sftp_read lib path (er_max_bytes request) t)
      else if operation = ''sftp_write'' then as_result (sftp_write lib path (er_content request) t)
      else if operation = ''sftp_create_exclusive'' then as_result (sftp_create_exclusive lib path (er_content request) t)
      else if operation = ''sftp_remove_file'' then as_result (sftp_remove_file lib path t)
      else if operation = ''sftp_replace_guarded'' then as_result (sftp_replace_guarded lib stage_nonce request)
      else if operation = ''sftp_link_count'' then sftp_link_count lib path t
      else ssh_return (failed_result ''unsupported_operation'' ''The requested structured SSH operation is not enabled''))"

definition run_system_operation ::
  "'w ssh_library \<Rightarrow> ('rx \<Rightarrow> string \<Rightarrow> bool option) \<Rightarrow> snapshot_probe list \<Rightarrow> 'rx target_config \<Rightarrow> exec_request \<Rightarrow>
     (('w, exec_result) ssh) option" where
  "run_system_operation lib search probes target request =
     (let operation = er_operation request; t = er_timeout_seconds request in
      if operation = ''service_status'' then Some (service_status lib (er_service request) t)
      else if operation = ''disk_usage'' then Some (disk_usage lib target t)
      else if operation = ''server_exec'' then Some (server_exec_operation lib search target request)
      else if operation = ''connection_check'' then Some (connection_check lib target t)
      else if operation = ''system_snapshot'' then Some (system_snapshot lib probes target (er_nonce request) t)
      else if operation = ''docker_ps'' then Some (docker_ps lib target (er_include_all_containers request) t)
      else if operation = ''docker_logs'' then Some (docker_logs lib target (er_container request) (er_tail request) t)
      else if operation = ''docker_inspect'' then Some (docker_inspect lib target (er_container request) t)
      else if operation = ''systemd_inspect'' then Some (systemd_inspect lib target (er_unit request) t)
      else if operation = ''package_inspect''
      then Some (package_inspect lib target (er_package_manager request) (er_package request) t)
      else if operation = ''docker_restart''
      then Some (docker_restart lib target (er_container request) (er_grace_period_seconds request) t)
      else if operation = ''systemd_restart'' then Some (systemd_restart lib target (er_unit request) t)
      else if operation = ''package_install''
      then Some (package_install lib target (er_package_manager request) (er_package request) (er_package_version request) t)
      else if operation = ''service_inventory'' then Some (service_inventory lib t)
      else if operation = ''process_inventory'' then Some (process_inventory lib t)
      else if operation = ''port_inventory'' then Some (port_inventory lib t)
      else if operation = ''server_logs'' then Some (server_logs lib (er_since_seconds request) (er_unit request) t)
      else None)"

definition run_operation ::
  "'w ssh_library \<Rightarrow> ('rx \<Rightarrow> string \<Rightarrow> bool option) \<Rightarrow> snapshot_probe list \<Rightarrow> int \<Rightarrow> 'rx target_config \<Rightarrow> exec_request \<Rightarrow>
     ('w, exec_result) ssh" where
  "run_operation lib search probes stage_nonce target request =
     (if tc_probe_only target then
        if er_operation request \<noteq> ''host_key_probe''
        then ssh_return (failed_result ''operation_not_allowed'' ''Probe-only targets allow only host_key_probe'')
        else host_key_probe lib target (er_timeout_seconds request)
      else if er_operation request = ''host_key_probe''
      then ssh_return (failed_result ''operation_not_allowed'' ''host_key_probe requires a probe-only target'')
      else case run_system_operation lib search probes target request of
          Some m \<Rightarrow> m
        | None \<Rightarrow> run_file_operation lib stage_nonce request)"

end
