(* ===== verification/SshCommandProps.thy ===== *)
theory SshCommandProps
  imports SshOperations ShellWords
begin

text \<open>
  What the commands of the structured operations mean to the shell of the server.
\<close>

subsection \<open>Names and quoted values\<close>

lemma container_plain: "valid_container_ref c \<Longrightarrow> CHR 0x27 \<notin> set c"
  by (cases c) (auto simp: valid_container_ref_def list_all_iff byte_class_defs split: if_splits)

lemma unit_plain: "\<not> bad_unit u \<Longrightarrow> CHR 0x27 \<notin> set u"
  by (cases u) (auto simp: bad_unit_def valid_service_name_def ident_def list_all_iff byte_class_defs split: if_splits)

lemma decimal_plain: "list_all shell_plain (decimal n)"
  using decimal_digits by (fastforce simp: list_all_iff shell_plain_def)

lemmas shell_reading = shell_word_plain [OF decimal_plain] shell_word_in_quotes shell_plain_def byte_class_defs shell_words_numeral

text \<open>C25: A name in a command is one argument of the program the operation is about.  For every
  container and unit that passes the validation of the operation, the shell splits the command into exactly the
  fixed words and the name: nothing in a name can end the argument, add an option or start another command.\<close>

theorem structured_arguments:
  assumes "valid_container_ref container" "\<not> bad_unit unit_name"
  shows "shell_words 7 (docker_logs_command container n) =
      Some ([''docker'', ''logs'', ''--tail'', decimal n, ''--timestamps'', ''--'', container], ''2>&1'') \<and>
    shell_words 6 (docker_inspect_command container) =
      Some ([''docker'', ''inspect'', ''--format'', ''{{json .}}'', ''--'', container], ''2>/dev/null'') \<and>
    shell_words 6 (docker_restart_command container n) =
      Some ([''docker'', ''restart'', ''--time'', decimal n, ''--'', container], ''2>&1'') \<and>
    shell_words 7 (systemd_inspect_command unit_name) =
      Some ([''systemctl'', ''show'', ''--no-pager'', ''--property=LoadState,ActiveState,SubState,Description'', ''--value'',
        ''--'', unit_name], ''2>&1'') \<and>
    shell_words 6 (systemd_restart_command unit_name) =
      Some ([''systemctl'', ''restart'', ''--no-ask-password'', ''--wait'', ''--'', unit_name], ''2>&1'')"
proof (intro conjI)
  note names = container_plain [OF assms(1)] unit_plain [OF assms(2)]
  show "shell_words 7 (docker_logs_command container n) =
      Some ([''docker'', ''logs'', ''--tail'', decimal n, ''--timestamps'', ''--'', container], ''2>&1'')"
    using names by (simp add: docker_logs_command_def shell_reading)
  show "shell_words 6 (docker_inspect_command container) =
      Some ([''docker'', ''inspect'', ''--format'', ''{{json .}}'', ''--'', container], ''2>/dev/null'')"
    using names by (simp add: docker_inspect_command_def json_format_def shell_reading)
  show "shell_words 6 (docker_restart_command container n) =
      Some ([''docker'', ''restart'', ''--time'', decimal n, ''--'', container], ''2>&1'')"
    using names by (simp add: docker_restart_command_def shell_reading)
  show "shell_words 7 (systemd_inspect_command unit_name) =
      Some ([''systemctl'', ''show'', ''--no-pager'', ''--property=LoadState,ActiveState,SubState,Description'', ''--value'',
        ''--'', unit_name], ''2>&1'')"
    using names by (simp add: systemd_inspect_command_def shell_reading)
  show "shell_words 6 (systemd_restart_command unit_name) =
      Some ([''systemctl'', ''restart'', ''--no-ask-password'', ''--wait'', ''--'', unit_name], ''2>&1'')"
    using names by (simp add: systemd_restart_command_def shell_reading)
qed

lemma structured_arguments_witness:
  "shell_words 6 (docker_restart_command ''web-1'' 30) =
    Some ([''docker'', ''restart'', ''--time'', decimal 30, ''--'', ''web-1''], ''2>&1'')"
  using structured_arguments [of "''web-1''" "''ssh.service''" 30]
  by (simp add: valid_container_ref_def bad_unit_def valid_service_name_def ident_def byte_class_defs ends_with_def)

subsection \<open>Command execution\<close>

text \<open>The words of a \<^verbatim>\<open>server_exec\<close> command behind the change of directory.\<close>

definition exec_words :: "exec_request \<Rightarrow> string list" where
  "exec_words request =
     (if er_environment request = [] then [] else ''env'' # map (\<lambda>(key, v). key @ ''='' @ v) (er_environment request)) @
     [''/bin/sh'', ''-c'', er_command request]"

lemma allowed_plain: "key \<in> set allowed_environment \<Longrightarrow> list_all shell_plain key"
  by (auto simp: allowed_environment_def shell_plain_def byte_class_defs)

lemma assignment_word:
  assumes "list_all shell_plain key"
  shows "shell_word Plain (key @ CHR ''='' # shell_single_quote v @ CHR '' '' # rest) = Some (key @ CHR ''='' # v, rest)"
proof -
  have "list_all shell_plain (key @ [CHR ''=''])" using assms by (simp add: shell_plain_def byte_class_defs)
  from shell_word_plain_append [OF this, of "shell_single_quote v @ CHR '' '' # rest"]
  show ?thesis using shell_single_quote_word [of v rest] by simp
qed

lemma environment_read:
  assumes "list_all (\<lambda>(key, v). list_all shell_plain key) environment"
  shows "shell_words (length environment) (tl (environment_words environment @ CHR '' '' # rest)) =
    Some (map (\<lambda>(key, v). key @ ''='' @ v) environment, rest)"
  using assms
proof (induction environment)
  case (Cons x environment)
  obtain key v where x: "x = (key, v)" by (cases x)
  have next_word: "environment_words environment @ CHR '' '' # rest = CHR '' '' # tl (environment_words environment @ CHR '' '' # rest)"
    by (cases environment) auto
  have "shell_word Plain (key @ CHR ''='' # shell_single_quote v @ environment_words environment @ CHR '' '' # rest) =
      Some (key @ CHR ''='' # v, tl (environment_words environment @ CHR '' '' # rest))"
    using assignment_word [of key v "tl (environment_words environment @ CHR '' '' # rest)"] Cons.prems next_word
    by (simp add: x)
  then show ?case using Cons by (simp add: x)
qed simp

lemma shell_end_words:
  "shell_words 3 (''/bin/sh -c '' @ shell_single_quote command) = Some ([''/bin/sh'', ''-c'', command], [])"
  by (simp add: shell_reading shell_word_last)

text \<open>C7: A one-shot command runs as it was approved.  The shell of the server reads the command the
  service sends as: change to exactly the requested directory, and only then start, with exactly the requested
  variables, one \<^verbatim>\<open>/bin/sh -c\<close> whose script is exactly the approved command, whatever characters the three contain.\<close>

theorem server_exec_words:
  assumes "list_all (\<lambda>(key, v). key \<in> set allowed_environment) (er_environment request)"
  shows "let script = server_exec_command (request\<lparr>er_workdir := []\<rparr>) in
    shell_words (length (exec_words request)) script = Some (exec_words request, []) \<and>
    (if er_workdir request = [] then server_exec_command request = script
     else shell_words 2 (server_exec_command request) = Some ([''cd'', er_workdir request], ''&& '' @ script))"
proof -
  let ?script = "server_exec_command (request\<lparr>er_workdir := []\<rparr>)"
  have plain: "list_all (\<lambda>(key, v). list_all shell_plain key) (er_environment request)"
    using assms allowed_plain by (auto simp: list_all_iff)
  have script: "shell_words (length (exec_words request)) ?script = Some (exec_words request, [])"
  proof (cases "er_environment request = []")
    case True
    then have "?script = ''/bin/sh -c '' @ shell_single_quote (er_command request)"
      "exec_words request = [''/bin/sh'', ''-c'', er_command request]" "length (exec_words request) = 3"
      by (simp_all add: server_exec_command_def exec_words_def)
    then show ?thesis by (simp only: shell_end_words)
  next
    case False
    let ?tail = "''/bin/sh -c '' @ shell_single_quote (er_command request)"
    let ?env = "er_environment request"
    define rest where "rest = tl (environment_words ?env @ CHR '' '' # ?tail)"
    have "environment_words ?env @ CHR '' '' # ?tail = CHR '' '' # rest"
      using False unfolding rest_def by (cases ?env) auto
    then have script: "?script = ''env'' @ CHR '' '' # rest"
      using False by (simp add: server_exec_command_def)
    have first: "shell_word Plain (''env'' @ CHR '' '' # rest) = Some (''env'', rest)"
      by (rule shell_word_plain) (simp add: shell_plain_def byte_class_defs)
    have others: "shell_words (length ?env + 3) rest =
        Some (map (\<lambda>(key, v). key @ ''='' @ v) ?env @ [''/bin/sh'', ''-c'', er_command request], [])"
      using shell_words_append [OF environment_read [OF plain, of ?tail], of 3] shell_end_words [of "er_command request"]
      unfolding rest_def by simp
    have "length (exec_words request) = Suc (length ?env + 3)" using False by (simp add: exec_words_def)
    then have "shell_words (length (exec_words request)) ?script =
        Some (''env'' # map (\<lambda>(key, v). key @ ''='' @ v) ?env @ [''/bin/sh'', ''-c'', er_command request], [])"
      unfolding script by (simp only: shell_words.simps first option.case prod.case others) simp
    then show ?thesis using False by (simp add: exec_words_def)
  qed
  moreover have "server_exec_command request = ''cd '' @ shell_single_quote (er_workdir request) @ '' && '' @ ?script"
    if "er_workdir request \<noteq> []"
    using that by (simp add: server_exec_command_def)
  ultimately show ?thesis
    using shell_single_quote_word [of "er_workdir request" "''&& '' @ ?script"]
    by (auto simp: Let_def shell_reading server_exec_command_def)
qed

lemma server_exec_words_witness:
  "shell_words 6 (server_exec_command (default_request\<lparr>er_command := ''echo a; b'', er_environment := [(''LANG'', ''C''), (''TZ'', ''x y'')]\<rparr>)) =
    Some ([''env'', ''LANG=C'', ''TZ=x y'', ''/bin/sh'', ''-c'', ''echo a; b''], [])"
proof -
  define r where "r = default_request\<lparr>er_command := ''echo a; b'', er_environment := [(''LANG'', ''C''), (''TZ'', ''x y'')]\<rparr>"
  have words: "exec_words r = [''env'', ''LANG=C'', ''TZ=x y'', ''/bin/sh'', ''-c'', ''echo a; b'']"
    and six: "length (exec_words r) = 6" and same: "r\<lparr>er_workdir := []\<rparr> = r"
    by (simp_all add: r_def exec_words_def default_request_def)
  have "list_all (\<lambda>(key, v). key \<in> set allowed_environment) (er_environment r)"
    by (simp add: r_def allowed_environment_def)
  from server_exec_words [OF this] have "shell_words (length (exec_words r)) (server_exec_command r) = Some (exec_words r, [])"
    by (simp add: Let_def same)
  from this [unfolded six, unfolded words] show ?thesis unfolding r_def .
qed

end
