(* ===== verification/SshExecProps.thy ===== *)
theory SshExecProps
  imports SshReplaceProps SshOperations "HOL-Library.Sublist"
begin

text \<open>
  Every run of a command: what of its output is in the result, and which commands the operations run at all.
\<close>

subsection \<open>The collected output\<close>

text \<open>The bytes of a stream that were read.\<close>

fun received :: "bool \<Rightarrow> ssh_event list \<Rightarrow> string" where
  "received err [] = []"
| "received err (SshDrain err' chunks failed # es) = (if err' = err then concat chunks else []) @ received err es"
| "received err (_ # es) = received err es"

lemma received_append: "received err (a @ b) = received err a @ received err b"
  by (induction err a rule: received.induct) auto

definition kept :: "bool \<Rightarrow> exec_result \<Rightarrow> string" where
  "kept err x = (if err then xr_stderr x else xr_stdout x)"

definition truncated :: "bool \<Rightarrow> exec_result \<Rightarrow> bool" where
  "truncated err x = (if err then xr_stderr_truncated x else xr_stdout_truncated x)"

definition room :: "bool \<Rightarrow> bool \<Rightarrow> collected \<Rightarrow> nat" where
  "room preserve err s =
     (if preserve then cs_combined s else if err then cs_stderr_remaining s else cs_stdout_remaining s)"

text \<open>
  The result holds a prefix of each stream, the whole of it unless the stream is marked as truncated and there
  is no room left; what was kept and what may still be kept add up to the limit.
\<close>

definition collecting :: "bool \<Rightarrow> nat \<Rightarrow> (bool \<Rightarrow> string) \<Rightarrow> collected \<Rightarrow> bool" where
  "collecting preserve maximum seen s \<longleftrightarrow>
     (\<forall>err. prefix (kept err (cs_result s)) (seen err) \<and>
        (truncated err (cs_result s) \<longleftrightarrow> kept err (cs_result s) \<noteq> seen err) \<and>
        (truncated err (cs_result s) \<longrightarrow> room preserve err s = 0)) \<and>
     (if preserve
      then length (kept False (cs_result s)) + length (kept True (cs_result s)) + cs_combined s = maximum
      else \<forall>err. length (kept err (cs_result s)) + room preserve err s = maximum)"

lemma collect_chunk_effect:
  assumes "collect_chunk preserve err chunk s = (s', whole)"
  shows "kept e (cs_result s') =
      (if e = err then kept err (cs_result s) @ take (room preserve err s) chunk else kept e (cs_result s)) \<and>
    truncated e (cs_result s') = (truncated e (cs_result s) \<or> e = err \<and> \<not> whole) \<and>
    room preserve e s' = (if preserve \<or> e = err then room preserve err s - length chunk else room preserve e s) \<and>
    (preserve \<longrightarrow> cs_combined s' = cs_combined s - length chunk) \<and>
    (whole \<longleftrightarrow> length chunk \<le> room preserve err s)"
  using assms unfolding collect_chunk_def append_output_def kept_def truncated_def room_def Let_def
  by (cases preserve; cases err; cases e; cases "length chunk \<le> room preserve err s")
    (auto simp: room_def min_def split: if_splits)

lemma collect_chunk_step:
  assumes inv: "collecting preserve maximum seen s" and step: "collect_chunk preserve err chunk s = (s', whole)"
    and chunk: "chunk \<noteq> []"
  shows "collecting preserve maximum (seen(err := seen err @ chunk)) s'"
proof -
  note effect = collect_chunk_effect [OF step]
  let ?k = "kept err (cs_result s)" and ?r = "room preserve err s"
  have old: "prefix ?k (seen err)" "truncated err (cs_result s) \<longleftrightarrow> ?k \<noteq> seen err" "truncated err (cs_result s) \<longrightarrow> ?r = 0"
    using inv by (auto simp: collecting_def)
  have own: "prefix (?k @ take ?r chunk) (seen err @ chunk) \<and>
      ((truncated err (cs_result s) \<or> \<not> whole) \<longleftrightarrow> ?k @ take ?r chunk \<noteq> seen err @ chunk) \<and>
      ((truncated err (cs_result s) \<or> \<not> whole) \<longrightarrow> ?r - length chunk = 0)"
  proof (cases "truncated err (cs_result s)")
    case True
    then have r: "?r = 0" and k: "?k \<noteq> seen err" using old by auto
    have "length ?k \<le> length (seen err)" using old(1) by (rule prefix_length_le)
    then have "?k \<noteq> seen err @ chunk" using chunk by auto
    then show ?thesis using old(1) True r by (simp add: prefix_order.trans [OF _ prefixI [OF refl]])
  next
    case False
    then have "?k = seen err" using old by simp
    have whole: "whole \<longleftrightarrow> length chunk \<le> ?r" using effect [of err] by blast
    show ?thesis
    proof (cases whole)
      case True
      then show ?thesis using whole False \<open>?k = seen err\<close> by simp
    next
      case False
      then have "length (take ?r chunk) < length chunk" using whole by simp
      then have "take ?r chunk \<noteq> chunk" by auto
      then show ?thesis using whole False \<open>?k = seen err\<close> by (simp add: take_is_prefix)
    qed
  qed
  have sums: "if preserve then length (kept False (cs_result s')) + length (kept True (cs_result s')) + cs_combined s' = maximum
      else \<forall>e. length (kept e (cs_result s')) + room preserve e s' = maximum"
  proof (cases preserve)
    case True
    then have "?r = cs_combined s" "length (kept False (cs_result s)) + length (kept True (cs_result s)) + cs_combined s = maximum"
      using inv by (simp_all add: room_def collecting_def)
    moreover have "length (kept err (cs_result s')) = length ?k + min (length chunk) ?r"
      "kept (\<not> err) (cs_result s') = kept (\<not> err) (cs_result s)" "cs_combined s' = cs_combined s - length chunk"
      using effect [of err] effect [of "\<not> err"] True by (simp_all add: min.commute)
    ultimately show ?thesis using True by (cases err) auto
  next
    case False
    have "length (kept e (cs_result s')) + room preserve e s' = length (kept e (cs_result s)) + room preserve e s" for e
      using effect [of e] False by (cases "e = err") auto
    then show ?thesis using inv False by (simp add: collecting_def)
  qed
  show ?thesis
    unfolding collecting_def
  proof (intro conjI allI sums)
    fix e
    have kept_e: "kept e (cs_result s') = (if e = err then ?k @ take ?r chunk else kept e (cs_result s))"
      and truncated_e: "truncated e (cs_result s') = (truncated e (cs_result s) \<or> e = err \<and> \<not> whole)"
      and room_e: "room preserve e s' = (if preserve \<or> e = err then ?r - length chunk else room preserve e s)"
      using effect [of e] by blast+
    have inv_e: "prefix (kept e (cs_result s)) (seen e)" "truncated e (cs_result s) \<longleftrightarrow> kept e (cs_result s) \<noteq> seen e"
      "truncated e (cs_result s) \<longrightarrow> room preserve e s = 0"
      using inv unfolding collecting_def by blast+
    have shared: "preserve \<Longrightarrow> room preserve e s = ?r" by (simp add: room_def)
    show "prefix (kept e (cs_result s')) ((seen(err := seen err @ chunk)) e)"
      unfolding kept_e using own inv_e(1) by (cases "e = err") simp_all
    show "truncated e (cs_result s') \<longleftrightarrow> kept e (cs_result s') \<noteq> (seen(err := seen err @ chunk)) e"
      unfolding kept_e truncated_e using own inv_e(2) by (cases "e = err") simp_all
    show "truncated e (cs_result s') \<longrightarrow> room preserve e s' = 0"
      unfolding room_e truncated_e using own inv_e(3) shared by (cases "e = err"; cases preserve) simp_all
  qed
qed

lemma collecting_more:
  assumes "collecting preserve maximum seen s" "truncated err (cs_result s)"
  shows "collecting preserve maximum (seen(err := seen err @ more_bytes)) s"
proof -
  have "kept err (cs_result s) \<noteq> seen err @ more_bytes"
    using assms by (auto simp: collecting_def dest!: spec [of _ err] dest: prefix_length_le)
  moreover have "prefix (kept err (cs_result s)) (seen err @ more_bytes)"
    using assms by (auto simp: collecting_def intro: prefix_prefix)
  ultimately show ?thesis using assms by (auto simp: collecting_def)
qed

lemma collect_chunks_step:
  assumes "collecting preserve maximum seen s" "collect_chunks preserve err chunks s = (s', over)" "[] \<notin> set chunks"
  shows "collecting preserve maximum (seen(err := seen err @ concat chunks)) s'"
  using assms
proof (induction preserve err chunks s arbitrary: seen rule: collect_chunks.induct)
  case (1 preserve err s)
  then show ?case by simp
next
  case (2 preserve err chunk chunks s)
  obtain s1 whole where one: "collect_chunk preserve err chunk s = (s1, whole)" by (cases "collect_chunk preserve err chunk s")
  have inv: "collecting preserve maximum (seen(err := seen err @ chunk)) s1"
    using collect_chunk_step [OF "2.prems"(1) one] "2.prems"(3) by auto
  show ?case
  proof (cases "whole \<or> preserve")
    case True
    from True "2.prems"(2) one have "collect_chunks preserve err chunks s1 = (s', over)" by simp
    from "2.IH" [OF one [symmetric] True inv this] "2.prems"(3) show ?thesis
      by (simp only: fun_upd_same fun_upd_upd append.assoc concat.simps list.set insert_iff de_Morgan_disj simp_thms)
  next
    case False
    then have "s' = s1" "truncated err (cs_result s1)" using "2.prems"(2) one collect_chunk_effect [OF one, of err] by auto
    then show ?thesis using collecting_more [OF inv, of err "concat chunks"]
      by (simp only: fun_upd_same fun_upd_upd append.assoc concat.simps)
  qed
qed

lemma traced_drain:
  assumes "traced (drain lib err) r es"
  obtains chunks failed where "r = Inr (chunks, failed)" "es = [SshDrain err chunks failed]" "[] \<notin> set chunks"
proof -
  obtain w w' where "drain lib err w = (r, w', es)" using assms by (auto simp: traced_def)
  then show thesis
    using that by (cases "sl_drain lib err w") (auto simp: drain_def ssh_ask_def split: prod.splits)
qed

fun is_exec :: "ssh_event \<Rightarrow> bool" where
  "is_exec (SshExec command started) = True"
| "is_exec _ = False"

abbreviation seen_after :: "(bool \<Rightarrow> string) \<Rightarrow> ssh_event list \<Rightarrow> bool \<Rightarrow> string" where
  "seen_after seen es \<equiv> (\<lambda>err. seen err @ received err es)"

lemma traced_collect_stream:
  assumes "traced (collect_stream lib preserve err s) r es" "collecting preserve maximum seen s"
  obtains x where "r = Inr x" "list_all looking es"
    "collecting preserve maximum (seen_after seen es) (case x of Inl (s', _) \<Rightarrow> s' | Inr (s', _) \<Rightarrow> s')"
    "\<And>s' failure. x = Inr (s', failure) \<Longrightarrow> failure \<noteq> None"
  using assms(1) unfolding collect_stream_def
proof (cases rule: traced_bindE)
  case (stop e)
  then show thesis by (auto elim: traced_drain)
next
  case (go drained es1 es2)
  obtain chunks failed where d: "drained = (chunks, failed)" "es1 = [SshDrain err chunks failed]" "[] \<notin> set chunks"
    using go(1) by (auto elim: traced_drain)
  obtain s' over where c: "collect_chunks preserve err chunks s = (s', over)" by (cases "collect_chunks preserve err chunks s")
  have "(seen(err := seen err @ concat chunks)) = seen_after seen es1" by (auto simp: d)
  then have inv: "collecting preserve maximum (seen_after seen es1) s'"
    using collect_chunks_step [OF assms(2) c d(3)] by simp
  show thesis
    using go(2,3) d c inv by (intro that) (auto simp: traced_simps split: if_splits)
qed

lemma traced_collect_round:
  assumes "traced (collect_round lib preserve s) r es" "collecting preserve maximum seen s"
  obtains x where "r = Inr x" "list_all looking es"
    "collecting preserve maximum (seen_after seen es) (case x of Inl s' \<Rightarrow> s' | Inr (s', _) \<Rightarrow> s')"
    "\<And>s' failure. x = Inr (s', failure) \<Longrightarrow> failure \<noteq> None"
  using assms(1) unfolding collect_round_def
proof (cases rule: traced_bindE)
  case (stop e)
  then show thesis by (auto elim: traced_collect_stream [OF _ assms(2)])
next
  case (go first es1 es2)
  have one: "list_all looking es1" "collecting preserve maximum (seen_after seen es1) (case first of Inl (s', _) \<Rightarrow> s' | Inr (s', _) \<Rightarrow> s')"
    "\<And>s' failure. first = Inr (s', failure) \<Longrightarrow> failure \<noteq> None"
    using go(1) by (auto elim!: traced_collect_stream [OF _ assms(2)])
  show thesis
  proof (cases first)
    case (Inr stopped)
    then show thesis using that [of "Inr stopped"] go one by (simp add: traced_simps)
  next
    case (Inl a)
    obtain s1 progress1 where a: "a = (s1, progress1)" by (cases a)
    have inv1: "collecting preserve maximum (seen_after seen es1) s1" using one(2) Inl a by simp
    from go(2) [unfolded Inl a sum.case prod.case] show thesis
    proof (cases rule: traced_bindE)
      case (stop e)
      then show thesis by (auto elim: traced_collect_stream [OF _ inv1])
    next
      case (go second es3 es4)
      have two: "list_all looking es3"
        "collecting preserve maximum (seen_after seen (es1 @ es3)) (case second of Inl (s', _) \<Rightarrow> s' | Inr (s', _) \<Rightarrow> s')"
        "\<And>s' failure. second = Inr (s', failure) \<Longrightarrow> failure \<noteq> None"
        using go(1) by (auto elim!: traced_collect_stream [OF _ inv1] simp: received_append)
      show thesis
      proof (cases second)
        case (Inr stopped)
        then show thesis using that [of "Inr stopped"] go \<open>es = es1 @ es2\<close> one two by (simp add: traced_simps received_append)
      next
        case (Inl b)
        obtain s2 progress2 where b: "b = (s2, progress2)" by (cases b)
        have rest: "\<exists>x. r = Inr x \<and> list_all looking es4 \<and> received False es4 = [] \<and> received True es4 = [] \<and>
            (x = Inl s2 \<or> x = Inr (s2, Some unknown_timeout))"
          using go(2) unfolding Inl b sum.case prod.case
          by (auto simp: traced_simps elim!: traced_bindE traced_askE split: if_splits)
        then obtain x where x: "r = Inr x" "list_all looking es4" "\<And>err. received err es4 = []"
          "x = Inl s2 \<or> x = Inr (s2, Some unknown_timeout)"
          by (metis (full_types))
        show thesis
          using x two one Inl b \<open>es = es1 @ es2\<close> go(3) by (intro that [OF x(1)]) (auto simp: received_append)
      qed
    qed
  qed
qed

lemma traced_collect:
  assumes "traced (collect lib preserve rounds s) r es" "collecting preserve maximum seen s"
  shows "\<exists>s' failure. r = Inr (s', failure) \<and> list_all looking es \<and> collecting preserve maximum (seen_after seen es) s' \<and>
    (failure = None \<longrightarrow> (\<exists>front. es = front @ [SshEof True]))"
  using assms
proof (induction rounds arbitrary: s seen r es)
  case 0
  then show ?case
    by (subst (asm) collect.simps) (auto simp: traced_simps elim!: traced_bindE traced_askE split: if_splits)
next
  case (Suc rounds)
  from Suc.prems(1) show ?case
    unfolding collect.simps [of lib preserve "Suc rounds"]
  proof (cases rule: traced_bindE)
    case (stop e)
    then show ?thesis by (auto elim: traced_askE)
  next
    case (go at_end es1 es2)
    have first: "es1 = [SshEof at_end]" using go(1) by (auto elim: traced_askE)
    show ?thesis
    proof (cases at_end)
      case True
      then show ?thesis using go first Suc.prems(2) by (simp add: traced_simps)
    next
      case False
      from go(2) [unfolded if_not_P [OF False] nat.case] show ?thesis
      proof (cases rule: traced_bindE)
        case (stop e)
        then show ?thesis by (auto elim: traced_collect_round [OF _ Suc.prems(2)])
      next
        case (go x es3 es4)
        have round: "list_all looking es3"
          "collecting preserve maximum (seen_after seen es3) (case x of Inl s' \<Rightarrow> s' | Inr (s', _) \<Rightarrow> s')"
          "\<And>s' failure. x = Inr (s', failure) \<Longrightarrow> failure \<noteq> None"
          using go(1) by (auto elim!: traced_collect_round [OF _ Suc.prems(2)])
        show ?thesis
        proof (cases x)
          case (Inr stopped)
          then show ?thesis using go round first \<open>es = es1 @ es2\<close> by (cases stopped) (auto simp: traced_simps)
        next
          case (Inl s1)
          then show ?thesis using Suc.IH [of s1 r es4 "seen_after seen es3"] go round first \<open>es = es1 @ es2\<close>
            by (auto simp: received_append)
        qed
      qed
    qed
  qed
qed

lemma collecting_start: "collecting preserve maximum (\<lambda>err. []) (collected_start maximum)"
  by (auto simp: collecting_def collected_start_def empty_result_def kept_def truncated_def room_def)

subsection \<open>Runs of a command\<close>

definition only_starts :: "string \<Rightarrow> ssh_event list \<Rightarrow> bool" where
  "only_starts command es \<longleftrightarrow> filter is_exec es \<in> {[], [SshExec command True], [SshExec command False]} \<and>
     list_all (\<lambda>e. looking e \<or> is_exec e) es"

lemma looking_no_exec: "list_all looking es \<Longrightarrow> filter is_exec es = []"
  by (induction es) (auto elim: is_exec.elims)

lemma looking_only_starts: "list_all looking es \<Longrightarrow> only_starts command es"
  by (auto simp: only_starts_def looking_no_exec list_all_iff)

lemma looking_received: "list_all (\<lambda>e. looking e \<and> \<not> (\<exists>err chunks failed. e = SshDrain err chunks failed)) es \<Longrightarrow> received err es = []"
  by (induction err es rule: received.induct) auto

lemma traced_connect_shape:
  assumes "traced (ssh_connect lib) r es"
  shows "\<exists>x. es = [SshConnect x]"
  using assms unfolding ssh_connect_def
  by (auto simp: traced_simps elim!: traced_bindE traced_askE split: option.splits)

lemma traced_session_shape:
  assumes "traced (fail_session lib late code message) r es"
  shows "\<exists>e b. r = Inl e \<and> es = [SshTimedOut b]"
  using assms unfolding fail_session_def
  by (auto simp: traced_simps elim!: traced_bindE traced_askE split: if_splits)

lemma traced_start_command:
  assumes "traced (start_command lib command) r es"
  shows "only_starts command es \<and> (\<forall>err. received err es = []) \<and> (\<forall>u. r = Inr u \<longrightarrow> SshExec command True \<in> set es)"
  using assms unfolding start_command_def arm_def
  by (auto simp: traced_simps only_starts_def elim!: traced_bindE traced_askE
    dest!: traced_arm_or_fail traced_connect_shape traced_session_shape split: if_splits)

text \<open>What a result says of a run: prefixes of what was received, cut only at the limit, and a code only from the server.\<close>

definition faithful_result :: "bool \<Rightarrow> nat \<Rightarrow> exec_result \<Rightarrow> ssh_event list \<Rightarrow> bool" where
  "faithful_result preserve maximum x es \<longleftrightarrow>
     prefix (xr_stdout x) (received False es) \<and> prefix (xr_stderr x) (received True es) \<and>
     (xr_stdout_truncated x \<longleftrightarrow> xr_stdout x \<noteq> received False es) \<and>
     (xr_stderr_truncated x \<longleftrightarrow> xr_stderr x \<noteq> received True es) \<and>
     length (xr_stdout x) \<le> maximum \<and> length (xr_stderr x) \<le> maximum \<and>
     (if preserve then length (xr_stdout x) + length (xr_stderr x) \<le> maximum else True) \<and>
     (case xr_outcome x of
        Inl e \<Rightarrow> True
      | Inr status \<Rightarrow>
          (\<exists>front. es = front @ [SshEof True, SshExitStatus (Some status)]) \<and>
          (preserve \<or> xr_stdout x = received False es \<and> xr_stderr x = received True es))"

lemma collected_faithful:
  assumes inv: "collecting preserve maximum (\<lambda>err. received err es) s"
  shows "faithful_result preserve maximum (finish_result preserve (s, Some f) None) es"
    and "\<exists>front. es = front @ [SshEof True] \<Longrightarrow>
      faithful_result preserve maximum (finish_result preserve (s, None) exit_status) (es @ [SshExitStatus exit_status])"
proof -
  have prefixes: "prefix (xr_stdout (cs_result s)) (received False es)" "prefix (xr_stderr (cs_result s)) (received True es)"
    and cuts: "xr_stdout_truncated (cs_result s) \<longleftrightarrow> xr_stdout (cs_result s) \<noteq> received False es"
      "xr_stderr_truncated (cs_result s) \<longleftrightarrow> xr_stderr (cs_result s) \<noteq> received True es"
    using inv by (auto simp: collecting_def kept_def truncated_def all_bool_eq)
  have sizes: "length (xr_stdout (cs_result s)) \<le> maximum" "length (xr_stderr (cs_result s)) \<le> maximum"
    "preserve \<Longrightarrow> length (xr_stdout (cs_result s)) + length (xr_stderr (cs_result s)) \<le> maximum"
    using inv by (auto simp: collecting_def kept_def all_bool_eq split: if_splits)
  show "faithful_result preserve maximum (finish_result preserve (s, Some f) None) es"
    using prefixes cuts sizes
    by (auto simp: faithful_result_def finish_result_def received_append split: option.splits prod.splits)
  show "faithful_result preserve maximum (finish_result preserve (s, None) exit_status) (es @ [SshExitStatus exit_status])"
    if "\<exists>front. es = front @ [SshEof True]"
    using prefixes cuts sizes that
    by (auto simp: faithful_result_def finish_result_def received_append output_truncated_def split: option.splits)
qed

lemma traced_command:
  assumes "traced (run_ssh_command_with_limits lib command maximum preserve) r es"
  shows "\<exists>x. r = Inr x \<and> faithful_result preserve maximum x es \<and> only_starts command es"
  using assms unfolding run_ssh_command_with_limits_def
proof (cases rule: traced_bindE)
  case (stop e)
  then show ?thesis by (auto elim!: traced_resultE)
next
  case (go started es1 es2)
  have "traced (start_command lib command) started es1" using go(1) by (auto elim: traced_resultE)
  note start = traced_start_command [OF this]
  show ?thesis
  proof (cases started)
    case (Inl e)
    then show ?thesis using go start
      by (auto simp: traced_simps faithful_result_def empty_result_def)
  next
    case (Inr u)
    from go(2) [unfolded Inr sum.case] show ?thesis
    proof (cases rule: traced_bindE)
      case (stop e)
      then show ?thesis by (auto elim: traced_lookE)
    next
      case (go rounds es3 es4)
      have es3: "es3 = []" using go(1) by (auto elim: traced_lookE)
      from go(2) show ?thesis
      proof (cases rule: traced_bindE)
        case (stop e)
        then show ?thesis using traced_collect [OF stop(2) collecting_start] by simp
      next
        case (go collection es5 es6)
        obtain s failure where c: "collection = (s, failure)" by (cases collection)
        have run: "list_all looking es5" "collecting preserve maximum (\<lambda>err. received err (es1 @ es5)) s"
          "failure = None \<longrightarrow> (\<exists>front. es5 = front @ [SshEof True])"
          using traced_collect [OF go(1) collecting_start] c start by (auto simp: received_append)
        have all: "es = (es1 @ es5) @ es6" using \<open>es = es1 @ es2\<close> \<open>es2 = es3 @ es4\<close> go(3) es3 by simp
        have starts: "only_starts command (es1 @ es5)"
          using start looking_only_starts [OF run(1)] looking_no_exec [OF run(1)] by (auto simp: only_starts_def)
        show ?thesis
        proof (cases failure)
          case (Some f)
          then have "r = Inr (finish_result preserve (s, failure) None)" "es6 = []" using go(2) c by (auto simp: traced_simps)
          then show ?thesis using collected_faithful(1) [OF run(2), of f] all starts Some by simp
        next
          case None
          then obtain status where "r = Inr (finish_result preserve (s, None) status)" "es6 = [SshExitStatus status]"
            using go(2) c by (auto simp: traced_simps elim!: traced_bindE traced_askE)
          moreover have "\<exists>front. es1 @ es5 = front @ [SshEof True]" using run(3) None by auto
          ultimately show ?thesis using collected_faithful(2) [OF run(2)] all starts
            by (auto simp: only_starts_def)
        qed
      qed
    qed
  qed
qed

text \<open>C14: The result of a command is what the server sent.  Every run starts the given command at most once and
  always returns a result; its output texts are prefixes of what was received on the two streams, marked as truncated
  exactly when something is missing, and never longer than the limit (together, when truncated output is kept); and
  an exit code is reported only after the end of the output and as the server sent it, without truncated output
  being kept, only for the complete output.\<close>

theorem command_result_faithful:
  "case run_ssh_command_with_limits lib command maximum preserve w of
     (Inl e, w', es) \<Rightarrow> False
   | (Inr x, w', es) \<Rightarrow> faithful_result preserve maximum x es \<and> only_starts command es"
proof -
  obtain r w' es where run: "run_ssh_command_with_limits lib command maximum preserve w = (r, w', es)"
    by (cases "run_ssh_command_with_limits lib command maximum preserve w")
  then have "traced (run_ssh_command_with_limits lib command maximum preserve) r es" by (auto simp: traced_def)
  from traced_command [OF this] run show ?thesis by auto
qed

end
