(* ===== verification/SshAuthority.thy ===== *)
theory SshAuthority
  imports SshExecProps
begin

text \<open>
  Which command each operation can start on the server, over all runs of \<^verbatim>\<open>run_operation\<close>.
\<close>

subsection \<open>Operations that start no command\<close>

definition never_exec :: "('w, 'a) ssh \<Rightarrow> bool" where
  "never_exec m \<longleftrightarrow> (\<forall>r es. traced m r es \<longrightarrow> filter is_exec es = [])"

named_theorems never_exec_intros

lemma never_return [never_exec_intros]: "never_exec (ssh_return x)"
  by (simp add: never_exec_def traced_simps)

lemma never_fail [never_exec_intros]: "never_exec (ssh_fail code message)"
  by (simp add: never_exec_def traced_simps)

lemma never_raise [never_exec_intros]: "never_exec (ssh_raise x)"
  by (simp add: never_exec_def traced_simps)

lemma never_bind [never_exec_intros]: "never_exec m \<Longrightarrow> (\<And>x. never_exec (f x)) \<Longrightarrow> never_exec (ssh_bind m f)"
  unfolding never_exec_def by (auto elim!: traced_bindE)

lemma never_ask [never_exec_intros]: "(\<And>a. \<not> is_exec (entry a)) \<Longrightarrow> never_exec (ssh_ask f entry)"
  unfolding never_exec_def by (auto elim!: traced_askE)

lemma never_tell [never_exec_intros]: "\<not> is_exec entry \<Longrightarrow> never_exec (ssh_tell f entry)"
  unfolding never_exec_def by (auto elim!: traced_tellE)

lemma never_result [never_exec_intros]: "never_exec m \<Longrightarrow> never_exec (ssh_result m)"
  unfolding never_exec_def by (auto elim!: traced_resultE)

lemma never_if [never_exec_intros]: "(b \<Longrightarrow> never_exec m) \<Longrightarrow> (\<not> b \<Longrightarrow> never_exec n) \<Longrightarrow> never_exec (if b then m else n)"
  by simp

lemma never_option [never_exec_intros]:
  "never_exec m \<Longrightarrow> (\<And>x. never_exec (f x)) \<Longrightarrow> never_exec (case x of None \<Rightarrow> m | Some x \<Rightarrow> f x)"
  by (simp split: option.split)

lemma never_sum [never_exec_intros]:
  "(\<And>x. never_exec (f x)) \<Longrightarrow> (\<And>x. never_exec (g x)) \<Longrightarrow> never_exec (case x of Inl x \<Rightarrow> f x | Inr x \<Rightarrow> g x)"
  by (simp split: sum.split)

lemma never_prod [never_exec_intros]: "(\<And>x y. never_exec (f x y)) \<Longrightarrow> never_exec (case p of (x, y) \<Rightarrow> f x y)"
  by (simp split: prod.split)

lemma never_readdir [never_exec_intros]:
  "(\<And>x y. never_exec (f x y)) \<Longrightarrow> never_exec m \<Longrightarrow> never_exec n \<Longrightarrow>
    never_exec (case a of Entry x y \<Rightarrow> f x y | EndOfDirectory \<Rightarrow> m | ReaddirError \<Rightarrow> n)"
  by (simp split: readdir_answer.split)

lemmas call_defs =
  ssh_connect_def arm_def arm_or_fail_def expired_def fail_late_def fail_session_def arm_cleanup_def sftp_open_def
  sftp_unlink_def sftp_lstat_def sftp_read_some_def ssh_connect_metadata_def

lemma never_calls [never_exec_intros]:
  "never_exec (ssh_connect lib)" "never_exec (arm_or_fail lib m)" "never_exec (arm lib)" "never_exec (expired lib)"
  "never_exec (fail_late lib a b c)" "never_exec (fail_session lib a b c)" "never_exec (arm_cleanup lib)"
  "never_exec (sftp_open lib p mode n)" "never_exec (sftp_unlink lib p)" "never_exec (sftp_lstat lib p)"
  "never_exec (sftp_read_some lib h k)" "never_exec (ssh_connect_metadata lib)"
  unfolding call_defs by (auto intro!: never_exec_intros)

lemma never_write_all [never_exec_intros]: "never_exec (write_all lib late message h bytes)"
  by (induction lib late message h bytes rule: write_all.induct) (auto intro!: never_exec_intros)

lemma never_read_bounded [never_exec_intros]: "never_exec (read_bounded lib late message h limit bytes)"
proof (induction lib late message h limit bytes rule: read_bounded.induct)
  case (1 lib late message h limit bytes)
  then show ?case
    by (subst read_bounded.simps) (auto intro!: never_exec_intros split: option.split)
qed

lemma never_list_entries [never_exec_intros]: "never_exec (list_entries lib h entries)"
proof (induction lib h entries rule: list_entries.induct)
  case (1 lib h entries)
  then show ?case
    by (subst list_entries.simps) (auto intro!: never_exec_intros split: readdir_answer.split)
qed

lemmas operation_defs =
  sftp_list_def sftp_stat_def sftp_lstat_optional_def sftp_stat_impl_def sftp_create_dir_def sftp_remove_file_def
  sftp_read_def sftp_write_def sftp_create_exclusive_def sftp_write_impl_def sync_or_fail_def close_written_def
  sftp_publish_no_replace_def start_channel_def negotiate_hardlink_def request_hardlink_def destination_there_def
  send_frame_def receive_packet_def receive_exact_def
  sftp_replace_guarded_def lstat_or_fail_def check_source_def recheck_target_def set_metadata_def fill_stage_def
  close_after_def write_stage_def check_stage_def verify_content_def publish_replacement_def replace_staged_def
  confirm_replacement_def discard_stage_def as_result_def Let_def

lemma never_operations [never_exec_intros]:
  "never_exec (sftp_list lib path t)" "never_exec (sftp_stat lib path t)" "never_exec (sftp_lstat_optional lib path t)"
  "never_exec (sftp_create_dir lib path t)" "never_exec (sftp_remove_file lib path t)" "never_exec (sftp_read lib path n t)"
  "never_exec (sftp_write lib path bytes t)" "never_exec (sftp_create_exclusive lib path bytes t)"
  "never_exec (sftp_publish_no_replace lib source destination t)" "never_exec (sftp_replace_guarded lib nonce request)"
  unfolding operation_defs by (auto intro!: never_exec_intros)

lemma never_as_result [never_exec_intros]: "never_exec m \<Longrightarrow> never_exec (as_result m)"
  unfolding as_result_def by (auto intro!: never_exec_intros)

lemma never_host_key_probe [never_exec_intros]: "never_exec (host_key_probe lib target t)"
  unfolding host_key_probe_def probed_key_def Let_def by (auto intro!: never_exec_intros)

subsection \<open>The command of an operation\<close>

text \<open>What a request may start on the server, if its parameters are those of the operation.\<close>

definition request_command :: "snapshot_probe list \<Rightarrow> exec_request \<Rightarrow> string \<Rightarrow> bool" where
  "request_command probes request command \<longleftrightarrow>
     (let operation = er_operation request; container = er_container request; unit_name = er_unit request;
          manager = er_package_manager request; package = er_package request; version = er_package_version request in
      if operation = ''docker_logs'' then
        valid_container_ref container \<and> 1 \<le> er_tail request \<and> er_tail request \<le> 500 \<and>
        command = docker_logs_command container (er_tail request)
      else if operation = ''docker_inspect'' then valid_container_ref container \<and> command = docker_inspect_command container
      else if operation = ''docker_restart'' then
        valid_container_ref container \<and> 1 \<le> er_grace_period_seconds request \<and> er_grace_period_seconds request \<le> 120 \<and>
        command = docker_restart_command container (er_grace_period_seconds request)
      else if operation = ''service_status'' then
        valid_service_name (er_service request) \<and> command = ''systemctl is-active -- '' @ er_service request
      else if operation = ''systemd_inspect'' then \<not> bad_unit unit_name \<and> command = systemd_inspect_command unit_name
      else if operation = ''systemd_restart'' then \<not> bad_unit unit_name \<and> command = systemd_restart_command unit_name
      else if operation = ''package_inspect'' then
        valid_package_manager manager \<and> valid_package_ref package \<and> command = package_inspect_command manager package
      else if operation = ''package_install'' then
        valid_package_manager manager \<and> valid_package_ref package \<and> (version = [] \<or> valid_package_version version) \<and>
        command = package_install_command manager package version
      else if operation = ''system_snapshot'' then build_system_snapshot_command probes (er_nonce request) = Some command
      else if operation = ''server_logs'' then
        (unit_name = [] \<or> \<not> bad_unit unit_name) \<and> command = server_logs_command (er_since_seconds request) unit_name
      else if operation = ''sftp_link_count'' then
        \<not> bad_absolute_path (er_path request) \<and> command = link_count_command (shell_single_quote (er_path request))
      else
        operation = ''disk_usage'' \<and> command = ''df -Pk /'' \<or>
        operation = ''docker_ps'' \<and> command = docker_ps_command (er_include_all_containers request) \<or>
        operation = ''service_inventory'' \<and> command = service_inventory_command \<or>
        operation = ''process_inventory'' \<and> command = process_inventory_command \<or>
        operation = ''port_inventory'' \<and> command = port_inventory_command)"

text \<open>The authority of a target: a one-shot command needs the flag of the host and must not be denied.\<close>

definition authorized_command ::
  "('rx \<Rightarrow> string \<Rightarrow> bool option) \<Rightarrow> snapshot_probe list \<Rightarrow> 'rx target_config \<Rightarrow> exec_request \<Rightarrow> string \<Rightarrow> bool" where
  "authorized_command search probes target request command \<longleftrightarrow>
     \<not> tc_probe_only target \<and>
     (if er_operation request = ''server_exec''
      then tc_allow_server_exec target \<and>
        server_exec_command_is_denied search (tc_server_exec_denylist target) (er_command request) = None \<and>
        command = server_exec_command request
      else request_command probes request command)"

definition executes :: "(string \<Rightarrow> bool) \<Rightarrow> ('w, 'a) ssh \<Rightarrow> bool" where
  "executes allowed m \<longleftrightarrow> (\<forall>r es. traced m r es \<longrightarrow>
     (\<exists>command. (allowed command \<or> filter is_exec es = []) \<and>
        filter is_exec es \<in> {[], [SshExec command True], [SshExec command False]}))"

lemma executes_never: "never_exec m \<Longrightarrow> executes allowed m"
  by (auto simp: executes_def never_exec_def)

lemma executes_command:
  "allowed command \<Longrightarrow> executes allowed (run_ssh_command_with_limits lib command maximum preserve)"
  unfolding executes_def using traced_command by (fastforce simp: only_starts_def)

lemma executes_timed:
  "allowed command \<Longrightarrow> executes allowed (run_ssh_command_with_timeout_limit lib command t maximum)"
  unfolding run_ssh_command_with_timeout_limit_def
  by (auto intro: executes_command executes_never never_return)

lemma executes_run: "allowed command \<Longrightarrow> executes allowed (run_ssh_command lib command t)"
  unfolding run_ssh_command_def by (rule executes_timed)

lemma executes_then:
  assumes "executes allowed m" "\<And>x. never_exec (f x)"
  shows "executes allowed (ssh_bind m f)"
  unfolding executes_def
proof (intro allI impI)
  fix r es
  assume "traced (ssh_bind m f) r es"
  then show "\<exists>command. (allowed command \<or> filter is_exec es = []) \<and>
      filter is_exec es \<in> {[], [SshExec command True], [SshExec command False]}"
  proof (cases rule: traced_bindE)
    case (stop e)
    then show ?thesis using assms(1) by (auto simp: executes_def)
  next
    case (go x es1 es2)
    then have "filter is_exec es = filter is_exec es1" using assms(2) by (simp add: never_exec_def)
    then show ?thesis using go assms(1) by (simp add: executes_def)
  qed
qed

lemma executes_if: "(b \<Longrightarrow> executes allowed m) \<Longrightarrow> (\<not> b \<Longrightarrow> executes allowed n) \<Longrightarrow> executes allowed (if b then m else n)"
  by simp

lemmas executes_intros = executes_if executes_run executes_timed executes_command

lemma executes_link_count:
  "(\<not> bad_absolute_path path \<Longrightarrow> allowed (link_count_command (shell_single_quote path))) \<Longrightarrow> executes allowed (sftp_link_count lib path t)"
  unfolding sftp_link_count_def
  by (intro executes_if executes_never never_return executes_then executes_run) (auto intro!: never_exec_intros)

lemma executes_file_operation:
  "\<not> tc_probe_only target \<Longrightarrow> run_system_operation lib search probes target request = None \<Longrightarrow>
   executes (authorized_command search probes target request) (run_file_operation lib nonce request)"
  unfolding run_file_operation_def Let_def
  by (intro executes_if executes_link_count; (rule executes_never; intro never_exec_intros)?)
    (auto simp: authorized_command_def request_command_def)

lemmas system_defs =
  service_status_def disk_usage_def server_exec_operation_def connection_check_def system_snapshot_def docker_ps_def
  docker_logs_def docker_inspect_def systemd_inspect_def package_inspect_def docker_restart_def systemd_restart_def
  package_install_def service_inventory_def process_inventory_def port_inventory_def server_logs_def

lemma executes_option:
  "(x = None \<Longrightarrow> executes allowed m) \<Longrightarrow> (\<And>y. x = Some y \<Longrightarrow> executes allowed (f y)) \<Longrightarrow>
    executes allowed (case x of None \<Rightarrow> m | Some y \<Rightarrow> f y)"
  by (simp split: option.split)

lemma never_connection_check: "never_exec (connection_check lib target t)"
  unfolding connection_check_def by (auto intro!: never_exec_intros)

lemma executes_return: "executes allowed (ssh_return x)"
  by (rule executes_never [OF never_return])

lemma executes_eq: "x = m \<Longrightarrow> executes allowed x \<Longrightarrow> executes allowed m"
  by simp

lemma if_splits_some:
  assumes "(if b then Some x else y) = Some m"
  obtains "b" "x = m" | "\<not> b" "y = Some m"
  using assms by (auto split: if_splits)

text \<open>Each operation starts its command only on checked parameters.\<close>

lemma executes_service_status:
  "(valid_service_name service \<Longrightarrow> allowed (''systemctl is-active -- '' @ service)) \<Longrightarrow> executes allowed (service_status lib service t)"
  unfolding service_status_def by (intro executes_if executes_run executes_timed executes_command executes_return) auto

lemma executes_disk_usage:
  "allowed (''df -Pk /'') \<Longrightarrow> executes allowed (disk_usage lib target t)"
  unfolding disk_usage_def by (intro executes_if executes_run executes_timed executes_command executes_return) auto

lemma executes_server_exec_operation:
  "(tc_allow_server_exec target \<Longrightarrow> server_exec_command_is_denied search (tc_server_exec_denylist target) (er_command request) = None \<Longrightarrow> allowed (server_exec_command request)) \<Longrightarrow> executes allowed (server_exec_operation lib search target request)"
  unfolding server_exec_operation_def by (intro executes_if executes_run executes_timed executes_command executes_return) auto

lemma executes_docker_ps:
  "allowed (docker_ps_command all) \<Longrightarrow> executes allowed (docker_ps lib target all t)"
  unfolding docker_ps_def by (intro executes_if executes_run executes_timed executes_command executes_return) auto

lemma executes_docker_logs:
  "(valid_container_ref container \<Longrightarrow> 1 \<le> n \<Longrightarrow> n \<le> 500 \<Longrightarrow> allowed (docker_logs_command container n)) \<Longrightarrow> executes allowed (docker_logs lib target container n t)"
  unfolding docker_logs_def by (intro executes_if executes_run executes_timed executes_command executes_return) auto

lemma executes_docker_inspect:
  "(valid_container_ref container \<Longrightarrow> allowed (docker_inspect_command container)) \<Longrightarrow> executes allowed (docker_inspect lib target container t)"
  unfolding docker_inspect_def by (intro executes_if executes_run executes_timed executes_command executes_return) auto

lemma executes_systemd_inspect:
  "(\<not> bad_unit unit_name \<Longrightarrow> allowed (systemd_inspect_command unit_name)) \<Longrightarrow> executes allowed (systemd_inspect lib target unit_name t)"
  unfolding systemd_inspect_def by (intro executes_if executes_run executes_timed executes_command executes_return) auto

lemma executes_package_inspect:
  "(valid_package_manager manager \<Longrightarrow> valid_package_ref package \<Longrightarrow> allowed (package_inspect_command manager package)) \<Longrightarrow> executes allowed (package_inspect lib target manager package t)"
  unfolding package_inspect_def by (intro executes_if executes_run executes_timed executes_command executes_return) auto

lemma executes_docker_restart:
  "(valid_container_ref container \<Longrightarrow> 1 \<le> n \<Longrightarrow> n \<le> 120 \<Longrightarrow> allowed (docker_restart_command container n)) \<Longrightarrow> executes allowed (docker_restart lib target container n t)"
  unfolding docker_restart_def by (intro executes_if executes_run executes_timed executes_command executes_return) auto

lemma executes_systemd_restart:
  "(\<not> bad_unit unit_name \<Longrightarrow> allowed (systemd_restart_command unit_name)) \<Longrightarrow> executes allowed (systemd_restart lib target unit_name t)"
  unfolding systemd_restart_def by (intro executes_if executes_run executes_timed executes_command executes_return) auto

lemma executes_package_install:
  "(valid_package_manager manager \<Longrightarrow> valid_package_ref package \<Longrightarrow> version = [] \<or> valid_package_version version \<Longrightarrow> allowed (package_install_command manager package version)) \<Longrightarrow> executes allowed (package_install lib target manager package version t)"
  unfolding package_install_def by (intro executes_if executes_run executes_timed executes_command executes_return) auto

lemma executes_service_inventory:
  "allowed (service_inventory_command) \<Longrightarrow> executes allowed (service_inventory lib t)"
  unfolding service_inventory_def by (intro executes_if executes_run executes_timed executes_command executes_return) auto

lemma executes_process_inventory:
  "allowed (process_inventory_command) \<Longrightarrow> executes allowed (process_inventory lib t)"
  unfolding process_inventory_def by (intro executes_if executes_run executes_timed executes_command executes_return) auto

lemma executes_port_inventory:
  "allowed (port_inventory_command) \<Longrightarrow> executes allowed (port_inventory lib t)"
  unfolding port_inventory_def by (intro executes_if executes_run executes_timed executes_command executes_return) auto

lemma executes_server_logs:
  "(unit_name = [] \<or> \<not> bad_unit unit_name \<Longrightarrow> allowed (server_logs_command since unit_name)) \<Longrightarrow> executes allowed (server_logs lib since unit_name t)"
  unfolding server_logs_def by (intro executes_if executes_run executes_timed executes_command executes_return) auto

lemma executes_system_snapshot:
  "(\<And>command. build_system_snapshot_command probes nonce = Some command \<Longrightarrow> allowed command) \<Longrightarrow>
   executes allowed (system_snapshot lib probes target nonce t)"
  unfolding system_snapshot_def by (intro executes_if executes_option executes_run executes_return)

lemmas executes_operations =
  executes_service_status
  executes_disk_usage
  executes_server_exec_operation
  executes_docker_ps
  executes_docker_logs
  executes_docker_inspect
  executes_systemd_inspect
  executes_package_inspect
  executes_docker_restart
  executes_systemd_restart
  executes_package_install
  executes_service_inventory
  executes_process_inventory
  executes_port_inventory
  executes_server_logs
  executes_system_snapshot

lemma executes_system_operation:
  assumes "\<not> tc_probe_only target" "run_system_operation lib search probes target request = Some m"
  shows "executes (authorized_command search probes target request) m"
proof -
  let ?ok = "authorized_command search probes target request" and ?t = "er_timeout_seconds request"
  note table = authorized_command_def request_command_def assms(1)
  have service_status: "er_operation request = ''service_status'' \<Longrightarrow> executes ?ok (service_status lib (er_service request) ?t)"
    by (rule executes_service_status) (simp_all add: table)
  have disk_usage: "er_operation request = ''disk_usage'' \<Longrightarrow> executes ?ok (disk_usage lib target ?t)"
    by (rule executes_disk_usage) (simp_all add: table)
  have server_exec: "er_operation request = ''server_exec'' \<Longrightarrow> executes ?ok (server_exec_operation lib search target request)"
    by (rule executes_server_exec_operation) (simp_all add: table)
  have system_snapshot: "er_operation request = ''system_snapshot'' \<Longrightarrow> executes ?ok (system_snapshot lib probes target (er_nonce request) ?t)"
    by (rule executes_system_snapshot) (simp_all add: table)
  have docker_ps: "er_operation request = ''docker_ps'' \<Longrightarrow> executes ?ok (docker_ps lib target (er_include_all_containers request) ?t)"
    by (rule executes_docker_ps) (simp_all add: table)
  have docker_logs: "er_operation request = ''docker_logs'' \<Longrightarrow> executes ?ok (docker_logs lib target (er_container request) (er_tail request) ?t)"
    by (rule executes_docker_logs) (simp_all add: table)
  have docker_inspect: "er_operation request = ''docker_inspect'' \<Longrightarrow> executes ?ok (docker_inspect lib target (er_container request) ?t)"
    by (rule executes_docker_inspect) (simp_all add: table)
  have systemd_inspect: "er_operation request = ''systemd_inspect'' \<Longrightarrow> executes ?ok (systemd_inspect lib target (er_unit request) ?t)"
    by (rule executes_systemd_inspect) (simp_all add: table)
  have package_inspect: "er_operation request = ''package_inspect'' \<Longrightarrow> executes ?ok (package_inspect lib target (er_package_manager request) (er_package request) ?t)"
    by (rule executes_package_inspect) (simp_all add: table)
  have docker_restart: "er_operation request = ''docker_restart'' \<Longrightarrow> executes ?ok (docker_restart lib target (er_container request) (er_grace_period_seconds request) ?t)"
    by (rule executes_docker_restart) (simp_all add: table)
  have systemd_restart: "er_operation request = ''systemd_restart'' \<Longrightarrow> executes ?ok (systemd_restart lib target (er_unit request) ?t)"
    by (rule executes_systemd_restart) (simp_all add: table)
  have package_install: "er_operation request = ''package_install'' \<Longrightarrow> executes ?ok (package_install lib target (er_package_manager request) (er_package request) (er_package_version request) ?t)"
    by (rule executes_package_install) (simp_all add: table)
  have service_inventory: "er_operation request = ''service_inventory'' \<Longrightarrow> executes ?ok (service_inventory lib ?t)"
    by (rule executes_service_inventory) (simp_all add: table)
  have process_inventory: "er_operation request = ''process_inventory'' \<Longrightarrow> executes ?ok (process_inventory lib ?t)"
    by (rule executes_process_inventory) (simp_all add: table)
  have port_inventory: "er_operation request = ''port_inventory'' \<Longrightarrow> executes ?ok (port_inventory lib ?t)"
    by (rule executes_port_inventory) (simp_all add: table)
  have server_logs: "er_operation request = ''server_logs'' \<Longrightarrow> executes ?ok (server_logs lib (er_since_seconds request) (er_unit request) ?t)"
    by (rule executes_server_logs) (simp_all add: table)
  show ?thesis
    using assms(2) executes_never [OF never_connection_check [of lib target ?t], of ?ok]
    unfolding run_system_operation_def Let_def
    apply (elim if_splits_some)
    apply (erule executes_eq, (assumption |
          (rule service_status disk_usage server_exec system_snapshot docker_ps docker_logs docker_inspect systemd_inspect package_inspect
             docker_restart systemd_restart package_install service_inventory process_inventory port_inventory server_logs, assumption)))+
    by (simp only: option.distinct)
qed

text \<open>C2: Only an authorized command reaches the server.  In every run of every request at every target, at
  most one command is started, none at a target that is only probed, and it is the command of the requested operation
  over parameters that passed its validation; a one-shot command is the requested one, and it needs the authorization
  flag of the target and must not be on the deny list.\<close>

theorem only_authorized_commands:
  "case run_operation lib search probes stage_nonce target request w of (r, w', es) \<Rightarrow>
     filter is_exec es = [] \<or>
     (\<exists>command started. filter is_exec es = [SshExec command started] \<and>
        authorized_command search probes target request command)"
proof -
  have "executes (authorized_command search probes target request) (run_operation lib search probes stage_nonce target request)"
    unfolding run_operation_def
    by (intro executes_if executes_option executes_return executes_never [OF never_host_key_probe]
        executes_file_operation executes_system_operation)
  moreover obtain r w' es where run: "run_operation lib search probes stage_nonce target request w = (r, w', es)"
    by (cases "run_operation lib search probes stage_nonce target request w")
  moreover have "traced (run_operation lib search probes stage_nonce target request) r es"
    using run by (auto simp: traced_def)
  ultimately obtain command where "authorized_command search probes target request command \<or> filter is_exec es = []"
    "filter is_exec es \<in> {[], [SshExec command True], [SshExec command False]}"
    unfolding executes_def by blast
  then show ?thesis unfolding run prod.case by auto
qed

end
