(* ===== verification/Spec2Isabelle.thy ===== *)
theory Spec2Isabelle
  imports PolicyProps ApprovalProps DispatcherProps HostTrustProps ConfigProps HostCertProps
    TransferProps TransferDownloadProps TransferBatchProps TransferStartProps TransferManagerProps TransferRecoveryProps
    SshReplaceProps SshPublishProps SshSftpProps SnapshotProps SshCommandProps SshExecProps SshAuthority
begin

text \<open>
  Yukinal's native core: a verification library.

  Yukinal is a desktop application that works on remote servers.  A desktop host
  (\<^verbatim>\<open>src/native/desktop_host\<close>) owns the database, the windows and the transfers, an agent proposes actions,
  and a separate SSH service (\<^verbatim>\<open>src/native/src\<close>) is the only part that talks to a server.  A request reaches the
  service as JSON: \<^verbatim>\<open>parse_config\<close> has accepted its target, \<^verbatim>\<open>parse_exec_request\<close> checks the request, the host key is
  compared with a pin or a certificate, and \<^verbatim>\<open>run_operation\<close> runs one structured operation over the session.  In the
  host an action of the agent runs only with a ticket of the approval ledger, requests of the windows pass the
  dispatcher, and files are moved by the transfer manager.

  \<^bold>\<open>Foundations.\<close>  \<open>Prelude\<close> (byte strings, expiring tables, the interfaces \<open>codec\<close>, \<open>strict_codec\<close>,
  \<open>expiring_table\<close>, \<open>machine\<close> and \<open>traced_machine\<close>), \<open>Json\<close> (values of \<^verbatim>\<open>nlohmann::json\<close>), \<open>Digits\<close> (printed numbers),
  \<open>Wire\<close> (SSH strings), \<open>Base64\<close> and \<open>Sha256\<close> (\<^verbatim>\<open>decode_base64\<close> and \<^verbatim>\<open>ContentHasher\<close>, each against a reference).

  \<^bold>\<open>The SSH service.\<close>
  \<^item> \<open>PolicyRules\<close>, \<open>PolicyParse\<close>: \<^verbatim>\<open>policy.cpp\<close>, the identifier rules and the request parser; \<open>PolicyProps\<close> has
    the language of the accepted requests, one rule per operation.
  \<^item> \<open>ConfigNet\<close>, \<open>ConfigDeny\<close>, \<open>ConfigParse\<close>: \<^verbatim>\<open>config.cpp\<close>, addresses, proxies, the deny list and the targets;
    \<open>ConfigProps\<close> has the invariant of the targets and the reading of CIDR blocks.
  \<^item> \<open>HostKey\<close>, \<open>HostCert\<close>, \<open>Krl\<close>: \<^verbatim>\<open>host_key.cpp\<close> and \<^verbatim>\<open>host_certificate.cpp\<close>, fingerprints, certificates and
    revocation lists; \<open>HostCertFacts\<close>, \<open>KrlFacts\<close>, \<open>HostCertProps\<close> say exactly what is accepted, \<open>KrlLayout\<close>
    where the sections and signatures of an accepted list stand in its bytes.
  \<^item> \<open>SshWorld\<close>: calls of \<^verbatim>\<open>libssh2\<close> and the clock as functions of a world, a run as the list of its calls.
    \<open>SshExec\<close> (\<^verbatim>\<open>run_ssh_command_with_limits\<close>), \<open>SshSftp\<close>, \<open>SshReplace\<close>, \<open>SshPublish\<close> (the file operations),
    \<open>SnapshotToolkit\<close> (\<^verbatim>\<open>snapshot_toolkit.hpp\<close>) and \<open>SshOperations\<close> (the commands and \<^verbatim>\<open>run_operation\<close>) follow \<^verbatim>\<open>ssh.cpp\<close>.
    \<open>ShellWords\<close> is the part of the shell's grammar that reads the commands.  \<open>SshExecProps\<close>, \<open>SshSftpProps\<close>,
    \<open>SshReplaceProps\<close>, \<open>SshPublishProps\<close>, \<open>SnapshotProps\<close>, \<open>SshCommandProps\<close> and \<open>SshAuthority\<close> show what every run may do to
    the server and what its result says.

  \<^bold>\<open>The desktop host.\<close>
  \<^item> \<open>Approval\<close>, \<open>ApprovalProps\<close>: \<^verbatim>\<open>desktop_approval.cpp\<close>, the ledger of one-time tickets as a machine of its critical
    sections; a ticket authorises the announced action once.
  \<^item> \<open>Dispatcher\<close>, \<open>DispatcherProps\<close>: \<^verbatim>\<open>ipc_dispatcher.cpp\<close>, queues, shared reads and the byte budget.
  \<^item> \<open>HostTrust\<close>, \<open>HostTrustProps\<close>: \<^verbatim>\<open>host_trust.cpp\<close> and the host key commands of \<^verbatim>\<open>ipc_router.cpp\<close>.
  \<^item> \<open>TransferTypes\<close>, \<open>TransferProps\<close>: \<^verbatim>\<open>transfer_types.cpp\<close>, the records, names and paths of transfers.
  \<^item> \<open>TransferCell\<close>, \<open>TransferWorld\<close>, \<open>TransferLocal\<close>, \<open>TransferEngine\<close>, \<open>TransferFile\<close>, \<open>TransferBatch\<close>: the worker of
    \<^verbatim>\<open>transfer_manager.cpp\<close> with \<^verbatim>\<open>transfer_local.cpp\<close>, over a remote backend, ledger, file system, clock and cancellation
    flag that may answer anything.  \<open>TransferTrace\<close>, \<open>TransferFacts\<close>, \<open>TransferUpload\<close>, \<open>TransferUploadRun\<close>,
    \<open>TransferDownload\<close> and \<open>TransferEnds\<close> are the lemmas on its log; \<open>TransferUploadProps\<close>, \<open>TransferDownloadProps\<close> and
    \<open>TransferBatchProps\<close> the properties of files and batches, \<open>TransferJobProps\<close> of finished jobs.
  \<^item> \<open>TransferManager\<close>, \<open>TransferStart\<close>, \<open>TransferRecovery\<close> and their properties: admission and permits in every
    interleaving, starting and settling, shutdown, and recovery of interrupted transfers, with the rows that the
    history is asked to store.

  \<^bold>\<open>Parameters.\<close>  What is not under \<^verbatim>\<open>src/\<close> is an argument: OpenSSL (\<open>crypto\<close>), \<^verbatim>\<open>std::regex\<close> and
  \<^verbatim>\<open>std::filesystem\<close> (\<open>config_env\<close>), the worlds of a transfer (\<open>transfer_env\<close>) and of an SSH session (\<open>ssh_library\<close>),
  file faults (\<open>io_env\<close>), the printer of JSON.  The properties hold for every choice of them unless they name a
  hypothesis.

  \<^bold>\<open>Fuel.\<close>  Three loops of a transfer (copying, hashing and waiting for a decision) and the walk of a batch end only
  when the other side lets them; they take \<open>env_fuel\<close> rounds, and \<open>transfer_ends\<close> shows that a run without a result
  received that many chunks or waited that often.  The output loop of a command takes the rounds that start before its
  deadline (\<open>sl_rounds\<close>), and running out of them is the timeout of the source.  Every other function is total.

  \<^bold>\<open>Not modelled.\<close>  DNS, sockets, TLS, key exchange and key files, the interactive terminal and the framed SFTP stream of
  \<^verbatim>\<open>ssh.cpp\<close>; the SQL of \<^verbatim>\<open>database.cpp\<close> and \<^verbatim>\<open>transfer_history.cpp\<close>; the other routes of \<^verbatim>\<open>ipc_router.cpp\<close>, which
  move fields between JSON and the database; child processes, OAuth, MCP, key chains and windows, which are calls of the
  operating system or of third-party libraries; the TypeScript interface and the Python agent.  The destructor of
  \<^verbatim>\<open>SshResources\<close> is not part of an SSH run, durations of results are left out, and a read loop on a channel is one call.
\<close>

end
